(* ===== verification/Prelude.thy ===== *)
theory Prelude
  imports
    Main
    Complex_Main
    "HOL-Library.AList"
    "HOL-Library.List_Lexorder"
    "HOL-Library.Char_ord"
    "HOL-Library.Sublist"
begin

text \<open>
  What the components share: the values a Python program computes with (JSON-like data,
  strings, numbers), the operations the source applies to them, results of fallible code
  and the lemma collections used by the component theories.

  Conventions.
  \<^item> A Python \<open>str\<close> is its UTF-8 encoding, a \<open>string\<close> of bytes. Concatenation, equality,
    \<open>in\<close>, \<open>startswith\<close>, \<open>endswith\<close> and the code point order agree with the byte-wise ones;
    \<open>len\<close> and slicing count code points (\<open>py_len\<close>, \<open>py_take\<close>). \<open>lower\<close> and \<open>strip\<close> are
    the ASCII ones.
  \<^item> A Python \<open>int\<close> is an \<open>int\<close>; a finite \<open>float\<close> is the rational number it denotes. Rounding
    of float arithmetic, infinities and NaN are not modelled.
  \<^item> A \<open>dict\<close> with string keys is an association list in insertion order.
  \<^item> Instants (\<open>datetime\<close>) are integers (microseconds of UTC).
  \<^item> An exception is the left injection of a sum.
\<close>

section \<open>Lemma collections\<close>

named_theorems mem_defs \<open>definitions of the memory plane unfolded together\<close>
named_theorems ctx_defs \<open>definitions of the runtime context unfolded together\<close>

section \<open>Strings\<close>

definition is_cont_byte :: "char \<Rightarrow> bool" where
  "is_cont_byte c \<longleftrightarrow> (128::nat) \<le> of_char c \<and> of_char c < (192::nat)"

text \<open>\<open>len(s)\<close> and \<open>s[:n]\<close> count code points: the bytes that are not continuation bytes.\<close>

definition py_len :: "string \<Rightarrow> nat" where
  "py_len s = length (filter (\<lambda>c. \<not> is_cont_byte c) s)"

fun py_take :: "nat \<Rightarrow> string \<Rightarrow> string" where
  "py_take n [] = []"
| "py_take n (c # cs) =
     (if is_cont_byte c then c # py_take n cs
      else case n of 0 \<Rightarrow> [] | Suc m \<Rightarrow> c # py_take m cs)"

lemma py_len_take: "py_len (py_take n s) \<le> n"
  by (induction n s rule: py_take.induct) (auto simp: py_len_def split: nat.splits)

lemma prefix_py_take: "prefix (py_take n s) s"
  by (induction n s rule: py_take.induct) (auto split: nat.splits)

text \<open>The characters \<open>str.strip\<close> removes (ASCII).\<close>

definition is_space :: "char \<Rightarrow> bool" where
  "is_space c \<longleftrightarrow>
     (let n = (of_char c :: nat) in n = 32 \<or> (9 \<le> n \<and> n \<le> 13) \<or> (28 \<le> n \<and> n \<le> 31))"

definition py_strip :: "string \<Rightarrow> string" where
  "py_strip s = rev (dropWhile is_space (rev (dropWhile is_space s)))"

definition lower_char :: "char \<Rightarrow> char" where
  "lower_char c =
     (let n = (of_char c :: nat) in if 65 \<le> n \<and> n \<le> 90 then char_of (n + 32) else c)"

definition py_lower :: "string \<Rightarrow> string" where
  "py_lower s = map lower_char s"

text \<open>\<open>needle in haystack\<close>.\<close>

definition contains :: "string \<Rightarrow> string \<Rightarrow> bool" where
  "contains needle haystack \<longleftrightarrow> sublist needle haystack"

definition starts_with :: "string \<Rightarrow> string \<Rightarrow> bool" where
  "starts_with s p \<longleftrightarrow> prefix p s"

definition ends_with :: "string \<Rightarrow> string \<Rightarrow> bool" where
  "ends_with s p \<longleftrightarrow> suffix p s"

text \<open>\<open>s.removeprefix(p)\<close>.\<close>

definition remove_prefix :: "string \<Rightarrow> string \<Rightarrow> string" where
  "remove_prefix p s = (if prefix p s then drop (length p) s else s)"

text \<open>The UTF-8 encoding of a list of code points, for the non-ASCII literals of the source.\<close>

definition utf8 :: "nat \<Rightarrow> string" where
  "utf8 n =
     (if n < 128 then [char_of n]
      else if n < 2048 then [char_of (192 + n div 64), char_of (128 + n mod 64)]
      else if n < 65536 then
        [char_of (224 + n div 4096), char_of (128 + n div 64 mod 64), char_of (128 + n mod 64)]
      else
        [char_of (240 + n div 262144), char_of (128 + n div 4096 mod 64),
         char_of (128 + n div 64 mod 64), char_of (128 + n mod 64)])"

definition cps :: "nat list \<Rightarrow> string" where
  "cps ns = concat (map utf8 ns)"

text \<open>The characters of a text, each with its continuation bytes.\<close>

function chars :: "string \<Rightarrow> string list" where
  "chars [] = []"
| "chars (c # cs) = (c # takeWhile is_cont_byte cs) # chars (dropWhile is_cont_byte cs)"
  by pat_completeness auto

termination
  by (relation "measure length") (auto simp: le_imp_less_Suc length_dropWhile_le)

text \<open>\<open>sep.join(parts)\<close>.\<close>

fun py_join :: "string \<Rightarrow> string list \<Rightarrow> string" where
  "py_join sep [] = []"
| "py_join sep [x] = x"
| "py_join sep (x # y # xs) = x @ sep @ py_join sep (y # xs)"

text \<open>Decimal text of a natural number and of an integer.\<close>

fun nat_text :: "nat \<Rightarrow> string" where
  "nat_text n =
     (if n < 10 then [char_of (48 + n)] else nat_text (n div 10) @ [char_of (48 + n mod 10)])"

declare nat_text.simps [simp del]

definition int_text :: "int \<Rightarrow> string" where
  "int_text i = (if i < 0 then ''-'' @ nat_text (nat (- i)) else nat_text (nat i))"

lemma nat_text_not_Nil [simp]: "nat_text n \<noteq> []"
  by (subst nat_text.simps) simp

lemma int_text_not_Nil [simp]: "int_text i \<noteq> []"
  by (simp add: int_text_def)

definition is_digit :: "char \<Rightarrow> bool" where
  "is_digit c \<longleftrightarrow> (48::nat) \<le> of_char c \<and> of_char c \<le> (57::nat)"

definition digits_value :: "string \<Rightarrow> nat" where
  "digits_value s = foldl (\<lambda>acc c. acc * 10 + (of_char c - 48)) 0 s"

text \<open>
  \<open>int(s)\<close> of a text: surrounding white space, an optional sign, ASCII digits; anything else
  raises \<open>ValueError\<close> (\<open>None\<close>). Digit group underscores are not modelled.
\<close>

definition parse_int :: "string \<Rightarrow> int option" where
  "parse_int s =
     (let t = py_strip s;
          neg = (t \<noteq> [] \<and> hd t = CHR ''-'');
          body = (if t \<noteq> [] \<and> (hd t = CHR ''-'' \<or> hd t = CHR ''+'') then tl t else t)
      in if body \<noteq> [] \<and> list_all is_digit body
         then Some (if neg then - int (digits_value body) else int (digits_value body))
         else None)"

text \<open>\<open>int(str(i)) = i\<close>.\<close>

lemma digit_char: "(d::nat) < 10 \<Longrightarrow> is_digit (char_of (48 + d))"
  by (simp add: is_digit_def)

lemma digits_value_snoc: "digits_value (s @ [c]) = digits_value s * 10 + (of_char c - 48)"
  by (simp add: digits_value_def)

lemma nat_text_digits: "list_all is_digit (nat_text n) \<and> digits_value (nat_text n) = n"
proof (induction n rule: nat_text.induct)
  case (1 n)
  show ?case
  proof (cases "n < 10")
    case True
    then show ?thesis
      by (subst (1 2) nat_text.simps) (simp add: digit_char digits_value_def)
  next
    case False
    then have "n div 10 * 10 + n mod 10 = n" by simp
    with False 1 show ?thesis
      by (subst (1 2) nat_text.simps) (simp add: digit_char digits_value_snoc)
  qed
qed

lemma digit_not_space: "is_digit c \<Longrightarrow> \<not> is_space c"
  by (auto simp: is_digit_def is_space_def Let_def)

lemma strip_no_space: "list_all (\<lambda>c. \<not> is_space c) s \<Longrightarrow> py_strip s = s"
proof -
  assume a: "list_all (\<lambda>c. \<not> is_space c) s"
  have "dropWhile is_space t = t" if "list_all (\<lambda>c. \<not> is_space c) t" for t
    using that by (cases t) simp_all
  from this [OF a] this [of "rev s"] a show ?thesis by (simp add: py_strip_def)
qed

lemma parse_int_text [simp]: "parse_int (int_text i) = Some i"
proof -
  have nat: "list_all is_digit (nat_text n)" "digits_value (nat_text n) = n" for n
    using nat_text_digits by simp_all
  have sp: "list_all (\<lambda>c. \<not> is_space c) (nat_text n)" for n
    using nat(1) by (rule list.pred_mono_strong) (simp add: digit_not_space)
  have hd: "hd (nat_text n) \<noteq> CHR ''-''" "hd (nat_text n) \<noteq> CHR ''+''" for n
  proof -
    have "is_digit (hd (nat_text n))" using nat(1) [of n] by (cases "nat_text n") simp_all
    then show "hd (nat_text n) \<noteq> CHR ''-''" "hd (nat_text n) \<noteq> CHR ''+''"
      by (auto simp: is_digit_def)
  qed
  show ?thesis
  proof (cases "i < 0")
    case True
    have "py_strip (CHR ''-'' # nat_text (nat (- i))) = CHR ''-'' # nat_text (nat (- i))"
      using sp by (intro strip_no_space) (simp add: is_space_def)
    with True show ?thesis by (simp add: parse_int_def int_text_def nat Let_def)
  next
    case False
    have "py_strip (nat_text (nat i)) = nat_text (nat i)"
      using sp by (intro strip_no_space) simp
    with False show ?thesis by (simp add: parse_int_def int_text_def nat hd Let_def)
  qed
qed
text \<open>\<open>s.isdigit()\<close> (ASCII).\<close>

definition py_isdigit :: "string \<Rightarrow> bool" where
  "py_isdigit s \<longleftrightarrow> s \<noteq> [] \<and> list_all is_digit s"

text \<open>
  \<open>float(s)\<close> of a text: an optional sign, digits, an optional fraction. Exponents, \<open>inf\<close>
  and \<open>nan\<close> are not modelled (they are \<open>None\<close> here).
\<close>

definition parse_float :: "string \<Rightarrow> rat option" where
  "parse_float s =
     (let t = py_strip s;
          neg = (t \<noteq> [] \<and> hd t = CHR ''-'');
          body = (if t \<noteq> [] \<and> (hd t = CHR ''-'' \<or> hd t = CHR ''+'') then tl t else t);
          ip = takeWhile is_digit body;
          rest = dropWhile is_digit body;
          fp = (if rest \<noteq> [] then tl rest else [])
      in if (rest = [] \<or> hd rest = CHR ''.'') \<and> list_all is_digit fp \<and> ip @ fp \<noteq> []
         then let v = of_nat (digits_value ip) + of_nat (digits_value fp) / 10 ^ length fp
              in Some (if neg then - v else v)
         else None)"

section \<open>Dynamic values\<close>

text \<open>The values of \<open>dict[str, Any]\<close> data: what \<open>json.loads\<close> produces.\<close>

datatype pyval =
    PNone
  | PBool bool
  | PInt int
  | PFloat rat
  | PStr string
  | PList "pyval list"
  | PDict "(string \<times> pyval) list"

type_synonym pydict = "(string \<times> pyval) list"

text \<open>\<open>bool(v)\<close>.\<close>

fun truthy :: "pyval \<Rightarrow> bool" where
  "truthy PNone = False"
| "truthy (PBool b) = b"
| "truthy (PInt i) = (i \<noteq> 0)"
| "truthy (PFloat r) = (r \<noteq> 0)"
| "truthy (PStr s) = (s \<noteq> [])"
| "truthy (PList xs) = (xs \<noteq> [])"
| "truthy (PDict d) = (d \<noteq> [])"

text \<open>\<open>a or b\<close>.\<close>

definition py_or :: "pyval \<Rightarrow> pyval \<Rightarrow> pyval" where
  "py_or a b = (if truthy a then a else b)"

text \<open>
  \<open>str(v)\<close>. Nested strings are printed with single quotes and no escapes; a float is printed
  as its decimal expansion cut after 16 digits.
\<close>

fun frac_digits :: "nat \<Rightarrow> rat \<Rightarrow> string" where
  "frac_digits 0 r = []"
| "frac_digits (Suc n) r =
     (if r = 0 then []
      else char_of (48 + nat (floor (r * 10))) # frac_digits n (r * 10 - of_int (floor (r * 10))))"

definition float_text :: "rat \<Rightarrow> string" where
  "float_text r =
     (let a = (if r < 0 then - r else r);
          ip = floor a;
          fp = frac_digits 16 (a - of_int ip)
      in (if r < 0 then ''-'' else []) @ int_text ip @ ''.'' @ (if fp = [] then ''0'' else fp))"

fun py_repr :: "pyval \<Rightarrow> string" where
  "py_repr PNone = ''None''"
| "py_repr (PBool b) = (if b then ''True'' else ''False'')"
| "py_repr (PInt i) = int_text i"
| "py_repr (PFloat r) = float_text r"
| "py_repr (PStr s) = [char_of (39::nat)] @ s @ [char_of (39::nat)]"
| "py_repr (PList xs) = ''['' @ py_join '', '' (map py_repr xs) @ '']''"
| "py_repr (PDict d) =
     [char_of (123::nat)] @
     py_join '', '' (map (\<lambda>(k, v). [char_of (39::nat)] @ k @ [char_of (39::nat)] @ '': '' @ py_repr v) d) @
     [char_of (125::nat)]"

fun py_str :: "pyval \<Rightarrow> string" where
  "py_str (PStr s) = s"
| "py_str v = py_repr v"

fun py_num :: "pyval \<Rightarrow> rat option" where
  "py_num (PBool b) = Some (if b then 1 else 0)"
| "py_num (PInt i) = Some (of_int i)"
| "py_num (PFloat r) = Some r"
| "py_num v = None"

text \<open>\<open>a == b\<close>: numbers and booleans compare by value, dictionaries ignore the order of keys.\<close>

function (sequential) py_eq :: "pyval \<Rightarrow> pyval \<Rightarrow> bool" where
  "py_eq PNone w = (w = PNone)"
| "py_eq (PStr s) w = (w = PStr s)"
| "py_eq (PList xs) w =
     (case w of
        PList ys \<Rightarrow> length xs = length ys \<and> list_all (\<lambda>p. py_eq (fst p) (snd p)) (zip xs ys)
      | _ \<Rightarrow> False)"
| "py_eq (PDict d) w =
     (case w of
        PDict e \<Rightarrow> length d = length e \<and>
          list_all (\<lambda>p. case map_of e (fst p) of None \<Rightarrow> False | Some u \<Rightarrow> py_eq (snd p) u) d
      | _ \<Rightarrow> False)"
| "py_eq v w = (case py_num w of None \<Rightarrow> False | Some q \<Rightarrow> py_num v = Some q)"
  by pat_completeness auto

lemma size_zip_fst: "p \<in> set (zip xs ys) \<Longrightarrow> size (fst p) < Suc (size_list size (xs :: pyval list))"
proof -
  assume "p \<in> set (zip xs ys)"
  then have "fst p \<in> set xs" by (metis prod.collapse set_zip_leftD)
  then show ?thesis by (simp add: size_list_estimation' le_imp_less_Suc)
qed

lemma size_dict_snd:
  "p \<in> set d \<Longrightarrow> size (snd p) < Suc (size_list (size_prod (\<lambda>x. 0) size) (d :: pydict))"
proof -
  assume "p \<in> set d"
  then have "size (snd p) \<le> size_list (size_prod (\<lambda>x. 0) size) d"
    by (rule size_list_estimation') (simp add: size_prod_simp)
  then show ?thesis by simp
qed

termination py_eq
  by (relation "measure (\<lambda>(v, w). size v)")
    (force dest: size_zip_fst size_dict_snd)+

text \<open>\<open>isinstance(v, (int, float))\<close> (a bool is an int).\<close>

fun is_number :: "pyval \<Rightarrow> bool" where
  "is_number (PBool b) = True"
| "is_number (PInt i) = True"
| "is_number (PFloat r) = True"
| "is_number v = False"

fun is_int :: "pyval \<Rightarrow> bool" where
  "is_int (PBool b) = True"
| "is_int (PInt i) = True"
| "is_int v = False"

fun is_str :: "pyval \<Rightarrow> bool" where
  "is_str (PStr s) = True"
| "is_str v = False"

fun is_list :: "pyval \<Rightarrow> bool" where
  "is_list (PList xs) = True"
| "is_list v = False"

fun is_dict :: "pyval \<Rightarrow> bool" where
  "is_dict (PDict d) = True"
| "is_dict v = False"

text \<open>
  \<open>float(v)\<close> and \<open>int(v)\<close>; \<open>None\<close> stands for \<open>TypeError\<close> or \<open>ValueError\<close>. \<open>int\<close> of a
  float truncates towards zero.
\<close>

fun py_float :: "pyval \<Rightarrow> rat option" where
  "py_float (PStr s) = parse_float s"
| "py_float v = py_num v"

fun py_int :: "pyval \<Rightarrow> int option" where
  "py_int (PBool b) = Some (if b then 1 else 0)"
| "py_int (PInt i) = Some i"
| "py_int (PFloat r) = Some (if r < 0 then - floor (- r) else floor r)"
| "py_int (PStr s) = parse_int s"
| "py_int v = None"

section \<open>Dictionaries\<close>

text \<open>\<open>d.get(k, default)\<close> and \<open>d.get(k)\<close>.\<close>

definition dget_or :: "pydict \<Rightarrow> string \<Rightarrow> pyval \<Rightarrow> pyval" where
  "dget_or d k v = (case map_of d k of None \<Rightarrow> v | Some w \<Rightarrow> w)"

definition dget :: "pydict \<Rightarrow> string \<Rightarrow> pyval" where
  "dget d k = dget_or d k PNone"

definition has_key :: "pydict \<Rightarrow> string \<Rightarrow> bool" where
  "has_key d k \<longleftrightarrow> map_of d k \<noteq> None"

text \<open>\<open>str(d.get(k))\<close>.\<close>

definition get_text :: "pydict \<Rightarrow> string \<Rightarrow> string" where
  "get_text d k = py_str (dget d k)"

text \<open>\<open>v if isinstance(v, dict) else {}\<close>, and the same for lists.\<close>

fun as_dict :: "pyval \<Rightarrow> pydict" where
  "as_dict (PDict d) = d"
| "as_dict v = []"

fun as_list :: "pyval \<Rightarrow> pyval list" where
  "as_list (PList xs) = xs"
| "as_list v = []"

text \<open>\<open>d[k] = v\<close> keeps the position of an existing key; \<open>{**d, **e}\<close>.\<close>

abbreviation dset :: "string \<Rightarrow> pyval \<Rightarrow> pydict \<Rightarrow> pydict" where
  "dset k v d \<equiv> AList.update k v d"

definition dmerge :: "pydict \<Rightarrow> pydict \<Rightarrow> pydict" where
  "dmerge d e = fold (\<lambda>(k, v). AList.update k v) e d"

lemma dget_set [simp]: "dget (dset k v d) j = (if j = k then v else dget d j)"
  by (simp add: dget_def dget_or_def update_conv)

lemma dget_or_set [simp]: "dget_or (dset k v d) j w = (if j = k then v else dget_or d j w)"
  by (simp add: dget_or_def update_conv)

lemma dget_Nil [simp]: "dget [] k = PNone"
  by (simp add: dget_def dget_or_def)

lemma dget_Cons [simp]: "dget ((j, v) # d) k = (if j = k then v else dget d k)"
  by (simp add: dget_def dget_or_def)

lemma dget_or_Nil [simp]: "dget_or [] k w = w"
  by (simp add: dget_or_def)

lemma dget_or_Cons [simp]: "dget_or ((j, v) # d) k w = (if j = k then v else dget_or d k w)"
  by (simp add: dget_or_def)

lemma has_key_Nil [simp]: "\<not> has_key [] k"
  by (simp add: has_key_def)

lemma has_key_Cons [simp]: "has_key ((j, v) # d) k \<longleftrightarrow> j = k \<or> has_key d k"
  by (simp add: has_key_def)

lemma map_of_dmerge: "distinct (map fst e) \<Longrightarrow> map_of (dmerge d e) = map_of d ++ map_of e"
proof (induction e arbitrary: d)
  case Nil
  then show ?case by (simp add: dmerge_def)
next
  case (Cons p e)
  obtain k v where p: "p = (k, v)" by (cases p)
  from Cons have "map_of (dmerge (AList.update k v d) e) = map_of (AList.update k v d) ++ map_of e"
    by (simp add: p)
  moreover from Cons.prems have "k \<notin> dom (map_of e)"
    by (simp add: p dom_map_of_conv_image_fst)
  ultimately show ?case
    by (auto simp: p dmerge_def update_conv map_add_def fun_eq_iff split: option.splits)
qed

lemma update_fresh: "k \<notin> fst ` set d \<Longrightarrow> AList.update k v d = d @ [(k, v)]"
  by (induction d) auto

lemma update_idem: "map_of d k = Some v \<Longrightarrow> distinct (map fst d) \<Longrightarrow> AList.update k v d = d"
  by (induction d) (auto simp: rev_image_eqI split: if_splits)

text \<open>Rebuilding a dictionary entry by entry gives the entries back, in order.\<close>

lemma fold_update_distinct:
  "distinct (map fst xs) \<Longrightarrow> fst ` set d \<inter> fst ` set xs = {} \<Longrightarrow>
     fold (\<lambda>(k, v) acc. AList.update k v acc) xs d = d @ xs"
proof (induction xs arbitrary: d)
  case Nil
  then show ?case by simp
next
  case (Cons p xs)
  obtain k v where p: "p = (k, v)" by (cases p)
  with Cons.prems have "AList.update k v d = d @ [(k, v)]"
    by (intro update_fresh) auto
  moreover have "fst ` set (d @ [(k, v)]) \<inter> fst ` set xs = {}"
    using Cons.prems p by auto
  ultimately show ?case
    using Cons.IH [of "d @ [(k, v)]"] Cons.prems p by simp
qed

section \<open>Results\<close>

text \<open>A computation over a list that stops at the first exception.\<close>

fun traverse :: "('a \<Rightarrow> 'e + 'b) \<Rightarrow> 'a list \<Rightarrow> 'e + 'b list" where
  "traverse f [] = Inr []"
| "traverse f (x # xs) =
     (case f x of
        Inl e \<Rightarrow> Inl e
      | Inr y \<Rightarrow> (case traverse f xs of Inl e \<Rightarrow> Inl e | Inr ys \<Rightarrow> Inr (y # ys)))"

lemma traverse_Inr_iff:
  "traverse f xs = Inr ys \<longleftrightarrow> list_all2 (\<lambda>x y. f x = Inr y) xs ys"
proof (induction xs arbitrary: ys)
  case Nil
  then show ?case by auto
next
  case (Cons x xs)
  show ?case
  proof (cases "traverse f xs")
    case (Inl e)
    then have "\<nexists>zs. list_all2 (\<lambda>x y. f x = Inr y) xs zs"
      by (simp flip: Cons.IH)
    with Inl show ?thesis by (auto simp: list_all2_Cons1 split: sum.splits)
  next
    case (Inr zs)
    then have "list_all2 (\<lambda>x y. f x = Inr y) xs us \<longleftrightarrow> us = zs" for us
      by (auto simp flip: Cons.IH)
    with Inr show ?thesis by (auto simp: list_all2_Cons1 split: sum.splits)
  qed
qed

section \<open>Lists and sets\<close>

lemma find_SomeD: "find P xs = Some x \<Longrightarrow> x \<in> set xs \<and> P x"
  by (induction xs) (auto split: if_splits)

text \<open>\<open>xs[:n]\<close> (a negative \<open>n\<close> counts from the end) and \<open>max(xs, key=f)\<close> (the first maximum).\<close>

definition py_upto :: "'a list \<Rightarrow> int \<Rightarrow> 'a list" where
  "py_upto xs n = (if 0 \<le> n then take (nat n) xs else take (length xs - nat (- n)) xs)"

lemma set_py_upto: "set (py_upto xs n) \<subseteq> set xs"
  by (simp add: py_upto_def set_take_subset)

lemma length_py_upto: "length (py_upto xs n) \<le> length xs"
  by (simp add: py_upto_def)

definition py_max_by :: "('a \<Rightarrow> int) \<Rightarrow> 'a list \<Rightarrow> 'a" where
  "py_max_by f xs = arg_min_list (\<lambda>x. - f x) xs"

lemma py_max_by_in: "xs \<noteq> [] \<Longrightarrow> py_max_by f xs \<in> set xs"
  by (simp add: py_max_by_def arg_min_list_in)

text \<open>\<open>sorted(set(xs))\<close>.\<close>

definition sorted_set :: "'a::linorder list \<Rightarrow> 'a list" where
  "sorted_set xs = sort (remdups xs)"

lemma set_sorted_set [simp]: "set (sorted_set xs) = set xs"
  by (simp add: sorted_set_def)

lemma sorted_sorted_set [simp]: "sorted (sorted_set xs)"
  by (simp add: sorted_set_def)

lemma distinct_sorted_set [simp]: "distinct (sorted_set xs)"
  by (simp add: sorted_set_def)

lemma sorted_set_cong: "set xs = set ys \<Longrightarrow> sorted_set xs = sorted_set ys"
  by (rule sorted_distinct_set_unique) simp_all

lemma sorted_set_idem [simp]: "sorted_set (sorted_set xs) = sorted_set xs"
  by (rule sorted_set_cong) simp

text \<open>
  The first occurrence of each element, in order: \<open>list(dict.fromkeys(xs))\<close> and the loops with a
  \<open>seen\<close> set. (\<open>remdups\<close> keeps the last occurrence.)
\<close>

definition unique :: "'a list \<Rightarrow> 'a list" where
  "unique xs = rev (remdups (rev xs))"

lemma set_unique [simp]: "set (unique xs) = set xs"
  by (simp add: unique_def)

lemma distinct_unique [simp]: "distinct (unique xs)"
  by (simp add: unique_def)

section \<open>Exceptions and texts\<close>

text \<open>An exception: the name of its class and its message.\<close>

record py_exn =
  exn_type :: string
  exn_text :: string

definition exn :: "string \<Rightarrow> string \<Rightarrow> py_exn" where
  "exn t s = \<lparr>exn_type = t, exn_text = s\<rparr>"

text \<open>\<open>str(v or "")\<close>.\<close>

definition text_or_empty :: "pyval \<Rightarrow> string" where
  "text_or_empty v = py_str (py_or v (PStr []))"

lemma dget_map_of: "dget d k = (case map_of d k of None \<Rightarrow> PNone | Some v \<Rightarrow> v)"
  by (simp add: dget_def dget_or_def)

lemma py_eq_text: "py_eq v (PStr s) \<longleftrightarrow> v = PStr s"
  by (cases v) auto

lemma dget_dmerge:
  "distinct (map fst e) \<Longrightarrow> dget (dmerge d e) k = (case map_of e k of None \<Rightarrow> dget d k | Some v \<Rightarrow> v)"
  by (simp add: dget_def dget_or_def map_of_dmerge map_add_def split: option.splits)

lemma dmerge_other: "\<not> has_key e k \<Longrightarrow> dget (dmerge d e) k = dget d k"
proof -
  assume "\<not> has_key e k"
  then have "map_of (fold (\<lambda>(k, v). AList.update k v) e d) k = map_of d k"
    by (induction e arbitrary: d) (auto simp: has_key_def update_conv' split: if_splits)
  then show ?thesis by (simp add: dget_map_of dmerge_def)
qed

end
