(* ===== verification/Memory_Models.thy ===== *)
theory Memory_Models
  imports Prelude
begin

text \<open>
  The data of the memory plane (\<open>memory/models.py\<close>): scopes, items, writes, extracted candidates
  and the decisions about them, with the validation their \<open>__post_init__\<close> methods do. Each class is
  a record; its constructor is a function that returns the validated (and trimmed) record or the
  \<open>ValueError\<close> it raises. Optional texts are \<open>string option\<close>; the Python idioms on them
  (\<open>x or default\<close>, \<open>not x\<close>) are \<open>opt_or\<close>, \<open>opt_or_opt\<close> and \<open>opt_truthy\<close>.
\<close>

section \<open>Optional texts\<close>

definition opt_truthy :: "string option \<Rightarrow> bool" where
  "opt_truthy x \<longleftrightarrow> (case x of None \<Rightarrow> False | Some s \<Rightarrow> s \<noteq> [])"

definition opt_or :: "string option \<Rightarrow> string \<Rightarrow> string" where
  "opt_or x d = (case x of None \<Rightarrow> d | Some s \<Rightarrow> if s = [] then d else s)"

definition opt_or_opt :: "string option \<Rightarrow> string option \<Rightarrow> string option" where
  "opt_or_opt x y = (if opt_truthy x then x else y)"

definition opt_val :: "string option \<Rightarrow> pyval" where
  "opt_val x = (case x of None \<Rightarrow> PNone | Some s \<Rightarrow> PStr s)"

lemma opt_truthy_simps [simp]:
  "\<not> opt_truthy None" "opt_truthy (Some s) \<longleftrightarrow> s \<noteq> []"
  by (simp_all add: opt_truthy_def)

lemma opt_or_simps [simp]:
  "opt_or None d = d" "opt_or (Some s) d = (if s = [] then d else s)"
  by (simp_all add: opt_or_def)

lemma opt_val_simps [simp]:
  "opt_val None = PNone" "opt_val (Some s) = PStr s"
  by (simp_all add: opt_val_def)

datatype memory_error =
    ValueError string
  | AttributeError string
  | RuntimeErr string

type_synonym 'a outcome = "memory_error + 'a"

section \<open>Scopes\<close>

record memory_scope =
  sc_user_id :: string
  sc_session_id :: "string option"
  sc_agent_id :: "string option"
  sc_tenant_id :: "string option"
  sc_namespace :: string
  sc_memory_scope :: string

definition memory_scopes :: "string list" where
  "memory_scopes = [''user_global'', ''user_agent'', ''tenant_user'']"

definition MemoryScope :: "memory_scope \<Rightarrow> memory_scope outcome" where
  "MemoryScope s =
     (let user_id = py_strip (sc_user_id s)
      in if user_id = [] then Inl (ValueError ''memory scope requires user_id'')
         else if sc_memory_scope s \<notin> set memory_scopes then Inl (ValueError ''unsupported memory scope'')
         else if sc_memory_scope s = ''user_agent'' \<and> \<not> opt_truthy (sc_agent_id s)
           then Inl (ValueError ''user_agent memory requires agent_id'')
         else Inr (s\<lparr>sc_user_id := user_id\<rparr>))"

section \<open>Items\<close>

record memory_item =
  it_id :: string
  it_type :: string
  it_key :: string
  it_content :: string
  it_scope :: string
  it_namespace :: string
  it_version :: int
  it_source_agent_id :: "string option"
  it_source_kind :: string
  it_metadata :: pydict

definition to_prompt_dict :: "memory_item \<Rightarrow> pydict" where
  "to_prompt_dict it =
     [(''id'', PStr (it_id it)),
      (''type'', PStr (it_type it)),
      (''key'', PStr (it_key it)),
      (''content'', PStr (it_content it)),
      (''scope'', PStr (it_scope it)),
      (''namespace'', PStr (it_namespace it)),
      (''version'', PInt (it_version it)),
      (''source_agent_id'', opt_val (it_source_agent_id it)),
      (''source_kind'', PStr (it_source_kind it)),
      (''metadata'', PDict (it_metadata it))]"

section \<open>Writes\<close>

record memory_write =
  w_key :: string
  w_value :: string
  w_memory_type :: string
  w_source_agent_id :: "string option"
  w_source_session_id :: "string option"
  w_source_trace_id :: "string option"
  w_source_kind :: string
  w_confidence :: rat
  w_importance :: rat
  w_expires_at :: "int option"
  w_reason :: "string option"

definition source_kinds :: "string list" where
  "source_kinds = [''explicit'', ''automatic'', ''tenant'', ''legacy'']"

definition MemoryWrite :: "memory_write \<Rightarrow> memory_write outcome" where
  "MemoryWrite w =
     (let key = py_strip (w_key w); value = py_strip (w_value w)
      in if key = [] then Inl (ValueError ''memory key is required'')
         else if value = [] then Inl (ValueError ''memory value is required'')
         else if \<not> (0 \<le> w_confidence w \<and> w_confidence w \<le> 1)
           then Inl (ValueError ''memory confidence must be between 0 and 1'')
         else if \<not> (0 \<le> w_importance w \<and> w_importance w \<le> 1)
           then Inl (ValueError ''memory importance must be between 0 and 1'')
         else if w_source_kind w \<notin> set source_kinds
           then Inl (ValueError ''unsupported memory source kind'')
         else Inr (w\<lparr>w_key := key, w_value := value\<rparr>))"

section \<open>Candidates and decisions\<close>

record memory_candidate =
  c_operation :: string
  c_namespace :: string
  c_key :: string
  c_value :: "string option"
  c_memory_type :: string
  c_evidence_type :: string
  c_confidence :: rat
  c_importance :: rat
  c_update_intent :: bool
  c_ttl_days :: "int option"
  c_rationale :: "string option"
  c_source_agent_id :: "string option"
  c_source_session_id :: "string option"
  c_source_trace_id :: "string option"
  c_candidate_id :: "string option"

definition candidate_operations :: "string list" where
  "candidate_operations = [''upsert'', ''forget'']"

definition candidate_memory_types :: "string list" where
  "candidate_memory_types = [''semantic'', ''episodic'', ''profile'', ''summary'']"

definition evidence_types :: "string list" where
  "evidence_types = [''explicit_fact'', ''explicit_instruction'', ''inferred'']"

definition decision_statuses :: "string list" where
  "decision_statuses = [''applied'', ''needs_review'', ''rejected'', ''skipped'']"

definition MemoryCandidate :: "memory_candidate \<Rightarrow> memory_candidate outcome" where
  "MemoryCandidate c =
     (let operation = py_lower (py_strip (c_operation c));
          namespace = py_strip (c_namespace c);
          key = py_strip (c_key c);
          value = map_option py_strip (c_value c)
      in if operation \<notin> set candidate_operations
           then Inl (ValueError ''unsupported memory candidate operation'')
         else if namespace = [] \<or> key = []
           then Inl (ValueError ''memory candidate requires namespace and key'')
         else if operation = ''upsert'' \<and> \<not> opt_truthy value
           then Inl (ValueError ''upsert memory candidate requires value'')
         else if c_memory_type c \<notin> set candidate_memory_types
           then Inl (ValueError ''unsupported memory candidate type'')
         else if c_evidence_type c \<notin> set evidence_types
           then Inl (ValueError ''unsupported memory evidence type'')
         else if \<not> (0 \<le> c_confidence c \<and> c_confidence c \<le> 1)
           then Inl (ValueError ''memory candidate confidence must be between 0 and 1'')
         else if \<not> (0 \<le> c_importance c \<and> c_importance c \<le> 1)
           then Inl (ValueError ''memory candidate importance must be between 0 and 1'')
         else if (case c_ttl_days c of None \<Rightarrow> False | Some t \<Rightarrow> \<not> (1 \<le> t \<and> t \<le> 365))
           then Inl (ValueError ''memory candidate ttl_days must be between 1 and 365'')
         else Inr (c\<lparr>c_operation := operation, c_namespace := namespace, c_key := key,
                     c_value := value\<rparr>))"

record memory_decision =
  d_status :: string
  d_reason :: string
  d_candidate_id :: "string option"
  d_item :: "memory_item option"

definition MemoryCandidateDecision ::
  "string \<Rightarrow> string \<Rightarrow> string option \<Rightarrow> memory_item option \<Rightarrow> memory_decision outcome" where
  "MemoryCandidateDecision status reason cid item =
     (if status \<notin> set decision_statuses
      then Inl (ValueError ''unsupported memory candidate decision status'')
      else Inr \<lparr>d_status = status, d_reason = reason, d_candidate_id = cid, d_item = item\<rparr>)"

record memory_write_result =
  wr_saved :: bool
  wr_item :: "memory_item option"
  wr_reason :: "string option"

definition to_tool_result :: "memory_write_result \<Rightarrow> pydict" where
  "to_tool_result r =
     [(''saved'', PBool (wr_saved r))] @
     (case wr_item r of
        None \<Rightarrow> []
      | Some it \<Rightarrow> [(''memory_id'', PStr (it_id it)), (''memory_type'', PStr (it_type it)),
                    (''key'', PStr (it_key it))]) @
     (if opt_truthy (wr_reason r) then [(''reason'', opt_val (wr_reason r))] else [])"

section \<open>Well-formedness of validated values\<close>

text \<open>What the rest of the memory plane may assume of a value that passed its constructor.\<close>

definition wf_scope :: "memory_scope \<Rightarrow> bool" where
  "wf_scope s \<longleftrightarrow>
     sc_user_id s \<noteq> [] \<and> py_strip (sc_user_id s) = sc_user_id s \<and>
     sc_memory_scope s \<in> set memory_scopes \<and>
     (sc_memory_scope s = ''user_agent'' \<longrightarrow> opt_truthy (sc_agent_id s))"

definition wf_write :: "memory_write \<Rightarrow> bool" where
  "wf_write w \<longleftrightarrow>
     w_key w \<noteq> [] \<and> py_strip (w_key w) = w_key w \<and>
     w_value w \<noteq> [] \<and> py_strip (w_value w) = w_value w \<and>
     0 \<le> w_confidence w \<and> w_confidence w \<le> 1 \<and> 0 \<le> w_importance w \<and> w_importance w \<le> 1 \<and>
     w_source_kind w \<in> set source_kinds"

definition wf_candidate :: "memory_candidate \<Rightarrow> bool" where
  "wf_candidate c \<longleftrightarrow>
     c_operation c \<in> set candidate_operations \<and> c_namespace c \<noteq> [] \<and>
     c_key c \<noteq> [] \<and> py_strip (c_key c) = c_key c \<and>
     (c_operation c = ''upsert'' \<longrightarrow> opt_truthy (c_value c)) \<and>
     map_option py_strip (c_value c) = c_value c \<and>
     c_memory_type c \<in> set candidate_memory_types \<and>
     c_evidence_type c \<in> set evidence_types \<and>
     0 \<le> c_confidence c \<and> c_confidence c \<le> 1 \<and> 0 \<le> c_importance c \<and> c_importance c \<le> 1 \<and>
     (\<forall>t. c_ttl_days c = Some t \<longrightarrow> 1 \<le> t \<and> t \<le> 365)"

lemma dropWhile_idem [simp]: "dropWhile P (dropWhile P xs) = dropWhile P xs"
  by (induction xs) simp_all

lemma hd_rev_dropWhile_end:
  "rev (dropWhile P (rev xs)) \<noteq> [] \<Longrightarrow> hd (rev (dropWhile P (rev xs))) = hd xs"
proof -
  assume ne: "rev (dropWhile P (rev xs)) \<noteq> []"
  have "suffix (dropWhile P (rev xs)) (rev xs)" by (rule suffix_dropWhile)
  then have "prefix (rev (dropWhile P (rev xs))) xs" by (simp add: suffix_to_prefix)
  then obtain zs where "xs = rev (dropWhile P (rev xs)) @ zs" by (auto simp: prefix_def)
  with ne show ?thesis by (metis hd_append2)
qed

lemma py_strip_idem [simp]: "py_strip (py_strip s) = py_strip s"
proof -
  let ?a = "dropWhile is_space s"
  let ?b = "rev (dropWhile is_space (rev ?a))"
  have "dropWhile is_space ?b = ?b"
  proof (cases "?b = []")
    case True
    then show ?thesis by (metis dropWhile.simps(1))
  next
    case False
    then have hd: "hd ?b = hd ?a" by (rule hd_rev_dropWhile_end)
    from False have "?a \<noteq> []" by (metis dropWhile.simps(1) rev.simps(1))
    then have "\<not> is_space (hd ?a)" by (rule hd_dropWhile)
    with hd have "\<not> is_space (hd ?b)" by simp
    with False show ?thesis by (metis dropWhile_eq_self_iff)
  qed
  then show ?thesis by (simp add: py_strip_def)
qed

lemma MemoryScope_wf: "MemoryScope s = Inr t \<Longrightarrow> wf_scope t"
  by (auto simp: MemoryScope_def wf_scope_def Let_def split: if_splits)

lemma MemoryWrite_wf: "MemoryWrite w = Inr v \<Longrightarrow> wf_write v"
  by (auto simp: MemoryWrite_def wf_write_def Let_def split: if_splits)

lemma MemoryCandidate_wf: "MemoryCandidate c = Inr d \<Longrightarrow> wf_candidate d"
  by (auto simp: MemoryCandidate_def wf_candidate_def Let_def option.map_comp comp_def
      split: if_splits option.splits)

lemma MemoryScope_id: "wf_scope s \<Longrightarrow> MemoryScope s = Inr s"
  by (auto simp: MemoryScope_def wf_scope_def Let_def)

lemma MemoryWrite_id: "wf_write w \<Longrightarrow> MemoryWrite w = Inr w"
  by (simp add: MemoryWrite_def wf_write_def Let_def)

end
