(* ===== verification/Memory_Provider.thy ===== *)
theory Memory_Provider
  imports Memory_Models
begin

text \<open>
  The interface between the memory service and its storage (\<open>memory/provider.py\<close>): the operations
  of the \<open>MemoryProvider\<close> protocol as a record over the provider's state, and the contract every
  versioned provider promises (locale \<open>memory_provider\<close>). An operation takes the current instant and
  returns its result with the next state, or the exception it raised; an exception leaves the state
  as it was (the native provider runs each operation in one transaction).

  The contract speaks of identities: a write to one identity (tenant, user, scope, namespace, owning
  agent, key) is read back under that identity and is invisible to every other one.
\<close>

record 's provider =
  po_recall :: "'s \<Rightarrow> int \<Rightarrow> memory_scope \<Rightarrow> string \<Rightarrow> int \<Rightarrow> memory_item list outcome"
  po_get_current :: "'s \<Rightarrow> int \<Rightarrow> memory_scope \<Rightarrow> string \<Rightarrow> memory_item option outcome"
  po_remember :: "'s \<Rightarrow> int \<Rightarrow> memory_scope \<Rightarrow> memory_write \<Rightarrow> (memory_item \<times> 's) outcome"
  po_forget :: "'s \<Rightarrow> int \<Rightarrow> memory_scope \<Rightarrow> string \<Rightarrow> string option \<Rightarrow> string option \<Rightarrow> string \<Rightarrow>
    (bool \<times> 's) outcome"
  po_expire_due :: "'s \<Rightarrow> int \<Rightarrow> string option \<Rightarrow> int \<Rightarrow> (nat \<times> 's) outcome"

type_synonym ident = "string \<times> string \<times> string \<times> string \<times> string \<times> string"

text \<open>The agent column is written for \<open>user_agent\<close> scopes only.\<close>

definition scope_agent :: "memory_scope \<Rightarrow> string option" where
  "scope_agent s = (if sc_memory_scope s = ''user_agent'' then sc_agent_id s else None)"

definition scope_tenant :: "memory_scope \<Rightarrow> string" where
  "scope_tenant s = opt_or (sc_tenant_id s) ''default''"

definition scope_ident :: "memory_scope \<Rightarrow> string \<Rightarrow> ident" where
  "scope_ident s key =
     (scope_tenant s, sc_user_id s, sc_memory_scope s, sc_namespace s,
      opt_or (scope_agent s) [], key)"

definition not_expired :: "int \<Rightarrow> int option \<Rightarrow> bool" where
  "not_expired now valid_until \<longleftrightarrow> (case valid_until of None \<Rightarrow> True | Some v \<Rightarrow> now < v)"

lemma not_expired_simps [simp]: "not_expired now None" "not_expired now (Some v) \<longleftrightarrow> now < v"
  by (simp_all add: not_expired_def)

locale memory_provider =
  fixes P :: "'s provider"
    and inv :: "'s \<Rightarrow> bool"
  assumes get_total: "inv s \<Longrightarrow> \<exists>r. po_get_current P s now sc key = Inr r"
    and remember_total: "inv s \<Longrightarrow> wf_scope sc \<Longrightarrow> wf_write w \<Longrightarrow>
      w_memory_type w \<in> set candidate_memory_types \<Longrightarrow> \<exists>it s'. po_remember P s now sc w = Inr (it, s')"
    and remember_inv: "inv s \<Longrightarrow> po_remember P s now sc w = Inr (it, s') \<Longrightarrow> inv s'"
    and remember_get: "inv s \<Longrightarrow> wf_write w \<Longrightarrow> not_expired now (w_expires_at w) \<Longrightarrow>
      po_remember P s now sc w = Inr (it, s') \<Longrightarrow>
      po_get_current P s' now sc (w_key w) = Inr (Some it) \<and> it_content it = w_value w"
    and remember_frame: "inv s \<Longrightarrow> po_remember P s now sc w = Inr (it, s') \<Longrightarrow>
      scope_ident sc' k \<noteq> scope_ident sc (w_key w) \<Longrightarrow> py_strip k = k \<Longrightarrow>
      po_get_current P s' now' sc' k = po_get_current P s now' sc' k"
    and forget_total: "inv s \<Longrightarrow> \<exists>b s'. po_forget P s now sc key reason trace kind = Inr (b, s')"
    and forget_inv: "inv s \<Longrightarrow> po_forget P s now sc key reason trace kind = Inr (b, s') \<Longrightarrow> inv s'"
    and forget_get: "inv s \<Longrightarrow> py_strip key = key \<Longrightarrow>
      po_forget P s now sc key reason trace kind = Inr (b, s') \<Longrightarrow>
      po_get_current P s' now' sc key = Inr None"
    and forget_true: "inv s \<Longrightarrow> py_strip key = key \<Longrightarrow> key \<noteq> [] \<Longrightarrow>
      po_get_current P s now sc key = Inr (Some it) \<Longrightarrow>
      po_forget P s now sc key reason trace kind = Inr (b, s') \<Longrightarrow> b"
    and forget_frame: "inv s \<Longrightarrow> po_forget P s now sc key reason trace kind = Inr (b, s') \<Longrightarrow>
      scope_ident sc' k \<noteq> scope_ident sc key \<Longrightarrow> py_strip k = k \<Longrightarrow> py_strip key = key \<Longrightarrow>
      po_get_current P s' now' sc' k = po_get_current P s now' sc' k"
begin

text \<open>Reading after a run of writes to other identities.\<close>

fun remember_all :: "'s \<Rightarrow> (int \<times> memory_scope \<times> memory_write) list \<Rightarrow> 's outcome" where
  "remember_all s [] = Inr s"
| "remember_all s ((now, sc, w) # ws) =
     (case po_remember P s now sc w of Inl e \<Rightarrow> Inl e | Inr (it, s') \<Rightarrow> remember_all s' ws)"

lemma remember_all_inv: "inv s \<Longrightarrow> remember_all s ws = Inr s' \<Longrightarrow> inv s'"
  by (induction s ws rule: remember_all.induct) (auto split: sum.splits dest: remember_inv)

lemma remember_all_frame:
  assumes "inv s" "remember_all s ws = Inr s'" "py_strip k = k"
    and "\<forall>(now, sc', w) \<in> set ws. scope_ident sc k \<noteq> scope_ident sc' (w_key w)"
  shows "po_get_current P s' t sc k = po_get_current P s t sc k"
  using assms
proof (induction s ws rule: remember_all.induct)
  case (1 s)
  then show ?case by simp
next
  case (2 s now sc' w ws)
  then obtain it s1 where step: "po_remember P s now sc' w = Inr (it, s1)"
    and rest: "remember_all s1 ws = Inr s'"
    by (auto split: sum.splits)
  have "po_get_current P s1 t sc k = po_get_current P s t sc k"
    using remember_frame [OF "2.prems"(1) step] "2.prems"(3,4) by auto
  moreover have "po_get_current P s' t sc k = po_get_current P s1 t sc k"
    using "2.IH" [OF step refl] rest remember_inv [OF "2.prems"(1) step] "2.prems"(3,4) by auto
  ultimately show ?case by simp
qed

end

end
