(* ===== verification/Memory_Eval.thy ===== *)
theory Memory_Eval
  imports Memory_Provider "HOL-Library.Product_Lexorder"
begin

text \<open>
  The in-memory provider of the offline evaluation (\<open>InMemoryEvalProvider\<close> in
  \<open>memory/evaluation.py\<close>): a list of items whose \<open>status\<close> metadata is updated in place. It is the
  second interpretation of \<open>memory_provider\<close>: what is proved of the memory service for every
  provider holds of the evaluation and of the database alike.
\<close>

record eval_db =
  ev_items :: "memory_item list"
  ev_next_id :: int

definition InMemoryEvalProvider :: "memory_item list \<Rightarrow> eval_db" where
  "InMemoryEvalProvider items = \<lparr>ev_items = items, ev_next_id = int (length items) + 1\<rparr>"

definition ev_active :: "memory_item \<Rightarrow> bool" where
  "ev_active it \<longleftrightarrow> py_eq (dget_or (it_metadata it) ''status'' (PStr ''active'')) (PStr ''active'')"

definition meta_text :: "memory_item \<Rightarrow> string \<Rightarrow> string \<Rightarrow> string" where
  "meta_text it k d = py_str (py_or (dget (it_metadata it) k) (PStr d))"

definition same_user :: "memory_item \<Rightarrow> memory_scope \<Rightarrow> bool" where
  "same_user it sc \<longleftrightarrow>
     meta_text it ''tenant_id'' ''default'' = scope_tenant sc \<and> meta_text it ''user_id'' [] = sc_user_id sc"

definition ev_recall ::
  "eval_db \<Rightarrow> int \<Rightarrow> memory_scope \<Rightarrow> string \<Rightarrow> int \<Rightarrow> memory_item list outcome" where
  "ev_recall db now sc query limit =
     (let visible = filter (\<lambda>it. same_user it sc \<and> ev_active it \<and>
            (it_scope it \<in> {''user_global'', ''tenant_user''} \<or>
             (it_scope it = ''user_agent'' \<and>
              meta_text it ''agent_id'' [] = opt_or (sc_agent_id sc) []))) (ev_items db);
          importance = (\<lambda>it. py_float (dget_or (it_metadata it) ''importance'' (PFloat (1 / 2))))
      in if \<exists>it \<in> set visible. importance it = None then Inl (ValueError ''importance'')
         else Inr (py_upto
                (sort_key (\<lambda>it. (- the (importance it), - it_version it)) visible) limit))"

definition ev_match :: "memory_scope \<Rightarrow> string \<Rightarrow> memory_item \<Rightarrow> bool" where
  "ev_match sc key it \<longleftrightarrow>
     it_key it = key \<and> it_namespace it = sc_namespace sc \<and> it_scope it = sc_memory_scope sc \<and>
     same_user it sc \<and> ev_active it \<and>
     (it_scope it \<noteq> ''user_agent'' \<or> meta_text it ''agent_id'' [] = opt_or (sc_agent_id sc) [])"

text \<open>The position of the current item: the first one of the highest version.\<close>

definition ev_current :: "eval_db \<Rightarrow> memory_scope \<Rightarrow> string \<Rightarrow> nat option" where
  "ev_current db sc key =
     (case filter (\<lambda>i. ev_match sc key (ev_items db ! i)) [0..<length (ev_items db)] of
        [] \<Rightarrow> None
      | matches \<Rightarrow> Some (py_max_by (\<lambda>i. it_version (ev_items db ! i)) matches))"

definition ev_get_current ::
  "eval_db \<Rightarrow> int \<Rightarrow> memory_scope \<Rightarrow> string \<Rightarrow> memory_item option outcome" where
  "ev_get_current db now sc key = Inr (map_option (\<lambda>i. ev_items db ! i) (ev_current db sc key))"

definition ev_set_status :: "nat \<Rightarrow> string \<Rightarrow> memory_item list \<Rightarrow> memory_item list" where
  "ev_set_status i status items =
     items[i := (items ! i)\<lparr>it_metadata := dset ''status'' (PStr status) (it_metadata (items ! i))\<rparr>]"

definition ev_new_item :: "int \<Rightarrow> memory_scope \<Rightarrow> memory_write \<Rightarrow> int \<Rightarrow> memory_item" where
  "ev_new_item n sc w version =
     \<lparr>it_id = int_text n, it_type = w_memory_type w, it_key = w_key w, it_content = w_value w,
      it_scope = sc_memory_scope sc, it_namespace = sc_namespace sc, it_version = version,
      it_source_agent_id = w_source_agent_id w, it_source_kind = w_source_kind w,
      it_metadata =
        [(''tenant_id'', PStr (scope_tenant sc)), (''user_id'', PStr (sc_user_id sc)),
         (''agent_id'', opt_val (scope_agent sc)),
         (''source_session_id'', opt_val (w_source_session_id w)),
         (''source_trace_id'', opt_val (w_source_trace_id w)),
         (''confidence'', PFloat (w_confidence w)), (''importance'', PFloat (w_importance w)),
         (''status'', PStr ''active'')]\<rparr>"

definition ev_remember ::
  "eval_db \<Rightarrow> int \<Rightarrow> memory_scope \<Rightarrow> memory_write \<Rightarrow> (memory_item \<times> eval_db) outcome" where
  "ev_remember db now sc w =
     (let current = ev_current db sc (w_key w)
      in if (case current of None \<Rightarrow> False | Some i \<Rightarrow> it_content (ev_items db ! i) = w_value w)
         then Inr (ev_items db ! the current, db)
         else
           let items = (case current of
                          None \<Rightarrow> ev_items db
                        | Some i \<Rightarrow> ev_set_status i ''superseded'' (ev_items db));
               version = (case current of
                            None \<Rightarrow> 1
                          | Some i \<Rightarrow> it_version (ev_items db ! i) + 1);
               item = ev_new_item (ev_next_id db) sc w version
           in Inr (item, \<lparr>ev_items = items @ [item], ev_next_id = ev_next_id db + 1\<rparr>))"

definition ev_forget ::
  "eval_db \<Rightarrow> int \<Rightarrow> memory_scope \<Rightarrow> string \<Rightarrow> string option \<Rightarrow> string option \<Rightarrow> string \<Rightarrow>
   (bool \<times> eval_db) outcome" where
  "ev_forget db now sc key reason trace kind =
     (case ev_current db sc key of
        None \<Rightarrow> Inr (False, db)
      | Some i \<Rightarrow> Inr (True, db\<lparr>ev_items := ev_set_status i ''deleted'' (ev_items db)\<rparr>))"

definition ev_expire_due :: "eval_db \<Rightarrow> int \<Rightarrow> string option \<Rightarrow> int \<Rightarrow> (nat \<times> eval_db) outcome" where
  "ev_expire_due db now tenant limit = Inr (0, db)"

definition eval_provider :: "eval_db provider" where
  "eval_provider =
     \<lparr>po_recall = ev_recall, po_get_current = ev_get_current, po_remember = ev_remember,
      po_forget = ev_forget, po_expire_due = ev_expire_due\<rparr>"

section \<open>One active item per identity\<close>

definition ev_ident :: "memory_item \<Rightarrow> ident" where
  "ev_ident it =
     (meta_text it ''tenant_id'' ''default'', meta_text it ''user_id'' [], it_scope it,
      it_namespace it, if it_scope it = ''user_agent'' then meta_text it ''agent_id'' [] else [],
      it_key it)"

lemma ev_match_ident: "ev_match sc key it \<longleftrightarrow> ev_active it \<and> ev_ident it = scope_ident sc key"
  by (cases "sc_memory_scope sc = ''user_agent''")
    (auto simp: ev_match_def ev_ident_def scope_ident_def same_user_def scope_agent_def)

definition wf_eval :: "eval_db \<Rightarrow> bool" where
  "wf_eval db \<longleftrightarrow>
     (\<forall>i j. i < j \<longrightarrow> j < length (ev_items db) \<longrightarrow> ev_active (ev_items db ! i) \<longrightarrow>
        ev_active (ev_items db ! j) \<longrightarrow> ev_ident (ev_items db ! i) \<noteq> ev_ident (ev_items db ! j))"

lemma wf_eval_unique:
  assumes "wf_eval db" "i < length (ev_items db)" "j < length (ev_items db)"
    and "ev_active (ev_items db ! i)" "ev_active (ev_items db ! j)"
    and "ev_ident (ev_items db ! i) = ev_ident (ev_items db ! j)"
  shows "i = j"
  using assms by (metis linorder_neqE_nat wf_eval_def)

lemma ev_current_None:
  "ev_current db sc key = None \<longleftrightarrow> (\<forall>it \<in> set (ev_items db). \<not> ev_match sc key it)"
proof -
  let ?m = "filter (\<lambda>i. ev_match sc key (ev_items db ! i)) [0..<length (ev_items db)]"
  have "ev_current db sc key = None \<longleftrightarrow> ?m = []"
    by (simp add: ev_current_def split: list.splits)
  also have "\<dots> \<longleftrightarrow> (\<forall>it \<in> set (ev_items db). \<not> ev_match sc key it)"
    by (auto simp: filter_empty_conv all_set_conv_all_nth)
  finally show ?thesis .
qed

lemma ev_current_Some:
  assumes "ev_current db sc key = Some i"
  shows "i < length (ev_items db)" "ev_match sc key (ev_items db ! i)"
proof -
  let ?m = "filter (\<lambda>i. ev_match sc key (ev_items db ! i)) [0..<length (ev_items db)]"
  have "?m \<noteq> []" "i = py_max_by (\<lambda>i. it_version (ev_items db ! i)) ?m"
    using assms by (auto simp: ev_current_def split: list.splits)
  then have "i \<in> set ?m" using py_max_by_in by metis
  then show "i < length (ev_items db)" "ev_match sc key (ev_items db ! i)" by simp_all
qed

text \<open>What \<open>get_current\<close> reads: the only active item of the identity.\<close>

definition ev_lookup :: "memory_item list \<Rightarrow> ident \<Rightarrow> memory_item set" where
  "ev_lookup items d = {it \<in> set items. ev_active it \<and> ev_ident it = d}"

lemma ev_lookup_sole:
  assumes "wf_eval db" "i < length (ev_items db)" "ev_active (ev_items db ! i)"
  shows "ev_lookup (ev_items db) (ev_ident (ev_items db ! i)) = {ev_items db ! i}"
  using assms wf_eval_unique [OF assms(1)] by (auto simp: ev_lookup_def in_set_conv_nth)

lemma ev_get_current_iff:
  assumes "wf_eval db"
  shows "ev_get_current db now sc key = Inr (Some it) \<longleftrightarrow>
           ev_lookup (ev_items db) (scope_ident sc key) = {it}"
    and "ev_get_current db now sc key = Inr None \<longleftrightarrow>
           ev_lookup (ev_items db) (scope_ident sc key) = {}"
proof -
  have none: "ev_current db sc key = None \<longleftrightarrow> ev_lookup (ev_items db) (scope_ident sc key) = {}"
    by (auto simp: ev_current_None ev_lookup_def ev_match_ident)
  have some: "ev_lookup (ev_items db) (scope_ident sc key) = {ev_items db ! i}"
    if "ev_current db sc key = Some i" for i
    using ev_current_Some [OF that] ev_lookup_sole [OF assms, of i]
    by (simp only: ev_match_ident)
  show "ev_get_current db now sc key = Inr (Some it) \<longleftrightarrow>
      ev_lookup (ev_items db) (scope_ident sc key) = {it}"
    using none some by (cases "ev_current db sc key") (auto simp: ev_get_current_def)
  show "ev_get_current db now sc key = Inr None \<longleftrightarrow>
      ev_lookup (ev_items db) (scope_ident sc key) = {}"
    using none by (cases "ev_current db sc key") (auto simp: ev_get_current_def)
qed

lemma ev_get_current_total: "\<exists>r. ev_get_current db now sc key = Inr r"
  by (simp add: ev_get_current_def)

lemma ev_get_current_cong:
  assumes "wf_eval db" "wf_eval db'"
    and "ev_lookup (ev_items db') (scope_ident sc key) = ev_lookup (ev_items db) (scope_ident sc key)"
  shows "ev_get_current db' now sc key = ev_get_current db now sc key"
proof -
  obtain r where r: "ev_get_current db now sc key = Inr r" using ev_get_current_total by blast
  then show ?thesis
    using assms ev_get_current_iff [OF assms(1), of now sc key]
      ev_get_current_iff [OF assms(2), of now sc key]
    by (cases r) metis+
qed

lemma status_inactive: "s \<noteq> ''active'' \<Longrightarrow> \<not> ev_active (it\<lparr>it_metadata := dset ''status'' (PStr s) m\<rparr>)"
  by (simp add: ev_active_def)

text \<open>Retiring an item keeps the rest; appending one needs a free identity.\<close>

lemma ev_set_status_nth:
  assumes "s \<noteq> ''active''" "j < length items" "ev_active (ev_set_status i s items ! j)"
  shows "i \<noteq> j" "ev_set_status i s items ! j = items ! j"
proof -
  show "i \<noteq> j"
    using assms status_inactive [OF assms(1)] by (auto simp: ev_set_status_def)
  then show "ev_set_status i s items ! j = items ! j" by (simp add: ev_set_status_def)
qed

lemma ev_set_status_wf:
  assumes "wf_eval db" "s \<noteq> ''active''"
  shows "wf_eval (db\<lparr>ev_items := ev_set_status i s (ev_items db)\<rparr>)"
proof -
  have len: "length (ev_set_status i s (ev_items db)) = length (ev_items db)"
    by (simp add: ev_set_status_def)
  show ?thesis
    unfolding wf_eval_def
  proof (intro allI impI)
    fix j k
    let ?xs = "ev_items (db\<lparr>ev_items := ev_set_status i s (ev_items db)\<rparr>)"
    assume jk: "j < k" "k < length ?xs" "ev_active (?xs ! j)" "ev_active (?xs ! k)"
    then have "?xs ! j = ev_items db ! j" "?xs ! k = ev_items db ! k"
      using ev_set_status_nth(2) [OF assms(2)] len by simp_all
    with jk len assms(1) show "ev_ident (?xs ! j) \<noteq> ev_ident (?xs ! k)"
      by (simp add: wf_eval_def)
  qed
qed

lemma ev_lookup_set_status:
  assumes "wf_eval db" "i < length (ev_items db)" "ev_active (ev_items db ! i)" "s \<noteq> ''active''"
  shows "ev_lookup (ev_set_status i s (ev_items db)) d =
           (if d = ev_ident (ev_items db ! i) then {} else ev_lookup (ev_items db) d)"
proof -
  let ?x = "(ev_items db ! i)\<lparr>it_metadata := dset ''status'' (PStr s) (it_metadata (ev_items db ! i))\<rparr>"
  have inact: "\<not> ev_active ?x" by (rule status_inactive [OF assms(4)])
  have mem: "it \<in> set ((ev_items db)[i := ?x]) \<and> ev_active it \<longleftrightarrow>
      (\<exists>j < length (ev_items db). j \<noteq> i \<and> it = ev_items db ! j \<and> ev_active it)" for it
    using inact assms(2) by (auto simp: in_set_conv_nth nth_list_update split: if_splits)
  have "it \<in> ev_lookup (ev_set_status i s (ev_items db)) d \<longleftrightarrow>
      (\<exists>j < length (ev_items db). j \<noteq> i \<and> it = ev_items db ! j \<and> ev_active it \<and> ev_ident it = d)" for it
    using mem by (auto simp: ev_lookup_def ev_set_status_def)
  moreover have "(\<exists>j < length (ev_items db). j \<noteq> i \<and> it = ev_items db ! j \<and> ev_active it \<and> ev_ident it = d)
      \<longleftrightarrow> d \<noteq> ev_ident (ev_items db ! i) \<and> it \<in> ev_lookup (ev_items db) d" for it
    using wf_eval_unique [OF assms(1)] assms(2,3) by (auto simp: ev_lookup_def in_set_conv_nth)
  ultimately show ?thesis by auto
qed

lemma wf_eval_append:
  assumes "wf_eval \<lparr>ev_items = items, ev_next_id = n\<rparr>" "ev_lookup items (ev_ident it) = {}"
  shows "wf_eval \<lparr>ev_items = items @ [it], ev_next_id = m\<rparr>"
  using assms by (auto simp: wf_eval_def nth_append ev_lookup_def)

lemma ev_lookup_append:
  "ev_active it \<Longrightarrow> ev_lookup (items @ [it]) d =
     (if d = ev_ident it then insert it (ev_lookup items d) else ev_lookup items d)"
  by (auto simp: ev_lookup_def)

lemma wf_eval_next_id: "wf_eval (db\<lparr>ev_next_id := n\<rparr>) = wf_eval db"
  by (simp add: wf_eval_def)

lemma ev_new_item_simps:
  "ev_active (ev_new_item n sc w v)"
  "ev_ident (ev_new_item n sc w v) = scope_ident sc (w_key w)"
  "it_content (ev_new_item n sc w v) = w_value w"
  by (auto simp: ev_new_item_def ev_active_def ev_ident_def meta_text_def scope_ident_def
      scope_agent_def scope_tenant_def py_or_def opt_or_def opt_val_def
      split: option.splits)

section \<open>The contract\<close>

lemma ev_remember_cases:
  assumes "wf_eval db" "ev_remember db now sc w = Inr (it, db')"
  obtains (same) "db' = db" "ev_get_current db now sc (w_key w) = Inr (Some it)"
      "it_content it = w_value w"
    | (fresh) n v items where "it = ev_new_item n sc w v" "ev_items db' = items @ [it]"
      "wf_eval \<lparr>ev_items = items, ev_next_id = n\<rparr>"
      "ev_lookup items = (ev_lookup (ev_items db))(scope_ident sc (w_key w) := {})"
proof (cases "ev_current db sc (w_key w)")
  case None
  then have empty: "ev_lookup (ev_items db) (scope_ident sc (w_key w)) = {}"
    using ev_get_current_iff(2) [OF assms(1), of now sc "w_key w"] by (simp add: ev_get_current_def)
  show ?thesis
    by (rule fresh [of "ev_next_id db" 1 "ev_items db"])
      (use assms None empty in \<open>auto simp: ev_remember_def Let_def fun_upd_idem wf_eval_def\<close>)
next
  case (Some i)
  note i = ev_current_Some [OF Some]
  then have act: "ev_active (ev_items db ! i)"
    and id: "ev_ident (ev_items db ! i) = scope_ident sc (w_key w)"
    by (simp_all add: ev_match_ident)
  show ?thesis
  proof (cases "it_content (ev_items db ! i) = w_value w")
    case True
    then show ?thesis
      using Some assms(2) by (intro same) (auto simp: ev_remember_def ev_get_current_def)
  next
    case False
    have ne: "''superseded'' \<noteq> ''active''" by simp
    note look = ev_lookup_set_status [OF assms(1) i(1) act ne]
    have wf: "wf_eval \<lparr>ev_items = ev_set_status i ''superseded'' (ev_items db), ev_next_id = m\<rparr>" for m
      using ev_set_status_wf [OF assms(1) ne, of i] by (simp add: wf_eval_def)
    show ?thesis
      by (rule fresh [of "ev_next_id db" "it_version (ev_items db ! i) + 1"
            "ev_set_status i ''superseded'' (ev_items db)"])
        (use assms(2) Some False wf look id in \<open>auto simp: ev_remember_def Let_def fun_eq_iff\<close>)
  qed
qed

lemma ev_remember_effect:
  assumes "wf_eval db" "ev_remember db now sc w = Inr (it, db')"
  shows "wf_eval db'" "it_content it = w_value w"
    and "ev_lookup (ev_items db') = (ev_lookup (ev_items db))(scope_ident sc (w_key w) := {it})"
proof -
  have "wf_eval db' \<and> it_content it = w_value w \<and>
      ev_lookup (ev_items db') = (ev_lookup (ev_items db))(scope_ident sc (w_key w) := {it})"
    using assms
  proof (cases rule: ev_remember_cases)
    case same
    then have "ev_lookup (ev_items db) (scope_ident sc (w_key w)) = {it}"
      using ev_get_current_iff(1) [OF assms(1)] by blast
    with same assms(1) show ?thesis by (simp add: fun_upd_idem)
  next
    case (fresh n v items)
    have it: "ev_active it" "ev_ident it = scope_ident sc (w_key w)"
      by (simp_all add: fresh(1) ev_new_item_simps)
    have look: "ev_lookup (ev_items db') = (ev_lookup (ev_items db))(scope_ident sc (w_key w) := {it})"
      by (rule ext) (simp add: fresh(2) ev_lookup_append it fresh(4))
    have "wf_eval \<lparr>ev_items = items @ [it], ev_next_id = ev_next_id db'\<rparr>"
      by (rule wf_eval_append [OF fresh(3)]) (simp add: fresh(1,4) ev_new_item_simps)
    then show ?thesis using fresh(1,2) look by (simp add: ev_new_item_simps wf_eval_def)
  qed
  then show "wf_eval db'" "it_content it = w_value w"
    "ev_lookup (ev_items db') = (ev_lookup (ev_items db))(scope_ident sc (w_key w) := {it})"
    by simp_all
qed

lemma ev_forget_effect:
  assumes "wf_eval db" "ev_forget db now sc key reason trace kind = Inr (b, db')"
  shows "wf_eval db'" "b \<longleftrightarrow> ev_lookup (ev_items db) (scope_ident sc key) \<noteq> {}"
    and "ev_lookup (ev_items db') = (ev_lookup (ev_items db))(scope_ident sc key := {})"
proof -
  have none: "ev_current db sc key = None \<longleftrightarrow> ev_lookup (ev_items db) (scope_ident sc key) = {}"
    using ev_get_current_iff(2) [OF assms(1), of now sc key] by (simp add: ev_get_current_def)
  have "wf_eval db' \<and> (b \<longleftrightarrow> ev_lookup (ev_items db) (scope_ident sc key) \<noteq> {}) \<and>
      ev_lookup (ev_items db') = (ev_lookup (ev_items db))(scope_ident sc key := {})"
  proof (cases "ev_current db sc key")
    case None
    then have "db' = db" "\<not> b" using assms(2) by (simp_all add: ev_forget_def)
    then show ?thesis using assms(1) None none by (simp add: fun_upd_idem)
  next
    case (Some i)
    note i = ev_current_Some [OF Some]
    have ne: "''deleted'' \<noteq> ''active''" by simp
    have act: "ev_active (ev_items db ! i)" "ev_ident (ev_items db ! i) = scope_ident sc key"
      using i(2) by (simp_all add: ev_match_ident)
    have "b" "db' = db\<lparr>ev_items := ev_set_status i ''deleted'' (ev_items db)\<rparr>"
      using assms(2) Some by (simp_all add: ev_forget_def)
    then show ?thesis
      using ev_set_status_wf [OF assms(1) ne, of i] ev_lookup_set_status [OF assms(1) i(1) act(1) ne]
        act(2) none Some by (auto simp: fun_eq_iff)
  qed
  then show "wf_eval db'" "b \<longleftrightarrow> ev_lookup (ev_items db) (scope_ident sc key) \<noteq> {}"
    "ev_lookup (ev_items db') = (ev_lookup (ev_items db))(scope_ident sc key := {})"
    by simp_all
qed

interpretation ev: memory_provider eval_provider wf_eval
proof (unfold_locales, goal_cases)
  case (1 s now sc key)
  show ?case by (simp add: eval_provider_def ev_get_current_total)
next
  case (2 s sc w now)
  show ?case by (simp add: eval_provider_def ev_remember_def Let_def)
next
  case (3 s now sc w it s')
  then show ?case by (auto simp: eval_provider_def intro: ev_remember_effect(1))
next
  case (4 s w now sc it s')
  then have step: "ev_remember s now sc w = Inr (it, s')" by (simp add: eval_provider_def)
  note eff = ev_remember_effect [OF 4(1) step]
  have "ev_lookup (ev_items s') (scope_ident sc (w_key w)) = {it}" by (simp add: eff(3))
  then show ?case
    using eff(2) ev_get_current_iff(1) [OF eff(1), of now sc "w_key w" it]
    by (simp add: eval_provider_def)
next
  case (5 s now sc w it s' sc' k now')
  then have step: "ev_remember s now sc w = Inr (it, s')" by (simp add: eval_provider_def)
  note eff = ev_remember_effect [OF 5(1) step]
  show ?case
    using ev_get_current_cong [OF 5(1) eff(1), of sc' k now'] 5(3) eff(3)
    by (simp add: eval_provider_def)
next
  case (6 s now sc key reason trace kind)
  show ?case by (auto simp: eval_provider_def ev_forget_def split: option.split)
next
  case (7 s now sc key reason trace kind b s')
  then show ?case by (auto simp: eval_provider_def intro: ev_forget_effect(1))
next
  case (8 s key now sc reason trace kind b s' now')
  then have step: "ev_forget s now sc key reason trace kind = Inr (b, s')"
    by (simp add: eval_provider_def)
  note eff = ev_forget_effect [OF 8(1) step]
  show ?case
    using ev_get_current_iff(2) [OF eff(1), of now' sc key] eff(3) by (simp add: eval_provider_def)
next
  case (9 s key now sc it reason trace kind b s')
  then have step: "ev_forget s now sc key reason trace kind = Inr (b, s')"
    and cur: "ev_get_current s now sc key = Inr (Some it)"
    by (simp_all add: eval_provider_def)
  show ?case
    using ev_forget_effect(2) [OF 9(1) step] ev_get_current_iff(1) [OF 9(1)] cur by fastforce
next
  case (10 s now sc key reason trace kind b s' sc' k now')
  then have step: "ev_forget s now sc key reason trace kind = Inr (b, s')"
    by (simp add: eval_provider_def)
  note eff = ev_forget_effect [OF 10(1) step]
  show ?case
    using ev_get_current_cong [OF 10(1) eff(1), of sc' k now'] 10(3) eff(3)
    by (simp add: eval_provider_def)
qed

end
