(* ===== verification/Memory_Policy.thy ===== *)
theory Memory_Policy
  imports Memory_Models
begin

text \<open>
  Memory governance (\<open>memory/policy.py\<close>): the policy of a namespace, the governance read from a
  runtime context and written back to one, the scope a write gets and the decision whether an item
  may be recalled. The abstract specification is \<open>recall_grant\<close>: the five reasons for which an item
  may reach an agent; \<open>can_recall\<close> grants exactly those, behind the gate for public agents.
\<close>

section \<open>Policies\<close>

definition TENANT_REQUIRED :: string where "TENANT_REQUIRED = ''tenant_required''"
definition USER_CONTROLLED :: string where "USER_CONTROLLED = ''user_controlled''"
definition AGENT_PRIVATE :: string where "AGENT_PRIVATE = ''agent_private''"

definition MEMORY_POLICY_MODES :: "string list" where
  "MEMORY_POLICY_MODES = [TENANT_REQUIRED, USER_CONTROLLED, AGENT_PRIVATE]"

lemma modes_distinct [simp]:
  "TENANT_REQUIRED \<noteq> USER_CONTROLLED" "TENANT_REQUIRED \<noteq> AGENT_PRIVATE"
  "USER_CONTROLLED \<noteq> TENANT_REQUIRED" "USER_CONTROLLED \<noteq> AGENT_PRIVATE"
  "AGENT_PRIVATE \<noteq> TENANT_REQUIRED" "AGENT_PRIVATE \<noteq> USER_CONTROLLED"
  by (simp_all add: TENANT_REQUIRED_def USER_CONTROLLED_def AGENT_PRIVATE_def)

record namespace_policy =
  np_namespace :: string
  np_mode :: string
  np_allow_public :: bool

definition MemoryNamespacePolicy :: "string \<Rightarrow> string \<Rightarrow> bool \<Rightarrow> namespace_policy outcome" where
  "MemoryNamespacePolicy namespace mode allow =
     (let ns = py_strip namespace
      in if ns = [] then Inl (ValueError ''memory namespace is required'')
         else if mode \<notin> set MEMORY_POLICY_MODES
           then Inl (ValueError ''unsupported memory policy mode'')
         else Inr \<lparr>np_namespace = ns, np_mode = mode, np_allow_public = allow\<rparr>)"

record governance =
  gv_tenant_id :: string
  gv_agent_id :: "string option"
  gv_visibility :: string
  gv_policies :: "(string \<times> namespace_policy) list"
  gv_preferences :: "(string \<times> bool) list"

text \<open>The two fallback policies are built from valid constants, so their constructor cannot raise.\<close>

definition policy_for :: "governance \<Rightarrow> string \<Rightarrow> namespace_policy" where
  "policy_for g namespace =
     (case map_of (gv_policies g) namespace of
        Some p \<Rightarrow> p
      | None \<Rightarrow>
          if namespace = ''preferences''
          then \<lparr>np_namespace = ''preferences'', np_mode = USER_CONTROLLED, np_allow_public = False\<rparr>
          else \<lparr>np_namespace = namespace, np_mode = AGENT_PRIVATE, np_allow_public = False\<rparr>)"

definition share_enabled :: "governance \<Rightarrow> string \<Rightarrow> bool option" where
  "share_enabled g namespace = map_of (gv_preferences g) namespace"

section \<open>Governance from and to a runtime context\<close>

text \<open>\<open>(v or {}).items()\<close>: a truthy value that is not a dictionary has no \<open>items\<close>.\<close>

definition dict_items :: "pyval \<Rightarrow> pydict outcome" where
  "dict_items v =
     (if truthy v
      then (case v of PDict d \<Rightarrow> Inr d | _ \<Rightarrow> Inl (AttributeError ''items''))
      else Inr [])"

definition first_truthy :: "pyval list \<Rightarrow> string \<Rightarrow> string" where
  "first_truthy vs d = (case filter truthy vs of [] \<Rightarrow> d | v # _ \<Rightarrow> py_str v)"

definition read_policy ::
  "string \<times> pyval \<Rightarrow> (string \<times> namespace_policy) list \<Rightarrow> (string \<times> namespace_policy) list" where
  "read_policy p acc =
     (case p of (namespace, item) \<Rightarrow>
        (case item of
           PDict d \<Rightarrow>
             (case MemoryNamespacePolicy namespace
                     (py_str (py_or (dget d ''mode'') (PStr USER_CONTROLLED)))
                     (truthy (dget_or d ''allow_public_agents'' (PBool False))) of
                Inl e \<Rightarrow> acc
              | Inr np \<Rightarrow> AList.update namespace np acc)
         | _ \<Rightarrow> acc))"

definition read_preference :: "string \<times> pyval \<Rightarrow> (string \<times> bool) list \<Rightarrow> (string \<times> bool) list" where
  "read_preference p acc = AList.update (fst p) (truthy (snd p)) acc"

definition resolve_agent_id :: "string option \<Rightarrow> pydict \<Rightarrow> pydict \<Rightarrow> string option" where
  "resolve_agent_id agent_id agent release =
     (if opt_truthy agent_id then agent_id
      else let a = py_strip (py_str (py_or (dget agent ''id'') (PStr [])));
               r = py_strip (py_str (py_or (dget release ''agent_id'') (PStr [])))
           in if a \<noteq> [] then Some a else if r \<noteq> [] then Some r else None)"

definition governance_from_runtime_context ::
  "pyval \<Rightarrow> string option \<Rightarrow> governance outcome" where
  "governance_from_runtime_context runtime_context agent_id =
     (let context = as_dict runtime_context;
          raw = as_dict (dget context ''memory_governance'');
          release = as_dict (dget context ''release'');
          agent = as_dict (dget context ''agent'');
          visibility = first_truthy [dget release ''visibility'', dget agent ''visibility'',
                                     dget raw ''agent_visibility''] ''private''
      in case dict_items (dget raw ''namespace_policies'') of
           Inl e \<Rightarrow> Inl e
         | Inr policies \<Rightarrow>
             (case dict_items (dget raw ''user_preferences'') of
                Inl e \<Rightarrow> Inl e
              | Inr preferences \<Rightarrow>
                  Inr \<lparr>gv_tenant_id = py_str (py_or (dget raw ''tenant_id'') (PStr ''default'')),
                       gv_agent_id = resolve_agent_id agent_id agent release,
                       gv_visibility = visibility,
                       gv_policies = fold read_policy policies [],
                       gv_preferences = fold read_preference preferences []\<rparr>))"

definition governance_to_dict :: "governance \<Rightarrow> pydict" where
  "governance_to_dict g =
     [(''tenant_id'', PStr (gv_tenant_id g)),
      (''agent_id'', opt_val (gv_agent_id g)),
      (''agent_visibility'', PStr (gv_visibility g)),
      (''namespace_policies'',
        PDict (map (\<lambda>(ns, p). (ns, PDict [(''mode'', PStr (np_mode p)),
                                         (''allow_public_agents'', PBool (np_allow_public p))]))
              (gv_policies g))),
      (''user_preferences'', PDict (map (\<lambda>(ns, b). (ns, PBool b)) (gv_preferences g)))]"

section \<open>Writing and recalling\<close>

definition write_scope_for :: "governance \<Rightarrow> string \<Rightarrow> string" where
  "write_scope_for g namespace =
     (let mode = np_mode (policy_for g namespace)
      in if mode = TENANT_REQUIRED then ''tenant_user''
         else if mode = AGENT_PRIVATE then ''user_agent''
         else ''user_global'')"

definition item_agent_id :: "memory_item \<Rightarrow> string" where
  "item_agent_id it = py_str (py_or (dget (it_metadata it) ''agent_id'') (PStr []))"

definition public_gate :: "memory_item \<Rightarrow> governance \<Rightarrow> bool" where
  "public_gate it g \<longleftrightarrow>
     \<not> (gv_visibility g = ''public'' \<and> \<not> np_allow_public (policy_for g (it_namespace it)) \<and>
        it_source_agent_id it \<noteq> gv_agent_id g)"

definition can_recall :: "memory_item \<Rightarrow> governance \<Rightarrow> bool" where
  "can_recall it g =
     (let policy = policy_for g (it_namespace it)
      in if \<not> public_gate it g then False
         else if np_mode policy = TENANT_REQUIRED then it_scope it = ''tenant_user''
         else if it_scope it = ''tenant_user'' then False
         else if it_scope it = ''user_agent'' then
           (if np_mode policy \<noteq> AGENT_PRIVATE then False
            else opt_truthy (gv_agent_id g) \<and> Some (item_agent_id it) = gv_agent_id g)
         else if it_scope it \<noteq> ''user_global'' \<or> np_mode policy = AGENT_PRIVATE then False
         else if opt_truthy (it_source_agent_id it) \<and> it_source_agent_id it = gv_agent_id g then True
         else case share_enabled g (it_namespace it) of
                Some b \<Rightarrow> b
              | None \<Rightarrow> it_source_agent_id it \<in> {None, Some [], Some ''legacy''})"

definition filter_recalled_items :: "memory_item list \<Rightarrow> governance \<Rightarrow> memory_item list" where
  "filter_recalled_items items g = filter (\<lambda>it. can_recall it g) items"

section \<open>The specification of recall\<close>

text \<open>The reasons for which an item may be shown to the agent that \<open>g\<close> describes.\<close>

inductive recall_grant :: "governance \<Rightarrow> memory_item \<Rightarrow> bool" for g where
  tenant: "np_mode (policy_for g (it_namespace it)) = TENANT_REQUIRED \<Longrightarrow>
     it_scope it = ''tenant_user'' \<Longrightarrow> recall_grant g it"
| private_own: "np_mode (policy_for g (it_namespace it)) = AGENT_PRIVATE \<Longrightarrow>
     it_scope it = ''user_agent'' \<Longrightarrow> gv_agent_id g = Some a \<Longrightarrow> a \<noteq> [] \<Longrightarrow>
     item_agent_id it = a \<Longrightarrow> recall_grant g it"
| global_own: "np_mode (policy_for g (it_namespace it)) \<notin> {TENANT_REQUIRED, AGENT_PRIVATE} \<Longrightarrow>
     it_scope it = ''user_global'' \<Longrightarrow> it_source_agent_id it = Some a \<Longrightarrow> a \<noteq> [] \<Longrightarrow>
     gv_agent_id g = Some a \<Longrightarrow> recall_grant g it"
| global_shared: "np_mode (policy_for g (it_namespace it)) \<notin> {TENANT_REQUIRED, AGENT_PRIVATE} \<Longrightarrow>
     it_scope it = ''user_global'' \<Longrightarrow> share_enabled g (it_namespace it) = Some True \<Longrightarrow>
     recall_grant g it"
| global_legacy: "np_mode (policy_for g (it_namespace it)) \<notin> {TENANT_REQUIRED, AGENT_PRIVATE} \<Longrightarrow>
     it_scope it = ''user_global'' \<Longrightarrow> share_enabled g (it_namespace it) = None \<Longrightarrow>
     it_source_agent_id it \<in> {None, Some [], Some ''legacy''} \<Longrightarrow> recall_grant g it"

inductive_simps recall_grant_iff: "recall_grant g it"

text \<open>The three scopes are different texts; comparing them by evaluation is done once, here.\<close>

lemma scope_names_distinct [simp]:
  "''tenant_user'' \<noteq> ''user_agent''" "''tenant_user'' \<noteq> ''user_global''"
  "''user_agent'' \<noteq> ''user_global''"
  by simp_all

lemma grant_private_iff:
  "(\<exists>a. gv_agent_id g = Some a \<and> a \<noteq> [] \<and> item_agent_id it = a) \<longleftrightarrow>
     opt_truthy (gv_agent_id g) \<and> Some (item_agent_id it) = gv_agent_id g"
  by (cases "gv_agent_id g") auto

lemma grant_own_iff:
  "(\<exists>a. it_source_agent_id it = Some a \<and> a \<noteq> [] \<and> gv_agent_id g = Some a) \<longleftrightarrow>
     opt_truthy (it_source_agent_id it) \<and> it_source_agent_id it = gv_agent_id g"
  by (cases "it_source_agent_id it") auto

lemma recall_grant_tenant_mode:
  "np_mode (policy_for g (it_namespace it)) = TENANT_REQUIRED \<Longrightarrow>
     recall_grant g it \<longleftrightarrow> it_scope it = ''tenant_user''"
  by (simp add: recall_grant_iff)

lemma recall_grant_private_mode:
  "np_mode (policy_for g (it_namespace it)) = AGENT_PRIVATE \<Longrightarrow>
     recall_grant g it \<longleftrightarrow>
       it_scope it = ''user_agent'' \<and> opt_truthy (gv_agent_id g) \<and>
       Some (item_agent_id it) = gv_agent_id g"
  by (simp add: recall_grant_iff grant_private_iff [symmetric])

lemma recall_grant_shared_mode:
  assumes "np_mode (policy_for g (it_namespace it)) \<notin> {TENANT_REQUIRED, AGENT_PRIVATE}"
  shows "recall_grant g it \<longleftrightarrow>
     it_scope it = ''user_global'' \<and>
     (opt_truthy (it_source_agent_id it) \<and> it_source_agent_id it = gv_agent_id g \<or>
      (case share_enabled g (it_namespace it) of
         Some b \<Rightarrow> b
       | None \<Rightarrow> it_source_agent_id it \<in> {None, Some [], Some ''legacy''}))"
  using assms
  by (simp add: recall_grant_iff grant_own_iff [symmetric] split: option.splits) blast

section \<open>Properties\<close>

text \<open>\<open>can_recall\<close> shows an item to an agent exactly when one of the five grounds of
  \<open>recall_grant\<close> applies and the gate for public agents lets the item through: tenant records in
  tenant-required namespaces only, private records to the agent that owns them only, other agents'
  global records only when the user shares the namespace, and unattributed ones only while the
  user has not chosen.
\<close>

theorem can_recall_spec: "can_recall it g \<longleftrightarrow> public_gate it g \<and> recall_grant g it"
proof -
  consider (tenant) "np_mode (policy_for g (it_namespace it)) = TENANT_REQUIRED"
    | (private_mode) "np_mode (policy_for g (it_namespace it)) = AGENT_PRIVATE"
    | (shared) "np_mode (policy_for g (it_namespace it)) \<notin> {TENANT_REQUIRED, AGENT_PRIVATE}"
    by blast
  then show ?thesis
  proof cases
    case tenant
    then show ?thesis by (auto simp: can_recall_def recall_grant_tenant_mode)
  next
    case private_mode
    then show ?thesis
      by (cases "public_gate it g"; cases "it_scope it = ''user_agent''")
        (auto simp: can_recall_def recall_grant_private_mode)
  next
    case shared
    then show ?thesis
      by (cases "public_gate it g"; cases "it_scope it = ''user_global''")
        (auto simp: can_recall_def recall_grant_shared_mode split: option.splits)
  qed
qed

definition wf_governance :: "governance \<Rightarrow> bool" where
  "wf_governance g \<longleftrightarrow>
     gv_tenant_id g \<noteq> [] \<and> gv_visibility g \<noteq> [] \<and>
     (gv_agent_id g = None \<or> opt_truthy (gv_agent_id g)) \<and>
     distinct (map fst (gv_policies g)) \<and> distinct (map fst (gv_preferences g)) \<and>
     list_all (\<lambda>(ns, p). np_namespace p = py_strip ns \<and> np_namespace p \<noteq> [] \<and>
                          np_mode p \<in> set MEMORY_POLICY_MODES) (gv_policies g)"

lemma mode_nonempty: "m \<in> set MEMORY_POLICY_MODES \<Longrightarrow> m \<noteq> []"
  by (auto simp: MEMORY_POLICY_MODES_def TENANT_REQUIRED_def USER_CONTROLLED_def AGENT_PRIVATE_def)

definition policy_entry :: "string \<times> namespace_policy \<Rightarrow> string \<times> pyval" where
  "policy_entry = (\<lambda>(ns, p). (ns, PDict [(''mode'', PStr (np_mode p)),
                                        (''allow_public_agents'', PBool (np_allow_public p))]))"

lemma read_policy_entry:
  assumes "np_namespace p = py_strip ns" "np_namespace p \<noteq> []" "np_mode p \<in> set MEMORY_POLICY_MODES"
  shows "read_policy (policy_entry (ns, p)) acc = AList.update ns p acc"
  using assms mode_nonempty [OF assms(3)]
  by (cases p) (simp add: read_policy_def policy_entry_def MemoryNamespacePolicy_def Let_def py_or_def)

lemma fold_read_policy:
  "list_all (\<lambda>(ns, p). np_namespace p = py_strip ns \<and> np_namespace p \<noteq> [] \<and>
                        np_mode p \<in> set MEMORY_POLICY_MODES) ps \<Longrightarrow>
   fold read_policy (map policy_entry ps) acc = fold (\<lambda>(ns, p) acc. AList.update ns p acc) ps acc"
  by (induction ps arbitrary: acc) (auto simp: read_policy_entry)

lemma fold_read_preference:
  "fold read_preference (map (\<lambda>(ns, b). (ns, PBool b)) ps) acc =
     fold (\<lambda>(ns, b) acc. AList.update ns b acc) ps acc"
  by (induction ps arbitrary: acc) (auto simp: read_preference_def)

text \<open>Writing a governance to a dictionary and reading it back from a runtime context (with the
  agent passed explicitly, as the extraction job does) gives the same governance: no policy, mode,
  public flag or sharing preference is lost, changed or reordered.
\<close>

theorem governance_roundtrip:
  assumes "wf_governance g"
  shows "governance_from_runtime_context
           (PDict [(''memory_governance'', PDict (governance_to_dict g))]) (gv_agent_id g) = Inr g"
proof -
  have pol: "fold read_policy (map policy_entry (gv_policies g)) [] = gv_policies g"
    using assms fold_update_distinct [of "gv_policies g" "[]"]
    by (simp add: wf_governance_def fold_read_policy)
  have pref: "fold read_preference (map (\<lambda>(ns, b). (ns, PBool b)) (gv_preferences g)) [] =
      gv_preferences g"
    using assms fold_update_distinct [of "gv_preferences g" "[]"]
    by (simp add: wf_governance_def fold_read_preference)
  have agent: "resolve_agent_id (gv_agent_id g) [] [] = gv_agent_id g"
    using assms by (auto simp: resolve_agent_id_def wf_governance_def py_or_def py_strip_def)
  have items: "dict_items (PDict d) = Inr d" for d
    by (simp add: dict_items_def)
  from assms have "gv_tenant_id g \<noteq> []" "gv_visibility g \<noteq> []"
    by (simp_all add: wf_governance_def)
  then show ?thesis
    using pol pref agent
    by (simp add: governance_from_runtime_context_def governance_to_dict_def Let_def items
        first_truthy_def py_or_def policy_entry_def)
qed

definition sample_governance :: governance where
  "sample_governance =
     \<lparr>gv_tenant_id = ''acme'', gv_agent_id = Some ''a1'', gv_visibility = ''public'',
      gv_policies = [(''profile'', \<lparr>np_namespace = ''profile'', np_mode = TENANT_REQUIRED,
                                   np_allow_public = True\<rparr>)],
      gv_preferences = [(''preferences'', False)]\<rparr>"

lemma governance_roundtrip_witness:
  "governance_from_runtime_context
     (PDict [(''memory_governance'', PDict (governance_to_dict sample_governance))])
     (gv_agent_id sample_governance) = Inr sample_governance"
proof -
  have "wf_governance sample_governance"
    by (simp add: wf_governance_def sample_governance_def MEMORY_POLICY_MODES_def
        py_strip_def is_space_def)
  then show ?thesis by (rule governance_roundtrip)
qed

end
