(* ===== verification/Memory_Service.thy ===== *)
theory Memory_Service
  imports Memory_Eval Memory_Policy "HOL-Library.Product_Lexorder" "HOL-Library.Multiset"
begin

text \<open>
  The memory facade of the runtime (\<open>memory/service.py\<close>): recall with governance filtering and
  lexical ranking, and the write operations, which turn every provider exception into a result.
  The facade is a record over any provider; its state is the provider's. The lemmas in the
  \<open>memory_provider\<close> context hold for every provider that keeps the contract.
\<close>

section \<open>Terms of a text\<close>

text \<open>The maximal runs of elements that satisfy a predicate (\<open>re.findall\<close> of a character class).\<close>

function runs :: "('a \<Rightarrow> bool) \<Rightarrow> 'a list \<Rightarrow> 'a list list" where
  "runs P xs =
     (let ys = dropWhile (\<lambda>x. \<not> P x) xs
      in if ys = [] then [] else takeWhile P ys # runs P (dropWhile P ys))"
  by pat_completeness auto

lemma runs_decreases:
  assumes "dropWhile (\<lambda>x. \<not> P x) xs \<noteq> []"
  shows "length (dropWhile P (dropWhile (\<lambda>x. \<not> P x) xs)) < length xs"
proof -
  let ?ys = "dropWhile (\<lambda>x. \<not> P x) xs"
  obtain y zs where y: "?ys = y # zs" using assms by (cases ?ys) auto
  then have "P y" using hd_dropWhile [OF assms] by simp
  then have "length (dropWhile P ?ys) \<le> length zs" by (simp add: y length_dropWhile_le)
  moreover have "length ?ys \<le> length xs" by (rule length_dropWhile_le)
  ultimately show ?thesis using y by simp
qed

termination runs
  by (relation "measure (\<lambda>(P, xs). length xs)") (auto intro: runs_decreases)

declare runs.simps [simp del]

text \<open>\<open>[\u3400-\u9fff]\<close>: code points 13312 to 40959, three bytes each.\<close>

definition is_cjk :: "string \<Rightarrow> bool" where
  "is_cjk ch \<longleftrightarrow>
     (case map of_char ch of
        [a, b, c] \<Rightarrow>
          (let n = (a - 224) * 4096 + (b - 128) * 64 + (c - 128)
           in 224 \<le> a \<and> a < 240 \<and> (13312::nat) \<le> n \<and> n \<le> 40959)
      | _ \<Rightarrow> False)"

definition is_word_char :: "char \<Rightarrow> bool" where
  "is_word_char c \<longleftrightarrow>
     (let n = (of_char c :: nat) in (97 \<le> n \<and> n \<le> 122) \<or> (48 \<le> n \<and> n \<le> 57) \<or> n = 95)"

fun pairs_of :: "string list \<Rightarrow> string list" where
  "pairs_of (a # b # cs) = (a @ b) # pairs_of (b # cs)"
| "pairs_of _ = []"

definition run_terms :: "string list \<Rightarrow> string list" where
  "run_terms run = concat run # run @ pairs_of run"

text \<open>The set of terms, without duplicates.\<close>

definition memory_terms :: "string \<Rightarrow> string list" where
  "memory_terms text =
     (let normalized = py_lower text
      in unique (filter (\<lambda>r. 2 \<le> length r) (runs is_word_char normalized) @
                 concat (map run_terms (runs is_cjk (chars normalized)))))"

section \<open>Ranking\<close>

definition float_metadata :: "memory_item \<Rightarrow> string \<Rightarrow> rat \<Rightarrow> rat" where
  "float_metadata it k d =
     (case py_float (dget_or (it_metadata it) k (PFloat d)) of None \<Rightarrow> d | Some r \<Rightarrow> r)"

definition overlap :: "string list \<Rightarrow> memory_item \<Rightarrow> rat" where
  "overlap terms it =
     (let item_terms = memory_terms (it_key it @ '' '' @ it_content it)
      in of_nat (length (filter (\<lambda>t. t \<in> set item_terms) terms)) /
         of_nat (max 1 (length terms)))"

text \<open>The sort key, negated: \<open>reverse=True\<close> puts the greatest key first.\<close>

definition rank_key :: "string list \<Rightarrow> nat \<times> memory_item \<Rightarrow> int \<times> rat \<times> rat \<times> rat \<times> nat" where
  "rank_key terms = (\<lambda>(index, it).
     (if 0 < overlap terms it then - 1 else 0, - overlap terms it,
      - float_metadata it ''importance'' (1 / 2), - float_metadata it ''confidence'' 1, index))"

definition rank_memory_items :: "string \<Rightarrow> memory_item list \<Rightarrow> memory_item list" where
  "rank_memory_items query items =
     (let terms = memory_terms query
      in if terms = [] then items
         else map snd (sort_key (rank_key terms) (zip [0..<length items] items)))"

section \<open>The facade\<close>

record 's memory_service =
  ms_provider :: "'s provider option"
  ms_recall_enabled :: bool
  ms_write_enabled :: bool
  ms_recall_limit :: int
  ms_max_item_chars :: int

text \<open>\<open>s[:n]\<close> of a text.\<close>

definition clip :: "string \<Rightarrow> int \<Rightarrow> string" where
  "clip s n = (if 0 \<le> n then py_take (nat n) s else py_take (py_len s - nat (- n)) s)"

definition sanitize_items :: "int \<Rightarrow> memory_item list \<Rightarrow> memory_item list" where
  "sanitize_items max_chars items =
     map (\<lambda>it. it\<lparr>it_content := clip (py_strip (it_content it)) max_chars\<rparr>)
       (filter (\<lambda>it. py_strip (it_content it) \<noteq> []) items)"

definition svc_recall ::
  "'s memory_service \<Rightarrow> 's \<Rightarrow> int \<Rightarrow> memory_scope \<Rightarrow> string \<Rightarrow> governance option \<Rightarrow> memory_item list" where
  "svc_recall m s now sc query gov =
     (case ms_provider m of
        None \<Rightarrow> []
      | Some p \<Rightarrow>
          if \<not> ms_recall_enabled m then []
          else case po_recall p s now sc query (max (ms_recall_limit m * 4) (ms_recall_limit m)) of
                 Inl e \<Rightarrow> []
               | Inr items \<Rightarrow>
                   let items = (case gov of None \<Rightarrow> items | Some g \<Rightarrow> filter_recalled_items items g)
                   in sanitize_items (ms_max_item_chars m)
                        (py_upto (rank_memory_items query items) (ms_recall_limit m)))"

definition svc_get_current ::
  "'s memory_service \<Rightarrow> 's \<Rightarrow> int \<Rightarrow> memory_scope \<Rightarrow> string \<Rightarrow> memory_item option" where
  "svc_get_current m s now sc key =
     (case ms_provider m of
        None \<Rightarrow> None
      | Some p \<Rightarrow> (case po_get_current p s now sc key of Inl e \<Rightarrow> None | Inr r \<Rightarrow> r))"

definition not_saved :: "string \<Rightarrow> memory_write_result" where
  "not_saved reason = \<lparr>wr_saved = False, wr_item = None, wr_reason = Some reason\<rparr>"

definition svc_remember ::
  "'s memory_service \<Rightarrow> 's \<Rightarrow> int \<Rightarrow> memory_scope \<Rightarrow> memory_write \<Rightarrow> memory_write_result \<times> 's" where
  "svc_remember m s now sc w =
     (case ms_provider m of
        None \<Rightarrow> (not_saved ''memory_write_disabled'', s)
      | Some p \<Rightarrow>
          if \<not> ms_write_enabled m then (not_saved ''memory_write_disabled'', s)
          else case po_remember p s now sc w of
                 Inl e \<Rightarrow> (not_saved ''provider_error'', s)
               | Inr (it, s') \<Rightarrow> (\<lparr>wr_saved = True, wr_item = Some it, wr_reason = None\<rparr>, s'))"

definition svc_forget ::
  "'s memory_service \<Rightarrow> 's \<Rightarrow> int \<Rightarrow> memory_scope \<Rightarrow> string \<Rightarrow> string option \<Rightarrow> string option \<Rightarrow>
   string \<Rightarrow> bool \<times> 's" where
  "svc_forget m s now sc key reason trace kind =
     (case ms_provider m of
        None \<Rightarrow> (False, s)
      | Some p \<Rightarrow>
          if \<not> ms_write_enabled m then (False, s)
          else case po_forget p s now sc key reason trace kind of
                 Inl e \<Rightarrow> (False, s)
               | Inr r \<Rightarrow> r)"

definition svc_expire_due ::
  "'s memory_service \<Rightarrow> 's \<Rightarrow> int \<Rightarrow> string option \<Rightarrow> int \<Rightarrow> nat \<times> 's" where
  "svc_expire_due m s now tenant limit =
     (case ms_provider m of
        None \<Rightarrow> (0, s)
      | Some p \<Rightarrow>
          if \<not> ms_write_enabled m then (0, s)
          else case po_expire_due p s now tenant limit of Inl e \<Rightarrow> (0, s) | Inr r \<Rightarrow> r)"

section \<open>Ranking is a permutation that puts lexical hits first\<close>

lemma mset_rank [simp]: "mset (rank_memory_items query items) = mset items"
proof (cases "memory_terms query = []")
  case True
  then show ?thesis by (simp add: rank_memory_items_def)
next
  case False
  have "mset (map snd (sort_key (rank_key (memory_terms query)) (zip [0..<length items] items))) =
      image_mset snd (mset (zip [0..<length items] items))"
    by simp
  also have "\<dots> = mset (map snd (zip [0..<length items] items))" by (simp only: mset_map)
  also have "\<dots> = mset items" by simp
  finally show ?thesis using False by (simp add: rank_memory_items_def Let_def)
qed

lemma set_rank [simp]: "set (rank_memory_items query items) = set items"
  using mset_rank by (metis set_mset_mset)

text \<open>How two items compare, best first; equal items keep their order.\<close>

definition ranks_before :: "string list \<Rightarrow> memory_item \<Rightarrow> memory_item \<Rightarrow> bool" where
  "ranks_before terms a b \<longleftrightarrow>
     (overlap terms b, float_metadata b ''importance'' (1 / 2), float_metadata b ''confidence'' 1)
     \<le> (overlap terms a, float_metadata a ''importance'' (1 / 2), float_metadata a ''confidence'' 1)"

lemma overlap_nonneg: "0 \<le> overlap terms it"
  by (simp add: overlap_def Let_def)

lemma rank_key_before:
  "rank_key terms p \<le> rank_key terms q \<Longrightarrow> ranks_before terms (snd p) (snd q)"
  using overlap_nonneg [of terms "snd p"] overlap_nonneg [of terms "snd q"]
  by (auto simp: rank_key_def ranks_before_def less_eq_prod_def less_prod_def split: prod.splits if_splits)

lemma rank_sorted:
  assumes "memory_terms query \<noteq> []"
  shows "sorted_wrt (ranks_before (memory_terms query)) (rank_memory_items query items)"
proof -
  let ?t = "memory_terms query"
  let ?s = "sort_key (rank_key ?t) (zip [0..<length items] items)"
  have "sorted (map (rank_key ?t) ?s)" by simp
  then have "sorted_wrt (\<lambda>p q. rank_key ?t p \<le> rank_key ?t q) ?s"
    by (simp add: sorted_wrt_map)
  then have "sorted_wrt (\<lambda>p q. ranks_before ?t (snd p) (snd q)) ?s"
    by (rule sorted_wrt_mono_rel [rotated]) (rule rank_key_before)
  then show ?thesis using assms by (simp add: rank_memory_items_def sorted_wrt_map)
qed

text \<open>
  \<open>rank_memory_items\<close> loses and duplicates no item, and when the query has terms the result is
  ordered by lexical overlap, then importance, then confidence: in particular no item without a
  term of the query precedes one that has such a term, however important it is.
\<close>

theorem rank_hits_first:
  "mset (rank_memory_items query items) = mset items \<and>
   (memory_terms query \<noteq> [] \<longrightarrow>
      sorted_wrt (ranks_before (memory_terms query)) (rank_memory_items query items) \<and>
      (\<forall>i j. i < j \<longrightarrow> j < length items \<longrightarrow>
         0 < overlap (memory_terms query) (rank_memory_items query items ! j) \<longrightarrow>
         0 < overlap (memory_terms query) (rank_memory_items query items ! i)))"
proof -
  have len: "length (rank_memory_items query items) = length items"
    by (metis mset_rank size_mset)
  have "0 < overlap (memory_terms query) (rank_memory_items query items ! i)"
    if "memory_terms query \<noteq> []" "i < j" "j < length items"
      "0 < overlap (memory_terms query) (rank_memory_items query items ! j)" for i j
  proof -
    have "ranks_before (memory_terms query) (rank_memory_items query items ! i)
        (rank_memory_items query items ! j)"
      using rank_sorted [OF that(1)] that(2,3) len by (simp add: sorted_wrt_iff_nth_less)
    then show ?thesis using that(4) by (auto simp: ranks_before_def less_eq_prod_def less_prod_def)
  qed
  then show ?thesis using rank_sorted by simp
qed

definition sample_item :: "string \<Rightarrow> string \<Rightarrow> memory_item" where
  "sample_item k v =
     \<lparr>it_id = k, it_type = ''semantic'', it_key = k, it_content = v, it_scope = ''user_global'',
      it_namespace = ''preferences'', it_version = 1, it_source_agent_id = None,
      it_source_kind = ''explicit'', it_metadata = [(''importance'', PFloat (9 / 10))]\<rparr>"

lemma rank_hits_first_witness:
  "memory_terms ''tea or coffee'' \<noteq> [] \<and>
   sorted_wrt (ranks_before (memory_terms ''tea or coffee''))
     (rank_memory_items ''tea or coffee''
        [sample_item ''lang'' ''german'', sample_item ''drink'' ''green tea''])"
proof -
  have "memory_terms ''tea or coffee'' \<noteq> []" by code_simp
  then show ?thesis
    using rank_hits_first [of "''tea or coffee''"
        "[sample_item ''lang'' ''german'', sample_item ''drink'' ''green tea'']"] by blast
qed

section \<open>Recall through the facade\<close>

lemma set_sanitize:
  "it \<in> set (sanitize_items n items) \<Longrightarrow>
     \<exists>src \<in> set items. it = src\<lparr>it_content := clip (py_strip (it_content src)) n\<rparr> \<and>
       py_strip (it_content src) \<noteq> []"
  by (auto simp: sanitize_items_def)

lemma length_sanitize: "length (sanitize_items n items) \<le> length items"
  by (simp add: sanitize_items_def)

lemma py_len_clip: "0 \<le> n \<Longrightarrow> py_len (clip s n) \<le> nat n"
  by (simp add: clip_def py_len_take)

lemma recall_of_provider:
  assumes "ms_provider m = Some p" "0 \<le> ms_recall_limit m" "0 \<le> ms_max_item_chars m"
  shows "case po_recall p s now sc query (max (ms_recall_limit m * 4) (ms_recall_limit m)) of
       Inl e \<Rightarrow> svc_recall m s now sc query (Some g) = []
     | Inr items \<Rightarrow>
         int (length (svc_recall m s now sc query (Some g))) \<le> ms_recall_limit m \<and>
         (\<forall>it \<in> set (svc_recall m s now sc query (Some g)).
            py_len (it_content it) \<le> nat (ms_max_item_chars m) \<and>
            (\<exists>src \<in> set items. can_recall src g \<and> py_strip (it_content src) \<noteq> [] \<and>
               it = src\<lparr>it_content := clip (py_strip (it_content src)) (ms_max_item_chars m)\<rparr>))"
proof (cases "po_recall p s now sc query (max (ms_recall_limit m * 4) (ms_recall_limit m))")
  case (Inl e)
  with assms show ?thesis by (simp add: svc_recall_def)
next
  case (Inr items)
  let ?top = "py_upto (rank_memory_items query (filter_recalled_items items g)) (ms_recall_limit m)"
  have res: "svc_recall m s now sc query (Some g) =
      (if ms_recall_enabled m then sanitize_items (ms_max_item_chars m) ?top else [])"
    using assms(1) Inr by (simp add: svc_recall_def)
  have "length ?top \<le> nat (ms_recall_limit m)" using assms(2) by (simp add: py_upto_def)
  then have len: "int (length (sanitize_items (ms_max_item_chars m) ?top)) \<le> ms_recall_limit m"
    using length_sanitize [of "ms_max_item_chars m" ?top] assms(2) by linarith
  have top: "set ?top \<subseteq> {it \<in> set items. can_recall it g}"
    using set_py_upto [of "rank_memory_items query (filter_recalled_items items g)" "ms_recall_limit m"]
    by (auto simp: filter_recalled_items_def)
  have each: "py_len (it_content it) \<le> nat (ms_max_item_chars m) \<and>
      (\<exists>src \<in> set items. can_recall src g \<and> py_strip (it_content src) \<noteq> [] \<and>
         it = src\<lparr>it_content := clip (py_strip (it_content src)) (ms_max_item_chars m)\<rparr>)"
    if it: "it \<in> set (sanitize_items (ms_max_item_chars m) ?top)" for it
  proof -
    obtain src where src: "src \<in> set ?top" "py_strip (it_content src) \<noteq> []"
      "it = src\<lparr>it_content := clip (py_strip (it_content src)) (ms_max_item_chars m)\<rparr>"
      using set_sanitize [OF it] by blast
    then have "src \<in> set items" "can_recall src g" using top by blast+
    with src show ?thesis using py_len_clip [OF assms(3)] by auto
  qed
  show ?thesis using Inr res len each assms(2) by simp
qed

text \<open>
  C27: \<open>MemoryService.recall\<close> under a governance, with limits that are not negative, gives the empty list when no provider is configured,
  when recall is disabled and when the provider fails. Otherwise it returns at most \<open>recall_limit\<close>
  items, each a copy of an item its provider returned and \<open>can_recall\<close> allows, its content non-blank
  before truncation and at most \<open>max_item_chars\<close> characters long.
\<close>

theorem recall_governed:
  assumes "0 \<le> ms_recall_limit m" "0 \<le> ms_max_item_chars m"
    and "out = svc_recall m s now sc query (Some g)"
  shows "if ms_provider m = None \<or> \<not> ms_recall_enabled m then out = []
     else case po_recall (the (ms_provider m)) s now sc query (max (ms_recall_limit m * 4) (ms_recall_limit m)) of
       Inl e \<Rightarrow> out = []
     | Inr items \<Rightarrow>
         int (length out) \<le> ms_recall_limit m \<and>
         (\<forall>it \<in> set out.
            py_len (it_content it) \<le> nat (ms_max_item_chars m) \<and>
            (\<exists>src \<in> set items. can_recall src g \<and> py_strip (it_content src) \<noteq> [] \<and>
               it = src\<lparr>it_content := clip (py_strip (it_content src)) (ms_max_item_chars m)\<rparr>))"
proof (cases "ms_provider m = None \<or> \<not> ms_recall_enabled m")
  case True
  then show ?thesis unfolding assms(3) by (auto simp: svc_recall_def split: option.split)
next
  case False
  then obtain p where "ms_provider m = Some p" by auto
  with False recall_of_provider [OF this assms(1,2), of s now sc query g] show ?thesis
    unfolding assms(3) by simp
qed

definition sample_service :: "eval_db memory_service" where
  "sample_service =
     \<lparr>ms_provider = Some eval_provider, ms_recall_enabled = True, ms_write_enabled = True,
      ms_recall_limit = 1, ms_max_item_chars = 4\<rparr>"

definition sample_eval_db :: eval_db where
  "sample_eval_db = InMemoryEvalProvider
     (map (\<lambda>it. it\<lparr>it_metadata := [(''user_id'', PStr ''u1'')]\<rparr>)
        [sample_item ''lang'' ''german'', sample_item ''drink'' ''green tea''])"

definition open_governance :: governance where
  "open_governance =
     \<lparr>gv_tenant_id = ''default'', gv_agent_id = Some ''a1'', gv_visibility = ''private'',
      gv_policies = [], gv_preferences = []\<rparr>"

lemma recall_governed_witness:
  "let sc = \<lparr>sc_user_id = ''u1'', sc_session_id = None, sc_agent_id = Some ''a1'',
            sc_tenant_id = None, sc_namespace = ''preferences'', sc_memory_scope = ''user_global''\<rparr>;
       out = svc_recall sample_service sample_eval_db 0 sc ''tea'' (Some open_governance)
   in length out \<le> 1 \<and> (\<forall>it \<in> set out. py_len (it_content it) \<le> 4)"
proof -
  let ?sc = "\<lparr>sc_user_id = ''u1'', sc_session_id = None, sc_agent_id = Some ''a1'',
    sc_tenant_id = None, sc_namespace = ''preferences'', sc_memory_scope = ''user_global''\<rparr>"
  have m: "ms_provider sample_service = Some eval_provider" "ms_recall_limit sample_service = 1"
    "ms_max_item_chars sample_service = 4" "ms_recall_enabled sample_service"
    by (simp_all add: sample_service_def)
  show ?thesis
    using recall_governed [of sample_service _ sample_eval_db 0 ?sc "''tea''" open_governance, OF _ _ refl]
    by (cases "po_recall eval_provider sample_eval_db 0 ?sc ''tea'' 4") (simp_all add: m Let_def)
qed

section \<open>Writes through the facade\<close>

text \<open>A provider that fails leaves the facade with its old state and a refusal.\<close>

lemma svc_remember_error:
  "ms_provider m = Some p \<Longrightarrow> po_remember p s now sc w = Inl e \<Longrightarrow>
     \<exists>reason. svc_remember m s now sc w = (not_saved reason, s)"
  by (auto simp: svc_remember_def)

lemma svc_write_disabled:
  assumes "\<not> ms_write_enabled m \<or> ms_provider m = None"
  shows "svc_remember m s now sc w = (not_saved ''memory_write_disabled'', s)"
    and "svc_forget m s now sc key reason trace kind = (False, s)"
    and "svc_expire_due m s now tenant limit = (0, s)"
  using assms
  by (auto simp: svc_remember_def svc_forget_def svc_expire_due_def split: option.splits)

context memory_provider
begin

lemma svc_remember_saved:
  assumes "ms_provider m = Some P" "ms_write_enabled m" "inv s" "wf_scope sc" "wf_write w"
    and "w_memory_type w \<in> set candidate_memory_types" "not_expired now (w_expires_at w)"
  shows "\<exists>it s'. svc_remember m s now sc w = (\<lparr>wr_saved = True, wr_item = Some it, wr_reason = None\<rparr>, s') \<and>
     inv s' \<and> it_content it = w_value w \<and> svc_get_current m s' now sc (w_key w) = Some it"
proof -
  obtain it s' where step: "po_remember P s now sc w = Inr (it, s')"
    using remember_total [OF assms(3-6)] by blast
  then show ?thesis
    using assms remember_inv [OF assms(3) step] remember_get [OF assms(3,5,7) step]
    by (auto simp: svc_remember_def svc_get_current_def)
qed

lemma svc_remember_frame:
  assumes "ms_provider m = Some P" "inv s" "svc_remember m s now sc w = (r, s')"
    and "scope_ident sc' k \<noteq> scope_ident sc (w_key w)" "py_strip k = k"
  shows "inv s' \<and> svc_get_current m s' now' sc' k = svc_get_current m s now' sc' k"
proof (cases "ms_write_enabled m \<and> (\<exists>it t. po_remember P s now sc w = Inr (it, t))")
  case True
  then obtain it t where step: "po_remember P s now sc w = Inr (it, t)" by blast
  then have "s' = t" using True assms(1,3) by (simp add: svc_remember_def)
  then show ?thesis
    using remember_inv [OF assms(2) step] remember_frame [OF assms(2) step assms(4,5)] assms(1)
    by (simp add: svc_get_current_def)
next
  case False
  then have "s' = s"
    using assms(1,3) by (auto simp: svc_remember_def split: sum.splits if_splits)
  then show ?thesis using assms(2) by simp
qed

lemma svc_forget_effect:
  assumes "ms_provider m = Some P" "inv s" "py_strip key = key"
    and "svc_forget m s now sc key reason trace kind = (b, s')"
  shows "inv s'" "ms_write_enabled m \<Longrightarrow> svc_get_current m s' now' sc key = None"
    and "\<not> ms_write_enabled m \<Longrightarrow> s' = s"
proof -
  obtain b' t where step: "po_forget P s now sc key reason trace kind = Inr (b', t)"
    using forget_total [OF assms(2)] by blast
  show "inv s'"
    using assms(1,2,4) step forget_inv [OF assms(2) step]
    by (auto simp: svc_forget_def split: if_splits)
  show "svc_get_current m s' now' sc key = None" if "ms_write_enabled m"
    using that assms(1,4) step forget_get [OF assms(2,3) step]
    by (simp add: svc_forget_def svc_get_current_def)
  show "s' = s" if "\<not> ms_write_enabled m"
    using that assms(1,4) by (simp add: svc_forget_def)
qed

lemma svc_forget_frame:
  assumes "ms_provider m = Some P" "inv s" "py_strip key = key"
    and "svc_forget m s now sc key reason trace kind = (b, s')"
    and "scope_ident sc' k \<noteq> scope_ident sc key" "py_strip k = k"
  shows "svc_get_current m s' now' sc' k = svc_get_current m s now' sc' k"
proof -
  obtain b' t where step: "po_forget P s now sc key reason trace kind = Inr (b', t)"
    using forget_total [OF assms(2)] by blast
  show ?thesis
    using assms(1,4) step forget_frame [OF assms(2) step assms(5,6,3)]
    by (auto simp: svc_forget_def svc_get_current_def split: if_splits)
qed

end

end
