(* ===== verification/Native_Pg.thy ===== *)
theory Native_Pg
  imports Memory_Provider "HOL-Library.Product_Lexorder"
begin

text \<open>
  The native PostgreSQL provider (\<open>memory/native_pg.py\<close>): the tables \<open>memory_items\<close>,
  \<open>memory_events\<close> and \<open>user_memories\<close> as lists of rows, with the constraints of
  \<open>scripts/db_migrate.py\<close>, and one function per operation that performs its SQL statements in order.
  \<open>now()\<close> is the transaction's instant, passed as an argument; a violated constraint rolls the
  transaction back. The columns \<open>confidence\<close> and \<open>importance\<close> keep their value exactly (the
  rounding of the column type \<open>real\<close> is not modelled); instants inside JSON are integers.
\<close>

section \<open>Tables\<close>

datatype item_status = Active | Superseded | Deleted | Expired

record item_row =
  r_id :: int
  r_tenant_id :: string
  r_subject_user_id :: string
  r_scope :: string
  r_namespace :: string
  r_agent_id :: "string option"
  r_memory_type :: string
  r_memory_key :: string
  r_content :: string
  r_source_agent_id :: "string option"
  r_source_session_id :: "string option"
  r_source_trace_id :: "string option"
  r_source_kind :: string
  r_confidence :: rat
  r_importance :: rat
  r_status :: item_status
  r_version :: int
  r_supersedes_id :: "int option"
  r_valid_from :: int
  r_valid_until :: "int option"
  r_created_at :: int
  r_updated_at :: int

record event_row =
  e_tenant_id :: string
  e_subject_user_id :: string
  e_namespace :: string
  e_memory_key :: string
  e_memory_id :: "int option"
  e_candidate_id :: "int option"
  e_event_type :: string
  e_source_kind :: string
  e_source_agent_id :: "string option"
  e_source_session_id :: "string option"
  e_source_trace_id :: "string option"
  e_reason :: "string option"
  e_detail :: pydict

record memory_db =
  db_items :: "item_row list"
  db_next_id :: int
  db_events :: "event_row list"
  db_facts :: "(string \<times> (string \<times> string) list) list"

definition row_ident :: "item_row \<Rightarrow> ident" where
  "row_ident r =
     (r_tenant_id r, r_subject_user_id r, r_scope r, r_namespace r, opt_or (r_agent_id r) [],
      r_memory_key r)"

definition is_active :: "item_row \<Rightarrow> bool" where
  "is_active r \<longleftrightarrow> r_status r = Active"

definition item_memory_types :: "string list" where
  "item_memory_types = candidate_memory_types @ [''procedural_candidate'']"

text \<open>The \<open>CHECK\<close> constraints of \<open>memory_items\<close>.\<close>

definition item_checks :: "item_row \<Rightarrow> bool" where
  "item_checks r \<longleftrightarrow>
     r_scope r \<in> set memory_scopes \<and> r_memory_type r \<in> set item_memory_types \<and>
     r_source_kind r \<in> set source_kinds \<and>
     0 \<le> r_confidence r \<and> r_confidence r \<le> 1 \<and> 0 \<le> r_importance r \<and> r_importance r \<le> 1 \<and>
     0 < r_version r \<and> (r_scope r = ''user_agent'' \<longrightarrow> r_agent_id r \<noteq> None)"

text \<open>\<open>INSERT\<close> into \<open>memory_items\<close>: the constraints, the unique index over active rows.\<close>

definition insert_item :: "item_row \<Rightarrow> memory_db \<Rightarrow> memory_db outcome" where
  "insert_item r db =
     (if \<not> item_checks r then Inl (RuntimeErr ''CheckViolation'')
      else if is_active r \<and> (\<exists>q \<in> set (db_items db). is_active q \<and> row_ident q = row_ident r)
        then Inl (RuntimeErr ''UniqueViolation'')
      else Inr (db\<lparr>db_items := db_items db @ [r], db_next_id := db_next_id db + 1\<rparr>))"

definition map_items :: "(item_row \<Rightarrow> bool) \<Rightarrow> (item_row \<Rightarrow> item_row) \<Rightarrow> memory_db \<Rightarrow> memory_db" where
  "map_items p f db = db\<lparr>db_items := map (\<lambda>r. if p r then f r else r) (db_items db)\<rparr>"

definition record_event :: "event_row \<Rightarrow> memory_db \<Rightarrow> memory_db" where
  "record_event e db = db\<lparr>db_events := db_events db @ [e]\<rparr>"

section \<open>Rows as items\<close>

definition or_default :: "string \<Rightarrow> string \<Rightarrow> string" where
  "or_default s d = (if s = [] then d else s)"

definition int_opt_val :: "int option \<Rightarrow> pyval" where
  "int_opt_val x = (case x of None \<Rightarrow> PNone | Some i \<Rightarrow> PInt i)"

definition row_metadata :: "item_row \<Rightarrow> pydict" where
  "row_metadata r =
     filter (\<lambda>(k, v). v \<noteq> PNone)
       [(''tenant_id'', PStr (r_tenant_id r)),
        (''user_id'', PStr (r_subject_user_id r)),
        (''agent_id'', opt_val (r_agent_id r)),
        (''source_session_id'', opt_val (r_source_session_id r)),
        (''source_trace_id'', opt_val (r_source_trace_id r)),
        (''confidence'', PFloat (r_confidence r)),
        (''importance'', PFloat (r_importance r)),
        (''supersedes_id'', int_opt_val (r_supersedes_id r)),
        (''valid_from'', PInt (r_valid_from r)),
        (''valid_until'', int_opt_val (r_valid_until r))]"

definition row_to_item :: "item_row \<Rightarrow> memory_item" where
  "row_to_item r =
     \<lparr>it_id = int_text (r_id r),
      it_type = or_default (r_memory_type r) ''semantic'',
      it_key = r_memory_key r,
      it_content = r_content r,
      it_scope = or_default (r_scope r) ''user_global'',
      it_namespace = or_default (r_namespace r) ''preferences'',
      it_version = (if r_version r = 0 then 1 else r_version r),
      it_source_agent_id = (if opt_truthy (r_source_agent_id r) then r_source_agent_id r else None),
      it_source_kind = or_default (r_source_kind r) ''legacy'',
      it_metadata = row_metadata r\<rparr>"

section \<open>Operations\<close>

definition visible_row :: "memory_scope \<Rightarrow> int \<Rightarrow> item_row \<Rightarrow> bool" where
  "visible_row sc now r \<longleftrightarrow>
     r_tenant_id r = scope_tenant sc \<and> r_subject_user_id r = sc_user_id sc \<and> is_active r \<and>
     not_expired now (r_valid_until r) \<and>
     (r_scope r \<in> {''user_global'', ''tenant_user''} \<or>
      (r_scope r = ''user_agent'' \<and> r_agent_id r \<noteq> None \<and> r_agent_id r = sc_agent_id sc))"

text \<open>\<open>ORDER BY importance DESC, updated_at DESC, id DESC LIMIT max(limit, 1)\<close>.\<close>

definition recall_order :: "item_row \<Rightarrow> rat \<times> int \<times> int" where
  "recall_order r = (- r_importance r, - r_updated_at r, - r_id r)"

definition pg_recall ::
  "memory_db \<Rightarrow> int \<Rightarrow> memory_scope \<Rightarrow> string \<Rightarrow> int \<Rightarrow> memory_item list outcome" where
  "pg_recall db now sc query limit =
     Inr (map row_to_item
            (take (nat (max limit 1))
               (sort_key recall_order (filter (visible_row sc now) (db_items db)))))"

definition current_row :: "memory_db \<Rightarrow> ident \<Rightarrow> item_row option" where
  "current_row db i = find (\<lambda>r. is_active r \<and> row_ident r = i) (db_items db)"

definition pg_get_current ::
  "memory_db \<Rightarrow> int \<Rightarrow> memory_scope \<Rightarrow> string \<Rightarrow> memory_item option outcome" where
  "pg_get_current db now sc key0 =
     (let key = py_strip key0
      in if key = [] then Inr None
         else Inr (case sort_key (\<lambda>r. - r_id r)
                     (filter (\<lambda>r. is_active r \<and> row_ident r = scope_ident sc key \<and>
                                  not_expired now (r_valid_until r)) (db_items db)) of
                     [] \<Rightarrow> None
                   | r # _ \<Rightarrow> Some (row_to_item r)))"

definition write_event ::
  "memory_scope \<Rightarrow> memory_write \<Rightarrow> int \<Rightarrow> string \<Rightarrow> string \<Rightarrow> pydict \<Rightarrow> event_row" where
  "write_event sc w mid event_type default_reason detail =
     \<lparr>e_tenant_id = scope_tenant sc, e_subject_user_id = sc_user_id sc,
      e_namespace = sc_namespace sc, e_memory_key = w_key w,
      e_memory_id = Some mid, e_candidate_id = None, e_event_type = event_type,
      e_source_kind = w_source_kind w,
      e_source_agent_id = opt_or_opt (w_source_agent_id w) (sc_agent_id sc),
      e_source_session_id = opt_or_opt (w_source_session_id w) (sc_session_id sc),
      e_source_trace_id = w_source_trace_id w,
      e_reason = Some (opt_or (w_reason w) default_reason), e_detail = detail\<rparr>"

definition new_row ::
  "memory_db \<Rightarrow> int \<Rightarrow> memory_scope \<Rightarrow> memory_write \<Rightarrow> int \<Rightarrow> int option \<Rightarrow> item_row" where
  "new_row db now sc w version supersedes =
     \<lparr>r_id = db_next_id db, r_tenant_id = scope_tenant sc, r_subject_user_id = sc_user_id sc,
      r_scope = sc_memory_scope sc, r_namespace = sc_namespace sc, r_agent_id = scope_agent sc,
      r_memory_type = w_memory_type w, r_memory_key = w_key w, r_content = w_value w,
      r_source_agent_id = opt_or_opt (w_source_agent_id w) (sc_agent_id sc),
      r_source_session_id = opt_or_opt (w_source_session_id w) (sc_session_id sc),
      r_source_trace_id = w_source_trace_id w, r_source_kind = w_source_kind w,
      r_confidence = w_confidence w, r_importance = w_importance w,
      r_status = Active, r_version = version, r_supersedes_id = supersedes,
      r_valid_from = now, r_valid_until = w_expires_at w,
      r_created_at = now, r_updated_at = now\<rparr>"

definition supersede :: "int \<Rightarrow> item_row \<Rightarrow> item_row" where
  "supersede now r =
     r\<lparr>r_status := Superseded,
       r_valid_until := (case r_valid_until r of None \<Rightarrow> Some now | Some v \<Rightarrow> Some v),
       r_updated_at := now\<rparr>"

definition supersede_current ::
  "memory_db \<Rightarrow> int \<Rightarrow> memory_scope \<Rightarrow> memory_write \<Rightarrow> item_row \<Rightarrow> int \<Rightarrow> memory_db" where
  "supersede_current db now sc w cur version =
     record_event
       (write_event sc w (r_id cur) ''superseded'' ''memory_update''
          [(''next_version'', PInt version)])
       (map_items (\<lambda>r. r_id r = r_id cur) (supersede now) db)"

text \<open>The aggregate table kept during the migration window.\<close>

definition upsert_fact :: "string \<Rightarrow> string \<Rightarrow> string \<Rightarrow> memory_db \<Rightarrow> memory_db" where
  "upsert_fact user key value db =
     db\<lparr>db_facts :=
          AList.update user
            (AList.update key value
               (case map_of (db_facts db) user of None \<Rightarrow> [] | Some facts \<Rightarrow> facts))
            (db_facts db)\<rparr>"

definition delete_fact :: "string \<Rightarrow> string \<Rightarrow> memory_db \<Rightarrow> memory_db" where
  "delete_fact user key db =
     db\<lparr>db_facts :=
          map (\<lambda>(u, facts). (u, if u = user then AList.delete key facts else facts)) (db_facts db)\<rparr>"

definition global_preference :: "memory_scope \<Rightarrow> bool" where
  "global_preference sc \<longleftrightarrow>
     sc_memory_scope sc = ''user_global'' \<and> sc_namespace sc = ''preferences''"

definition pg_remember ::
  "memory_db \<Rightarrow> int \<Rightarrow> memory_scope \<Rightarrow> memory_write \<Rightarrow> (memory_item \<times> memory_db) outcome" where
  "pg_remember db now sc w =
     (let current = current_row db (scope_ident sc (w_key w))
      in if (case current of
               None \<Rightarrow> False
             | Some c \<Rightarrow> r_content c = w_value w \<and> r_valid_until c = w_expires_at w)
         then Inr (row_to_item (the current), db)
         else
           let version = (case current of None \<Rightarrow> 1 | Some c \<Rightarrow> r_version c + 1);
               supersedes = map_option r_id current;
               db1 = (case current of
                        None \<Rightarrow> db
                      | Some c \<Rightarrow> supersede_current db now sc w c version);
               row = new_row db1 now sc w version supersedes
           in case insert_item row db1 of
                Inl e \<Rightarrow> Inl e
              | Inr db2 \<Rightarrow>
                  let db3 = record_event
                        (write_event sc w (r_id row)
                           (if supersedes = None then ''created'' else ''updated'')
                           (if supersedes = None then ''memory_create'' else ''memory_update'')
                           [(''version'', PInt version),
                            (''supersedes_id'', int_opt_val supersedes),
                            (''expires_at'', int_opt_val (w_expires_at w))]) db2;
                      db4 = (if global_preference sc
                             then upsert_fact (sc_user_id sc) (w_key w) (w_value w) db3 else db3)
                  in Inr (row_to_item row, db4))"

definition pg_forget ::
  "memory_db \<Rightarrow> int \<Rightarrow> memory_scope \<Rightarrow> string \<Rightarrow> string option \<Rightarrow> string option \<Rightarrow> string \<Rightarrow>
   (bool \<times> memory_db) outcome" where
  "pg_forget db now sc key0 reason trace kind =
     (let key = py_strip key0
      in if key = [] then Inr (False, db)
         else
           let hit = (\<lambda>r. is_active r \<and> row_ident r = scope_ident sc key);
               db1 = map_items hit
                       (\<lambda>r. r\<lparr>r_status := Deleted, r_valid_until := Some now, r_updated_at := now\<rparr>) db
           in case find hit (db_items db) of
                None \<Rightarrow> Inr (False, db1)
              | Some r \<Rightarrow>
                  let db2 = record_event
                        \<lparr>e_tenant_id = scope_tenant sc, e_subject_user_id = sc_user_id sc,
                         e_namespace = sc_namespace sc, e_memory_key = key,
                         e_memory_id = Some (r_id r), e_candidate_id = None,
                         e_event_type = ''forgotten'', e_source_kind = kind,
                         e_source_agent_id = sc_agent_id sc,
                         e_source_session_id = sc_session_id sc,
                         e_source_trace_id = trace,
                         e_reason = Some (opt_or reason ''explicit_forget''), e_detail = []\<rparr> db1
                  in Inr (True, if global_preference sc
                                then delete_fact (sc_user_id sc) key db2 else db2))"

definition expired_event :: "item_row \<Rightarrow> event_row" where
  "expired_event r =
     \<lparr>e_tenant_id = r_tenant_id r, e_subject_user_id = r_subject_user_id r,
      e_namespace = r_namespace r, e_memory_key = r_memory_key r, e_memory_id = Some (r_id r),
      e_candidate_id = None, e_event_type = ''expired'',
      e_source_kind = or_default (r_source_kind r) ''legacy'',
      e_source_agent_id = r_source_agent_id r, e_source_session_id = r_source_session_id r,
      e_source_trace_id = r_source_trace_id r, e_reason = Some ''valid_until_elapsed'',
      e_detail = []\<rparr>"

definition due_rows :: "memory_db \<Rightarrow> int \<Rightarrow> string option \<Rightarrow> int \<Rightarrow> item_row list" where
  "due_rows db now tenant limit =
     take (nat (max 1 limit))
       (sort_key (\<lambda>r. (the (r_valid_until r), r_id r))
          (filter (\<lambda>r. is_active r \<and> \<not> not_expired now (r_valid_until r) \<and>
                       (tenant = None \<or> tenant = Some (r_tenant_id r))) (db_items db)))"

definition pg_expire_due ::
  "memory_db \<Rightarrow> int \<Rightarrow> string option \<Rightarrow> int \<Rightarrow> (nat \<times> memory_db) outcome" where
  "pg_expire_due db now tenant limit =
     (let due = due_rows db now tenant limit;
          ids = map r_id due;
          db1 = map_items (\<lambda>r. r_id r \<in> set ids)
                  (\<lambda>r. r\<lparr>r_status := Expired, r_updated_at := now\<rparr>) db
      in Inr (length due, fold (\<lambda>r d. record_event (expired_event r) d) due db1))"

definition native_pg :: "memory_db provider" where
  "native_pg =
     \<lparr>po_recall = pg_recall, po_get_current = pg_get_current, po_remember = pg_remember,
      po_forget = pg_forget, po_expire_due = pg_expire_due\<rparr>"

definition empty_db :: memory_db where
  "empty_db = \<lparr>db_items = [], db_next_id = 1, db_events = [], db_facts = []\<rparr>"

section \<open>Well-formed tables\<close>

definition active_rows :: "memory_db \<Rightarrow> item_row list" where
  "active_rows db = filter is_active (db_items db)"

text \<open>A row that replaced another names a retired row of its identity, one version older.\<close>

definition chained :: "item_row list \<Rightarrow> item_row \<Rightarrow> bool" where
  "chained rows r \<longleftrightarrow>
     (\<forall>i. r_supersedes_id r = Some i \<longrightarrow>
        (\<exists>q \<in> set rows. r_id q = i \<and> \<not> is_active q \<and> row_ident q = row_ident r \<and>
                        r_version r = r_version q + 1))"

definition wf_items :: "item_row list \<Rightarrow> int \<Rightarrow> bool" where
  "wf_items rows n \<longleftrightarrow>
     distinct (map r_id rows) \<and> distinct (map row_ident (filter is_active rows)) \<and>
     (\<forall>r \<in> set rows. r_id r < n \<and> item_checks r \<and> chained rows r)"

definition wf_db :: "memory_db \<Rightarrow> bool" where
  "wf_db db \<longleftrightarrow> wf_items (db_items db) (db_next_id db)"

lemma record_event_simps [simp]:
  "db_items (record_event e db) = db_items db"
  "db_next_id (record_event e db) = db_next_id db"
  "db_events (record_event e db) = db_events db @ [e]"
  by (simp_all add: record_event_def)

lemma fact_simps [simp]:
  "db_items (upsert_fact u k v db) = db_items db"
  "db_next_id (upsert_fact u k v db) = db_next_id db"
  "db_events (upsert_fact u k v db) = db_events db"
  "db_items (delete_fact u k db) = db_items db"
  "db_next_id (delete_fact u k db) = db_next_id db"
  "db_events (delete_fact u k db) = db_events db"
  by (simp_all add: upsert_fact_def delete_fact_def)

lemma map_items_simps [simp]:
  "db_next_id (map_items p f db) = db_next_id db"
  "db_events (map_items p f db) = db_events db"
  "db_items (map_items p f db) = map (\<lambda>r. if p r then f r else r) (db_items db)"
  by (simp_all add: map_items_def)

lemma fold_events_simps [simp]:
  "db_items (fold (\<lambda>r d. record_event (g r) d) rs db) = db_items db"
  "db_next_id (fold (\<lambda>r d. record_event (g r) d) rs db) = db_next_id db"
  "db_events (fold (\<lambda>r d. record_event (g r) d) rs db) = db_events db @ map g rs"
  by (induction rs arbitrary: db) simp_all

lemma current_row_active_rows: "current_row db i = find (\<lambda>r. row_ident r = i) (active_rows db)"
proof -
  have "find (\<lambda>r. is_active r \<and> row_ident r = i) rows = find (\<lambda>r. row_ident r = i) (filter is_active rows)"
    for rows by (induction rows) auto
  then show ?thesis by (simp add: current_row_def active_rows_def)
qed

lemma current_row_cong: "active_rows db = active_rows db' \<Longrightarrow> current_row db = current_row db'"
  by (simp add: fun_eq_iff current_row_active_rows)

lemma current_row_items: "db_items db = db_items db' \<Longrightarrow> current_row db = current_row db'"
  by (rule current_row_cong) (simp add: active_rows_def)

lemma current_row_Some:
  assumes "wf_db db"
  shows "current_row db i = Some r \<longleftrightarrow> r \<in> set (active_rows db) \<and> row_ident r = i"
proof -
  have inj: "inj_on row_ident (set (active_rows db))"
    using assms by (simp add: wf_db_def wf_items_def active_rows_def distinct_map)
  have "find (\<lambda>r. row_ident r = i) rows = Some r \<longleftrightarrow> r \<in> set rows \<and> row_ident r = i"
    if "inj_on row_ident (set rows)" for rows
    using that by (induction rows) (auto dest: inj_onD)
  from this [OF inj] show ?thesis by (simp add: current_row_active_rows)
qed

lemma current_row_None: "current_row db i = None \<longleftrightarrow> (\<forall>r \<in> set (active_rows db). row_ident r \<noteq> i)"
  by (auto simp: current_row_active_rows find_None_iff)

text \<open>What every status change of a row keeps: only its status, validity and update time move.\<close>

definition retires :: "(item_row \<Rightarrow> item_row) \<Rightarrow> bool" where
  "retires f \<longleftrightarrow>
     (\<forall>r. r_id (f r) = r_id r \<and> row_ident (f r) = row_ident r \<and> item_checks (f r) = item_checks r \<and>
          r_version (f r) = r_version r \<and> r_supersedes_id (f r) = r_supersedes_id r \<and>
          \<not> is_active (f r))"

lemma retires_intros [simp]:
  "retires (supersede now)"
  "retires (\<lambda>r. r\<lparr>r_status := Deleted, r_valid_until := v, r_updated_at := now\<rparr>)"
  "retires (\<lambda>r. r\<lparr>r_status := Expired, r_updated_at := now\<rparr>)"
  by (simp_all add: retires_def supersede_def row_ident_def item_checks_def is_active_def)

lemma active_rows_map_items:
  "retires f \<Longrightarrow> active_rows (map_items p f db) = filter (\<lambda>r. \<not> p r) (active_rows db)"
proof -
  assume f: "retires f"
  have "filter is_active (map (\<lambda>r. if p r then f r else r) rows) =
      filter (\<lambda>r. \<not> p r) (filter is_active rows)" for rows
    using f by (induction rows) (auto simp: retires_def)
  then show ?thesis by (simp add: active_rows_def)
qed

lemma chained_map_items:
  assumes "retires f" "chained rows r"
  shows "chained (map (\<lambda>r. if p r then f r else r) rows) (if p r then f r else r)"
proof -
  let ?g = "\<lambda>r. if p r then f r else r"
  have g: "r_id (?g q) = r_id q" "row_ident (?g q) = row_ident q" "r_version (?g q) = r_version q"
    "r_supersedes_id (?g q) = r_supersedes_id q" "\<not> is_active q \<Longrightarrow> \<not> is_active (?g q)" for q
    using assms(1) by (simp_all add: retires_def)
  show ?thesis
    unfolding chained_def
  proof (intro allI impI)
    fix i
    assume "r_supersedes_id (?g r) = Some i"
    then have "r_supersedes_id r = Some i" by (simp only: g)
    then obtain q where q: "q \<in> set rows" "r_id q = i" "\<not> is_active q" "row_ident q = row_ident r"
      "r_version r = r_version q + 1"
      using assms(2) by (auto simp: chained_def)
    then have "?g q \<in> set (map ?g rows) \<and> r_id (?g q) = i \<and> \<not> is_active (?g q) \<and>
        row_ident (?g q) = row_ident (?g r) \<and> r_version (?g r) = r_version (?g q) + 1"
      using g [of q] g [of r] by simp
    then show "\<exists>q \<in> set (map ?g rows). r_id q = i \<and> \<not> is_active q \<and>
        row_ident q = row_ident (?g r) \<and> r_version (?g r) = r_version q + 1"
      by blast
  qed
qed

lemma wf_map_items: "retires f \<Longrightarrow> wf_db db \<Longrightarrow> wf_db (map_items p f db)"
proof -
  assume f: "retires f" and wf: "wf_db db"
  let ?g = "\<lambda>r. if p r then f r else r"
  have ids: "map r_id (map ?g (db_items db)) = map r_id (db_items db)"
    using f by (simp add: retires_def)
  have idents: "map row_ident (filter is_active (map ?g (db_items db))) =
      map row_ident (filter (\<lambda>r. \<not> p r) (active_rows db))"
    using active_rows_map_items [OF f, of p db] by (simp add: active_rows_def)
  have uniq: "distinct (map row_ident (filter (\<lambda>r. \<not> p r) (active_rows db)))"
    using wf by (intro distinct_map_filter) (simp add: wf_db_def wf_items_def active_rows_def)
  have rows: "\<forall>r \<in> ?g ` set (db_items db). r_id r < db_next_id db \<and> item_checks r \<and>
      chained (map ?g (db_items db)) r"
  proof
    fix r
    assume "r \<in> ?g ` set (db_items db)"
    then obtain q where q: "q \<in> set (db_items db)" "r = ?g q" by (rule imageE)
    show "r_id r < db_next_id db \<and> item_checks r \<and> chained (map ?g (db_items db)) r"
      using q f wf chained_map_items [OF f, of "db_items db" q p]
      by (simp add: wf_db_def wf_items_def retires_def)
  qed
  from wf have "distinct (map r_id (db_items db))" by (simp add: wf_db_def wf_items_def)
  with rows uniq show ?thesis
    by (simp only: wf_db_def wf_items_def map_items_simps ids idents set_map)
qed

lemma wf_same_items:
  "db_items db = db_items db' \<Longrightarrow> db_next_id db = db_next_id db' \<Longrightarrow> wf_db db = wf_db db'"
  by (simp add: wf_db_def)

lemma wf_events [simp]:
  "wf_db (record_event e db) = wf_db db"
  "wf_db (upsert_fact u k v db) = wf_db db"
  "wf_db (delete_fact u k db) = wf_db db"
  "wf_db (fold (\<lambda>r d. record_event (g r) d) rs db) = wf_db db"
  by (simp_all add: wf_db_def)

lemma wf_empty_db: "wf_db empty_db"
  by (simp add: wf_db_def wf_items_def empty_db_def)

section \<open>Effects of the operations\<close>

text \<open>Reading depends on the current row of the identity only.\<close>

lemma pg_get_current_eq:
  assumes "wf_db db"
  shows "pg_get_current db now sc key =
     Inr (if py_strip key = [] then None
          else case current_row db (scope_ident sc (py_strip key)) of
                 None \<Rightarrow> None
               | Some r \<Rightarrow> if not_expired now (r_valid_until r) then Some (row_to_item r) else None)"
proof (cases "py_strip key = []")
  case True
  then show ?thesis by (simp add: pg_get_current_def)
next
  case False
  let ?i = "scope_ident sc (py_strip key)"
  let ?sel = "filter (\<lambda>r. is_active r \<and> row_ident r = ?i \<and> not_expired now (r_valid_until r)) (db_items db)"
  have sel: "?sel = filter (\<lambda>r. not_expired now (r_valid_until r))
      (filter (\<lambda>r. row_ident r = ?i) (active_rows db))"
    by (simp add: active_rows_def conj_ac)
  have "filter (\<lambda>r. row_ident r = ?i) (active_rows db) =
      (case current_row db ?i of None \<Rightarrow> [] | Some r \<Rightarrow> [r])"
  proof -
    have "filter (\<lambda>r. row_ident r = i) rows =
        (case find (\<lambda>r. row_ident r = i) rows of None \<Rightarrow> [] | Some r \<Rightarrow> [r])"
      if "distinct (map row_ident rows)" for rows :: "item_row list" and i
      using that
      by (induction rows) (auto simp: filter_empty_conv split: option.splits dest!: find_SomeD)
    moreover have "distinct (map row_ident (active_rows db))"
      using assms by (simp add: wf_db_def wf_items_def active_rows_def)
    ultimately show ?thesis by (simp add: current_row_active_rows)
  qed
  then show ?thesis
    using False by (simp add: pg_get_current_def sel split: option.splits)
qed

lemma current_row_filter:
  assumes "wf_db db" "active_rows db' = filter (\<lambda>r. \<not> p r) (active_rows db)"
  shows "current_row db' i =
     (case current_row db i of None \<Rightarrow> None | Some r \<Rightarrow> if p r then None else Some r)"
proof -
  have "find (\<lambda>r. row_ident r = i) (filter (\<lambda>r. \<not> p r) rows) =
      (case find (\<lambda>r. row_ident r = i) rows of None \<Rightarrow> None | Some r \<Rightarrow> if p r then None else Some r)"
    if "distinct (map row_ident rows)" for rows
    using that
    by (induction rows) (auto simp: find_None_iff split: option.splits dest!: find_SomeD)
  moreover have "distinct (map row_ident (active_rows db))"
    using assms(1) by (simp add: wf_db_def wf_items_def active_rows_def)
  ultimately show ?thesis by (simp add: current_row_active_rows assms(2))
qed

lemma active_unique:
  "wf_db db \<Longrightarrow> q \<in> set (active_rows db) \<Longrightarrow> r \<in> set (active_rows db) \<Longrightarrow>
     r_id q = r_id r \<longleftrightarrow> row_ident q = row_ident r"
  by (auto simp: wf_db_def wf_items_def active_rows_def distinct_map inj_on_def)

lemma row_ident_new_row [simp]:
  "row_ident (new_row db now sc w v old) = scope_ident sc (w_key w)"
  by (simp add: row_ident_def new_row_def scope_ident_def)

lemma is_active_new_row [simp]: "is_active (new_row db now sc w v old)"
  by (simp add: is_active_def new_row_def)

text \<open>The table just before the new version is inserted.\<close>

definition retired_db :: "memory_db \<Rightarrow> int \<Rightarrow> memory_scope \<Rightarrow> memory_write \<Rightarrow> memory_db" where
  "retired_db db now sc w =
     (case current_row db (scope_ident sc (w_key w)) of
        None \<Rightarrow> db
      | Some c \<Rightarrow> supersede_current db now sc w c (r_version c + 1))"

definition next_version :: "memory_db \<Rightarrow> ident \<Rightarrow> int" where
  "next_version db i = (case current_row db i of None \<Rightarrow> 1 | Some c \<Rightarrow> r_version c + 1)"

definition next_row :: "memory_db \<Rightarrow> int \<Rightarrow> memory_scope \<Rightarrow> memory_write \<Rightarrow> item_row" where
  "next_row db now sc w =
     (let i = scope_ident sc (w_key w)
      in new_row db now sc w (next_version db i) (map_option r_id (current_row db i)))"

lemma new_row_next_id: "db_next_id db = db_next_id db' \<Longrightarrow> new_row db = new_row db'"
  by (simp add: new_row_def fun_eq_iff)

lemma retired_db_simps:
  "db_next_id (retired_db db now sc w) = db_next_id db"
  "prefix (db_events db) (db_events (retired_db db now sc w))"
  by (simp_all add: retired_db_def supersede_current_def split: option.splits)

lemma wf_retired_db: "wf_db db \<Longrightarrow> wf_db (retired_db db now sc w)"
  by (simp add: retired_db_def supersede_current_def wf_map_items split: option.splits)

lemma current_retired_db:
  assumes "wf_db db"
  shows "current_row (retired_db db now sc w) = (current_row db)(scope_ident sc (w_key w) := None)"
proof (cases "current_row db (scope_ident sc (w_key w))")
  case None
  then show ?thesis by (auto simp: retired_db_def)
next
  case (Some c)
  let ?db = "map_items (\<lambda>r. r_id r = r_id c) (supersede now) db"
  have c: "c \<in> set (active_rows db)" "row_ident c = scope_ident sc (w_key w)"
    using Some current_row_Some [OF assms] by simp_all
  have "current_row (retired_db db now sc w) = current_row ?db"
    using Some by (intro current_row_items) (simp add: retired_db_def supersede_current_def)
  moreover have "current_row ?db i =
      (case current_row db i of None \<Rightarrow> None | Some r \<Rightarrow> if r_id r = r_id c then None else Some r)" for i
    by (rule current_row_filter [OF assms]) (simp add: active_rows_map_items)
  moreover have "r_id r = r_id c \<longleftrightarrow> i = scope_ident sc (w_key w)" if "current_row db i = Some r" for i r
    using that c active_unique [OF assms] current_row_Some [OF assms] by metis
  ultimately show ?thesis
    by (auto simp: fun_eq_iff split: option.splits)
qed

text \<open>Both branches of \<open>remember\<close>: the write is already there, or a new version is inserted.\<close>

definition already_current :: "memory_db \<Rightarrow> memory_scope \<Rightarrow> memory_write \<Rightarrow> bool" where
  "already_current db sc w \<longleftrightarrow>
     (case current_row db (scope_ident sc (w_key w)) of
        None \<Rightarrow> False
      | Some c \<Rightarrow> r_content c = w_value w \<and> r_valid_until c = w_expires_at w)"

lemma pg_remember_same:
  "already_current db sc w \<Longrightarrow>
     pg_remember db now sc w =
       Inr (row_to_item (the (current_row db (scope_ident sc (w_key w)))), db)"
  by (simp add: pg_remember_def already_current_def split: option.splits)

text \<open>The event that records a row's insertion.\<close>

definition birth_event :: "item_row \<Rightarrow> string" where
  "birth_event r = (if r_supersedes_id r = None then ''created'' else ''updated'')"

lemma pg_remember_new:
  assumes "\<not> already_current db sc w"
  shows "pg_remember db now sc w = Inl e \<Longrightarrow>
           insert_item (next_row db now sc w) (retired_db db now sc w) = Inl e"
    and "pg_remember db now sc w = Inr (it, db') \<Longrightarrow>
           \<exists>db2 e. insert_item (next_row db now sc w) (retired_db db now sc w) = Inr db2 \<and>
             it = row_to_item (next_row db now sc w) \<and> db_items db' = db_items db2 \<and>
             db_next_id db' = db_next_id db2 \<and> db_events db' = db_events db2 @ [e] \<and>
             e_memory_id e = Some (r_id (next_row db now sc w)) \<and>
             e_event_type e = birth_event (next_row db now sc w)"
proof -
  let ?i = "scope_ident sc (w_key w)"
  have row: "new_row (retired_db db now sc w) now sc w (next_version db ?i)
      (map_option r_id (current_row db ?i)) = next_row db now sc w"
    using new_row_next_id [OF retired_db_simps(1)] by (simp add: next_row_def Let_def)
  have eq: "pg_remember db now sc w =
      (case insert_item (next_row db now sc w) (retired_db db now sc w) of
         Inl e \<Rightarrow> Inl e
       | Inr db2 \<Rightarrow>
           let supersedes = map_option r_id (current_row db ?i);
               db3 = record_event
                 (write_event sc w (r_id (next_row db now sc w))
                    (if supersedes = None then ''created'' else ''updated'')
                    (if supersedes = None then ''memory_create'' else ''memory_update'')
                    [(''version'', PInt (next_version db ?i)),
                     (''supersedes_id'', int_opt_val supersedes),
                     (''expires_at'', int_opt_val (w_expires_at w))]) db2
           in Inr (row_to_item (next_row db now sc w),
                   if global_preference sc
                   then upsert_fact (sc_user_id sc) (w_key w) (w_value w) db3 else db3))"
    unfolding row [symmetric] pg_remember_def retired_db_def next_version_def
    using assms by (cases "current_row db ?i") (auto simp: already_current_def Let_def split: sum.split)
  have birth: "birth_event (next_row db now sc w) =
      (if current_row db ?i = None then ''created'' else ''updated'')"
    by (simp add: birth_event_def next_row_def Let_def new_row_def)
  show "pg_remember db now sc w = Inl e \<Longrightarrow>
      insert_item (next_row db now sc w) (retired_db db now sc w) = Inl e"
    by (simp add: eq Let_def split: sum.splits)
  show "pg_remember db now sc w = Inr (it, db') \<Longrightarrow>
      \<exists>db2 e. insert_item (next_row db now sc w) (retired_db db now sc w) = Inr db2 \<and>
        it = row_to_item (next_row db now sc w) \<and> db_items db' = db_items db2 \<and>
        db_next_id db' = db_next_id db2 \<and> db_events db' = db_events db2 @ [e] \<and>
        e_memory_id e = Some (r_id (next_row db now sc w)) \<and>
        e_event_type e = birth_event (next_row db now sc w)"
    using birth
    by (auto simp: eq Let_def write_event_def split: sum.splits if_splits)
qed

lemma insert_item_Inr:
  "insert_item r db = Inr db' \<longleftrightarrow>
     item_checks r \<and> (is_active r \<longrightarrow> (\<forall>q \<in> set (active_rows db). row_ident q \<noteq> row_ident r)) \<and>
     db' = db\<lparr>db_items := db_items db @ [r], db_next_id := db_next_id db + 1\<rparr>"
  by (auto simp: insert_item_def active_rows_def)

lemma current_insert_item:
  assumes "insert_item r db = Inr db'" "is_active r"
  shows "current_row db' = (current_row db)(row_ident r \<mapsto> r)"
proof -
  have fresh: "\<forall>q \<in> set (active_rows db). row_ident q \<noteq> row_ident r"
    and db': "active_rows db' = active_rows db @ [r]"
    using assms by (auto simp: insert_item_Inr active_rows_def)
  have "find (\<lambda>q. row_ident q = i) (rows @ [r]) =
      (if i = row_ident r then Some r else find (\<lambda>q. row_ident q = i) rows)"
    if "\<forall>q \<in> set rows. row_ident q \<noteq> row_ident r" for rows i
    using that by (induction rows) auto
  from this [OF fresh] show ?thesis
    by (simp add: fun_eq_iff current_row_active_rows db')
qed

lemma chained_mono: "chained rows r \<Longrightarrow> set rows \<subseteq> set rows' \<Longrightarrow> chained rows' r"
  unfolding chained_def by (meson subsetD)

lemma wf_insert_item:
  assumes "wf_db db" "insert_item r db = Inr db'" "is_active r" "r_id r = db_next_id db"
    "chained (db_items db) r"
  shows "wf_db db'"
proof -
  have r: "item_checks r" "\<forall>q \<in> set (active_rows db). row_ident q \<noteq> row_ident r"
    and db': "db_items db' = db_items db @ [r]" "db_next_id db' = db_next_id db + 1"
    using assms by (auto simp: insert_item_Inr)
  have old: "r_id q < db_next_id db \<and> item_checks q \<and> chained (db_items db) q"
    if "q \<in> set (db_items db)" for q
    using that assms(1) by (simp add: wf_db_def wf_items_def)
  have "r_id r \<notin> r_id ` set (db_items db)"
    using old assms(4) by force
  moreover have "row_ident r \<notin> row_ident ` set (filter is_active (db_items db))"
    using r(2) by (auto simp: active_rows_def)
  moreover have "\<forall>q \<in> set (db_items db @ [r]). r_id q < db_next_id db + 1 \<and> item_checks q \<and>
      chained (db_items db @ [r]) q"
  proof
    fix q
    assume "q \<in> set (db_items db @ [r])"
    then consider "q \<in> set (db_items db)" | "q = r" by auto
    then show "r_id q < db_next_id db + 1 \<and> item_checks q \<and> chained (db_items db @ [r]) q"
    proof cases
      case 1
      then have "r_id q < db_next_id db" "item_checks q" "chained (db_items db) q"
        using old by blast+
      moreover from this(3) have "chained (db_items db @ [r]) q"
        by (rule chained_mono) auto
      ultimately show ?thesis by simp
    next
      case 2
      then show ?thesis
        using assms(4,5) r(1) chained_mono [of "db_items db" r "db_items db @ [r]"] by auto
    qed
  qed
  ultimately show ?thesis
    using assms(1) r db' by (simp add: wf_db_def wf_items_def)
qed

text \<open>The replaced row is still in the table, retired, when its successor is inserted.\<close>

lemma chained_next_row:
  assumes "wf_db db"
  shows "chained (db_items (retired_db db now sc w)) (next_row db now sc w)"
proof (cases "current_row db (scope_ident sc (w_key w))")
  case None
  then show ?thesis by (simp add: chained_def next_row_def Let_def new_row_def)
next
  case (Some c)
  then have c: "c \<in> set (db_items db)" "row_ident c = scope_ident sc (w_key w)"
    using current_row_Some [OF assms] by (auto simp: active_rows_def)
  have "supersede now c \<in> set (db_items (retired_db db now sc w))"
    using c(1) by (auto simp: retired_db_def supersede_current_def Some image_iff)
  moreover have "r_id (supersede now c) = r_id c" "\<not> is_active (supersede now c)"
    "row_ident (supersede now c) = row_ident c" "r_version (supersede now c) = r_version c"
    using retires_intros(1) [of now] by (simp_all add: retires_def)
  ultimately show ?thesis
    using c Some
    by (auto simp: chained_def next_row_def Let_def next_version_def)
      (auto simp: new_row_def intro!: bexI [of _ "supersede now c"])
qed

lemma r_simps_next_row [simp]:
  "r_content (next_row db now sc w) = w_value w"
  "r_valid_until (next_row db now sc w) = w_expires_at w"
  "row_ident (next_row db now sc w) = scope_ident sc (w_key w)"
  "is_active (next_row db now sc w)"
  "r_id (next_row db now sc w) = db_next_id db"
  by (simp_all add: next_row_def Let_def) (simp_all add: new_row_def)

lemma r_version_next_row:
  "r_version (next_row db now sc w) = next_version db (scope_ident sc (w_key w))"
  by (simp add: next_row_def Let_def new_row_def)

lemma item_checks_next_row:
  assumes "wf_db db" "wf_scope sc" "wf_write w" "w_memory_type w \<in> set candidate_memory_types"
  shows "item_checks (next_row db now sc w)"
proof -
  have "0 < next_version db (scope_ident sc (w_key w))"
  proof (cases "current_row db (scope_ident sc (w_key w))")
    case None
    then show ?thesis by (simp add: next_version_def)
  next
    case (Some c)
    then have "c \<in> set (db_items db)"
      using current_row_Some [OF assms(1)] by (auto simp: active_rows_def)
    then have "0 < r_version c"
      using assms(1) by (auto simp: wf_db_def wf_items_def item_checks_def)
    then show ?thesis using Some by (simp add: next_version_def)
  qed
  moreover have "sc_memory_scope sc = ''user_agent'' \<longrightarrow> scope_agent sc \<noteq> None"
    using assms(2) by (cases "sc_agent_id sc") (simp_all add: wf_scope_def scope_agent_def)
  ultimately show ?thesis
    using assms(2-4)
    by (simp add: item_checks_def next_row_def Let_def)
      (simp add: new_row_def wf_scope_def wf_write_def item_memory_types_def)
qed

lemma insert_next_row:
  assumes "wf_db db" "item_checks (next_row db now sc w)"
  shows "\<exists>db2. insert_item (next_row db now sc w) (retired_db db now sc w) = Inr db2"
proof -
  let ?db = "retired_db db now sc w"
  have "current_row ?db (scope_ident sc (w_key w)) = None"
    by (simp add: current_retired_db [OF assms(1)])
  then show ?thesis
    using assms(2) by (simp add: insert_item_Inr current_row_None)
qed

text \<open>The functional refinement: on the current rows, \<open>remember\<close> is a map update.\<close>

lemma current_after_remember:
  assumes "wf_db db" "pg_remember db now sc w = Inr (it, db')"
  shows "\<exists>r. current_row db' = (current_row db)(scope_ident sc (w_key w) \<mapsto> r) \<and>
             it = row_to_item r \<and> r_content r = w_value w \<and> r_valid_until r = w_expires_at w \<and>
             row_ident r = scope_ident sc (w_key w)"
proof (cases "already_current db sc w")
  case True
  then obtain c where c: "current_row db (scope_ident sc (w_key w)) = Some c"
    "r_content c = w_value w" "r_valid_until c = w_expires_at w"
    by (auto simp: already_current_def split: option.splits)
  with True assms(2) have "it = row_to_item c" "db' = db"
    by (simp_all add: pg_remember_same)
  moreover have "row_ident c = scope_ident sc (w_key w)"
    using c(1) current_row_Some [OF assms(1)] by blast
  ultimately show ?thesis
    using c by (intro exI [of _ c]) (simp add: map_upd_triv)
next
  case False
  then obtain db2 where ins: "insert_item (next_row db now sc w) (retired_db db now sc w) = Inr db2"
    and res: "it = row_to_item (next_row db now sc w)" "db_items db' = db_items db2"
    using pg_remember_new(2) [OF False assms(2)] by blast
  have "current_row db' = current_row db2"
    using res(2) by (rule current_row_items)
  also have "\<dots> = (current_row (retired_db db now sc w))
      (scope_ident sc (w_key w) \<mapsto> next_row db now sc w)"
    using current_insert_item [OF ins] by simp
  also have "\<dots> = (current_row db)(scope_ident sc (w_key w) \<mapsto> next_row db now sc w)"
    by (simp add: current_retired_db [OF assms(1)])
  finally show ?thesis using res(1) by (intro exI [of _ "next_row db now sc w"]) simp
qed

lemma wf_remember:
  assumes "wf_db db" "pg_remember db now sc w = Inr (it, db')"
  shows "wf_db db'"
proof (cases "already_current db sc w")
  case True
  with assms show ?thesis by (simp add: pg_remember_same)
next
  case False
  then obtain db2 where ins: "insert_item (next_row db now sc w) (retired_db db now sc w) = Inr db2"
    and res: "db_items db' = db_items db2" "db_next_id db' = db_next_id db2"
    using pg_remember_new(2) [OF False assms(2)] by blast
  have "wf_db db2"
    by (rule wf_insert_item [OF wf_retired_db [OF assms(1)] ins])
      (simp_all add: retired_db_simps chained_next_row [OF assms(1)])
  with res show ?thesis by (simp add: wf_db_def)
qed

lemma current_after_forget:
  assumes "wf_db db" "pg_forget db now sc key reason trace kind = Inr (b, db')"
  shows "current_row db' =
           (if py_strip key = [] then current_row db
            else (current_row db)(scope_ident sc (py_strip key) := None))"
    and "b \<longleftrightarrow> py_strip key \<noteq> [] \<and> current_row db (scope_ident sc (py_strip key)) \<noteq> None"
    and "wf_db db'"
proof -
  let ?k = "py_strip key"
  let ?hit = "\<lambda>r. is_active r \<and> row_ident r = scope_ident sc ?k"
  let ?f = "\<lambda>r. r\<lparr>r_status := Deleted, r_valid_until := Some now, r_updated_at := now\<rparr>"
  have items: "db_items db' = db_items (map_items ?hit ?f db) \<and>
      db_next_id db' = db_next_id db \<and> (b \<longleftrightarrow> find ?hit (db_items db) \<noteq> None)" if "?k \<noteq> []"
    using assms(2) that by (auto simp: pg_forget_def Let_def split: option.splits if_splits)
  have same: "db' = db \<and> \<not> b" if "?k = []"
    using assms(2) that by (simp add: pg_forget_def)
  have "current_row (map_items ?hit ?f db) i =
      (case current_row db i of None \<Rightarrow> None | Some r \<Rightarrow> if ?hit r then None else Some r)" for i
    by (rule current_row_filter [OF assms(1)]) (simp add: active_rows_map_items)
  moreover have "?hit r \<longleftrightarrow> i = scope_ident sc ?k" if "current_row db i = Some r" for i r
    using that current_row_Some [OF assms(1)] by (auto simp: active_rows_def)
  ultimately have upd: "current_row (map_items ?hit ?f db) = (current_row db)(scope_ident sc ?k := None)"
    by (auto simp: fun_eq_iff split: option.splits)
  show "current_row db' =
      (if ?k = [] then current_row db else (current_row db)(scope_ident sc ?k := None))"
    using items same upd current_row_items [of db' "map_items ?hit ?f db"] by (cases "?k = []") auto
  show "b \<longleftrightarrow> ?k \<noteq> [] \<and> current_row db (scope_ident sc ?k) \<noteq> None"
    using items same by (cases "?k = []") (auto simp: current_row_def)
  show "wf_db db'"
    using items same assms(1) wf_map_items [of ?f db ?hit]
    by (cases "?k = []") (auto simp: wf_db_def)
qed

lemma pg_forget_total: "\<exists>b db'. pg_forget db now sc key reason trace kind = Inr (b, db')"
proof (cases "pg_forget db now sc key reason trace kind")
  case (Inl e)
  then have False by (auto simp: pg_forget_def Let_def split: option.splits if_splits)
  then show ?thesis ..
next
  case (Inr r)
  then show ?thesis by (cases r) auto
qed

interpretation pg: memory_provider native_pg wf_db
proof (unfold_locales, goal_cases)
  case (1 s now sc key)
  then show ?case by (simp add: native_pg_def pg_get_current_eq)
next
  case (2 s sc w now)
  show ?case
  proof (cases "already_current s sc w")
    case True
    then show ?thesis by (simp add: native_pg_def pg_remember_same)
  next
    case False
    from 2 have "item_checks (next_row s now sc w)" by (simp add: item_checks_next_row)
    with 2 obtain db2 where "insert_item (next_row s now sc w) (retired_db s now sc w) = Inr db2"
      using insert_next_row by blast
    with False show ?thesis
      using pg_remember_new(1) [OF False, of now] by (cases "pg_remember s now sc w") (auto simp: native_pg_def)
  qed
next
  case (3 s now sc w it s')
  then show ?case by (auto simp: native_pg_def intro: wf_remember)
next
  case (4 s w now sc it s')
  then obtain r where r: "current_row s' = (current_row s)(scope_ident sc (w_key w) \<mapsto> r)"
    "it = row_to_item r" "r_content r = w_value w" "r_valid_until r = w_expires_at w"
    using current_after_remember [of s now sc w it s'] by (auto simp: native_pg_def)
  have "wf_db s'" using 4 wf_remember by (simp add: native_pg_def)
  with 4 r show ?case
    by (simp add: native_pg_def pg_get_current_eq wf_write_def row_to_item_def)
next
  case (5 s now sc w it s' sc' k now')
  then obtain r where r: "current_row s' = (current_row s)(scope_ident sc (w_key w) \<mapsto> r)"
    using current_after_remember [of s now sc w it s'] by (auto simp: native_pg_def)
  have "wf_db s'" using 5 wf_remember by (simp add: native_pg_def)
  with 5 r show ?case by (simp add: native_pg_def pg_get_current_eq)
next
  case (6 s now sc key reason trace kind)
  show ?case using pg_forget_total by (simp add: native_pg_def)
next
  case (7 s now sc key reason trace kind b s')
  then show ?case using current_after_forget(3) by (auto simp: native_pg_def)
next
  case (8 s key now sc reason trace kind b s' now')
  then show ?case
    using current_after_forget [of s now sc key reason trace kind b s']
    by (simp add: native_pg_def pg_get_current_eq)
next
  case (9 s key now sc it reason trace kind b s')
  then show ?case
    using current_after_forget(2) [of s now sc key reason trace kind b s']
    by (auto simp: native_pg_def pg_get_current_eq split: option.splits)
next
  case (10 s now sc key reason trace kind b s' sc' k now')
  then show ?case
    using current_after_forget [of s now sc key reason trace kind b s']
    by (auto simp: native_pg_def pg_get_current_eq)
qed

section \<open>Expiry\<close>

definition overdue :: "int \<Rightarrow> string option \<Rightarrow> item_row \<Rightarrow> bool" where
  "overdue now tenant r \<longleftrightarrow>
     \<not> not_expired now (r_valid_until r) \<and> (tenant = None \<or> tenant = Some (r_tenant_id r))"

lemma due_rows_eq:
  "due_rows db now tenant limit =
     take (nat (max 1 limit))
       (sort_key (\<lambda>r. (the (r_valid_until r), r_id r)) (filter (overdue now tenant) (active_rows db)))"
proof -
  have "filter (\<lambda>r. is_active r \<and> \<not> not_expired now (r_valid_until r) \<and>
          (tenant = None \<or> tenant = Some (r_tenant_id r))) (db_items db) =
      filter (overdue now tenant) (active_rows db)"
    by (simp add: active_rows_def overdue_def conj_ac)
  then show ?thesis by (simp add: due_rows_def)
qed

lemma set_due_rows: "set (due_rows db now tenant limit) \<subseteq> {r \<in> set (active_rows db). overdue now tenant r}"
  unfolding due_rows_eq using set_take_subset by fastforce

lemma length_due_rows:
  "length (due_rows db now tenant limit) =
     min (nat (max 1 limit)) (length (filter (overdue now tenant) (active_rows db)))"
  by (simp add: due_rows_eq min.commute)

lemma due_rows_all:
  "length (filter (overdue now tenant) (active_rows db)) \<le> nat (max 1 limit) \<Longrightarrow>
     set (due_rows db now tenant limit) = {r \<in> set (active_rows db). overdue now tenant r}"
  by (auto simp: due_rows_eq)

lemma inj_row_id: "wf_db db \<Longrightarrow> inj_on r_id (set (db_items db))"
  by (simp add: wf_db_def wf_items_def distinct_map)

lemma set_active_rows: "set (active_rows db) = {r \<in> set (db_items db). is_active r}"
  by (simp add: active_rows_def)

lemma due_ids:
  assumes "wf_db db" "r \<in> set (db_items db)"
  shows "r_id r \<in> r_id ` set (due_rows db now tenant limit) \<longleftrightarrow>
           r \<in> set (due_rows db now tenant limit)"
proof -
  have "set (due_rows db now tenant limit) \<subseteq> set (db_items db)"
    using set_due_rows set_active_rows by fastforce
  then show ?thesis
    using inj_row_id [OF assms(1)] assms(2) by (auto simp: inj_on_def image_iff)
qed

lemma after_expire_due:
  assumes "wf_db db" "pg_expire_due db now tenant limit = Inr (n, db')"
  shows "active_rows db' = filter (\<lambda>r. r \<notin> set (due_rows db now tenant limit)) (active_rows db)"
    and "n = length (due_rows db now tenant limit)"
    and "wf_db db'"
    and "db_items db' = map (\<lambda>r. if r \<in> set (due_rows db now tenant limit)
           then r\<lparr>r_status := Expired, r_updated_at := now\<rparr> else r) (db_items db)"
    and "db_events db' = db_events db @ map expired_event (due_rows db now tenant limit)"
proof -
  let ?due = "due_rows db now tenant limit"
  let ?p = "\<lambda>r. r_id r \<in> set (map r_id ?due)"
  let ?f = "\<lambda>r. r\<lparr>r_status := Expired, r_updated_at := now\<rparr>"
  have res: "n = length ?due"
    "db' = fold (\<lambda>r d. record_event (expired_event r) d) ?due (map_items ?p ?f db)"
    using assms(2) by (simp_all add: pg_expire_due_def Let_def)
  have p: "?p r \<longleftrightarrow> r \<in> set ?due" if "r \<in> set (db_items db)" for r
    using due_ids [OF assms(1) that] by simp
  have "active_rows db' = active_rows (map_items ?p ?f db)"
    using res(2) by (simp add: active_rows_def)
  also have "\<dots> = filter (\<lambda>r. \<not> ?p r) (active_rows db)"
    by (rule active_rows_map_items) simp
  also have "\<dots> = filter (\<lambda>r. r \<notin> set ?due) (active_rows db)"
    using p by (intro filter_cong refl) (auto simp: active_rows_def)
  finally show "active_rows db' = filter (\<lambda>r. r \<notin> set ?due) (active_rows db)" .
  show "n = length ?due" by (rule res(1))
  show "wf_db db'" using res(2) wf_map_items [of ?f db ?p] assms(1) by simp
  show "db_items db' = map (\<lambda>r. if r \<in> set ?due then ?f r else r) (db_items db)"
    using res(2) p by simp
  show "db_events db' = db_events db @ map expired_event ?due"
    using res(2) by simp
qed

section \<open>Reachable tables and the audit trail\<close>

inductive pg_step :: "memory_db \<Rightarrow> memory_db \<Rightarrow> bool" where
  remember: "pg_remember db now sc w = Inr (it, db') \<Longrightarrow> pg_step db db'"
| forget: "pg_forget db now sc key reason trace kind = Inr (b, db') \<Longrightarrow> pg_step db db'"
| expire: "pg_expire_due db now tenant limit = Inr (n, db') \<Longrightarrow> pg_step db db'"

inductive pg_reachable :: "memory_db \<Rightarrow> bool" where
  start: "pg_reachable empty_db"
| step: "pg_reachable db \<Longrightarrow> pg_step db db' \<Longrightarrow> pg_reachable db'"

inductive_cases pg_stepE: "pg_step db db'"

lemma wf_pg_step: "pg_step db db' \<Longrightarrow> wf_db db \<Longrightarrow> wf_db db'"
  by (elim pg_stepE) (blast intro: wf_remember current_after_forget(3) after_expire_due(3))+

lemma wf_pg_reachable: "pg_reachable db \<Longrightarrow> wf_db db"
  by (induction rule: pg_reachable.induct) (auto intro: wf_empty_db wf_pg_step)

fun status_event :: "item_status \<Rightarrow> string option" where
  "status_event Active = None"
| "status_event Superseded = Some ''superseded''"
| "status_event Deleted = Some ''forgotten''"
| "status_event Expired = Some ''expired''"

definition has_event :: "memory_db \<Rightarrow> int \<Rightarrow> string \<Rightarrow> bool" where
  "has_event db i t \<longleftrightarrow> (\<exists>e \<in> set (db_events db). e_memory_id e = Some i \<and> e_event_type e = t)"

text \<open>A row is audited when its creation and the end of its validity are on record.\<close>

definition audited :: "memory_db \<Rightarrow> item_row \<Rightarrow> bool" where
  "audited db r \<longleftrightarrow>
     has_event db (r_id r) (birth_event r) \<and>
     (\<forall>t. status_event (r_status r) = Some t \<longrightarrow> has_event db (r_id r) t)"

definition all_audited :: "memory_db \<Rightarrow> bool" where
  "all_audited db \<longleftrightarrow> (\<forall>r \<in> set (db_items db). audited db r)"

lemma audited_mono:
  "audited db r \<Longrightarrow> set (db_events db) \<subseteq> set (db_events db') \<Longrightarrow> audited db' r"
  unfolding audited_def has_event_def by blast

lemma audited_retired:
  assumes "audited db r" "set (db_events db) \<subseteq> set (db_events db')"
    and "r_id q = r_id r" "r_supersedes_id q = r_supersedes_id r"
    and "\<And>t. status_event (r_status q) = Some t \<Longrightarrow> has_event db' (r_id q) t"
  shows "audited db' q"
proof -
  have "audited db' r" using assms(1,2) by (rule audited_mono)
  with assms(3-5) show ?thesis by (simp add: audited_def birth_event_def)
qed

text \<open>\<open>remember\<close>: the new row gets its birth event, the replaced one its \<open>superseded\<close> event.\<close>

lemma pg_remember_events:
  assumes "\<not> already_current db sc w" "pg_remember db now sc w = Inr (it, db')"
  shows "db_items db' = db_items (retired_db db now sc w) @ [next_row db now sc w] \<and>
     (\<exists>e. db_events db' = db_events (retired_db db now sc w) @ [e] \<and>
          e_memory_id e = Some (r_id (next_row db now sc w)) \<and>
          e_event_type e = birth_event (next_row db now sc w))"
proof -
  let ?new = "next_row db now sc w"
  obtain db2 e where ins: "insert_item ?new (retired_db db now sc w) = Inr db2"
    and res: "db_items db' = db_items db2" "db_events db' = db_events db2 @ [e]"
      "e_memory_id e = Some (r_id ?new)" "e_event_type e = birth_event ?new"
    using pg_remember_new(2) [OF assms] by blast
  then show ?thesis by (auto simp: insert_item_Inr)
qed

lemma audited_retired_db:
  assumes wf: "wf_db db" and aud: "all_audited db" and r: "r \<in> set (db_items (retired_db db now sc w))"
  shows "audited (retired_db db now sc w) r"
proof (cases "current_row db (scope_ident sc (w_key w))")
  case None
  with aud r show ?thesis by (simp add: retired_db_def all_audited_def)
next
  case (Some c)
  let ?db = "retired_db db now sc w"
  have c: "c \<in> set (db_items db)"
    using Some current_row_Some [OF wf] by (simp add: set_active_rows)
  have ev: "set (db_events db) \<subseteq> set (db_events ?db)"
    by (rule set_mono_prefix) (rule retired_db_simps)
  have sup: "has_event ?db (r_id c) ''superseded''"
    by (simp add: retired_db_def Some supersede_current_def has_event_def write_event_def)
  obtain q where q: "q \<in> set (db_items db)" "r = (if r_id q = r_id c then supersede now q else q)"
    using r by (auto simp: retired_db_def Some supersede_current_def)
  show ?thesis
  proof (cases "r_id q = r_id c")
    case True
    have aq: "audited db q" using aud q(1) by (simp add: all_audited_def)
    have "r = supersede now q" "r_id q = r_id c" using True q(2) by simp_all
    with sup show ?thesis
      by (intro audited_retired [OF aq ev]) (simp_all add: supersede_def)
  next
    case False
    with q have "r = q" by simp
    with q aud ev show ?thesis by (auto simp: all_audited_def intro: audited_mono)
  qed
qed

lemma audited_remember:
  assumes wf: "wf_db db" and aud: "all_audited db" and step: "pg_remember db now sc w = Inr (it, db')"
  shows "all_audited db'"
proof (cases "already_current db sc w")
  case True
  with aud step show ?thesis by (simp add: pg_remember_same)
next
  case False
  let ?new = "next_row db now sc w" and ?mid = "retired_db db now sc w"
  obtain e where items: "db_items db' = db_items ?mid @ [?new]"
    and events: "db_events db' = db_events ?mid @ [e]" "e_memory_id e = Some (r_id ?new)"
      "e_event_type e = birth_event ?new"
    using pg_remember_events [OF False step] by blast
  have "r_status ?new = Active"
    using r_simps_next_row(4) by (simp add: is_active_def)
  with events have "audited db' ?new"
    by (simp add: audited_def has_event_def)
  moreover have "audited db' r" if "r \<in> set (db_items ?mid)" for r
    using audited_retired_db [OF wf aud that] by (rule audited_mono) (auto simp: events)
  ultimately show ?thesis by (auto simp: all_audited_def items)
qed

lemma audited_forget:
  assumes wf: "wf_db db" and aud: "all_audited db"
    and step: "pg_forget db now sc key reason trace kind = Inr (b, db')"
  shows "all_audited db'"
proof (cases "b")
  case False
  then have cur: "py_strip key = [] \<or> current_row db (scope_ident sc (py_strip key)) = None"
    using current_after_forget(2) [OF wf step] by blast
  have "db' = db"
  proof (cases "py_strip key = []")
    case True
    with step show ?thesis by (simp add: pg_forget_def)
  next
    case nonempty: False
    with cur have none: "find (\<lambda>r. is_active r \<and> row_ident r = scope_ident sc (py_strip key)) (db_items db) = None"
      by (simp add: current_row_def)
    then have "map (\<lambda>r. if is_active r \<and> row_ident r = scope_ident sc (py_strip key)
        then r\<lparr>r_status := Deleted, r_valid_until := Some now, r_updated_at := now\<rparr> else r) (db_items db) =
        db_items db"
      by (intro map_idI) (auto simp: find_None_iff)
    with nonempty none step show ?thesis by (simp add: pg_forget_def Let_def map_items_def)
  qed
  with aud show ?thesis by simp
next
  case True
  let ?hit = "\<lambda>r. is_active r \<and> row_ident r = scope_ident sc (py_strip key)"
  let ?f = "\<lambda>r. r\<lparr>r_status := Deleted, r_valid_until := Some now, r_updated_at := now\<rparr>"
  from True step obtain c e where c: "find ?hit (db_items db) = Some c"
    and items: "db_items db' = map (\<lambda>r. if ?hit r then ?f r else r) (db_items db)"
    and events: "db_events db' = db_events db @ [e]" "e_memory_id e = Some (r_id c)"
      "e_event_type e = ''forgotten''"
    by (auto simp: pg_forget_def Let_def split: option.splits if_splits)
  have ev: "set (db_events db) \<subseteq> set (db_events db')" using events by auto
  have hit: "q = c" if "q \<in> set (db_items db)" "?hit q" for q
  proof -
    have c': "c \<in> set (db_items db)" "?hit c" using find_SomeD [OF c] by blast+
    then have "r_id q = r_id c"
      using that active_unique [OF wf, of q c] by (simp add: set_active_rows)
    with that(1) c'(1) show ?thesis using inj_row_id [OF wf] by (simp add: inj_on_def)
  qed
  have "audited db' r" if r: "r \<in> set (db_items db')" for r
  proof -
    obtain q where q: "q \<in> set (db_items db)" "r = (if ?hit q then ?f q else q)"
      using r by (auto simp: items)
    show ?thesis
    proof (cases "?hit q")
      case True
      have aq: "audited db q" using aud q(1) by (simp add: all_audited_def)
      have "q = c" using hit q(1) True by blast
      then have "has_event db' (r_id q) ''forgotten''" using events by (simp add: has_event_def)
      moreover have "r = ?f q" using True q(2) by simp
      ultimately show ?thesis by (intro audited_retired [OF aq ev]) simp_all
    next
      case False
      with q have "r = q" by simp
      with q aud ev show ?thesis by (auto simp: all_audited_def intro: audited_mono)
    qed
  qed
  then show ?thesis by (simp add: all_audited_def)
qed

lemma audited_expire:
  assumes wf: "wf_db db" and aud: "all_audited db"
    and step: "pg_expire_due db now tenant limit = Inr (n, db')"
  shows "all_audited db'"
proof -
  let ?due = "due_rows db now tenant limit"
  note after = after_expire_due [OF wf step]
  have ev: "set (db_events db) \<subseteq> set (db_events db')" by (auto simp: after)
  have "audited db' r" if r: "r \<in> set (db_items db')" for r
  proof -
    obtain q where q: "q \<in> set (db_items db)"
      "r = (if q \<in> set ?due then q\<lparr>r_status := Expired, r_updated_at := now\<rparr> else q)"
      using r by (auto simp: after(4))
    show ?thesis
    proof (cases "q \<in> set ?due")
      case True
      then have "expired_event q \<in> set (db_events db')" by (simp add: after(5))
      moreover have "e_memory_id (expired_event q) = Some (r_id q)"
        "e_event_type (expired_event q) = ''expired''" by (simp_all add: expired_event_def)
      ultimately have "has_event db' (r_id q) ''expired''" unfolding has_event_def by blast
      moreover have aq: "audited db q" using aud q(1) by (simp add: all_audited_def)
      moreover have "r = q\<lparr>r_status := Expired, r_updated_at := now\<rparr>" using True q(2) by simp
      ultimately show ?thesis by (intro audited_retired [OF aq ev]) simp_all
    next
      case False
      with q have "r = q" by simp
      with q aud ev show ?thesis by (auto simp: all_audited_def intro: audited_mono)
    qed
  qed
  then show ?thesis by (simp add: all_audited_def)
qed

lemma audited_pg_step: "pg_step db db' \<Longrightarrow> wf_db db \<Longrightarrow> all_audited db \<Longrightarrow> all_audited db'"
  by (elim pg_stepE) (blast intro: audited_remember audited_forget audited_expire)+

lemma audited_pg_reachable: "pg_reachable db \<Longrightarrow> all_audited db"
proof (induction rule: pg_reachable.induct)
  case start
  show ?case by (simp add: all_audited_def empty_db_def)
next
  case (step db db')
  then show ?case by (blast intro: audited_pg_step wf_pg_reachable)
qed

end
