(* ===== verification/Native_Pg_Spec.thy ===== *)
theory Native_Pg_Spec
  imports Native_Pg Memory_Policy
begin

text \<open>
  What the native provider promises, over the map \<open>current_row\<close> from identities to active rows:
  \<open>remember\<close> is a map update that counts versions, \<open>forget\<close> removes an identity, \<open>expire_due\<close>
  retires overdue rows only; every reachable table keeps the version chain and the audit trail.
\<close>

section \<open>Remember and forget on the map of current rows\<close>

lemma remember_version:
  assumes "wf_db db" "\<not> already_current db sc w" "pg_remember db now sc w = Inr (it, db')"
  shows "current_row db' = (current_row db)(scope_ident sc (w_key w) \<mapsto> next_row db now sc w)"
    and "it = row_to_item (next_row db now sc w)"
proof -
  obtain db2 where ins: "insert_item (next_row db now sc w) (retired_db db now sc w) = Inr db2"
    and res: "it = row_to_item (next_row db now sc w)" "db_items db' = db_items db2"
    using pg_remember_new(2) [OF assms(2,3)] by blast
  show "it = row_to_item (next_row db now sc w)" by (rule res(1))
  have "current_row db' = current_row db2" using res(2) by (rule current_row_items)
  also have "\<dots> = (current_row (retired_db db now sc w))
      (scope_ident sc (w_key w) \<mapsto> next_row db now sc w)"
    using current_insert_item [OF ins] by simp
  finally show "current_row db' = (current_row db)(scope_ident sc (w_key w) \<mapsto> next_row db now sc w)"
    by (simp add: current_retired_db [OF assms(1)])
qed

lemma remember_noop:
  assumes "already_current db sc w" "pg_remember db now sc w = Inr (it, db')"
  shows "db' = db"
  using assms by (simp add: pg_remember_same)

lemma remember_ok:
  assumes "wf_db db" "wf_scope sc" "wf_write w" "w_memory_type w \<in> set candidate_memory_types"
  shows "\<exists>it db'. pg_remember db now sc w = Inr (it, db')"
  using pg.remember_total [OF assms, of now] by (simp add: native_pg_def)

text \<open>
  C16: \<open>NativePgMemoryProvider.remember\<close> always succeeds on a valid write and is an update of the
  map of current rows at the written identity, and of nothing else. A write that repeats the stored
  content and expiry changes no table at all; any other write stores a row that is one version
  newer than the one it replaces (version 1 for a new identity) and names it in \<open>supersedes_id\<close>.
\<close>

theorem remember_refines:
  assumes "wf_db db" "wf_scope sc" "wf_write w" "w_memory_type w \<in> set candidate_memory_types"
  shows "\<exists>it db' r. pg_remember db now sc w = Inr (it, db') \<and> it = row_to_item r \<and> wf_db db' \<and>
     current_row db' = (current_row db)(scope_ident sc (w_key w) \<mapsto> r) \<and>
     r_content r = w_value w \<and> r_valid_until r = w_expires_at w \<and>
     (if already_current db sc w then db' = db
      else r_version r = next_version db (scope_ident sc (w_key w)) \<and>
           r_supersedes_id r = map_option r_id (current_row db (scope_ident sc (w_key w))))"
proof -
  obtain it db' where step: "pg_remember db now sc w = Inr (it, db')"
    using remember_ok [OF assms] by blast
  note wf = wf_remember [OF assms(1) step]
  obtain r where r: "current_row db' = (current_row db)(scope_ident sc (w_key w) \<mapsto> r)"
    "it = row_to_item r" "r_content r = w_value w" "r_valid_until r = w_expires_at w"
    using current_after_remember [OF assms(1) step] by blast
  show ?thesis
  proof (cases "already_current db sc w")
    case True
    with step wf r show ?thesis using remember_noop [OF True step] by auto
  next
    case False
    have "r_supersedes_id (next_row db now sc w) =
        map_option r_id (current_row db (scope_ident sc (w_key w)))"
      by (simp add: next_row_def Let_def new_row_def)
    then show ?thesis
      using False step wf remember_version [OF assms(1) False step]
      by (intro exI [of _ it] exI [of _ db'] exI [of _ "next_row db now sc w"])
        (simp add: r_version_next_row)
  qed
qed

definition sample_scope :: memory_scope where
  "sample_scope =
     \<lparr>sc_user_id = ''u1'', sc_session_id = Some ''s1'', sc_agent_id = Some ''a1'',
      sc_tenant_id = None, sc_namespace = ''preferences'', sc_memory_scope = ''user_global''\<rparr>"

definition sample_write :: "string \<Rightarrow> memory_write" where
  "sample_write v =
     \<lparr>w_key = ''lang'', w_value = v, w_memory_type = ''semantic'', w_source_agent_id = None,
      w_source_session_id = None, w_source_trace_id = None, w_source_kind = ''explicit'',
      w_confidence = 1, w_importance = 1 / 2, w_expires_at = None, w_reason = None\<rparr>"

lemma wf_sample_scope: "wf_scope sample_scope"
  by (simp add: wf_scope_def sample_scope_def memory_scopes_def py_strip_def is_space_def)

lemma wf_sample_write: "wf_write (sample_write ''de'')"
  by (simp add: wf_write_def sample_write_def source_kinds_def py_strip_def is_space_def)

lemma sample_write_type: "w_memory_type (sample_write v) \<in> set candidate_memory_types"
  by (simp add: sample_write_def candidate_memory_types_def)

lemma remember_refines_witness:
  "\<exists>it db'. pg_remember empty_db 10 sample_scope (sample_write ''de'') = Inr (it, db') \<and> wf_db db' \<and>
     current_row db' (scope_ident sample_scope ''lang'') \<noteq> None"
proof -
  have key: "w_key (sample_write ''de'') = ''lang''" by (simp add: sample_write_def)
  show ?thesis
    using remember_refines [OF wf_empty_db wf_sample_scope wf_sample_write sample_write_type, of 10]
    by (auto simp: key)
qed

text \<open>\<open>NativePgMemoryProvider.forget\<close> never raises, reports \<open>True\<close> exactly when the (trimmed) key
  named a current item of the scope, removes that identity from the map of current rows and leaves
  every other identity's row as it was.
\<close>

theorem forget_refines:
  assumes "wf_db db"
  shows "\<exists>b db'. pg_forget db now sc key reason trace kind = Inr (b, db') \<and> wf_db db' \<and>
     (b \<longleftrightarrow> py_strip key \<noteq> [] \<and> current_row db (scope_ident sc (py_strip key)) \<noteq> None) \<and>
     current_row db' =
       (if py_strip key = [] then current_row db
        else (current_row db)(scope_ident sc (py_strip key) := None))"
proof -
  obtain b db' where step: "pg_forget db now sc key reason trace kind = Inr (b, db')"
    using pg_forget_total by blast
  show ?thesis using step current_after_forget [OF assms step] by blast
qed

lemma forget_refines_witness:
  "\<exists>b db'. pg_forget empty_db 5 sample_scope '' lang '' None None ''explicit'' = Inr (b, db') \<and>
     wf_db db' \<and> \<not> b"
proof -
  have "current_row empty_db i = None" for i by (simp add: current_row_def empty_db_def)
  then show ?thesis
    using forget_refines [OF wf_empty_db, of 5 sample_scope "'' lang ''" None None "''explicit''"] by auto
qed

section \<open>Expiry\<close>

text \<open>\<open>NativePgMemoryProvider.expire_due\<close> retires only rows that are active, overdue and of the
  asked tenant, at most \<open>max(1, limit)\<close> of them, all of them when they are that few; it returns
  their number, keeps every other row active, and writes one \<open>expired\<close> event per retired row.
\<close>

theorem expire_due_sweep:
  assumes "wf_db db"
  shows "\<exists>due db'. pg_expire_due db now tenant limit = Inr (length due, db') \<and> wf_db db' \<and>
     set due \<subseteq> {r \<in> set (active_rows db). overdue now tenant r} \<and>
     length due = min (nat (max 1 limit)) (length (filter (overdue now tenant) (active_rows db))) \<and>
     (length (filter (overdue now tenant) (active_rows db)) \<le> nat (max 1 limit) \<longrightarrow>
        (\<forall>r \<in> set (active_rows db'). \<not> overdue now tenant r)) \<and>
     active_rows db' = filter (\<lambda>r. r \<notin> set due) (active_rows db) \<and>
     db_events db' = db_events db @ map expired_event due"
proof -
  obtain n db' where step: "pg_expire_due db now tenant limit = Inr (n, db')"
    by (simp add: pg_expire_due_def Let_def)
  note after = after_expire_due [OF assms step]
  show ?thesis
    using step after set_due_rows length_due_rows due_rows_all
    by (intro exI [of _ "due_rows db now tenant limit"] exI [of _ db']) auto
qed

definition sample_db :: memory_db where
  "sample_db =
     (case pg_remember empty_db 10 sample_scope ((sample_write ''de'')\<lparr>w_expires_at := Some 20\<rparr>) of
        Inl e \<Rightarrow> empty_db
      | Inr p \<Rightarrow> snd p)"

lemma reachable_sample_db: "pg_reachable sample_db"
proof (cases "pg_remember empty_db 10 sample_scope ((sample_write ''de'')\<lparr>w_expires_at := Some 20\<rparr>)")
  case (Inl e)
  then show ?thesis by (simp add: sample_db_def pg_reachable.start)
next
  case (Inr p)
  obtain it db' where p: "p = (it, db')" by (cases p)
  with Inr have "pg_step empty_db db'" by (auto intro: pg_step.remember)
  then have "pg_reachable db'" by (rule pg_reachable.step [OF pg_reachable.start])
  with Inr p show ?thesis by (simp add: sample_db_def)
qed

lemma sample_db_items:
  "db_items sample_db = [next_row empty_db 10 sample_scope ((sample_write ''de'')\<lparr>w_expires_at := Some 20\<rparr>)]"
  by (simp add: sample_db_def pg_remember_def current_row_def empty_db_def insert_item_def
      next_row_def next_version_def new_row_def sample_scope_def sample_write_def scope_agent_def
      item_checks_def memory_scopes_def item_memory_types_def candidate_memory_types_def
      source_kinds_def global_preference_def Let_def)

lemma expire_due_sweep_witness:
  "\<exists>db'. pg_expire_due sample_db 30 None 100 = Inr (1, db') \<and> active_rows db' = []"
proof -
  let ?w = "(sample_write ''de'')\<lparr>w_expires_at := Some 20\<rparr>"
  have rows: "active_rows sample_db = [next_row empty_db 10 sample_scope ?w]"
    by (simp add: active_rows_def sample_db_items)
  have over: "overdue 30 None (next_row empty_db 10 sample_scope ?w)"
    by (simp add: overdue_def)
  show ?thesis
    using expire_due_sweep [OF wf_pg_reachable [OF reachable_sample_db], of 30 None 100] over
    by (auto simp: rows split: if_splits)
qed

section \<open>Reachable tables\<close>

text \<open>
  C24: Whatever sequence of \<open>remember\<close>, \<open>forget\<close> and \<open>expire_due\<close> calls ran on an empty database,
  an identity (tenant, user, scope, namespace, agent, key) has at most one active row, row ids are
  unique, every row satisfies the table's \<open>CHECK\<close> constraints, and a row that superseded another
  points to a retired row of the same identity with the preceding version.
\<close>

theorem reachable_versions:
  assumes "pg_reachable db"
  shows "distinct (map row_ident (active_rows db)) \<and> distinct (map r_id (db_items db)) \<and>
     (\<forall>r \<in> set (db_items db). item_checks r \<and>
        (\<forall>i. r_supersedes_id r = Some i \<longrightarrow>
           (\<exists>q \<in> set (db_items db). r_id q = i \<and> \<not> is_active q \<and> row_ident q = row_ident r \<and>
              r_version r = r_version q + 1)))"
  using wf_pg_reachable [OF assms]
  by (auto simp: wf_db_def wf_items_def active_rows_def chained_def)

lemma reachable_versions_witness: "distinct (map row_ident (active_rows sample_db))"
  using reachable_versions [OF reachable_sample_db] by simp

text \<open>The audit trail is complete in every reachable database: each item row has the event of its
  creation (\<open>created\<close>, or \<open>updated\<close> when it replaced a version), and each superseded, forgotten or
  expired row has the event that retired it.
\<close>

theorem reachable_audited:
  assumes "pg_reachable db" and "r \<in> set (db_items db)"
  shows "has_event db (r_id r) (birth_event r) \<and>
     (case r_status r of
        Active \<Rightarrow> True
      | Superseded \<Rightarrow> has_event db (r_id r) ''superseded''
      | Deleted \<Rightarrow> has_event db (r_id r) ''forgotten''
      | Expired \<Rightarrow> has_event db (r_id r) ''expired'')"
  using audited_pg_reachable [OF assms(1)] assms(2)
  by (auto simp: all_audited_def audited_def split: item_status.splits)

lemma reachable_audited_witness: "has_event sample_db 1 ''created''"
proof -
  let ?r = "next_row empty_db 10 sample_scope ((sample_write ''de'')\<lparr>w_expires_at := Some 20\<rparr>)"
  have "birth_event ?r = ''created''"
    by (simp add: birth_event_def next_row_def Let_def new_row_def current_row_def empty_db_def)
  moreover have "r_id ?r = 1" by simp (simp add: empty_db_def)
  ultimately show ?thesis
    using reachable_audited [OF reachable_sample_db, of ?r] by (simp add: sample_db_items)
qed

section \<open>Recall\<close>

lemma visible_rowD:
  assumes "visible_row sc now r"
  shows "r_tenant_id r = scope_tenant sc" "r_subject_user_id r = sc_user_id sc" "is_active r"
    "not_expired now (r_valid_until r)"
    "r_scope r = ''user_agent'' \<Longrightarrow> r_agent_id r = sc_agent_id sc"
  using assms unfolding visible_row_def by simp_all

lemma take_sort_key_least:
  assumes "x \<in> set (take n (sort_key f xs))" "y \<in> set xs" "y \<notin> set (take n (sort_key f xs))"
  shows "f x \<le> f y"
proof -
  let ?s = "sort_key f xs"
  have "y \<in> set ?s" using assms(2) by simp
  then have "y \<in> set (drop n ?s)"
    using assms(3) by (metis Un_iff append_take_drop_id set_append)
  moreover have "sorted (map f (take n ?s) @ map f (drop n ?s))"
    by (metis append_take_drop_id map_append sorted_sort_key)
  ultimately show ?thesis using assms(1) by (auto simp: sorted_append)
qed

text \<open>\<open>NativePgMemoryProvider.recall\<close> returns items of the caller's tenant and user only, active
  and unexpired, a private one only to the agent that owns it; at most \<open>max(limit, 1)\<close> of them, in
  order of importance (then recency, then id), and no row it leaves out precedes one it returns.
\<close>

theorem recall_isolated:
  "\<exists>rows. pg_recall db now sc query limit = Inr (map row_to_item rows) \<and>
     length rows \<le> nat (max limit 1) \<and> sorted (map recall_order rows) \<and>
     (\<forall>r \<in> set rows. r \<in> set (db_items db) \<and> r_tenant_id r = scope_tenant sc \<and>
        r_subject_user_id r = sc_user_id sc \<and> is_active r \<and> not_expired now (r_valid_until r) \<and>
        (r_scope r = ''user_agent'' \<longrightarrow> r_agent_id r = sc_agent_id sc)) \<and>
     (\<forall>q \<in> set (db_items db). visible_row sc now q \<and> q \<notin> set rows \<longrightarrow>
        (\<forall>r \<in> set rows. recall_order r \<le> recall_order q))"
proof -
  let ?vis = "filter (visible_row sc now) (db_items db)"
  let ?rows = "take (nat (max limit 1)) (sort_key recall_order ?vis)"
  have "set ?rows \<subseteq> set ?vis" by (metis set_sort set_take_subset)
  then have vis: "r \<in> set (db_items db)" "visible_row sc now r" if "r \<in> set ?rows" for r
    using that by auto
  have ord: "sorted (map recall_order ?rows)" by (simp add: take_map [symmetric] sorted_wrt_take)
  have least: "recall_order r \<le> recall_order q"
    if "q \<in> set (db_items db)" "visible_row sc now q" "q \<notin> set ?rows" "r \<in> set ?rows" for q r
    using that by (intro take_sort_key_least [of r _ recall_order ?vis q]) simp_all
  have "pg_recall db now sc query limit = Inr (map row_to_item ?rows)"
    by (simp add: pg_recall_def)
  moreover have "length ?rows \<le> nat (max limit 1)" by simp
  ultimately show ?thesis
    using ord vis least visible_rowD by (intro exI [of _ ?rows]) blast
qed

lemma recall_isolated_witness:
  "\<exists>rows. pg_recall sample_db 15 sample_scope ''q'' 5 = Inr (map row_to_item rows) \<and>
     length rows \<le> 5 \<and> (\<forall>r \<in> set rows. r_subject_user_id r = ''u1'')"
  using recall_isolated [of sample_db 15 sample_scope "''q''" 5]
  by (auto simp: sample_scope_def)

section \<open>An agent recalls what it wrote\<close>

definition write_scope :: "governance \<Rightarrow> memory_scope \<Rightarrow> memory_scope" where
  "write_scope g sc = sc\<lparr>sc_memory_scope := write_scope_for g (sc_namespace sc)\<rparr>"

lemma row_metadata_agent:
  "r_agent_id r = Some a \<Longrightarrow> dget (row_metadata r) ''agent_id'' = PStr a"
  by (simp add: row_metadata_def)

text \<open>What an agent writes under the scope its governance chooses (\<open>write_scope_for\<close>), the same
  agent is shown again: when the write stored a new version, the item passes \<open>can_recall\<close> under
  the same governance, whatever the namespace's mode and the agent's visibility, and the row is
  among those \<open>recall\<close> selects for the agent's scope.
\<close>

theorem written_is_recalled:
  assumes "wf_db db" "pg_remember db now (write_scope g sc) w = Inr (it, db')"
    and "\<not> already_current db (write_scope g sc) w"
    and "gv_agent_id g = Some a" "a \<noteq> []" "sc_agent_id sc = Some a"
    and "opt_or (w_source_agent_id w) a = a" "sc_namespace sc \<noteq> []"
    and "not_expired now (w_expires_at w)"
  shows "can_recall it g \<and>
     (\<exists>r \<in> set (db_items db'). it = row_to_item r \<and> visible_row sc now r)"
proof -
  let ?sc = "write_scope g sc"
  let ?r = "next_row db now ?sc w"
  have it: "it = row_to_item ?r"
    and cur: "current_row db' (scope_ident ?sc (w_key w)) = Some ?r"
    using remember_version [OF assms(1,3,2)] by simp_all
  have mem: "?r \<in> set (db_items db')"
    using cur current_row_Some [OF wf_remember [OF assms(1,2)]] by (auto simp: active_rows_def)
  have src: "r_source_agent_id ?r = Some a"
    using assms(5-7)
    by (cases "w_source_agent_id w")
      (auto simp: next_row_def Let_def new_row_def write_scope_def opt_or_opt_def split: if_splits)
  have scope: "r_scope ?r = write_scope_for g (sc_namespace sc)" "r_namespace ?r = sc_namespace sc"
    "r_agent_id ?r = scope_agent ?sc" "r_tenant_id ?r = scope_tenant sc"
    "r_subject_user_id ?r = sc_user_id sc"
    by (simp_all add: next_row_def Let_def new_row_def write_scope_def scope_tenant_def)
  have item: "it_scope it = write_scope_for g (sc_namespace sc)" "it_namespace it = sc_namespace sc"
    "it_source_agent_id it = Some a"
    using assms(5,8) src scope
    by (simp_all add: it row_to_item_def or_default_def write_scope_for_def Let_def)
  have ag: "item_agent_id it = a" if "write_scope_for g (sc_namespace sc) = ''user_agent''"
  proof -
    have "r_agent_id ?r = Some a"
      using that scope(3) assms(6) by (simp add: scope_agent_def write_scope_def)
    then show ?thesis
      using assms(5) by (simp add: it item_agent_id_def row_to_item_def row_metadata_agent py_or_def)
  qed
  have "can_recall it g"
    using item ag assms(4,5)
    by (auto simp: can_recall_def public_gate_def write_scope_for_def Let_def)
  moreover have "visible_row sc now ?r"
    using scope assms(6,9)
    by (auto simp: visible_row_def write_scope_for_def Let_def scope_agent_def write_scope_def)
  ultimately show ?thesis using mem it by blast
qed

lemma written_is_recalled_witness:
  "\<exists>it db'. pg_remember empty_db 10 (write_scope sample_governance sample_scope) (sample_write ''de'') =
       Inr (it, db') \<and> can_recall it sample_governance"
proof -
  let ?sc = "write_scope sample_governance sample_scope"
  have "wf_scope ?sc"
    by (simp add: wf_scope_def write_scope_def write_scope_for_def sample_scope_def Let_def
        memory_scopes_def py_strip_def is_space_def)
  then obtain it db' where step: "pg_remember empty_db 10 ?sc (sample_write ''de'') = Inr (it, db')"
    using remember_ok [OF wf_empty_db _ wf_sample_write sample_write_type] by blast
  have "\<not> already_current empty_db ?sc (sample_write ''de'')"
    by (simp add: already_current_def current_row_def empty_db_def)
  then have "can_recall it sample_governance"
    using written_is_recalled [OF wf_empty_db step, of "''a1''"]
    by (simp add: sample_governance_def sample_scope_def sample_write_def)
  with step show ?thesis by blast
qed

text \<open>
  The condition on \<open>already_current\<close> is needed: a write that repeats the content another agent
  stored keeps that agent as the source, so the writer is not shown the item when the user has
  turned sharing of the namespace off, although the write was reported as saved.
\<close>

lemma repeated_write_hidden:
  assumes "wf_db db" "already_current db sc w" "pg_remember db now sc w = Inr (it, db')"
    and "current_row db (scope_ident sc (w_key w)) = Some c"
    and "sc_memory_scope sc = ''user_global''" "r_source_agent_id c \<noteq> gv_agent_id g"
    and "share_enabled g (it_namespace it) = Some False"
    and "np_mode (policy_for g (it_namespace it)) = USER_CONTROLLED"
  shows "\<not> can_recall it g"
proof -
  have it: "it = row_to_item c" using assms(2-4) by (simp add: pg_remember_same)
  have "r_scope c = ''user_global''"
    using assms(4,5) current_row_Some [OF assms(1)] by (simp add: row_ident_def scope_ident_def)
  then have "it_scope it = ''user_global''" by (simp add: it row_to_item_def or_default_def)
  moreover have "\<not> (opt_truthy (it_source_agent_id it) \<and> it_source_agent_id it = gv_agent_id g)"
    using assms(6) by (simp add: it row_to_item_def)
  ultimately show ?thesis
    using assms(7,8) by (simp add: can_recall_def) blast
qed

end
