(* ===== verification/Memory_Lifecycle.thy ===== *)
theory Memory_Lifecycle
  imports Memory_Service Native_Pg_Spec
begin

text \<open>
  Candidates and their resolution (\<open>memory/lifecycle.py\<close>): the candidate queue (tables
  \<open>memory_candidates\<close>, \<open>memory_extraction_messages\<close> and the candidate events) and
  \<open>resolve_memory_candidate\<close>, which decides whether an extracted candidate may change the memory.
  The decision procedure runs over the memory facade with any provider.
\<close>

section \<open>The candidate queue\<close>

record candidate_row =
  k_id :: int
  k_tenant_id :: string
  k_subject_user_id :: string
  k_namespace :: string
  k_proposed_scope :: string
  k_agent_id :: "string option"
  k_operation :: string
  k_memory_type :: string
  k_memory_key :: string
  k_content :: "string option"
  k_evidence_type :: string
  k_update_intent :: bool
  k_source_agent_id :: "string option"
  k_source_session_id :: "string option"
  k_source_trace_id :: "string option"
  k_confidence :: rat
  k_importance :: rat
  k_ttl_days :: "int option"
  k_rationale :: "string option"
  k_status :: string
  k_decision_reason :: "string option"
  k_applied_memory_id :: "int option"
  k_decided_at :: "int option"

record extraction_row =
  x_trace_id :: string
  x_user_id :: string
  x_session_id :: "string option"
  x_agent_id :: "string option"
  x_status :: string
  x_candidate_count :: nat
  x_attempt_count :: nat
  x_model :: string
  x_error :: "string option"
  x_processed_at :: int

record candidate_store =
  cs_rows :: "candidate_row list"
  cs_next_id :: int
  cs_events :: "event_row list"
  cs_extractions :: "extraction_row list"

definition empty_store :: candidate_store where
  "empty_store = \<lparr>cs_rows = [], cs_next_id = 1, cs_events = [], cs_extractions = []\<rparr>"

text \<open>The columns of the unique index.\<close>

definition row_source :: "candidate_row \<Rightarrow> ident" where
  "row_source k =
     (k_tenant_id k, k_subject_user_id k, opt_or (k_source_trace_id k) [], k_namespace k,
      k_memory_key k, k_operation k)"

definition candidate_source :: "memory_scope \<Rightarrow> memory_candidate \<Rightarrow> ident" where
  "candidate_source sc c =
     (scope_tenant sc, sc_user_id sc, opt_or (c_source_trace_id c) [], c_namespace c, c_key c,
      c_operation c)"

definition record_candidate_event ::
  "memory_scope \<Rightarrow> memory_candidate \<Rightarrow> string \<Rightarrow> string \<Rightarrow> int \<Rightarrow> pydict \<Rightarrow> int option \<Rightarrow>
   candidate_store \<Rightarrow> candidate_store" where
  "record_candidate_event sc c event_type reason cid detail mid st =
     st\<lparr>cs_events := cs_events st @
          [\<lparr>e_tenant_id = scope_tenant sc, e_subject_user_id = sc_user_id sc,
            e_namespace = c_namespace c, e_memory_key = c_key c, e_memory_id = mid,
            e_candidate_id = Some cid, e_event_type = event_type, e_source_kind = ''automatic'',
            e_source_agent_id = opt_or_opt (c_source_agent_id c) (sc_agent_id sc),
            e_source_session_id = opt_or_opt (c_source_session_id c) (sc_session_id sc),
            e_source_trace_id = c_source_trace_id c, e_reason = Some reason, e_detail = detail\<rparr>]\<rparr>"

definition candidate_to_row ::
  "int \<Rightarrow> memory_scope \<Rightarrow> memory_candidate \<Rightarrow> string \<Rightarrow> candidate_row" where
  "candidate_to_row n sc c proposed_scope =
     \<lparr>k_id = n, k_tenant_id = scope_tenant sc, k_subject_user_id = sc_user_id sc,
      k_namespace = c_namespace c, k_proposed_scope = proposed_scope,
      k_agent_id = (if proposed_scope = ''user_agent'' then sc_agent_id sc else None),
      k_operation = c_operation c, k_memory_type = c_memory_type c, k_memory_key = c_key c,
      k_content = c_value c, k_evidence_type = c_evidence_type c,
      k_update_intent = c_update_intent c,
      k_source_agent_id = opt_or_opt (c_source_agent_id c) (sc_agent_id sc),
      k_source_session_id = opt_or_opt (c_source_session_id c) (sc_session_id sc),
      k_source_trace_id = c_source_trace_id c, k_confidence = c_confidence c,
      k_importance = c_importance c, k_ttl_days = c_ttl_days c, k_rationale = c_rationale c,
      k_status = ''pending'', k_decision_reason = None, k_applied_memory_id = None,
      k_decided_at = None\<rparr>"

text \<open>
  \<open>INSERT ... ON CONFLICT DO NOTHING RETURNING id\<close>; without a returned row the existing id is
  looked up. The sequence advances either way. The proposal event is written every time.
\<close>

definition enqueue ::
  "memory_scope \<Rightarrow> memory_candidate \<Rightarrow> string \<Rightarrow> candidate_store \<Rightarrow>
   (memory_candidate \<times> candidate_store) outcome" where
  "enqueue sc c proposed_scope st =
     (let existing = find (\<lambda>k. row_source k = candidate_source sc c) (cs_rows st);
          st1 = (case existing of
                   None \<Rightarrow> st\<lparr>cs_rows := cs_rows st @
                                [candidate_to_row (cs_next_id st) sc c proposed_scope],
                              cs_next_id := cs_next_id st + 1\<rparr>
                 | Some k \<Rightarrow> st\<lparr>cs_next_id := cs_next_id st + 1\<rparr>);
          cid = (case existing of None \<Rightarrow> cs_next_id st | Some k \<Rightarrow> k_id k);
          queued = c\<lparr>c_candidate_id := Some (int_text cid)\<rparr>
      in Inr (queued,
              record_candidate_event sc queued ''candidate_proposed'' ''automatic_extraction'' cid
                [(''proposed_scope'', PStr proposed_scope)] None st1))"

definition mark_decision ::
  "int \<Rightarrow> memory_scope \<Rightarrow> memory_candidate \<Rightarrow> memory_decision \<Rightarrow> candidate_store \<Rightarrow> candidate_store" where
  "mark_decision now sc c d st =
     (case c_candidate_id c of
        None \<Rightarrow> st
      | Some text \<Rightarrow>
          if text = [] then st
          else case parse_int text of
                 None \<Rightarrow> st
               | Some cid \<Rightarrow>
                   let mid = (case d_item d of None \<Rightarrow> None | Some it \<Rightarrow> parse_int (it_id it));
                       st1 = st\<lparr>cs_rows := map (\<lambda>k. if k_id k = cid
                               then k\<lparr>k_status := d_status d, k_decision_reason := Some (d_reason d),
                                      k_applied_memory_id := mid, k_decided_at := Some now\<rparr>
                               else k) (cs_rows st)\<rparr>
                   in record_candidate_event sc c (''candidate_'' @ d_status d) (d_reason d) cid [] mid st1)"

definition record_extraction ::
  "int \<Rightarrow> string \<Rightarrow> string \<Rightarrow> string option \<Rightarrow> string option \<Rightarrow> string \<Rightarrow> nat \<Rightarrow> string \<Rightarrow>
   string option \<Rightarrow> candidate_store \<Rightarrow> candidate_store" where
  "record_extraction now trace user session agent status n model err st =
     st\<lparr>cs_extractions :=
          (if \<exists>x \<in> set (cs_extractions st). x_trace_id x = trace
           then map (\<lambda>x. if x_trace_id x = trace
                  then x\<lparr>x_status := status, x_candidate_count := n,
                         x_attempt_count := x_attempt_count x + 1, x_model := model,
                         x_error := err, x_processed_at := now\<rparr>
                  else x) (cs_extractions st)
           else cs_extractions st @
             [\<lparr>x_trace_id = trace, x_user_id = user, x_session_id = session, x_agent_id = agent,
               x_status = status, x_candidate_count = n, x_attempt_count = 1, x_model = model,
               x_error = err, x_processed_at = now\<rparr>])\<rparr>"

definition extraction_completed ::
  "int \<Rightarrow> string \<Rightarrow> string \<Rightarrow> string option \<Rightarrow> string option \<Rightarrow> nat \<Rightarrow> string \<Rightarrow> candidate_store \<Rightarrow>
   candidate_store" where
  "extraction_completed now trace user session agent n model st =
     record_extraction now trace user session agent ''completed'' n model None st"

definition extraction_failed ::
  "int \<Rightarrow> string \<Rightarrow> string \<Rightarrow> string option \<Rightarrow> string option \<Rightarrow> string \<Rightarrow> string \<Rightarrow>
   candidate_store \<Rightarrow> candidate_store" where
  "extraction_failed now trace user session agent model err st =
     record_extraction now trace user session agent ''failed'' 0 model (Some (py_take 2000 err)) st"

definition extraction_is_completed :: "string \<Rightarrow> candidate_store \<Rightarrow> bool" where
  "extraction_is_completed trace st \<longleftrightarrow>
     (case find (\<lambda>x. x_trace_id x = trace) (cs_extractions st) of
        None \<Rightarrow> False
      | Some x \<Rightarrow> x_status x = ''completed'')"

section \<open>Sensitive candidates\<close>

text \<open>The non-ASCII terms by code points, in the order of the source.\<close>

definition SENSITIVE_MEMORY_TERMS :: "string list" where
  "SENSITIVE_MEMORY_TERMS =
     [''password'', ''passwd'', ''api_key'', ''apikey'', ''token'', ''secret'', ''private_key'',
      ''otp'', ''cvv'',
      cps [0x5BC6, 0x7801], cps [0x53E3, 0x4EE4], cps [0x9A8C, 0x8BC1, 0x7801],
      cps [0x79C1, 0x94A5], cps [0x8EAB, 0x4EFD, 0x8BC1], cps [0x94F6, 0x884C, 0x5361],
      cps [0x4FE1, 0x7528, 0x5361], cps [0x75C5, 0x53F2], cps [0x75BE, 0x75C5],
      cps [0x5B97, 0x6559], cps [0x653F, 0x6CBB], cps [0x6027, 0x53D6, 0x5411],
      cps [0x79CD, 0x65CF], cps [0x5DE5, 0x4F1A], cps [0x72AF, 0x7F6A, 0x8BB0, 0x5F55]]"

definition contains_sensitive_memory :: "memory_candidate \<Rightarrow> bool" where
  "contains_sensitive_memory c =
     (let haystack = py_join '' ''
            (map py_lower [c_namespace c, c_key c, opt_or (c_value c) [], opt_or (c_rationale c) []])
      in list_ex (\<lambda>term. contains term haystack) SENSITIVE_MEMORY_TERMS)"

section \<open>Resolution\<close>

text \<open>\<open>MemoryCandidateDecision\<close> with one of its literal statuses, which its check accepts.\<close>

definition decide :: "string \<Rightarrow> string \<Rightarrow> memory_candidate \<Rightarrow> memory_item option \<Rightarrow> memory_decision" where
  "decide status reason c item =
     \<lparr>d_status = status, d_reason = reason, d_candidate_id = c_candidate_id c, d_item = item\<rparr>"

lemma decide_constructed:
  "status \<in> set decision_statuses \<Longrightarrow>
     MemoryCandidateDecision status reason (c_candidate_id c) item = Inr (decide status reason c item)"
  by (simp add: MemoryCandidateDecision_def decide_def)

lemma decide_simps [simp]:
  "d_status (decide s r c i) = s" "d_reason (decide s r c i) = r" "d_item (decide s r c i) = i"
  by (simp_all add: decide_def)

definition days :: "int \<Rightarrow> int" where
  "days n = n * 86400000000"

definition candidate_write :: "int \<Rightarrow> memory_scope \<Rightarrow> memory_candidate \<Rightarrow> memory_write" where
  "candidate_write now sc c =
     \<lparr>w_key = c_key c, w_value = opt_or (c_value c) [], w_memory_type = c_memory_type c,
      w_source_agent_id = opt_or_opt (c_source_agent_id c) (sc_agent_id sc),
      w_source_session_id = opt_or_opt (c_source_session_id c) (sc_session_id sc),
      w_source_trace_id = c_source_trace_id c, w_source_kind = ''automatic'',
      w_confidence = c_confidence c, w_importance = c_importance c,
      w_expires_at = map_option (\<lambda>d. now + days d) (c_ttl_days c),
      w_reason = Some ''automatic_candidate_applied''\<rparr>"

text \<open>The checks against the current item, in the order of the source.\<close>

definition upsert_conflict ::
  "memory_item \<Rightarrow> memory_candidate \<Rightarrow> rat \<Rightarrow> memory_decision option" where
  "upsert_conflict cur c threshold =
     (if Some (it_content cur) = c_value c
        then Some (decide ''skipped'' ''duplicate_current_value'' c (Some cur))
      else if it_source_kind cur = ''tenant''
        then Some (decide ''rejected'' ''cannot_override_tenant_memory'' c (Some cur))
      else if it_source_kind cur = ''explicit'' \<and> \<not> c_update_intent c
        then Some (decide ''needs_review'' ''conflict_with_explicit_memory'' c (Some cur))
      else if it_source_kind cur = ''explicit'' \<and> c_confidence c < max threshold (95 / 100)
        then Some (decide ''needs_review''
               ''explicit_memory_update_requires_high_confidence'' c (Some cur))
      else if it_source_kind cur = ''automatic'' \<and>
              c_confidence c + 5 / 100 < float_metadata cur ''confidence'' 1 \<and>
              \<not> c_update_intent c
        then Some (decide ''needs_review'' ''lower_confidence_than_current_memory'' c (Some cur))
      else None)"

definition apply_upsert ::
  "'s memory_service \<Rightarrow> 's \<Rightarrow> int \<Rightarrow> memory_scope \<Rightarrow> memory_candidate \<Rightarrow>
   (memory_decision \<times> 's) outcome" where
  "apply_upsert m s now sc c =
     (case MemoryWrite (candidate_write now sc c) of
        Inl e \<Rightarrow> Inl e
      | Inr w \<Rightarrow>
          (case svc_remember m s now sc w of
             (result, s') \<Rightarrow>
               if \<not> wr_saved result \<or> wr_item result = None
               then Inr (decide ''needs_review''
                           (opt_or (wr_reason result) ''provider_write_failed'') c None, s')
               else Inr (decide ''applied'' ''automatic_candidate_applied'' c (wr_item result), s')))"

definition resolve_upsert ::
  "'s memory_service \<Rightarrow> 's \<Rightarrow> int \<Rightarrow> memory_scope \<Rightarrow> memory_candidate \<Rightarrow> rat \<Rightarrow>
   (memory_decision \<times> 's) outcome" where
  "resolve_upsert m s now sc c threshold =
     (if c_confidence c < threshold
      then Inr (decide ''needs_review'' ''below_auto_apply_threshold'' c None, s)
      else
        case (case svc_get_current m s now sc (c_key c) of
                None \<Rightarrow> None
              | Some cur \<Rightarrow> upsert_conflict cur c threshold) of
          Some d \<Rightarrow> Inr (d, s)
        | None \<Rightarrow> apply_upsert m s now sc c)"

definition resolve_forget ::
  "'s memory_service \<Rightarrow> 's \<Rightarrow> int \<Rightarrow> memory_scope \<Rightarrow> memory_candidate \<Rightarrow> rat \<Rightarrow>
   memory_decision \<times> 's" where
  "resolve_forget m s now sc c threshold =
     (if c_evidence_type c \<noteq> ''explicit_instruction''
      then (decide ''rejected'' ''forget_requires_explicit_instruction'' c None, s)
      else if c_confidence c < threshold
      then (decide ''needs_review'' ''forget_below_threshold'' c None, s)
      else case svc_get_current m s now sc (c_key c) of
             None \<Rightarrow> (decide ''skipped'' ''memory_already_absent'' c None, s)
           | Some cur \<Rightarrow>
               if it_source_kind cur = ''tenant''
               then (decide ''rejected'' ''cannot_forget_tenant_memory'' c (Some cur), s)
               else case svc_forget m s now sc (c_key c) (Some ''automatic_explicit_forget'')
                           (c_source_trace_id c) ''automatic'' of
                      (changed, s') \<Rightarrow>
                        (decide (if changed then ''applied'' else ''needs_review'')
                           (if changed then ''automatic_explicit_forget'' else ''provider_forget_failed'')
                           c None, s'))"

definition effective_scope :: "memory_scope \<Rightarrow> governance \<Rightarrow> memory_candidate \<Rightarrow> memory_scope" where
  "effective_scope sc g c =
     \<lparr>sc_user_id = sc_user_id sc, sc_session_id = sc_session_id sc,
      sc_agent_id = opt_or_opt (gv_agent_id g) (sc_agent_id sc),
      sc_tenant_id = Some (gv_tenant_id g), sc_namespace = c_namespace c,
      sc_memory_scope = write_scope_for g (c_namespace c)\<rparr>"

definition store_decision ::
  "int \<Rightarrow> memory_scope \<Rightarrow> memory_candidate \<Rightarrow> memory_decision \<Rightarrow> candidate_store option \<Rightarrow>
   candidate_store option" where
  "store_decision now sc c d st = map_option (mark_decision now sc c d) st"

definition resolve_memory_candidate ::
  "'s memory_service \<Rightarrow> 's \<Rightarrow> int \<Rightarrow> memory_scope \<Rightarrow> governance \<Rightarrow> memory_candidate \<Rightarrow> rat \<Rightarrow> rat \<Rightarrow>
   candidate_store option \<Rightarrow> (memory_decision \<times> 's \<times> candidate_store option) outcome" where
  "resolve_memory_candidate m s now sc g c auto_apply_threshold forget_threshold st =
     (let policy = policy_for g (c_namespace c);
          proposed_scope = write_scope_for g (c_namespace c)
      in if proposed_scope = ''user_agent'' \<and> \<not> opt_truthy (gv_agent_id g)
         then let d = decide ''rejected'' ''agent_private_memory_requires_agent_id'' c None
              in Inr (d, s, store_decision now sc c d st)
         else case MemoryScope (effective_scope sc g c) of
                Inl e \<Rightarrow> Inl e
              | Inr eff \<Rightarrow>
                  let decision =
                    (if np_mode policy = TENANT_REQUIRED
                       then Inr (decide ''rejected'' ''tenant_managed_namespace'' c None, s)
                     else if c_evidence_type c = ''inferred''
                       then Inr (decide ''rejected'' ''inferred_memory_not_auto_applied'' c None, s)
                     else if contains_sensitive_memory c
                       then Inr (decide ''rejected'' ''sensitive_memory_blocked'' c None, s)
                     else if c_operation c = ''forget''
                       then Inr (resolve_forget m s now eff c forget_threshold)
                     else resolve_upsert m s now eff c auto_apply_threshold)
                  in case decision of
                       Inl e \<Rightarrow> Inl e
                     | Inr (d, s') \<Rightarrow> Inr (d, s', store_decision now eff c d st))"

section \<open>What resolution may change\<close>

lemma write_scope_for_in: "write_scope_for g ns \<in> set memory_scopes"
  by (simp add: write_scope_for_def memory_scopes_def Let_def)

lemma opt_truthy_or_opt: "opt_truthy x \<Longrightarrow> opt_or_opt x y = x"
  by (simp add: opt_or_opt_def)

lemma wf_effective_scope:
  assumes "wf_scope sc" "write_scope_for g (c_namespace c) = ''user_agent'' \<longrightarrow> opt_truthy (gv_agent_id g)"
  shows "wf_scope (effective_scope sc g c)"
  using assms write_scope_for_in [of g "c_namespace c"]
  by (simp add: wf_scope_def effective_scope_def opt_truthy_or_opt)

text \<open>
  The item under a key, as the provider's own lookup answers it. Nothing is looked up when the memory
  is off or when the lookup raises: the service then logs the failure and answers \<open>None\<close>.
\<close>

definition looked_up ::
  "'s memory_service \<Rightarrow> 's \<Rightarrow> int \<Rightarrow> memory_scope \<Rightarrow> string \<Rightarrow> memory_item \<Rightarrow> bool" where
  "looked_up m s now sc key cur \<longleftrightarrow>
     (\<exists>p. ms_provider m = Some p \<and> po_get_current p s now sc key = Inr (Some cur))"

lemma svc_get_current_Some: "svc_get_current m s now sc key = Some cur \<longleftrightarrow> looked_up m s now sc key cur"
  by (auto simp: svc_get_current_def looked_up_def split: option.splits sum.splits)

text \<open>The conditions under which a candidate may be applied at all.\<close>

definition upsert_allowed ::
  "'s memory_service \<Rightarrow> 's \<Rightarrow> int \<Rightarrow> memory_scope \<Rightarrow> memory_candidate \<Rightarrow> rat \<Rightarrow> bool" where
  "upsert_allowed m s now sc c threshold \<longleftrightarrow>
     threshold \<le> c_confidence c \<and>
     (\<forall>cur. looked_up m s now sc (c_key c) cur \<longrightarrow>
        Some (it_content cur) \<noteq> c_value c \<and> it_source_kind cur \<noteq> ''tenant'' \<and>
        (it_source_kind cur = ''explicit'' \<longrightarrow>
           c_update_intent c \<and> max threshold (95 / 100) \<le> c_confidence c))"

definition forget_allowed ::
  "'s memory_service \<Rightarrow> 's \<Rightarrow> int \<Rightarrow> memory_scope \<Rightarrow> memory_candidate \<Rightarrow> rat \<Rightarrow> bool" where
  "forget_allowed m s now sc c threshold \<longleftrightarrow>
     c_evidence_type c = ''explicit_instruction'' \<and> threshold \<le> c_confidence c \<and>
     (\<exists>cur. looked_up m s now sc (c_key c) cur \<and> it_source_kind cur \<noteq> ''tenant'')"

lemma upsert_conflict_None:
  "upsert_conflict cur c threshold = None \<Longrightarrow>
     Some (it_content cur) \<noteq> c_value c \<and> it_source_kind cur \<noteq> ''tenant'' \<and>
     (it_source_kind cur = ''explicit'' \<longrightarrow>
        c_update_intent c \<and> max threshold (95 / 100) \<le> c_confidence c)"
  by (auto simp: upsert_conflict_def split: if_splits)

lemma upsert_conflict_Some: "upsert_conflict cur c threshold = Some d \<Longrightarrow> d_status d \<noteq> ''applied''"
  by (auto simp: upsert_conflict_def split: if_splits)

lemma apply_upsert_cases:
  assumes "apply_upsert m s now sc c = Inr (d, s')"
  obtains w r where "MemoryWrite (candidate_write now sc c) = Inr w"
    "svc_remember m s now sc w = (r, s')"
    "d_status d = (if wr_saved r \<and> wr_item r \<noteq> None then ''applied'' else ''needs_review'')"
    "d_status d = ''applied'' \<longrightarrow> d_item d = wr_item r"
  using assms by (auto simp: apply_upsert_def split: sum.splits prod.splits if_splits)

text \<open>An upsert is refused without touching the provider, or is allowed and is one \<open>remember\<close>.\<close>

lemma resolve_upsert_cases:
  assumes "resolve_upsert m s now sc c threshold = Inr (d, s')"
  obtains (refused) "s' = s" "d_status d \<noteq> ''applied''"
    | (tried) "upsert_allowed m s now sc c threshold" "apply_upsert m s now sc c = Inr (d, s')"
proof (cases "c_confidence c < threshold")
  case True
  then have "s' = s" "d_status d \<noteq> ''applied''"
    using assms by (auto simp: resolve_upsert_def)
  then show ?thesis by (rule refused)
next
  case False
  show ?thesis
  proof (cases "case svc_get_current m s now sc (c_key c) of
      None \<Rightarrow> None | Some cur \<Rightarrow> upsert_conflict cur c threshold")
    case None
    then have "upsert_allowed m s now sc c threshold"
      using False upsert_conflict_None
      by (fastforce simp: upsert_allowed_def svc_get_current_Some [symmetric] split: option.splits)
    then show ?thesis using assms False None by (intro tried) (simp_all add: resolve_upsert_def)
  next
    case (Some d')
    then have "d' = d" "s' = s" using assms False by (simp_all add: resolve_upsert_def)
    moreover have "d_status d' \<noteq> ''applied''"
      using Some upsert_conflict_Some by (auto split: option.splits)
    ultimately show ?thesis by (intro refused) simp_all
  qed
qed

lemma resolve_forget_cases:
  assumes "resolve_forget m s now sc c threshold = (d, s')"
  obtains (refused) "s' = s" "d_status d \<noteq> ''applied''"
    | (tried) changed where "forget_allowed m s now sc c threshold"
        "svc_forget m s now sc (c_key c) (Some ''automatic_explicit_forget'')
           (c_source_trace_id c) ''automatic'' = (changed, s')"
        "d_status d = (if changed then ''applied'' else ''needs_review'')"
proof (cases "forget_allowed m s now sc c threshold")
  case True
  then obtain cur where cur: "svc_get_current m s now sc (c_key c) = Some cur"
    "it_source_kind cur \<noteq> ''tenant''"
    by (auto simp: forget_allowed_def svc_get_current_Some)
  obtain b t where bt: "svc_forget m s now sc (c_key c) (Some ''automatic_explicit_forget'')
      (c_source_trace_id c) ''automatic'' = (b, t)"
    by (cases "svc_forget m s now sc (c_key c) (Some ''automatic_explicit_forget'')
      (c_source_trace_id c) ''automatic''")
  show ?thesis
    using True assms bt cur
    by (intro tried [of b]) (auto simp: resolve_forget_def forget_allowed_def)
next
  case False
  then have "s' = s \<and> d_status d \<noteq> ''applied''"
    using assms
    by (cases "svc_get_current m s now sc (c_key c)")
      (auto simp: resolve_forget_def forget_allowed_def svc_get_current_Some [symmetric] not_le split: if_splits)
  then show ?thesis by (intro refused) simp_all
qed

text \<open>The whole procedure: the general refusals come first.\<close>

lemma resolve_cases:
  assumes "resolve_memory_candidate m s now sc g c thr fthr st = Inr (d, s', st')" "wf_scope sc"
  obtains (refused) "s' = s" "d_status d \<noteq> ''applied''"
    | (forget) "c_operation c = ''forget''"
        "resolve_forget m s now (effective_scope sc g c) c fthr = (d, s')"
        "np_mode (policy_for g (c_namespace c)) \<noteq> TENANT_REQUIRED"
        "c_evidence_type c \<noteq> ''inferred''" "\<not> contains_sensitive_memory c"
        "wf_scope (effective_scope sc g c)"
    | (upsert) "c_operation c \<noteq> ''forget''"
        "resolve_upsert m s now (effective_scope sc g c) c thr = Inr (d, s')"
        "np_mode (policy_for g (c_namespace c)) \<noteq> TENANT_REQUIRED"
        "c_evidence_type c \<noteq> ''inferred''" "\<not> contains_sensitive_memory c"
        "wf_scope (effective_scope sc g c)"
proof (cases "write_scope_for g (c_namespace c) = ''user_agent'' \<and> \<not> opt_truthy (gv_agent_id g)")
  case True
  then have "s' = s \<and> d_status d \<noteq> ''applied''"
    using assms(1) by (auto simp: resolve_memory_candidate_def Let_def)
  then show ?thesis by (intro refused) simp_all
next
  case False
  then have wf: "wf_scope (effective_scope sc g c)"
    using assms(2) by (intro wf_effective_scope) simp_all
  then have id: "MemoryScope (effective_scope sc g c) = Inr (effective_scope sc g c)"
    by (rule MemoryScope_id)
  note res = assms(1) [unfolded resolve_memory_candidate_def Let_def if_not_P [OF False] id sum.case]
  show ?thesis
  proof (cases "np_mode (policy_for g (c_namespace c)) = TENANT_REQUIRED \<or>
      c_evidence_type c = ''inferred'' \<or> contains_sensitive_memory c")
    case True
    with res have "s' = s \<and> d_status d \<noteq> ''applied''"
      by (auto split: if_splits)
    then show ?thesis by (intro refused) simp_all
  next
    case general: False
    show ?thesis
    proof (cases "c_operation c = ''forget''")
      case True
      with general res wf show ?thesis
        by (intro forget) (simp_all split: prod.splits)
    next
      case upd: False
      with general res wf show ?thesis
        by (intro upsert) (simp_all split: sum.splits prod.splits)
    qed
  qed
qed

section \<open>An example candidate\<close>

definition pg_service :: "memory_db memory_service" where
  "pg_service =
     \<lparr>ms_provider = Some native_pg, ms_recall_enabled = True, ms_write_enabled = True,
      ms_recall_limit = 8, ms_max_item_chars = 400\<rparr>"

definition sample_candidate :: memory_candidate where
  "sample_candidate =
     \<lparr>c_operation = ''upsert'', c_namespace = ''preferences'', c_key = ''lang'',
      c_value = Some ''go'', c_memory_type = ''semantic'', c_evidence_type = ''explicit_fact'',
      c_confidence = 1, c_importance = 1 / 2, c_update_intent = False, c_ttl_days = None,
      c_rationale = None, c_source_agent_id = Some ''a1'', c_source_session_id = None,
      c_source_trace_id = Some ''t1'', c_candidate_id = None\<rparr>"

definition ascii :: "char \<Rightarrow> bool" where
  "ascii c \<longleftrightarrow> of_char c < (128::nat)"

lemma contains_ascii: "list_all ascii h \<Longrightarrow> \<not> list_all ascii t \<Longrightarrow> \<not> contains t h"
  by (auto simp: contains_def list_all_iff dest: set_mono_sublist)

lemma sensitive_ascii:
  assumes "list_all ascii h"
    and "\<not> list_ex (\<lambda>t. contains t h)
           [''password'', ''passwd'', ''api_key'', ''apikey'', ''token'', ''secret'', ''private_key'',
            ''otp'', ''cvv'']"
  shows "\<not> list_ex (\<lambda>t. contains t h) SENSITIVE_MEMORY_TERMS"
proof -
  have "list_all (\<lambda>t. \<not> list_all ascii t) (drop 9 SENSITIVE_MEMORY_TERMS)"
    by (simp add: SENSITIVE_MEMORY_TERMS_def cps_def utf8_def ascii_def)
  then have "\<not> list_ex (\<lambda>t. contains t h) (drop 9 SENSITIVE_MEMORY_TERMS)"
    using contains_ascii [OF assms(1)] by (auto simp: list_all_iff list_ex_iff)
  moreover have "take 9 SENSITIVE_MEMORY_TERMS =
      [''password'', ''passwd'', ''api_key'', ''apikey'', ''token'', ''secret'', ''private_key'',
       ''otp'', ''cvv'']"
    by (simp add: SENSITIVE_MEMORY_TERMS_def)
  ultimately show ?thesis
    using assms(2) by (metis append_take_drop_id list_ex_append)
qed

lemma sample_not_sensitive: "\<not> contains_sensitive_memory sample_candidate"
proof -
  have "py_join '' '' (map py_lower [c_namespace sample_candidate, c_key sample_candidate,
      opt_or (c_value sample_candidate) [], opt_or (c_rationale sample_candidate) []]) = ''preferences lang go ''"
    by (simp add: sample_candidate_def py_lower_def lower_char_def)
  moreover have "\<not> list_ex (\<lambda>t. contains t ''preferences lang go '') SENSITIVE_MEMORY_TERMS"
    by (rule sensitive_ascii) (simp_all add: ascii_def contains_def sublist_code)
  ultimately show ?thesis by (simp add: contains_sensitive_memory_def)
qed

lemma wf_sample_candidate: "wf_candidate sample_candidate"
  by (simp add: wf_candidate_def sample_candidate_def candidate_operations_def
      candidate_memory_types_def evidence_types_def py_strip_def is_space_def)

lemma sample_effective: "effective_scope sample_scope open_governance sample_candidate =
    sample_scope\<lparr>sc_tenant_id := Some ''default''\<rparr>"
  by (simp add: effective_scope_def sample_scope_def open_governance_def sample_candidate_def
    write_scope_for_def policy_for_def opt_or_opt_def)

lemma sample_applied:
  "\<exists>d db'. resolve_memory_candidate pg_service empty_db 10 sample_scope open_governance
          sample_candidate (9 / 10) (95 / 100) None = Inr (d, db', None) \<and> d_status d = ''applied''"
proof -
  let ?sc = "sample_scope\<lparr>sc_tenant_id := Some ''default''\<rparr>"
  have wf: "wf_scope ?sc" using wf_sample_scope by (simp add: wf_scope_def)
  have cur: "svc_get_current pg_service empty_db 10 ?sc (c_key sample_candidate) = None"
    by (simp add: svc_get_current_def pg_service_def native_pg_def pg_get_current_def empty_db_def Let_def)
  have w: "MemoryWrite (candidate_write 10 ?sc sample_candidate) = Inr (candidate_write 10 ?sc sample_candidate)"
    by (rule MemoryWrite_id) (simp add: wf_write_def candidate_write_def sample_candidate_def
      source_kinds_def py_strip_def is_space_def)
  have "w_memory_type (candidate_write 10 ?sc sample_candidate) \<in> set candidate_memory_types"
    by (simp add: candidate_write_def sample_candidate_def candidate_memory_types_def)
  then obtain it db' where "pg_remember empty_db 10 ?sc (candidate_write 10 ?sc sample_candidate) = Inr (it, db')"
    using remember_ok [OF wf_empty_db wf MemoryWrite_wf [OF w]] by blast
  then have "apply_upsert pg_service empty_db 10 ?sc sample_candidate =
      Inr (decide ''applied'' ''automatic_candidate_applied'' sample_candidate (Some it), db')"
    by (simp add: apply_upsert_def w svc_remember_def pg_service_def native_pg_def)
  then have "resolve_upsert pg_service empty_db 10 ?sc sample_candidate (9 / 10) =
      Inr (decide ''applied'' ''automatic_candidate_applied'' sample_candidate (Some it), db')"
    using cur by (simp add: resolve_upsert_def) (simp add: sample_candidate_def)
  then show ?thesis
    by (simp add: resolve_memory_candidate_def sample_effective MemoryScope_id [OF wf] Let_def
       sample_not_sensitive store_decision_def)
      (simp add: sample_candidate_def open_governance_def policy_for_def)
qed

section \<open>Grounds of a change\<close>

text \<open>
  C2: Resolving a candidate changes the memory, or reports \<open>applied\<close>, only when the namespace is not
  tenant-managed, the candidate is neither inferred nor sensitive, and the item that the provider's
  lookup found under its key is not tenant-owned. A forget needs an explicit instruction, the forget
  threshold and an item that was found; an upsert needs the apply threshold, and a value other than
  that of the item found, and when that item is an explicit memory also the user's update intent and
  a confidence of at least 0.95. This holds over every provider. What is protected is the item the lookup
  answers: when the lookup raises, the code goes on as if there were none, so that a forget is refused
  and an upsert is not held back (\<open>failed_lookup_replaces\<close>).
\<close>

theorem candidate_grounds:
  assumes "wf_scope sc" "resolve_memory_candidate m s now sc g c thr fthr st = Inr (d, s', st')"
    and "s' \<noteq> s \<or> d_status d = ''applied''"
  shows "np_mode (policy_for g (c_namespace c)) \<noteq> TENANT_REQUIRED \<and>
     c_evidence_type c \<noteq> ''inferred'' \<and> \<not> contains_sensitive_memory c \<and>
     (if c_operation c = ''forget'' then forget_allowed m s now (effective_scope sc g c) c fthr
      else upsert_allowed m s now (effective_scope sc g c) c thr)"
  using assms(2,1)
proof (cases rule: resolve_cases)
  case refused
  with assms(3) show ?thesis by simp
next
  case forget
  from forget(2) show ?thesis
    by (cases rule: resolve_forget_cases) (use assms(3) forget in simp_all)
next
  case upsert
  from upsert(2) show ?thesis
    by (cases rule: resolve_upsert_cases) (use assms(3) upsert in simp_all)
qed

lemma candidate_grounds_witness:
  "\<not> contains_sensitive_memory sample_candidate \<and>
   upsert_allowed pg_service empty_db 10 (effective_scope sample_scope open_governance sample_candidate)
     sample_candidate (9 / 10)"
proof -
  obtain d db' where step: "resolve_memory_candidate pg_service empty_db 10 sample_scope open_governance
      sample_candidate (9 / 10) (95 / 100) None = Inr (d, db', None)" "d_status d = ''applied''"
    using sample_applied by blast
  have "c_operation sample_candidate \<noteq> ''forget''" by (simp add: sample_candidate_def)
  then show ?thesis using candidate_grounds [OF wf_sample_scope step(1)] step(2) by simp
qed

text \<open>
  What the protection does not cover: while the provider's lookup fails and its write works, a candidate
  without the user's update intent replaces what the user had said explicitly.
\<close>

definition told_scope :: memory_scope where
  "told_scope = effective_scope sample_scope open_governance sample_candidate"

definition told_db :: memory_db where
  "told_db = snd (svc_remember pg_service empty_db 9 told_scope
     ((candidate_write 9 told_scope sample_candidate)\<lparr>w_value := ''rust'', w_source_kind := ''explicit''\<rparr>))"

definition blind_service :: "memory_db memory_service" where
  "blind_service = pg_service\<lparr>ms_provider :=
     Some (native_pg\<lparr>po_get_current := \<lambda>_ _ _ _. Inl (RuntimeErr ''timeout'')\<rparr>)\<rparr>"

lemma told_upsert:
  "case resolve_upsert blind_service told_db 10 told_scope sample_candidate (9 / 10) of
     Inl e \<Rightarrow> False
   | Inr (d, db') \<Rightarrow> d_status d = ''applied'' \<and>
       map_option it_content (svc_get_current pg_service db' 10 told_scope ''lang'') = Some ''go''"
  by code_simp

lemma told_item:
  "map_option (\<lambda>it. (it_content it, it_source_kind it)) (svc_get_current pg_service told_db 10 told_scope ''lang'') =
     Some (''rust'', ''explicit'')"
  by code_simp

lemma failed_lookup_replaces:
  "\<exists>d db'. resolve_memory_candidate blind_service told_db 10 sample_scope open_governance
       sample_candidate (9 / 10) (95 / 100) None = Inr (d, db', None) \<and>
     d_status d = ''applied'' \<and> \<not> c_update_intent sample_candidate \<and>
     map_option (\<lambda>it. (it_content it, it_source_kind it))
       (svc_get_current pg_service told_db 10 told_scope ''lang'') = Some (''rust'', ''explicit'') \<and>
     map_option it_content (svc_get_current pg_service db' 10 told_scope ''lang'') = Some ''go''"
proof -
  have wf: "wf_scope told_scope"
    using wf_sample_scope by (simp add: told_scope_def sample_effective wf_scope_def)
  obtain d db' where up: "resolve_upsert blind_service told_db 10 told_scope sample_candidate (9 / 10) = Inr (d, db')"
    and d: "d_status d = ''applied''"
      "map_option it_content (svc_get_current pg_service db' 10 told_scope ''lang'') = Some ''go''"
    using told_upsert by (auto split: sum.splits prod.splits)
  have "resolve_memory_candidate blind_service told_db 10 sample_scope open_governance
      sample_candidate (9 / 10) (95 / 100) None = Inr (d, db', None)"
    using up
    by (simp add: resolve_memory_candidate_def told_scope_def [symmetric] MemoryScope_id [OF wf] Let_def
       sample_not_sensitive store_decision_def)
      (simp add: sample_candidate_def open_governance_def policy_for_def)
  moreover have "\<not> c_update_intent sample_candidate" by (simp add: sample_candidate_def)
  ultimately show ?thesis using d told_item by blast
qed

section \<open>The effect of an applied candidate\<close>

lemma not_expired_ttl:
  "wf_candidate c \<Longrightarrow> not_expired now (w_expires_at (candidate_write now sc c))"
  by (auto simp: candidate_write_def wf_candidate_def not_expired_def days_def split: option.splits)

lemma candidate_write_wf:
  assumes "MemoryWrite (candidate_write now sc c) = Inr w" "wf_candidate c"
  shows "wf_write w" "w_key w = c_key c" "w_value w = opt_or (c_value c) []"
    "w_expires_at w = w_expires_at (candidate_write now sc c)"
proof -
  show "wf_write w" using assms(1) by (rule MemoryWrite_wf)
  have w: "w = (candidate_write now sc c)\<lparr>w_key := py_strip (c_key c),
      w_value := py_strip (opt_or (c_value c) [])\<rparr>"
    using assms(1) by (auto simp: MemoryWrite_def Let_def candidate_write_def split: if_splits)
  have strip: "py_strip (c_key c) = c_key c" "map_option py_strip (c_value c) = c_value c"
    using assms(2) by (simp_all add: wf_candidate_def)
  then have "py_strip (opt_or (c_value c) []) = opt_or (c_value c) []"
    by (cases "c_value c") (simp_all add: py_strip_def)
  then show "w_key w = c_key c" "w_value w = opt_or (c_value c) []"
    "w_expires_at w = w_expires_at (candidate_write now sc c)"
    using w strip(1) by simp_all
qed

lemma svc_remember_refused:
  "svc_remember m s now sc w = (r, s') \<Longrightarrow> \<not> (wr_saved r \<and> wr_item r \<noteq> None) \<Longrightarrow> s' = s"
  by (auto simp: svc_remember_def not_saved_def split: option.splits sum.splits if_splits)

context memory_provider
begin

lemma apply_upsert_effect:
  assumes "ms_provider m = Some P" "inv s" "wf_candidate c"
    and "apply_upsert m s now sc c = Inr (d, s')"
  shows "inv s'" "d_status d \<noteq> ''applied'' \<Longrightarrow> s' = s"
    and "d_status d = ''applied'' \<Longrightarrow>
      \<exists>it. d_item d = Some it \<and> it_content it = opt_or (c_value c) [] \<and>
        svc_get_current m s' now sc (c_key c) = Some it"
    and "scope_ident sc' k \<noteq> scope_ident sc (c_key c) \<Longrightarrow> py_strip k = k \<Longrightarrow>
      svc_get_current m s' now' sc' k = svc_get_current m s now' sc' k"
proof -
  obtain w r where w: "MemoryWrite (candidate_write now sc c) = Inr w"
    and r: "svc_remember m s now sc w = (r, s')"
    and d: "d_status d = (if wr_saved r \<and> wr_item r \<noteq> None then ''applied'' else ''needs_review'')"
      "d_status d = ''applied'' \<longrightarrow> d_item d = wr_item r"
    using assms(4) by (rule apply_upsert_cases)
  note wf = candidate_write_wf [OF w assms(3)]
  have key: "py_strip (c_key c) = c_key c" using assms(3) by (simp add: wf_candidate_def)
  show keep: "d_status d \<noteq> ''applied'' \<Longrightarrow> s' = s"
    using svc_remember_refused [OF r] d(1) by (simp split: if_splits)
  show frame: "svc_get_current m s' now' sc' k = svc_get_current m s now' sc' k"
    if "scope_ident sc' k \<noteq> scope_ident sc (c_key c)" "py_strip k = k" for sc' k now'
    using svc_remember_frame [OF assms(1,2) r, of sc' k now'] that wf(2) by simp
  show "inv s'"
    using assms(1,2) r
    by (auto simp: svc_remember_def split: if_splits sum.splits dest: remember_inv)
  show "\<exists>it. d_item d = Some it \<and> it_content it = opt_or (c_value c) [] \<and>
      svc_get_current m s' now sc (c_key c) = Some it" if ap: "d_status d = ''applied''"
  proof -
    from ap d(1) have "wr_saved r" by (simp split: if_splits)
    then obtain it where step: "po_remember P s now sc w = Inr (it, s')" "r = \<lparr>wr_saved = True, wr_item = Some it, wr_reason = None\<rparr>"
      using assms(1) r by (auto simp: svc_remember_def not_saved_def split: if_splits sum.splits)
    have "not_expired now (w_expires_at w)" using not_expired_ttl [OF assms(3)] wf(4) by simp
    from remember_get [OF assms(2) wf(1) this step(1)] show ?thesis
      using ap d(2) step(2) wf(2,3) assms(1) by (simp add: svc_get_current_def)
  qed
qed

lemma resolve_forget_effect:
  assumes "ms_provider m = Some P" "inv s" "wf_candidate c"
    and "resolve_forget m s now sc c thr = (d, s')"
  shows "inv s'" "d_status d \<noteq> ''applied'' \<Longrightarrow> s' = s"
    and "d_status d = ''applied'' \<Longrightarrow> svc_get_current m s' now' sc (c_key c) = None"
    and "scope_ident sc' k \<noteq> scope_ident sc (c_key c) \<Longrightarrow> py_strip k = k \<Longrightarrow>
      svc_get_current m s' now' sc' k = svc_get_current m s now' sc' k"
proof -
  have key: "py_strip (c_key c) = c_key c" "c_key c \<noteq> []"
    using assms(3) by (simp_all add: wf_candidate_def)
  have "inv s' \<and> (d_status d \<noteq> ''applied'' \<longrightarrow> s' = s) \<and>
      (d_status d = ''applied'' \<longrightarrow> (\<forall>t. svc_get_current m s' t sc (c_key c) = None)) \<and>
      (\<forall>sc' k t. scope_ident sc' k \<noteq> scope_ident sc (c_key c) \<longrightarrow> py_strip k = k \<longrightarrow>
         svc_get_current m s' t sc' k = svc_get_current m s t sc' k)"
    using assms(4)
  proof (cases rule: resolve_forget_cases)
    case refused
    then show ?thesis using assms(2) by simp
  next
    case (tried changed)
    note eff = svc_forget_effect [OF assms(1,2) key(1) tried(2)]
    note frame = svc_forget_frame [OF assms(1,2) key(1) tried(2)]
    have was: "ms_write_enabled m \<longrightarrow> changed"
    proof
      assume on: "ms_write_enabled m"
      obtain cur where cur: "svc_get_current m s now sc (c_key c) = Some cur"
        using tried(1) by (auto simp: forget_allowed_def svc_get_current_Some)
      then have "po_get_current P s now sc (c_key c) = Inr (Some cur)"
        using assms(1) by (auto simp: svc_get_current_def split: sum.splits)
      moreover obtain b t where f: "po_forget P s now sc (c_key c) (Some ''automatic_explicit_forget'')
          (c_source_trace_id c) ''automatic'' = Inr (b, t)"
        using forget_total [OF assms(2)] by blast
      ultimately have "b" using forget_true [OF assms(2) key] by blast
      then show "changed" using f on tried(2) assms(1) by (simp add: svc_forget_def)
    qed
    have "changed \<longrightarrow> ms_write_enabled m"
      using tried(2) assms(1) by (auto simp: svc_forget_def split: if_splits)
    then show ?thesis
      using was eff frame tried(3) by (cases changed) simp_all
  qed
  then show "inv s'" "d_status d \<noteq> ''applied'' \<Longrightarrow> s' = s"
    "d_status d = ''applied'' \<Longrightarrow> svc_get_current m s' now' sc (c_key c) = None"
    "scope_ident sc' k \<noteq> scope_ident sc (c_key c) \<Longrightarrow> py_strip k = k \<Longrightarrow>
      svc_get_current m s' now' sc' k = svc_get_current m s now' sc' k"
    by simp_all
qed

lemma resolve_effect:
  assumes "ms_provider m = Some P" "inv s" "wf_scope sc" "wf_candidate c"
    and "resolve_memory_candidate m s now sc g c thr fthr st = Inr (d, s', st')"
  shows "inv s' \<and>
     (if d_status d = ''applied'' then
        (if c_operation c = ''forget''
         then svc_get_current m s' now (effective_scope sc g c) (c_key c) = None
         else \<exists>it. d_item d = Some it \<and> it_content it = opt_or (c_value c) [] \<and>
                svc_get_current m s' now (effective_scope sc g c) (c_key c) = Some it)
      else s' = s) \<and>
     (\<forall>sc' k t. scope_ident sc' k \<noteq> scope_ident (effective_scope sc g c) (c_key c) \<longrightarrow>
        py_strip k = k \<longrightarrow> svc_get_current m s' t sc' k = svc_get_current m s t sc' k)"
  using assms(5,3)
proof (cases rule: resolve_cases)
  case refused
  then show ?thesis using assms(2) by simp
next
  case forget
  note eff = resolve_forget_effect [OF assms(1,2,4) forget(2)]
  show ?thesis using forget(1) eff by simp
next
  case upsert
  from upsert(2) show ?thesis
  proof (cases rule: resolve_upsert_cases)
    case refused
    then show ?thesis using assms(2) by simp
  next
    case tried
    note eff = apply_upsert_effect [OF assms(1,2,4) tried(2)]
    show ?thesis using upsert(1) eff by simp
  qed
qed

end

text \<open>
  Over the PostgreSQL provider an \<open>applied\<close> decision is true of the store: after an upsert the
  current item at the candidate's identity carries the candidate's value, after a forget there is
  none; every other decision leaves the whole database as it was, and no decision changes what is
  read at any other identity (other users, tenants, agents, namespaces or keys).
\<close>

theorem decision_is_true:
  assumes "ms_provider m = Some native_pg" "wf_db db" "wf_scope sc" "wf_candidate c"
    and "resolve_memory_candidate m db now sc g c thr fthr st = Inr (d, db', st')"
  shows "wf_db db' \<and>
     (if d_status d = ''applied'' then
        (if c_operation c = ''forget''
         then svc_get_current m db' now (effective_scope sc g c) (c_key c) = None
         else \<exists>it. d_item d = Some it \<and> it_content it = opt_or (c_value c) [] \<and>
                svc_get_current m db' now (effective_scope sc g c) (c_key c) = Some it)
      else db' = db) \<and>
     (\<forall>sc' k t. scope_ident sc' k \<noteq> scope_ident (effective_scope sc g c) (c_key c) \<longrightarrow>
        py_strip k = k \<longrightarrow> svc_get_current m db' t sc' k = svc_get_current m db t sc' k)"
  by (rule pg.resolve_effect [OF assms])

lemma decision_is_true_witness:
  "\<exists>db' it. svc_get_current pg_service db' 10
     (effective_scope sample_scope open_governance sample_candidate) ''lang'' = Some it \<and>
     it_content it = ''go'' \<and> wf_db db'"
proof -
  obtain d db' where step: "resolve_memory_candidate pg_service empty_db 10 sample_scope open_governance
      sample_candidate (9 / 10) (95 / 100) None = Inr (d, db', None)" "d_status d = ''applied''"
    using sample_applied by blast
  have "ms_provider pg_service = Some native_pg" by (simp add: pg_service_def)
  from decision_is_true [OF this wf_empty_db wf_sample_scope wf_sample_candidate step(1)] step(2)
  show ?thesis by (auto simp: sample_candidate_def)
qed

section \<open>The queue\<close>

definition wf_store :: "candidate_store \<Rightarrow> bool" where
  "wf_store st \<longleftrightarrow>
     distinct (map k_id (cs_rows st)) \<and> distinct (map row_source (cs_rows st)) \<and>
     (\<forall>k \<in> set (cs_rows st). k_id k < cs_next_id st)"

lemma wf_empty_store: "wf_store empty_store"
  by (simp add: wf_store_def empty_store_def)

lemma row_source_new [simp]: "row_source (candidate_to_row n sc c p) = candidate_source sc c"
  by (simp add: row_source_def candidate_to_row_def candidate_source_def)

lemma k_id_new [simp]: "k_id (candidate_to_row n sc c p) = n"
  by (simp add: candidate_to_row_def)

lemma record_candidate_event_simps [simp]:
  "cs_rows (record_candidate_event sc c t r i d m st) = cs_rows st"
  "cs_next_id (record_candidate_event sc c t r i d m st) = cs_next_id st"
  "cs_extractions (record_candidate_event sc c t r i d m st) = cs_extractions st"
  by (simp_all add: record_candidate_event_def)

lemma find_source_Some:
  assumes "wf_store st" "k \<in> set (cs_rows st)"
  shows "find (\<lambda>j. row_source j = row_source k) (cs_rows st) = Some k"
proof -
  have "inj_on row_source (set (cs_rows st))" using assms(1) by (simp add: wf_store_def distinct_map)
  moreover have "find (\<lambda>j. row_source j = row_source k) rows = Some k"
    if "inj_on row_source (set rows)" "k \<in> set rows" for rows
    using that by (induction rows) (auto dest: inj_onD)
  ultimately show ?thesis using assms(2) by blast
qed

text \<open>After \<open>enqueue\<close> exactly one row has the candidate's source, and its id is the one returned.\<close>

lemma enqueue_cases:
  assumes "wf_store st" "enqueue sc c p st = Inr (q, st')"
  obtains k where "k \<in> set (cs_rows st')" "row_source k = candidate_source sc c"
    "q = c\<lparr>c_candidate_id := Some (int_text (k_id k))\<rparr>" "wf_store st'"
    "cs_rows st' = (if k \<in> set (cs_rows st) then cs_rows st else cs_rows st @ [k])"
    "k \<notin> set (cs_rows st) \<longrightarrow> k = candidate_to_row (cs_next_id st) sc c p"
proof (cases "find (\<lambda>k. row_source k = candidate_source sc c) (cs_rows st)")
  case None
  let ?k = "candidate_to_row (cs_next_id st) sc c p"
  have no: "\<forall>k \<in> set (cs_rows st). row_source k \<noteq> candidate_source sc c"
    using None by (auto simp: find_None_iff)
  then have new: "?k \<notin> set (cs_rows st)" by auto
  have res: "cs_rows st' = cs_rows st @ [?k]" "cs_next_id st' = cs_next_id st + 1"
    "q = c\<lparr>c_candidate_id := Some (int_text (cs_next_id st))\<rparr>"
    using assms(2) None by (auto simp: enqueue_def Let_def)
  have "wf_store st'"
    using assms(1) no res(1,2) by (fastforce simp: wf_store_def)
  then show ?thesis using new res by (intro that [of ?k]) simp_all
next
  case (Some k)
  then have k: "k \<in> set (cs_rows st)" "row_source k = candidate_source sc c"
    using find_SomeD [OF Some] by blast+
  have res: "cs_rows st' = cs_rows st" "cs_next_id st' = cs_next_id st + 1"
    "q = c\<lparr>c_candidate_id := Some (int_text (k_id k))\<rparr>"
    using assms(2) Some by (auto simp: enqueue_def Let_def)
  have "wf_store st'" using assms(1) res(1,2) by (auto simp: wf_store_def)
  then show ?thesis using k res by (intro that [of k]) simp_all
qed

text \<open>
  \<open>MemoryCandidateStore.enqueue\<close> is idempotent per source: queueing a candidate of the same tenant,
  user, trace, namespace, key and operation again, whatever else it says, adds and changes no row
  of the queue and returns the id of the first one; the queue never holds two rows of one source.
\<close>

theorem enqueue_idempotent:
  assumes "wf_store st" "enqueue sc c p st = Inr (q, st')"
    and "candidate_source sc' c' = candidate_source sc c"
  shows "wf_store st' \<and>
     (\<exists>q' st''. enqueue sc' c' p' st' = Inr (q', st'') \<and> cs_rows st'' = cs_rows st' \<and>
        c_candidate_id q' = c_candidate_id q)"
proof -
  obtain k where k: "k \<in> set (cs_rows st')" "row_source k = candidate_source sc c"
    "q = c\<lparr>c_candidate_id := Some (int_text (k_id k))\<rparr>" and wf: "wf_store st'"
    using enqueue_cases [OF assms(1,2)] by metis
  obtain q' st'' where again: "enqueue sc' c' p' st' = Inr (q', st'')"
    by (simp add: enqueue_def Let_def)
  have "find (\<lambda>j. row_source j = candidate_source sc' c') (cs_rows st') = Some k"
    using find_source_Some [OF wf k(1)] k(2) assms(3) by simp
  then have "cs_rows st'' = cs_rows st'" "c_candidate_id q' = c_candidate_id q"
    using again k(3) by (auto simp: enqueue_def Let_def)
  with wf again show ?thesis by blast
qed

lemma enqueue_idempotent_witness:
  "\<exists>q st q' st'. enqueue sample_scope sample_candidate ''user_global'' empty_store = Inr (q, st) \<and>
     enqueue sample_scope (sample_candidate\<lparr>c_value := Some ''rust''\<rparr>) ''user_global'' st = Inr (q', st') \<and>
     cs_rows st' = cs_rows st"
proof -
  obtain q st where step: "enqueue sample_scope sample_candidate ''user_global'' empty_store = Inr (q, st)"
    by (simp add: enqueue_def Let_def)
  have "candidate_source sample_scope (sample_candidate\<lparr>c_value := Some ''rust''\<rparr>) =
      candidate_source sample_scope sample_candidate"
    by (simp add: candidate_source_def)
  from enqueue_idempotent [OF wf_empty_store step this] step show ?thesis by blast
qed

text \<open>
  A decision about a queued candidate is on record: \<open>mark_decision\<close> sets status and reason of the
  row \<open>enqueue\<close> returned and of no other row, and appends the event \<open>candidate_<status>\<close> that names
  the row and the reason.
\<close>

theorem decision_recorded:
  assumes "wf_store st" "enqueue sc c p st = Inr (q, st1)"
  shows "\<exists>k \<in> set (cs_rows st1). row_source k = candidate_source sc c \<and>
     (\<exists>mid. cs_rows (mark_decision now sc' q d st1) =
        map (\<lambda>j. if j = k
             then k\<lparr>k_status := d_status d, k_decision_reason := Some (d_reason d),
                    k_applied_memory_id := mid, k_decided_at := Some now\<rparr> else j) (cs_rows st1)) \<and>
     (\<exists>e. cs_events (mark_decision now sc' q d st1) = cs_events st1 @ [e] \<and>
        e_candidate_id e = Some (k_id k) \<and> e_event_type e = ''candidate_'' @ d_status d \<and>
        e_reason e = Some (d_reason d))"
proof -
  obtain k where k: "k \<in> set (cs_rows st1)" "row_source k = candidate_source sc c"
    "q = c\<lparr>c_candidate_id := Some (int_text (k_id k))\<rparr>" and wf: "wf_store st1"
    using enqueue_cases [OF assms] by metis
  let ?mid = "case d_item d of None \<Rightarrow> None | Some it \<Rightarrow> parse_int (it_id it)"
  have inj: "j = k" if "j \<in> set (cs_rows st1)" "k_id j = k_id k" for j
    using wf that k(1) by (auto simp: wf_store_def distinct_map inj_on_def)
  let ?upd = "\<lambda>j. j\<lparr>k_status := d_status d, k_decision_reason := Some (d_reason d),
      k_applied_memory_id := ?mid, k_decided_at := Some now\<rparr>"
  have eq: "mark_decision now sc' q d st1 =
      record_candidate_event sc' q (''candidate_'' @ d_status d) (d_reason d) (k_id k) [] ?mid
        (st1\<lparr>cs_rows := map (\<lambda>j. if k_id j = k_id k then ?upd j else j) (cs_rows st1)\<rparr>)"
    by (simp add: mark_decision_def k(3) Let_def)
  have "map (\<lambda>j. if k_id j = k_id k then ?upd j else j) (cs_rows st1) =
      map (\<lambda>j. if j = k then ?upd k else j) (cs_rows st1)"
    using inj by (intro map_cong) auto
  then have "cs_rows (mark_decision now sc' q d st1) = map (\<lambda>j. if j = k then ?upd k else j) (cs_rows st1)"
    by (simp add: eq)
  then have rows: "\<exists>mid. cs_rows (mark_decision now sc' q d st1) =
      map (\<lambda>j. if j = k
           then k\<lparr>k_status := d_status d, k_decision_reason := Some (d_reason d),
                  k_applied_memory_id := mid, k_decided_at := Some now\<rparr> else j) (cs_rows st1)"
    by (rule exI [of _ ?mid])
  have "\<exists>e. cs_events (mark_decision now sc' q d st1) = cs_events st1 @ [e] \<and>
      e_candidate_id e = Some (k_id k) \<and> e_event_type e = ''candidate_'' @ d_status d \<and>
      e_reason e = Some (d_reason d)"
    by (simp add: eq record_candidate_event_def)
  with rows k(1,2) show ?thesis by blast
qed

lemma decision_recorded_witness:
  "\<exists>q st. enqueue sample_scope sample_candidate ''user_global'' empty_store = Inr (q, st) \<and>
     (\<exists>e. cs_events (mark_decision 10 sample_scope q (decide ''skipped'' ''duplicate'' q None) st) =
        cs_events st @ [e] \<and> e_event_type e = ''candidate_skipped'')"
proof -
  obtain q st where step: "enqueue sample_scope sample_candidate ''user_global'' empty_store = Inr (q, st)"
    by (simp add: enqueue_def Let_def)
  show ?thesis
    using step decision_recorded [OF wf_empty_store step, of 10 sample_scope "decide ''skipped'' ''duplicate'' q None"]
    by fastforce
qed

end
