(* ===== verification/Memory_Extraction.thy ===== *)
theory Memory_Extraction
  imports Memory_Lifecycle
begin

text \<open>
  Extraction of memories from chat messages: the parser of the model's answer
  (\<open>memory/extractor.py\<close>) and the batch job over the recent messages (\<open>data_ops/memory_extraction.py\<close>).
  Not under \<open>src/\<close> and so parameters of the model: the language model (\<open>chat\<close>, from the user's text
  to the parsed JSON object or an exception), the message rows Strapi returns, and the answer of the
  control plane about a user's governance (\<open>fetch\<close>).
\<close>

section \<open>Parsing a candidate\<close>

definition extraction_namespaces :: "string list" where
  "extraction_namespaces = [''preferences'', ''profile'', ''work_context'']"

text \<open>\<open>str(raw.get(k) or d)\<close>.\<close>

definition text_or :: "pydict \<Rightarrow> string \<Rightarrow> string \<Rightarrow> string" where
  "text_or raw k d = py_str (py_or (dget raw k) (PStr d))"

definition none_if_empty :: "string \<Rightarrow> string option" where
  "none_if_empty s = (if s = [] then None else Some s)"

definition clamp01 :: "rat \<Rightarrow> rat" where
  "clamp01 r = max 0 (min 1 r)"

definition parse_ttl :: "pyval \<Rightarrow> int option option" where
  "parse_ttl v =
     (if v = PNone \<or> v = PStr [] then Some None else map_option Some (py_int v))"

definition parse_memory_candidate ::
  "pydict \<Rightarrow> string option \<Rightarrow> string option \<Rightarrow> string option \<Rightarrow> memory_candidate option" where
  "parse_memory_candidate raw agent session trace =
     (let namespace = py_strip (text_or raw ''namespace'' [])
      in if namespace \<notin> set extraction_namespaces then None
         else
           case (parse_ttl (dget raw ''ttl_days''),
                 py_float (py_or (dget raw ''confidence'') (PInt 0)),
                 py_float (py_or (dget raw ''importance'') (PFloat (1 / 2)))) of
             (Some ttl, Some confidence, Some importance) \<Rightarrow>
               (case MemoryCandidate
                  \<lparr>c_operation = py_lower (py_strip (text_or raw ''operation'' [])),
                   c_namespace = namespace,
                   c_key = py_take 100 (py_strip (text_or raw ''key'' [])),
                   c_value = (if dget raw ''value'' = PNone then None
                              else Some (py_take 800 (py_strip (py_str (dget raw ''value''))))),
                   c_memory_type = py_strip (text_or raw ''memory_type'' ''semantic''),
                   c_evidence_type = py_strip (text_or raw ''evidence_type'' ''inferred''),
                   c_confidence = clamp01 confidence, c_importance = clamp01 importance,
                   c_update_intent = truthy (dget_or raw ''update_intent'' (PBool False)),
                   c_ttl_days = ttl,
                   c_rationale = none_if_empty (py_take 500 (py_strip (text_or raw ''rationale'' []))),
                   c_source_agent_id = agent, c_source_session_id = session,
                   c_source_trace_id = trace, c_candidate_id = None\<rparr> of
                  Inl e \<Rightarrow> None
                | Inr c \<Rightarrow> Some c)
           | _ \<Rightarrow> None)"

text \<open>\<open>chat\<close> gets the trimmed user text, cut to 6000 characters; the prompt around it is constant.\<close>

definition extract_memory_candidates ::
  "(string \<Rightarrow> pydict outcome) \<Rightarrow> string \<Rightarrow> string option \<Rightarrow> string option \<Rightarrow> string option \<Rightarrow>
   memory_candidate list outcome" where
  "extract_memory_candidates chat user_message agent session trace =
     (let content = py_strip user_message
      in if content = [] then Inr []
         else case chat (py_take 6000 content) of
                Inl e \<Rightarrow> Inl e
              | Inr payload \<Rightarrow>
                  (case dget payload ''candidates'' of
                     PList raws \<Rightarrow>
                       Inr (List.map_filter
                              (\<lambda>raw. case raw of
                                        PDict d \<Rightarrow> parse_memory_candidate d agent session trace
                                      | _ \<Rightarrow> None)
                              (take 5 raws))
                   | _ \<Rightarrow> Inr []))"

section \<open>The job's settings, messages and metrics\<close>

record memory_settings =
  se_extraction_enabled :: bool
  se_auto_apply_threshold :: rat
  se_forget_threshold :: rat
  se_chat_model :: string

record extraction_metrics =
  mt_scanned :: nat
  mt_processed :: nat
  mt_already_processed :: nat
  mt_skipped_anonymous :: nat
  mt_skipped_policy_unavailable :: nat
  mt_failed :: nat
  mt_candidates :: nat
  mt_applied :: nat
  mt_needs_review :: nat
  mt_rejected :: nat
  mt_skipped :: nat

definition zero_metrics :: extraction_metrics where
  "zero_metrics =
     \<lparr>mt_scanned = 0, mt_processed = 0, mt_already_processed = 0, mt_skipped_anonymous = 0,
      mt_skipped_policy_unavailable = 0, mt_failed = 0, mt_candidates = 0, mt_applied = 0,
      mt_needs_review = 0, mt_rejected = 0, mt_skipped = 0\<rparr>"

definition SESSION_USER_PREFIX :: string where
  "SESSION_USER_PREFIX = ''session-owner:''"

definition load_user_messages :: "pydict list \<Rightarrow> int \<Rightarrow> pydict list" where
  "load_user_messages rows limit =
     py_upto (filter (\<lambda>row. py_eq (dget row ''role'') (PStr ''user'') \<and> truthy (dget row ''content'') \<and>
                            truthy (dget row ''trace_id'') \<and> truthy (dget row ''user_id'')) rows) limit"

definition message_agent_id :: "pydict \<Rightarrow> string option" where
  "message_agent_id row =
     (let metadata = as_dict (dget row ''metadata'');
          request_metadata = as_dict (dget metadata ''request_metadata'');
          value = py_or (dget metadata ''agent_id'') (dget request_metadata ''agent_id'')
      in none_if_empty (py_strip (py_str (py_or value (PStr [])))))"

text \<open>\<open>metrics[decision.status] += 1\<close>.\<close>

definition count_decision :: "string \<Rightarrow> extraction_metrics \<Rightarrow> extraction_metrics" where
  "count_decision status t =
     (if status = ''applied'' then t\<lparr>mt_applied := mt_applied t + 1\<rparr>
      else if status = ''needs_review'' then t\<lparr>mt_needs_review := mt_needs_review t + 1\<rparr>
      else if status = ''rejected'' then t\<lparr>mt_rejected := mt_rejected t + 1\<rparr>
      else t\<lparr>mt_skipped := mt_skipped t + 1\<rparr>)"

definition error_text :: "memory_error \<Rightarrow> string" where
  "error_text e =
     (case e of
        ValueError m \<Rightarrow> ''ValueError: '' @ m
      | AttributeError m \<Rightarrow> ''AttributeError: '' @ m
      | RuntimeErr m \<Rightarrow> ''RuntimeError: '' @ m)"

record 's extraction_state =
  xs_mem :: 's
  xs_store :: candidate_store
  xs_metrics :: extraction_metrics
  xs_items :: "pydict list"

section \<open>One candidate\<close>

definition candidate_decision ::
  "'s memory_service \<Rightarrow> 's \<Rightarrow> int \<Rightarrow> memory_scope \<Rightarrow> governance \<Rightarrow> memory_candidate \<Rightarrow> memory_settings \<Rightarrow>
   candidate_store option \<Rightarrow> bool \<Rightarrow> (memory_decision \<times> 's \<times> candidate_store option) outcome" where
  "candidate_decision m s now sc g c settings st auto_apply =
     (if \<not> auto_apply
      then let d = decide ''needs_review'' ''auto_apply_disabled'' c None
           in Inr (d, s, store_decision now sc c d st)
      else resolve_memory_candidate m s now sc g c (se_auto_apply_threshold settings)
             (se_forget_threshold settings) st)"

definition candidate_item :: "string \<Rightarrow> string \<Rightarrow> string option \<Rightarrow> memory_candidate \<Rightarrow> memory_decision \<Rightarrow> pydict" where
  "candidate_item trace user agent queued d =
     [(''trace_id'', PStr trace), (''user_id'', PStr user), (''agent_id'', opt_val agent),
      (''candidate_id'', opt_val (c_candidate_id queued)), (''namespace'', PStr (c_namespace queued)),
      (''key'', PStr (c_key queued)), (''operation'', PStr (c_operation queued)),
      (''status'', PStr (d_status d)), (''reason'', PStr (d_reason d))]"

text \<open>The scope the job builds for a candidate; \<open>MemoryScope\<close> may refuse it.\<close>

definition message_scope ::
  "string \<Rightarrow> string option \<Rightarrow> string option \<Rightarrow> governance \<Rightarrow> memory_candidate \<Rightarrow> memory_scope outcome" where
  "message_scope user session agent g c =
     MemoryScope
       \<lparr>sc_user_id = user, sc_session_id = session, sc_agent_id = agent,
        sc_tenant_id = Some (gv_tenant_id g), sc_namespace = c_namespace c,
        sc_memory_scope = write_scope_for g (c_namespace c)\<rparr>"

definition queue_candidate ::
  "bool \<Rightarrow> memory_scope \<Rightarrow> memory_candidate \<Rightarrow> string \<Rightarrow> candidate_store \<Rightarrow>
   (memory_candidate \<times> candidate_store) outcome" where
  "queue_candidate dry_run sc c proposed st =
     (if dry_run then Inr (c, st) else enqueue sc c proposed st)"

text \<open>An exception keeps what was written before it (each store call commits).\<close>

definition process_candidate ::
  "'s memory_service \<Rightarrow> memory_settings \<Rightarrow> bool \<Rightarrow> bool \<Rightarrow> int \<Rightarrow> string \<Rightarrow> string \<Rightarrow> string option \<Rightarrow>
   string option \<Rightarrow> governance \<Rightarrow> memory_candidate \<Rightarrow> 's extraction_state \<Rightarrow>
   memory_error option \<times> 's extraction_state" where
  "process_candidate m settings dry_run auto_apply now trace user session agent g c x =
     (case message_scope user session agent g c of
        Inl e \<Rightarrow> (Some e, x)
      | Inr sc \<Rightarrow>
          (case queue_candidate dry_run sc c (write_scope_for g (c_namespace c)) (xs_store x) of
             Inl e \<Rightarrow> (Some e, x)
           | Inr (queued, store) \<Rightarrow>
               (case candidate_decision m (xs_mem x) now sc g queued settings
                       (if dry_run then None else Some store) auto_apply of
                  Inl e \<Rightarrow> (Some e, x\<lparr>xs_store := store\<rparr>)
                | Inr (d, mem, store') \<Rightarrow>
                    (None, x\<lparr>xs_mem := mem,
                             xs_store := (case store' of None \<Rightarrow> store | Some st \<Rightarrow> st),
                             xs_metrics := count_decision (d_status d) (xs_metrics x),
                             xs_items := xs_items x @ [candidate_item trace user agent queued d]\<rparr>))))"

fun process_candidates ::
  "(memory_candidate \<Rightarrow> 's extraction_state \<Rightarrow> memory_error option \<times> 's extraction_state) \<Rightarrow>
   memory_candidate list \<Rightarrow> 's extraction_state \<Rightarrow> memory_error option \<times> 's extraction_state" where
  "process_candidates step [] x = (None, x)"
| "process_candidates step (c # cs) x =
     (case step c x of
        (Some e, x') \<Rightarrow> (Some e, x')
      | (None, x') \<Rightarrow> process_candidates step cs x')"

section \<open>One message\<close>

abbreviation upd_metrics ::
  "(extraction_metrics \<Rightarrow> extraction_metrics) \<Rightarrow> 's extraction_state \<Rightarrow> 's extraction_state" where
  "upd_metrics f x \<equiv> x\<lparr>xs_metrics := f (xs_metrics x)\<rparr>"

definition extract_and_apply ::
  "(string \<Rightarrow> pydict outcome) \<Rightarrow> 's memory_service \<Rightarrow> memory_settings \<Rightarrow> bool \<Rightarrow> bool \<Rightarrow> int \<Rightarrow>
   pydict \<Rightarrow> string \<Rightarrow> string \<Rightarrow> string option \<Rightarrow> string option \<Rightarrow> governance \<Rightarrow>
   's extraction_state \<Rightarrow> 's extraction_state" where
  "extract_and_apply chat m settings dry_run auto_apply now row trace user session agent g x =
     (let fail = (\<lambda>e y. let y = upd_metrics (\<lambda>t. t\<lparr>mt_failed := mt_failed t + 1\<rparr>) y
            in if dry_run then y
               else y\<lparr>xs_store := extraction_failed now trace user session agent
                        (se_chat_model settings) (error_text e) (xs_store y)\<rparr>)
      in case extract_memory_candidates chat (text_or row ''content'' []) agent session (Some trace) of
           Inl e \<Rightarrow> fail e x
         | Inr candidates \<Rightarrow>
             let y = upd_metrics (\<lambda>t. t\<lparr>mt_processed := mt_processed t + 1,
                       mt_candidates := mt_candidates t + length candidates\<rparr>) x
             in case process_candidates
                       (process_candidate m settings dry_run auto_apply now trace user session agent g)
                       candidates y of
                  (Some e, z) \<Rightarrow> fail e z
                | (None, z) \<Rightarrow>
                    if dry_run then z
                    else z\<lparr>xs_store := extraction_completed now trace user session agent
                             (length candidates) (se_chat_model settings) (xs_store z)\<rparr>)"

definition process_message ::
  "(string \<Rightarrow> pydict outcome) \<Rightarrow> (string \<Rightarrow> pydict outcome) \<Rightarrow> 's memory_service \<Rightarrow> memory_settings \<Rightarrow>
   bool \<Rightarrow> bool \<Rightarrow> int \<Rightarrow> pydict \<Rightarrow> 's extraction_state \<Rightarrow> 's extraction_state outcome" where
  "process_message chat fetch m settings dry_run auto_apply now row x =
     (let trace = py_strip (text_or row ''trace_id'' []);
          user = py_strip (text_or row ''user_id'' []);
          session = none_if_empty (py_strip (text_or row ''session_id'' []))
      in if trace = [] \<or> user = [] then Inr x
         else if starts_with user SESSION_USER_PREFIX
           then Inr (upd_metrics (\<lambda>t. t\<lparr>mt_skipped_anonymous := mt_skipped_anonymous t + 1\<rparr>) x)
         else if \<not> dry_run \<and> extraction_is_completed trace (xs_store x)
           then Inr (upd_metrics (\<lambda>t. t\<lparr>mt_already_processed := mt_already_processed t + 1\<rparr>) x)
         else
           let agent = message_agent_id row
           in case fetch user of
                Inl e \<Rightarrow> Inl e
              | Inr snapshot \<Rightarrow>
                  if \<not> truthy (dget snapshot ''policy_available'')
                  then Inr (upd_metrics (\<lambda>t. t\<lparr>mt_skipped_policy_unavailable :=
                              mt_skipped_policy_unavailable t + 1\<rparr>) x)
                  else
                    case governance_from_runtime_context
                           (PDict [(''agent'', PDict [(''id'', opt_val agent),
                                                      (''visibility'', PStr ''private'')]),
                                   (''memory_governance'', PDict snapshot)]) agent of
                      Inl e \<Rightarrow> Inl e
                    | Inr g \<Rightarrow> Inr (extract_and_apply chat m settings dry_run auto_apply now row
                                     trace user session agent g x))"

fun process_messages ::
  "(pydict \<Rightarrow> 's extraction_state \<Rightarrow> 's extraction_state outcome) \<Rightarrow> pydict list \<Rightarrow>
   's extraction_state \<Rightarrow> 's extraction_state outcome" where
  "process_messages step [] x = Inr x"
| "process_messages step (row # rows) x =
     (case step row x of Inl e \<Rightarrow> Inl e | Inr x' \<Rightarrow> process_messages step rows x')"

section \<open>The job\<close>

text \<open>The result: whether the job was enabled, how many memories expired, and the final state.\<close>

definition run_memory_extraction ::
  "(string \<Rightarrow> pydict outcome) \<Rightarrow> (string \<Rightarrow> pydict outcome) \<Rightarrow> 's memory_service \<Rightarrow> memory_settings \<Rightarrow>
   int \<Rightarrow> pydict list \<Rightarrow> int \<Rightarrow> bool \<Rightarrow> bool \<Rightarrow> bool \<Rightarrow> 's \<Rightarrow> candidate_store \<Rightarrow>
   (bool \<times> nat \<times> 's extraction_state) outcome" where
  "run_memory_extraction chat fetch m settings now rows limit dry_run auto_apply force s st =
     (case svc_expire_due m s now None (max 100 (limit * 2)) of
        (expired, s1) \<Rightarrow>
          if \<not> se_extraction_enabled settings \<and> \<not> force
          then Inr (False, expired,
                    \<lparr>xs_mem = s1, xs_store = st, xs_metrics = zero_metrics, xs_items = []\<rparr>)
          else
            let messages = load_user_messages rows limit
            in case process_messages (process_message chat fetch m settings dry_run auto_apply now)
                      messages
                      \<lparr>xs_mem = s1, xs_store = st,
                       xs_metrics = zero_metrics\<lparr>mt_scanned := length messages\<rparr>, xs_items = []\<rparr> of
                 Inl e \<Rightarrow> Inl e
               | Inr x \<Rightarrow> Inr (True, expired, x))"

section \<open>Candidates are valid and bounded\<close>

lemma py_len_rev: "py_len (rev s) = py_len s"
  by (simp add: py_len_def rev_filter [symmetric])

lemma py_len_dropWhile: "py_len (dropWhile P s) \<le> py_len s"
  by (induction s) (auto simp: py_len_def)

lemma py_len_strip: "py_len (py_strip s) \<le> py_len s"
  unfolding py_strip_def py_len_rev
  using py_len_dropWhile [of is_space "rev (dropWhile is_space s)"] py_len_dropWhile [of is_space s]
  by (simp add: py_len_rev)

lemma MemoryCandidate_fields:
  assumes "MemoryCandidate c = Inr d"
  shows "c_key d = py_strip (c_key c)" "c_value d = map_option py_strip (c_value c)"
    "c_namespace d = py_strip (c_namespace c)" "c_source_agent_id d = c_source_agent_id c"
    "c_source_session_id d = c_source_session_id c" "c_source_trace_id d = c_source_trace_id c"
    "c_candidate_id d = c_candidate_id c"
  using assms by (auto simp: MemoryCandidate_def Let_def split: if_splits)

lemma parse_candidate_valid:
  assumes "parse_memory_candidate raw agent session trace = Some c"
  shows "wf_candidate c" "c_namespace c \<in> set extraction_namespaces" "py_len (c_key c) \<le> 100"
    "\<forall>v. c_value c = Some v \<longrightarrow> py_len v \<le> 800" "c_candidate_id c = None"
    "c_source_agent_id c = agent" "c_source_session_id c = session" "c_source_trace_id c = trace"
proof -
  obtain b where mk: "MemoryCandidate b = Inr c"
    and b: "c_namespace b = py_strip (text_or raw ''namespace'' [])"
      "py_strip (text_or raw ''namespace'' []) \<in> set extraction_namespaces"
      "c_key b = py_take 100 (py_strip (text_or raw ''key'' []))"
      "c_value b = (if dget raw ''value'' = PNone then None
         else Some (py_take 800 (py_strip (py_str (dget raw ''value'')))))"
      "c_candidate_id b = None" "c_source_agent_id b = agent" "c_source_session_id b = session"
      "c_source_trace_id b = trace"
    using assms
    by (auto simp: parse_memory_candidate_def Let_def split: if_splits option.splits sum.splits)
  note f = MemoryCandidate_fields [OF mk]
  show "wf_candidate c" using mk by (rule MemoryCandidate_wf)
  show "c_namespace c \<in> set extraction_namespaces" using b f by simp
  have "py_len (py_take n t) \<le> n" for n t by (rule py_len_take)
  then have strip: "py_len (py_strip (py_take n t)) \<le> n" for n t
    using py_len_strip le_trans by blast
  show "py_len (c_key c) \<le> 100" using b f strip by simp
  show "\<forall>v. c_value c = Some v \<longrightarrow> py_len v \<le> 800" using b f strip by auto
  show "c_candidate_id c = None" "c_source_agent_id c = agent" "c_source_session_id c = session"
    "c_source_trace_id c = trace" using b f by simp_all
qed

lemma length_map_filter: "length (List.map_filter f xs) \<le> length xs"
  by (induction xs) (simp_all add: map_filter_simps split: option.splits)

lemma extract_length:
  assumes "extract_memory_candidates chat msg agent session trace = Inr cs"
  shows "length cs \<le> 5"
proof -
  let ?f = "\<lambda>raw. case raw of PDict d \<Rightarrow> parse_memory_candidate d agent session trace | _ \<Rightarrow> None"
  consider "cs = []" | raws where "cs = List.map_filter ?f (take 5 raws)"
    using assms
    by (auto simp: extract_memory_candidates_def Let_def split: if_splits sum.splits pyval.splits)
  then show ?thesis
  proof cases
    case 2
    then show ?thesis using length_map_filter [of ?f "take 5 raws"] by simp
  qed simp
qed

text \<open>
  C37: Whatever the language model answers, \<open>extract_memory_candidates\<close> yields at most five candidates,
  and each is valid (operation, types and evidence known, confidence and importance in \<open>[0, 1]\<close>, an
  upsert has a value, a TTL lies in 1 to 365 days), in one of the three allowed namespaces, with a
  key of at most 100 and a value of at most 800 characters, attributed to the message it came from.
\<close>

theorem extracted_valid:
  assumes "extract_memory_candidates chat msg agent session trace = Inr cs"
  shows "length cs \<le> 5 \<and>
     (\<forall>c \<in> set cs. wf_candidate c \<and> c_namespace c \<in> set extraction_namespaces \<and>
        py_len (c_key c) \<le> 100 \<and> (\<forall>v. c_value c = Some v \<longrightarrow> py_len v \<le> 800) \<and>
        c_source_agent_id c = agent \<and> c_source_session_id c = session \<and> c_source_trace_id c = trace)"
proof -
  let ?f = "\<lambda>raw. case raw of PDict d \<Rightarrow> parse_memory_candidate d agent session trace | _ \<Rightarrow> None"
  have valid: "wf_candidate c \<and> c_namespace c \<in> set extraction_namespaces \<and>
      py_len (c_key c) \<le> 100 \<and> (\<forall>v. c_value c = Some v \<longrightarrow> py_len v \<le> 800) \<and>
      c_source_agent_id c = agent \<and> c_source_session_id c = session \<and> c_source_trace_id c = trace"
    if f: "?f raw = Some c" for raw c
  proof -
    obtain d where "parse_memory_candidate d agent session trace = Some c"
      using f by (cases raw) auto
    from parse_candidate_valid [OF this] show ?thesis by simp
  qed
  consider "cs = []" | raws where "cs = List.map_filter ?f (take 5 raws)"
    using assms
    by (auto simp: extract_memory_candidates_def Let_def split: if_splits sum.splits pyval.splits)
  then show ?thesis
  proof cases
    case 1
    then show ?thesis by simp
  next
    case 2
    note extract_length [OF assms]
    moreover have "\<exists>raw. ?f raw = Some c" if "c \<in> set cs" for c
      using that 2 by (auto simp: map_filter_def)
    ultimately show ?thesis using valid by blast
  qed
qed

definition sample_answer :: pydict where
  "sample_answer =
     [(''candidates'', PList
         [PDict [(''operation'', PStr '' upsert''), (''namespace'', PStr ''profile''),
                 (''key'', PStr ''city''), (''value'', PStr '' Oslo ''),
                 (''evidence_type'', PStr ''explicit_fact''), (''confidence'', PFloat 2)]])]"

lemma extracted_valid_witness:
  "\<exists>c. extract_memory_candidates (\<lambda>_. Inr sample_answer) ''I live in Oslo'' None None (Some ''t1'') = Inr [c] \<and>
     wf_candidate c \<and> c_value c = Some ''Oslo'' \<and> c_source_trace_id c = Some ''t1''"
proof -
  have ns: "''profile'' \<in> set extraction_namespaces" "py_strip ''profile'' = ''profile''"
    by (simp_all add: extraction_namespaces_def py_strip_def is_space_def)
  have "\<exists>c. extract_memory_candidates (\<lambda>_. Inr sample_answer) ''I live in Oslo'' None None (Some ''t1'') =
      Inr [c] \<and> c_value c = Some ''Oslo''"
    by (simp add: extract_memory_candidates_def sample_answer_def Let_def py_strip_def is_space_def
        map_filter_simps parse_memory_candidate_def text_or_def py_or_def ns extraction_namespaces_def
        parse_ttl_def MemoryCandidate_def candidate_operations_def candidate_memory_types_def
        evidence_types_def py_lower_def lower_char_def clamp01_def is_cont_byte_def)
  then obtain c where c: "extract_memory_candidates (\<lambda>_. Inr sample_answer) ''I live in Oslo'' None None
      (Some ''t1'') = Inr [c]" "c_value c = Some ''Oslo''" by blast
  show ?thesis using c extracted_valid [OF c(1)] by auto
qed

section \<open>Invariants of the job\<close>

text \<open>A relation between the state before and after each candidate carries over to the whole job.\<close>

lemma process_candidates_rel:
  assumes "\<And>x. R x x" "\<And>x y z. R x y \<Longrightarrow> R y z \<Longrightarrow> R x z"
    and "\<And>c x e y. c \<in> set cs \<Longrightarrow> step c x = (e, y) \<Longrightarrow> R x y"
    and "process_candidates step cs x = (e, y)"
  shows "R x y"
  using assms(3,4)
proof (induction cs arbitrary: x)
  case Nil
  then show ?case using assms(1) by simp
next
  case (Cons c cs)
  obtain e1 x1 where st: "step c x = (e1, x1)" by (cases "step c x")
  then have "R x x1" using Cons.prems(1) [of c x e1 x1] by simp
  moreover have "R x1 y" if "e1 = None"
    using that st Cons.prems by (intro Cons.IH) auto
  moreover have "y = x1" if "e1 \<noteq> None" using that st Cons.prems(2) by auto
  ultimately show ?case using assms(2) by blast
qed

lemma process_messages_rel:
  assumes "\<And>x. R x x" "\<And>x y z. R x y \<Longrightarrow> R y z \<Longrightarrow> R x z"
    and "\<And>row x y. step row x = Inr y \<Longrightarrow> R x y"
    and "process_messages step rows x = Inr y"
  shows "R x y"
  using assms(4)
proof (induction rows arbitrary: x)
  case Nil
  then show ?case using assms(1) by simp
next
  case (Cons row rows)
  then obtain x1 where "step row x = Inr x1" "process_messages step rows x1 = Inr y"
    by (auto split: sum.splits)
  then show ?case using assms(2,3) Cons.IH by blast
qed

definition skip_metrics :: "(extraction_metrics \<Rightarrow> extraction_metrics) set" where
  "skip_metrics =
     {id, \<lambda>t. t\<lparr>mt_skipped_anonymous := mt_skipped_anonymous t + 1\<rparr>,
      \<lambda>t. t\<lparr>mt_already_processed := mt_already_processed t + 1\<rparr>,
      \<lambda>t. t\<lparr>mt_skipped_policy_unavailable := mt_skipped_policy_unavailable t + 1\<rparr>}"

lemma skip_metrics_intros:
  "id \<in> skip_metrics"
  "(\<lambda>t. t\<lparr>mt_skipped_anonymous := mt_skipped_anonymous t + 1\<rparr>) \<in> skip_metrics"
  "(\<lambda>t. t\<lparr>mt_already_processed := mt_already_processed t + 1\<rparr>) \<in> skip_metrics"
  "(\<lambda>t. t\<lparr>mt_skipped_policy_unavailable := mt_skipped_policy_unavailable t + 1\<rparr>) \<in> skip_metrics"
  by (simp_all add: skip_metrics_def)

lemma process_message_cases:
  assumes step: "process_message chat fetch m settings dry_run auto_apply now row x = Inr y"
  obtains (skip) f where "f \<in> skip_metrics" "y = upd_metrics f x"
    | (run) trace user session agent g where
        "y = extract_and_apply chat m settings dry_run auto_apply now row trace user session agent g x"
        "dry_run \<or> \<not> extraction_is_completed trace (xs_store x)"
proof -
  let ?trace = "py_strip (text_or row ''trace_id'' [])"
  let ?user = "py_strip (text_or row ''user_id'' [])"
  consider (blank) "?trace = [] \<or> ?user = []"
    | (anon) "\<not> (?trace = [] \<or> ?user = [])" "starts_with ?user SESSION_USER_PREFIX"
    | (seen) "\<not> (?trace = [] \<or> ?user = [])" "\<not> starts_with ?user SESSION_USER_PREFIX"
        "\<not> dry_run \<and> extraction_is_completed ?trace (xs_store x)"
    | (fresh) "\<not> (?trace = [] \<or> ?user = [])" "\<not> starts_with ?user SESSION_USER_PREFIX"
        "\<not> (\<not> dry_run \<and> extraction_is_completed ?trace (xs_store x))"
    by blast
  then show ?thesis
  proof cases
    case blank
    then show ?thesis using step
      by (intro skip [OF skip_metrics_intros(1)]) (simp add: process_message_def Let_def)
  next
    case anon
    then show ?thesis using step
      by (intro skip [OF skip_metrics_intros(2)]) (simp add: process_message_def Let_def)
  next
    case seen
    then show ?thesis using step
      by (intro skip [OF skip_metrics_intros(3)]) (simp add: process_message_def Let_def)
  next
    case fresh
    note res = step [unfolded process_message_def Let_def if_not_P [OF fresh(1)]
        if_not_P [OF fresh(2)] if_not_P [OF fresh(3)]]
    from res obtain snapshot where snap: "fetch ?user = Inr snapshot" by (auto split: sum.splits)
    show ?thesis
    proof (cases "truthy (dget snapshot ''policy_available'')")
      case False
      then show ?thesis using res snap by (intro skip [OF skip_metrics_intros(4)]) simp
    next
      case True
      then obtain g where "y = extract_and_apply chat m settings dry_run auto_apply now row ?trace ?user
          (none_if_empty (py_strip (text_or row ''session_id'' []))) (message_agent_id row) g x"
        using res snap by (auto split: sum.splits)
      then show ?thesis using fresh(3) by (intro run) auto
    qed
  qed
qed

text \<open>What one candidate does to the metrics, the items and the queue.\<close>

lemma process_candidate_store:
  assumes "process_candidate m settings dry_run auto_apply now trace user session agent g c x = (e, y)"
  shows "dry_run \<Longrightarrow> xs_store y = xs_store x"
    and "cs_extractions (xs_store y) = cs_extractions (xs_store x)"
proof -
  have ext: "cs_extractions (mark_decision now sc c d st) = cs_extractions st" for sc c d st
    by (simp add: mark_decision_def Let_def split: option.split)
  have dec: "cs_extractions st' = cs_extractions st"
    if "candidate_decision m s now sc g c settings (Some st) auto_apply = Inr (d, s', Some st')"
    for sc c st d s s' st'
    using that
    by (auto simp: candidate_decision_def resolve_memory_candidate_def Let_def store_decision_def ext
        split: if_splits sum.splits prod.splits)
  have some: "st' \<noteq> None"
    if "candidate_decision m s now sc g c settings (Some st) auto_apply = Inr (d, s', st')"
    for sc c st d s s' st'
    using that
    by (auto simp: candidate_decision_def resolve_memory_candidate_def Let_def store_decision_def
        split: if_splits sum.splits prod.splits)
  have none: "st' = None"
    if "candidate_decision m s now sc g c settings None auto_apply = Inr (d, s', st')"
    for sc c d s s' st'
    using that
    by (auto simp: candidate_decision_def resolve_memory_candidate_def Let_def store_decision_def
        split: if_splits sum.splits prod.splits)
  have enq: "cs_extractions st' = cs_extractions st" if "enqueue sc c p st = Inr (q, st')" for sc c p st q st'
    using that by (auto simp: enqueue_def Let_def split: option.splits)
  show "dry_run \<Longrightarrow> xs_store y = xs_store x"
    using assms
    by (auto simp: process_candidate_def queue_candidate_def
        split: sum.splits prod.splits option.splits dest: none)
  show "cs_extractions (xs_store y) = cs_extractions (xs_store x)"
    using assms dec some none enq
    by (fastforce simp: process_candidate_def queue_candidate_def
        split: sum.splits prod.splits option.splits if_splits)
qed

subsection \<open>Completed messages and dry runs\<close>

definition extraction_row_of :: "string \<Rightarrow> candidate_store \<Rightarrow> extraction_row option" where
  "extraction_row_of trace st = find (\<lambda>r. x_trace_id r = trace) (cs_extractions st)"

lemma completed_iff:
  "extraction_is_completed trace st \<longleftrightarrow>
     (\<exists>r. extraction_row_of trace st = Some r \<and> x_status r = ''completed'')"
  by (simp add: extraction_is_completed_def extraction_row_of_def split: option.split)

lemma find_map_other:
  "(\<And>r. x_trace_id (f r) = x_trace_id r) \<Longrightarrow> t \<noteq> trace \<Longrightarrow>
   find (\<lambda>r. x_trace_id r = t) (map (\<lambda>r. if x_trace_id r = trace then f r else r) rows) =
     find (\<lambda>r. x_trace_id r = t) rows"
  by (induction rows) auto

lemma find_append_other: "\<not> P r \<Longrightarrow> find P (rows @ [r]) = find P rows"
  by (induction rows) auto

lemma record_extraction_other:
  "t \<noteq> trace \<Longrightarrow>
     extraction_row_of t (record_extraction now trace u se a status n model err st) =
     extraction_row_of t st"
  by (simp add: extraction_row_of_def record_extraction_def find_map_other find_append_other)

lemma record_extraction_status:
  "\<exists>r. extraction_row_of trace (record_extraction now trace u se a status n model err st) = Some r \<and>
     x_status r = status"
proof -
  have upd: "\<exists>r. find (\<lambda>r. x_trace_id r = trace) (map (\<lambda>r. if x_trace_id r = trace then f r else r) rows) =
      Some r \<and> x_status r = status"
    if "\<exists>r \<in> set rows. x_trace_id r = trace"
      "\<And>r. x_trace_id (f r) = x_trace_id r \<and> x_status (f r) = status" for f rows
    using that by (induction rows) auto
  have app: "find (\<lambda>r. x_trace_id r = trace) (rows @ [r]) = Some r"
    if "\<not> (\<exists>r \<in> set rows. x_trace_id r = trace)" "x_trace_id r = trace" for rows r
    using that by (induction rows) auto
  show ?thesis
    unfolding extraction_row_of_def record_extraction_def
    by (cases "\<exists>x \<in> set (cs_extractions st). x_trace_id x = trace") (simp_all add: upd app)
qed

definition keeps_completed :: "'s extraction_state \<Rightarrow> 's extraction_state \<Rightarrow> bool" where
  "keeps_completed x y \<longleftrightarrow>
     (\<forall>t. extraction_is_completed t (xs_store x) \<longrightarrow>
        extraction_row_of t (xs_store y) = extraction_row_of t (xs_store x))"

lemma keeps_completed_trans: "keeps_completed x y \<Longrightarrow> keeps_completed y z \<Longrightarrow> keeps_completed x z"
  by (simp add: keeps_completed_def completed_iff)

lemma process_candidates_store:
  assumes "process_candidates (process_candidate m settings dry_run auto_apply now trace user session agent g)
      cs x = (e, y)"
  shows "dry_run \<Longrightarrow> xs_store y = xs_store x"
    and "cs_extractions (xs_store y) = cs_extractions (xs_store x)"
proof -
  show "xs_store y = xs_store x" if "dry_run"
    by (rule process_candidates_rel [where R = "\<lambda>x y. xs_store y = xs_store x", OF _ _ _ assms])
      (auto dest: process_candidate_store(1) [OF _ that])
  show "cs_extractions (xs_store y) = cs_extractions (xs_store x)"
    by (rule process_candidates_rel [where R = "\<lambda>x y. cs_extractions (xs_store y) = cs_extractions (xs_store x)",
          OF _ _ _ assms])
      (auto dest: process_candidate_store(2))
qed

text \<open>The queue after a message: what its candidates did, then one extraction record.\<close>

lemma extract_and_apply_shape:
  fixes x :: "'s extraction_state"
  assumes "y = extract_and_apply chat m settings dry_run auto_apply now row trace user session agent g x"
  obtains z :: "'s extraction_state" and status n err where
    "dry_run \<longrightarrow> xs_store z = xs_store x" "cs_extractions (xs_store z) = cs_extractions (xs_store x)"
    "xs_store y = (if dry_run then xs_store z
       else record_extraction now trace user session agent status n (se_chat_model settings) err (xs_store z))"
    "xs_mem y = xs_mem z" "xs_items y = xs_items z" "status \<in> {''completed'', ''failed''}"
proof (cases "extract_memory_candidates chat (text_or row ''content'' []) agent session (Some trace)")
  case (Inl e)
  then show ?thesis
    using assms
    by (intro that [of x "''failed''" 0 "Some (py_take 2000 (error_text e))"])
      (simp_all add: extract_and_apply_def Let_def extraction_failed_def)
next
  case (Inr cs)
  let ?y = "upd_metrics (\<lambda>t. t\<lparr>mt_processed := mt_processed t + 1,
      mt_candidates := mt_candidates t + length cs\<rparr>) x"
  obtain e z where z: "process_candidates
      (process_candidate m settings dry_run auto_apply now trace user session agent g) cs ?y = (e, z)"
    by (cases "process_candidates
      (process_candidate m settings dry_run auto_apply now trace user session agent g) cs ?y")
  have store: "dry_run \<longrightarrow> xs_store z = xs_store x"
    "cs_extractions (xs_store z) = cs_extractions (xs_store x)"
    using process_candidates_store [OF z] by simp_all
  show ?thesis
  proof (cases e)
    case None
    then show ?thesis
      using assms Inr z store
      by (intro that [of z "''completed''" "length cs" None])
        (simp_all add: extract_and_apply_def Let_def extraction_completed_def)
  next
    case (Some err)
    then show ?thesis
      using assms Inr z store
      by (intro that [of z "''failed''" 0 "Some (py_take 2000 (error_text err))"])
        (simp_all add: extract_and_apply_def Let_def extraction_failed_def)
  qed
qed

lemma extract_and_apply_store:
  fixes x :: "'s extraction_state"
  assumes "y = extract_and_apply chat m settings dry_run auto_apply now row trace user session agent g x"
  shows "dry_run \<longrightarrow> xs_store y = xs_store x"
    and "dry_run \<or> \<not> extraction_is_completed trace (xs_store x) \<Longrightarrow> keeps_completed x y"
proof -
  from assms obtain z :: "'s extraction_state" and status n err where z: "dry_run \<longrightarrow> xs_store z = xs_store x"
    "cs_extractions (xs_store z) = cs_extractions (xs_store x)"
    "xs_store y = (if dry_run then xs_store z
       else record_extraction now trace user session agent status n (se_chat_model settings) err (xs_store z))"
    by (rule extract_and_apply_shape) blast
  show dry: "dry_run \<longrightarrow> xs_store y = xs_store x" using z by simp
  have other: "extraction_row_of t (xs_store y) = extraction_row_of t (xs_store x)" if "t \<noteq> trace" for t
    using z record_extraction_other [OF that] by (simp add: extraction_row_of_def)
  show "keeps_completed x y" if "dry_run \<or> \<not> extraction_is_completed trace (xs_store x)"
  proof (cases dry_run)
    case True
    then show ?thesis using dry by (simp add: keeps_completed_def)
  next
    case False
    then show ?thesis using other that unfolding keeps_completed_def by metis
  qed
qed

lemma process_message_store:
  assumes "process_message chat fetch m settings dry_run auto_apply now row x = Inr y"
  shows "dry_run \<Longrightarrow> xs_store y = xs_store x" and "keeps_completed x y"
proof -
  show "xs_store y = xs_store x" if "dry_run"
    using assms
  proof (cases rule: process_message_cases)
    case (run trace user session agent g)
    show ?thesis using extract_and_apply_store(1) [OF run(1)] that by (rule mp)
  qed simp
  show "keeps_completed x y"
    using assms
  proof (cases rule: process_message_cases)
    case skip
    then show ?thesis by (simp add: keeps_completed_def)
  next
    case (run trace user session agent g)
    show ?thesis by (rule extract_and_apply_store(2) [OF run])
  qed
qed

text \<open>The extraction job treats a message once: a message whose extraction is \<open>completed\<close> keeps exactly
  that row (status, counts, attempts, times) through any later run, and a dry run leaves the whole
  candidate queue, its events and the extraction log as they were.
\<close>

theorem job_keeps_queue:
  assumes "run_memory_extraction chat fetch m settings now rows limit dry_run auto_apply force s st =
      Inr (enabled, expired, x)"
  shows "(dry_run \<longrightarrow> xs_store x = st) \<and>
     (\<forall>t. extraction_is_completed t st \<longrightarrow>
        extraction_row_of t (xs_store x) = extraction_row_of t st \<and>
        extraction_is_completed t (xs_store x))"
proof -
  obtain n s1 where exp: "svc_expire_due m s now None (max 100 (limit * 2)) = (n, s1)"
    by (cases "svc_expire_due m s now None (max 100 (limit * 2))")
  let ?step = "process_message chat fetch m settings dry_run auto_apply now"
  let ?x0 = "\<lparr>xs_mem = s1, xs_store = st,
    xs_metrics = zero_metrics\<lparr>mt_scanned := length (load_user_messages rows limit)\<rparr>, xs_items = []\<rparr>"
  consider "xs_store x = st" | "process_messages ?step (load_user_messages rows limit) ?x0 = Inr x"
    using assms exp by (auto simp: run_memory_extraction_def Let_def split: if_splits sum.splits)
  then show ?thesis
  proof cases
    case 1
    then show ?thesis by simp
  next
    case 2
    have dry: "xs_store x = xs_store ?x0" if "dry_run"
      by (rule process_messages_rel [where R = "\<lambda>x y. xs_store y = xs_store x", OF _ _ _ 2])
        (auto dest: process_message_store(1) [OF _ that])
    have "keeps_completed ?x0 x"
      by (rule process_messages_rel [where R = keeps_completed, OF _ _ _ 2])
        (auto intro: keeps_completed_trans process_message_store(2) simp: keeps_completed_def [of x x for x])
    then show ?thesis using dry by (simp add: keeps_completed_def completed_iff)
  qed
qed

definition sample_settings :: memory_settings where
  "sample_settings =
     \<lparr>se_extraction_enabled = True, se_auto_apply_threshold = 9 / 10,
      se_forget_threshold = 95 / 100, se_chat_model = ''m''\<rparr>"

definition done_store :: candidate_store where
  "done_store = extraction_completed 5 ''t1'' ''u1'' None None 1 ''m'' empty_store"

lemma job_keeps_queue_witness:
  "\<exists>r. run_memory_extraction (\<lambda>_. Inr sample_answer) (\<lambda>_. Inr []) pg_service sample_settings 10
       [[(''role'', PStr ''user''), (''content'', PStr ''hi''), (''trace_id'', PStr ''t1''),
         (''user_id'', PStr ''u1'')]] 5 False True False empty_db done_store = Inr r \<and>
     extraction_is_completed ''t1'' (xs_store (snd (snd r)))"
proof -
  let ?rows = "[[(''role'', PStr ''user''), (''content'', PStr ''hi''), (''trace_id'', PStr ''t1''),
    (''user_id'', PStr ''u1'')]]"
  have completed: "extraction_is_completed ''t1'' done_store"
    by (simp add: done_store_def extraction_completed_def record_extraction_def empty_store_def
        extraction_is_completed_def)
  have msgs: "load_user_messages ?rows 5 = ?rows" by (simp add: load_user_messages_def py_upto_def)
  have texts: "py_strip (text_or (hd ?rows) ''trace_id'' []) = ''t1''"
    "py_strip (text_or (hd ?rows) ''user_id'' []) = ''u1''"
    by (simp_all add: text_or_def py_or_def py_strip_def is_space_def)
  have "process_message (\<lambda>_. Inr sample_answer) (\<lambda>_. Inr []) pg_service sample_settings False True 10
      (hd ?rows) x = Inr (upd_metrics (\<lambda>t. t\<lparr>mt_already_processed := mt_already_processed t + 1\<rparr>) x)"
    if "xs_store x = done_store" for x :: "memory_db extraction_state"
    unfolding process_message_def Let_def texts
    by (simp add: that completed SESSION_USER_PREFIX_def starts_with_def)
  then have "\<exists>r. run_memory_extraction (\<lambda>_. Inr sample_answer) (\<lambda>_. Inr []) pg_service sample_settings 10
      ?rows 5 False True False empty_db done_store = Inr r"
    unfolding run_memory_extraction_def Let_def msgs
    by (auto simp: sample_settings_def split: prod.split)
  then obtain en n x where run: "run_memory_extraction (\<lambda>_. Inr sample_answer) (\<lambda>_. Inr []) pg_service
      sample_settings 10 ?rows 5 False True False empty_db done_store = Inr (en, n, x)" by auto
  then show ?thesis using job_keeps_queue [OF run] completed by auto
qed

subsection \<open>Accounting\<close>

definition decided :: "extraction_metrics \<Rightarrow> nat" where
  "decided t = mt_applied t + mt_needs_review t + mt_rejected t + mt_skipped t"

lemma decided_count: "decided (count_decision s t) = Suc (decided t)"
  by (simp add: decided_def count_decision_def)

definition same_messages :: "extraction_metrics \<Rightarrow> extraction_metrics \<Rightarrow> bool" where
  "same_messages t u \<longleftrightarrow>
     mt_scanned u = mt_scanned t \<and> mt_processed u = mt_processed t \<and>
     mt_already_processed u = mt_already_processed t \<and>
     mt_skipped_anonymous u = mt_skipped_anonymous t \<and>
     mt_skipped_policy_unavailable u = mt_skipped_policy_unavailable t \<and>
     mt_failed u = mt_failed t \<and> mt_candidates u = mt_candidates t"

lemma same_messages_count [simp]: "same_messages t (count_decision s t)"
  by (simp add: same_messages_def count_decision_def)

lemma process_candidate_metrics:
  assumes "process_candidate m settings dry_run auto_apply now trace user session agent g c x = (e, y)"
  shows "same_messages (xs_metrics x) (xs_metrics y)"
    and "decided (xs_metrics y) = decided (xs_metrics x) + (if e = None then 1 else 0)"
    and "length (xs_items y) = length (xs_items x) + (if e = None then 1 else 0)"
  using assms
  by (auto simp: process_candidate_def decided_count same_messages_def [of t t for t]
      split: sum.splits prod.splits)

lemma process_candidates_metrics:
  assumes "process_candidates (process_candidate m settings dry_run auto_apply now trace user session agent g)
      cs x = (e, y)"
  shows "same_messages (xs_metrics x) (xs_metrics y)"
    and "\<exists>n \<le> length cs. decided (xs_metrics y) = decided (xs_metrics x) + n \<and>
      length (xs_items y) = length (xs_items x) + n \<and> (e = None \<longrightarrow> n = length cs)"
proof -
  let ?step = "process_candidate m settings dry_run auto_apply now trace user session agent g"
  have "same_messages (xs_metrics x) (xs_metrics y) \<and>
      (\<exists>n \<le> length cs. decided (xs_metrics y) = decided (xs_metrics x) + n \<and>
        length (xs_items y) = length (xs_items x) + n \<and> (e = None \<longrightarrow> n = length cs))"
    using assms
  proof (induction cs arbitrary: x)
    case Nil
    then show ?case by (simp add: same_messages_def)
  next
    case (Cons c cs)
    obtain e1 x1 where st: "?step c x = (e1, x1)" by (cases "?step c x")
    note one = process_candidate_metrics [OF st]
    show ?case
    proof (cases e1)
      case (Some err)
      then have "e = Some err" "y = x1" using st Cons.prems by simp_all
      with one Some show ?thesis by (intro conjI exI [of _ 0]) simp_all
    next
      case None
      then have "process_candidates ?step cs x1 = (e, y)" using st Cons.prems by simp
      from Cons.IH [OF this] obtain n where "n \<le> length cs" "same_messages (xs_metrics x1) (xs_metrics y)"
        "decided (xs_metrics y) = decided (xs_metrics x1) + n"
        "length (xs_items y) = length (xs_items x1) + n" "e = None \<longrightarrow> n = length cs" by blast
      with one None show ?thesis
        by (intro conjI exI [of _ "Suc n"]) (auto simp: same_messages_def)
    qed
  qed
  then show "same_messages (xs_metrics x) (xs_metrics y)"
    "\<exists>n \<le> length cs. decided (xs_metrics y) = decided (xs_metrics x) + n \<and>
      length (xs_items y) = length (xs_items x) + n \<and> (e = None \<longrightarrow> n = length cs)"
    by blast+
qed

text \<open>The invariant after \<open>k\<close> of the scanned messages.\<close>

definition accounted :: "nat \<Rightarrow> 's extraction_state \<Rightarrow> bool" where
  "accounted k x \<longleftrightarrow>
     (let t = xs_metrics x
      in decided t = length (xs_items x) \<and> decided t \<le> mt_candidates t \<and>
         mt_candidates t \<le> 5 * mt_processed t \<and> mt_failed t \<le> k \<and>
         mt_processed t + mt_already_processed t + mt_skipped_anonymous t +
           mt_skipped_policy_unavailable t \<le> k \<and>
         (mt_failed t = 0 \<longrightarrow> decided t = mt_candidates t))"

lemma accounted_extract:
  assumes "accounted k x"
    and "y = extract_and_apply chat m settings dry_run auto_apply now row trace user session agent g x"
  shows "accounted (Suc k) y \<and> mt_scanned (xs_metrics y) = mt_scanned (xs_metrics x)"
proof (cases "extract_memory_candidates chat (text_or row ''content'' []) agent session (Some trace)")
  case (Inl e)
  then have "xs_items y = xs_items x"
    "xs_metrics y = (xs_metrics x)\<lparr>mt_failed := mt_failed (xs_metrics x) + 1\<rparr>"
    using assms(2) by (simp_all add: extract_and_apply_def Let_def)
  with assms(1) show ?thesis by (auto simp: accounted_def Let_def decided_def)
next
  case (Inr cs)
  have five: "length cs \<le> 5" using extract_length [OF Inr] .
  let ?y = "upd_metrics (\<lambda>t. t\<lparr>mt_processed := mt_processed t + 1,
      mt_candidates := mt_candidates t + length cs\<rparr>) x"
  obtain e z where z: "process_candidates
      (process_candidate m settings dry_run auto_apply now trace user session agent g) cs ?y = (e, z)"
    by (cases "process_candidates
      (process_candidate m settings dry_run auto_apply now trace user session agent g) cs ?y")
  obtain n where n: "n \<le> length cs" "decided (xs_metrics z) = decided (xs_metrics ?y) + n"
    "length (xs_items z) = length (xs_items ?y) + n" "e = None \<longrightarrow> n = length cs"
    using process_candidates_metrics(2) [OF z] by blast
  note same = process_candidates_metrics(1) [OF z]
  have dec: "decided (xs_metrics ?y) = decided (xs_metrics x)" by (simp add: decided_def)
  have y: "xs_items y = xs_items z"
    "xs_metrics y = (if e = None then xs_metrics z
       else (xs_metrics z)\<lparr>mt_failed := mt_failed (xs_metrics z) + 1\<rparr>)"
    using assms(2) Inr z by (auto simp: extract_and_apply_def Let_def split: option.splits)
  have "decided (xs_metrics y) = decided (xs_metrics z)" by (simp add: y(2) decided_def)
  then show ?thesis
    using assms(1) five n dec y same
    by (cases e) (auto simp: accounted_def Let_def same_messages_def)
qed

lemma accounted_message:
  assumes "process_message chat fetch m settings dry_run auto_apply now row x = Inr y" "accounted k x"
  shows "accounted (Suc k) y \<and> mt_scanned (xs_metrics y) = mt_scanned (xs_metrics x)"
  using assms(1)
proof (cases rule: process_message_cases)
  case (skip f)
  then show ?thesis
    using assms(2) by (auto simp: skip_metrics_def accounted_def Let_def decided_def)
next
  case (run trace user session agent g)
  show ?thesis by (rule accounted_extract [OF assms(2) run(1)])
qed

lemma accounted_messages:
  assumes "process_messages (process_message chat fetch m settings dry_run auto_apply now) rows x = Inr y"
    and "accounted k x"
  shows "accounted (k + length rows) y \<and> mt_scanned (xs_metrics y) = mt_scanned (xs_metrics x)"
  using assms
proof (induction rows arbitrary: x k)
  case Nil
  then show ?case by simp
next
  case (Cons row rows)
  then obtain x1 where st: "process_message chat fetch m settings dry_run auto_apply now row x = Inr x1"
    and rest: "process_messages (process_message chat fetch m settings dry_run auto_apply now) rows x1 = Inr y"
    by (auto split: sum.splits)
  from accounted_message [OF st Cons.prems(2)] Cons.IH [OF rest, of "Suc k"] show ?case by simp
qed

text \<open>The job's report adds up: the decisions (applied, needs review, rejected, skipped) are as many as
  the reported items and at most the candidates, five candidates at most come from a processed
  message, the messages processed, skipped and failed are among those scanned, and without a
  failed message every candidate has its decision.
\<close>

theorem job_accounting:
  assumes "run_memory_extraction chat fetch m settings now rows limit dry_run auto_apply force s st =
      Inr (True, expired, x)"
  shows "let t = xs_metrics x in
     mt_applied t + mt_needs_review t + mt_rejected t + mt_skipped t = length (xs_items x) \<and>
     length (xs_items x) \<le> mt_candidates t \<and> mt_candidates t \<le> 5 * mt_processed t \<and>
     mt_processed t + mt_already_processed t + mt_skipped_anonymous t +
       mt_skipped_policy_unavailable t \<le> mt_scanned t \<and>
     mt_failed t \<le> mt_scanned t \<and> mt_scanned t = length (load_user_messages rows limit) \<and>
     (mt_failed t = 0 \<longrightarrow> length (xs_items x) = mt_candidates t)"
proof -
  obtain n s1 where exp: "svc_expire_due m s now None (max 100 (limit * 2)) = (n, s1)"
    by (cases "svc_expire_due m s now None (max 100 (limit * 2))")
  let ?msgs = "load_user_messages rows limit"
  let ?x0 = "\<lparr>xs_mem = s1, xs_store = st, xs_metrics = zero_metrics\<lparr>mt_scanned := length ?msgs\<rparr>,
    xs_items = []\<rparr>"
  have run: "process_messages (process_message chat fetch m settings dry_run auto_apply now) ?msgs ?x0 = Inr x"
    using assms exp by (auto simp: run_memory_extraction_def Let_def split: if_splits sum.splits)
  have "accounted 0 ?x0" by (simp add: accounted_def zero_metrics_def decided_def)
  from accounted_messages [OF run this] show ?thesis
    by (auto simp: accounted_def Let_def decided_def zero_metrics_def)
qed

lemma job_accounting_witness:
  "\<exists>n x. run_memory_extraction (\<lambda>_. Inr sample_answer) (\<lambda>_. Inr []) pg_service sample_settings 10
       [[(''role'', PStr ''assistant'')]] 5 False True False empty_db empty_store = Inr (True, n, x) \<and>
     mt_scanned (xs_metrics x) = 0 \<and> xs_items x = []"
proof -
  let ?rows = "[[(''role'', PStr ''assistant'')]]"
  have msgs: "load_user_messages ?rows 5 = []" by (simp add: load_user_messages_def py_upto_def)
  have "\<exists>n x. run_memory_extraction (\<lambda>_. Inr sample_answer) (\<lambda>_. Inr []) pg_service sample_settings 10
      ?rows 5 False True False empty_db empty_store = Inr (True, n, x)"
    unfolding run_memory_extraction_def Let_def msgs
    by (auto simp: sample_settings_def split: prod.split)
  then obtain n x where run: "run_memory_extraction (\<lambda>_. Inr sample_answer) (\<lambda>_. Inr []) pg_service
      sample_settings 10 ?rows 5 False True False empty_db empty_store = Inr (True, n, x)" by blast
  from job_accounting [OF run] have "mt_scanned (xs_metrics x) = 0" "xs_items x = []"
    by (auto simp: Let_def msgs)
  with run show ?thesis by blast
qed

subsection \<open>What switches off writing, and what does not\<close>

lemma process_candidate_review_only:
  assumes "process_candidate m settings dry_run False now trace user session agent g c x = (e, y)"
  shows "xs_mem y = xs_mem x"
  using assms by (auto simp: process_candidate_def candidate_decision_def Let_def split: sum.splits prod.splits)

lemma extract_and_apply_review_only:
  "xs_mem (extract_and_apply chat m settings dry_run False now row trace user session agent g x) = xs_mem x"
proof (cases "extract_memory_candidates chat (text_or row ''content'' []) agent session (Some trace)")
  case (Inl e)
  then show ?thesis by (simp add: extract_and_apply_def Let_def)
next
  case (Inr cs)
  let ?y = "upd_metrics (\<lambda>t. t\<lparr>mt_processed := mt_processed t + 1,
      mt_candidates := mt_candidates t + length cs\<rparr>) x"
  obtain e z where z: "process_candidates
      (process_candidate m settings dry_run False now trace user session agent g) cs ?y = (e, z)"
    by (cases "process_candidates
      (process_candidate m settings dry_run False now trace user session agent g) cs ?y")
  have "xs_mem z = xs_mem ?y"
    by (rule process_candidates_rel [where R = "\<lambda>x y. xs_mem y = xs_mem x", OF _ _ _ z])
      (auto dest: process_candidate_review_only)
  then show ?thesis using Inr z by (auto simp: extract_and_apply_def Let_def split: option.split)
qed

text \<open>With \<open>auto_apply\<close> off the job never writes a memory: apart from the expiry sweep it starts with,
  the provider's state is untouched, whatever the model extracts.
\<close>

theorem review_only_job:
  assumes "run_memory_extraction chat fetch m settings now rows limit dry_run False force s st =
      Inr (enabled, expired, x)"
  shows "svc_expire_due m s now None (max 100 (limit * 2)) = (expired, xs_mem x)"
proof -
  obtain n s1 where exp: "svc_expire_due m s now None (max 100 (limit * 2)) = (n, s1)"
    by (cases "svc_expire_due m s now None (max 100 (limit * 2))")
  let ?msgs = "load_user_messages rows limit"
  let ?x0 = "\<lparr>xs_mem = s1, xs_store = st, xs_metrics = zero_metrics\<lparr>mt_scanned := length ?msgs\<rparr>,
    xs_items = []\<rparr>"
  have n: "n = expired" using assms exp
    by (auto simp: run_memory_extraction_def Let_def split: if_splits sum.splits)
  consider "xs_mem x = s1"
    | "process_messages (process_message chat fetch m settings dry_run False now) ?msgs ?x0 = Inr x"
    using assms exp by (auto simp: run_memory_extraction_def Let_def split: if_splits sum.splits)
  then have "xs_mem x = s1"
  proof cases
    case 2
    have "xs_mem y = xs_mem z"
      if "process_message chat fetch m settings dry_run False now row z = Inr y" for row z y
      using that by (cases rule: process_message_cases) (simp_all add: extract_and_apply_review_only)
    then have "xs_mem x = xs_mem ?x0"
      by (intro process_messages_rel [where R = "\<lambda>x y. xs_mem y = xs_mem x", OF _ _ _ 2]) auto
    then show ?thesis by simp
  qed simp
  then show ?thesis using exp n by simp
qed

lemma review_only_job_witness:
  "\<exists>n x. run_memory_extraction (\<lambda>_. Inr sample_answer) (\<lambda>_. Inr []) pg_service sample_settings 10
       [] 5 False False False empty_db empty_store = Inr (True, n, x) \<and>
     svc_expire_due pg_service empty_db 10 None 100 = (n, xs_mem x)"
proof -
  have msgs: "load_user_messages [] 5 = []" by (simp add: load_user_messages_def py_upto_def)
  have "\<exists>n x. run_memory_extraction (\<lambda>_. Inr sample_answer) (\<lambda>_. Inr []) pg_service sample_settings 10
      [] 5 False False False empty_db empty_store = Inr (True, n, x)"
    unfolding run_memory_extraction_def Let_def msgs
    by (auto simp: sample_settings_def split: prod.split)
  then obtain n x where run: "run_memory_extraction (\<lambda>_. Inr sample_answer) (\<lambda>_. Inr []) pg_service
      sample_settings 10 [] 5 False False False empty_db empty_store = Inr (True, n, x)" by blast
  then show ?thesis using review_only_job [OF run] by auto
qed

text \<open>
  A dry run switches off the queue, not the provider: with \<open>auto_apply\<close> on, an applied candidate is
  written to the memory.
\<close>

lemma dry_run_still_writes:
  assumes "message_scope user session agent g c = Inr sc"
    and "resolve_memory_candidate m (xs_mem x) now sc g c (se_auto_apply_threshold settings)
           (se_forget_threshold settings) None = Inr (d, mem, None)"
  shows "xs_mem (snd (process_candidate m settings True True now trace user session agent g c x)) = mem"
  using assms by (simp add: process_candidate_def queue_candidate_def candidate_decision_def)

text \<open>
  A message without an agent whose candidate falls into an agent-private namespace fails as a whole:
  the job builds the scope before resolution could reject that one candidate
  (\<open>agent_private_memory_requires_agent_id\<close>), and \<open>MemoryScope\<close> raises.
\<close>

lemma agentless_private_candidate_fails:
  assumes "write_scope_for g (c_namespace c) = ''user_agent''" "py_strip user \<noteq> []"
  shows "process_candidate m settings dry_run auto_apply now trace user session None g c x =
     (Some (ValueError ''user_agent memory requires agent_id''), x)"
  using assms by (simp add: process_candidate_def message_scope_def MemoryScope_def Let_def memory_scopes_def)

end
