(* ===== verification/Runtime_Scope.thy ===== *)
theory Runtime_Scope
  imports Prelude
begin

text \<open>
  Tool scopes and the algebra of permissions (\<open>runtime_context.py\<close>, and the same functions in the
  control plane's \<open>authz.py\<close>): \<open>normalize_scope\<close>, \<open>merge_tool_scopes\<close>, \<open>scope_is_subset\<close> and
  \<open>effective_tools\<close>. A scope is a dictionary from scope keys to lists of texts; what it means is
  the set of values of each key (\<open>scope_values\<close>), and the operations are shown to act on that
  meaning alone. Error messages are English glosses of the Chinese ones, the status codes are kept.
\<close>

datatype ctx_error =
    RuntimeContextError string int
  | KeyError string
  | PyTypeError string

type_synonym 'a ctx = "ctx_error + 'a"

type_synonym scope = "(string \<times> string list) list"

definition scope_val :: "scope \<Rightarrow> pyval" where
  "scope_val s = PDict (map (\<lambda>(k, vs). (k, PList (map PStr vs))) s)"

section \<open>Operations\<close>

fun scope_text :: "pyval \<Rightarrow> string ctx" where
  "scope_text (PStr s) = Inr s"
| "scope_text v = Inl (RuntimeContextError ''scope values must be texts'' 422)"

fun scope_entry :: "string \<times> pyval \<Rightarrow> (string \<times> string list) ctx" where
  "scope_entry (key, PList values) =
     (case traverse scope_text values of
        Inl e \<Rightarrow> Inl e
      | Inr clean \<Rightarrow> Inr (key, sorted_set clean))"
| "scope_entry (key, v) = Inl (RuntimeContextError ''scope must be dict[str, list[str]]'' 422)"

definition normalize_scope :: "pyval \<Rightarrow> scope ctx" where
  "normalize_scope v =
     (if \<not> truthy v then Inr []
      else case v of
             PDict d \<Rightarrow> traverse scope_entry d
           | _ \<Rightarrow> Inl (PyTypeError ''items''))"

text \<open>\<open>merged.setdefault(tool_id, {})\<close>, then \<open>tool_scope.setdefault(key, set()).update(values)\<close>.\<close>

definition add_values :: "string \<times> string list \<Rightarrow> scope \<Rightarrow> scope" where
  "add_values kv ts =
     (case kv of (k, vs) \<Rightarrow>
        AList.update k ((case map_of ts k of None \<Rightarrow> [] | Some ws \<Rightarrow> ws) @ vs) ts)"

definition merge_row ::
  "string \<times> scope \<Rightarrow> (string \<times> scope) list \<Rightarrow> (string \<times> scope) list" where
  "merge_row row merged =
     (case row of (tool_id, scope) \<Rightarrow>
        AList.update tool_id
          (fold add_values scope (case map_of merged tool_id of None \<Rightarrow> [] | Some ts \<Rightarrow> ts)) merged)"

text \<open>\<open>sorted(d.items())\<close> of a dictionary.\<close>

definition sorted_items :: "(string \<times> 'b) list \<Rightarrow> (string \<times> 'b) list" where
  "sorted_items d = map (\<lambda>k. (k, the (map_of d k))) (sorted_set (map fst d))"

definition merge_tool_scopes :: "(string \<times> pyval) list \<Rightarrow> (string \<times> scope) list ctx" where
  "merge_tool_scopes rows =
     (case traverse (\<lambda>(tool_id, raw).
              case normalize_scope raw of Inl e \<Rightarrow> Inl e | Inr s \<Rightarrow> Inr (tool_id, s)) rows of
        Inl e \<Rightarrow> Inl e
      | Inr clean \<Rightarrow>
          Inr (map (\<lambda>(t, s). (t, map (\<lambda>(k, vs). (k, sorted_set vs)) (sorted_items s)))
                 (sorted_items (fold merge_row clean []))))"

definition subset_values :: "scope \<Rightarrow> scope \<Rightarrow> bool" where
  "subset_values r a \<longleftrightarrow>
     list_all (\<lambda>(k, vs). set vs \<subseteq> set (case map_of a k of None \<Rightarrow> [] | Some ws \<Rightarrow> ws)) r"

definition scope_is_subset :: "pyval \<Rightarrow> pyval \<Rightarrow> bool ctx" where
  "scope_is_subset requested allowed =
     (case normalize_scope requested of
        Inl e \<Rightarrow> Inl e
      | Inr r \<Rightarrow>
          (case normalize_scope allowed of
             Inl e \<Rightarrow> Inl e
           | Inr a \<Rightarrow> Inr (subset_values r a)))"

definition effective_tools :: "string list \<Rightarrow> string list \<Rightarrow> string list \<Rightarrow> string list" where
  "effective_tools configured created current =
     filter (\<lambda>t. t \<in> set created \<and> t \<in> set current) configured"

section \<open>The meaning of scopes\<close>

definition scope_values :: "scope \<Rightarrow> string \<Rightarrow> string set" where
  "scope_values s k = (case map_of s k of None \<Rightarrow> {} | Some vs \<Rightarrow> set vs)"

lemma scope_values_simps [simp]:
  "scope_values [] k = {}"
  "scope_values ((j, vs) # s) k = (if k = j then set vs else scope_values s k)"
  by (auto simp: scope_values_def)

lemma subset_values_iff:
  assumes "distinct (map fst r)"
  shows "subset_values r a \<longleftrightarrow> (\<forall>k. scope_values r k \<subseteq> scope_values a k)"
proof -
  have a: "set (case map_of a k of None \<Rightarrow> [] | Some ws \<Rightarrow> ws) = scope_values a k" for k
    by (simp add: scope_values_def split: option.split)
  have "subset_values r a \<longleftrightarrow> (\<forall>k vs. (k, vs) \<in> set r \<longrightarrow> set vs \<subseteq> scope_values a k)"
    by (auto simp: subset_values_def list_all_iff a)
  also have "\<dots> \<longleftrightarrow> (\<forall>k vs. map_of r k = Some vs \<longrightarrow> set vs \<subseteq> scope_values a k)"
    using assms by (simp add: map_of_eq_Some_iff)
  also have "\<dots> \<longleftrightarrow> (\<forall>k. scope_values r k \<subseteq> scope_values a k)"
    by (force simp: scope_values_def split: option.splits)
  finally show ?thesis .
qed

lemma scope_entry_fst: "scope_entry p = Inr q \<Longrightarrow> fst q = fst p"
  by (cases p rule: scope_entry.cases) (auto split: sum.splits)

lemma normalize_scope_keys:
  assumes "normalize_scope (PDict d) = Inr s"
  shows "map fst s = map fst d"
proof (cases "d = []")
  case True
  then show ?thesis using assms by (simp add: normalize_scope_def)
next
  case False
  then have "list_all2 (\<lambda>x y. scope_entry x = Inr y) d s"
    using assms by (simp add: normalize_scope_def traverse_Inr_iff)
  then show ?thesis by (induction rule: list_all2_induct) (simp_all add: scope_entry_fst)
qed

lemma traverse_scope_text: "traverse scope_text (map PStr vs) = Inr vs"
  by (induction vs) simp_all

lemma normalize_scope_val:
  "normalize_scope (scope_val s) = Inr (map (\<lambda>(k, vs). (k, sorted_set vs)) s)"
proof -
  have "traverse scope_entry (map (\<lambda>(k, vs). (k, PList (map PStr vs))) s) =
      Inr (map (\<lambda>(k, vs). (k, sorted_set vs)) s)"
    by (induction s) (auto simp: traverse_scope_text)
  then show ?thesis by (cases s) (simp_all add: normalize_scope_def scope_val_def)
qed

lemma map_of_map_values: "map_of (map (\<lambda>(k, v). (k, f v)) s) k = map_option f (map_of s k)"
  by (induction s) auto

lemma scope_values_sorted [simp]:
  "scope_values (map (\<lambda>(k, vs). (k, sorted_set vs)) s) k = scope_values s k"
  by (simp add: scope_values_def map_of_map_values split: option.split)

lemma map_fst_sorted [simp]: "map fst (map (\<lambda>(k, vs). (k, sorted_set vs)) s) = map fst s"
  by (simp add: case_prod_unfold comp_def)

text \<open>
  On well-formed scopes \<open>scope_is_subset\<close> decides inclusion key by key: it accepts a request exactly
  when every value it asks for under a key is among the values allowed under that key. Order,
  repetition and keys with no value play no part; an absent allowance allows nothing.
\<close>

theorem scope_subset_spec:
  assumes "distinct (map fst r)"
  shows "scope_is_subset (scope_val r) (scope_val a) =
     Inr (\<forall>k. scope_values r k \<subseteq> scope_values a k)"
  using assms by (simp add: scope_is_subset_def normalize_scope_val subset_values_iff del: map_map)

lemma scope_subset_spec_witness:
  "scope_is_subset (scope_val [(''db'', [''a'', ''a'']), (''x'', [])]) (scope_val [(''db'', [''b'', ''a''])]) =
     Inr True"
proof -
  have "scope_is_subset (scope_val [(''db'', [''a'', ''a'']), (''x'', [])]) (scope_val [(''db'', [''b'', ''a''])]) =
      Inr (\<forall>k. scope_values [(''db'', [''a'', ''a'']), (''x'', [])] k \<subseteq>
               scope_values [(''db'', [''b'', ''a''])] k)"
    by (rule scope_subset_spec) simp
  then show ?thesis by simp
qed

section \<open>Merging is union\<close>

lemma scope_values_update:
  "scope_values (AList.update k vs s) j = (if j = k then set vs else scope_values s j)"
  by (simp add: scope_values_def update_conv')

lemma scope_values_add [simp]:
  "scope_values (add_values (k, vs) s) j = scope_values s j \<union> (if j = k then set vs else {})"
  by (cases "map_of s k") (auto simp: add_values_def scope_values_update, auto simp: scope_values_def)

lemma scope_values_fold_add:
  "scope_values (fold add_values s ts) j =
     scope_values ts j \<union> (\<Union>(k, vs) \<in> set s. if j = k then set vs else {})"
  by (induction s arbitrary: ts) auto

lemma Union_scope:
  assumes "distinct (map fst s)"
  shows "(\<Union>(k, vs) \<in> set s. if j = k then set vs else {}) = scope_values s j"
  using assms
proof (induction s)
  case Nil
  then show ?case by simp
next
  case (Cons p s)
  obtain k vs where p: "p = (k, vs)" by (cases p)
  have "map_of s k = None" using Cons.prems p by (simp add: map_of_eq_None_iff)
  then have "scope_values s k = {}" by (simp add: scope_values_def)
  then show ?case using Cons p by auto
qed

definition tool_values :: "(string \<times> scope) list \<Rightarrow> string \<Rightarrow> string \<Rightarrow> string set" where
  "tool_values m t k = (case map_of m t of None \<Rightarrow> {} | Some s \<Rightarrow> scope_values s k)"

lemma tool_values_merge_row:
  assumes "distinct (map fst s)"
  shows "tool_values (merge_row (t, s) m) u k =
     tool_values m u k \<union> (if u = t then scope_values s k else {})"
  using assms
  by (auto simp: merge_row_def tool_values_def update_conv' scope_values_fold_add Union_scope
      split: option.splits)

lemma tool_values_fold_merge:
  assumes "\<forall>(t, s) \<in> set rows. distinct (map fst s)"
  shows "tool_values (fold merge_row rows m) u k =
     tool_values m u k \<union> (\<Union>(t, s) \<in> set rows. if u = t then scope_values s k else {})"
  using assms
proof (induction rows arbitrary: m)
  case Nil
  then show ?case by simp
next
  case (Cons row rows)
  obtain t s where row: "row = (t, s)" by (cases row)
  then have "distinct (map fst s)" using Cons.prems by simp
  from tool_values_merge_row [OF this] Cons row show ?case by auto
qed

lemma Union_normalized:
  "(\<Union>(u, s) \<in> set (map (\<lambda>(t, s). (t, map (\<lambda>(k, vs). (k, sorted_set vs)) s)) rows).
      if t = u then scope_values s k else {}) =
   (\<Union>(u, s) \<in> set rows. if t = u then scope_values s k else {})"
proof (induction rows)
  case Nil
  then show ?case by simp
next
  case (Cons row rows)
  obtain u s where "row = (u, s)" by (cases row)
  with Cons show ?case by (simp del: set_map)
qed

lemma map_of_sorted_items: "map_of (sorted_items d) k = map_of d k"
proof -
  have "map_of (map (\<lambda>k. (k, the (map_of d k))) ks) k =
      (if k \<in> set ks then Some (the (map_of d k)) else None)" for ks
    by (induction ks) auto
  then show ?thesis
    by (auto simp: sorted_items_def weak_map_of_SomeI)
      (metis image_eqI map_of_eq_None_iff not_None_eq option.sel set_map)+
qed

lemma fst_merge_row: "fst ` set (merge_row (t, s) m) = insert t (fst ` set m)"
  by (simp add: merge_row_def dom_update)

lemma fst_fold_merge: "fst ` set (fold merge_row rows m) = fst ` set rows \<union> fst ` set m"
proof (induction rows arbitrary: m)
  case Nil
  then show ?case by simp
next
  case (Cons row rows)
  obtain t s where "row = (t, s)" by (cases row)
  then show ?case by (simp only: fold_simps list.set image_insert fst_conv Cons.IH fst_merge_row) simp
qed

lemma scope_values_sorted_items [simp]: "scope_values (sorted_items s) k = scope_values s k"
  by (simp add: scope_values_def map_of_sorted_items)

lemma tool_values_result:
  "tool_values (map (\<lambda>(t, s). (t, map (\<lambda>(k, vs). (k, sorted_set vs)) (sorted_items s)))
     (sorted_items m)) t k = tool_values m t k"
  by (simp add: tool_values_def map_of_map_values map_of_sorted_items split: option.split)

text \<open>
  \<open>merge_tool_scopes\<close> grants a tool, under each scope key, exactly the union of what the user's
  roles grant: no permission row is lost and none leaks to another tool or key; a tool is listed
  exactly when some row names it, the list is sorted and has no duplicates, so the result does not
  depend on the order in which the database returns the rows.
\<close>

theorem merge_is_union:
  assumes "\<forall>(t, s) \<in> set rows. distinct (map fst s)"
  shows "\<exists>m. merge_tool_scopes (map (\<lambda>(t, s). (t, scope_val s)) rows) = Inr m \<and>
     (\<forall>t k. tool_values m t k = (\<Union>(u, s) \<in> set rows. if t = u then scope_values s k else {})) \<and>
     map fst m = sorted_set (map fst rows)"
proof -
  let ?norm = "\<lambda>(t, s). (t, map (\<lambda>(k, vs). (k, sorted_set vs)) s)"
  let ?clean = "map ?norm rows"
  let ?m = "map (\<lambda>(t, s). (t, map (\<lambda>(k, vs). (k, sorted_set vs)) (sorted_items s)))
      (sorted_items (fold merge_row ?clean []))"
  have "traverse (\<lambda>(tool_id, raw).
        case normalize_scope raw of Inl e \<Rightarrow> Inl e | Inr s \<Rightarrow> Inr (tool_id, s))
      (map (\<lambda>(t, s). (t, scope_val s)) rows) = Inr ?clean"
    by (induction rows) (auto simp: normalize_scope_val)
  then have res: "merge_tool_scopes (map (\<lambda>(t, s). (t, scope_val s)) rows) = Inr ?m"
    by (simp add: merge_tool_scopes_def)
  have "\<forall>(t, s) \<in> set ?clean. distinct (map fst s)"
    using assms by (auto simp del: map_map)
  note fold = tool_values_fold_merge [OF this, of "[]"]
  have vals: "tool_values ?m t k = (\<Union>(u, s) \<in> set rows. if t = u then scope_values s k else {})" for t k
  proof -
    have "(\<Union>(u, s) \<in> set ?clean. if t = u then scope_values s k else {}) =
        (\<Union>(u, s) \<in> set rows. if t = u then scope_values s k else {})"
      by (rule Union_normalized)
    with fold [of t k] show ?thesis by (simp only: tool_values_result) (simp add: tool_values_def)
  qed
  have fst_m: "map fst ?m = sorted_set (map fst (fold merge_row ?clean []))"
    by (simp add: sorted_items_def comp_def case_prod_unfold)
  have "set (map fst (fold merge_row ?clean [])) = set (map fst rows)"
  proof -
    have "fst ` set ?clean = fst ` set rows" by (simp add: image_image case_prod_unfold)
    then show ?thesis by (simp only: set_map fst_fold_merge) simp
  qed
  then have keys: "map fst ?m = sorted_set (map fst rows)"
    unfolding fst_m by (rule sorted_set_cong)
  show ?thesis using res vals keys by blast
qed

lemma merge_is_union_witness:
  "\<exists>m. merge_tool_scopes
       [(''t'', scope_val [(''db'', [''b''])]), (''a'', scope_val []), (''t'', scope_val [(''db'', [''a''])])] =
       Inr m \<and> tool_values m ''t'' ''db'' = {''a'', ''b''} \<and> distinct (map fst m)"
proof -
  let ?rows = "[(''t'', [(''db'', [''b''])]), (''a'', []), (''t'', [(''db'', [''a''])])]"
  have "\<forall>(t, s) \<in> set ?rows. distinct (map fst s)" by simp
  from merge_is_union [OF this] obtain m where
    m: "merge_tool_scopes (map (\<lambda>(t, s). (t, scope_val s)) ?rows) = Inr m"
    and vals: "\<forall>t k. tool_values m t k = (\<Union>(u, s) \<in> set ?rows. if t = u then scope_values s k else {})"
    and keys: "map fst m = sorted_set (map fst ?rows)" by blast
  have "tool_values m ''t'' ''db'' = {''a'', ''b''}"
    unfolding vals [rule_format] by (simp add: insert_commute)
  moreover have "distinct (map fst m)" unfolding keys by (rule distinct_sorted_set)
  ultimately show ?thesis using m by (simp only: list.map prod.case) blast
qed

end
