(* ===== verification/Runtime_Context.thy ===== *)
theory Runtime_Context
  imports Runtime_Scope Memory_Policy
begin

text \<open>
  Resolution of a runtime context (\<open>runtime_context.py\<close>): from an agent release and the current
  state of the control plane's tables to the tools, scopes and policies one run gets. The tables are
  a record of rows and the SQL queries are functions on it; nothing here writes to them. The
  environment (\<open>AEGORA_TENANT_ID\<close>), the local runner id (it contains the interpreter's path) and the
  point at which the governance lookup fails, if it does, are arguments.
\<close>

section \<open>Tables\<close>

record tool_row =
  t_id :: string
  t_status :: string
  t_mcp_connection_id :: "string option"
  t_read_only :: bool
  t_idempotent :: bool
  t_parallel_safe :: bool
  t_requires_approval :: bool
  t_side_effect_level :: string
  t_data_sensitivity :: string
  t_network_access :: string
  t_timeout_ms :: int

record connection_row =
  m_id :: string
  m_name :: string
  m_status :: string
  m_transport :: string
  m_config :: pyval
  m_config_version :: int
  m_config_hash :: string

record release_row =
  l_id :: string
  l_agent_id :: string
  l_version :: int
  l_status :: string
  l_visibility :: "string option"
  l_config_json :: pyval
  l_published_at :: "int option"

record platform_db =
  p_tools :: "tool_row list"
  p_connections :: "connection_row list"
  p_users :: "(string \<times> string) list"
  p_roles :: "(string \<times> string) list"
  p_user_roles :: "(string \<times> string) list"
  p_role_tool_permissions :: "(string \<times> string \<times> pyval) list"
  p_releases :: "release_row list"
  p_namespace_policies :: "(string \<times> string \<times> string \<times> bool) list option"
  p_user_preferences :: "(string \<times> string \<times> string \<times> bool) list option"

section \<open>Queries\<close>

definition release_tool_ids :: "pydict \<Rightarrow> string list" where
  "release_tool_ids config =
     unique (List.map_filter
       (\<lambda>tool. case tool of
                 PDict d \<Rightarrow> if truthy (dget d ''tool_id'') then Some (get_text d ''tool_id'') else None
               | _ \<Rightarrow> None)
       (as_list (py_or (dget config ''tools'') (PList []))))"

definition connection_active :: "platform_db \<Rightarrow> string \<Rightarrow> bool" where
  "connection_active db cid \<longleftrightarrow>
     (\<exists>m \<in> set (p_connections db). m_id m = cid \<and> m_status m = ''active'')"

definition active_tool_ids :: "platform_db \<Rightarrow> string list \<Rightarrow> string list" where
  "active_tool_ids db ids =
     map t_id (filter (\<lambda>t. t_id t \<in> set ids \<and> t_status t = ''active'' \<and>
        (case t_mcp_connection_id t of None \<Rightarrow> True | Some cid \<Rightarrow> connection_active db cid))
        (p_tools db))"

definition connection_dict :: "connection_row \<Rightarrow> pydict" where
  "connection_dict m =
     [(''connection_id'', PStr (m_id m)), (''name'', PStr (m_name m)), (''status'', PStr (m_status m)),
      (''transport'', PStr (m_transport m)), (''config'', m_config m),
      (''config_version'', PInt (m_config_version m)), (''config_hash'', PStr (m_config_hash m))]"

definition fetch_active_mcp_connections :: "platform_db \<Rightarrow> string list \<Rightarrow> (string \<times> pydict) list" where
  "fetch_active_mcp_connections db ids =
     map (\<lambda>m. (m_id m, connection_dict m))
       (filter (\<lambda>m. m_id m \<in> set ids \<and> m_status m = ''active'') (p_connections db))"

definition tool_policy :: "tool_row \<Rightarrow> pydict" where
  "tool_policy t =
     [(''read_only'', PBool (t_read_only t)), (''idempotent'', PBool (t_idempotent t)),
      (''parallel_safe'', PBool (t_parallel_safe t)),
      (''requires_approval'', PBool (t_requires_approval t)),
      (''side_effect_level'', PStr (t_side_effect_level t)),
      (''data_sensitivity'', PStr (t_data_sensitivity t)),
      (''network_access'', PStr (t_network_access t)), (''timeout_ms'', PInt (t_timeout_ms t))]"

definition fetch_active_tool_runtime_policies :: "platform_db \<Rightarrow> string list \<Rightarrow> (string \<times> pydict) list" where
  "fetch_active_tool_runtime_policies db ids =
     map (\<lambda>t. (t_id t, tool_policy t))
       (filter (\<lambda>t. t_id t \<in> set ids \<and> t_status t = ''active'') (p_tools db))"

definition user_is_active :: "platform_db \<Rightarrow> string \<Rightarrow> bool" where
  "user_is_active db u \<longleftrightarrow>
     (case find (\<lambda>r. fst r = u) (p_users db) of None \<Rightarrow> False | Some r \<Rightarrow> snd r = ''active'')"

definition user_has_role :: "platform_db \<Rightarrow> string \<Rightarrow> string \<Rightarrow> bool" where
  "user_has_role db u r \<longleftrightarrow> (u, r) \<in> set (p_user_roles db)"

text \<open>\<open>user_roles JOIN roles (active) JOIN role_tool_permissions\<close>.\<close>

definition permission_rows :: "platform_db \<Rightarrow> string \<Rightarrow> (string \<times> pyval) list" where
  "permission_rows db u =
     concat (map (\<lambda>(user, role).
        if user = u \<and> (role, ''active'') \<in> set (p_roles db)
        then map (\<lambda>(r, tool, scope). (tool, scope))
               (filter (\<lambda>(r, tool, scope). r = role) (p_role_tool_permissions db))
        else []) (p_user_roles db))"

definition get_user_role_tool_scopes :: "platform_db \<Rightarrow> string \<Rightarrow> (string \<times> scope) list ctx" where
  "get_user_role_tool_scopes db u = merge_tool_scopes (permission_rows db u)"

section \<open>Refreshing released tools from the tables\<close>

definition tool_ids_of :: "pydict list \<Rightarrow> string list" where
  "tool_ids_of tools =
     unique (map (\<lambda>t. get_text t ''tool_id'') (filter (\<lambda>t. truthy (dget t ''tool_id'')) tools))"

definition refresh_policy :: "(string \<times> pydict) list \<Rightarrow> pydict \<Rightarrow> pydict" where
  "refresh_policy policies tool =
     (case map_of policies (py_str (py_or (dget tool ''tool_id'') (PStr []))) of
        None \<Rightarrow> tool
      | Some policy \<Rightarrow> dmerge tool policy)"

definition policy_changed :: "(string \<times> pydict) list \<Rightarrow> pydict \<Rightarrow> bool" where
  "policy_changed policies tool \<longleftrightarrow>
     (case map_of policies (py_str (py_or (dget tool ''tool_id'') (PStr []))) of
        None \<Rightarrow> False
      | Some policy \<Rightarrow>
          list_ex (\<lambda>(k, v). \<not> py_eq (dget tool k) (dget (dmerge tool policy) k)) policy)"

definition refresh_active_tool_runtime_policies ::
  "platform_db \<Rightarrow> pydict list \<Rightarrow> pydict list \<times> string list" where
  "refresh_active_tool_runtime_policies db tools =
     (if tool_ids_of tools = [] then (tools, [])
      else let policies = fetch_active_tool_runtime_policies db (tool_ids_of tools)
           in (map (refresh_policy policies) tools,
               sorted_set (map (\<lambda>t. py_str (py_or (dget t ''tool_id'') (PStr [])))
                 (filter (policy_changed policies) tools))))"

definition refresh_connection :: "(string \<times> pydict) list \<Rightarrow> pydict \<Rightarrow> pydict option" where
  "refresh_connection connections tool =
     (if \<not> truthy (dget tool ''mcp_connection_id'') then Some tool
      else let cid = get_text tool ''mcp_connection_id''
           in map_option (\<lambda>c. dmerge tool [(''runner_tool_id'', PStr (''mcp-connection:'' @ cid)),
                                          (''mcp_connection'', PDict c)])
                (map_of connections cid))"

definition refresh_mcp_connection_configs ::
  "platform_db \<Rightarrow> pydict list \<Rightarrow> pydict list \<times> string list" where
  "refresh_mcp_connection_configs db tools =
     (let ids = unique (map (\<lambda>t. get_text t ''mcp_connection_id'')
                  (filter (\<lambda>t. truthy (dget t ''mcp_connection_id'')) tools))
      in if ids = [] then (tools, [])
         else let connections = fetch_active_mcp_connections db ids
              in (List.map_filter (refresh_connection connections) tools,
                  sorted_set (map (\<lambda>t. py_str (py_or (dget t ''tool_id'') (PStr [])))
                    (filter (\<lambda>t. refresh_connection connections t = None) tools))))"

section \<open>Normalisation\<close>

definition dict_or_empty :: "pyval \<Rightarrow> pyval" where
  "dict_or_empty v = (if is_dict v then v else PDict [])"

definition dict_or_none :: "pyval \<Rightarrow> pyval" where
  "dict_or_none v = (if is_dict v then v else PNone)"

definition normalize_learning_policy :: "pyval \<Rightarrow> pydict" where
  "normalize_learning_policy raw =
     (let policy = as_dict raw
      in [(''capture_evidence'', PBool (truthy (dget_or policy ''capture_evidence'' (PBool True)))),
          (''propose_skills'', PBool (truthy (dget_or policy ''propose_skills'' (PBool False)))),
          (''requires_human_review'',
             PBool (truthy (dget_or policy ''requires_human_review'' (PBool True))))])"

text \<open>\<open>d[k]\<close> raises \<open>KeyError\<close>.\<close>

definition dindex :: "pydict \<Rightarrow> string \<Rightarrow> pyval ctx" where
  "dindex d k = (case map_of d k of None \<Rightarrow> Inl (KeyError k) | Some v \<Rightarrow> Inr v)"

text \<open>The runner of a tool: id, name and source. \<open>local_runner\<close> is \<open>local_mcp_stdio_runner_tool_id()\<close>.\<close>

definition tool_runner :: "string \<Rightarrow> pydict \<Rightarrow> string \<Rightarrow> string \<times> pyval \<times> string" where
  "tool_runner local_runner tool tool_id =
     (let runner_tool_id = py_str (py_or (dget tool ''runner_tool_id'') (PStr (''local.'' @ tool_id)));
          runner_name = dget tool ''runner_name'';
          source = py_str (py_or (dget tool ''source'') (PStr []))
      in if source = ''local'' \<or> starts_with runner_tool_id ''local.''
         then (local_runner,
               py_or runner_name
                 (py_or (PStr (remove_prefix ''local.'' runner_tool_id)) (PStr tool_id)),
               ''mcp'')
         else (runner_tool_id, runner_name, source))"

definition normalize_tool_config :: "string \<Rightarrow> pydict \<Rightarrow> pydict ctx" where
  "normalize_tool_config local_runner tool =
     (case dindex tool ''tool_id'' of
        Inl e \<Rightarrow> Inl e
      | Inr idv \<Rightarrow>
          let tool_id = py_str idv
          in case tool_runner local_runner tool tool_id of
               (runner_tool_id, runner_name, source) \<Rightarrow>
                 (case normalize_scope (dict_or_none (dget tool ''scope'')) of
                    Inl e \<Rightarrow> Inl e
                  | Inr sc \<Rightarrow>
                      (case py_int (py_or (dget tool ''timeout_ms'') (PInt 8000)) of
                         None \<Rightarrow> Inl (PyTypeError ''int'')
                       | Some timeout \<Rightarrow>
                           Inr (dmerge tool
                             [(''tool_id'', PStr tool_id),
                              (''runner_tool_id'', PStr runner_tool_id),
                              (''runner_name'', runner_name),
                              (''name'', py_or (dget tool ''name'') (PStr tool_id)),
                              (''description'', py_or (dget tool ''description'') (PStr [])),
                              (''source'', py_or (PStr source) (py_or (dget tool ''source'') (PStr ''mcp''))),
                              (''input_schema'', dict_or_empty (dget tool ''input_schema'')),
                              (''scope'', scope_val sc),
                              (''read_only'', PBool (truthy (dget_or tool ''read_only'' (PBool True)))),
                              (''idempotent'', PBool (truthy (dget_or tool ''idempotent'' (PBool True)))),
                              (''parallel_safe'', PBool (truthy (dget_or tool ''parallel_safe'' (PBool True)))),
                              (''requires_approval'',
                                 PBool (truthy (dget_or tool ''requires_approval'' (PBool False)))),
                              (''side_effect_level'', py_or (dget tool ''side_effect_level'') (PStr ''none'')),
                              (''data_sensitivity'', py_or (dget tool ''data_sensitivity'') (PStr ''internal'')),
                              (''network_access'', py_or (dget tool ''network_access'') (PStr ''none'')),
                              (''timeout_ms'', PInt timeout)]))))"

section \<open>Authorization of the tools of one run\<close>

definition snapshot_role_tool_scopes :: "pydict \<Rightarrow> (string \<times> scope) list ctx" where
  "snapshot_role_tool_scopes snapshot =
     traverse (\<lambda>(tool_id, sc).
         case normalize_scope (dict_or_none sc) of Inl e \<Rightarrow> Inl e | Inr s \<Rightarrow> Inr (tool_id, s))
       (as_dict (dget snapshot ''role_tool_scopes''))"

definition scope_lookup :: "(string \<times> scope) list \<Rightarrow> string \<Rightarrow> pyval" where
  "scope_lookup m t = (case map_of m t of None \<Rightarrow> PNone | Some s \<Rightarrow> scope_val s)"

datatype verdict = Allowed | Skipped | ScopeDenied

definition tool_verdict ::
  "string list \<Rightarrow> (string \<times> scope) list \<Rightarrow> (string \<times> scope) list \<Rightarrow> pydict \<Rightarrow> verdict ctx" where
  "tool_verdict effective created current tool =
     (let tool_id = get_text tool ''tool_id'';
          requested = dict_or_empty (dget tool ''scope'')
      in if tool_id \<notin> set effective then Inr Skipped
         else case (if created = [] then Inr True
                    else scope_is_subset requested (scope_lookup created tool_id)) of
                Inl e \<Rightarrow> Inl e
              | Inr False \<Rightarrow> Inr ScopeDenied
              | Inr True \<Rightarrow>
                  (case scope_is_subset requested (scope_lookup current tool_id) of
                     Inl e \<Rightarrow> Inl e
                   | Inr ok \<Rightarrow> Inr (if ok then Allowed else ScopeDenied)))"

record authz_result =
  az_tools :: "pydict list"
  az_policy :: pydict

definition str_list :: "string list \<Rightarrow> pyval" where
  "str_list xs = PList (map PStr xs)"

definition missing_actor :: "string option \<Rightarrow> bool" where
  "missing_actor actor \<longleftrightarrow> (case actor of None \<Rightarrow> True | Some a \<Rightarrow> a = [])"

definition authz_tools ::
  "pydict list \<Rightarrow> (string \<times> scope) list \<Rightarrow> (string \<times> scope) list \<Rightarrow> authz_result ctx" where
  "authz_tools tools created current =
     (let configured = map (\<lambda>t. get_text t ''tool_id'') tools;
          capabilities = (if created = [] then configured else map fst created);
          effective = effective_tools configured capabilities (map fst current)
      in case traverse (tool_verdict effective created current) tools of
           Inl e \<Rightarrow> Inl e
         | Inr vs \<Rightarrow>
             let allowed = map fst (filter (\<lambda>(t, v). v = Allowed) (zip tools vs));
                 denied = map (\<lambda>(t, v). get_text t ''tool_id'')
                            (filter (\<lambda>(t, v). v = ScopeDenied) (zip tools vs));
                 allowed_ids = map (\<lambda>t. get_text t ''tool_id'') allowed
             in Inr \<lparr>az_tools = allowed,
                     az_policy =
                       [(''runtime_authz_filtered'',
                           str_list (sorted_set (filter (\<lambda>i. i \<notin> set allowed_ids) configured))),
                        (''scope_denied_tools'', str_list (sorted_set denied)),
                        (''runtime_authz_source'', PStr ''role_tool_permissions'')]\<rparr>)"

definition apply_runtime_tool_authz ::
  "platform_db \<Rightarrow> pydict list \<Rightarrow> string option \<Rightarrow> pydict \<Rightarrow> authz_result ctx" where
  "apply_runtime_tool_authz db tools actor snapshot =
     (if missing_actor actor
      then Inr \<lparr>az_tools = [],
                az_policy =
                  [(''runtime_authz_filtered'', str_list (sort (map (\<lambda>t. get_text t ''tool_id'') tools))),
                   (''scope_denied_tools'', PList []),
                   (''runtime_authz_reason'', PStr ''missing_actor_id'')]\<rparr>
      else case get_user_role_tool_scopes db (the actor) of
             Inl e \<Rightarrow> Inl e
           | Inr current \<Rightarrow>
               (case traverse (\<lambda>t. dindex t ''tool_id'') tools of
                  Inl e \<Rightarrow> Inl e
                | Inr _ \<Rightarrow>
                    (case snapshot_role_tool_scopes snapshot of
                       Inl e \<Rightarrow> Inl e
                     | Inr created \<Rightarrow> authz_tools tools created current)))"

section \<open>Memory governance of the actor\<close>

text \<open>Where the lookup raises: not at all, before the policies are read, or between the two reads.\<close>

datatype lookup_fault = NoFault | FaultFirst | FaultBetween

definition governance_base :: "string \<Rightarrow> string \<Rightarrow> pydict" where
  "governance_base tenant visibility =
     [(''tenant_id'', PStr tenant), (''agent_visibility'', PStr visibility),
      (''namespace_policies'', PDict []), (''user_preferences'', PDict []),
      (''policy_available'', PBool False)]"

definition policies_value :: "platform_db \<Rightarrow> string \<Rightarrow> pyval" where
  "policies_value db tenant =
     (case p_namespace_policies db of
        None \<Rightarrow> PDict []
      | Some rows \<Rightarrow>
          PDict (map (\<lambda>(t, ns, mode, allow).
                   (ns, PDict [(''mode'', PStr mode), (''allow_public_agents'', PBool allow)]))
                 (filter (\<lambda>(t, ns, mode, allow). t = tenant) rows)))"

definition preferences_value :: "platform_db \<Rightarrow> string \<Rightarrow> string \<Rightarrow> pyval" where
  "preferences_value db tenant actor =
     (case p_user_preferences db of
        None \<Rightarrow> PDict []
      | Some rows \<Rightarrow>
          PDict (map (\<lambda>(t, u, ns, share). (ns, PBool share))
                 (filter (\<lambda>(t, u, ns, share). t = tenant \<and> u = actor) rows)))"

definition fetch_memory_governance ::
  "string \<Rightarrow> lookup_fault \<Rightarrow> platform_db \<Rightarrow> string option \<Rightarrow> string \<Rightarrow> pydict" where
  "fetch_memory_governance env_tenant fault db actor visibility =
     (let stripped = py_strip env_tenant;
          tenant = (if stripped = [] then ''default'' else stripped);
          base = governance_base tenant visibility
      in if missing_actor actor then base
         else case fault of
                FaultFirst \<Rightarrow> base
              | FaultBetween \<Rightarrow> dset ''namespace_policies'' (policies_value db tenant) base
              | NoFault \<Rightarrow>
                  dset ''policy_available'' (PBool (p_namespace_policies db \<noteq> None))
                    (dset ''user_preferences'' (preferences_value db tenant (the actor))
                      (dset ''namespace_policies'' (policies_value db tenant) base)))"

section \<open>Building and validating a context\<close>

text \<open>\<open>list(v)\<close>.\<close>

fun py_list :: "pyval \<Rightarrow> pyval list ctx" where
  "py_list (PList xs) = Inr xs"
| "py_list (PStr s) = Inr (map PStr (chars s))"
| "py_list (PDict d) = Inr (map (PStr \<circ> fst) d)"
| "py_list v = Inl (PyTypeError ''not iterable'')"

text \<open>\<open>tool.get("tool_id") in active_ids\<close>: an unhashable value raises.\<close>

fun in_ids :: "pyval \<Rightarrow> string list \<Rightarrow> bool ctx" where
  "in_ids (PStr s) ids = Inr (s \<in> set ids)"
| "in_ids (PList xs) ids = Inl (PyTypeError ''unhashable'')"
| "in_ids (PDict d) ids = Inl (PyTypeError ''unhashable'')"
| "in_ids v ids = Inr False"

fun active_configs :: "string \<Rightarrow> string list \<Rightarrow> pyval list \<Rightarrow> pydict list ctx" where
  "active_configs local_runner ids [] = Inr []"
| "active_configs local_runner ids (PDict tool # tools) =
     (case in_ids (dget tool ''tool_id'') ids of
        Inl e \<Rightarrow> Inl e
      | Inr False \<Rightarrow> active_configs local_runner ids tools
      | Inr True \<Rightarrow>
          (case normalize_tool_config local_runner tool of
             Inl e \<Rightarrow> Inl e
           | Inr cfg \<Rightarrow>
               (case active_configs local_runner ids tools of
                  Inl e \<Rightarrow> Inl e
                | Inr cfgs \<Rightarrow> Inr (cfg # cfgs))))"
| "active_configs local_runner ids (v # tools) = active_configs local_runner ids tools"

record context_env =
  ce_tenant :: string
  ce_fault :: lookup_fault
  ce_local_runner :: string

text \<open>The tools of a run: released, active, refreshed from the tables, authorized.\<close>

record run_tools =
  rt_authz :: authz_result
  rt_released :: "string list"
  rt_active :: "string list"
  rt_policy_refreshed :: "string list"
  rt_connection_filtered :: "string list"

definition resolve_tools ::
  "context_env \<Rightarrow> platform_db \<Rightarrow> pydict \<Rightarrow> string option \<Rightarrow> run_tools ctx" where
  "resolve_tools env db config actor =
     (case py_or (dget config ''tools'') (PList []) of
        PList raw \<Rightarrow>
          let released = release_tool_ids config;
              active = active_tool_ids db released
          in (case active_configs (ce_local_runner env) active raw of
                Inl e \<Rightarrow> Inl e
              | Inr configs \<Rightarrow>
                  (case refresh_active_tool_runtime_policies db configs of
                     (refreshed, changed) \<Rightarrow>
                       (case refresh_mcp_connection_configs db refreshed of
                          (linked, filtered) \<Rightarrow>
                            (case apply_runtime_tool_authz db linked actor
                                    (as_dict (dget config ''permission_snapshot'')) of
                               Inl e \<Rightarrow> Inl e
                             | Inr az \<Rightarrow>
                                 Inr \<lparr>rt_authz = az, rt_released = released, rt_active = active,
                                      rt_policy_refreshed = changed,
                                      rt_connection_filtered = filtered\<rparr>))))
      | _ \<Rightarrow> Inl (RuntimeContextError ''release tools invalid'' 422))"

definition tool_scopes_of :: "pydict list \<Rightarrow> pydict ctx" where
  "tool_scopes_of tools =
     (case traverse (\<lambda>t. case normalize_scope (dict_or_none (dget t ''scope'')) of
                           Inl e \<Rightarrow> Inl e
                         | Inr s \<Rightarrow> Inr (get_text t ''tool_id'', scope_val s)) tools of
        Inl e \<Rightarrow> Inl e
      | Inr ps \<Rightarrow> Inr (dmerge [] ps))"

definition agent_section :: "pydict \<Rightarrow> string \<Rightarrow> pydict ctx" where
  "agent_section agent visibility =
     (case py_list (py_or (dget agent ''channels'') (PList [])) of
        Inl e \<Rightarrow> Inl e
      | Inr channels \<Rightarrow>
          Inr [(''id'', dget agent ''id''), (''name'', py_or (dget agent ''name'') (PStr ''released-agent'')),
               (''icon'', py_or (dget agent ''icon'') (PStr ''robot'')),
               (''owner_user_id'', dget agent ''owner_user_id''),
               (''system_prompt'', py_or (dget agent ''system_prompt'') (PStr [])),
               (''model'', dget agent ''model''),
               (''enabled'', PBool (truthy (dget_or agent ''enabled'' (PBool True)))),
               (''channels'', PList channels), (''visibility'', PStr visibility)])"

definition release_section :: "pydict \<Rightarrow> string \<Rightarrow> pydict ctx" where
  "release_section release visibility =
     (case traverse (\<lambda>k. case dindex release k of Inl e \<Rightarrow> Inl e | Inr v \<Rightarrow> Inr (k, v))
             [''release_id'', ''agent_id'', ''version'', ''status''] of
        Inl e \<Rightarrow> Inl e
      | Inr entries \<Rightarrow> Inr (entries @ [(''visibility'', PStr visibility)]))"

definition context_policy :: "run_tools \<Rightarrow> pydict" where
  "context_policy rt =
     dmerge
       [(''source'', PStr ''agent_release''),
        (''disabled_tools_filtered'',
           str_list (sorted_set (filter (\<lambda>i. i \<notin> set (rt_active rt)) (rt_released rt)))),
        (''runtime_tool_policy_refreshed'', str_list (rt_policy_refreshed rt)),
        (''mcp_connection_filtered_tools'', str_list (rt_connection_filtered rt))]
       (az_policy (rt_authz rt))"

definition build_runtime_context ::
  "context_env \<Rightarrow> platform_db \<Rightarrow> pydict \<Rightarrow> string option \<Rightarrow> string option \<Rightarrow> pydict ctx" where
  "build_runtime_context env db release actor channel =
     (case dindex release ''config_json'' of
        Inl e \<Rightarrow> Inl e
      | Inr (PDict config) \<Rightarrow>
          (case dget config ''agent'' of
             PDict agent \<Rightarrow>
               (case resolve_tools env db config actor of
                  Inl e \<Rightarrow> Inl e
                | Inr rt \<Rightarrow>
                    let tools = az_tools (rt_authz rt);
                        visibility = py_str (py_or (dget release ''visibility'')
                          (py_or (dget agent ''visibility'') (PStr ''private'')))
                    in (case tool_scopes_of tools of
                          Inl e \<Rightarrow> Inl e
                        | Inr tool_scopes \<Rightarrow>
                            (case release_section release visibility of
                               Inl e \<Rightarrow> Inl e
                             | Inr rel \<Rightarrow>
                                 (case agent_section agent visibility of
                                    Inl e \<Rightarrow> Inl e
                                  | Inr ag \<Rightarrow>
                                      Inr [(''release'', PDict rel), (''agent'', PDict ag),
                                           (''actor'', PDict [(''actor_id'', opt_val actor)]),
                                           (''channel'', opt_val channel),
                                           (''tools'', PList (map PDict tools)),
                                           (''tool_ids'', str_list (sorted_set (map fst tool_scopes))),
                                           (''tool_scopes'', PDict tool_scopes),
                                           (''permission_snapshot'',
                                              dict_or_empty (dget config ''permission_snapshot'')),
                                           (''learning_policy'',
                                              PDict (normalize_learning_policy (dget config ''learning_policy''))),
                                           (''memory_governance'',
                                              PDict (fetch_memory_governance (ce_tenant env) (ce_fault env)
                                                       db actor visibility)),
                                           (''policy'', PDict (context_policy rt))]))))
           | _ \<Rightarrow> Inl (RuntimeContextError ''release agent config missing'' 422))
      | Inr _ \<Rightarrow> Inl (RuntimeContextError ''release config_json invalid'' 422))"

definition dict_value :: "pydict \<Rightarrow> string \<Rightarrow> pydict ctx" where
  "dict_value context key =
     (case dget context key of
        PDict d \<Rightarrow> Inr d
      | _ \<Rightarrow> Inl (RuntimeContextError (''runtime context invalid: '' @ key) 422))"

definition PLATFORM_ADMIN_ROLE :: string where "PLATFORM_ADMIN_ROLE = ''platform_admin''"

definition check_run ::
  "platform_db \<Rightarrow> pydict \<Rightarrow> pydict \<Rightarrow> pyval \<Rightarrow> pyval \<Rightarrow> pyval \<Rightarrow> unit ctx" where
  "check_run db release agent actor_id channel channels =
     (if \<not> py_eq (dget release ''status'') (PStr ''published'')
        then Inl (RuntimeContextError ''release not runnable'' 409)
      else if \<not> truthy (dget_or agent ''enabled'' (PBool True))
        then Inl (RuntimeContextError ''agent unavailable'' 403)
      else if \<not> is_str actor_id \<or> \<not> truthy actor_id
        then Inl (RuntimeContextError ''actor_id missing'' 401)
      else if \<not> user_is_active db (py_str actor_id)
        then Inl (RuntimeContextError ''user unavailable'' 403)
      else if py_str (py_or (dget release ''visibility'') (PStr ''private'')) \<noteq> ''public'' \<and>
              \<not> py_eq actor_id (dget agent ''owner_user_id'') \<and>
              \<not> user_has_role db (py_str actor_id) PLATFORM_ADMIN_ROLE
        then Inl (RuntimeContextError ''user may not run this release'' 403)
      else case py_list (py_or channels (PList [])) of
          Inl e \<Rightarrow> Inl e
        | Inr cs \<Rightarrow>
            if \<not> (is_str channel \<and> py_str channel \<in> set (map py_str cs))
            then Inl (RuntimeContextError ''channel not authorized'' 403) else Inr ())"

definition validate_runtime_context :: "platform_db \<Rightarrow> pydict \<Rightarrow> unit ctx" where
  "validate_runtime_context db context =
     (case dict_value context ''release'' of
        Inl e \<Rightarrow> Inl e
      | Inr release \<Rightarrow>
          (case dict_value context ''agent'' of
             Inl e \<Rightarrow> Inl e
           | Inr agent \<Rightarrow>
               (case dict_value context ''actor'' of
                  Inl e \<Rightarrow> Inl e
                | Inr actor \<Rightarrow>
                    check_run db release agent (dget actor ''actor_id'') (dget context ''channel'')
                      (dget agent ''channels''))))"

text \<open>The release rows a request names; the configuration comes with the row (see \<open>Runtime_Cache\<close>).\<close>

definition release_fields :: "release_row \<Rightarrow> pydict" where
  "release_fields l =
     [(''release_id'', PStr (l_id l)), (''agent_id'', PStr (l_agent_id l)), (''version'', PInt (l_version l)),
      (''status'', PStr (l_status l)), (''visibility'', opt_val (l_visibility l))]"

definition find_release :: "platform_db \<Rightarrow> string \<Rightarrow> string \<Rightarrow> release_row option" where
  "find_release db agent_id release_id =
     find (\<lambda>l. l_agent_id l = agent_id \<and> l_id l = release_id) (p_releases db)"

text \<open>\<open>ORDER BY published_at DESC NULLS LAST, id DESC LIMIT 1\<close>.\<close>

definition newer_release :: "release_row \<Rightarrow> release_row \<Rightarrow> bool" where
  "newer_release a b \<longleftrightarrow>
     (case (l_published_at a, l_published_at b) of
        (Some x, Some y) \<Rightarrow> y < x \<or> (x = y \<and> l_id b < l_id a)
      | (Some x, None) \<Rightarrow> True
      | (None, Some y) \<Rightarrow> False
      | (None, None) \<Rightarrow> l_id b < l_id a)"

definition find_release_by_version :: "platform_db \<Rightarrow> string \<Rightarrow> int \<Rightarrow> release_row option" where
  "find_release_by_version db agent_id version =
     (let rows = filter (\<lambda>l. l_agent_id l = agent_id \<and> l_version l = version) (p_releases db)
      in find (\<lambda>a. \<forall>b \<in> set rows. \<not> newer_release b a) rows)"

section \<open>What authorization grants\<close>

text \<open>The values a tool's configuration asks for under a scope key.\<close>

definition requested_values :: "pydict \<Rightarrow> string \<Rightarrow> string set" where
  "requested_values tool k =
     (case normalize_scope (dict_or_empty (dget tool ''scope'')) of Inl e \<Rightarrow> {} | Inr r \<Rightarrow> scope_values r k)"

definition covered_by :: "(string \<times> scope) list \<Rightarrow> pydict \<Rightarrow> bool" where
  "covered_by m tool \<longleftrightarrow>
     get_text tool ''tool_id'' \<in> fst ` set m \<and>
     (\<forall>k. requested_values tool k \<subseteq> tool_values m (get_text tool ''tool_id'') k)"

text \<open>The specification: within the current grants, and within the grants at creation if recorded.\<close>

definition granted :: "(string \<times> scope) list \<Rightarrow> (string \<times> scope) list \<Rightarrow> pydict \<Rightarrow> bool" where
  "granted created current tool \<longleftrightarrow> covered_by current tool \<and> (created = [] \<or> covered_by created tool)"

definition wf_tool :: "pydict \<Rightarrow> bool" where
  "wf_tool tool \<longleftrightarrow> distinct (map fst (as_dict (dget tool ''scope'')))"

lemma normalize_lookup:
  "\<exists>a. normalize_scope (scope_lookup m t) = Inr a \<and> (\<forall>k. scope_values a k = tool_values m t k)"
  by (cases "map_of m t")
    (simp_all add: scope_lookup_def normalize_scope_def tool_values_def normalize_scope_val [unfolded normalize_scope_def])

lemma subset_lookup:
  assumes "normalize_scope v = Inr r" "distinct (map fst r)"
  shows "scope_is_subset v (scope_lookup m t) = Inr (\<forall>k. scope_values r k \<subseteq> tool_values m t k)"
proof -
  obtain a where "normalize_scope (scope_lookup m t) = Inr a"
    "\<forall>k. scope_values a k = tool_values m t k"
    using normalize_lookup by blast
  then show ?thesis using assms by (simp add: scope_is_subset_def subset_values_iff)
qed

lemma requested_scope:
  assumes "wf_tool tool" "normalize_scope (dict_or_empty (dget tool ''scope'')) = Inr r"
  shows "distinct (map fst r)" "requested_values tool = scope_values r"
proof -
  obtain d where d: "dict_or_empty (dget tool ''scope'') = PDict d" "d = as_dict (dget tool ''scope'')"
    by (cases "dget tool ''scope''") (simp_all add: dict_or_empty_def)
  then have "map fst r = map fst d" using assms(2) normalize_scope_keys by simp
  with assms(1) d(2) show "distinct (map fst r)" by (simp add: wf_tool_def)
  show "requested_values tool = scope_values r" using assms(2) by (simp add: fun_eq_iff requested_values_def)
qed

lemma verdict_allowed:
  assumes "wf_tool tool"
    and "tool_verdict (effective_tools configured capabilities (map fst current)) created current tool = Inr v"
    and "get_text tool ''tool_id'' \<in> set configured"
    and "capabilities = (if created = [] then configured else map fst created)"
  shows "v = Allowed \<longleftrightarrow> granted created current tool"
proof (cases "get_text tool ''tool_id'' \<in> set (effective_tools configured capabilities (map fst current))")
  case False
  then have "v = Skipped" using assms(2) by (simp add: tool_verdict_def Let_def)
  moreover have "\<not> granted created current tool"
    using False assms(3,4) by (auto simp: effective_tools_def granted_def covered_by_def split: if_splits)
  ultimately show ?thesis by simp
next
  case True
  show ?thesis
  proof (cases "normalize_scope (dict_or_empty (dget tool ''scope''))")
    case (Inl e)
    then have "scope_is_subset (dict_or_empty (dget tool ''scope'')) a = Inl e" for a
      by (simp add: scope_is_subset_def)
    then have False using assms(2) True by (simp add: tool_verdict_def Let_def split: if_splits)
    then show ?thesis ..
  next
    case (Inr r)
    note req = requested_scope [OF assms(1) Inr]
    note sub = subset_lookup [OF Inr req(1)]
    show ?thesis
      using assms(2,4) True
      by (auto simp: tool_verdict_def Let_def sub granted_def covered_by_def req(2) effective_tools_def
          split: if_splits bool.splits)
  qed
qed

lemma filter_zip_verdicts:
  assumes "list_all2 (\<lambda>t v. f t = Inr v) ts vs" "\<And>t v. t \<in> set ts \<Longrightarrow> f t = Inr v \<Longrightarrow> v = Allowed \<longleftrightarrow> P t"
  shows "map fst (filter (\<lambda>(t, v). v = Allowed) (zip ts vs)) = filter P ts"
  using assms by (induction rule: list_all2_induct) auto

lemma authz_tools_granted:
  assumes "authz_tools tools created current = Inr r" "\<forall>t \<in> set tools. wf_tool t"
  shows "az_tools r = filter (granted created current) tools"
proof -
  let ?conf = "map (\<lambda>t. get_text t ''tool_id'') tools"
  let ?caps = "if created = [] then ?conf else map fst created"
  let ?f = "tool_verdict (effective_tools ?conf ?caps (map fst current)) created current"
  obtain vs where vs: "traverse ?f tools = Inr vs"
    and r: "az_tools r = map fst (filter (\<lambda>(t, v). v = Allowed) (zip tools vs))"
    using assms(1) by (auto simp: authz_tools_def Let_def split: sum.splits)
  have "map fst (filter (\<lambda>(t, v). v = Allowed) (zip tools vs)) = filter (granted created current) tools"
  proof (rule filter_zip_verdicts)
    show "list_all2 (\<lambda>t v. ?f t = Inr v) tools vs" using vs by (simp only: traverse_Inr_iff)
    show "v = Allowed \<longleftrightarrow> granted created current t" if "t \<in> set tools" "?f t = Inr v" for t v
      by (rule verdict_allowed [OF _ that(2)]) (use that(1) assms(2) in auto)
  qed
  with r show ?thesis by simp
qed

text \<open>
  C1: The tools a run gets are exactly the configured tools, in order and unchanged, that the actor's
  roles grant now and the release's permission snapshot granted at creation (where it records
  any), each with every requested scope value inside both grants; without an actor there are none.
\<close>

theorem authz_exact:
  assumes "apply_runtime_tool_authz db tools actor snapshot = Inr r" "\<forall>t \<in> set tools. wf_tool t"
  shows "if missing_actor actor then az_tools r = []
     else \<exists>current created.
       get_user_role_tool_scopes db (the actor) = Inr current \<and>
       snapshot_role_tool_scopes snapshot = Inr created \<and>
       az_tools r = filter (granted created current) tools"
  using assms authz_tools_granted
  by (auto simp: apply_runtime_tool_authz_def split: sum.splits if_splits)

text \<open>Revoking permissions never gives a run more: with grants that are pointwise smaller (fewer
  tools, fewer values under a key), for the current roles and the same snapshot, every tool
  the run gets was one it got before.
\<close>

theorem authz_monotone:
  assumes "authz_tools tools created current = Inr r" "authz_tools tools created current' = Inr r'"
    and "\<forall>t \<in> set tools. wf_tool t"
    and "fst ` set current' \<subseteq> fst ` set current"
    and "\<forall>t k. tool_values current' t k \<subseteq> tool_values current t k"
  shows "set (az_tools r') \<subseteq> set (az_tools r)"
proof -
  have "covered_by current t" if "covered_by current' t" for t
    using that assms(4,5) unfolding covered_by_def by blast
  then have "granted created current t" if "granted created current' t" for t
    using that unfolding granted_def by blast
  then show ?thesis
    by (auto simp: authz_tools_granted [OF assms(1,3)] authz_tools_granted [OF assms(2,3)])
qed

definition sample_tool :: pydict where
  "sample_tool = [(''tool_id'', PStr ''search''), (''scope'', scope_val [(''db'', [''a''])])]"

definition sample_grants :: "string list \<Rightarrow> (string \<times> scope) list" where
  "sample_grants vs = [(''search'', [(''db'', vs)])]"

lemma wf_sample_tool: "wf_tool sample_tool"
  by (simp add: wf_tool_def sample_tool_def scope_val_def)

lemma sample_tool_simps:
  "get_text sample_tool ''tool_id'' = ''search''"
  "normalize_scope (dict_or_empty (dget sample_tool ''scope'')) = Inr [(''db'', [''a''])]"
  "requested_values sample_tool k = (if k = ''db'' then {''a''} else {})"
proof -
  show "get_text sample_tool ''tool_id'' = ''search''" by (simp add: get_text_def sample_tool_def)
  have "dict_or_empty (dget sample_tool ''scope'') = scope_val [(''db'', [''a''])]"
    by (simp add: sample_tool_def dict_or_empty_def scope_val_def)
  then show norm: "normalize_scope (dict_or_empty (dget sample_tool ''scope'')) = Inr [(''db'', [''a''])]"
    by (simp add: normalize_scope_val sorted_set_def)
  show "requested_values sample_tool k = (if k = ''db'' then {''a''} else {})"
    by (simp add: requested_values_def norm)
qed

lemma sample_authz:
  "\<exists>r. authz_tools [sample_tool] [] (sample_grants vs) = Inr r"
proof -
  have "\<exists>v. tool_verdict (effective_tools [''search''] [''search''] (map fst (sample_grants vs))) []
      (sample_grants vs) sample_tool = Inr v"
    using subset_lookup [OF sample_tool_simps(2), of "sample_grants vs" "''search''"]
    by (simp add: tool_verdict_def Let_def sample_tool_simps(1) effective_tools_def sample_grants_def)
  then show ?thesis by (auto simp: authz_tools_def Let_def sample_tool_simps(1))
qed

definition sample_platform :: platform_db where
  "sample_platform =
     \<lparr>p_tools = [\<lparr>t_id = ''search'', t_status = ''active'', t_mcp_connection_id = None,
                 t_read_only = True, t_idempotent = True, t_parallel_safe = True,
                 t_requires_approval = True, t_side_effect_level = ''none'',
                 t_data_sensitivity = ''internal'', t_network_access = ''none'', t_timeout_ms = 500\<rparr>],
      p_connections = [], p_users = [(''u1'', ''active'')], p_roles = [(''r1'', ''active'')],
      p_user_roles = [(''u1'', ''r1'')],
      p_role_tool_permissions = [(''r1'', ''search'', scope_val [(''db'', [''a''])])],
      p_releases = [], p_namespace_policies = Some [],
      p_user_preferences = Some [(''default'', ''u1'', ''preferences'', False)]\<rparr>"

lemma sample_scopes:
  "get_user_role_tool_scopes sample_platform ''u1'' = Inr (sample_grants [''a''])"
  by (simp add: get_user_role_tool_scopes_def permission_rows_def sample_platform_def
      merge_tool_scopes_def normalize_scope_val merge_row_def add_values_def sorted_items_def
      sorted_set_def sample_grants_def)

lemma authz_exact_witness:
  "\<exists>r. apply_runtime_tool_authz sample_platform [sample_tool] (Some ''u1'') [] = Inr r \<and>
     az_tools r = [sample_tool]"
proof -
  obtain r where "authz_tools [sample_tool] [] (sample_grants [''a'']) = Inr r"
    using sample_authz by blast
  moreover have "traverse (\<lambda>t. dindex t ''tool_id'') [sample_tool] = Inr [PStr ''search'']"
    by (simp add: dindex_def sample_tool_def)
  moreover have "snapshot_role_tool_scopes [] = Inr []" by (simp add: snapshot_role_tool_scopes_def)
  ultimately have step: "apply_runtime_tool_authz sample_platform [sample_tool] (Some ''u1'') [] = Inr r"
    by (simp add: apply_runtime_tool_authz_def missing_actor_def sample_scopes)
  have "granted [] (sample_grants [''a'']) sample_tool"
    by (simp add: granted_def covered_by_def sample_tool_simps)
      (simp add: sample_grants_def tool_values_def)
  then show ?thesis
    using step authz_exact [OF step] wf_sample_tool
    by (auto simp: missing_actor_def sample_scopes snapshot_role_tool_scopes_def)
qed

lemma authz_monotone_witness:
  "\<exists>r r'. authz_tools [sample_tool] [] (sample_grants [''a'']) = Inr r \<and>
     authz_tools [sample_tool] [] (sample_grants []) = Inr r' \<and> set (az_tools r') \<subseteq> set (az_tools r)"
proof -
  obtain r r' where r: "authz_tools [sample_tool] [] (sample_grants [''a'']) = Inr r"
    "authz_tools [sample_tool] [] (sample_grants []) = Inr r'"
    using sample_authz by blast
  have "set (az_tools r') \<subseteq> set (az_tools r)"
    by (rule authz_monotone [OF r])
      (simp_all add: wf_sample_tool sample_grants_def tool_values_def)
  with r show ?thesis by blast
qed

section \<open>The tools of a run are active and carry the current policy\<close>

lemma map_of_dict_merge:
  "distinct (map fst e) \<Longrightarrow> dget (dmerge d e) k = (case map_of e k of None \<Rightarrow> dget d k | Some v \<Rightarrow> v)"
  by (simp add: dget_def dget_or_def map_of_dmerge map_add_def split: option.splits)

lemma policy_keys_distinct: "distinct (map fst (tool_policy t))"
  by (simp add: tool_policy_def)

lemma dget_policy:
  assumes "(k, v) \<in> set (tool_policy t)"
  shows "dget (dmerge d (tool_policy t)) k = v"
  using map_of_is_SomeI [OF policy_keys_distinct assms]
  by (simp add: map_of_dict_merge [OF policy_keys_distinct])

lemma dget_policy_other:
  "k \<notin> fst ` set (tool_policy t) \<Longrightarrow> dget (dmerge d (tool_policy t)) k = dget d k"
  by (simp add: map_of_dict_merge [OF policy_keys_distinct] map_of_eq_None_iff [symmetric])

definition carries_policy :: "tool_row \<Rightarrow> pydict \<Rightarrow> bool" where
  "carries_policy t tool \<longleftrightarrow> (\<forall>(k, v) \<in> set (tool_policy t). dget tool k = v)"

lemma carries_policy_merge: "carries_policy t (dmerge d (tool_policy t))"
  unfolding carries_policy_def using dget_policy by blast

definition runner_update :: "string \<Rightarrow> pydict \<Rightarrow> pydict" where
  "runner_update cid c =
     [(''runner_tool_id'', PStr (''mcp-connection:'' @ cid)), (''mcp_connection'', PDict c)]"

lemma dget_runner_update:
  "k \<noteq> ''runner_tool_id'' \<Longrightarrow> k \<noteq> ''mcp_connection'' \<Longrightarrow>
     dget (dmerge tool (runner_update cid c)) k = dget tool k"
  by (subst map_of_dict_merge) (simp_all add: runner_update_def)

lemma carries_policy_runner: "carries_policy t tool \<Longrightarrow> carries_policy t (dmerge tool (runner_update cid c))"
proof -
  assume a: "carries_policy t tool"
  have "\<forall>(k, v) \<in> set (tool_policy t). k \<noteq> ''runner_tool_id'' \<and> k \<noteq> ''mcp_connection''"
    by (simp add: tool_policy_def)
  then have ne: "k \<noteq> ''runner_tool_id''" "k \<noteq> ''mcp_connection''" if "(k, v) \<in> set (tool_policy t)" for k v
    using that by blast+
  show ?thesis
    unfolding carries_policy_def
  proof (clarify)
    fix k v assume kv: "(k, v) \<in> set (tool_policy t)"
    with a have "dget tool k = v" by (auto simp: carries_policy_def)
    then show "dget (dmerge tool (runner_update cid c)) k = v"
      by (simp add: dget_runner_update [OF ne [OF kv]])
  qed
qed

text \<open>What each stage keeps: the tool id, which is that of an active row.\<close>

definition backed :: "platform_db \<Rightarrow> string list \<Rightarrow> pydict \<Rightarrow> bool" where
  "backed db ids tool \<longleftrightarrow>
     (\<exists>t \<in> set (p_tools db). dget tool ''tool_id'' = PStr (t_id t) \<and> t_status t = ''active'' \<and> t_id t \<in> set ids)"

lemma normalize_tool_id:
  assumes "normalize_tool_config lr tool = Inr cfg" "dget tool ''tool_id'' = PStr i"
  shows "dget cfg ''tool_id'' = PStr i"
proof -
  have "dindex tool ''tool_id'' = Inr (PStr i)"
    using assms by (auto simp: normalize_tool_config_def dindex_def dget_def dget_or_def split: option.splits)
  with assms(1) obtain e where "cfg = dmerge tool ((''tool_id'', PStr i) # e)"
    "distinct (map fst ((''tool_id'', PStr i) # e))"
    by (auto simp: normalize_tool_config_def Let_def split: sum.splits option.splits prod.splits)
  then show ?thesis using map_of_dict_merge by simp
qed

lemma active_configs_ids:
  assumes "active_configs lr ids raw = Inr cfgs" "cfg \<in> set cfgs"
  shows "\<exists>i \<in> set ids. dget cfg ''tool_id'' = PStr i"
  using assms
proof (induction lr ids raw arbitrary: cfgs rule: active_configs.induct)
  case (2 lr ids tool tools)
  show ?case
  proof (cases "in_ids (dget tool ''tool_id'') ids")
    case (Inl e)
    then show ?thesis using 2 by simp
  next
    case (Inr b)
    show ?thesis
    proof (cases b)
      case False
      then show ?thesis using 2 Inr by simp
    next
      case True
      then obtain i where i: "dget tool ''tool_id'' = PStr i" "i \<in> set ids"
        using Inr by (cases "dget tool ''tool_id''") auto
      have res: "(case normalize_tool_config lr tool of
             Inl e \<Rightarrow> Inl e
           | Inr cfg \<Rightarrow>
               (case active_configs lr ids tools of
                  Inl e \<Rightarrow> Inl e
                | Inr cfgs \<Rightarrow> Inr (cfg # cfgs))) = Inr cfgs"
        using "2.prems"(1) Inr True by simp
      then obtain c where c: "normalize_tool_config lr tool = Inr c" by (auto split: sum.splits)
      then obtain cs where cs: "active_configs lr ids tools = Inr cs" "cfgs = c # cs"
        using res by (auto split: sum.splits)
      have "\<exists>i \<in> set ids. dget cfg ''tool_id'' = PStr i" if "cfg \<in> set cs"
        using "2.IH" Inr True c cs(1) that by fastforce
      then show ?thesis
        using "2.prems"(2) cs(2) i normalize_tool_id [OF c i(1)] by auto
    qed
  qed
qed auto

lemma py_str_truthy: "truthy v \<Longrightarrow> py_str v \<noteq> []"
  by (cases v) (auto simp: float_text_def Let_def)

lemma release_tool_ids_nonempty: "i \<in> set (release_tool_ids config) \<Longrightarrow> i \<noteq> []"
  by (auto simp: release_tool_ids_def map_filter_def get_text_def py_str_truthy
      split: pyval.splits if_splits)

lemma active_tool_ids_row:
  "i \<in> set (active_tool_ids db ids) \<Longrightarrow>
     \<exists>t \<in> set (p_tools db). t_id t = i \<and> t_status t = ''active'' \<and> i \<in> set ids"
  by (auto simp: active_tool_ids_def)

lemma policy_lookup:
  assumes "distinct (map t_id (p_tools db))" "t \<in> set (p_tools db)" "t_status t = ''active''" "t_id t \<in> set ids"
  shows "map_of (fetch_active_tool_runtime_policies db ids) (t_id t) = Some (tool_policy t)"
proof -
  let ?rows = "filter (\<lambda>t. t_id t \<in> set ids \<and> t_status t = ''active'') (p_tools db)"
  have "distinct (map t_id ?rows)" using assms(1) by (rule distinct_map_filter)
  then have "distinct (map fst (fetch_active_tool_runtime_policies db ids))"
    by (simp add: fetch_active_tool_runtime_policies_def comp_def)
  moreover have "(t_id t, tool_policy t) \<in> set (fetch_active_tool_runtime_policies db ids)"
    using assms(2-4) by (auto simp: fetch_active_tool_runtime_policies_def)
  ultimately show ?thesis by simp
qed

lemma refreshed_policy:
  assumes "refresh_active_tool_runtime_policies db tools = (tools', changed)"
    and "distinct (map t_id (p_tools db))" "tool' \<in> set tools'"
    and "\<forall>tool \<in> set tools. backed db ids tool" "[] \<notin> set ids"
  shows "\<exists>t \<in> set (p_tools db). dget tool' ''tool_id'' = PStr (t_id t) \<and> t_status t = ''active'' \<and>
     t_id t \<in> set ids \<and> carries_policy t tool'"
proof -
  have rows: "\<exists>t \<in> set (p_tools db). dget tool ''tool_id'' = PStr (t_id t) \<and> t_status t = ''active'' \<and>
      t_id t \<in> set ids \<and> t_id t \<noteq> [] \<and> t_id t \<in> set (tool_ids_of tools)" if "tool \<in> set tools" for tool
  proof -
    obtain t where t: "t \<in> set (p_tools db)" "dget tool ''tool_id'' = PStr (t_id t)"
      "t_status t = ''active''" "t_id t \<in> set ids"
      using assms(4) \<open>tool \<in> set tools\<close> by (auto simp: backed_def)
    then have "t_id t \<noteq> []" using assms(5) by auto
    moreover have "t_id t \<in> set (tool_ids_of tools)"
      using t(2) \<open>t_id t \<noteq> []\<close> \<open>tool \<in> set tools\<close>
      by (force simp: tool_ids_of_def get_text_def)
    ultimately show ?thesis using t by blast
  qed
  have ne: "tools \<noteq> []" using assms(1,3) by (auto simp: refresh_active_tool_runtime_policies_def split: if_splits)
  then have "tool_ids_of tools \<noteq> []" using rows [of "hd tools"] by auto
  then obtain tool where tool: "tool \<in> set tools"
    "tool' = refresh_policy (fetch_active_tool_runtime_policies db (tool_ids_of tools)) tool"
    using assms(1,3) by (auto simp: refresh_active_tool_runtime_policies_def Let_def)
  obtain t where t: "t \<in> set (p_tools db)" "dget tool ''tool_id'' = PStr (t_id t)"
    "t_status t = ''active''" "t_id t \<in> set ids" "t_id t \<noteq> []" "t_id t \<in> set (tool_ids_of tools)"
    using rows [OF tool(1)] by blast
  have "tool' = dmerge tool (tool_policy t)"
    using tool(2) policy_lookup [OF assms(2) t(1,3,6)] t(2,5)
    by (simp add: refresh_policy_def py_or_def)
  moreover have "dget (dmerge tool (tool_policy t)) ''tool_id'' = PStr (t_id t)"
    using t(2) by (subst dget_policy_other) (simp_all add: tool_policy_def)
  ultimately show ?thesis using t carries_policy_merge by blast
qed

lemma linked_tool:
  assumes "refresh_mcp_connection_configs db tools = (tools', filtered)" "tool' \<in> set tools'"
  shows "\<exists>tool \<in> set tools. tool' = tool \<and> \<not> truthy (dget tool ''mcp_connection_id'') \<or>
     (\<exists>m \<in> set (p_connections db). m_status m = ''active'' \<and> m_id m = get_text tool ''mcp_connection_id'' \<and>
        tool' = dmerge tool (runner_update (m_id m) (connection_dict m)))"
proof -
  let ?ids = "unique (map (\<lambda>t. get_text t ''mcp_connection_id'')
      (filter (\<lambda>t. truthy (dget t ''mcp_connection_id'')) tools))"
  show ?thesis
  proof (cases "?ids = []")
    case True
    have "set ?ids = {}" using True by (simp only: list.set)
    then have "\<forall>t \<in> set tools. \<not> truthy (dget t ''mcp_connection_id'')" by auto
    moreover have "tools' = tools"
      using assms(1) True by (simp add: refresh_mcp_connection_configs_def Let_def)
    ultimately show ?thesis using assms(2) by blast
  next
    case False
    let ?c = "fetch_active_mcp_connections db ?ids"
    obtain tool where tool: "tool \<in> set tools" "refresh_connection ?c tool = Some tool'"
      using assms False by (auto simp: refresh_mcp_connection_configs_def Let_def map_filter_def)
    show ?thesis
    proof (cases "truthy (dget tool ''mcp_connection_id'')")
      case False
      then show ?thesis using tool by (intro bexI [of _ tool]) (auto simp: refresh_connection_def)
    next
      case True
      then obtain c where c: "map_of ?c (get_text tool ''mcp_connection_id'') = Some c"
        "tool' = dmerge tool (runner_update (get_text tool ''mcp_connection_id'') c)"
        using tool(2) by (auto simp: refresh_connection_def Let_def runner_update_def)
      then have "(get_text tool ''mcp_connection_id'', c) \<in> set ?c" by (simp add: map_of_SomeD)
      then obtain m where "m \<in> set (p_connections db)" "m_status m = ''active''"
        "m_id m = get_text tool ''mcp_connection_id''" "c = connection_dict m"
        by (auto simp: fetch_active_mcp_connections_def)
      then show ?thesis using tool(1) c(2) by (intro bexI [of _ tool]) auto
    qed
  qed
qed

lemma az_tools_subset:
  assumes "apply_runtime_tool_authz db tools actor snapshot = Inr r"
  shows "set (az_tools r) \<subseteq> set tools"
proof -
  have sub: "fst ` {x \<in> set (zip ts vs). P x} \<subseteq> set ts" for P :: "pydict \<times> verdict \<Rightarrow> bool" and ts vs
  proof
    fix t assume "t \<in> fst ` {x \<in> set (zip ts vs). P x}"
    then obtain v where "(t, v) \<in> set (zip ts vs)" by auto
    then show "t \<in> set ts" by (rule set_zip_leftD)
  qed
  have authz: "set (az_tools r) \<subseteq> set tools" if az: "authz_tools tools created current = Inr r" for created current
  proof -
    obtain vs where "az_tools r = map fst (filter (\<lambda>(t, v). v = Allowed) (zip tools vs))"
      using az by (auto simp: authz_tools_def Let_def split: sum.splits)
    then show ?thesis by (simp add: sub)
  qed
  show ?thesis
    using assms authz by (auto simp: apply_runtime_tool_authz_def split: sum.splits if_splits)
qed

text \<open>
  C36: A run never uses a stale or switched-off tool: every tool a release resolves to was released, is
  active in the tool table at resolution time, carries that row's current policy (approval,
  parallelism, side effects, timeout, ...) whatever the release froze, and if it needs an MCP
  connection, that connection is active and its current configuration is the one used.
\<close>

theorem resolved_tools_current:
  assumes "resolve_tools env db config actor = Inr rt" "distinct (map t_id (p_tools db))"
    and "tool \<in> set (az_tools (rt_authz rt))"
  shows "(\<exists>t \<in> set (p_tools db). dget tool ''tool_id'' = PStr (t_id t) \<and> t_status t = ''active'' \<and>
       t_id t \<in> set (release_tool_ids config) \<and> carries_policy t tool) \<and>
     (truthy (dget tool ''mcp_connection_id'') \<longrightarrow>
       (\<exists>m \<in> set (p_connections db). m_status m = ''active'' \<and>
          m_id m = get_text tool ''mcp_connection_id'' \<and>
          dget tool ''mcp_connection'' = PDict (connection_dict m)))"
proof -
  let ?rel = "release_tool_ids config"
  obtain raw where raw: "py_or (dget config ''tools'') (PList []) = PList raw"
    using assms(1) by (auto simp: resolve_tools_def split: pyval.splits)
  obtain configs where configs: "active_configs (ce_local_runner env) (active_tool_ids db ?rel) raw = Inr configs"
    using assms(1) raw by (auto simp: resolve_tools_def Let_def split: sum.splits)
  obtain refreshed changed where ref: "refresh_active_tool_runtime_policies db configs = (refreshed, changed)"
    by (cases "refresh_active_tool_runtime_policies db configs")
  obtain linked filtered where link: "refresh_mcp_connection_configs db refreshed = (linked, filtered)"
    by (cases "refresh_mcp_connection_configs db refreshed")
  have "apply_runtime_tool_authz db linked actor (as_dict (dget config ''permission_snapshot'')) =
      Inr (rt_authz rt)"
    using assms(1) raw configs ref link by (auto simp: resolve_tools_def Let_def split: sum.splits)
  then have "tool \<in> set linked" using az_tools_subset assms(3) by blast
  then obtain tool0 where tool0: "tool0 \<in> set refreshed"
    and via: "tool = tool0 \<and> \<not> truthy (dget tool0 ''mcp_connection_id'') \<or>
      (\<exists>m \<in> set (p_connections db). m_status m = ''active'' \<and> m_id m = get_text tool0 ''mcp_connection_id'' \<and>
         tool = dmerge tool0 (runner_update (m_id m) (connection_dict m)))"
    using linked_tool [OF link] by blast
  have "backed db ?rel cfg" if "cfg \<in> set configs" for cfg
    using active_configs_ids [OF configs that] active_tool_ids_row by (fastforce simp: backed_def)
  then obtain t where t: "t \<in> set (p_tools db)" "dget tool0 ''tool_id'' = PStr (t_id t)"
    "t_status t = ''active''" "t_id t \<in> set ?rel" "carries_policy t tool0"
    using refreshed_policy [OF ref assms(2) tool0] release_tool_ids_nonempty by blast
  show ?thesis
    using via
  proof
    assume "tool = tool0 \<and> \<not> truthy (dget tool0 ''mcp_connection_id'')"
    then show ?thesis using t by blast
  next
    assume "\<exists>m \<in> set (p_connections db). m_status m = ''active'' \<and>
      m_id m = get_text tool0 ''mcp_connection_id'' \<and>
      tool = dmerge tool0 (runner_update (m_id m) (connection_dict m))"
    then obtain m where m: "m \<in> set (p_connections db)" "m_status m = ''active''"
      "m_id m = get_text tool0 ''mcp_connection_id''"
      "tool = dmerge tool0 (runner_update (m_id m) (connection_dict m))" by blast
    have same: "dget tool ''tool_id'' = dget tool0 ''tool_id''"
      "dget tool ''mcp_connection_id'' = dget tool0 ''mcp_connection_id''"
      by (simp_all add: m(4) dget_runner_update)
    have "dget tool ''mcp_connection'' = PDict (connection_dict m)"
      unfolding m(4) by (subst map_of_dict_merge) (simp_all add: runner_update_def)
    moreover have "carries_policy t tool" unfolding m(4) by (rule carries_policy_runner [OF t(5)])
    ultimately show ?thesis
      using t m(1-3) same by (auto simp: get_text_def)
  qed
qed

section \<open>Admission\<close>

lemma py_eq_str: "py_eq v (PStr s) \<longleftrightarrow> v = PStr s"
  by (cases v) auto

lemma py_eq_str_left: "py_eq (PStr s) v \<longleftrightarrow> v = PStr s"
  by simp

definition visibility_of :: "pydict \<Rightarrow> pydict \<Rightarrow> string" where
  "visibility_of release agent =
     py_str (py_or (dget release ''visibility'') (py_or (dget agent ''visibility'') (PStr ''private'')))"

lemma visibility_nonempty: "visibility_of release agent \<noteq> []"
  by (simp add: visibility_of_def py_or_def py_str_truthy)

lemma built_context:
  assumes "build_runtime_context env db release actor channel = Inr ctx"
  obtains config agent rel ag chans where
    "dget release ''config_json'' = PDict config" "dget config ''agent'' = PDict agent"
    "dget ctx ''release'' = PDict rel" "dget ctx ''agent'' = PDict ag"
    "dget ctx ''actor'' = PDict [(''actor_id'', opt_val actor)]" "dget ctx ''channel'' = opt_val channel"
    "dget rel ''status'' = dget release ''status''"
    "dget rel ''visibility'' = PStr (visibility_of release agent)"
    "dget_or ag ''enabled'' (PBool True) = PBool (truthy (dget_or agent ''enabled'' (PBool True)))"
    "dget ag ''owner_user_id'' = dget agent ''owner_user_id''"
    "py_list (py_or (dget agent ''channels'') (PList [])) = Inr chans" "dget ag ''channels'' = PList chans"
proof -
  obtain config where config: "dindex release ''config_json'' = Inr (PDict config)"
    using assms by (auto simp: build_runtime_context_def split: sum.splits pyval.splits)
  obtain agent where agent: "dget config ''agent'' = PDict agent"
    using assms config by (auto simp: build_runtime_context_def split: pyval.splits)
  obtain rt where rt: "resolve_tools env db config actor = Inr rt"
    using assms config agent by (auto simp: build_runtime_context_def split: sum.splits)
  obtain ts where ts: "tool_scopes_of (az_tools (rt_authz rt)) = Inr ts"
    using assms config agent rt by (auto simp: build_runtime_context_def Let_def split: sum.splits)
  obtain rel where rel: "release_section release (visibility_of release agent) = Inr rel"
    using assms config agent rt ts
    by (auto simp: build_runtime_context_def Let_def visibility_of_def split: sum.splits)
  obtain ag where ag: "agent_section agent (visibility_of release agent) = Inr ag"
    using assms config agent rt ts rel
    by (auto simp: build_runtime_context_def Let_def visibility_of_def split: sum.splits)
  have ctx: "dget ctx ''release'' = PDict rel" "dget ctx ''agent'' = PDict ag"
    "dget ctx ''actor'' = PDict [(''actor_id'', opt_val actor)]" "dget ctx ''channel'' = opt_val channel"
    using assms config agent rt ts rel ag
    by (auto simp: build_runtime_context_def Let_def visibility_of_def)
  have r: "dget rel ''status'' = dget release ''status''"
    "dget rel ''visibility'' = PStr (visibility_of release agent)"
    using rel by (auto simp: release_section_def dindex_def dget_def dget_or_def split: sum.splits option.splits)
  obtain chans where c: "py_list (py_or (dget agent ''channels'') (PList [])) = Inr chans"
    using ag by (auto simp: agent_section_def split: sum.splits)
  have a: "dget ag ''channels'' = PList chans" "dget ag ''owner_user_id'' = dget agent ''owner_user_id''"
    "dget_or ag ''enabled'' (PBool True) = PBool (truthy (dget_or agent ''enabled'' (PBool True)))"
    using ag c by (auto simp: agent_section_def)
  have "dget release ''config_json'' = PDict config"
    using config by (auto simp: dindex_def dget_def dget_or_def split: option.splits)
  then show ?thesis using agent ctx r a c by (intro that) assumption+
qed

text \<open>
  A built context passes validation exactly when the release is published, the agent enabled in the frozen
  configuration, the actor a non-empty id of an active user who owns the agent, is a platform admin or
  meets a public release, and the channel one of the agent's. The visibility is the release's, or the
  agent's when the release records none; the live \<open>agents.enabled\<close> is not read, and membership does not count
  (\<open>Cp_View\<close> compares this with the control plane).
\<close>

lemma validation_iff:
  assumes "build_runtime_context env db release actor channel = Inr ctx"
  shows "validate_runtime_context db ctx = Inr () \<longleftrightarrow>
     (\<exists>config agent chans a c.
        dget release ''config_json'' = PDict config \<and> dget config ''agent'' = PDict agent \<and>
        py_list (py_or (dget agent ''channels'') (PList [])) = Inr chans \<and>
        dget release ''status'' = PStr ''published'' \<and> truthy (dget_or agent ''enabled'' (PBool True)) \<and>
        actor = Some a \<and> a \<noteq> [] \<and> user_is_active db a \<and>
        (visibility_of release agent = ''public'' \<or> dget agent ''owner_user_id'' = PStr a \<or>
         user_has_role db a PLATFORM_ADMIN_ROLE) \<and>
        channel = Some c \<and> c \<in> set (map py_str chans))"
proof -
  obtain config agent rel ag chans where
    cfg: "dget release ''config_json'' = PDict config" "dget config ''agent'' = PDict agent"
    and ctx: "dget ctx ''release'' = PDict rel" "dget ctx ''agent'' = PDict ag"
      "dget ctx ''actor'' = PDict [(''actor_id'', opt_val actor)]" "dget ctx ''channel'' = opt_val channel"
    and rel: "dget rel ''status'' = dget release ''status''"
      "dget rel ''visibility'' = PStr (visibility_of release agent)"
    and ag: "dget_or ag ''enabled'' (PBool True) = PBool (truthy (dget_or agent ''enabled'' (PBool True)))"
      "dget ag ''owner_user_id'' = dget agent ''owner_user_id''"
    and ch: "py_list (py_or (dget agent ''channels'') (PList [])) = Inr chans" "dget ag ''channels'' = PList chans"
    using assms by (rule built_context)
  have val: "validate_runtime_context db ctx =
      check_run db rel ag (opt_val actor) (opt_val channel) (PList chans)"
    using ctx ch(2) by (simp add: validate_runtime_context_def dict_value_def)
  have vis: "py_str (py_or (PStr (visibility_of release agent)) (PStr ''private'')) = visibility_of release agent"
    using visibility_nonempty by (simp add: py_or_def)
  have cs: "py_list (py_or (PList chans) (PList [])) = Inr chans" by (cases chans) (simp_all add: py_or_def)
  have "check_run db rel ag (opt_val actor) (opt_val channel) (PList chans) = Inr () \<longleftrightarrow>
      dget release ''status'' = PStr ''published'' \<and> truthy (dget_or agent ''enabled'' (PBool True)) \<and>
      (\<exists>a c. actor = Some a \<and> a \<noteq> [] \<and> user_is_active db a \<and>
        (visibility_of release agent = ''public'' \<or> dget agent ''owner_user_id'' = PStr a \<or>
         user_has_role db a PLATFORM_ADMIN_ROLE) \<and>
        channel = Some c \<and> c \<in> set (map py_str chans))"
    unfolding check_run_def rel ag vis cs py_eq_str
    by (cases actor; cases channel) (auto simp: py_eq_str_left)
  then show ?thesis using val cfg ch(1) by auto
qed

section \<open>Governance when the lookup fails\<close>

text \<open>A context for no actor, or one whose governance lookup failed at once, carries no namespace
  policy, no sharing preference and \<open>policy_available = False\<close>; a lookup that succeeds reports the
  rows of the tenant and of this actor only.
\<close>

theorem governance_lookup:
  "fetch_memory_governance tenant FaultFirst db actor vis = fetch_memory_governance tenant fault db None vis \<and>
   dget (fetch_memory_governance tenant fault db None vis) ''policy_available'' = PBool False \<and>
   (\<forall>a rows ns b. a \<noteq> [] \<longrightarrow> p_user_preferences db = Some rows \<longrightarrow>
      (ns, b) \<in> set (as_dict (dget (fetch_memory_governance tenant NoFault db (Some a) vis) ''user_preferences'')) \<longrightarrow>
      (\<exists>share. b = PBool share \<and>
         ((if py_strip tenant = [] then ''default'' else py_strip tenant), a, ns, share) \<in> set rows))"
  by (auto simp: fetch_memory_governance_def Let_def missing_actor_def governance_base_def
      preferences_value_def)

text \<open>
  A failed lookup of the preferences is not restrictive: a user who switched sharing of a namespace
  off is shown the unattributed records of that namespace again.
\<close>

definition legacy_item :: memory_item where
  "legacy_item =
     \<lparr>it_id = ''1'', it_type = ''semantic'', it_key = ''lang'', it_content = ''de'',
      it_scope = ''user_global'', it_namespace = ''preferences'', it_version = 1,
      it_source_agent_id = None, it_source_kind = ''legacy'', it_metadata = []\<rparr>"

definition looked_up :: "lookup_fault \<Rightarrow> governance outcome" where
  "looked_up fault =
     governance_from_runtime_context
       (PDict [(''memory_governance'',
                 PDict (fetch_memory_governance [] fault sample_platform (Some ''u1'') ''private''))])
       (Some ''a1'')"

lemma lookup_failure_widens_recall:
  "\<exists>g g'. looked_up NoFault = Inr g \<and> looked_up FaultBetween = Inr g' \<and>
     \<not> can_recall legacy_item g \<and> can_recall legacy_item g'"
  by (simp add: looked_up_def governance_from_runtime_context_def fetch_memory_governance_def
      sample_platform_def missing_actor_def governance_base_def policies_value_def preferences_value_def
      py_strip_def Let_def dict_items_def first_truthy_def py_or_def resolve_agent_id_def
      read_preference_def can_recall_def legacy_item_def public_gate_def policy_for_def share_enabled_def)

definition sample_release :: pydict where
  "sample_release =
     [(''release_id'', PStr ''r1''), (''agent_id'', PStr ''a1''), (''version'', PInt 1),
      (''status'', PStr ''published''), (''visibility'', PNone),
      (''config_json'', PDict [(''agent'', PDict [(''owner_user_id'', PStr ''u1''),
                                                (''channels'', PList [PStr ''web''])])])]"

definition sample_env :: context_env where
  "sample_env = \<lparr>ce_tenant = [], ce_fault = NoFault, ce_local_runner = ''mcp+stdio://python''\<rparr>"

lemma sample_no_tools:
  "resolve_tools sample_env sample_platform [(''agent'', v)] (Some ''u1'') =
     Inr \<lparr>rt_authz = \<lparr>az_tools = [], az_policy =
            [(''runtime_authz_filtered'', str_list []), (''scope_denied_tools'', str_list []),
             (''runtime_authz_source'', PStr ''role_tool_permissions'')]\<rparr>,
          rt_released = [], rt_active = [], rt_policy_refreshed = [], rt_connection_filtered = []\<rparr>"
proof -
  have "apply_runtime_tool_authz sample_platform [] (Some ''u1'') [] =
     Inr \<lparr>az_tools = [], az_policy =
            [(''runtime_authz_filtered'', str_list []), (''scope_denied_tools'', str_list []),
             (''runtime_authz_source'', PStr ''role_tool_permissions'')]\<rparr>"
    by (simp add: apply_runtime_tool_authz_def missing_actor_def sample_scopes snapshot_role_tool_scopes_def
        authz_tools_def effective_tools_def sorted_set_def Let_def)
  moreover have "release_tool_ids [(''agent'', v)] = []"
    by (simp add: release_tool_ids_def py_or_def unique_def map_filter_simps)
  moreover have "active_tool_ids sample_platform [] = []" by (simp add: active_tool_ids_def)
  ultimately show ?thesis
    by (simp add: resolve_tools_def py_or_def Let_def refresh_active_tool_runtime_policies_def
        tool_ids_of_def refresh_mcp_connection_configs_def unique_def)
qed

lemma sample_built: "\<exists>ctx. build_runtime_context sample_env sample_platform sample_release (Some ''u1'') (Some ''web'') = Inr ctx"
  by (simp add: build_runtime_context_def sample_release_def dindex_def sample_no_tools Let_def
      tool_scopes_of_def release_section_def agent_section_def py_or_def)

definition sample_config :: pydict where
  "sample_config = [(''tools'', PList [PDict sample_tool])]"

definition sample_row :: tool_row where
  "sample_row = hd (p_tools sample_platform)"

text \<open>The sample tool after normalisation and refresh.\<close>

definition sample_cfg :: pydict where
  "sample_cfg =
     [(''tool_id'', PStr ''search''), (''scope'', scope_val [(''db'', [''a''])]),
      (''runner_tool_id'', PStr ''mcp+stdio://python''), (''runner_name'', PStr ''search''),
      (''name'', PStr ''search''), (''description'', PStr []), (''source'', PStr ''mcp''),
      (''input_schema'', PDict []), (''read_only'', PBool True), (''idempotent'', PBool True),
      (''parallel_safe'', PBool True), (''requires_approval'', PBool False),
      (''side_effect_level'', PStr ''none''), (''data_sensitivity'', PStr ''internal''),
      (''network_access'', PStr ''none''), (''timeout_ms'', PInt 8000)]"

lemma sample_normalized:
  "normalize_tool_config ''mcp+stdio://python'' sample_tool = Inr sample_cfg"
proof -
  have "dict_or_none (dget sample_tool ''scope'') = scope_val [(''db'', [''a''])]"
    by (simp add: sample_tool_def dict_or_none_def scope_val_def)
  then have sc: "normalize_scope (dict_or_none (dget sample_tool ''scope'')) = Inr [(''db'', [''a''])]"
    by (simp add: normalize_scope_val sorted_set_def)
  have run: "tool_runner ''mcp+stdio://python'' sample_tool ''search'' =
      (''mcp+stdio://python'', PStr ''search'', ''mcp'')"
    by (simp add: tool_runner_def sample_tool_def py_or_def starts_with_def remove_prefix_def Let_def)
  have id: "dindex sample_tool ''tool_id'' = Inr (PStr ''search'')" by (simp add: dindex_def sample_tool_def)
  show ?thesis
    unfolding normalize_tool_config_def id sum.case py_str.simps Let_def run prod.case sc
    by (simp add: sample_tool_def py_or_def dict_or_empty_def dmerge_def sample_cfg_def)
qed

definition sample_run_tool :: pydict where
  "sample_run_tool = dmerge sample_cfg (tool_policy sample_row)"

lemma sample_run_tool_simps:
  "dget sample_run_tool ''tool_id'' = PStr ''search''"
  "dget sample_run_tool ''scope'' = scope_val [(''db'', [''a''])]"
  "dget sample_run_tool ''mcp_connection_id'' = PNone"
  "dget sample_run_tool ''requires_approval'' = PBool True"
  unfolding sample_run_tool_def
  by (simp_all add: map_of_dict_merge [OF policy_keys_distinct])
    (simp_all add: tool_policy_def sample_cfg_def sample_row_def sample_platform_def)

lemma sample_authorized:
  "\<exists>r. apply_runtime_tool_authz sample_platform [sample_run_tool] (Some ''u1'') [] = Inr r \<and>
     az_tools r = [sample_run_tool]"
proof -
  have req: "normalize_scope (dict_or_empty (dget sample_run_tool ''scope'')) = Inr [(''db'', [''a''])]"
  proof -
    have "dict_or_empty (scope_val s) = scope_val s" for s by (simp add: dict_or_empty_def scope_val_def)
    then show ?thesis by (simp add: sample_run_tool_simps(2) normalize_scope_val sorted_set_def)
  qed
  have id: "get_text sample_run_tool ''tool_id'' = ''search''"
    by (simp add: get_text_def sample_run_tool_simps(1))
  have "scope_is_subset (dict_or_empty (dget sample_run_tool ''scope'')) (scope_lookup (sample_grants [''a'']) ''search'') =
      Inr True"
    using subset_lookup [OF req, of "sample_grants [''a'']" "''search''"]
    by (simp add: sample_grants_def tool_values_def)
  then have "tool_verdict (effective_tools [''search''] [''search''] (map fst (sample_grants [''a'']))) []
      (sample_grants [''a'']) sample_run_tool = Inr Allowed"
    by (simp add: tool_verdict_def Let_def id effective_tools_def) (simp add: sample_grants_def)
  then obtain r where r: "authz_tools [sample_run_tool] [] (sample_grants [''a'']) = Inr r"
    "az_tools r = [sample_run_tool]"
    by (simp add: authz_tools_def Let_def id)
  have "traverse (\<lambda>t. dindex t ''tool_id'') [sample_run_tool] = Inr [PStr ''search'']"
    using sample_run_tool_simps(1) by (simp add: dindex_def dget_def dget_or_def split: option.splits)
  moreover have "snapshot_role_tool_scopes [] = Inr []" by (simp add: snapshot_role_tool_scopes_def)
  ultimately show ?thesis using r
    by (simp add: apply_runtime_tool_authz_def missing_actor_def sample_scopes)
qed

lemma sample_resolved:
  "\<exists>rt. resolve_tools sample_env sample_platform sample_config (Some ''u1'') = Inr rt \<and>
     az_tools (rt_authz rt) = [sample_run_tool]"
proof -
  have rel: "release_tool_ids sample_config = [''search'']"
    by (simp add: release_tool_ids_def sample_config_def py_or_def unique_def map_filter_simps
        sample_tool_def get_text_def)
  have act: "active_tool_ids sample_platform [''search''] = [''search'']"
    by (simp add: active_tool_ids_def sample_platform_def)
  have "dget sample_tool ''tool_id'' = PStr ''search''" by (simp add: sample_tool_def)
  then have cfgs: "active_configs ''mcp+stdio://python'' [''search''] [PDict sample_tool] = Inr [sample_cfg]"
    by (simp add: sample_normalized)
  have id: "dget sample_cfg ''tool_id'' = PStr ''search''" by (simp add: sample_cfg_def)
  have "tool_ids_of [sample_cfg] = [''search'']"
    by (simp add: tool_ids_of_def get_text_def id unique_def)
  moreover have "fetch_active_tool_runtime_policies sample_platform [''search''] = [(''search'', tool_policy sample_row)]"
    by (simp add: fetch_active_tool_runtime_policies_def sample_row_def sample_platform_def)
  ultimately obtain changed where ref: "refresh_active_tool_runtime_policies sample_platform [sample_cfg] =
      ([sample_run_tool], changed)"
    by (simp add: refresh_active_tool_runtime_policies_def Let_def refresh_policy_def id py_or_def
        sample_run_tool_def)
  have link: "refresh_mcp_connection_configs sample_platform [sample_run_tool] = ([sample_run_tool], [])"
    by (simp add: refresh_mcp_connection_configs_def sample_run_tool_simps(3) unique_def)
  have tools: "py_or (dget sample_config ''tools'') (PList []) = PList [PDict sample_tool]"
    and snap: "as_dict (dget sample_config ''permission_snapshot'') = []"
    by (simp_all add: sample_config_def py_or_def)
  have env: "ce_local_runner sample_env = ''mcp+stdio://python''" by (simp add: sample_env_def)
  show ?thesis
    using sample_authorized
    unfolding resolve_tools_def tools pyval.case Let_def rel act env cfgs sum.case ref link prod.case snap
    by auto
qed

lemma resolved_tools_current_witness:
  "\<exists>rt. resolve_tools sample_env sample_platform sample_config (Some ''u1'') = Inr rt \<and>
     az_tools (rt_authz rt) = [sample_run_tool] \<and>
     (\<exists>t \<in> set (p_tools sample_platform). carries_policy t sample_run_tool)"
proof -
  obtain rt where rt: "resolve_tools sample_env sample_platform sample_config (Some ''u1'') = Inr rt"
    "az_tools (rt_authz rt) = [sample_run_tool]"
    using sample_resolved by blast
  have "distinct (map t_id (p_tools sample_platform))" by (simp add: sample_platform_def)
  from resolved_tools_current [OF rt(1) this, of sample_run_tool] rt show ?thesis by auto
qed

lemma governance_lookup_witness:
  "\<exists>share. dget (fetch_memory_governance [] NoFault sample_platform (Some ''u1'') ''private'') ''user_preferences'' =
       PDict [(''preferences'', PBool share)] \<and>
     (''default'', ''u1'', ''preferences'', share) \<in> {(''default'', ''u1'', ''preferences'', False)}"
proof -
  have prefs: "dget (fetch_memory_governance [] NoFault sample_platform (Some ''u1'') ''private'') ''user_preferences'' =
      PDict [(''preferences'', PBool False)]"
    by (simp add: fetch_memory_governance_def missing_actor_def governance_base_def Let_def
        preferences_value_def sample_platform_def py_strip_def)
  have rows: "p_user_preferences sample_platform = Some [(''default'', ''u1'', ''preferences'', False)]"
    by (simp add: sample_platform_def)
  have mem: "(''preferences'', PBool False) \<in>
      set (as_dict (dget (fetch_memory_governance [] NoFault sample_platform (Some ''u1'') ''private'') ''user_preferences''))"
    using prefs by simp
  have ne: "''u1'' \<noteq> []" by simp
  note spec = governance_lookup [of "[]" sample_platform "Some ''u1''" "''private''" NoFault,
      THEN conjunct2, THEN conjunct2, rule_format, OF ne rows mem]
  then obtain share where "PBool False = PBool share"
    "((if py_strip [] = [] then ''default'' else py_strip []), ''u1'', ''preferences'', share) \<in>
       set [(''default'', ''u1'', ''preferences'', False)]" by blast
  then show ?thesis using prefs by (auto simp: py_strip_def)
qed
end
