(* ===== verification/Runtime_Cache.thy ===== *)
theory Runtime_Cache
  imports Runtime_Context
begin

text \<open>
  The release configuration cache (\<open>runtime_cache.py\<close>), its invalidation events
  (\<open>runtime_invalidation.py\<close>) and the read-through of a release's configuration
  (\<open>_release_config_json\<close>, \<open>fetch_agent_release\<close> in \<open>runtime_context.py\<close>). L1 is an ordered
  dictionary in the process, L2 a Redis server: its contents are a map from keys to the decoded JSON
  values, and every access may fail (the \<open>fault\<close> argument). Entries of L2 may also vanish when their
  time is up (\<open>l2_forget\<close>). The contract of a cache is the locale \<open>config_cache\<close>: it only ever
  returns what was true; the read-through is proved correct for every such cache.
\<close>

section \<open>The interface\<close>

locale config_cache =
  fixes get :: "'s \<Rightarrow> 'k \<Rightarrow> pydict option \<times> 's"
    and put :: "'s \<Rightarrow> 'k \<Rightarrow> pydict \<Rightarrow> 's"
    and holds :: "('k \<Rightarrow> pydict option) \<Rightarrow> 's \<Rightarrow> bool"
  assumes get_true: "holds truth s \<Longrightarrow> get s k = (Some v, s') \<Longrightarrow> truth k = Some v"
    and get_holds: "holds truth s \<Longrightarrow> get s k = (r, s') \<Longrightarrow> holds truth s'"
    and put_holds: "holds truth s \<Longrightarrow> truth k = Some v \<Longrightarrow> holds truth (put s k v)"
begin

text \<open>\<open>get\<close>, or the source and then \<open>put\<close>.\<close>

fun read_through :: "('k \<Rightarrow> pydict option) \<Rightarrow> 's \<Rightarrow> 'k \<Rightarrow> pydict option \<times> 's" where
  "read_through source s k =
     (case get s k of
        (Some v, s') \<Rightarrow> (Some v, s')
      | (None, s') \<Rightarrow>
          (case source k of
             None \<Rightarrow> (None, s')
           | Some v \<Rightarrow> (Some v, put s' k v)))"

lemma read_through_transparent:
  assumes "holds source s"
  shows "fst (read_through source s k) = source k \<and> holds source (snd (read_through source s k))"
proof -
  obtain r s' where g: "get s k = (r, s')" by (cases "get s k")
  show ?thesis
  proof (cases r)
    case None
    then show ?thesis
      using g get_holds [OF assms g] put_holds by (cases "source k") simp_all
  next
    case (Some v)
    then show ?thesis using g get_true [OF assms] get_holds [OF assms g] by simp
  qed
qed

end

section \<open>Settings, keys and the L1 dictionary\<close>

record cache_settings =
  rc_enabled :: bool
  rc_key_prefix :: string
  rc_ttl_seconds :: int
  rc_l1_max_entries :: nat

record cache_state =
  ca_l1 :: "(string \<times> pydict) list"
  ca_l2 :: "string \<Rightarrow> pyval option"

definition empty_cache :: cache_state where
  "empty_cache = \<lparr>ca_l1 = [], ca_l2 = (\<lambda>k. None)\<rparr>"

definition cache_key :: "cache_settings \<Rightarrow> string \<Rightarrow> string \<Rightarrow> string \<Rightarrow> string" where
  "cache_key cfg agent_id release_id version =
     rc_key_prefix cfg @ '':agent:'' @ agent_id @ '':release:'' @ release_id @ '':version:'' @ version"

definition artifact_key ::
  "cache_settings \<Rightarrow> string \<Rightarrow> string \<Rightarrow> string \<Rightarrow> string \<Rightarrow> string \<Rightarrow> string" where
  "artifact_key cfg artifact_type artifact_version agent_id release_id version =
     rc_key_prefix cfg @ '':artifact:'' @ artifact_type @ '':'' @ artifact_version @
     '':agent:'' @ agent_id @ '':release:'' @ release_id @ '':version:'' @ version"

text \<open>The ordered dictionary: oldest entry first; \<open>move_to_end\<close> and \<open>popitem(last=False)\<close>.\<close>

definition l1_get :: "string \<Rightarrow> (string \<times> pydict) list \<Rightarrow> pydict option \<times> (string \<times> pydict) list" where
  "l1_get k l1 =
     (case map_of l1 k of
        None \<Rightarrow> (None, l1)
      | Some v \<Rightarrow> (Some v, filter (\<lambda>p. fst p \<noteq> k) l1 @ [(k, v)]))"

definition l1_set :: "nat \<Rightarrow> string \<Rightarrow> pydict \<Rightarrow> (string \<times> pydict) list \<Rightarrow> (string \<times> pydict) list" where
  "l1_set max_entries k v l1 =
     (let l = filter (\<lambda>p. fst p \<noteq> k) l1 @ [(k, v)]
      in drop (length l - max_entries) l)"

definition l1_pop :: "string \<Rightarrow> (string \<times> pydict) list \<Rightarrow> (string \<times> pydict) list" where
  "l1_pop k l1 = filter (\<lambda>p. fst p \<noteq> k) l1"

section \<open>The two levels\<close>

definition cache_get ::
  "cache_settings \<Rightarrow> bool \<Rightarrow> cache_state \<Rightarrow> string \<Rightarrow> pydict option \<times> cache_state" where
  "cache_get cfg fault st key =
     (if \<not> rc_enabled cfg then (None, st)
      else case l1_get key (ca_l1 st) of
             (Some v, l1) \<Rightarrow> (Some v, st\<lparr>ca_l1 := l1\<rparr>)
           | (None, l1) \<Rightarrow>
               if fault then (None, st)
               else case ca_l2 st key of
                      Some (PDict d) \<Rightarrow>
                        (Some d, st\<lparr>ca_l1 := l1_set (rc_l1_max_entries cfg) key d (ca_l1 st)\<rparr>)
                    | _ \<Rightarrow> (None, st))"

definition cache_set ::
  "cache_settings \<Rightarrow> bool \<Rightarrow> cache_state \<Rightarrow> string \<Rightarrow> pydict \<Rightarrow> cache_state" where
  "cache_set cfg fault st key v =
     (if \<not> rc_enabled cfg then st
      else let st1 = st\<lparr>ca_l1 := l1_set (rc_l1_max_entries cfg) key v (ca_l1 st)\<rparr>
           in if fault then st1 else st1\<lparr>ca_l2 := (ca_l2 st1)(key \<mapsto> PDict v)\<rparr>)"

definition cache_delete :: "cache_settings \<Rightarrow> bool \<Rightarrow> cache_state \<Rightarrow> string \<Rightarrow> cache_state" where
  "cache_delete cfg fault st key =
     (if \<not> rc_enabled cfg then st
      else let st1 = st\<lparr>ca_l1 := l1_pop key (ca_l1 st)\<rparr>
           in if fault then st1 else st1\<lparr>ca_l2 := (ca_l2 st1)(key := None)\<rparr>)"

text \<open>The time to live of an L2 entry ends.\<close>

definition l2_forget :: "string \<Rightarrow> cache_state \<Rightarrow> cache_state" where
  "l2_forget key st = st\<lparr>ca_l2 := (ca_l2 st)(key := None)\<rparr>"

section \<open>Invalidation events\<close>

definition SUPPORTED_EVENTS :: "string list" where
  "SUPPORTED_EVENTS = [''release.published'', ''release.revoked'', ''tool.policy.changed'']"

text \<open>
  \<open>None\<close> is a text \<open>json.loads\<close> rejects. A decoded value that is not an object has no \<open>get\<close>: the
  exception leaves \<open>apply_event\<close>.
\<close>

definition apply_event ::
  "cache_settings \<Rightarrow> bool \<Rightarrow> pyval option \<Rightarrow> cache_state \<Rightarrow> (bool \<times> cache_state) outcome" where
  "apply_event cfg fault raw st =
     (case raw of
        None \<Rightarrow> Inr (False, st)
      | Some (PDict payload) \<Rightarrow>
          let event_type = py_str (py_or (dget payload ''event_type'') (PStr ''unknown''));
              release_id = dget payload ''release_id'';
              version = dget payload ''release_version'';
              agent_id = dget payload ''agent_id''
          in if \<not> py_eq (dget payload ''schema_version'') (PInt 1) \<or> event_type \<notin> set SUPPORTED_EVENTS
             then Inr (False, st)
             else if truthy release_id \<and> is_int version \<and> truthy agent_id
             then Inr (True, cache_delete cfg fault st
                               (cache_key cfg (py_str agent_id) (py_str release_id) (py_str version)))
             else Inr (True, st)
      | Some _ \<Rightarrow> Inl (AttributeError ''get''))"

section \<open>The read-through of a release\<close>

text \<open>The faults of the two L2 accesses of one read: the lookup and the store.\<close>

definition release_config_json ::
  "cache_settings \<Rightarrow> bool \<Rightarrow> bool \<Rightarrow> platform_db \<Rightarrow> string \<Rightarrow> string \<Rightarrow> int \<Rightarrow> cache_state \<Rightarrow>
   pydict ctx \<times> cache_state" where
  "release_config_json cfg get_fault set_fault db agent_id release_id version st =
     (let key = cache_key cfg agent_id release_id (int_text version)
      in case cache_get cfg get_fault st key of
           (Some v, st1) \<Rightarrow> (Inr v, st1)
         | (None, st1) \<Rightarrow>
             (case map_option l_config_json (find_release db agent_id release_id) of
                Some (PDict config) \<Rightarrow> (Inr config, cache_set cfg set_fault st1 key config)
              | _ \<Rightarrow> (Inl (RuntimeContextError ''release config_json invalid'' 422), st1)))"

definition fetch_agent_release ::
  "cache_settings \<Rightarrow> bool \<Rightarrow> bool \<Rightarrow> platform_db \<Rightarrow> string \<Rightarrow> string \<Rightarrow> cache_state \<Rightarrow>
   pydict option ctx \<times> cache_state" where
  "fetch_agent_release cfg get_fault set_fault db agent_id release_id st =
     (case find_release db agent_id release_id of
        None \<Rightarrow> (Inr None, st)
      | Some l \<Rightarrow>
          (case release_config_json cfg get_fault set_fault db agent_id release_id (l_version l) st of
             (Inl e, st1) \<Rightarrow> (Inl e, st1)
           | (Inr config, st1) \<Rightarrow>
               (Inr (Some (release_fields l @ [(''config_json'', PDict config)])), st1)))"

definition fetch_agent_release_by_version ::
  "cache_settings \<Rightarrow> bool \<Rightarrow> bool \<Rightarrow> platform_db \<Rightarrow> string \<Rightarrow> int \<Rightarrow> cache_state \<Rightarrow>
   pydict option ctx \<times> cache_state" where
  "fetch_agent_release_by_version cfg get_fault set_fault db agent_id version st =
     (case find_release_by_version db agent_id version of
        None \<Rightarrow> (Inr None, st)
      | Some l \<Rightarrow>
          (case release_config_json cfg get_fault set_fault db agent_id (l_id l) (l_version l) st of
             (Inl e, st1) \<Rightarrow> (Inl e, st1)
           | (Inr config, st1) \<Rightarrow>
               (Inr (Some (release_fields l @ [(''config_json'', PDict config)])), st1)))"

definition resolve_release ::
  "context_env \<Rightarrow> platform_db \<Rightarrow> pydict option ctx \<Rightarrow> string \<Rightarrow> string \<Rightarrow> pydict ctx" where
  "resolve_release env db fetched actor channel =
     (case fetched of
        Inl e \<Rightarrow> Inl e
      | Inr None \<Rightarrow> Inl (RuntimeContextError ''release not found'' 404)
      | Inr (Some release) \<Rightarrow>
          (case build_runtime_context env db release (Some actor) (Some channel) of
             Inl e \<Rightarrow> Inl e
           | Inr context \<Rightarrow>
               (case validate_runtime_context db context of
                  Inl e \<Rightarrow> Inl e
                | Inr _ \<Rightarrow> Inr context)))"

definition resolve_runtime_context ::
  "context_env \<Rightarrow> cache_settings \<Rightarrow> bool \<Rightarrow> bool \<Rightarrow> platform_db \<Rightarrow> string \<Rightarrow> string \<Rightarrow> string \<Rightarrow> string \<Rightarrow>
   cache_state \<Rightarrow> pydict ctx \<times> cache_state" where
  "resolve_runtime_context env cfg gf sf db agent_id release_id actor channel st =
     (case fetch_agent_release cfg gf sf db agent_id release_id st of
        (fetched, st1) \<Rightarrow> (resolve_release env db fetched actor channel, st1))"

definition resolve_runtime_context_by_version ::
  "context_env \<Rightarrow> cache_settings \<Rightarrow> bool \<Rightarrow> bool \<Rightarrow> platform_db \<Rightarrow> string \<Rightarrow> int \<Rightarrow> string \<Rightarrow> string \<Rightarrow>
   cache_state \<Rightarrow> pydict ctx \<times> cache_state" where
  "resolve_runtime_context_by_version env cfg gf sf db agent_id version actor channel st =
     (case fetch_agent_release_by_version cfg gf sf db agent_id version st of
        (fetched, st1) \<Rightarrow> (resolve_release env db fetched actor channel, st1))"

section \<open>A cache only returns what was true\<close>

definition cache_holds :: "(string \<Rightarrow> pydict option) \<Rightarrow> cache_state \<Rightarrow> bool" where
  "cache_holds truth st \<longleftrightarrow>
     (\<forall>(k, v) \<in> set (ca_l1 st). truth k = Some v) \<and>
     (\<forall>k d. ca_l2 st k = Some (PDict d) \<longrightarrow> truth k = Some d)"

lemma set_l1_set: "set (l1_set n k v l1) \<subseteq> insert (k, v) (set l1)"
  unfolding l1_set_def Let_def by (rule order_trans [OF set_drop_subset]) auto

lemma holds_l1_set:
  "cache_holds truth st \<Longrightarrow> truth k = Some v \<Longrightarrow>
     cache_holds truth (st\<lparr>ca_l1 := l1_set n k v (ca_l1 st)\<rparr>)"
  using set_l1_set [of n k v "ca_l1 st"] by (auto simp: cache_holds_def)

lemma l1_get_SomeD:
  assumes "l1_get k l1 = (Some v, l)"
  shows "(k, v) \<in> set l1" "set l = set l1 \<or> set l \<subseteq> set l1"
proof -
  have v: "map_of l1 k = Some v" "l = filter (\<lambda>p. fst p \<noteq> k) l1 @ [(k, v)]"
    using assms by (auto simp: l1_get_def split: option.splits)
  then show "(k, v) \<in> set l1" by (simp add: map_of_SomeD)
  then show "set l = set l1 \<or> set l \<subseteq> set l1" using v(2) by auto
qed

interpretation redis: config_cache "cache_get cfg gf" "cache_set cfg sf" cache_holds
  for cfg gf sf
proof (unfold_locales, goal_cases)
  case (1 truth s k v s')
  then show ?case
    by (auto simp: cache_get_def cache_holds_def
        split: if_splits prod.splits option.splits pyval.splits dest!: l1_get_SomeD(1))
next
  case (2 truth s k r s')
  show ?case
  proof (cases "rc_enabled cfg")
    case False
    then show ?thesis using 2 by (simp add: cache_get_def)
  next
    case True
    obtain l1r l1 where l1: "l1_get k (ca_l1 s) = (l1r, l1)" by (cases "l1_get k (ca_l1 s)")
    show ?thesis
    proof (cases l1r)
      case None
      then have "s' = s \<or> (\<exists>d. ca_l2 s k = Some (PDict d) \<and>
          s' = s\<lparr>ca_l1 := l1_set (rc_l1_max_entries cfg) k d (ca_l1 s)\<rparr>)"
        using 2(2) True l1 by (auto simp: cache_get_def split: if_splits option.splits pyval.splits)
      moreover have "truth k = Some d" if "ca_l2 s k = Some (PDict d)" for d
        using 2(1) that by (simp add: cache_holds_def)
      ultimately show ?thesis using 2(1) holds_l1_set [OF 2(1)] by blast
    next
      case (Some v)
      then have "set l1 \<subseteq> set (ca_l1 s)" using l1_get_SomeD(2) l1 by blast
      then show ?thesis
        using 2 True l1 Some by (auto simp: cache_get_def cache_holds_def)
    qed
  qed
next
  case (3 truth s k v)
  have "cache_holds truth (s\<lparr>ca_l1 := l1_set n k v (ca_l1 s)\<rparr>)" for n
    by (rule holds_l1_set [OF 3])
  then show ?case
    using 3 by (auto simp: cache_set_def Let_def cache_holds_def split: if_splits)
qed

section \<open>Keys name one release\<close>

definition no_colon :: "string \<Rightarrow> bool" where
  "no_colon s \<longleftrightarrow> CHR '':'' \<notin> set s"

lemma colon_split:
  assumes "a @ CHR '':'' # x = b @ CHR '':'' # y" "no_colon a" "no_colon b"
  shows "a = b \<and> x = y"
  using assms
proof (induction a arbitrary: b)
  case Nil
  then show ?case by (cases b) (auto simp: no_colon_def)
next
  case (Cons c a)
  then show ?case by (cases b) (auto simp: no_colon_def)
qed

lemma cache_key_inj:
  assumes "cache_key cfg a r v = cache_key cfg a' r' v'"
    and "no_colon a" "no_colon a'" "no_colon r" "no_colon r'"
  shows "a = a' \<and> r = r' \<and> v = v'"
proof -
  have rel: "'':release:'' @ x = CHR '':'' # (''release:'' @ x)"
    and ver: "'':version:'' @ x = CHR '':'' # (''version:'' @ x)" for x
    by (rule append_Cons)+
  have eq: "a @ '':release:'' @ r @ '':version:'' @ v = a' @ '':release:'' @ r' @ '':version:'' @ v'"
    using assms(1) unfolding cache_key_def by (simp only: same_append_eq)
  have a: "a = a' \<and> ''release:'' @ r @ '':version:'' @ v = ''release:'' @ r' @ '':version:'' @ v'"
    by (rule colon_split [OF eq [unfolded rel] assms(2,3)])
  then have "r @ '':version:'' @ v = r' @ '':version:'' @ v'" by (simp only: same_append_eq)
  then have "r = r' \<and> ''version:'' @ v = ''version:'' @ v'"
    by (intro colon_split [OF _ assms(4,5)]) (simp only: ver)
  then show ?thesis using a by (simp only: same_append_eq)
qed

definition release_key :: "cache_settings \<Rightarrow> release_row \<Rightarrow> string" where
  "release_key cfg l = cache_key cfg (l_agent_id l) (l_id l) (int_text (l_version l))"

definition wf_releases :: "platform_db \<Rightarrow> bool" where
  "wf_releases db \<longleftrightarrow>
     distinct (map l_id (p_releases db)) \<and>
     (\<forall>l \<in> set (p_releases db). no_colon (l_agent_id l) \<and> no_colon (l_id l))"

text \<open>What a key stands for in the table.\<close>

definition release_truth :: "cache_settings \<Rightarrow> platform_db \<Rightarrow> string \<Rightarrow> pydict option" where
  "release_truth cfg db k =
     (case find (\<lambda>l. release_key cfg l = k) (p_releases db) of
        Some l \<Rightarrow> (case l_config_json l of PDict d \<Rightarrow> Some d | _ \<Rightarrow> None)
      | None \<Rightarrow> None)"

definition config_of :: "release_row \<Rightarrow> pydict option" where
  "config_of l = (case l_config_json l of PDict d \<Rightarrow> Some d | _ \<Rightarrow> None)"

lemma release_row_unique:
  "wf_releases db \<Longrightarrow> l \<in> set (p_releases db) \<Longrightarrow> l' \<in> set (p_releases db) \<Longrightarrow> l_id l = l_id l' \<Longrightarrow> l = l'"
  by (auto simp: wf_releases_def distinct_map inj_on_def)

lemma release_truth_row:
  assumes "wf_releases db" "l \<in> set (p_releases db)"
  shows "release_truth cfg db (release_key cfg l) = config_of l"
proof -
  have "l' = l" if "l' \<in> set (p_releases db)" "release_key cfg l' = release_key cfg l" for l'
  proof -
    have nc: "no_colon (l_agent_id x)" "no_colon (l_id x)" if "x \<in> set (p_releases db)" for x
      using assms(1) that by (simp_all add: wf_releases_def)
    have "l_id l' = l_id l"
      by (rule cache_key_inj [OF that(2) [unfolded release_key_def] nc(1) [OF that(1)]
            nc(1) [OF assms(2)] nc(2) [OF that(1)] nc(2) [OF assms(2)], THEN conjunct2, THEN conjunct1])
    with that(1) assms show ?thesis using release_row_unique by blast
  qed
  moreover obtain l' where found: "find (\<lambda>l'. release_key cfg l' = release_key cfg l) (p_releases db) = Some l'"
    using assms(2) by (cases "find (\<lambda>l'. release_key cfg l' = release_key cfg l) (p_releases db)")
      (auto simp: find_None_iff)
  ultimately have "find (\<lambda>l'. release_key cfg l' = release_key cfg l) (p_releases db) = Some l"
    using find_SomeD [OF found] by blast
  then show ?thesis by (simp add: release_truth_def config_of_def)
qed

lemma find_release_row:
  "find_release db a r = Some l \<Longrightarrow> l \<in> set (p_releases db) \<and> l_agent_id l = a \<and> l_id l = r"
  unfolding find_release_def by (drule find_SomeD) simp

lemma find_release_by_version_row:
  assumes "find_release_by_version db a v = Some l"
  shows "l \<in> set (p_releases db) \<and> l_agent_id l = a \<and> l_version l = v"
  using find_SomeD [OF assms [unfolded find_release_by_version_def Let_def]] by simp

lemma release_config_read_through:
  assumes "wf_releases db" "find_release db a r = Some l"
  shows "release_config_json cfg gf sf db a r (l_version l) st =
     (case redis.read_through cfg gf sf (release_truth cfg db) st (release_key cfg l) of
        (None, st') \<Rightarrow> (Inl (RuntimeContextError ''release config_json invalid'' 422), st')
      | (Some v, st') \<Rightarrow> (Inr v, st'))"
proof -
  note row = find_release_row [OF assms(2)]
  have key: "cache_key cfg a r (int_text (l_version l)) = release_key cfg l"
    using row by (simp add: release_key_def)
  have truth: "release_truth cfg db (release_key cfg l) = config_of l"
    using release_truth_row [OF assms(1)] row by blast
  show ?thesis
    by (cases "cache_get cfg gf st (release_key cfg l)")
      (auto simp: release_config_json_def Let_def key truth assms(2) config_of_def
        split: option.splits pyval.splits)
qed

lemma find_release_of_row:
  assumes "wf_releases db" "l \<in> set (p_releases db)"
  shows "find_release db (l_agent_id l) (l_id l) = Some l"
proof -
  have "find_release db (l_agent_id l) (l_id l) \<noteq> None"
    using assms(2) by (auto simp: find_release_def find_None_iff)
  then obtain l' where "find_release db (l_agent_id l) (l_id l) = Some l'" by blast
  then have "l' \<in> set (p_releases db)" "l_id l = l_id l'" using find_release_row by fastforce+
  then have "l = l'" by (rule release_row_unique [OF assms])
  then show ?thesis using \<open>find_release db (l_agent_id l) (l_id l) = Some l'\<close> by simp
qed

text \<open>The release as read without any cache.\<close>

definition release_result :: "release_row \<Rightarrow> pydict option ctx" where
  "release_result l =
     (case config_of l of
        None \<Rightarrow> Inl (RuntimeContextError ''release config_json invalid'' 422)
      | Some c \<Rightarrow> Inr (Some (release_fields l @ [(''config_json'', PDict c)])))"

definition stored_release :: "platform_db \<Rightarrow> string \<Rightarrow> string \<Rightarrow> pydict option ctx" where
  "stored_release db a r =
     (case find_release db a r of None \<Rightarrow> Inr None | Some l \<Rightarrow> release_result l)"

definition stored_release_by_version :: "platform_db \<Rightarrow> string \<Rightarrow> int \<Rightarrow> pydict option ctx" where
  "stored_release_by_version db a v =
     (case find_release_by_version db a v of None \<Rightarrow> Inr None | Some l \<Rightarrow> release_result l)"

lemma release_config_correct:
  assumes "wf_releases db" "find_release db a r = Some l" "cache_holds (release_truth cfg db) st"
  shows "fst (release_config_json cfg gf sf db a r (l_version l) st) =
       (case config_of l of
          None \<Rightarrow> Inl (RuntimeContextError ''release config_json invalid'' 422)
        | Some c \<Rightarrow> Inr c)"
    and "cache_holds (release_truth cfg db) (snd (release_config_json cfg gf sf db a r (l_version l) st))"
proof -
  let ?rt = "redis.read_through cfg gf sf (release_truth cfg db) st (release_key cfg l)"
  have truth: "release_truth cfg db (release_key cfg l) = config_of l"
    using release_truth_row [OF assms(1)] find_release_row [OF assms(2)] by blast
  have "fst ?rt = config_of l" "cache_holds (release_truth cfg db) (snd ?rt)"
    using redis.read_through_transparent [OF assms(3), of cfg gf sf "release_key cfg l"] truth by simp_all
  then show "fst (release_config_json cfg gf sf db a r (l_version l) st) =
       (case config_of l of
          None \<Rightarrow> Inl (RuntimeContextError ''release config_json invalid'' 422)
        | Some c \<Rightarrow> Inr c)"
    and "cache_holds (release_truth cfg db) (snd (release_config_json cfg gf sf db a r (l_version l) st))"
    unfolding release_config_read_through [OF assms(1,2)]
    by (cases ?rt; auto split: option.splits)+
qed

lemma fetch_correct:
  assumes "wf_releases db" "cache_holds (release_truth cfg db) st"
  shows "fst (fetch_agent_release cfg gf sf db a r st) = stored_release db a r"
    and "cache_holds (release_truth cfg db) (snd (fetch_agent_release cfg gf sf db a r st))"
proof -
  have "fst (fetch_agent_release cfg gf sf db a r st) = stored_release db a r \<and>
      cache_holds (release_truth cfg db) (snd (fetch_agent_release cfg gf sf db a r st))"
  proof (cases "find_release db a r")
    case None
    then show ?thesis using assms(2) by (simp add: fetch_agent_release_def stored_release_def)
  next
    case (Some l)
    obtain x st' where x: "release_config_json cfg gf sf db a r (l_version l) st = (x, st')"
      by (cases "release_config_json cfg gf sf db a r (l_version l) st")
    with release_config_correct [OF assms(1) Some assms(2), of gf sf] Some show ?thesis
      by (auto simp: fetch_agent_release_def stored_release_def release_result_def split: option.splits)
  qed
  then show "fst (fetch_agent_release cfg gf sf db a r st) = stored_release db a r"
    "cache_holds (release_truth cfg db) (snd (fetch_agent_release cfg gf sf db a r st))" by simp_all
qed

lemma fetch_version_correct:
  assumes "wf_releases db" "cache_holds (release_truth cfg db) st"
  shows "fst (fetch_agent_release_by_version cfg gf sf db a v st) = stored_release_by_version db a v"
    and "cache_holds (release_truth cfg db) (snd (fetch_agent_release_by_version cfg gf sf db a v st))"
proof -
  have "fst (fetch_agent_release_by_version cfg gf sf db a v st) = stored_release_by_version db a v \<and>
      cache_holds (release_truth cfg db) (snd (fetch_agent_release_by_version cfg gf sf db a v st))"
  proof (cases "find_release_by_version db a v")
    case None
    then show ?thesis
      using assms(2) by (simp add: fetch_agent_release_by_version_def stored_release_by_version_def)
  next
    case (Some l)
    have row: "find_release db a (l_id l) = Some l"
      using find_release_by_version_row [OF Some] find_release_of_row [OF assms(1)] by auto
    obtain x st' where x: "release_config_json cfg gf sf db a (l_id l) (l_version l) st = (x, st')"
      by (cases "release_config_json cfg gf sf db a (l_id l) (l_version l) st")
    with release_config_correct [OF assms(1) row assms(2), of gf sf] Some show ?thesis
      by (auto simp: fetch_agent_release_by_version_def stored_release_by_version_def release_result_def
          split: option.splits)
  qed
  then show "fst (fetch_agent_release_by_version cfg gf sf db a v st) = stored_release_by_version db a v"
    "cache_holds (release_truth cfg db) (snd (fetch_agent_release_by_version cfg gf sf db a v st))"
    by simp_all
qed

section \<open>Runs of the cache\<close>

text \<open>
  The configuration of a published release never changes; releases are added, and their status and
  visibility change. Everything else that can happen to the cache: reads with any faults, events
  with any payload, and entries that expire in L2.
\<close>

inductive cache_run :: "cache_settings \<Rightarrow> platform_db \<Rightarrow> cache_state \<Rightarrow> bool" for cfg where
  start: "wf_releases db \<Longrightarrow> cache_run cfg db empty_cache"
| table: "cache_run cfg db st \<Longrightarrow> wf_releases db' \<Longrightarrow>
     release_truth cfg db \<subseteq>\<^sub>m release_truth cfg db' \<Longrightarrow> cache_run cfg db' st"
| fetch: "cache_run cfg db st \<Longrightarrow> fetch_agent_release cfg gf sf db a r st = (x, st') \<Longrightarrow>
     cache_run cfg db st'"
| fetch_version: "cache_run cfg db st \<Longrightarrow>
     fetch_agent_release_by_version cfg gf sf db a v st = (x, st') \<Longrightarrow> cache_run cfg db st'"
| event: "cache_run cfg db st \<Longrightarrow> apply_event cfg fault raw st = Inr (b, st') \<Longrightarrow> cache_run cfg db st'"
| expire: "cache_run cfg db st \<Longrightarrow> cache_run cfg db (l2_forget k st)"

lemma cache_holds_mono: "cache_holds t st \<Longrightarrow> t \<subseteq>\<^sub>m t' \<Longrightarrow> cache_holds t' st"
proof -
  assume h: "cache_holds t st" and le: "t \<subseteq>\<^sub>m t'"
  have "t' k = Some v" if "t k = Some v" for k v using le that by (auto simp: map_le_def dom_def)
  with h show ?thesis unfolding cache_holds_def by blast
qed

lemma cache_holds_delete: "cache_holds t st \<Longrightarrow> cache_holds t (cache_delete cfg fault st k)"
  by (auto simp: cache_holds_def cache_delete_def l1_pop_def Let_def split: if_splits)

lemma cache_holds_event:
  "cache_holds t st \<Longrightarrow> apply_event cfg fault raw st = Inr (b, st') \<Longrightarrow> cache_holds t st'"
  by (auto simp: apply_event_def Let_def cache_holds_delete
      split: option.splits pyval.splits if_splits)

lemma cache_run_holds: "cache_run cfg db st \<Longrightarrow> wf_releases db \<and> cache_holds (release_truth cfg db) st"
proof (induction rule: cache_run.induct)
  case (start db)
  then show ?case by (simp add: cache_holds_def empty_cache_def)
next
  case (table db st db')
  then show ?case using cache_holds_mono by blast
next
  case (fetch db st gf sf a r x st')
  then show ?case using fetch_correct(2) [of db cfg st gf sf a r] by simp
next
  case (fetch_version db st gf sf a v x st')
  then show ?case using fetch_version_correct(2) [of db cfg st gf sf a v] by simp
next
  case (event db st fault raw b st')
  then show ?case using cache_holds_event by blast
next
  case (expire db st k)
  then show ?case by (auto simp: cache_holds_def l2_forget_def)
qed

text \<open>
  C19: The configuration cache is transparent: after any history of reads, invalidation events, L2
  expiries, L2 failures and new releases, fetching a release (by id or by version) returns exactly
  what the table holds now, with its current status and visibility, whether the cache is enabled,
  filled, or its server is failing.
\<close>

theorem cache_transparent:
  assumes "cache_run cfg db st"
  shows "fst (fetch_agent_release cfg gf sf db a r st) = stored_release db a r \<and>
     fst (fetch_agent_release_by_version cfg gf sf db a v st) = stored_release_by_version db a v"
  using cache_run_holds [OF assms] fetch_correct(1) fetch_version_correct(1) by blast

definition sample_release_row :: release_row where
  "sample_release_row =
     \<lparr>l_id = ''r1'', l_agent_id = ''a1'', l_version = 1, l_status = ''published'',
      l_visibility = None, l_config_json = PDict [(''agent'', PDict [])], l_published_at = Some 5\<rparr>"

definition release_platform :: platform_db where
  "release_platform = sample_platform\<lparr>p_releases := [sample_release_row]\<rparr>"

definition sample_cache_settings :: cache_settings where
  "sample_cache_settings =
     \<lparr>rc_enabled = True, rc_key_prefix = ''p'', rc_ttl_seconds = 60, rc_l1_max_entries = 2\<rparr>"

lemma wf_release_platform: "wf_releases release_platform"
  by (simp add: wf_releases_def release_platform_def sample_release_row_def no_colon_def)

lemma cache_transparent_witness:
  "fst (fetch_agent_release sample_cache_settings False True release_platform ''a1'' ''r1''
     (snd (fetch_agent_release sample_cache_settings True False release_platform ''a1'' ''r1'' empty_cache))) =
   Inr (Some (release_fields sample_release_row @ [(''config_json'', PDict [(''agent'', PDict [])])]))"
proof -
  have "cache_run sample_cache_settings release_platform
      (snd (fetch_agent_release sample_cache_settings True False release_platform ''a1'' ''r1'' empty_cache))"
    by (rule cache_run.fetch [OF cache_run.start [OF wf_release_platform]]) (rule prod.collapse [symmetric])
  from cache_transparent [OF this, of False True "''a1''" "''r1''"]
  show ?thesis
    by (simp add: stored_release_def find_release_def release_platform_def release_result_def config_of_def)
      (simp add: sample_release_row_def)
qed

section \<open>The bounded L1 dictionary\<close>

definition wf_l1 :: "nat \<Rightarrow> (string \<times> pydict) list \<Rightarrow> bool" where
  "wf_l1 n l1 \<longleftrightarrow> distinct (map fst l1) \<and> length l1 \<le> n"

lemma distinct_move_to_end:
  "distinct (map fst l1) \<Longrightarrow> distinct (map fst (filter (\<lambda>p. fst p \<noteq> k) l1 @ [(k, v)]))"
  by (induction l1) auto

lemma length_filter_key: "(k, w) \<in> set l1 \<Longrightarrow> length (filter (\<lambda>p. fst p \<noteq> k) l1) < length l1"
  by (rule length_filter_less [where x = "(k, w)"]) simp_all

text \<open>The in-process cache level is an LRU dictionary of bounded size: storing and reading keep its keys
  distinct and its length within \<open>l1_max_entries\<close>; an entry just stored (with room for one) or just
  read is the last to be evicted, and storing evicts only from the front, the entries used
  longest ago.
\<close>

theorem l1_is_lru:
  assumes "wf_l1 n l1"
  shows "wf_l1 n (l1_set n k v l1) \<and> wf_l1 n (snd (l1_get k l1)) \<and>
     (0 < n \<longrightarrow> map_of (l1_set n k v l1) k = Some v \<and> last (l1_set n k v l1) = (k, v)) \<and>
     (\<exists>i. l1_set n k v l1 = drop i (filter (\<lambda>p. fst p \<noteq> k) l1 @ [(k, v)])) \<and>
     fst (l1_get k l1) = map_of l1 k \<and> (\<forall>j. map_of (snd (l1_get k l1)) j = map_of l1 j) \<and>
     (\<forall>w. map_of l1 k = Some w \<longrightarrow> last (snd (l1_get k l1)) = (k, w))"
proof -
  let ?l = "\<lambda>w. filter (\<lambda>p. fst p \<noteq> k) l1 @ [(k, w)]"
  have dist: "distinct (map fst (?l w))" for w
    using assms by (intro distinct_move_to_end) (simp add: wf_l1_def)
  have map: "map_of (?l w) j = (if j = k then Some w else map_of l1 j)" for j w
  proof -
    have "map_of (filter (\<lambda>p. fst p \<noteq> k) l1) j = (if j = k then None else map_of l1 j)"
      by (induction l1) auto
    then show ?thesis by (auto simp: map_add_def split: option.split)
  qed
  have set_wf: "wf_l1 n (l1_set n k v l1)"
  proof -
    have "distinct (map fst (drop i (?l v)))" for i
      unfolding drop_map [symmetric] by (rule distinct_drop [OF dist])
    moreover have "length (drop (length (?l v) - n) (?l v)) \<le> n"
      unfolding length_drop by linarith
    ultimately show ?thesis unfolding wf_l1_def l1_set_def Let_def by blast
  qed
  have kept: "map_of (l1_set n k v l1) k = Some v \<and> last (l1_set n k v l1) = (k, v)" if "0 < n"
  proof -
    have "length (?l v) - n < length (?l v)" using that by simp
    then have "last (l1_set n k v l1) = (k, v)" "(k, v) \<in> set (l1_set n k v l1)"
      by (simp_all add: l1_set_def Let_def last_drop)
    moreover have "distinct (map fst (l1_set n k v l1))" using set_wf by (simp add: wf_l1_def)
    ultimately show ?thesis by simp
  qed
  have get: "wf_l1 n (snd (l1_get k l1)) \<and> fst (l1_get k l1) = map_of l1 k \<and>
      (\<forall>j. map_of (snd (l1_get k l1)) j = map_of l1 j) \<and>
      (\<forall>w. map_of l1 k = Some w \<longrightarrow> last (snd (l1_get k l1)) = (k, w))"
  proof (cases "map_of l1 k")
    case None
    then show ?thesis using assms by (simp add: l1_get_def)
  next
    case (Some w)
    have "length (?l w) \<le> n"
      using length_filter_key [OF map_of_SomeD [OF Some]] assms by (simp add: wf_l1_def)
    then show ?thesis using Some dist [of w] map [of w] by (simp add: l1_get_def wf_l1_def)
  qed
  have "\<exists>i. l1_set n k v l1 = drop i (?l v)" unfolding l1_set_def Let_def by blast
  then show ?thesis using set_wf kept get by blast
qed

lemma l1_is_lru_witness: "map_of (l1_set 1 ''b'' [] [(''a'', [])]) ''b'' = Some []"
proof -
  have "wf_l1 1 [(''a'', [])]" by (simp add: wf_l1_def)
  from l1_is_lru [OF this, of "''b''" "[]"] show ?thesis by simp
qed

section \<open>Invalidation\<close>

text \<open>
  A supported invalidation event that names a release removes its configuration from both levels
  (from L1 even when Redis fails), so that the next read goes to the table; an event of another
  type or schema version, or one that does not parse, changes nothing.
\<close>

theorem event_invalidates:
  assumes "rc_enabled cfg" "dget payload ''schema_version'' = PInt 1"
    and "dget payload ''event_type'' = PStr e" "e \<in> set SUPPORTED_EVENTS"
    and "dget payload ''agent_id'' = PStr a" "dget payload ''release_id'' = PStr r"
    and "dget payload ''release_version'' = PInt v" "a \<noteq> []" "r \<noteq> []"
  shows "\<exists>st'. apply_event cfg fault (Some (PDict payload)) st = Inr (True, st') \<and>
     map_of (ca_l1 st') (cache_key cfg a r (int_text v)) = None \<and>
     (fault \<or> fst (cache_get cfg gf st' (cache_key cfg a r (int_text v))) = None) \<and>
     apply_event cfg fault None st = Inr (False, st)"
proof -
  have "e \<noteq> []" using assms(4) by (auto simp: SUPPORTED_EVENTS_def)
  then have ev: "py_str (py_or (dget payload ''event_type'') (PStr ''unknown'')) = e"
    by (simp add: assms(3) py_or_def)
  let ?k = "cache_key cfg a r (int_text v)"
  have step: "apply_event cfg fault (Some (PDict payload)) st = Inr (True, cache_delete cfg fault st ?k)"
    unfolding apply_event_def Let_def option.case pyval.case ev using assms by simp
  have none: "map_of (filter (\<lambda>p. fst p \<noteq> ?k) l1) ?k = None" for l1 :: "(string \<times> pydict) list"
    by (auto simp: map_of_eq_None_iff)
  then have l1: "map_of (ca_l1 (cache_delete cfg fault st ?k)) ?k = None"
    using assms(1) by (simp add: cache_delete_def Let_def l1_pop_def)
  moreover have "fst (cache_get cfg gf (cache_delete cfg False st ?k) ?k) = None"
    using assms(1) none by (simp add: cache_get_def cache_delete_def Let_def l1_pop_def l1_get_def)
  ultimately show ?thesis using step by (cases fault) (auto simp: apply_event_def)
qed

lemma event_invalidates_witness:
  "\<exists>st'. apply_event sample_cache_settings False
     (Some (PDict [(''schema_version'', PInt 1), (''event_type'', PStr ''release.revoked''),
                   (''agent_id'', PStr ''a1''), (''release_id'', PStr ''r1''), (''release_version'', PInt 3)]))
     empty_cache = Inr (True, st') \<and>
   map_of (ca_l1 st') (cache_key sample_cache_settings ''a1'' ''r1'' (int_text 3)) = None"
proof -
  have "rc_enabled sample_cache_settings" by (simp add: sample_cache_settings_def)
  moreover have "''release.revoked'' \<in> set SUPPORTED_EVENTS" by (simp add: SUPPORTED_EVENTS_def)
  ultimately show ?thesis
    using event_invalidates [of sample_cache_settings
        "[(''schema_version'', PInt 1), (''event_type'', PStr ''release.revoked''),
          (''agent_id'', PStr ''a1''), (''release_id'', PStr ''r1''), (''release_version'', PInt 3)]"
        "''release.revoked''" "''a1''" "''r1''" 3 False empty_cache False] by auto
qed

text \<open>A decoded event that is not an object is neither applied nor reported invalid: it raises.\<close>

lemma non_object_event_raises:
  "apply_event cfg fault (Some (PList xs)) st = Inl (AttributeError ''get'')"
  by (simp add: apply_event_def)

end
