(* ===== verification/Tool_Executor.thy ===== *)
theory Tool_Executor
  imports Prelude
begin

text \<open>
  The tool registry and the tool executor of a turn (\<open>registry.py\<close>, \<open>tools.py\<close>). A handler and a
  hook are functions of the world \<open>'w\<close> they act on; an exception is its class name and its text.
  The clock and \<open>time.sleep\<close> are parameters (a \<open>platform\<close>), and so is the order in which the
  thread pool runs a parallel batch. A call of a batch is one step: what interleaves is whole calls.
\<close>

record tool_metadata =
  read_only :: bool
  parallel_safe :: bool
  idempotent :: bool
  side_effects :: string

definition default_metadata :: tool_metadata where
  "default_metadata =
     \<lparr>read_only = False, parallel_safe = False, idempotent = False, side_effects = ''unspecified''\<rparr>"

definition metadata_dict :: "tool_metadata \<Rightarrow> pydict" where
  "metadata_dict m =
     [(''read_only'', PBool (read_only m)), (''parallel_safe'', PBool (parallel_safe m)),
      (''idempotent'', PBool (idempotent m)), (''side_effects'', PStr (side_effects m))]"

text \<open>The types an input schema names, and \<open>isinstance\<close> for them.\<close>

datatype py_type = TStr | TInt | TFloat | TBool | TList | TDict

fun has_type :: "pyval \<Rightarrow> py_type \<Rightarrow> bool" where
  "has_type (PStr s) t = (t = TStr)"
| "has_type (PBool b) t = (t = TBool \<or> t = TInt)"
| "has_type (PInt i) t = (t = TInt)"
| "has_type (PFloat r) t = (t = TFloat)"
| "has_type (PList xs) t = (t = TList)"
| "has_type (PDict d) t = (t = TDict)"
| "has_type PNone t = False"

type_synonym input_schema = "(string \<times> py_type list) list"
type_synonym 'w handler = "pydict \<Rightarrow> pydict \<Rightarrow> 'w \<Rightarrow> (py_exn + pyval) \<times> 'w"
type_synonym 'w hook = "pydict \<Rightarrow> 'w \<Rightarrow> py_exn option \<times> 'w"

section \<open>The registry of local tools and skills\<close>

record 'w local_tool =
  lt_tool_id :: string
  lt_runner_tool_id :: string
  lt_description :: string
  lt_handler :: "'w handler"
  lt_input_schema :: input_schema
  lt_max_retries :: int
  lt_retry_delay :: rat
  lt_metadata :: tool_metadata

record skill_definition =
  sd_skill_id :: string
  sd_name :: string
  sd_description :: string
  sd_tags :: "string list"
  sd_metadata :: pydict

record 'w runner_registry =
  reg_tools :: "(string \<times> 'w local_tool) list"
  reg_skills :: "(string \<times> skill_definition) list"

definition register_tool ::
  "'w runner_registry \<Rightarrow> string \<Rightarrow> string option \<Rightarrow> string \<Rightarrow> input_schema option \<Rightarrow> int \<Rightarrow> rat \<Rightarrow>
   tool_metadata option \<Rightarrow> 'w handler \<Rightarrow> py_exn + 'w runner_registry" where
  "register_tool reg tool_id runner_tool_id description schema retries delay metadata func =
     (let rid = (case runner_tool_id of
                   Some s \<Rightarrow> if s = [] then ''local.'' @ tool_id else s
                 | None \<Rightarrow> ''local.'' @ tool_id)
      in if map_of (reg_tools reg) rid \<noteq> None
           then Inl (exn ''ValueError'' (''local tool already registered: '' @ rid))
         else Inr (reg\<lparr>reg_tools := reg_tools reg @
                [(rid, \<lparr>lt_tool_id = tool_id, lt_runner_tool_id = rid, lt_description = description,
                        lt_handler = func,
                        lt_input_schema = (case schema of None \<Rightarrow> [] | Some s \<Rightarrow> s),
                        lt_max_retries = retries, lt_retry_delay = delay,
                        lt_metadata = (case metadata of None \<Rightarrow> default_metadata | Some m \<Rightarrow> m)\<rparr>)]\<rparr>))"

definition register_skill ::
  "'w runner_registry \<Rightarrow> skill_definition \<Rightarrow> py_exn + 'w runner_registry" where
  "register_skill reg sd =
     (if map_of (reg_skills reg) (sd_skill_id sd) \<noteq> None
        then Inl (exn ''ValueError'' (''skill already registered: '' @ sd_skill_id sd))
      else Inr (reg\<lparr>reg_skills := reg_skills reg @ [(sd_skill_id sd, sd)]\<rparr>))"

definition get_tool :: "'w runner_registry \<Rightarrow> string \<Rightarrow> py_exn + 'w local_tool" where
  "get_tool reg rid =
     (case map_of (reg_tools reg) rid of
        None \<Rightarrow> Inl (exn ''RegistryError'' (''local tool not registered: '' @ rid))
      | Some t \<Rightarrow> Inr t)"

definition has_tool :: "'w runner_registry \<Rightarrow> string \<Rightarrow> bool" where
  "has_tool reg rid \<longleftrightarrow> map_of (reg_tools reg) rid \<noteq> None"

definition registered_tools :: "'w runner_registry \<Rightarrow> 'w local_tool list" where
  "registered_tools reg = map (\<lambda>k. the (map_of (reg_tools reg) k)) (sort (map fst (reg_tools reg)))"

definition registered_skills :: "'w runner_registry \<Rightarrow> skill_definition list" where
  "registered_skills reg = map (\<lambda>k. the (map_of (reg_skills reg) k)) (sort (map fst (reg_skills reg)))"

section \<open>Tool specifications and argument checks\<close>

record 'w tool_spec =
  ts_name :: string
  ts_description :: string
  ts_input_schema :: input_schema
  ts_handler :: "'w handler"
  ts_max_retries :: int
  ts_retry_delay :: rat
  ts_metadata :: tool_metadata
  ts_json_schema :: pyval

fun type_name :: "pyval \<Rightarrow> string" where
  "type_name PNone = ''NoneType''"
| "type_name (PBool b) = ''bool''"
| "type_name (PInt i) = ''int''"
| "type_name (PFloat r) = ''float''"
| "type_name (PStr s) = ''str''"
| "type_name (PList xs) = ''list''"
| "type_name (PDict d) = ''dict''"

fun type_text :: "py_type \<Rightarrow> string" where
  "type_text TStr = ''str''"
| "type_text TInt = ''int''"
| "type_text TFloat = ''float''"
| "type_text TBool = ''bool''"
| "type_text TList = ''list''"
| "type_text TDict = ''dict''"

definition class_text :: "py_type \<Rightarrow> string" where
  "class_text t = ''<class '' @ [char_of (39::nat)] @ type_text t @ [char_of (39::nat)] @ ''>''"

text \<open>A single type is a list of one; more than one are a tuple of types.\<close>

definition expected_text :: "py_type list \<Rightarrow> string" where
  "expected_text types =
     (case types of
        [t] \<Rightarrow> class_text t
      | _ \<Rightarrow> ''('' @ py_join '', '' (map class_text types) @ '')'')"

fun check_args :: "string \<Rightarrow> input_schema \<Rightarrow> pydict \<Rightarrow> py_exn option" where
  "check_args name [] args = None"
| "check_args name ((key, types) # schema) args =
     (if \<not> has_key args key
        then Some (exn ''ToolValidationError'' (''tool '' @ name @ '' missing required arg: '' @ key))
      else if \<not> list_ex (has_type (dget args key)) types
        then Some (exn ''ToolValidationError''
          (''tool '' @ name @ '' arg '' @ key @ '' expects '' @ expected_text types @ '', got '' @
           type_name (dget args key)))
      else check_args name schema args)"

definition validate_args :: "'w tool_spec \<Rightarrow> pydict \<Rightarrow> py_exn option" where
  "validate_args spec args = check_args (ts_name spec) (ts_input_schema spec) args"

lemma check_args_None:
  "check_args name schema args = None \<longleftrightarrow>
     list_all (\<lambda>(key, types). has_key args key \<and> list_ex (has_type (dget args key)) types) schema"
  by (induction name schema args rule: check_args.induct) auto

definition secret_keys :: "string list" where
  "secret_keys = [''password'', ''token'', ''api_key'', ''secret'']"

definition safe_args :: "pydict \<Rightarrow> pydict" where
  "safe_args args = map (\<lambda>(k, v). (k, if py_lower k \<in> set secret_keys then PStr ''***'' else v)) args"

definition normalize_tool_call :: "pydict \<Rightarrow> nat \<Rightarrow> pydict" where
  "normalize_tool_call call index =
     (let name = py_strip (py_str (py_or (py_or (dget call ''tool_name'') (dget call ''name'')) (PStr [])));
          args = (if is_dict (dget call ''tool_args'') then dget call ''tool_args'' else dget call ''args'')
      in [(''call_id'', PStr (py_str (py_or (dget call ''call_id'')
             (PStr (''tool-call-'' @ nat_text (index + 1)))))),
          (''tool_name'', PStr name), (''tool_args'', PDict (as_dict args))])"

text \<open>The request of the state is an object; its attributes are the entries of a dictionary.\<close>

definition request_value :: "pydict \<Rightarrow> string \<Rightarrow> pyval" where
  "request_value state name =
     (let v = dget (as_dict (dget state ''request'')) name
      in if truthy v then PStr (py_str v) else PNone)"

definition trace_id_from_state :: "pydict \<Rightarrow> pyval" where
  "trace_id_from_state state =
     py_or (request_value state ''trace_id'')
       (py_or (request_value state ''session_id'') (request_value state ''user_id''))"

section \<open>The executor\<close>

record 'w executor =
  ex_tools :: "(string \<times> 'w tool_spec) list"
  before_call :: "'w hook list"
  after_call :: "'w hook list"
  on_error :: "'w hook list"

record 'w platform =
  perf_counter :: "'w \<Rightarrow> rat"
  sleep :: "rat \<Rightarrow> 'w \<Rightarrow> 'w"

definition register :: "'w executor \<Rightarrow> 'w tool_spec \<Rightarrow> py_exn + 'w executor" where
  "register ex spec =
     (if map_of (ex_tools ex) (ts_name spec) \<noteq> None
        then Inl (exn ''ValueError'' (''tool already registered: '' @ ts_name spec))
      else Inr (ex\<lparr>ex_tools := ex_tools ex @ [(ts_name spec, spec)]\<rparr>))"

definition get_spec :: "'w executor \<Rightarrow> string \<Rightarrow> py_exn + 'w tool_spec" where
  "get_spec ex name =
     (case map_of (ex_tools ex) name of
        None \<Rightarrow> Inl (exn ''ToolError'' (''unknown tool: '' @ name))
      | Some spec \<Rightarrow> Inr spec)"

definition catalog_item :: "'w tool_spec \<Rightarrow> pydict" where
  "catalog_item spec =
     (let names = sort (map fst (ts_input_schema spec));
          required = dget (as_dict (ts_json_schema spec)) ''required'';
          args = (if names = [] \<and> is_dict (ts_json_schema spec) \<and> is_list required
                  then sort (map py_str (filter is_str (as_list required))) else names);
          item = dmerge
            [(''name'', PStr (ts_name spec)), (''description'', PStr (ts_description spec)),
             (''required_args'', PList (map PStr args))] (metadata_dict (ts_metadata spec))
      in if is_dict (ts_json_schema spec) \<and> truthy (ts_json_schema spec)
         then dset ''input_schema'' (ts_json_schema spec) item else item)"

definition catalog :: "'w executor \<Rightarrow> pydict list" where
  "catalog ex = map (catalog_item \<circ> snd) (ex_tools ex)"

text \<open>\<open>_fire\<close>: the first hook that raises stops the others.\<close>

fun fire :: "'w hook list \<Rightarrow> pydict \<Rightarrow> 'w \<Rightarrow> py_exn option \<times> 'w" where
  "fire [] event w = (None, w)"
| "fire (h # hs) event w =
     (case h event w of
        (Some e, w') \<Rightarrow> (Some e, w')
      | (None, w') \<Rightarrow> fire hs event w')"

text \<open>\<open>round(x, 2)\<close>: a tie goes to the even hundredth.\<close>

definition py_round2 :: "rat \<Rightarrow> rat" where
  "py_round2 x =
     (let y = x * 100; f = floor y; d = y - of_int f
      in of_int (if d > 1 / 2 \<or> (d = 1 / 2 \<and> odd f) then f + 1 else f) / 100)"

definition base_event ::
  "'w tool_spec \<Rightarrow> string \<Rightarrow> pydict \<Rightarrow> pydict \<Rightarrow> pyval \<Rightarrow> pydict" where
  "base_event spec name args state call_id =
     [(''tool_name'', PStr name), (''args'', PDict (safe_args args)),
      (''trace_id'', trace_id_from_state state),
      (''session_id'', request_value state ''session_id''),
      (''user_id'', request_value state ''user_id''), (''call_id'', call_id),
      (''tool_metadata'', PDict (metadata_dict (ts_metadata spec)))]"

definition ok_result ::
  "'w tool_spec \<Rightarrow> string \<Rightarrow> pydict \<Rightarrow> pyval \<Rightarrow> pyval \<Rightarrow> rat \<Rightarrow> nat \<Rightarrow> pydict" where
  "ok_result spec name args call_id out latency attempt =
     [(''call_id'', call_id), (''tool_name'', PStr name), (''args'', PDict (safe_args args)),
      (''output'', out), (''status'', PStr ''ok''), (''latency_ms'', PFloat latency),
      (''attempt'', PInt (int attempt)), (''tool_metadata'', PDict (metadata_dict (ts_metadata spec)))]"

text \<open>One attempt: the handler and the hooks after it, inside the \<open>try\<close>.\<close>

definition try_once ::
  "'w platform \<Rightarrow> 'w executor \<Rightarrow> 'w tool_spec \<Rightarrow> string \<Rightarrow> pydict \<Rightarrow> pydict \<Rightarrow> pyval \<Rightarrow> nat \<Rightarrow> 'w \<Rightarrow>
   (py_exn + pydict) \<times> 'w" where
  "try_once pf ex spec name args state call_id attempt w =
     (let started = perf_counter pf w
      in case ts_handler spec args state w of
           (Inl e, w1) \<Rightarrow> (Inl e, w1)
         | (Inr out, w1) \<Rightarrow>
             let latency = py_round2 ((perf_counter pf w1 - started) * 1000);
                 event = dmerge (base_event spec name args state call_id)
                   [(''event'', PStr ''tool_after''), (''attempt'', PInt (int attempt)),
                    (''latency_ms'', PFloat latency), (''status'', PStr ''ok''), (''output'', out)]
             in case fire (after_call ex) event w1 of
                  (Some e, w2) \<Rightarrow> (Inl e, w2)
                | (None, w2) \<Rightarrow> (Inr (ok_result spec name args call_id out latency attempt), w2))"

text \<open>The loop over the attempts: the attempt's number, the attempts left, the last exception.\<close>

fun attempts ::
  "'w platform \<Rightarrow> 'w executor \<Rightarrow> 'w tool_spec \<Rightarrow> string \<Rightarrow> pydict \<Rightarrow> pydict \<Rightarrow> pyval \<Rightarrow>
   nat \<Rightarrow> nat \<Rightarrow> py_exn option \<Rightarrow> 'w \<Rightarrow> (py_exn + pydict) \<times> 'w" where
  "attempts pf ex spec name args state call_id k 0 last_exc w =
     (Inl (exn ''ToolError''
        (''tool failed after '' @ int_text (ts_max_retries spec) @ '' attempt(s): '' @ name @
         (case last_exc of None \<Rightarrow> [] | Some e \<Rightarrow> '': '' @ exn_text e))), w)"
| "attempts pf ex spec name args state call_id k (Suc n) last_exc w =
     (case try_once pf ex spec name args state call_id k w of
        (Inr r, w1) \<Rightarrow> (Inr r, w1)
      | (Inl e, w1) \<Rightarrow>
          let event = dmerge (base_event spec name args state call_id)
                [(''event'', PStr ''tool_error''), (''attempt'', PInt (int k)),
                 (''latency_ms'', PFloat (py_round2 ((perf_counter pf w1 - perf_counter pf w) * 1000))),
                 (''status'', PStr ''error''), (''error_type'', PStr (exn_type e)),
                 (''error'', PStr (exn_text e))]
          in case fire (on_error ex) event w1 of
               (Some e', w2) \<Rightarrow> (Inl e', w2)
             | (None, w2) \<Rightarrow>
                 attempts pf ex spec name args state call_id (Suc k) n (Some e)
                   (if n > 0 \<and> ts_retry_delay spec > 0 then sleep pf (ts_retry_delay spec) w2 else w2))"

definition run ::
  "'w platform \<Rightarrow> 'w executor \<Rightarrow> string \<Rightarrow> pydict \<Rightarrow> pydict \<Rightarrow> pyval \<Rightarrow> 'w \<Rightarrow> (py_exn + pydict) \<times> 'w" where
  "run pf ex name args state call_id w =
     (case get_spec ex name of
        Inl e \<Rightarrow> (Inl e, w)
      | Inr spec \<Rightarrow>
          (case validate_args spec args of
             Some e \<Rightarrow> (Inl e, w)
           | None \<Rightarrow>
               (case fire (before_call ex)
                  (dmerge (base_event spec name args state call_id) [(''event'', PStr ''tool_before'')]) w of
                  (Some e, w1) \<Rightarrow> (Inl e, w1)
                | (None, w1) \<Rightarrow>
                    attempts pf ex spec name args state call_id 1 (nat (ts_max_retries spec)) None w1)))"

definition run_call_safely ::
  "'w platform \<Rightarrow> 'w executor \<Rightarrow> pydict \<Rightarrow> pydict \<Rightarrow> 'w \<Rightarrow> pydict \<times> 'w" where
  "run_call_safely pf ex state call w =
     (case run pf ex (py_str (dget call ''tool_name'')) (as_dict (dget call ''tool_args'')) state
             (dget call ''call_id'') w of
        (Inr r, w') \<Rightarrow> (r, w')
      | (Inl e, w') \<Rightarrow>
          ([(''call_id'', dget call ''call_id''), (''tool_name'', dget call ''tool_name''),
            (''args'', PDict (safe_args (as_dict (dget call ''tool_args'')))),
            (''status'', PStr ''error''), (''error_type'', PStr (exn_type e)),
            (''error'', PStr (exn_text e))], w'))"

definition parallel_eligible :: "'w executor \<Rightarrow> string \<Rightarrow> bool" where
  "parallel_eligible ex name =
     (case get_spec ex name of
        Inl e \<Rightarrow> False
      | Inr spec \<Rightarrow> read_only (ts_metadata spec) \<and> parallel_safe (ts_metadata spec))"

text \<open>The calls with the given numbers, one after the other: each number with its result.\<close>

fun run_in_order ::
  "'w platform \<Rightarrow> 'w executor \<Rightarrow> pydict \<Rightarrow> pydict list \<Rightarrow> nat list \<Rightarrow> 'w \<Rightarrow> (nat \<times> pydict) list \<times> 'w" where
  "run_in_order pf ex state calls [] w = ([], w)"
| "run_in_order pf ex state calls (i # is) w =
     (let (r, w1) = run_call_safely pf ex state (calls ! i) w;
          (rs, w2) = run_in_order pf ex state calls is w1
      in ((i, r) # rs, w2))"

definition normalized_calls :: "pydict list \<Rightarrow> pydict list" where
  "normalized_calls calls = map (\<lambda>(i, c). normalize_tool_call c i) (List.enumerate 0 calls)"

text \<open>
  \<open>run_many\<close>. \<open>schedule n\<close> is the order in which the pool runs \<open>n\<close> calls: one whole call after another,
  so that steps of two calls (an attempt of one between the attempts of another) are not interleaved in
  this model. \<open>executor.map\<close> returns the results in the order of the calls, whatever the order of their
  ends.
\<close>

definition run_many ::
  "'w platform \<Rightarrow> (nat \<Rightarrow> nat list) \<Rightarrow> 'w executor \<Rightarrow> pydict list \<Rightarrow> pydict \<Rightarrow> 'w \<Rightarrow> pydict \<times> 'w" where
  "run_many pf schedule ex calls state w =
     (let normalized = normalized_calls calls;
          n = length normalized;
          parallel = (n > 1 \<and>
            list_all (\<lambda>c. parallel_eligible ex (py_str (dget c ''tool_name''))) normalized);
          (rs, w1) = run_in_order pf ex state normalized (if parallel then schedule n else [0..<n]) w;
          results = map (\<lambda>i. the (map_of rs i)) [0..<n]
      in ([(''execution_mode'', PStr (if parallel then ''parallel'' else ''sequential'')),
           (''latency_ms'', PFloat (py_round2 ((perf_counter pf w1 - perf_counter pf w) * 1000))),
           (''results'', PList (map PDict results))], w1))"

section \<open>A call runs its handler at most \<open>max_retries\<close> times\<close>

text \<open>
  \<open>count\<close> reads from the world how often handlers ran: hooks and sleeping leave it, a handler
  raises it by at most one.
\<close>

definition counts_calls :: "('w \<Rightarrow> nat) \<Rightarrow> 'w platform \<Rightarrow> 'w executor \<Rightarrow> bool" where
  "counts_calls count pf ex \<longleftrightarrow>
     (\<forall>d w. count (sleep pf d w) = count w) \<and>
     (\<forall>h \<in> set (before_call ex) \<union> set (after_call ex) \<union> set (on_error ex).
        \<forall>event w. count (snd (h event w)) = count w) \<and>
     (\<forall>spec \<in> snd ` set (ex_tools ex). \<forall>args state w.
        count (snd (ts_handler spec args state w)) \<le> count w + 1)"

lemma fire_keeps:
  assumes "\<And>h event w. h \<in> set hs \<Longrightarrow> count (snd (h event w)) = count w"
  shows "count (snd (fire hs event w)) = count w"
  using assms
proof (induction hs arbitrary: w)
  case Nil
  then show ?case by simp
next
  case (Cons h hs)
  obtain r w' where h: "h event w = (r, w')" by (cases "h event w")
  have "count w' = count w" using Cons.prems [of h event w] h by simp
  moreover have "count (snd (fire hs event w')) = count w'"
    by (rule Cons.IH) (use Cons.prems in auto)
  ultimately show ?case using h by (cases r) simp_all
qed

lemma try_once_count:
  assumes "counts_calls count pf ex" "spec \<in> snd ` set (ex_tools ex)"
  shows "count (snd (try_once pf ex spec name args state cid k w)) \<le> count w + 1"
proof -
  obtain r w1 where h: "ts_handler spec args state w = (r, w1)" by (cases "ts_handler spec args state w")
  have w1: "count w1 \<le> count w + 1"
    using assms h unfolding counts_calls_def by (metis snd_conv)
  have after: "count (snd (fire (after_call ex) event w1)) = count w1" for event
    by (rule fire_keeps) (use assms(1) in \<open>auto simp: counts_calls_def\<close>)
  then have "count (snd (try_once pf ex spec name args state cid k w)) = count w1"
    by (auto simp: try_once_def h Let_def split: sum.splits prod.splits option.splits)
       (metis snd_conv)+
  with w1 show ?thesis by simp
qed

lemma attempts_count:
  assumes "counts_calls count pf ex" "spec \<in> snd ` set (ex_tools ex)"
  shows "count (snd (attempts pf ex spec name args state cid k n last_exc w)) \<le> count w + n"
proof (induction n arbitrary: k last_exc w)
  case 0
  then show ?case by simp
next
  case (Suc n)
  obtain r w1 where once: "try_once pf ex spec name args state cid k w = (r, w1)"
    by (cases "try_once pf ex spec name args state cid k w")
  have w1: "count w1 \<le> count w + 1" using try_once_count [OF assms] once by (metis snd_conv)
  have err: "count (snd (fire (on_error ex) event w1)) = count w1" for event
    by (rule fire_keeps) (use assms(1) in \<open>auto simp: counts_calls_def\<close>)
  have sleep: "count (sleep pf d w) = count w" for d w using assms(1) by (simp add: counts_calls_def)
  show ?case
  proof (cases r)
    case (Inr v)
    then show ?thesis using once w1 by simp
  next
    case (Inl e)
    define event where "event = dmerge (base_event spec name args state cid)
        [(''event'', PStr ''tool_error''), (''attempt'', PInt (int k)),
         (''latency_ms'', PFloat (py_round2 ((perf_counter pf w1 - perf_counter pf w) * 1000))),
         (''status'', PStr ''error''), (''error_type'', PStr (exn_type e)),
         (''error'', PStr (exn_text e))]"
    obtain q w2 where f: "fire (on_error ex) event w1 = (q, w2)" by (cases "fire (on_error ex) event w1")
    have w2: "count w2 = count w1" using err [of event] f by simp
    have step: "attempts pf ex spec name args state cid k (Suc n) last_exc w =
        (case q of Some e' \<Rightarrow> (Inl e', w2)
         | None \<Rightarrow> attempts pf ex spec name args state cid (Suc k) n (Some e)
             (if n > 0 \<and> ts_retry_delay spec > 0 then sleep pf (ts_retry_delay spec) w2 else w2))"
      using once Inl f by (simp add: event_def Let_def)
    show ?thesis
    proof (cases q)
      case None
      let ?w3 = "if n > 0 \<and> ts_retry_delay spec > 0 then sleep pf (ts_retry_delay spec) w2 else w2"
      have "count ?w3 = count w2" using sleep by simp
      then show ?thesis
        using Suc.IH [of "Suc k" "Some e" ?w3] w1 w2 unfolding step None by simp
    next
      case (Some e')
      then show ?thesis using w1 w2 unfolding step by simp
    qed
  qed
qed

text \<open>C35: A call runs the handler of its tool at most \<open>max_retries\<close> times, and not at all when the
  tool is not in the table of the turn or the arguments do not fit the input schema.\<close>

theorem attempt_bound:
  assumes "counts_calls count pf ex"
  shows "count (snd (run pf ex name args state cid w)) \<le> count w +
    (case map_of (ex_tools ex) name of
       None \<Rightarrow> 0
     | Some spec \<Rightarrow>
         if list_all (\<lambda>(key, types). has_key args key \<and> list_ex (has_type (dget args key)) types)
              (ts_input_schema spec)
         then nat (ts_max_retries spec) else 0)"
proof (cases "map_of (ex_tools ex) name")
  case None
  then show ?thesis by (simp add: run_def get_spec_def)
next
  case (Some spec)
  then have spec: "get_spec ex name = Inr spec" "spec \<in> snd ` set (ex_tools ex)"
    by (simp_all add: get_spec_def image_iff) (metis map_of_SomeD snd_conv)
  show ?thesis
  proof (cases "validate_args spec args")
    case (Some e)
    then show ?thesis using spec(1) by (simp add: run_def)
  next
    case None
    then have ok: "list_all (\<lambda>(key, types). has_key args key \<and> list_ex (has_type (dget args key)) types)
        (ts_input_schema spec)"
      by (simp add: validate_args_def check_args_None)
    define event where "event = dmerge (base_event spec name args state cid) [(''event'', PStr ''tool_before'')]"
    obtain q w1 where f: "fire (before_call ex) event w = (q, w1)" by (cases "fire (before_call ex) event w")
    have "count (snd (fire (before_call ex) event w)) = count w"
      by (rule fire_keeps) (use assms in \<open>auto simp: counts_calls_def\<close>)
    then have w1: "count w1 = count w" using f by simp
    have "count (snd (run pf ex name args state cid w)) \<le> count w + nat (ts_max_retries spec)"
    proof (cases q)
      case None
      then show ?thesis
        using attempts_count [OF assms spec(2), of name args state cid 1 "nat (ts_max_retries spec)" None w1]
          spec(1) \<open>validate_args spec args = None\<close> f w1 unfolding event_def
        by (simp add: run_def)
    next
      case (Some e)
      then show ?thesis
        using spec(1) \<open>validate_args spec args = None\<close> f w1 unfolding event_def by (simp add: run_def)
    qed
    with ok Some show ?thesis by simp
  qed
qed

text \<open>A tool that fails until it has run three times, in a world that counts its runs.\<close>

definition flaky :: "nat handler" where
  "flaky args state w =
     (if w + 1 < 3 then Inl (exn ''TimeoutError'' ''late'') else Inr (PDict [(''result'', PStr ''ok'')]), w + 1)"

definition flaky_spec :: "bool \<Rightarrow> int \<Rightarrow> nat tool_spec" where
  "flaky_spec shared retries =
     \<lparr>ts_name = ''orders.read'', ts_description = [], ts_input_schema = [(''order'', [TStr])],
      ts_handler = flaky, ts_max_retries = retries, ts_retry_delay = 0,
      ts_metadata = \<lparr>read_only = shared, parallel_safe = shared, idempotent = True, side_effects = ''none''\<rparr>,
      ts_json_schema = PNone\<rparr>"

definition flaky_executor :: "bool \<Rightarrow> int \<Rightarrow> nat executor" where
  "flaky_executor shared retries =
     \<lparr>ex_tools = [(''orders.read'', flaky_spec shared retries)], before_call = [], after_call = [], on_error = []\<rparr>"

definition still :: "nat platform" where
  "still = \<lparr>perf_counter = (\<lambda>w. 0), sleep = (\<lambda>d w. w)\<rparr>"

lemma flaky_counts: "counts_calls id still (flaky_executor b n)"
  by (simp add: counts_calls_def still_def flaky_executor_def flaky_spec_def flaky_def)

theorem attempt_bound_witness:
  "id (snd (run still (flaky_executor True 2) ''orders.read'' [(''order'', PStr ''o1'')] [] PNone 0)) \<le> 0 + 2 \<and>
   id (snd (run still (flaky_executor True 2) ''orders.read'' [(''order'', PInt 1)] [] PNone 0)) \<le> 0 + 0"
  using attempt_bound [OF flaky_counts [of True 2], of "''orders.read''" "[(''order'', PStr ''o1'')]" "[]" PNone 0]
    attempt_bound [OF flaky_counts [of True 2], of "''orders.read''" "[(''order'', PInt 1)]" "[]" PNone 0]
  by (simp_all add: flaky_executor_def flaky_spec_def)

section \<open>A batch answers every call, in order\<close>

definition answers :: "pydict \<Rightarrow> pydict \<Rightarrow> bool" where
  "answers call result \<longleftrightarrow>
     dget result ''call_id'' = dget call ''call_id'' \<and>
     dget result ''tool_name'' = dget call ''tool_name'' \<and>
     dget result ''args'' = PDict (safe_args (as_dict (dget call ''tool_args''))) \<and>
     dget result ''status'' \<in> {PStr ''ok'', PStr ''error''}"

lemma ok_result_fields [simp]:
  "dget (ok_result spec name args cid out lat k) ''call_id'' = cid"
  "dget (ok_result spec name args cid out lat k) ''tool_name'' = PStr name"
  "dget (ok_result spec name args cid out lat k) ''args'' = PDict (safe_args args)"
  "dget (ok_result spec name args cid out lat k) ''status'' = PStr ''ok''"
  by (simp_all add: ok_result_def)

definition result_of :: "string \<Rightarrow> pydict \<Rightarrow> pyval \<Rightarrow> pydict \<Rightarrow> bool" where
  "result_of name args cid r \<longleftrightarrow>
     dget r ''call_id'' = cid \<and> dget r ''tool_name'' = PStr name \<and>
     dget r ''args'' = PDict (safe_args args) \<and> dget r ''status'' = PStr ''ok''"

lemma try_once_result:
  "try_once pf ex spec name args state cid k w = (Inr r, w') \<Longrightarrow> result_of name args cid r"
  by (auto simp: try_once_def result_of_def Let_def split: sum.splits prod.splits option.splits)

lemma attempts_result:
  "attempts pf ex spec name args state cid k n last_exc w = (Inr r, w') \<Longrightarrow> result_of name args cid r"
proof (induction n arbitrary: k last_exc w)
  case 0
  then show ?case by simp
next
  case (Suc n)
  obtain q w1 where once: "try_once pf ex spec name args state cid k w = (q, w1)"
    by (cases "try_once pf ex spec name args state cid k w")
  show ?case
  proof (cases q)
    case (Inl e)
    then show ?thesis
      using Suc once by (auto simp: Let_def split: prod.splits option.splits)
  next
    case (Inr v)
    then show ?thesis using Suc.prems once try_once_result by auto
  qed
qed

lemma run_result: "run pf ex name args state cid w = (Inr r, w') \<Longrightarrow> result_of name args cid r"
  by (auto simp: run_def split: sum.splits option.splits prod.splits dest: attempts_result)

lemma run_call_safely_answers:
  assumes "dget call ''tool_name'' = PStr name"
  shows "answers call (fst (run_call_safely pf ex state call w))"
proof -
  obtain r w' where r: "run pf ex (py_str (dget call ''tool_name'')) (as_dict (dget call ''tool_args'')) state
      (dget call ''call_id'') w = (r, w')"
    by (cases "run pf ex (py_str (dget call ''tool_name'')) (as_dict (dget call ''tool_args'')) state
      (dget call ''call_id'') w")
  show ?thesis
  proof (cases r)
    case (Inl e)
    then show ?thesis using r by (simp add: run_call_safely_def answers_def)
  next
    case (Inr v)
    then show ?thesis
      using r run_result [of pf ex _ _ state _ w v w'] assms
      by (simp add: run_call_safely_def answers_def result_of_def)
  qed
qed

lemma run_in_order_answers:
  assumes "\<And>c. c \<in> set calls \<Longrightarrow> \<exists>name. dget c ''tool_name'' = PStr name"
    and "list_all (\<lambda>i. i < length calls) is"
  shows "map fst (fst (run_in_order pf ex state calls is w)) = is \<and>
    (\<forall>(i, r) \<in> set (fst (run_in_order pf ex state calls is w)). answers (calls ! i) r)"
  using assms(2)
proof (induction "is" arbitrary: w)
  case Nil
  then show ?case by simp
next
  case (Cons i "is")
  obtain r w1 where r: "run_call_safely pf ex state (calls ! i) w = (r, w1)"
    by (cases "run_call_safely pf ex state (calls ! i) w")
  obtain rs w2 where rs: "run_in_order pf ex state calls is w1 = (rs, w2)"
    by (cases "run_in_order pf ex state calls is w1")
  have "answers (calls ! i) r"
    using run_call_safely_answers [of "calls ! i" _ pf ex state w] assms(1) [of "calls ! i"] Cons.prems r
    by auto
  then show ?case using Cons.IH [of w1] Cons.prems r rs by simp
qed

lemma length_normalized [simp]: "length (normalized_calls calls) = length calls"
  by (simp add: normalized_calls_def)

lemma normalized_nth: "i < length calls \<Longrightarrow> normalized_calls calls ! i = normalize_tool_call (calls ! i) i"
  by (simp add: normalized_calls_def nth_enumerate_eq)

lemma normalized_name: "c \<in> set (normalized_calls calls) \<Longrightarrow> \<exists>name. dget c ''tool_name'' = PStr name"
  by (auto simp: normalized_calls_def normalize_tool_call_def Let_def)

lemma map_of_fst: "map fst xs = is \<Longrightarrow> i \<in> set is \<Longrightarrow> (i, the (map_of xs i)) \<in> set xs"
  by (metis list.set_map map_of_SomeD map_of_eq_None_iff option.collapse)

definition batch_results :: "pydict \<Rightarrow> pydict list" where
  "batch_results batch = map as_dict (as_list (dget batch ''results''))"

definition is_parallel :: "'w executor \<Rightarrow> pydict list \<Rightarrow> bool" where
  "is_parallel ex calls \<longleftrightarrow> length calls > 1 \<and>
     list_all (\<lambda>c. parallel_eligible ex (py_str (dget c ''tool_name''))) (normalized_calls calls)"

definition batch_order :: "(nat \<Rightarrow> nat list) \<Rightarrow> 'w executor \<Rightarrow> pydict list \<Rightarrow> nat list" where
  "batch_order schedule ex calls = (if is_parallel ex calls then schedule (length calls) else [0..<length calls])"

lemma run_many_results:
  "batch_results (fst (run_many pf schedule ex calls state w)) =
     map (\<lambda>i. the (map_of (fst (run_in_order pf ex state (normalized_calls calls)
       (batch_order schedule ex calls) w)) i)) [0..<length calls]"
  unfolding run_many_def Let_def batch_results_def batch_order_def is_parallel_def
  by (simp add: split_beta comp_def)

lemma run_many_mode:
  "dget (fst (run_many pf schedule ex calls state w)) ''execution_mode'' = PStr ''parallel'' \<longleftrightarrow> is_parallel ex calls"
  unfolding run_many_def is_parallel_def by (simp add: Let_def split_beta)

lemma is_parallel_tools:
  assumes "is_parallel ex calls" "c \<in> set (normalized_calls calls)"
  shows "\<exists>spec. get_spec ex (py_str (dget c ''tool_name'')) = Inr spec \<and>
    read_only (ts_metadata spec) \<and> parallel_safe (ts_metadata spec)"
proof -
  have "parallel_eligible ex (py_str (dget c ''tool_name''))"
    using assms by (simp add: is_parallel_def list_all_iff)
  then show ?thesis by (simp add: parallel_eligible_def split: sum.splits)
qed

lemma run_many_sequential:
  "\<not> is_parallel ex calls \<Longrightarrow> run_many pf schedule ex calls state w = run_many pf (\<lambda>n. [0..<n]) ex calls state w"
proof -
  have "length (normalized_calls calls) = length calls" by (simp add: normalized_calls_def)
  moreover assume "\<not> is_parallel ex calls"
  ultimately show ?thesis unfolding run_many_def is_parallel_def Let_def by presburger
qed

text \<open>C15: \<open>run_many\<close> answers each call of the batch with one result, at the position of the call and
  with its identifier, its tool name and its arguments, secrets masked, whatever the tools do and
  in whatever order the pool runs the calls (one whole call after another); a failing call is a result
  with status \<open>error\<close> and does not lose the others. The pool is used only for a batch of several calls
  whose tools are all known, read-only and parallel-safe; every other batch runs in the order of its
  calls.\<close>

theorem batch_answers_calls:
  assumes "\<And>n. set (schedule n) = {..<n}"
  shows "list_all2 answers (normalized_calls calls)
      (batch_results (fst (run_many pf schedule ex calls state w))) \<and>
    (if dget (fst (run_many pf schedule ex calls state w)) ''execution_mode'' = PStr ''parallel''
     then 1 < length calls \<and>
       (\<forall>c \<in> set (normalized_calls calls). \<exists>spec. get_spec ex (py_str (dget c ''tool_name'')) = Inr spec \<and>
          read_only (ts_metadata spec) \<and> parallel_safe (ts_metadata spec))
     else run_many pf schedule ex calls state w = run_many pf (\<lambda>n. [0..<n]) ex calls state w)"
proof -
  let ?n = "length calls" and ?cs = "normalized_calls calls"
  define order where "order = batch_order schedule ex calls"
  have set: "set order = {..<?n}" using assms by (auto simp: order_def batch_order_def)
  obtain rs w1 where rs: "run_in_order pf ex state ?cs order w = (rs, w1)"
    by (cases "run_in_order pf ex state ?cs order w")
  have facts: "map fst rs = order" "\<And>i r. (i, r) \<in> set rs \<Longrightarrow> answers (?cs ! i) r"
    using run_in_order_answers [of ?cs order pf ex state w] normalized_name rs set
    by (auto simp: list_all_iff)
  have "batch_results (fst (run_many pf schedule ex calls state w)) = map (\<lambda>i. the (map_of rs i)) [0..<?n]"
    using rs by (simp add: run_many_results order_def)
  moreover have "answers (?cs ! i) (the (map_of rs i))" if "i < ?n" for i
    using facts(2) map_of_fst [OF facts(1), of i] set that by auto
  ultimately have "list_all2 answers ?cs (batch_results (fst (run_many pf schedule ex calls state w)))"
    by (simp add: list_all2_conv_all_nth)
  then show ?thesis
    using is_parallel_tools [of ex calls] run_many_sequential [of ex calls pf schedule state w]
    by (auto simp: run_many_mode is_parallel_def)
qed

theorem batch_answers_calls_witness:
  "list_all2 answers
     (normalized_calls [[(''tool_name'', PStr ''orders.read''), (''tool_args'', PDict [(''order'', PStr ''o1'')])],
       [(''tool_name'', PStr ''orders.drop'')]])
     (batch_results (fst (run_many still (\<lambda>n. rev [0..<n]) (flaky_executor True 2)
       [[(''tool_name'', PStr ''orders.read''), (''tool_args'', PDict [(''order'', PStr ''o1'')])],
        [(''tool_name'', PStr ''orders.drop'')]] [] 0)))"
proof -
  have "set (rev [0..<n]) = {..<n}" for n :: nat by auto
  from batch_answers_calls [OF this] show ?thesis by (rule conjunct1)
qed

section \<open>Parallel batches\<close>

text \<open>
  What \<open>read_only\<close> and \<open>parallel_safe\<close> promise of a tool: its answer depends on the part of the world
  \<open>view\<close> that no such tool, no hook and no sleep changes (not on the clock, for instance). Hooks
  that raise are excluded: the tool log hook swallows its own errors.
\<close>

definition undisturbed :: "('w \<Rightarrow> 'v) \<Rightarrow> 'w platform \<Rightarrow> 'w executor \<Rightarrow> bool" where
  "undisturbed view pf ex \<longleftrightarrow>
     (\<forall>d w. view (sleep pf d w) = view w) \<and>
     (\<forall>h \<in> set (before_call ex) \<union> set (after_call ex) \<union> set (on_error ex).
        \<forall>event w. fst (h event w) = None \<and> view (snd (h event w)) = view w) \<and>
     (\<forall>spec \<in> snd ` set (ex_tools ex). read_only (ts_metadata spec) \<longrightarrow> parallel_safe (ts_metadata spec) \<longrightarrow>
        (\<forall>args state w w'. view (snd (ts_handler spec args state w)) = view w \<and>
           (view w = view w' \<longrightarrow> fst (ts_handler spec args state w) = fst (ts_handler spec args state w'))))"

text \<open>A result without its latency.\<close>

definition untimed :: "pydict \<Rightarrow> pydict" where
  "untimed r = filter (\<lambda>(k, v). k \<noteq> ''latency_ms'') r"

definition same_result :: "py_exn + pydict \<Rightarrow> py_exn + pydict \<Rightarrow> bool" where
  "same_result r r' \<longleftrightarrow> map_sum id untimed r = map_sum id untimed r'"

lemma fire_undisturbed:
  assumes "\<And>h event w. h \<in> set hs \<Longrightarrow> fst (h event w) = None \<and> view (snd (h event w)) = view w"
  shows "fst (fire hs event w) = None \<and> view (snd (fire hs event w)) = view w"
  using assms
proof (induction hs arbitrary: w)
  case Nil
  then show ?case by simp
next
  case (Cons h hs)
  obtain r w' where h: "h event w = (r, w')" by (cases "h event w")
  have "r = None" "view w' = view w" using Cons.prems [of h event w] h by simp_all
  moreover have "fst (fire hs event w') = None \<and> view (snd (fire hs event w')) = view w'"
    by (rule Cons.IH) (use Cons.prems in auto)
  ultimately show ?case using h by simp
qed

lemma try_once_undisturbed:
  assumes "undisturbed view pf ex" "spec \<in> snd ` set (ex_tools ex)"
    "read_only (ts_metadata spec)" "parallel_safe (ts_metadata spec)"
  shows "view (snd (try_once pf ex spec name args state cid k w)) = view w"
    and "view w = view w' \<Longrightarrow>
      same_result (fst (try_once pf ex spec name args state cid k w))
        (fst (try_once pf ex spec name args state cid k w'))"
proof -
  have handler: "view (snd (ts_handler spec args state u)) = view u"
    "view u = view v \<Longrightarrow> fst (ts_handler spec args state u) = fst (ts_handler spec args state v)" for u v
    using assms unfolding undisturbed_def by blast+
  have fire: "fst (fire (after_call ex) event u) = None \<and> view (snd (fire (after_call ex) event u)) = view u"
    for event u
    by (rule fire_undisturbed) (use assms(1) in \<open>simp add: undisturbed_def\<close>)
  have shape: "\<exists>lat u1. try_once pf ex spec name args state cid k u =
      (case fst (ts_handler spec args state u) of
         Inl e \<Rightarrow> Inl e | Inr out \<Rightarrow> Inr (ok_result spec name args cid out lat k), u1) \<and> view u1 = view u" for u
  proof -
    obtain r u1 where h: "ts_handler spec args state u = (r, u1)" by (cases "ts_handler spec args state u")
    have u1: "view u1 = view u" using handler(1) [of u] h by simp
    show ?thesis
    proof (cases r)
      case (Inl e)
      then show ?thesis using h u1 by (simp add: try_once_def)
    next
      case (Inr out)
      define lat where "lat = py_round2 ((perf_counter pf u1 - perf_counter pf u) * 1000)"
      define event where "event = dmerge (base_event spec name args state cid)
                   [(''event'', PStr ''tool_after''), (''attempt'', PInt (int k)),
                    (''latency_ms'', PFloat lat), (''status'', PStr ''ok''), (''output'', out)]"
      obtain q u2 where f: "fire (after_call ex) event u1 = (q, u2)" by (cases "fire (after_call ex) event u1")
      have "q = None" "view u2 = view u1" using fire [of event u1] f by simp_all
      moreover have "try_once pf ex spec name args state cid k u =
          (case q of Some e \<Rightarrow> (Inl e, u2) | None \<Rightarrow> (Inr (ok_result spec name args cid out lat k), u2))"
        using h Inr f unfolding try_once_def event_def lat_def by (cases q) (simp_all add: Let_def)
      ultimately show ?thesis using h Inr u1 by auto
    qed
  qed
  show "view (snd (try_once pf ex spec name args state cid k w)) = view w"
    using shape [of w] by auto
  assume "view w = view w'"
  then have "fst (ts_handler spec args state w) = fst (ts_handler spec args state w')" by (rule handler(2))
  then show "same_result (fst (try_once pf ex spec name args state cid k w))
        (fst (try_once pf ex spec name args state cid k w'))"
    using shape [of w] shape [of w']
    by (auto simp: same_result_def untimed_def ok_result_def split: sum.splits)
qed

lemma attempts_undisturbed:
  assumes "undisturbed view pf ex" "spec \<in> snd ` set (ex_tools ex)"
    "read_only (ts_metadata spec)" "parallel_safe (ts_metadata spec)"
  shows "view (snd (attempts pf ex spec name args state cid k n last_exc w)) = view w \<and>
    (view w = view w' \<longrightarrow>
      same_result (fst (attempts pf ex spec name args state cid k n last_exc w))
        (fst (attempts pf ex spec name args state cid k n last_exc w')))"
proof (induction n arbitrary: k last_exc w w')
  case 0
  then show ?case by (simp add: same_result_def)
next
  case (Suc n)
  let ?once = "try_once pf ex spec name args state cid k"
  let ?next = "\<lambda>e. attempts pf ex spec name args state cid (Suc k) n (Some e)"
  have errors: "fst (fire (on_error ex) event u) = None \<and> view (snd (fire (on_error ex) event u)) = view u"
    for event u
    by (rule fire_undisturbed) (use assms(1) in \<open>simp add: undisturbed_def\<close>)
  have sleep: "view (sleep pf d u) = view u" for d u using assms(1) by (simp add: undisturbed_def)
  have step: "\<exists>u2. attempts pf ex spec name args state cid k (Suc n) last_exc u =
      (case fst (?once u) of Inr r \<Rightarrow> (Inr r, u2) | Inl e \<Rightarrow> ?next e u2) \<and> view u2 = view u" for u
  proof -
    obtain r u1 where once: "?once u = (r, u1)" by (cases "?once u")
    have u1: "view u1 = view u" using try_once_undisturbed(1) [OF assms] once by (metis snd_conv)
    show ?thesis
    proof (cases r)
      case (Inr v)
      then show ?thesis using once u1 by simp
    next
      case (Inl e)
      define event where "event = dmerge (base_event spec name args state cid)
          [(''event'', PStr ''tool_error''), (''attempt'', PInt (int k)),
           (''latency_ms'', PFloat (py_round2 ((perf_counter pf u1 - perf_counter pf u) * 1000))),
           (''status'', PStr ''error''), (''error_type'', PStr (exn_type e)),
           (''error'', PStr (exn_text e))]"
      obtain q u2 where f: "fire (on_error ex) event u1 = (q, u2)" by (cases "fire (on_error ex) event u1")
      have "q = None" "view u2 = view u1" using errors [of event u1] f by simp_all
      moreover have "attempts pf ex spec name args state cid k (Suc n) last_exc u =
          (case q of Some e' \<Rightarrow> (Inl e', u2)
           | None \<Rightarrow> ?next e (if n > 0 \<and> ts_retry_delay spec > 0 then sleep pf (ts_retry_delay spec) u2 else u2))"
        using once Inl f by (simp add: event_def Let_def)
      ultimately show ?thesis using once Inl u1 sleep by auto
    qed
  qed
  obtain u2 where u2: "attempts pf ex spec name args state cid k (Suc n) last_exc w =
      (case fst (?once w) of Inr r \<Rightarrow> (Inr r, u2) | Inl e \<Rightarrow> ?next e u2)" "view u2 = view w"
    using step by blast
  obtain v2 where v2: "attempts pf ex spec name args state cid k (Suc n) last_exc w' =
      (case fst (?once w') of Inr r \<Rightarrow> (Inr r, v2) | Inl e \<Rightarrow> ?next e v2)" "view v2 = view w'"
    using step by blast
  have "view w = view w' \<Longrightarrow> same_result (fst (?once w)) (fst (?once w'))"
    using try_once_undisturbed(2) [OF assms] by blast
  then show ?case
    using Suc.IH [where w = u2 and w' = v2] u2 v2
    by (cases "fst (?once w)"; cases "fst (?once w')") (auto simp: same_result_def)
qed

lemma run_undisturbed:
  assumes "undisturbed view pf ex" "parallel_eligible ex name"
  shows "view (snd (run pf ex name args state cid w)) = view w"
    and "view w = view w' \<Longrightarrow>
      same_result (fst (run pf ex name args state cid w)) (fst (run pf ex name args state cid w'))"
proof -
  obtain spec where spec: "get_spec ex name = Inr spec" "read_only (ts_metadata spec)" "parallel_safe (ts_metadata spec)"
    using assms(2) by (auto simp: parallel_eligible_def split: sum.splits)
  then have mem: "spec \<in> snd ` set (ex_tools ex)"
    by (auto simp: get_spec_def split: option.splits intro!: image_eqI dest!: map_of_SomeD)
  let ?event = "dmerge (base_event spec name args state cid) [(''event'', PStr ''tool_before'')]"
  let ?go = "attempts pf ex spec name args state cid 1 (nat (ts_max_retries spec)) None"
  have before: "fst (fire (before_call ex) event u) = None \<and> view (snd (fire (before_call ex) event u)) = view u"
    for event u
    by (rule fire_undisturbed) (use assms(1) in \<open>simp add: undisturbed_def\<close>)
  have step: "run pf ex name args state cid u =
      (case validate_args spec args of Some e \<Rightarrow> (Inl e, u)
       | None \<Rightarrow> ?go (snd (fire (before_call ex) ?event u)))" for u
    using spec(1) before [of ?event u]
    by (cases "fire (before_call ex) ?event u") (simp add: run_def split: option.splits)
  note go = attempts_undisturbed [OF assms(1) mem spec(2,3), of name args state cid 1 "nat (ts_max_retries spec)" None]
  have w1: "view (snd (fire (before_call ex) ?event u)) = view u" for u using before by blast
  show "view (snd (run pf ex name args state cid w)) = view w"
    unfolding step using trans [OF go [THEN conjunct1] w1] by (cases "validate_args spec args") simp_all
  assume "view w = view w'"
  then have "same_result (fst (?go (snd (fire (before_call ex) ?event w))))
      (fst (?go (snd (fire (before_call ex) ?event w'))))"
    by (intro go [THEN conjunct2, rule_format]) (simp only: w1)
  then show "same_result (fst (run pf ex name args state cid w)) (fst (run pf ex name args state cid w'))"
    unfolding step by (cases "validate_args spec args") (simp_all add: same_result_def)
qed

lemma call_undisturbed:
  assumes "undisturbed view pf ex" "parallel_eligible ex (py_str (dget call ''tool_name''))"
  shows "view (snd (run_call_safely pf ex state call w)) = view w"
    and "view w = view w' \<Longrightarrow>
      untimed (fst (run_call_safely pf ex state call w)) = untimed (fst (run_call_safely pf ex state call w'))"
proof -
  let ?run = "run pf ex (py_str (dget call ''tool_name'')) (as_dict (dget call ''tool_args'')) state
      (dget call ''call_id'')"
  note run = run_undisturbed [OF assms, where args = "as_dict (dget call ''tool_args'')" and state = state
      and cid = "dget call ''call_id''"]
  show "view (snd (run_call_safely pf ex state call w)) = view w"
    using run(1) [of w] by (cases "?run w") (simp add: run_call_safely_def split: sum.split)
  assume "view w = view w'"
  then have "same_result (fst (?run w)) (fst (?run w'))" by (rule run(2))
  then show "untimed (fst (run_call_safely pf ex state call w)) = untimed (fst (run_call_safely pf ex state call w'))"
    by (cases "?run w"; cases "?run w'"; cases "fst (?run w)"; cases "fst (?run w')")
       (simp_all add: run_call_safely_def same_result_def)
qed

lemma run_in_order_undisturbed:
  assumes "undisturbed view pf ex"
    and "\<And>i. i \<in> set is \<Longrightarrow> parallel_eligible ex (py_str (dget (calls ! i) ''tool_name''))"
    and "view w = view w0"
  shows "map fst (fst (run_in_order pf ex state calls is w)) = is \<and>
    (\<forall>(i, r) \<in> set (fst (run_in_order pf ex state calls is w)).
       untimed r = untimed (fst (run_call_safely pf ex state (calls ! i) w0)))"
  using assms(2,3)
proof (induction "is" arbitrary: w)
  case Nil
  then show ?case by simp
next
  case (Cons i "is")
  obtain r w1 where r: "run_call_safely pf ex state (calls ! i) w = (r, w1)"
    by (cases "run_call_safely pf ex state (calls ! i) w")
  obtain rs w2 where rs: "run_in_order pf ex state calls is w1 = (rs, w2)"
    by (cases "run_in_order pf ex state calls is w1")
  have eligible: "parallel_eligible ex (py_str (dget (calls ! i) ''tool_name''))" using Cons.prems(1) by simp
  have "untimed r = untimed (fst (run_call_safely pf ex state (calls ! i) w0))"
    using call_undisturbed(2) [OF assms(1) eligible Cons.prems(2)] r by (metis fst_conv)
  moreover have "view w1 = view w0"
    using call_undisturbed(1) [OF assms(1) eligible, of state w] Cons.prems(2) r by simp
  ultimately show ?case using Cons.IH [of w1] Cons.prems(1) r rs by simp
qed

text \<open>A batch that \<open>run_many\<close> runs in parallel, that is when all its tools are read-only and
  parallel-safe, gives the same results, latencies apart, in every order in which the pool may run
  the calls, provided that the tools keep the promise of \<open>undisturbed\<close>.\<close>

theorem parallel_order_irrelevant:
  assumes "undisturbed view pf ex"
    and "\<And>n. set (schedule n) = {..<n}" "\<And>n. set (schedule' n) = {..<n}"
    and parallel: "dget (fst (run_many pf schedule ex calls state w)) ''execution_mode'' = PStr ''parallel''"
  shows "map untimed (batch_results (fst (run_many pf schedule ex calls state w))) =
    map untimed (batch_results (fst (run_many pf schedule' ex calls state w)))"
proof -
  let ?cs = "normalized_calls calls"
  have par: "is_parallel ex calls"
    using parallel unfolding run_many_def is_parallel_def
    by (simp add: Let_def split_beta split: if_splits)
  have each: "untimed (the (map_of (fst (run_in_order pf ex state ?cs (s (length calls)) w)) i)) =
      untimed (fst (run_call_safely pf ex state (?cs ! i) w))"
    if s: "\<And>n. set (s n) = {..<n}" and i: "i < length calls" for s i
  proof -
    have eligible: "\<And>j. j \<in> set (s (length calls)) \<Longrightarrow> parallel_eligible ex (py_str (dget (?cs ! j) ''tool_name''))"
      using par s by (simp add: is_parallel_def list_all_length)
    let ?rs = "fst (run_in_order pf ex state ?cs (s (length calls)) w)"
    note facts = run_in_order_undisturbed [OF assms(1) eligible refl, where state = state and w = w]
    have "(i, the (map_of ?rs i)) \<in> set ?rs"
      by (rule map_of_fst [OF facts [THEN conjunct1]]) (use s i in auto)
    with facts show ?thesis by blast
  qed
  show ?thesis
    unfolding run_many_results using par each [OF assms(2)] each [OF assms(3)]
    by (simp add: batch_order_def)
qed

text \<open>A tool that reads a stock level, in a world with a clock that each call moves.\<close>

definition stock_level :: "(int \<times> rat) handler" where
  "stock_level args state w = (Inr (PInt (fst w)), (fst w, snd w + 1))"

definition stock_executor :: "(int \<times> rat) executor" where
  "stock_executor =
     \<lparr>ex_tools = [(''stock'',
        \<lparr>ts_name = ''stock'', ts_description = [], ts_input_schema = [], ts_handler = stock_level,
         ts_max_retries = 1, ts_retry_delay = 0,
         ts_metadata = \<lparr>read_only = True, parallel_safe = True, idempotent = True, side_effects = ''none''\<rparr>,
         ts_json_schema = PNone\<rparr>)],
      before_call = [], after_call = [\<lambda>event w. (None, (fst w, snd w + 1))], on_error = []\<rparr>"

definition ticking :: "(int \<times> rat) platform" where
  "ticking = \<lparr>perf_counter = snd, sleep = (\<lambda>d w. (fst w, snd w + d))\<rparr>"

definition two_reads :: "pydict list" where
  "two_reads = [[(''tool_name'', PStr ''stock'')], [(''tool_name'', PStr ''stock''), (''call_id'', PStr ''b'')]]"

theorem parallel_order_irrelevant_witness:
  "map untimed (batch_results (fst (run_many ticking (\<lambda>n. [0..<n]) stock_executor two_reads [] (5, 0)))) =
   map untimed (batch_results (fst (run_many ticking (\<lambda>n. rev [0..<n]) stock_executor two_reads [] (5, 0))))"
proof (rule parallel_order_irrelevant [where view = fst])
  show "undisturbed fst ticking stock_executor"
    by (simp add: undisturbed_def ticking_def stock_executor_def stock_level_def)
  have "is_parallel stock_executor two_reads"
    by (simp add: is_parallel_def two_reads_def normalized_calls_def normalize_tool_call_def Let_def
        py_or_def parallel_eligible_def get_spec_def stock_executor_def py_strip_def is_space_def)
  then show "dget (fst (run_many ticking (\<lambda>n. [0..<n]) stock_executor two_reads [] (5, 0))) ''execution_mode'' =
      PStr ''parallel''"
    unfolding run_many_def is_parallel_def by (simp add: Let_def split_beta)
qed auto

text \<open>A hook after the call that raises makes the executor repeat a call that has succeeded.\<close>

lemma raising_hook_repeats_call:
  "snd (run still ((flaky_executor True 3)\<lparr>after_call := [\<lambda>event w. (Some (exn ''OSError'' ''disk''), w)]\<rparr>)
     ''orders.read'' [(''order'', PStr ''o1'')] [] PNone 5) = 8"
  by (simp add: run_def get_spec_def validate_args_def flaky_executor_def flaky_spec_def try_once_def
      flaky_def still_def Let_def eval_nat_numeral)

section \<open>What a batch leaves alone\<close>

text \<open>
  \<open>spares I pf ex name\<close>: sleeping, the hooks and the handler of the tool \<open>name\<close> keep the condition
  \<open>I\<close> of the world.
\<close>

definition spares :: "('w \<Rightarrow> bool) \<Rightarrow> 'w platform \<Rightarrow> 'w executor \<Rightarrow> string \<Rightarrow> bool" where
  "spares I pf ex name \<longleftrightarrow>
     (\<forall>d w. I w \<longrightarrow> I (sleep pf d w)) \<and>
     (\<forall>h \<in> set (before_call ex) \<union> set (after_call ex) \<union> set (on_error ex).
        \<forall>event w. I w \<longrightarrow> I (snd (h event w))) \<and>
     (\<forall>spec. map_of (ex_tools ex) name = Some spec \<longrightarrow>
        (\<forall>args state w. I w \<longrightarrow> I (snd (ts_handler spec args state w))))"

lemma fire_spares:
  assumes "\<And>h event w. h \<in> set hs \<Longrightarrow> I w \<Longrightarrow> I (snd (h event w))" "I w"
  shows "I (snd (fire hs event w))"
  using assms
proof (induction hs arbitrary: w)
  case Nil
  then show ?case by simp
next
  case (Cons h hs)
  obtain r w' where h: "h event w = (r, w')" by (cases "h event w")
  have "I w'" using Cons.prems(1) [of h w event] Cons.prems(2) h by simp
  moreover from this have "I (snd (fire hs event w'))"
    by (rule Cons.IH [rotated]) (use Cons.prems(1) in auto)
  ultimately show ?case using h by (cases r) simp_all
qed

lemma spares_hooks:
  assumes "spares I pf ex name" "hs = before_call ex \<or> hs = after_call ex \<or> hs = on_error ex" "I w"
  shows "I (snd (fire hs event w))"
  by (rule fire_spares) (use assms in \<open>auto simp: spares_def\<close>)

lemma try_once_spares:
  assumes "spares I pf ex key" "map_of (ex_tools ex) key = Some spec" "I w"
  shows "I (snd (try_once pf ex spec name args state cid k w))"
proof -
  obtain r w1 where h: "ts_handler spec args state w = (r, w1)" by (cases "ts_handler spec args state w")
  have "I (snd (ts_handler spec args state w))" using assms by (simp add: spares_def)
  then have w1: "I w1" using h by simp
  have after: "I (snd (fire (after_call ex) event w1))" for event
    by (rule spares_hooks [OF assms(1) _ w1]) simp
  show ?thesis
  proof (cases r)
    case (Inl e)
    then show ?thesis using h w1 by (simp add: try_once_def)
  next
    case (Inr out)
    let ?lat = "py_round2 ((perf_counter pf w1 - perf_counter pf w) * 1000)"
    let ?event = "dmerge (base_event spec name args state cid)
        [(''event'', PStr ''tool_after''), (''attempt'', PInt (int k)),
         (''latency_ms'', PFloat ?lat), (''status'', PStr ''ok''), (''output'', out)]"
    obtain q w2 where f: "fire (after_call ex) ?event w1 = (q, w2)" by (cases "fire (after_call ex) ?event w1")
    have "try_once pf ex spec name args state cid k w =
        (case q of Some e \<Rightarrow> (Inl e, w2) | None \<Rightarrow> (Inr (ok_result spec name args cid out ?lat k), w2))"
      using h Inr f unfolding try_once_def by (cases q) (simp_all add: Let_def)
    moreover have "I w2" using after [of ?event] f by simp
    ultimately show ?thesis by (cases q) simp_all
  qed
qed

lemma attempts_spares:
  assumes "spares I pf ex key" "map_of (ex_tools ex) key = Some spec" "I w"
  shows "I (snd (attempts pf ex spec name args state cid k n last_exc w))"
  using assms(3)
proof (induction n arbitrary: k last_exc w)
  case 0
  then show ?case by simp
next
  case (Suc n)
  obtain r w1 where once: "try_once pf ex spec name args state cid k w = (r, w1)"
    by (cases "try_once pf ex spec name args state cid k w")
  have w1: "I w1"
    using try_once_spares [OF assms(1,2) Suc.prems, of name args state cid k] once by simp
  show ?case
  proof (cases r)
    case (Inr v)
    then show ?thesis using once w1 by simp
  next
    case (Inl e)
    define event where "event = dmerge (base_event spec name args state cid)
        [(''event'', PStr ''tool_error''), (''attempt'', PInt (int k)),
         (''latency_ms'', PFloat (py_round2 ((perf_counter pf w1 - perf_counter pf w) * 1000))),
         (''status'', PStr ''error''), (''error_type'', PStr (exn_type e)),
         (''error'', PStr (exn_text e))]"
    obtain q w2 where f: "fire (on_error ex) event w1 = (q, w2)" by (cases "fire (on_error ex) event w1")
    have w2: "I w2" using spares_hooks [OF assms(1) _ w1, of "on_error ex" event] f by simp
    let ?w3 = "if n > 0 \<and> ts_retry_delay spec > 0 then sleep pf (ts_retry_delay spec) w2 else w2"
    have "I ?w3" using assms(1) w2 by (simp add: spares_def)
    moreover have "attempts pf ex spec name args state cid k (Suc n) last_exc w =
        (case q of Some e' \<Rightarrow> (Inl e', w2)
         | None \<Rightarrow> attempts pf ex spec name args state cid (Suc k) n (Some e) ?w3)"
      using once Inl f by (simp add: event_def Let_def)
    ultimately show ?thesis using Suc.IH [of ?w3 "Suc k" "Some e"] w2 by (cases q) simp_all
  qed
qed

lemma run_spares:
  assumes "spares I pf ex name" "I w"
  shows "I (snd (run pf ex name args state cid w))"
proof (cases "get_spec ex name")
  case (Inl e)
  then show ?thesis using assms(2) by (simp add: run_def)
next
  case (Inr spec)
  then have spec: "map_of (ex_tools ex) name = Some spec" by (simp add: get_spec_def split: option.splits)
  let ?event = "dmerge (base_event spec name args state cid) [(''event'', PStr ''tool_before'')]"
  obtain q w1 where f: "fire (before_call ex) ?event w = (q, w1)" by (cases "fire (before_call ex) ?event w")
  have "I w1" using spares_hooks [OF assms(1) _ assms(2), of "before_call ex" ?event] f by simp
  then show ?thesis
    using assms(2) Inr f attempts_spares [OF assms(1) spec]
    by (auto simp: run_def split: option.splits)
qed

lemma run_call_safely_spares:
  assumes "spares I pf ex (py_str (dget call ''tool_name''))" "I w"
  shows "I (snd (run_call_safely pf ex state call w))"
  using run_spares [OF assms, of "as_dict (dget call ''tool_args'')" state "dget call ''call_id''"]
  by (auto simp: run_call_safely_def split: sum.splits prod.splits)

lemma run_in_order_spares:
  assumes "\<And>i. i \<in> set is \<Longrightarrow> spares I pf ex (py_str (dget (calls ! i) ''tool_name''))" "I w"
  shows "I (snd (run_in_order pf ex state calls is w))"
  using assms
proof (induction "is" arbitrary: w)
  case Nil
  then show ?case by simp
next
  case (Cons i "is")
  obtain r w1 where r: "run_call_safely pf ex state (calls ! i) w = (r, w1)"
    by (cases "run_call_safely pf ex state (calls ! i) w")
  have "I w1"
    using run_call_safely_spares [OF Cons.prems(1) Cons.prems(2), of i state] r by simp
  then show ?case
    using Cons.IH [of w1] Cons.prems(1) r by (simp add: split_beta)
qed

lemma run_many_world:
  "snd (run_many pf schedule ex calls state w) =
     snd (run_in_order pf ex state (normalized_calls calls) (batch_order schedule ex calls) w)"
  unfolding run_many_def Let_def batch_order_def is_parallel_def
  by (simp only: split_beta snd_conv length_normalized)

lemma run_many_spares:
  assumes "\<And>n. set (schedule n) = {..<n}" "I w"
    and "\<And>c. c \<in> set (normalized_calls calls) \<Longrightarrow> spares I pf ex (py_str (dget c ''tool_name''))"
  shows "I (snd (run_many pf schedule ex calls state w))"
proof -
  have order: "set (batch_order schedule ex calls) = {..<length calls}"
    using assms(1) by (auto simp: batch_order_def)
  have "I (snd (run_in_order pf ex state (normalized_calls calls) (batch_order schedule ex calls) w))"
  proof (rule run_in_order_spares)
    fix i
    assume "i \<in> set (batch_order schedule ex calls)"
    then have "normalized_calls calls ! i \<in> set (normalized_calls calls)" using order by simp
    then show "spares I pf ex (py_str (dget (normalized_calls calls ! i) ''tool_name''))"
      by (rule assms(3))
  qed (rule assms(2))
  then show ?thesis by (simp only: run_many_world)
qed

end
