(* ===== verification/Runtime_Approvals.thy ===== *)
theory Runtime_Approvals
  imports Prelude
begin

text \<open>
  Approval requests of tool calls (\<open>runtime_approvals.py\<close>): the in-memory store, the PostgreSQL store
  and the contract of both, the locale \<open>approval_store\<close>: a request is decided at most once. The
  instants the stores write (\<open>isoformat\<close>) are the texts of the integers they stand for and a fresh
  \<open>uuid4\<close> is an argument. A decision of the
  PostgreSQL store is two transactions, a check and an update; both are modelled, and composed.
\<close>

definition APPROVAL_PENDING :: string where "APPROVAL_PENDING = ''pending''"
definition APPROVAL_APPROVED :: string where "APPROVAL_APPROVED = ''approved''"
definition APPROVAL_REJECTED :: string where "APPROVAL_REJECTED = ''rejected''"
definition APPROVAL_EXECUTED :: string where "APPROVAL_EXECUTED = ''executed''"
definition APPROVAL_EXPIRED :: string where "APPROVAL_EXPIRED = ''expired''"

lemma approval_statuses [simp]:
  "APPROVAL_APPROVED \<noteq> APPROVAL_PENDING" "APPROVAL_REJECTED \<noteq> APPROVAL_PENDING"
  "APPROVAL_EXECUTED \<noteq> APPROVAL_PENDING" "APPROVAL_EXPIRED \<noteq> APPROVAL_PENDING"
  by (simp_all add: APPROVAL_PENDING_def APPROVAL_APPROVED_def APPROVAL_REJECTED_def
      APPROVAL_EXECUTED_def APPROVAL_EXPIRED_def)

datatype approval_error =
    NotFound
  | AlreadyDecided
  | RequestExpired
  | StoreError string
  | Unsupported string

record approval_decision =
  ad_decision :: string
  ad_decided_by :: string
  ad_comment :: "string option"

definition opt_str :: "string option \<Rightarrow> pyval" where
  "opt_str x = (case x of None \<Rightarrow> PNone | Some s \<Rightarrow> PStr s)"

definition iso :: "int \<Rightarrow> pyval" where
  "iso t = PStr (int_text t)"

section \<open>Shared helpers\<close>

definition hidden_keys :: "string list" where
  "hidden_keys = [''password'', ''token'', ''api_key'', ''secret'']"

definition redact_sensitive :: "pydict \<Rightarrow> pydict" where
  "redact_sensitive value =
     map (\<lambda>(k, v). (k, if py_lower k \<in> set hidden_keys then PStr ''***'' else v)) value"

definition approval_response :: "pydict \<Rightarrow> pydict" where
  "approval_response record =
     [(''approval_id'', dget record ''approval_id''), (''run_id'', dget record ''run_id''),
      (''session_id'', dget record ''session_id''), (''trace_id'', dget record ''trace_id''),
      (''agent_id'', dget record ''agent_id''), (''release_id'', dget record ''release_id''),
      (''actor_id'', dget record ''actor_id''), (''channel'', dget record ''channel''),
      (''tool_id'', dget record ''tool_id''), (''runner_tool_id'', dget record ''runner_tool_id''),
      (''runner_name'', dget record ''runner_name''),
      (''tool_args_preview'',
         PDict (redact_sensitive (as_dict (py_or (dget record ''tool_args'') (PDict []))))),
      (''policy'', py_or (dget record ''policy'') (PDict [])), (''status'', dget record ''status''),
      (''requested_at'', dget record ''requested_at''), (''expires_at'', dget record ''expires_at'')]"

text \<open>The stores write \<open>expires_at\<close> as an instant or leave it absent.\<close>

definition is_expired :: "int \<Rightarrow> pydict \<Rightarrow> bool" where
  "is_expired now record =
     (case dget record ''expires_at'' of
        PStr s \<Rightarrow> (case parse_int s of None \<Rightarrow> False | Some t \<Rightarrow> t \<le> now)
      | _ \<Rightarrow> False)"

lemma is_expired_iso: "dget r ''expires_at'' = iso t \<Longrightarrow> is_expired now r \<longleftrightarrow> t \<le> now"
  by (simp add: is_expired_def iso_def)

text \<open>
  A result is stored as JSON: a value that JSON does not know, such as the \<open>AgentRequest\<close> in the state of a
  flow, is written as its \<open>str\<close>. Objects are dictionaries of their fields in this model; \<open>objs\<close> tells
  which dictionaries stand for objects and what their \<open>str\<close> is.
\<close>

fun json_safe :: "(pydict \<Rightarrow> string option) \<Rightarrow> pyval \<Rightarrow> pyval" where
  "json_safe objs (PList xs) = PList (map (json_safe objs) xs)"
| "json_safe objs (PDict d) =
     (case objs d of
        Some s \<Rightarrow> PStr s
      | None \<Rightarrow> PDict (map (\<lambda>e. (fst e, json_safe objs (snd e))) d))"
| "json_safe objs v = v"

text \<open>The result itself is always a dictionary.\<close>

definition json_safe_dict :: "(pydict \<Rightarrow> string option) \<Rightarrow> pydict \<Rightarrow> pydict" where
  "json_safe_dict objs d = map (\<lambda>e. (fst e, json_safe objs (snd e))) d"

lemma dget_json_safe: "dget (json_safe_dict objs d) k = json_safe objs (dget d k)"
proof -
  have "map_of (json_safe_dict objs d) k = map_option (json_safe objs) (map_of d k)"
    by (induction d) (auto simp: json_safe_dict_def)
  then show ?thesis by (simp add: dget_map_of split: option.split)
qed

section \<open>The in-memory store\<close>

type_synonym memory_store = "(string \<times> pydict) list"

definition mem_create ::
  "memory_store \<Rightarrow> int \<Rightarrow> string \<Rightarrow> pydict \<Rightarrow> pydict \<Rightarrow> int \<Rightarrow> pydict \<times> memory_store" where
  "mem_create st now fresh snapshot approval ttl =
     (let approval_id = py_or (dget approval ''approval_id'') (PStr (''appr_'' @ fresh));
          record = dmerge approval
            [(''approval_id'', approval_id), (''status'', PStr APPROVAL_PENDING),
             (''snapshot'', PDict snapshot), (''requested_at'', iso now),
             (''expires_at'', iso (now + ttl * 1000000)), (''decided_at'', PNone),
             (''decided_by'', PNone), (''decision_comment'', PNone)]
      in (approval_response record, AList.update (py_str approval_id) record st))"

definition mem_get :: "memory_store \<Rightarrow> string \<Rightarrow> pydict option" where
  "mem_get st i = (case map_of st i of None \<Rightarrow> None | Some r \<Rightarrow> if r = [] then None else Some r)"

definition mem_decide ::
  "memory_store \<Rightarrow> int \<Rightarrow> string \<Rightarrow> approval_decision \<Rightarrow> (approval_error + pydict) \<times> memory_store" where
  "mem_decide st now i d =
     (case mem_get st i of
        None \<Rightarrow> (Inl NotFound, st)
      | Some r \<Rightarrow>
          if \<not> py_eq (dget r ''status'') (PStr APPROVAL_PENDING) then (Inl AlreadyDecided, st)
          else if is_expired now r
            then (Inl RequestExpired, AList.update i (dset ''status'' (PStr APPROVAL_EXPIRED) r) st)
          else let r' = dmerge r
                     [(''status'', PStr (ad_decision d)), (''decided_at'', iso now),
                      (''decided_by'', PStr (ad_decided_by d)),
                      (''decision_comment'', opt_str (ad_comment d))]
               in (Inr r', AList.update i r' st))"

definition mem_mark_executed ::
  "(pydict \<Rightarrow> string option) \<Rightarrow> memory_store \<Rightarrow> string \<Rightarrow> pydict \<Rightarrow> memory_store" where
  "mem_mark_executed objs st i result =
     (case mem_get st i of
        None \<Rightarrow> st
      | Some r \<Rightarrow>
          AList.update i
            (dmerge r [(''status'', PStr APPROVAL_EXECUTED), (''result'', PDict (json_safe_dict objs result))]) st)"

section \<open>The PostgreSQL store\<close>

record approval_row =
  a_approval_id :: string
  a_run_id :: pyval
  a_session_id :: pyval
  a_trace_id :: pyval
  a_agent_id :: pyval
  a_release_id :: pyval
  a_actor_id :: pyval
  a_channel :: pyval
  a_tool_id :: pyval
  a_runner_tool_id :: pyval
  a_runner_name :: pyval
  a_tool_args_json :: pyval
  a_tool_policy_json :: pyval
  a_snapshot_json :: pyval
  a_status :: string
  a_requested_at :: int
  a_expires_at :: "int option"
  a_decided_at :: "int option"
  a_decided_by :: "string option"
  a_decision_comment :: "string option"
  a_result_json :: pyval

type_synonym approval_table = "approval_row list"

definition opt_iso :: "int option \<Rightarrow> pyval" where
  "opt_iso t = (case t of None \<Rightarrow> PNone | Some i \<Rightarrow> iso i)"

definition row_to_record :: "approval_row \<Rightarrow> pydict" where
  "row_to_record a =
     [(''approval_id'', PStr (a_approval_id a)), (''run_id'', a_run_id a),
      (''session_id'', a_session_id a), (''trace_id'', a_trace_id a), (''agent_id'', a_agent_id a),
      (''release_id'', a_release_id a), (''actor_id'', a_actor_id a), (''channel'', a_channel a),
      (''tool_id'', a_tool_id a), (''runner_tool_id'', a_runner_tool_id a),
      (''runner_name'', a_runner_name a),
      (''tool_args'', PDict (as_dict (py_or (a_tool_args_json a) (PDict [])))),
      (''policy'', PDict (as_dict (py_or (a_tool_policy_json a) (PDict [])))),
      (''snapshot'', PDict (as_dict (py_or (a_snapshot_json a) (PDict [])))),
      (''status'', PStr (a_status a)), (''requested_at'', iso (a_requested_at a)),
      (''expires_at'', opt_iso (a_expires_at a)), (''decided_at'', opt_iso (a_decided_at a)),
      (''decided_by'', opt_str (a_decided_by a)), (''decision_comment'', opt_str (a_decision_comment a)),
      (''result'', a_result_json a)]"

text \<open>The \<open>NOT NULL\<close> columns without a default that \<open>INSERT\<close> takes from the approval.\<close>

definition required_columns :: "string list" where
  "required_columns =
     [''run_id'', ''session_id'', ''agent_id'', ''release_id'', ''actor_id'', ''channel'', ''tool_id'']"

definition named_columns :: "string list" where
  "named_columns = required_columns @ [''trace_id'', ''runner_tool_id'', ''runner_name'']"

definition new_approval_row :: "int \<Rightarrow> string \<Rightarrow> pydict \<Rightarrow> pydict \<Rightarrow> int \<Rightarrow> approval_row" where
  "new_approval_row now approval_id snapshot approval ttl =
     \<lparr>a_approval_id = approval_id, a_run_id = dget approval ''run_id'',
      a_session_id = dget approval ''session_id'', a_trace_id = dget approval ''trace_id'',
      a_agent_id = dget approval ''agent_id'', a_release_id = dget approval ''release_id'',
      a_actor_id = dget approval ''actor_id'', a_channel = dget approval ''channel'',
      a_tool_id = dget approval ''tool_id'', a_runner_tool_id = dget approval ''runner_tool_id'',
      a_runner_name = dget approval ''runner_name'',
      a_tool_args_json = py_or (dget approval ''tool_args'') (PDict []),
      a_tool_policy_json = py_or (dget approval ''policy'') (PDict []),
      a_snapshot_json = PDict snapshot, a_status = APPROVAL_PENDING, a_requested_at = now,
      a_expires_at = Some (now + ttl * 1000000), a_decided_at = None, a_decided_by = None,
      a_decision_comment = None, a_result_json = PNone\<rparr>"

definition pg_create ::
  "approval_table \<Rightarrow> int \<Rightarrow> string \<Rightarrow> pydict \<Rightarrow> pydict \<Rightarrow> int \<Rightarrow>
   (approval_error + pydict) \<times> approval_table" where
  "pg_create st now fresh snapshot approval ttl =
     (let approval_id = py_str (py_or (dget approval ''approval_id'') (PStr (''appr_'' @ fresh)))
      in if \<not> list_all (has_key approval) named_columns
           then (Inl (StoreError ''missing parameter''), st)
         else if \<not> list_all (\<lambda>k. dget approval k \<noteq> PNone) required_columns
           then (Inl (StoreError ''NotNullViolation''), st)
         else if approval_id \<in> a_approval_id ` set st
           then (Inl (StoreError ''UniqueViolation''), st)
         else
           let record = dmerge approval
                 [(''approval_id'', PStr approval_id), (''status'', PStr APPROVAL_PENDING),
                  (''requested_at'', iso now), (''expires_at'', iso (now + ttl * 1000000)),
                  (''snapshot'', PDict snapshot)]
           in (Inr (approval_response record),
               st @ [new_approval_row now approval_id snapshot approval ttl]))"

definition pg_get :: "approval_table \<Rightarrow> string \<Rightarrow> pydict option" where
  "pg_get st i = map_option row_to_record (find (\<lambda>a. a_approval_id a = i) st)"

definition update_row :: "(approval_row \<Rightarrow> approval_row) \<Rightarrow> string \<Rightarrow> approval_table \<Rightarrow> approval_table" where
  "update_row f i st = map (\<lambda>a. if a_approval_id a = i then f a else a) st"

definition pg_set_status :: "string \<Rightarrow> string \<Rightarrow> approval_table \<Rightarrow> approval_table" where
  "pg_set_status i status st = update_row (\<lambda>a. a\<lparr>a_status := status\<rparr>) i st"

text \<open>The check: \<open>None\<close> means that the decision may proceed to its update.\<close>

definition pg_decide_check ::
  "approval_table \<Rightarrow> int \<Rightarrow> string \<Rightarrow> approval_error option \<times> approval_table" where
  "pg_decide_check st now i =
     (case pg_get st i of
        None \<Rightarrow> (Some NotFound, st)
      | Some r \<Rightarrow>
          if \<not> py_eq (dget r ''status'') (PStr APPROVAL_PENDING) then (Some AlreadyDecided, st)
          else if is_expired now r then (Some RequestExpired, pg_set_status i APPROVAL_EXPIRED st)
          else (None, st))"

definition pg_decide_update ::
  "approval_table \<Rightarrow> int \<Rightarrow> string \<Rightarrow> approval_decision \<Rightarrow> (approval_error + pydict) \<times> approval_table" where
  "pg_decide_update st now i d =
     (let st' = update_row (\<lambda>a. a\<lparr>a_status := ad_decision d, a_decided_at := Some now,
                                  a_decided_by := Some (ad_decided_by d),
                                  a_decision_comment := ad_comment d\<rparr>) i st
      in case pg_get st' i of
           None \<Rightarrow> (Inl NotFound, st')
         | Some r \<Rightarrow> (Inr r, st'))"

definition pg_decide ::
  "approval_table \<Rightarrow> int \<Rightarrow> string \<Rightarrow> approval_decision \<Rightarrow> (approval_error + pydict) \<times> approval_table" where
  "pg_decide st now i d =
     (case pg_decide_check st now i of
        (Some e, st') \<Rightarrow> (Inl e, st')
      | (None, st') \<Rightarrow> pg_decide_update st' now i d)"

definition pg_mark_executed ::
  "(pydict \<Rightarrow> string option) \<Rightarrow> approval_table \<Rightarrow> string \<Rightarrow> pydict \<Rightarrow> approval_table" where
  "pg_mark_executed objs st i result =
     update_row (\<lambda>a. a\<lparr>a_status := APPROVAL_EXECUTED, a_result_json := PDict (json_safe_dict objs result)\<rparr>) i st"

section \<open>The contract\<close>

datatype approval_op =
    Decide int string approval_decision
  | Executed string pydict

text \<open>
  How many decisions on the request \<open>k\<close> succeed in a sequence of operations of a store, and the
  sequences of proper decisions.
\<close>

fun successes ::
  "('s \<Rightarrow> int \<Rightarrow> string \<Rightarrow> approval_decision \<Rightarrow> (approval_error + pydict) \<times> 's) \<Rightarrow>
   ('s \<Rightarrow> string \<Rightarrow> pydict \<Rightarrow> 's) \<Rightarrow> string \<Rightarrow> 's \<Rightarrow> approval_op list \<Rightarrow> nat" where
  "successes decide mark k s [] = 0"
| "successes decide mark k s (Decide now i d # ops) =
     (case decide s now i d of
        (Inr r, s') \<Rightarrow> (if i = k then 1 else 0) + successes decide mark k s' ops
      | (Inl e, s') \<Rightarrow> successes decide mark k s' ops)"
| "successes decide mark k s (Executed i res # ops) = successes decide mark k (mark s i res) ops"

fun proper_op :: "approval_op \<Rightarrow> bool" where
  "proper_op (Decide now i d) \<longleftrightarrow> ad_decision d \<noteq> APPROVAL_PENDING"
| "proper_op (Executed i res) \<longleftrightarrow> True"

locale approval_store =
  fixes status_of :: "'s \<Rightarrow> string \<Rightarrow> string option"
    and decide :: "'s \<Rightarrow> int \<Rightarrow> string \<Rightarrow> approval_decision \<Rightarrow> (approval_error + pydict) \<times> 's"
    and mark :: "'s \<Rightarrow> string \<Rightarrow> pydict \<Rightarrow> 's"
  assumes decide_ok: "decide s now i d = (Inr r, s') \<Longrightarrow>
      status_of s i = Some APPROVAL_PENDING \<and> status_of s' = (status_of s)(i \<mapsto> ad_decision d)"
    and decide_err: "decide s now i d = (Inl e, s') \<Longrightarrow>
      status_of s' = status_of s \<or>
      (status_of s i = Some APPROVAL_PENDING \<and> status_of s' = (status_of s)(i \<mapsto> APPROVAL_EXPIRED))"
    and mark_status: "status_of (mark s i res) = status_of s \<or>
      status_of (mark s i res) = (status_of s)(i \<mapsto> APPROVAL_EXECUTED)"
begin

lemma step_not_pending:
  assumes "status_of s k \<noteq> Some APPROVAL_PENDING" "ad_decision d \<noteq> APPROVAL_PENDING"
    and "decide s now i d = (r, s')"
  shows "status_of s' k \<noteq> Some APPROVAL_PENDING" and "i = k \<Longrightarrow> \<exists>e. r = Inl e"
proof -
  show "status_of s' k \<noteq> Some APPROVAL_PENDING"
  proof (cases r)
    case (Inl e)
    then show ?thesis using assms(1) decide_err [of s now i d e s'] assms(3)
      by (auto split: if_splits)
  next
    case (Inr v)
    then show ?thesis using assms(1,2) decide_ok [of s now i d v s'] assms(3)
      by (auto split: if_splits)
  qed
  show "i = k \<Longrightarrow> \<exists>e. r = Inl e"
    using assms(1,3) decide_ok [of s now i d _ s'] by (cases r) auto
qed

lemma no_success_after:
  "status_of s k \<noteq> Some APPROVAL_PENDING \<Longrightarrow> list_all proper_op ops \<Longrightarrow>
     successes decide mark k s ops = 0"
proof (induction ops arbitrary: s)
  case Nil
  then show ?case by simp
next
  case (Cons op ops)
  show ?case
  proof (cases op)
    case (Decide now i d)
    obtain r s' where step: "decide s now i d = (r, s')" by (cases "decide s now i d")
    have d: "ad_decision d \<noteq> APPROVAL_PENDING" using Cons.prems(2) Decide by simp
    note next_state = step_not_pending [OF Cons.prems(1) d step]
    have rest: "successes decide mark k s' ops = 0"
      using Cons.IH next_state(1) Cons.prems(2) by simp
    show ?thesis
    proof (cases r)
      case (Inl e)
      then show ?thesis using rest step Decide by simp
    next
      case (Inr v)
      then have "i \<noteq> k" using next_state(2) by auto
      then show ?thesis using rest step Decide Inr by simp
    qed
  next
    case (Executed i res)
    have "status_of (mark s i res) k \<noteq> Some APPROVAL_PENDING"
      using Cons.prems(1) mark_status [of s i res] by (auto split: if_splits)
    then show ?thesis using Cons Executed by simp
  qed
qed

theorem decided_at_most_once:
  "list_all proper_op ops \<Longrightarrow> successes decide mark k s ops \<le> 1"
proof (induction ops arbitrary: s)
  case Nil
  then show ?case by simp
next
  case (Cons op ops)
  show ?case
  proof (cases op)
    case (Decide now i d)
    obtain r s' where step: "decide s now i d = (r, s')" by (cases "decide s now i d")
    have d: "ad_decision d \<noteq> APPROVAL_PENDING" using Cons.prems Decide by simp
    have rest: "successes decide mark k s' ops \<le> 1" using Cons.IH Cons.prems by simp
    show ?thesis
    proof (cases r)
      case (Inl e)
      then show ?thesis using rest step Decide by simp
    next
      case (Inr v)
      have "status_of s' i = Some (ad_decision d)" using decide_ok step Inr by simp
      then have "i = k \<Longrightarrow> successes decide mark k s' ops = 0"
        using Cons.prems d by (intro no_success_after) auto
      then show ?thesis using rest step Decide Inr by auto
    qed
  next
    case (Executed i res)
    then show ?thesis using Cons by simp
  qed
qed

end

section \<open>Both stores keep the contract\<close>

definition mem_status :: "memory_store \<Rightarrow> string \<Rightarrow> string option" where
  "mem_status st i =
     (case map_of st i of
        None \<Rightarrow> None
      | Some r \<Rightarrow> (case dget r ''status'' of PStr s \<Rightarrow> Some s | _ \<Rightarrow> None))"

definition pg_status :: "approval_table \<Rightarrow> string \<Rightarrow> string option" where
  "pg_status st i = map_option a_status (find (\<lambda>a. a_approval_id a = i) st)"

lemma mem_status_update:
  "dget r ''status'' = PStr s \<Longrightarrow> mem_status (AList.update i r st) = (mem_status st)(i \<mapsto> s)"
  by (auto simp: fun_eq_iff mem_status_def update_conv')

interpretation mem: approval_store mem_status mem_decide "mem_mark_executed objs" for objs
proof (unfold_locales, goal_cases)
  case (1 s now i d r s')
  let ?upd = "[(''status'', PStr (ad_decision d)), (''decided_at'', iso now),
    (''decided_by'', PStr (ad_decided_by d)), (''decision_comment'', opt_str (ad_comment d))]"
  obtain q where q: "mem_get s i = Some q" "dget q ''status'' = PStr APPROVAL_PENDING"
    "s' = AList.update i (dmerge q ?upd) s"
    using 1 by (auto simp: mem_decide_def Let_def py_eq_text split: option.splits if_splits)
  have "dget (dmerge q ?upd) ''status'' = PStr (ad_decision d)" by (simp add: dget_dmerge)
  then show ?case
    using q mem_status_update by (auto simp: mem_status_def mem_get_def split: option.splits if_splits)
next
  case (2 s now i d e s')
  then show ?case
    using mem_status_update
    by (auto simp: mem_decide_def Let_def py_eq_text mem_status_def mem_get_def
        split: option.splits if_splits)
next
  case (3 s i res)
  have "dget (dmerge r [(''status'', PStr APPROVAL_EXECUTED), (''result'', PDict (json_safe_dict objs res))]) ''status'' =
      PStr APPROVAL_EXECUTED" for r
    by (simp add: dget_dmerge)
  then show ?case
    using mem_status_update by (auto simp: mem_mark_executed_def split: option.splits)
qed

lemma find_update_row:
  assumes "\<And>a. a_approval_id (f a) = a_approval_id a"
  shows "find (\<lambda>a. a_approval_id a = k) (update_row f i st) =
     map_option (\<lambda>a. if k = i then f a else a) (find (\<lambda>a. a_approval_id a = k) st)"
  using assms by (induction st) (auto simp: update_row_def)

lemma pg_status_update:
  assumes "\<And>a. a_approval_id (f a) = a_approval_id a \<and> a_status (f a) = s"
  shows "pg_status (update_row f i st) =
     (if pg_status st i = None then pg_status st else (pg_status st)(i \<mapsto> s))"
proof
  fix k
  show "pg_status (update_row f i st) k =
     (if pg_status st i = None then pg_status st else (pg_status st)(i \<mapsto> s)) k"
    using assms
    by (cases "k = i"; cases "find (\<lambda>a. a_approval_id a = i) st")
       (simp_all add: pg_status_def find_update_row option.map_comp comp_def option.map_ident)
qed

lemma pg_get_status:
  "pg_get st i = None \<longleftrightarrow> pg_status st i = None"
  "pg_get st i = Some r \<Longrightarrow> py_eq (dget r ''status'') (PStr s) \<longleftrightarrow> pg_status st i = Some s"
  by (auto simp: pg_get_def pg_status_def row_to_record_def)

lemma pg_decide_check_None: "pg_decide_check s now i = (None, t) \<Longrightarrow> t = s"
  by (auto simp: pg_decide_check_def split: option.splits if_splits)

interpretation pg: approval_store pg_status pg_decide "pg_mark_executed objs" for objs
proof (unfold_locales, goal_cases)
  case (1 s now i d r s')
  then obtain q where q: "pg_get s i = Some q" "py_eq (dget q ''status'') (PStr APPROVAL_PENDING)"
    and upd: "pg_decide_update s now i d = (Inr r, s')"
    by (auto simp: pg_decide_def pg_decide_check_def split: option.splits if_splits)
  have "pg_status s i = Some APPROVAL_PENDING" using pg_get_status(2) [OF q(1)] q(2) by simp
  moreover have "s' = update_row (\<lambda>a. a\<lparr>a_status := ad_decision d, a_decided_at := Some now,
      a_decided_by := Some (ad_decided_by d), a_decision_comment := ad_comment d\<rparr>) i s"
    using upd by (auto simp: pg_decide_update_def Let_def split: option.splits)
  ultimately show ?case by (simp add: pg_status_update)
next
  case (2 s now i d e s')
  show ?case
  proof (cases "pg_get s i")
    case None
    then show ?thesis using 2 by (simp add: pg_decide_def pg_decide_check_def)
  next
    case (Some q)
    have found: "pg_get (update_row f i s) i \<noteq> None" if "\<And>a. a_approval_id (f a) = a_approval_id a" for f
      using Some that by (auto simp: pg_get_def find_update_row)
    have "pg_decide_update s now i d \<noteq> (Inl e, s')"
      using found [of "\<lambda>a. a\<lparr>a_status := ad_decision d, a_decided_at := Some now,
          a_decided_by := Some (ad_decided_by d), a_decision_comment := ad_comment d\<rparr>"]
      by (auto simp: pg_decide_update_def Let_def split: option.splits)
    then have check: "pg_decide_check s now i = (Some e, s')"
      using 2 unfolding pg_decide_def by (cases "pg_decide_check s now i")
        (auto split: option.splits dest: pg_decide_check_None)
    show ?thesis
    proof (cases "py_eq (dget q ''status'') (PStr APPROVAL_PENDING)")
      case False
      then show ?thesis using check Some by (simp add: pg_decide_check_def)
    next
      case True
      then have pending: "pg_status s i = Some APPROVAL_PENDING" using pg_get_status(2) [OF Some] by blast
      show ?thesis
      proof (cases "is_expired now q")
        case True
        then have "s' = pg_set_status i APPROVAL_EXPIRED s"
          using check Some \<open>py_eq _ _\<close> by (simp add: pg_decide_check_def)
        then show ?thesis using pending by (simp add: pg_set_status_def pg_status_update)
      next
        case False
        then show ?thesis using check Some True by (simp add: pg_decide_check_def)
      qed
    qed
  qed
next
  case (3 s i res)
  show ?case by (simp add: pg_mark_executed_def pg_status_update)
qed

section \<open>Properties\<close>

text \<open>Requests as the approval gate creates them, for the witnesses.\<close>

definition sample_approval :: pydict where
  "sample_approval =
     [(''approval_id'', PStr ''appr_1''), (''run_id'', PStr ''run-1''), (''session_id'', PStr ''s''),
      (''trace_id'', PNone), (''agent_id'', PStr ''agent-a''), (''release_id'', PStr ''rel-1''),
      (''actor_id'', PStr ''u1''), (''channel'', PStr ''wecom''), (''tool_id'', PStr ''refund''),
      (''runner_tool_id'', PStr ''refund''), (''runner_name'', PStr ''order_refund''),
      (''tool_args'', PDict [(''order'', PStr ''o1''), (''Token'', PStr ''t0'')])]"

definition approve :: approval_decision where
  "approve = \<lparr>ad_decision = APPROVAL_APPROVED, ad_decided_by = ''boss'', ad_comment = None\<rparr>"

definition reject :: approval_decision where
  "reject = \<lparr>ad_decision = APPROVAL_REJECTED, ad_decided_by = ''chief'', ad_comment = Some ''no''\<rparr>"

lemma proper_samples [simp]: "ad_decision approve = APPROVAL_APPROVED" "ad_decision reject = APPROVAL_REJECTED"
  by (simp_all add: approve_def reject_def)

definition sample_table :: approval_table where
  "sample_table = [new_approval_row 0 ''appr_1'' [] sample_approval 1800]"

text \<open>C22: In any sequence of decisions (approvals or rejections, by anybody, at any times, on any
  requests) and completions (\<open>mark_executed\<close>) that the in-memory store performs one after the
  other, at most one decision on a given request succeeds.\<close>

theorem memory_decided_once:
  assumes "list_all proper_op ops"
  shows "successes mem_decide (mem_mark_executed objs) k st ops \<le> 1"
  using assms by (rule mem.decided_at_most_once)

theorem memory_decided_once_witness:
  "successes mem_decide (mem_mark_executed (\<lambda>_. None)) ''appr_1'' (snd (mem_create [] 0 ''f'' [] sample_approval 1800))
     [Decide 10 ''appr_1'' approve, Executed ''appr_1'' [], Decide 20 ''appr_1'' reject] \<le> 1"
  by (rule memory_decided_once) simp

text \<open>The PostgreSQL store, when each decision runs its check and its update without another
  operation between them, decides a given request at most once as well.\<close>

theorem postgres_decided_once:
  assumes "list_all proper_op ops"
  shows "successes pg_decide (pg_mark_executed objs) k st ops \<le> 1"
  using assms by (rule pg.decided_at_most_once)

theorem postgres_decided_once_witness:
  "successes pg_decide (pg_mark_executed (\<lambda>_. None)) ''appr_1'' sample_table
     [Decide 10 ''appr_1'' approve, Decide 20 ''appr_1'' reject, Executed ''appr_1'' []] \<le> 1"
  by (rule postgres_decided_once) simp

text \<open>A request of the in-memory store can be decided from its creation until \<open>ttl\<close> seconds later
  and not from then on: before, the decision is recorded with its author, the snapshot stays as it
  was stored and nothing else of the store changes; after, the decision fails and the request is
  marked expired.\<close>

theorem decision_window:
  assumes "dget approval ''approval_id'' = PStr i" "i \<noteq> ''''"
    and created: "st = snd (mem_create st0 now fresh snapshot approval ttl)"
  shows "if t < now + ttl * 1000000
    then \<exists>r. mem_decide st t i d = (Inr r, AList.update i r st) \<and>
           dget r ''status'' = PStr (ad_decision d) \<and> dget r ''decided_by'' = PStr (ad_decided_by d) \<and>
           dget r ''snapshot'' = PDict snapshot
    else \<exists>st'. mem_decide st t i d = (Inl RequestExpired, st') \<and>
           mem_status st' = (mem_status st)(i \<mapsto> APPROVAL_EXPIRED)"
proof -
  let ?new = "[(''approval_id'', PStr i), (''status'', PStr APPROVAL_PENDING),
             (''snapshot'', PDict snapshot), (''requested_at'', iso now),
             (''expires_at'', iso (now + ttl * 1000000)), (''decided_at'', PNone),
             (''decided_by'', PNone), (''decision_comment'', PNone)]"
  define q where "q = dmerge approval ?new"
  have fields: "dget q ''status'' = PStr APPROVAL_PENDING" "dget q ''snapshot'' = PDict snapshot"
    "dget q ''expires_at'' = iso (now + ttl * 1000000)"
    by (simp_all add: q_def dget_dmerge)
  then have "q \<noteq> []" by (auto simp: dget_def dget_or_def)
  moreover have "st = AList.update i q st0"
    using assms by (simp add: mem_create_def Let_def q_def py_or_def)
  ultimately have got: "mem_get st i = Some q" by (simp add: mem_get_def update_conv')
  have expired: "is_expired t q \<longleftrightarrow> now + ttl * 1000000 \<le> t" using fields(3) by (rule is_expired_iso)
  show ?thesis
  proof (cases "t < now + ttl * 1000000")
    case True
    then show ?thesis
      using got expired fields by (simp add: mem_decide_def Let_def dget_dmerge)
  next
    case False
    have "dget (dset ''status'' (PStr APPROVAL_EXPIRED) q) ''status'' = PStr APPROVAL_EXPIRED" by simp
    with False show ?thesis
      using got expired fields by (simp add: mem_decide_def mem_status_update)
  qed
qed

theorem decision_window_witness:
  "fst (mem_decide (snd (mem_create [] 0 ''f'' [] sample_approval 1800)) 1800000000 ''appr_1'' approve) =
     Inl RequestExpired"
  using decision_window [of sample_approval "''appr_1''"
      "snd (mem_create [] 0 ''f'' [] sample_approval 1800)" "[]" 0 "''f''" "[]" 1800 1800000000 approve]
  by (auto simp: sample_approval_def dget_def dget_or_def)

text \<open>Two PostgreSQL decisions whose checks both run before either update both succeed, and the
  second overwrites the first: the \<open>UPDATE\<close> does not ask that the row is still pending.\<close>

lemma pg_decide_update_found:
  assumes "pg_status st i \<noteq> None"
  shows "\<exists>r st'. pg_decide_update st now i d = (Inr r, st') \<and> pg_status st' = (pg_status st)(i \<mapsto> ad_decision d)"
proof -
  let ?f = "\<lambda>a. a\<lparr>a_status := ad_decision d, a_decided_at := Some now,
      a_decided_by := Some (ad_decided_by d), a_decision_comment := ad_comment d\<rparr>"
  have "pg_status (update_row ?f i st) = (pg_status st)(i \<mapsto> ad_decision d)"
    using assms by (subst pg_status_update) auto
  moreover from this have "pg_get (update_row ?f i st) i \<noteq> None" by (simp add: pg_get_status(1))
  ultimately show ?thesis by (auto simp: pg_decide_update_def Let_def)
qed

lemma interleaved_decisions:
  assumes "pg_status st i \<noteq> None" "pg_decide_check st now1 i = (None, st)" "pg_decide_check st now2 i = (None, st)"
  obtains r1 st1 r2 st2 where "pg_decide_update st now1 i d1 = (Inr r1, st1)"
    "pg_decide_update st1 now2 i d2 = (Inr r2, st2)" "pg_status st2 i = Some (ad_decision d2)"
proof -
  obtain r1 st1 where one: "pg_decide_update st now1 i d1 = (Inr r1, st1)"
    "pg_status st1 = (pg_status st)(i \<mapsto> ad_decision d1)"
    using pg_decide_update_found [OF assms(1)] by blast
  then have "pg_status st1 i \<noteq> None" by simp
  from pg_decide_update_found [OF this] obtain r2 st2
    where "pg_decide_update st1 now2 i d2 = (Inr r2, st2)"
      "pg_status st2 = (pg_status st1)(i \<mapsto> ad_decision d2)"
    by blast
  with one that show ?thesis by simp
qed

end
