(* ===== verification/Approval_Gate.thy ===== *)
theory Approval_Gate
  imports Tool_Executor Runtime_Approvals
begin

text \<open>
  The approval gate in front of the tool executor, the parser of the planner's answer and the
  decision of an approval (\<open>configured_runner.py\<close>). The world \<open>'w\<close> holds the approval store and what
  the tools act on. Objects of the turn (the request) are dictionaries of their attributes. The
  model, the resolver of the context, the table of tools built from a context and the run of a whole
  turn are parameters. Texts shown to the user are given in English.
\<close>

section \<open>The gate\<close>

text \<open>\<open>create_pending\<close> of the store the gate was given, if any.\<close>

type_synonym 'w create = "pydict \<Rightarrow> pydict \<Rightarrow> 'w \<Rightarrow> (approval_error + pydict) \<times> 'w"

record 'w approval_gate =
  ag_context :: pydict
  ag_store :: "'w create option"
  ag_metadata :: pydict

definition tool_by_id :: "pydict \<Rightarrow> (string \<times> pydict) list" where
  "tool_by_id ctx =
     fold (\<lambda>t acc. AList.update (py_str (dget t ''tool_id'')) t acc)
       (filter (\<lambda>t. truthy (dget t ''tool_id''))
         (map as_dict (filter is_dict (as_list (dget ctx ''tools''))))) []"

definition write_levels :: "string list" where
  "write_levels = [''internal_write'', ''external_write'', ''destructive'']"

definition tool_requires_approval :: "pydict \<Rightarrow> bool" where
  "tool_requires_approval tool \<longleftrightarrow>
     truthy (dget tool ''requires_approval'') \<or>
     py_str (py_or (dget tool ''side_effect_level'') (PStr ''none'')) \<in> set write_levels"

text \<open>\<open>str(getattr(request, name, "") or "")\<close> and \<open>list(x or [])\<close>.\<close>

definition attr_text :: "pydict \<Rightarrow> string \<Rightarrow> string" where
  "attr_text request name = py_str (py_or (dget request name) (PStr []))"

definition list_or_empty :: "pyval \<Rightarrow> pyval" where
  "list_or_empty v = PList (as_list (py_or v (PList [])))"

definition build_approval_snapshot ::
  "pydict \<Rightarrow> pydict \<Rightarrow> pydict \<Rightarrow> pydict \<Rightarrow> approval_error + pydict" where
  "build_approval_snapshot state ctx call run_metadata =
     (let request = as_dict (dget state ''request'')
      in case py_int (py_or (dget state ''loop_count'') (PInt 0)) of
           None \<Rightarrow> Inl (Unsupported ''loop_count is no number'')
         | Some n \<Rightarrow> Inr
             [(''run_id'', PStr (py_str (py_or (dget run_metadata ''gateway_run_id'')
                 (py_or (dget run_metadata ''run_id'') (PStr []))))),
              (''session_id'', PStr (attr_text request ''session_id'')),
              (''user_id'', PStr (attr_text request ''user_id'')),
              (''trace_id'', PStr (py_str (py_or (dget request ''trace_id'')
                 (py_or (dget state ''trace_id'') (PStr []))))),
              (''message'', PStr (attr_text request ''query'')),
              (''history'', list_or_empty (dget request ''history'')),
              (''runtime_context'', PDict ctx),
              (''decision'', py_or (dget state ''decision'') (PDict [])),
              (''tool_call'', PDict call),
              (''tool_observations'', list_or_empty (dget state ''tool_observations'')),
              (''observability'', list_or_empty (dget state ''observability'')),
              (''loop_count'', PInt n), (''metadata'', PDict run_metadata)])"

definition build_approval_record :: "pydict \<Rightarrow> pydict \<Rightarrow> pydict \<Rightarrow> pydict" where
  "build_approval_record snapshot call tool =
     (let ctx = as_dict (dget snapshot ''runtime_context'');
          release = as_dict (py_or (dget ctx ''release'') (PDict []));
          actor = as_dict (py_or (dget ctx ''actor'') (PDict []))
      in [(''run_id'', py_or (dget snapshot ''run_id'') (dget snapshot ''trace_id'')),
          (''session_id'', dget snapshot ''session_id''), (''trace_id'', dget snapshot ''trace_id''),
          (''agent_id'', dget release ''agent_id''), (''release_id'', dget release ''release_id''),
          (''actor_id'', dget actor ''actor_id''), (''channel'', dget ctx ''channel''),
          (''tool_id'', dget tool ''tool_id''), (''runner_tool_id'', dget tool ''runner_tool_id''),
          (''runner_name'', dget tool ''runner_name''),
          (''tool_args'', py_or (dget call ''tool_args'') (PDict [])),
          (''policy'', PDict
            [(''requires_approval'', PBool (truthy (dget tool ''requires_approval''))),
             (''side_effect_level'', py_or (dget tool ''side_effect_level'') (PStr ''none'')),
             (''data_sensitivity'', py_or (dget tool ''data_sensitivity'') (PStr ''internal'')),
             (''network_access'', py_or (dget tool ''network_access'') (PStr ''none'')),
             (''read_only'', PBool (truthy (dget_or tool ''read_only'' (PBool True))))])])"

definition create_approval ::
  "'w approval_gate \<Rightarrow> 'w create \<Rightarrow> pydict \<Rightarrow> pydict \<Rightarrow> pydict \<Rightarrow> 'w \<Rightarrow> (approval_error + pydict) \<times> 'w" where
  "create_approval gate create call tool state w =
     (case build_approval_snapshot state (ag_context gate) call (ag_metadata gate) of
        Inl e \<Rightarrow> (Inl e, w)
      | Inr snapshot \<Rightarrow> create snapshot (build_approval_record snapshot call tool) w)"

text \<open>The tool of a call that needs an approval.\<close>

definition gated_tool :: "'w approval_gate \<Rightarrow> pydict \<Rightarrow> pydict option" where
  "gated_tool gate call =
     (case map_of (tool_by_id (ag_context gate)) (py_str (py_or (dget call ''tool_name'') (PStr []))) of
        None \<Rightarrow> None
      | Some tool \<Rightarrow> if tool \<noteq> [] \<and> tool_requires_approval tool then Some tool else None)"

definition pending_batch :: "pydict \<Rightarrow> pydict \<Rightarrow> pydict" where
  "pending_batch call approval =
     [(''status'', PStr ''pending_approval''), (''execution_mode'', PStr ''approval_required''),
      (''answer'', PStr ''This operation continues after an approval.''),
      (''approval_requests'', PList [PDict approval]),
      (''results'', PList [PDict
        [(''call_id'', dget call ''call_id''), (''tool_name'', dget call ''tool_name''),
         (''args'', py_or (dget call ''tool_args'') (PDict [])), (''status'', PStr ''pending_approval''),
         (''approval_id'', dget approval ''approval_id''), (''approval'', PDict approval),
         (''tool_metadata'', py_or (dget approval ''policy'') (PDict []))]])]"

text \<open>\<open>pending_result\<close>: the first call that needs an approval makes the whole batch wait.\<close>

fun pending_result ::
  "'w approval_gate \<Rightarrow> pydict list \<Rightarrow> pydict \<Rightarrow> 'w \<Rightarrow> (approval_error + pydict option) \<times> 'w" where
  "pending_result gate [] state w = (Inr None, w)"
| "pending_result gate (call # calls) state w =
     (case ag_store gate of
        None \<Rightarrow> (Inr None, w)
      | Some create \<Rightarrow>
          (case gated_tool gate call of
             None \<Rightarrow> pending_result gate calls state w
           | Some tool \<Rightarrow>
               (case create_approval gate create call tool state w of
                  (Inl e, w') \<Rightarrow> (Inl e, w')
                | (Inr approval, w') \<Rightarrow> (Inr (Some (pending_batch call approval)), w'))))"

definition gate_run_many ::
  "'w approval_gate \<Rightarrow> pydict list \<Rightarrow> pydict \<Rightarrow> (pydict list \<Rightarrow> 'w \<Rightarrow> pydict \<times> 'w) \<Rightarrow> 'w \<Rightarrow>
   (approval_error + pydict) \<times> 'w" where
  "gate_run_many gate calls state execute w =
     (case pending_result gate calls state w of
        (Inl e, w') \<Rightarrow> (Inl e, w')
      | (Inr (Some batch), w') \<Rightarrow> (Inr batch, w')
      | (Inr None, w') \<Rightarrow> (case execute calls w' of (r, w'') \<Rightarrow> (Inr r, w'')))"

text \<open>\<open>run_one\<close>: an exception of the executed call passes through the gate.\<close>

definition gate_run_one ::
  "'w approval_gate \<Rightarrow> string \<Rightarrow> pydict \<Rightarrow> pydict \<Rightarrow> (pydict \<Rightarrow> 'w \<Rightarrow> (py_exn + pydict) \<times> 'w) \<Rightarrow> 'w \<Rightarrow>
   (approval_error + (py_exn + pydict)) \<times> 'w" where
  "gate_run_one gate name args state execute w =
     (let call = [(''call_id'', PStr ''tool-call-1''), (''tool_name'', PStr name), (''tool_args'', PDict args)]
      in case pending_result gate [call] state w of
           (Inl e, w') \<Rightarrow> (Inl e, w')
         | (Inr (Some batch), w') \<Rightarrow> (Inr (Inr (as_dict (hd (as_list (dget batch ''results''))))), w')
         | (Inr None, w') \<Rightarrow> (case execute call w' of (r, w'') \<Rightarrow> (Inr r, w'')))"

text \<open>\<open>run_tools\<close> and \<open>run_tool\<close> of the dependencies of a configured turn.\<close>

definition gated_run_tools ::
  "'w platform \<Rightarrow> (nat \<Rightarrow> nat list) \<Rightarrow> 'w executor \<Rightarrow> 'w approval_gate \<Rightarrow> pydict list \<Rightarrow> pydict \<Rightarrow> 'w \<Rightarrow>
   (approval_error + pydict) \<times> 'w" where
  "gated_run_tools pf schedule ex gate calls state w =
     gate_run_many gate calls state (\<lambda>approved. run_many pf schedule ex approved state) w"

definition gated_run_tool ::
  "'w platform \<Rightarrow> 'w executor \<Rightarrow> 'w approval_gate \<Rightarrow> string \<Rightarrow> pydict \<Rightarrow> pydict \<Rightarrow> 'w \<Rightarrow>
   (approval_error + (py_exn + pydict)) \<times> 'w" where
  "gated_run_tool pf ex gate name args state w =
     gate_run_one gate name args state (\<lambda>call. run pf ex name args state (dget call ''call_id'')) w"

section \<open>What the gate lets through\<close>

definition needs_approval :: "'w approval_gate \<Rightarrow> string \<Rightarrow> bool" where
  "needs_approval gate name \<longleftrightarrow>
     (\<exists>tool. map_of (tool_by_id (ag_context gate)) name = Some tool \<and> tool \<noteq> [] \<and> tool_requires_approval tool)"

text \<open>A call as the planner's parser gives it: its name is a text without surrounding space.\<close>

definition named_call :: "string \<Rightarrow> pydict \<Rightarrow> bool" where
  "named_call name call \<longleftrightarrow> dget call ''tool_name'' = PStr name \<and> name \<noteq> [] \<and> py_strip name = name"

lemma gated_tool_iff:
  "named_call name call \<Longrightarrow> gated_tool gate call \<noteq> None \<longleftrightarrow> needs_approval gate name"
  by (auto simp: gated_tool_def needs_approval_def named_call_def py_or_def split: option.splits)

lemma normalized_named:
  "named_call name call \<Longrightarrow> dget (normalize_tool_call call i) ''tool_name'' = PStr name"
  by (simp add: normalize_tool_call_def named_call_def py_or_def Let_def)

lemma pending_None:
  assumes "ag_store gate = Some create" "pending_result gate calls state w = (Inr None, w')"
  shows "w' = w \<and> (\<forall>c \<in> set calls. gated_tool gate c = None)"
  using assms(2)
  by (induction calls) (auto simp: assms(1) split: option.splits sum.splits prod.splits)

lemma pending_first:
  assumes "ag_store gate = Some create" "\<forall>c \<in> set before. gated_tool gate c = None"
    and "gated_tool gate call = Some tool"
  shows "pending_result gate (before @ call # after) state w =
    (case create_approval gate create call tool state w of
       (Inl e, w') \<Rightarrow> (Inl e, w')
     | (Inr approval, w') \<Rightarrow> (Inr (Some (pending_batch call approval)), w'))"
  using assms(2)
  by (induction before) (auto simp: assms(1,3) split: sum.splits prod.splits)

text \<open>The creation of the requests a gate makes, which never bring an id of their own, keeps a condition.\<close>

definition creates_spare :: "('w \<Rightarrow> bool) \<Rightarrow> 'w create \<Rightarrow> bool" where
  "creates_spare I create \<longleftrightarrow>
     (\<forall>snapshot approval w. dget approval ''approval_id'' = PNone \<longrightarrow> I w \<longrightarrow> I (snd (create snapshot approval w)))"

lemma record_without_id: "dget (build_approval_record snapshot call tool) ''approval_id'' = PNone"
  by (simp add: build_approval_record_def Let_def)

lemma create_approval_spares:
  assumes "creates_spare I create" "I w"
  shows "I (snd (create_approval gate create call tool state w))"
  using assms record_without_id by (simp add: create_approval_def creates_spare_def split: sum.split)

lemma pending_spares:
  assumes "ag_store gate = Some create"
    and "creates_spare I create" "I w"
  shows "I (snd (pending_result gate calls state w))"
proof (induction calls)
  case Nil
  then show ?case using assms(3) by simp
next
  case (Cons c calls)
  show ?case
  proof (cases "gated_tool gate c")
    case None
    then show ?thesis using Cons assms(1) by simp
  next
    case (Some tool)
    have "I (snd (create_approval gate create c tool state w))"
    proof (rule create_approval_spares)
      show "I w" by (rule assms(3))
    qed (rule assms(2))
    with Some show ?thesis
      using assms(1)
      by (cases "create_approval gate create c tool state w") (auto split: sum.split)
  qed
qed

text \<open>With an approval store in place, a batch that goes through the gate never runs a tool that
  needs an approval, whatever the other calls of the batch are: any condition of the world that
  sleeping, the hooks, the creation of approval requests and the tools without approval keep is
  still true after the batch, however the tools that need approval act on it.\<close>

theorem gate_blocks_unapproved:
  assumes store: "ag_store gate = Some create"
    and create: "creates_spare I create"
    and tools: "\<And>name. \<not> needs_approval gate name \<Longrightarrow> spares I pf ex name"
    and pool: "\<And>n. set (schedule n) = {..<n}"
    and names: "\<And>c. c \<in> set calls \<Longrightarrow> \<exists>name. named_call name c"
    and "I w"
  shows "I (snd (gated_run_tools pf schedule ex gate calls state w))"
proof -
  obtain r w1 where pending: "pending_result gate calls state w = (r, w1)"
    by (cases "pending_result gate calls state w")
  have "I (snd (pending_result gate calls state w))"
  proof (rule pending_spares)
    show "ag_store gate = Some create" by (rule store)
    show "I w" by (rule \<open>I w\<close>)
  qed (rule create)
  then have w1: "I w1" using pending by simp
  show ?thesis
  proof (cases "r = Inr None")
    case False
    then show ?thesis
      using pending w1
      by (auto simp: gated_run_tools_def gate_run_many_def split: sum.splits option.splits)
  next
    case True
    then have ungated: "\<forall>c \<in> set calls. gated_tool gate c = None" using pending_None [OF store] pending by blast
    have "spares I pf ex (py_str (dget c ''tool_name''))" if c: "c \<in> set (normalized_calls calls)" for c
    proof -
      obtain i where i: "i < length calls" "c = normalize_tool_call (calls ! i) i"
        using c by (auto simp: in_set_conv_nth normalized_nth)
      then obtain name where name: "named_call name (calls ! i)" using names nth_mem by blast
      have "gated_tool gate (calls ! i) = None" using ungated i(1) by simp
      then have "\<not> needs_approval gate name" using gated_tool_iff [OF name, of gate] by simp
      then show ?thesis using tools normalized_named [OF name] i(2) by simp
    qed
    then have batch: "I (snd (run_many pf schedule ex calls state w1))"
    proof (rule run_many_spares [rotated 2])
      show "set (schedule n) = {..<n}" for n by (rule pool)
      show "I w1" by (rule w1)
    qed
    show ?thesis
      using batch pending True
      by (cases "run_many pf schedule ex calls state w1") (simp add: gated_run_tools_def gate_run_many_def)
  qed
qed

text \<open>A gate over two tools, a refund that needs an approval and the stock level of the executor; the
  world counts refunds and holds the approval store.\<close>

type_synonym desk = "nat \<times> memory_store"

definition desk_context :: pydict where
  "desk_context = [(''tools'', PList
     [PDict [(''tool_id'', PStr ''refund''), (''side_effect_level'', PStr ''external_write'')],
      PDict [(''tool_id'', PStr ''stock''), (''side_effect_level'', PStr ''none'')]])]"

definition desk_gate :: "desk approval_gate" where
  "desk_gate =
     \<lparr>ag_context = desk_context,
      ag_store = Some (\<lambda>snapshot approval (n, st).
        case mem_create st 0 ''f1'' snapshot approval 1800 of (r, st') \<Rightarrow> (Inr r, (n, st'))),
      ag_metadata = []\<rparr>"

definition desk_tool :: "string \<Rightarrow> desk handler \<Rightarrow> desk tool_spec" where
  "desk_tool name h =
     \<lparr>ts_name = name, ts_description = [], ts_input_schema = [], ts_handler = h, ts_max_retries = 1,
      ts_retry_delay = 0, ts_metadata = default_metadata, ts_json_schema = PNone\<rparr>"

definition desk_executor :: "desk executor" where
  "desk_executor =
     \<lparr>ex_tools =
        [(''refund'', desk_tool ''refund'' (\<lambda>args state (n, st). (Inr PNone, (n + 1, st)))),
         (''stock'', desk_tool ''stock'' (\<lambda>args state w. (Inr (PInt 5), w)))],
      before_call = [], after_call = [], on_error = []\<rparr>"

definition desk_platform :: "desk platform" where
  "desk_platform = \<lparr>perf_counter = (\<lambda>w. 0), sleep = (\<lambda>d w. w)\<rparr>"

lemma refund_needs_approval: "needs_approval desk_gate ''refund''"
  by (simp add: needs_approval_def desk_gate_def desk_context_def tool_by_id_def
      tool_requires_approval_def write_levels_def py_or_def)

theorem gate_blocks_unapproved_witness:
  "fst (snd (gated_run_tools desk_platform (\<lambda>n. [0..<n]) desk_executor desk_gate
     [[(''tool_name'', PStr ''stock'')], [(''tool_name'', PStr ''refund'')]] [] (7, []))) = 7"
proof (rule gate_blocks_unapproved [where I = "\<lambda>w. fst w = 7"])
  show "ag_store desk_gate = Some (\<lambda>snapshot approval (n, st).
        case mem_create st 0 ''f1'' snapshot approval 1800 of (r, st') \<Rightarrow> (Inr r, (n, st')))"
    by (simp add: desk_gate_def)
  show "spares (\<lambda>w. fst w = 7) desk_platform desk_executor name" if "\<not> needs_approval desk_gate name" for name
  proof -
    have "name \<noteq> ''refund''" using that refund_needs_approval by auto
    then show ?thesis by (auto simp: spares_def desk_platform_def desk_executor_def desk_tool_def)
  qed
  show "\<exists>name. named_call name c" if "c \<in> set [[(''tool_name'', PStr ''stock'')], [(''tool_name'', PStr ''refund'')]]" for c
    using that by (auto simp: named_call_def py_strip_def is_space_def)
qed (auto simp: creates_spare_def split: prod.split)

end
