(* ===== verification/Planner_Decision.thy ===== *)
theory Planner_Decision
  imports Tool_Executor
begin

text \<open>
  What a turn makes of the planner's answer (\<open>configured_runner.py\<close>, the decision types of
  \<open>agent_loop.py\<close>): the parser of decisions and tool calls, and the guard that stops a planner whose
  tools keep returning nothing usable. Texts shown to the user are given in English.
\<close>

record tool_call =
  tc_call_id :: string
  tc_tool_name :: string
  tc_tool_args :: pydict
  tc_reason :: pyval

record agent_decision =
  ag_route :: string
  ag_answer :: "string option"
  ag_tool_name :: "string option"
  ag_tool_args :: pydict
  ag_reason :: "string option"
  ag_tool_calls :: "tool_call list"

definition say :: "string \<Rightarrow> string \<Rightarrow> string option \<Rightarrow> agent_decision" where
  "say route answer reason =
     \<lparr>ag_route = route, ag_answer = Some answer, ag_tool_name = None, ag_tool_args = [],
      ag_reason = reason, ag_tool_calls = []\<rparr>"

definition text_option :: "pyval \<Rightarrow> string option" where
  "text_option v = (case v of PStr s \<Rightarrow> Some s | _ \<Rightarrow> None)"

section \<open>Parsing\<close>

text \<open>\<open>None\<close> is the early return at the first tool that is not allowed.\<close>

fun parse_calls :: "string list \<Rightarrow> nat \<Rightarrow> pyval list \<Rightarrow> tool_call list option" where
  "parse_calls allowed i [] = Some []"
| "parse_calls allowed i (PDict item # items) =
     (let name = py_str (py_or (py_or (dget item ''tool_name'') (dget item ''name'')) (PStr []));
          args = (if is_dict (dget item ''tool_args'') then dget item ''tool_args'' else dget item ''args'')
      in if name \<notin> set allowed then None
         else map_option (Cons
           \<lparr>tc_call_id = py_str (py_or (dget item ''call_id'') (PStr (''tool-call-'' @ nat_text (i + 1)))),
            tc_tool_name = name, tc_tool_args = as_dict args,
            tc_reason = (if is_str (dget item ''reason'') then dget item ''reason'' else PNone)\<rparr>)
           (parse_calls allowed (i + 1) items))"
| "parse_calls allowed i (item # items) = parse_calls allowed (i + 1) items"

definition parse_runtime_tool_calls :: "pyval \<Rightarrow> string list \<Rightarrow> tool_call list" where
  "parse_runtime_tool_calls value allowed =
     (case parse_calls allowed 0 (take 8 (as_list value)) of None \<Rightarrow> [] | Some calls \<Rightarrow> calls)"

definition routes :: "string list" where
  "routes = [''tool_call'', ''answer'', ''clarify'', ''handoff'', ''chat'']"

definition parse_route :: "pydict \<Rightarrow> string" where
  "parse_route data =
     (let route = py_str (py_or (dget data ''route'') (PStr ''answer''));
          route = (if route = ''faq_answer'' then ''answer'' else route)
      in if route \<in> set routes then route else ''answer'')"

definition parse_configured_decision :: "pydict \<Rightarrow> string list \<Rightarrow> agent_decision" where
  "parse_configured_decision data allowed =
     (let route = parse_route data;
          calls = parse_runtime_tool_calls (dget data ''tool_calls'') allowed;
          single = (route = ''tool_call'' \<and> calls = [] \<and> is_str (dget data ''tool_name''));
          name = py_str (dget data ''tool_name'')
      in if single \<and> name \<notin> set allowed
           then say ''answer'' (''tool '' @ name @ '' is not authorized'')
             (Some (''unknown_tool_requested:'' @ name))
         else
           let calls = (if single
                then [\<lparr>tc_call_id = ''tool-call-1'', tc_tool_name = name,
                       tc_tool_args = as_dict (dget data ''tool_args''), tc_reason = dget data ''reason''\<rparr>]
                else calls)
           in if route = ''tool_call''
              then (case calls of
                      [] \<Rightarrow> say ''answer'' ''no executable tool call'' (Some ''empty_tool_call'')
                    | first # rest \<Rightarrow>
                        \<lparr>ag_route = ''tool_call'', ag_answer = None, ag_tool_name = Some (tc_tool_name first),
                         ag_tool_args = tc_tool_args first, ag_reason = text_option (dget data ''reason''),
                         ag_tool_calls = calls\<rparr>)
              else (case text_option (dget data ''answer'') of
                      None \<Rightarrow> say ''clarify'' ''more information is needed'' (text_option (dget data ''reason''))
                    | Some answer \<Rightarrow>
                        if py_strip answer = []
                        then say ''clarify'' ''more information is needed'' (text_option (dget data ''reason''))
                        else say route (py_strip answer) (text_option (dget data ''reason''))))"

section \<open>Replanning without usable results\<close>

definition ignored_keys :: "string list" where
  "ignored_keys = [''elapsed_ms'', ''mcp_tool'']"

function (sequential) output_has_content :: "pyval \<Rightarrow> bool" where
  "output_has_content PNone = False"
| "output_has_content (PStr s) = (py_strip s \<noteq> [])"
| "output_has_content (PList xs) = list_ex output_has_content xs"
| "output_has_content (PDict d) =
     (list_ex (\<lambda>p. fst p = ''result'' \<and> output_has_content (snd p)) d \<or>
      list_ex (\<lambda>p. fst p = ''results'' \<and> output_has_content (snd p)) d \<or>
      list_ex (\<lambda>p. fst p \<notin> set ignored_keys \<and> output_has_content (snd p)) d)"
| "output_has_content v = True"
  by pat_completeness auto

termination output_has_content
proof (relation "measure size", goal_cases)
  case 1
  show ?case by simp
next
  case (2 xs x)
  then show ?case by (simp add: size_list_estimation' le_imp_less_Suc)
qed (simp_all add: size_dict_snd)

definition tool_observation_has_usable_output :: "pydict \<Rightarrow> bool" where
  "tool_observation_has_usable_output observation \<longleftrightarrow>
     py_eq (dget observation ''status'') (PStr ''ok'') \<and> output_has_content (dget observation ''output'')"

definition unusable :: "pyval \<Rightarrow> bool" where
  "unusable item \<longleftrightarrow> is_dict item \<and> \<not> tool_observation_has_usable_output (as_dict item)"

definition trailing_unusable_tool_count :: "pyval list \<Rightarrow> nat" where
  "trailing_unusable_tool_count observations = length (takeWhile unusable (rev observations))"

text \<open>The names in the last four observations, and the decision that ends the turn.\<close>

definition recent_tool_names :: "pyval list \<Rightarrow> string list" where
  "recent_tool_names observations =
     sorted_set (map (\<lambda>d. get_text d ''tool_name'')
       (filter (\<lambda>d. truthy (dget d ''tool_name''))
         (map as_dict (filter is_dict (drop (length observations - 4) observations)))))"

definition stop_replanning_after_unusable_tools :: "pydict \<Rightarrow> py_exn + agent_decision option" where
  "stop_replanning_after_unusable_tools state =
     (let observations = as_list (dget state ''tool_observations'')
      in case py_int (py_or (dget state ''loop_count'') (PInt 0)) of
           None \<Rightarrow> Inl (exn ''ValueError'' ''loop_count'')
         | Some n \<Rightarrow>
             if n < 2 \<or> trailing_unusable_tool_count observations < 2 then Inr None
             else
               let names = recent_tool_names observations;
                   joined = (if names = [] then ''external tools'' else py_join '', '' names)
               in Inr (Some (say ''answer'' (joined @ '' returned no usable result'')
                    (Some ''tool_unusable_replanning_stopped''))))"

text \<open>\<open>configured_planner_think\<close>; \<open>chat\<close> is what the model's client gives for the turn's messages.\<close>

definition catalog_names :: "pydict \<Rightarrow> string list" where
  "catalog_names state =
     map (\<lambda>d. get_text d ''name'')
       (filter (\<lambda>d. truthy (dget d ''name'')) (map as_dict (as_list (dget state ''tool_catalog''))))"

definition configured_planner_think :: "(pydict \<Rightarrow> py_exn + pydict) \<Rightarrow> pydict \<Rightarrow> py_exn + agent_decision" where
  "configured_planner_think chat state =
     (let context = py_or (dget state ''context'') (PDict [])
      in if is_dict context \<and> \<not> is_dict (dget (as_dict context) ''runtime_context'')
           then Inr (say ''answer'' ''the runtime context is invalid'' (Some ''invalid_runtime_context''))
         else case stop_replanning_after_unusable_tools state of
           Inl e \<Rightarrow> Inl e
         | Inr (Some guard) \<Rightarrow> Inr guard
         | Inr None \<Rightarrow>
             (case chat state of
                Inl e \<Rightarrow>
                  if exn_type e = ''DeepSeekError''
                  then Inr (say ''answer'' ''the model cannot answer now'' (Some ''configured_llm_fallback''))
                  else Inl e
              | Inr data \<Rightarrow> Inr (parse_configured_decision data (catalog_names state))))"

section \<open>Properties\<close>

lemma parse_calls_allowed:
  "parse_calls allowed i items = Some calls \<Longrightarrow>
     list_all (\<lambda>c. tc_tool_name c \<in> set allowed) calls \<and> length calls \<le> length items"
proof (induction allowed i items arbitrary: calls rule: parse_calls.induct)
  case (2 allowed i item items)
  then show ?case by (auto simp: Let_def split: if_splits)
qed (simp_all add: le_SucI)

lemma parse_runtime_tool_calls_allowed:
  "list_all (\<lambda>c. tc_tool_name c \<in> set allowed) (parse_runtime_tool_calls v allowed)"
  "length (parse_runtime_tool_calls v allowed) \<le> 8"
proof -
  have "list_all (\<lambda>c. tc_tool_name c \<in> set allowed) (parse_runtime_tool_calls v allowed) \<and>
      length (parse_runtime_tool_calls v allowed) \<le> 8"
  proof (cases "parse_calls allowed 0 (take 8 (as_list v))")
    case None
    then show ?thesis by (simp add: parse_runtime_tool_calls_def)
  next
    case (Some calls)
    from parse_calls_allowed [OF Some] show ?thesis
      by (simp add: parse_runtime_tool_calls_def Some)
  qed
  then show "list_all (\<lambda>c. tc_tool_name c \<in> set allowed) (parse_runtime_tool_calls v allowed)"
    "length (parse_runtime_tool_calls v allowed) \<le> 8" by simp_all
qed

lemma parse_route_in: "parse_route data \<in> set routes"
  by (simp add: parse_route_def Let_def routes_def)

lemma say_simps [simp]:
  "ag_route (say r a q) = r" "ag_answer (say r a q) = Some a" "ag_tool_calls (say r a q) = []"
  "ag_tool_name (say r a q) = None"
  by (simp_all add: say_def)

definition tool_decision :: "string list \<Rightarrow> agent_decision \<Rightarrow> bool" where
  "tool_decision allowed d \<longleftrightarrow>
     ag_route d = ''tool_call'' \<and> ag_tool_calls d \<noteq> [] \<and> length (ag_tool_calls d) \<le> 8 \<and>
     list_all (\<lambda>c. tc_tool_name c \<in> set allowed) (ag_tool_calls d) \<and>
     ag_tool_name d = Some (tc_tool_name (hd (ag_tool_calls d))) \<and> ag_answer d = None"

definition final_decision :: "agent_decision \<Rightarrow> bool" where
  "final_decision d \<longleftrightarrow>
     ag_route d \<in> {''answer'', ''clarify'', ''handoff'', ''chat''} \<and> ag_tool_calls d = [] \<and> ag_tool_name d = None \<and>
     ag_answer d \<noteq> None \<and> ag_answer d \<noteq> Some []"

lemma tool_calls_decision:
  assumes "list_all (\<lambda>c. tc_tool_name c \<in> set allowed) calls" "length calls \<le> 8" "calls \<noteq> []"
  shows "tool_decision allowed (case calls of
      [] \<Rightarrow> say ''answer'' ''no executable tool call'' (Some ''empty_tool_call'')
    | first # rest \<Rightarrow>
        \<lparr>ag_route = ''tool_call'', ag_answer = None, ag_tool_name = Some (tc_tool_name first),
         ag_tool_args = tc_tool_args first, ag_reason = reason, ag_tool_calls = calls\<rparr>)"
  using assms by (cases calls) (simp_all add: tool_decision_def)

lemma final_say:
  "r \<in> {''answer'', ''clarify'', ''handoff'', ''chat''} \<Longrightarrow> a \<noteq> [] \<Longrightarrow> final_decision (say r a q)"
  by (simp only: final_decision_def say_simps) simp

lemma parsed_decision:
  "tool_decision allowed (parse_configured_decision data allowed) \<or>
   final_decision (parse_configured_decision data allowed)"
proof -
  define route where "route = parse_route data"
  define calls where "calls = parse_runtime_tool_calls (dget data ''tool_calls'') allowed"
  define name where "name = py_str (dget data ''tool_name'')"
  define single where "single = (route = ''tool_call'' \<and> calls = [] \<and> is_str (dget data ''tool_name''))"
  define calls' where "calls' = (if single
      then [\<lparr>tc_call_id = ''tool-call-1'', tc_tool_name = name,
             tc_tool_args = as_dict (dget data ''tool_args''), tc_reason = dget data ''reason''\<rparr>]
      else calls)"
  have unfolded: "parse_configured_decision data allowed =
      (if single \<and> name \<notin> set allowed
       then say ''answer'' (''tool '' @ name @ '' is not authorized'') (Some (''unknown_tool_requested:'' @ name))
       else if route = ''tool_call''
       then (case calls' of
               [] \<Rightarrow> say ''answer'' ''no executable tool call'' (Some ''empty_tool_call'')
             | first # rest \<Rightarrow>
                 \<lparr>ag_route = ''tool_call'', ag_answer = None, ag_tool_name = Some (tc_tool_name first),
                  ag_tool_args = tc_tool_args first, ag_reason = text_option (dget data ''reason''),
                  ag_tool_calls = calls'\<rparr>)
       else (case text_option (dget data ''answer'') of
               None \<Rightarrow> say ''clarify'' ''more information is needed'' (text_option (dget data ''reason''))
             | Some answer \<Rightarrow>
                 if py_strip answer = []
                 then say ''clarify'' ''more information is needed'' (text_option (dget data ''reason''))
                 else say route (py_strip answer) (text_option (dget data ''reason''))))"
    unfolding parse_configured_decision_def Let_def route_def calls_def name_def single_def calls'_def ..
  have route: "route \<in> set routes" by (simp add: route_def parse_route_in)
  have allowed: "list_all (\<lambda>c. tc_tool_name c \<in> set allowed) calls" "length calls \<le> 8"
    by (simp_all add: calls_def parse_runtime_tool_calls_allowed)
  show ?thesis
  proof (cases "single \<and> name \<notin> set allowed")
    case True
    then have "parse_configured_decision data allowed =
        say ''answer'' (''tool '' @ name @ '' is not authorized'') (Some (''unknown_tool_requested:'' @ name))"
      unfolding unfolded by (rule if_P)
    moreover have "final_decision
        (say ''answer'' (''tool '' @ name @ '' is not authorized'') (Some (''unknown_tool_requested:'' @ name)))"
      by (rule final_say) simp_all
    ultimately show ?thesis by (simp only: disj_ac simp_thms)
  next
    case False
    note rest = unfolded [unfolded if_not_P [OF False]]
    from False have calls': "list_all (\<lambda>c. tc_tool_name c \<in> set allowed) calls'" "length calls' \<le> 8"
      using allowed by (auto simp: calls'_def)
    show ?thesis
    proof (cases "route = ''tool_call''")
      case tool: True
      show ?thesis
      proof (cases "calls' = []")
        case True
        show ?thesis unfolding rest using tool True by (simp add: final_say)
      next
        case nonempty: False
        show ?thesis
          unfolding rest using tool
            tool_calls_decision [OF calls' nonempty, of "text_option (dget data ''reason'')"] by simp
      qed
    next
      case other: False
      with route have "route \<in> {''answer'', ''clarify'', ''handoff'', ''chat''}" by (simp add: routes_def)
      then show ?thesis
        unfolding rest using other by (simp add: final_say split: option.split)
    qed
  qed
qed

text \<open>Whatever the language model answers, the parsed decision is either a batch of one to eight
  calls that all name tools of the turn's catalog, or a final decision with a non-empty text and no
  tool call.\<close>

theorem decision_valid:
  "tool_decision allowed (parse_configured_decision data allowed) \<or>
   final_decision (parse_configured_decision data allowed)"
  by (rule parsed_decision)

text \<open>The same for the planner as a whole: its guards and its fallback are final decisions.\<close>

lemma configured_think_valid:
  assumes "configured_planner_think chat state = Inr d"
  shows "tool_decision (catalog_names state) d \<or> final_decision d"
proof (cases "stop_replanning_after_unusable_tools state")
  case (Inl e)
  then show ?thesis
    using assms by (auto simp: configured_planner_think_def Let_def final_say split: if_splits)
next
  case (Inr g)
  have guard: "final_decision d'" if "g = Some d'" for d'
    using Inr that unfolding stop_replanning_after_unusable_tools_def Let_def
    by (auto simp: final_decision_def split: option.splits if_splits)
  show ?thesis
    using assms Inr guard parsed_decision
    by (auto simp: configured_planner_think_def Let_def final_say split: if_splits option.splits sum.splits)
qed

text \<open>Two observations without usable output in a row end the turn: the model is not asked again.\<close>

lemma replanning_stops:
  assumes "is_dict (dget (as_dict (py_or (dget state ''context'') (PDict []))) ''runtime_context'')"
    and "py_int (py_or (dget state ''loop_count'') (PInt 0)) = Some n" "2 \<le> n"
    and "as_list (dget state ''tool_observations'') = obs @ [a, b]" "unusable a" "unusable b"
  shows "\<exists>d. final_decision d \<and> configured_planner_think chat state = Inr d"
proof -
  have "2 \<le> trailing_unusable_tool_count (obs @ [a, b])"
    using assms(5,6) by (simp add: trailing_unusable_tool_count_def)
  then obtain msg where "stop_replanning_after_unusable_tools state =
      Inr (Some (say ''answer'' (msg @ '' returned no usable result'') (Some ''tool_unusable_replanning_stopped'')))"
    using assms(2,3,4) unfolding stop_replanning_after_unusable_tools_def Let_def by auto
  then show ?thesis
    using assms(1) unfolding configured_planner_think_def Let_def by (auto simp: final_decision_def)
qed

end
