(* ===== verification/Retrieval.thy ===== *)
theory Retrieval
  imports Tool_Executor "HOL-Library.Product_Lexorder" "HOL-Library.Multiset"
begin

text \<open>
  Fusion of retrieval results (\<open>retrieval.py\<close>) and the merge of the result sets of several FAQ
  searches (\<open>merge_ranked_results\<close> of \<open>agent_loop.py\<close>). The two searches themselves run in PostgreSQL
  (full text and vector distance) and are parameters.
\<close>

section \<open>Reciprocal rank fusion\<close>

text \<open>An entry of \<open>fused\<close>: the fields of its first result, and what the loop computes.\<close>

record fused_item =
  fi_fields :: pydict
  fi_faq_id :: int
  fi_score :: rat
  fi_source_ranks :: "(string \<times> nat) list"
  fi_source_scores :: "(string \<times> rat) list"

type_synonym entry = "string \<times> nat \<times> pydict"

text \<open>The results in the order of the two loops, each with its source and its rank from 1.\<close>

definition rank_entries :: "(string \<times> pydict list) list \<Rightarrow> entry list" where
  "rank_entries rankings =
     concat (map (\<lambda>(source, results). map (\<lambda>(rank, r). (source, rank, r)) (List.enumerate 1 results)) rankings)"

definition entry_id :: "entry \<Rightarrow> py_exn + int" where
  "entry_id e =
     (case e of (source, rank, r) \<Rightarrow>
        (case map_of r ''faq_id'' of
           None \<Rightarrow> Inl (exn ''KeyError'' ''faq_id'')
         | Some v \<Rightarrow> (case py_int v of None \<Rightarrow> Inl (exn ''ValueError'' ''faq_id'') | Some i \<Rightarrow> Inr i)))"

definition entry_score :: "entry \<Rightarrow> py_exn + rat" where
  "entry_score e =
     (case e of (source, rank, r) \<Rightarrow>
        (case map_of r ''score'' of
           None \<Rightarrow> Inl (exn ''KeyError'' ''score'')
         | Some v \<Rightarrow> (case py_float v of None \<Rightarrow> Inl (exn ''ValueError'' ''score'') | Some x \<Rightarrow> Inr x)))"

definition empty_item :: "int \<Rightarrow> pydict \<Rightarrow> fused_item" where
  "empty_item i r =
     \<lparr>fi_fields = r, fi_faq_id = i, fi_score = 0, fi_source_ranks = [], fi_source_scores = []\<rparr>"

definition fuse_entry :: "int \<Rightarrow> entry \<Rightarrow> (int \<times> fused_item) list \<Rightarrow> py_exn + (int \<times> fused_item) list" where
  "fuse_entry rrf_k e fused =
     (case entry_id e of
        Inl x \<Rightarrow> Inl x
      | Inr i \<Rightarrow>
          (case entry_score e of
             Inl x \<Rightarrow> Inl x
           | Inr s \<Rightarrow>
               (case e of (source, rank, r) \<Rightarrow>
                  let item = (case map_of fused i of None \<Rightarrow> empty_item i r | Some it \<Rightarrow> it)
                  in Inr (AList.update i
                       (item\<lparr>fi_score := fi_score item + 1 / (of_int rrf_k + of_nat rank),
                             fi_source_ranks := AList.update source rank (fi_source_ranks item),
                             fi_source_scores := AList.update source s (fi_source_scores item)\<rparr>) fused))))"

fun fuse_entries :: "int \<Rightarrow> entry list \<Rightarrow> (int \<times> fused_item) list \<Rightarrow> py_exn + (int \<times> fused_item) list" where
  "fuse_entries rrf_k [] fused = Inr fused"
| "fuse_entries rrf_k (e # es) fused =
     (case fuse_entry rrf_k e fused of
        Inl x \<Rightarrow> Inl x
      | Inr fused' \<Rightarrow> fuse_entries rrf_k es fused')"

text \<open>The sort key; \<open>(True, 0)\<close> is the infinite rank of a source that did not find the item.\<close>

definition fused_key :: "string option \<Rightarrow> fused_item \<Rightarrow> rat \<times> (bool \<times> nat) \<times> nat \<times> int" where
  "fused_key tie_break_source it =
     (- fi_score it,
      (case tie_break_source of
         None \<Rightarrow> (True, 0)
       | Some s \<Rightarrow> (case map_of (fi_source_ranks it) s of None \<Rightarrow> (True, 0) | Some r \<Rightarrow> (False, r))),
      Min (snd ` set (fi_source_ranks it)), fi_faq_id it)"

definition reciprocal_rank_fusion ::
  "(string \<times> pydict list) list \<Rightarrow> int \<Rightarrow> int \<Rightarrow> string option \<Rightarrow> py_exn + fused_item list" where
  "reciprocal_rank_fusion rankings top_k rrf_k tie_break_source =
     (if top_k \<le> 0 then Inl (exn ''ValueError'' ''top_k must be greater than 0'')
      else if rrf_k \<le> 0 then Inl (exn ''ValueError'' ''rrf_k must be greater than 0'')
      else case fuse_entries rrf_k (rank_entries rankings) [] of
             Inl x \<Rightarrow> Inl x
           | Inr fused \<Rightarrow> Inr (take (nat top_k) (sort_key (fused_key tie_break_source) (map snd fused))))"

text \<open>\<open>hybrid_retrieve\<close>; \<open>cfg\<close> holds the configured \<open>top_k\<close>, \<open>candidate_k\<close>, \<open>rrf_k\<close> and tie-break source.\<close>

definition int_or :: "int option \<Rightarrow> int \<Rightarrow> int" where
  "int_or x d = (case x of None \<Rightarrow> d | Some i \<Rightarrow> if i = 0 then d else i)"

definition hybrid_retrieve ::
  "(string \<Rightarrow> int \<Rightarrow> pydict list) \<Rightarrow> ('v \<Rightarrow> int \<Rightarrow> py_exn + pydict list) \<Rightarrow> int \<times> int \<times> int \<times> string option \<Rightarrow>
   string \<Rightarrow> 'v \<Rightarrow> int option \<Rightarrow> int option \<Rightarrow> int option \<Rightarrow> string option \<Rightarrow> py_exn + fused_item list" where
  "hybrid_retrieve fulltext vector cfg query query_vector top_k candidate_k rrf_k tie_break_source =
     (case cfg of (cfg_top, cfg_candidates, cfg_rrf, cfg_tie) \<Rightarrow>
        let limit = int_or top_k cfg_top;
            candidates = int_or candidate_k cfg_candidates;
            rrf = int_or rrf_k cfg_rrf;
            tie = (case tie_break_source of None \<Rightarrow> cfg_tie | Some s \<Rightarrow> if s = [] then cfg_tie else Some s)
        in if candidates < limit
             then Inl (exn ''ValueError'' ''candidate_k must be greater than or equal to top_k'')
           else case vector query_vector candidates of
                  Inl x \<Rightarrow> Inl x
                | Inr found \<Rightarrow>
                    reciprocal_rank_fusion
                      [(''fulltext'', fulltext query candidates), (''vector'', found)] limit rrf tie)"

section \<open>Images of a trusted first result\<close>

definition image_fields :: "(string \<times> string) list" where
  "image_fields = [(''APP'', ''response_pic_app_url''), (''PC'', ''response_pic_pc_url'')]"

definition add_image :: "pydict \<Rightarrow> string \<times> string \<Rightarrow> pydict list \<Rightarrow> pydict list" where
  "add_image best pf images =
     (case pf of (platform, field) \<Rightarrow>
        let url = py_strip (py_str (py_or (dget best field) (PStr [])))
        in if \<not> (starts_with url ''https://'' \<or> starts_with url ''http://'') \<or>
              PStr url \<in> set (map (\<lambda>i. dget i ''url'') images)
           then images
           else images @ [[(''faq_id'', dget best ''faq_id''), (''platform'', PStr platform), (''url'', PStr url)]])"

definition trusted_top1_images :: "pydict list \<Rightarrow> string option \<Rightarrow> pydict list" where
  "trusted_top1_images retrieved route =
     (if route \<noteq> Some ''faq_answer'' \<or> retrieved = [] then []
      else let best = hd retrieved; ranks = as_dict (py_or (dget best ''source_ranks'') (PDict []))
           in if \<not> (has_key ranks ''fulltext'' \<and> has_key ranks ''vector'') then []
              else fold (add_image best) image_fields [])"

section \<open>Merging the result sets of several queries\<close>

datatype faq_key = ById pyval | ByText pyval pyval

definition result_key :: "pydict \<Rightarrow> faq_key" where
  "result_key item =
     (if dget item ''faq_id'' \<noteq> PNone then ById (dget item ''faq_id'')
      else ByText (dget item ''title'') (dget item ''response''))"

fun same_key :: "faq_key \<Rightarrow> faq_key \<Rightarrow> bool" where
  "same_key (ById a) (ById b) = py_eq a b"
| "same_key (ByText a b) (ByText c d) = (py_eq a c \<and> py_eq b d)"
| "same_key k l = False"

text \<open>The results in the order of the two loops: first all first places, then all second places.\<close>

definition merge_order :: "string list \<Rightarrow> pydict list list \<Rightarrow> (string \<times> pydict) list" where
  "merge_order queries result_sets =
     concat (map (\<lambda>rank. map (\<lambda>(q, items). (q, items ! rank))
                  (filter (\<lambda>(q, items). rank < length items) (zip queries result_sets)))
       [0..<Max (insert 0 (length ` set result_sets))])"

definition add_query :: "string \<Rightarrow> pydict \<Rightarrow> pydict" where
  "add_query query existing =
     (let matched = as_list (py_or (dget existing ''matched_queries'') (PList []))
      in dset ''matched_queries''
           (PList (if query \<noteq> [] \<and> PStr query \<notin> set matched then matched @ [PStr query] else matched)) existing)"

type_synonym merge_state = "pydict list \<times> (faq_key \<times> nat) list"

definition merge_result :: "string \<times> pydict \<Rightarrow> merge_state \<Rightarrow> merge_state" where
  "merge_result qi st =
     (case qi of (query, item) \<Rightarrow>
      case st of (merged, positions) \<Rightarrow>
        (case find (\<lambda>(k, i). same_key k (result_key item)) positions of
           Some (k, i) \<Rightarrow> (merged[i := add_query query (merged ! i)], positions)
         | None \<Rightarrow>
             (merged @ [dset ''matched_queries'' (PList (if query = [] then [] else [PStr query])) item],
              positions @ [(result_key item, length merged)])))"

definition merge_ranked_results :: "string list \<Rightarrow> pydict list list \<Rightarrow> pydict list" where
  "merge_ranked_results queries result_sets = fst (fold merge_result (merge_order queries result_sets) ([], []))"

section \<open>What fusion computes\<close>

text \<open>The reference: the score of an identifier is a sum over the places where it was found.\<close>

definition place_value :: "int \<Rightarrow> int \<Rightarrow> entry \<Rightarrow> rat" where
  "place_value rrf_k i e = (if entry_id e = Inr i then 1 / (of_int rrf_k + of_nat (fst (snd e))) else 0)"

definition rrf_score :: "int \<Rightarrow> (string \<times> pydict list) list \<Rightarrow> int \<Rightarrow> rat" where
  "rrf_score rrf_k rankings i = sum_list (map (place_value rrf_k i) (rank_entries rankings))"

definition found_ids :: "(string \<times> pydict list) list \<Rightarrow> int set" where
  "found_ids rankings = {i. Inr i \<in> entry_id ` set (rank_entries rankings)}"

definition score_in :: "(int \<times> fused_item) list \<Rightarrow> int \<Rightarrow> rat" where
  "score_in fused i = (case map_of fused i of None \<Rightarrow> 0 | Some it \<Rightarrow> fi_score it)"

definition wf_fused :: "(int \<times> fused_item) list \<Rightarrow> bool" where
  "wf_fused fused \<longleftrightarrow> distinct (map fst fused) \<and> (\<forall>i it. map_of fused i = Some it \<longrightarrow> fi_faq_id it = i)"

lemma fuse_entry_step:
  assumes "fuse_entry rrf_k e fused = Inr fused'" "wf_fused fused"
  shows "wf_fused fused' \<and> (\<exists>i. entry_id e = Inr i \<and> dom (map_of fused') = insert i (dom (map_of fused))) \<and>
    (\<forall>i. score_in fused' i = score_in fused i + place_value rrf_k i e)"
proof -
  obtain source rank r where e: "e = (source, rank, r)" by (cases e)
  from assms(1) obtain i s where found: "entry_id e = Inr i" "entry_score e = Inr s"
    by (auto simp: fuse_entry_def split: sum.splits)
  define item where "item = (case map_of fused i of None \<Rightarrow> empty_item i r | Some it \<Rightarrow> it)"
  define item' where "item' = item\<lparr>fi_score := fi_score item + 1 / (of_int rrf_k + of_nat rank),
      fi_source_ranks := AList.update source rank (fi_source_ranks item),
      fi_source_scores := AList.update source s (fi_source_scores item)\<rparr>"
  have fused': "fused' = AList.update i item' fused"
    using assms(1) found by (simp add: fuse_entry_def e item_def item'_def Let_def)
  have "fi_faq_id item' = i"
    using assms(2) by (auto simp: item'_def item_def empty_item_def wf_fused_def split: option.splits)
  then have "wf_fused fused'"
    using assms(2) by (auto simp: fused' wf_fused_def update_conv' distinct_update split: if_splits)
  moreover have "fi_score item' = score_in fused i + place_value rrf_k i e"
    using found(1) by (simp add: item'_def item_def score_in_def place_value_def e empty_item_def split: option.split)
  then have "score_in fused' j = score_in fused j + place_value rrf_k j e" for j
    by (simp add: fused' score_in_def update_conv' place_value_def found(1))
  moreover have "dom (map_of fused') = insert i (dom (map_of fused))"
    by (auto simp: fused' update_conv')
  ultimately show ?thesis using found(1) by blast
qed

lemma fuse_entries_steps:
  assumes "fuse_entries rrf_k es fused = Inr fused'" "wf_fused fused"
  shows "wf_fused fused' \<and> dom (map_of fused') = dom (map_of fused) \<union> {i. Inr i \<in> entry_id ` set es} \<and>
    (\<forall>i. score_in fused' i = score_in fused i + sum_list (map (place_value rrf_k i) es))"
  using assms
proof (induction es arbitrary: fused)
  case Nil
  then show ?case by simp
next
  case (Cons e es)
  then obtain mid where mid: "fuse_entry rrf_k e fused = Inr mid" "fuse_entries rrf_k es mid = Inr fused'"
    by (auto split: sum.splits)
  obtain i where step: "wf_fused mid" "entry_id e = Inr i" "dom (map_of mid) = insert i (dom (map_of fused))"
    "\<forall>i. score_in mid i = score_in fused i + place_value rrf_k i e"
    using fuse_entry_step [OF mid(1) Cons.prems(2)] by blast
  show ?case
    using Cons.IH [OF mid(2) step(1)] step(2-4) by (auto simp: algebra_simps)
qed

lemma fused_values:
  assumes "fuse_entries rrf_k (rank_entries rankings) [] = Inr fused"
  shows "distinct (map fi_faq_id (map snd fused))" "fi_faq_id ` set (map snd fused) = found_ids rankings"
    and "it \<in> set (map snd fused) \<Longrightarrow> fi_score it = rrf_score rrf_k rankings (fi_faq_id it)"
proof -
  have "wf_fused []" by (simp add: wf_fused_def)
  note all = fuse_entries_steps [OF assms this]
  have lookup: "map_of fused i = Some it \<longleftrightarrow> (i, it) \<in> set fused" for i it
    using all by (simp add: wf_fused_def)
  have ids: "fi_faq_id (snd p) = fst p" if "p \<in> set fused" for p
    using all that lookup by (cases p) (simp add: wf_fused_def)
  then have same: "map fi_faq_id (map snd fused) = map fst fused" by simp
  show "distinct (map fi_faq_id (map snd fused))" unfolding same using all by (simp add: wf_fused_def)
  have "fi_faq_id ` set (map snd fused) = fst ` set fused"
    using arg_cong [OF same, of set] by (simp add: image_image)
  then show "fi_faq_id ` set (map snd fused) = found_ids rankings"
    using all by (simp add: found_ids_def dom_map_of_conv_image_fst)
  assume "it \<in> set (map snd fused)"
  then obtain i where "(i, it) \<in> set fused" by auto
  then have "map_of fused i = Some it" "fi_faq_id it = i" using lookup ids by auto
  then show "fi_score it = rrf_score rrf_k rankings (fi_faq_id it)"
    using all [THEN conjunct2, THEN conjunct2, rule_format, of i] by (simp add: rrf_score_def score_in_def)
qed

lemma take_sort_key:
  fixes f :: "'a \<Rightarrow> 'b::linorder"
  assumes "x \<in> set (take n (sort_key f xs))" "y \<in> set xs" "y \<notin> set (take n (sort_key f xs))"
  shows "f x \<le> f y"
proof -
  have sorted: "sorted (map f (take n (sort_key f xs) @ drop n (sort_key f xs)))" by simp
  have "y \<in> set (drop n (sort_key f xs))"
    using assms(2,3) by (metis Un_iff append_take_drop_id set_append set_sort)
  with assms(1) sorted show ?thesis unfolding map_append sorted_append by simp
qed

lemma fst_le: "(p :: 'a::linorder \<times> 'b::linorder) \<le> q \<Longrightarrow> fst p \<le> fst q"
  by (cases p; cases q) auto

lemma fused_key_score: "fused_key tie a \<le> fused_key tie b \<Longrightarrow> fi_score b \<le> fi_score a"
  using fst_le [of "fused_key tie a" "fused_key tie b"] by (simp add: fused_key_def)

text \<open>Rank fusion returns the best \<open>top_k\<close> of the found identifiers, each once, in descending order
  of their reciprocal-rank scores: the score of an item is the sum of \<open>1 / (rrf_k + rank)\<close> over the
  places where the sources found it, and no identifier that was found and left out has a higher
  score than one that was returned.\<close>

theorem rank_fusion_spec:
  assumes "reciprocal_rank_fusion rankings top_k rrf_k tie = Inr out"
  shows "length out = min (nat top_k) (card (found_ids rankings)) \<and>
    distinct (map fi_faq_id out) \<and> fi_faq_id ` set out \<subseteq> found_ids rankings \<and>
    sorted (map (\<lambda>it. - fi_score it) out) \<and>
    (\<forall>it \<in> set out. fi_score it = rrf_score rrf_k rankings (fi_faq_id it) \<and>
       (\<forall>i \<in> found_ids rankings - fi_faq_id ` set out. rrf_score rrf_k rankings i \<le> fi_score it))"
proof -
  from assms obtain fused where fused: "fuse_entries rrf_k (rank_entries rankings) [] = Inr fused"
    and out: "out = take (nat top_k) (sort_key (fused_key tie) (map snd fused))"
    by (auto simp: reciprocal_rank_fusion_def split: if_splits sum.splits)
  let ?items = "map snd fused"
  note vals = fused_values [OF fused]
  have sub: "set out \<subseteq> set ?items" unfolding out using set_take_subset by fastforce
  have perm: "mset (sort_key (fused_key tie) ?items) = mset ?items" by (rule mset_sort)
  have "mset (map fi_faq_id (sort_key (fused_key tie) ?items)) = mset (map fi_faq_id ?items)"
    unfolding mset_map perm ..
  then have "distinct (map fi_faq_id (sort_key (fused_key tie) ?items))"
    using vals(1) by (metis mset_eq_imp_distinct_iff)
  then have "distinct (map fi_faq_id out)" unfolding out take_map [symmetric] by (rule distinct_take)
  moreover have "card (fi_faq_id ` set ?items) = length ?items"
    using distinct_card [OF vals(1)] by (simp only: set_map length_map)
  then have "length ?items = card (found_ids rankings)" by (simp only: vals(2))
  then have "length out = min (nat top_k) (card (found_ids rankings))" by (simp add: out min.commute)
  moreover have "sorted (map (\<lambda>it. - fi_score it) out)"
  proof -
    have "sorted (map (fused_key tie) out)" unfolding out take_map [symmetric] by (rule sorted_wrt_take) simp
    then show ?thesis
      by (auto simp: sorted_iff_nth_mono intro: fused_key_score [of tie])
  qed
  moreover have "rrf_score rrf_k rankings i \<le> fi_score it"
    if it: "it \<in> set out" and i: "i \<in> found_ids rankings - fi_faq_id ` set out" for it i
  proof -
    have "i \<in> fi_faq_id ` set ?items" unfolding vals(2) using i by blast
    then obtain other where other: "other \<in> set ?items" "fi_faq_id other = i" by blast
    then have "other \<notin> set out" using i by auto
    then have "fused_key tie it \<le> fused_key tie other"
      using take_sort_key [of it "nat top_k" "fused_key tie" ?items other] it other(1) unfolding out by simp
    then show ?thesis using fused_key_score vals(3) [OF other(1)] other(2) by metis
  qed
  ultimately show ?thesis using sub vals by blast
qed

definition sample_rankings :: "(string \<times> pydict list) list" where
  "sample_rankings =
     [(''fulltext'', [[(''faq_id'', PInt 1), (''score'', PFloat 3)], [(''faq_id'', PInt 2), (''score'', PFloat 2)]]),
      (''vector'', [[(''faq_id'', PInt 2), (''score'', PFloat 0)]])]"

theorem rank_fusion_spec_witness:
  "\<exists>out. reciprocal_rank_fusion sample_rankings 1 60 None = Inr out \<and> length out = min 1 (card (found_ids sample_rankings))"
proof -
  have "\<exists>out. reciprocal_rank_fusion sample_rankings 1 60 None = Inr out"
    by (simp add: reciprocal_rank_fusion_def rank_entries_def sample_rankings_def fuse_entry_def
        entry_id_def entry_score_def Let_def)
  then obtain out where "reciprocal_rank_fusion sample_rankings 1 60 None = Inr out" ..
  from this rank_fusion_spec [OF this] show ?thesis by auto
qed

section \<open>What the merge keeps\<close>

lemma result_key_matched [simp]: "result_key (dset ''matched_queries'' v item) = result_key item"
  by (simp add: result_key_def)

lemma result_key_add_query [simp]: "result_key (add_query q item) = result_key item"
  by (simp add: add_query_def Let_def)

definition apart :: "pydict list \<Rightarrow> bool" where
  "apart merged \<longleftrightarrow>
     (\<forall>i j. i < j \<longrightarrow> j < length merged \<longrightarrow> \<not> same_key (result_key (merged ! i)) (result_key (merged ! j)))"

definition represented :: "pydict list \<Rightarrow> pydict \<Rightarrow> bool" where
  "represented merged item \<longleftrightarrow>
     (\<exists>m \<in> set merged. result_key m = result_key item \<or> same_key (result_key m) (result_key item))"

definition positioned :: "merge_state \<Rightarrow> bool" where
  "positioned st \<longleftrightarrow> snd st = zip (map result_key (fst st)) [0..<length (fst st)]"

lemma represented_keys:
  "represented merged item \<longleftrightarrow>
     (\<exists>k \<in> set (map result_key merged). k = result_key item \<or> same_key k (result_key item))"
  by (simp add: represented_def)

lemma merge_step:
  assumes "positioned st" "apart (fst st)"
  shows "positioned (merge_result (q, item) st) \<and> apart (fst (merge_result (q, item) st)) \<and>
    represented (fst (merge_result (q, item) st)) item \<and>
    (\<exists>added. map result_key (fst (merge_result (q, item) st)) = map result_key (fst st) @ added)"
proof -
  obtain merged positions where st: "st = (merged, positions)" by (cases st)
  have pos: "positions = zip (map result_key merged) [0..<length merged]"
    using assms(1) by (simp add: st positioned_def)
  show ?thesis
  proof (cases "find (\<lambda>(k, i). same_key k (result_key item)) positions")
    case None
    let ?new = "dset ''matched_queries'' (PList (if q = [] then [] else [PStr q])) item"
    have step: "merge_result (q, item) st = (merged @ [?new], positions @ [(result_key item, length merged)])"
      by (simp add: merge_result_def st None)
    have fresh: "\<not> same_key (result_key (merged ! i)) (result_key item)" if "i < length merged" for i
    proof -
      have "(result_key (merged ! i), i) \<in> set positions"
        unfolding pos in_set_zip using that by (intro exI [of _ i]) simp
      then show ?thesis using None by (auto simp: find_None_iff)
    qed
    have "positioned (merged @ [?new], positions @ [(result_key item, length merged)])"
      by (simp add: positioned_def pos)
    moreover have "apart (merged @ [?new])"
      using assms(2) fresh by (auto simp: apart_def nth_append st less_Suc_eq)
    moreover have "represented (merged @ [?new]) item" by (simp add: represented_def)
    ultimately show ?thesis unfolding step by (simp add: st)
  next
    case (Some p)
    then obtain i where i: "(fst p, i) \<in> set positions" "snd p = i" "same_key (fst p) (result_key item)"
      by (cases p) (auto dest: find_SomeD)
    then have here: "i < length merged" "fst p = result_key (merged ! i)"
      unfolding pos by (auto simp: in_set_zip)
    let ?merged = "merged[i := add_query q (merged ! i)]"
    have step: "merge_result (q, item) st = (?merged, positions)"
      using Some i(2) by (cases p) (simp add: merge_result_def st)
    have keys: "map result_key ?merged = map result_key merged"
      using here(1) by (simp add: map_update list_update_same_conv)
    have nth: "result_key (?merged ! j) = result_key (merged ! j)" if "j < length merged" for j
      using that by (cases "j = i") simp_all
    have "positioned (?merged, positions)" using keys by (simp add: positioned_def pos)
    moreover have "apart ?merged" using assms(2) nth by (simp add: apart_def st)
    moreover have "represented merged item"
      using here i(3) nth_mem [of i merged] unfolding represented_def by auto
    then have "represented ?merged item" unfolding represented_keys keys .
    ultimately show ?thesis unfolding step using keys by (simp add: st)
  qed
qed

lemma represented_mono:
  assumes "map result_key merged' = map result_key merged @ added" "represented merged item"
  shows "represented merged' item"
proof -
  have "set (map result_key merged) \<subseteq> set (map result_key merged')" unfolding assms(1) by simp
  then show ?thesis using assms(2) unfolding represented_keys by blast
qed

lemma merge_fold:
  assumes "positioned st" "apart (fst st)"
  shows "apart (fst (fold merge_result entries st)) \<and>
    (\<exists>added. map result_key (fst (fold merge_result entries st)) = map result_key (fst st) @ added) \<and>
    (\<forall>(q, item) \<in> set entries. represented (fst (fold merge_result entries st)) item)"
  using assms
proof (induction entries arbitrary: st)
  case Nil
  then show ?case by simp
next
  case (Cons e entries)
  obtain q item where e: "e = (q, item)" by (cases e)
  let ?st = "merge_result e st"
  obtain added where step: "positioned ?st" "apart (fst ?st)" "represented (fst ?st) item"
    "map result_key (fst ?st) = map result_key (fst st) @ added"
    using merge_step [OF Cons.prems, of q item] e by blast
  from Cons.IH [OF step(1,2)] obtain rest' where rest: "apart (fst (fold merge_result entries ?st))"
    "map result_key (fst (fold merge_result entries ?st)) = map result_key (fst ?st) @ rest'"
    "\<forall>(q, item) \<in> set entries. represented (fst (fold merge_result entries ?st)) item"
    by blast
  have "represented (fst (fold merge_result entries ?st)) item"
    using represented_mono [OF rest(2) step(3)] .
  with rest step(4) show ?case by (auto simp: e)
qed

text \<open>Merging the result sets of several searches keeps every result once: no two merged results
  have the same key (the FAQ identifier, or title and response without one), and every result of
  every set is represented by a merged one with its key.\<close>

theorem merge_keeps_results:
  "apart (merge_ranked_results queries result_sets) \<and>
   list_all (\<lambda>(q, item). represented (merge_ranked_results queries result_sets) item)
     (merge_order queries result_sets)"
proof -
  have "positioned ([], [])" "apart (fst ([], []))" by (simp_all add: positioned_def apart_def)
  from merge_fold [OF this] show ?thesis
    by (simp add: merge_ranked_results_def list_all_iff)
qed

end
