(* ===== verification/Agent_Loop.thy ===== *)
theory Agent_Loop
  imports Planner_Decision Retrieval
begin

text \<open>
  The planner loop (\<open>agent_loop.py\<close>): the store of a turn, its nodes and the edges between them. The
  store is a dictionary; the request in it stands for its attributes, and the dependencies of the
  turn (loaders, planner, tools, self check) are a record of functions of the world \<open>'w\<close>. A node
  that raises ends the turn with its exception. The flow runtime (a third-party package) is used for
  one thing: after a node it goes on at the node the edge for the returned action leads to, and ends
  where there is none or after \<open>max_steps\<close> nodes; the names it gives to nodes are a parameter, and so
  are stream handlers and logging, which do not write the store.
\<close>

record self_check_result =
  sc_passed :: bool
  sc_reason :: "string option"
  sc_revised_answer :: "string option"

record 'w dependencies =
  dep_load_context :: "pydict \<Rightarrow> 'w \<Rightarrow> (py_exn + pydict) \<times> 'w"
  dep_think :: "pydict \<Rightarrow> 'w \<Rightarrow> (py_exn + agent_decision) \<times> 'w"
  dep_run_tool :: "string \<Rightarrow> pydict \<Rightarrow> pydict \<Rightarrow> 'w \<Rightarrow> (py_exn + pydict) \<times> 'w"
  dep_self_check :: "pydict \<Rightarrow> 'w \<Rightarrow> (py_exn + self_check_result) \<times> 'w"
  dep_load_skills :: "(pydict \<Rightarrow> pydict \<Rightarrow> 'w \<Rightarrow> (py_exn + pydict) \<times> 'w) option"
  dep_run_tools :: "(pydict list \<Rightarrow> pydict \<Rightarrow> 'w \<Rightarrow> (py_exn + pydict) \<times> 'w) option"
  dep_tool_catalog :: "pydict list option"
  dep_pre_guard :: "(pydict \<Rightarrow> pydict \<Rightarrow> 'w \<Rightarrow> (py_exn + pydict) \<times> 'w) option"

datatype node = LoadContext | LoadSkills | PreGuard | Think | ExecuteTool | SelfCheck

type_synonym 'w node_result = "(py_exn + pydict \<times> string) \<times> 'w"

section \<open>Helpers\<close>

definition opt_text :: "string option \<Rightarrow> pyval" where
  "opt_text x = (case x of None \<Rightarrow> PNone | Some s \<Rightarrow> PStr s)"

definition list_at :: "pydict \<Rightarrow> string \<Rightarrow> pyval list" where
  "list_at d k = as_list (py_or (dget d k) (PList []))"

definition dict_at :: "pydict \<Rightarrow> string \<Rightarrow> pydict" where
  "dict_at d k = as_dict (py_or (dget d k) (PDict []))"

definition append_trace :: "string \<Rightarrow> string \<Rightarrow> pydict \<Rightarrow> pydict \<Rightarrow> pydict" where
  "append_trace node action payload store =
     dset ''trace'' (PList (list_at store ''trace'' @
       [PDict [(''node'', PStr node), (''action'', PStr action), (''payload'', PDict payload)]])) store"

definition append_observability :: "pydict \<Rightarrow> pydict \<Rightarrow> pydict" where
  "append_observability event store =
     dset ''observability'' (PList (list_at store ''observability'' @ [PDict event])) store"

definition preview :: "string option \<Rightarrow> pyval" where
  "preview value = (case value of None \<Rightarrow> PNone | Some s \<Rightarrow> PStr (py_take 120 s))"

definition skill_observation_summary :: "pydict \<Rightarrow> pydict" where
  "skill_observation_summary skill =
     (let content = py_strip (py_str (py_or (dget skill ''content'') (PStr [])))
      in [(''id'', dget skill ''id''), (''name'', dget skill ''name''), (''title'', dget skill ''title''),
          (''skill_type'', dget skill ''skill_type''), (''scope'', dget skill ''scope''),
          (''availability'', dget skill ''availability''), (''retrieval_score'', dget skill ''retrieval_score''),
          (''injection_reason'', dget skill ''injection_reason''),
          (''content_preview'', PStr (py_take 180 content @ (if py_len content > 180 then ''...'' else [])))])"

definition is_load_skill_tool :: "pyval \<Rightarrow> bool" where
  "is_load_skill_tool v \<longleftrightarrow>
     (case v of PStr s \<Rightarrow> s = ''load_skill'' \<or> ends_with s ''.load_skill'' | _ \<Rightarrow> False)"

definition is_search_faq_tool :: "pyval \<Rightarrow> bool" where
  "is_search_faq_tool v \<longleftrightarrow>
     (case v of PStr s \<Rightarrow> s = ''search_faq'' \<or> ends_with s ''.search_faq'' | _ \<Rightarrow> False)"

definition tool_call_as_dict :: "tool_call \<Rightarrow> pydict" where
  "tool_call_as_dict c =
     [(''call_id'', PStr (tc_call_id c)), (''tool_name'', PStr (tc_tool_name c)),
      (''tool_args'', PDict (tc_tool_args c)), (''reason'', tc_reason c)]"

definition decision_tool_calls :: "agent_decision \<Rightarrow> tool_call list" where
  "decision_tool_calls d =
     (if ag_tool_calls d \<noteq> [] then ag_tool_calls d
      else case ag_tool_name d of
             None \<Rightarrow> []
           | Some name \<Rightarrow>
               if name = [] then []
               else [\<lparr>tc_call_id = ''tool-call-1'', tc_tool_name = name, tc_tool_args = ag_tool_args d,
                      tc_reason = opt_text (ag_reason d)\<rparr>])"

definition attribute_error :: py_exn where
  "attribute_error = exn ''AttributeError'' ''get''"

section \<open>The store of a turn\<close>

definition make_store :: "pydict \<Rightarrow> 'w dependencies \<Rightarrow> string \<Rightarrow> pydict" where
  "make_store request deps loop_mode =
     [(''request'', PDict request),
      (''tool_catalog'', PList (case dep_tool_catalog deps of None \<Rightarrow> [] | Some c \<Rightarrow> map PDict c)),
      (''loop_mode'', PStr loop_mode), (''trace_id'', dget request ''trace_id''),
      (''run_context'', PDict
        [(''trace_id'', dget request ''trace_id''), (''session_id'', dget request ''session_id''),
         (''user_id'', dget request ''user_id''), (''query'', dget request ''query'')]),
      (''trace'', PList []), (''observability'', PList []), (''context'', PDict []), (''skills'', PList []),
      (''auto_skills'', PList []), (''session_skills'', PList []), (''skill_retrieval'', PDict []),
      (''intent'', PDict []), (''retrieved_faqs'', PList []), (''tool_observations'', PList []),
      (''loop_count'', PInt 0), (''route'', PNone), (''answer'', PNone), (''status'', PStr ''running''),
      (''errors'', PList [])]"

text \<open>The loop of \<open>run_agent\<close> that lays the caller's initial state over the store.\<close>

definition initial_store :: "pydict \<Rightarrow> 'w dependencies \<Rightarrow> pydict \<Rightarrow> pydict" where
  "initial_store request deps initial_state =
     dmerge (make_store request deps ''planner'')
       (filter (\<lambda>(k, v). k \<noteq> ''request'' \<and> k \<noteq> ''deps'') initial_state)"

section \<open>Loading the context and the skills\<close>

definition load_context_node ::
  "string \<Rightarrow> 'w dependencies \<Rightarrow> pydict \<Rightarrow> 'w \<Rightarrow> 'w node_result" where
  "load_context_node name deps store w =
     (case dep_load_context deps (as_dict (dget store ''request'')) w of
        (Inl e, w') \<Rightarrow> (Inl e, w')
      | (Inr ctx, w') \<Rightarrow> (Inr (append_trace name ''ok'' [] (dset ''context'' (PDict ctx) store), ''ok''), w'))"

definition skills_result ::
  "'w platform \<Rightarrow> 'w dependencies \<Rightarrow> pydict \<Rightarrow> pydict \<Rightarrow> 'w \<Rightarrow> pydict \<times> 'w" where
  "skills_result pf deps request ctx w =
     (let none = [(''query'', dget request ''query''), (''candidates'', PList []), (''skills'', PList []),
                  (''skipped'', PBool True)];
          (result, w') = (case dep_load_skills deps of
             None \<Rightarrow> (none @ [(''reason'', PStr ''no_skill_loader'')], w)
           | Some load \<Rightarrow>
               (case load request ctx w of
                  (Inr r, w') \<Rightarrow> (r, w')
                | (Inl e, w') \<Rightarrow>
                    (none @ [(''reason'', PStr ''skill_loader_error''), (''error_type'', PStr (exn_type e)),
                             (''error'', PStr (exn_text e))], w')))
      in (dset ''elapsed_ms'' (PFloat (py_round2 ((perf_counter pf w' - perf_counter pf w) * 1000))) result, w'))"

definition skills_payload :: "string \<Rightarrow> pydict \<Rightarrow> pydict \<Rightarrow> pyval list \<Rightarrow> pydict" where
  "skills_payload name request r skills =
     [(''event'', PStr ''skill_retrieval''), (''node'', PStr name),
      (''query'', py_or (dget r ''query'') (dget request ''query'')), (''product_id'', dget request ''product_id''),
      (''domain_hint'', dget request ''domain_hint''), (''skipped'', PBool (truthy (dget r ''skipped''))),
      (''reason'', dget r ''reason''), (''error_type'', dget r ''error_type''), (''error'', dget r ''error''),
      (''candidate_count'', PInt (int (length (list_at r ''candidates'')))),
      (''candidates'', PList (list_at r ''candidates'')), (''skill_index'', PList (list_at r ''skill_index'')),
      (''previous_skill_ids'', PList (list_at r ''previous_skill_ids'')),
      (''injected_skill_ids'', PList (map (\<lambda>s. dget (as_dict s) ''id'') skills)),
      (''injected_skill_names'', PList (map (\<lambda>s. dget (as_dict s) ''name'') skills)),
      (''loaded_skills'', PList (map (\<lambda>s. PDict (skill_observation_summary (as_dict s))) skills)),
      (''elapsed_ms'', dget r ''elapsed_ms'')]"

definition load_skills_node ::
  "'w platform \<Rightarrow> string \<Rightarrow> 'w dependencies \<Rightarrow> pydict \<Rightarrow> 'w \<Rightarrow> 'w node_result" where
  "load_skills_node pf name deps store w =
     (let request = as_dict (dget store ''request''); ctx = as_dict (dget store ''context'');
          (r, w') = skills_result pf deps request ctx w;
          skills = as_list (dget r ''skills'');
          ctx' = dset ''skill_index'' (PList (list_at r ''skill_index''))
            (dset ''session_skills'' (PList (list_at r ''session_skills''))
              (dset ''auto_skills'' (PList (list_at r ''auto_skills''))
                (dset ''skills'' (PList skills) ctx)));
          store' = dset ''skill_retrieval'' (PDict r)
            (dset ''context'' (PDict ctx')
              (dset ''session_skills'' (PList (list_at r ''session_skills''))
                (dset ''auto_skills'' (PList (list_at r ''auto_skills''))
                  (dset ''skills'' (PList skills) store))));
          payload = skills_payload name request r skills
      in if \<not> list_all is_dict skills then (Inl attribute_error, w')
         else (Inr (append_observability payload (append_trace name ''ok'' payload store'), ''ok''), w'))"

definition pre_guard_node :: "string \<Rightarrow> 'w dependencies \<Rightarrow> pydict \<Rightarrow> 'w \<Rightarrow> 'w node_result" where
  "pre_guard_node name deps store w =
     (let request = as_dict (dget store ''request''); ctx = as_dict (dget store ''context'')
      in case (case dep_pre_guard deps of
                 Some guard \<Rightarrow> guard request ctx w
               | None \<Rightarrow> (Inr [(''route_hint'', PStr ''planner''), (''reason'', PStr ''no_pre_guard'')], w)) of
           (Inl e, w') \<Rightarrow> (Inl e, w')
         | (Inr r, w') \<Rightarrow>
             let payload = [(''event'', PStr ''pre_guard''), (''node'', PStr name), (''query'', dget request ''query''),
                   (''history_count'', PInt (int (length (list_at ctx ''history'')))),
                   (''route_hint'', dget r ''route_hint''), (''reason'', dget r ''reason'')]
             in (Inr (append_observability payload
                        (append_trace name ''ok'' payload (dset ''intent'' (PDict r) store)), ''ok''), w'))"

section \<open>Thinking\<close>

definition loop_count :: "pydict \<Rightarrow> int option" where
  "loop_count store = py_int (py_or (dget store ''loop_count'') (PInt 0))"

definition max_iterations_decision :: agent_decision where
  "max_iterations_decision = say ''handoff'' ''a human takes over this question'' (Some ''max_iterations_exceeded'')"

definition think_exec ::
  "int \<Rightarrow> 'w dependencies \<Rightarrow> pydict \<Rightarrow> 'w \<Rightarrow> (py_exn + agent_decision) \<times> 'w" where
  "think_exec max_iterations deps store w =
     (case loop_count store of
        None \<Rightarrow> (Inl (exn ''ValueError'' ''loop_count''), w)
      | Some n \<Rightarrow> if n + 1 > max_iterations then (Inr max_iterations_decision, w) else dep_think deps store w)"

definition decision_dict :: "agent_decision \<Rightarrow> pydict" where
  "decision_dict d =
     [(''route'', PStr (ag_route d)), (''answer'', opt_text (ag_answer d)), (''tool_name'', opt_text (ag_tool_name d)),
      (''tool_args'', PDict (ag_tool_args d)), (''reason'', opt_text (ag_reason d)),
      (''tool_calls'', PList (map (\<lambda>c. PDict (tool_call_as_dict c)) (decision_tool_calls d)))]"

definition decision_event :: "string \<Rightarrow> int \<Rightarrow> agent_decision \<Rightarrow> pydict" where
  "decision_event name n d =
     [(''event'', PStr ''agent_decision''), (''node'', PStr name), (''loop_count'', PInt n),
      (''route'', PStr (ag_route d)), (''reason'', opt_text (ag_reason d)), (''tool_name'', opt_text (ag_tool_name d)),
      (''tool_args'', PDict (safe_args (ag_tool_args d))),
      (''tool_calls'', PList (map (\<lambda>c. PDict (dset ''tool_args'' (PDict (safe_args (tc_tool_args c)))
         (tool_call_as_dict c))) (decision_tool_calls d))),
      (''answer_preview'', preview (ag_answer d))]"

definition think_action :: "string \<Rightarrow> string" where
  "think_action route =
     (if route = ''tool_call'' then ''tool_call''
      else if route = ''faq_answer'' \<or> route = ''answer'' then ''answer'' else route)"

definition think_post :: "string \<Rightarrow> int \<Rightarrow> agent_decision \<Rightarrow> pydict \<Rightarrow> pydict" where
  "think_post name n d store =
     (let s1 = dset ''route'' (PStr (ag_route d))
            (dset ''decision'' (PDict (decision_dict d)) (dset ''loop_count'' (PInt n) store));
          s2 = (case ag_answer d of None \<Rightarrow> s1 | Some a \<Rightarrow> if a = [] then s1 else dset ''answer'' (PStr a) s1)
      in append_observability (decision_event name n d)
           (append_trace name (ag_route d) (decision_dict d) s2))"

definition think_node :: "int \<Rightarrow> string \<Rightarrow> 'w dependencies \<Rightarrow> pydict \<Rightarrow> 'w \<Rightarrow> 'w node_result" where
  "think_node max_iterations name deps store w =
     (case think_exec max_iterations deps store w of
        (Inl e, w') \<Rightarrow> (Inl e, w')
      | (Inr d, w') \<Rightarrow>
          (case loop_count store of
             None \<Rightarrow> (Inl (exn ''ValueError'' ''loop_count''), w')
           | Some n \<Rightarrow> (Inr (think_post name (n + 1) d store, think_action (ag_route d)), w')))"

section \<open>Executing tools\<close>

definition run_tool_safely ::
  "'w dependencies \<Rightarrow> pydict \<Rightarrow> pydict \<Rightarrow> 'w \<Rightarrow> pydict \<times> 'w" where
  "run_tool_safely deps call state w =
     (let named = [(''call_id'', dget call ''call_id''), (''tool_name'', dget call ''tool_name''),
                   (''args'', py_or (dget call ''tool_args'') (PDict []))]
      in case dep_run_tool deps (py_str (dget call ''tool_name'')) (dict_at call ''tool_args'') state w of
           (Inr r, w') \<Rightarrow> (dmerge named r, w')
         | (Inl e, w') \<Rightarrow>
             (named @ [(''status'', PStr ''error''), (''error_type'', PStr (exn_type e)),
                       (''error'', PStr (exn_text e))], w'))"

fun run_tools_safely :: "'w dependencies \<Rightarrow> pydict list \<Rightarrow> pydict \<Rightarrow> 'w \<Rightarrow> pydict list \<times> 'w" where
  "run_tools_safely deps [] state w = ([], w)"
| "run_tools_safely deps (call # calls) state w =
     (let (r, w1) = run_tool_safely deps call state w; (rs, w2) = run_tools_safely deps calls state w1
      in (r # rs, w2))"

definition decided_calls :: "pydict \<Rightarrow> pydict list" where
  "decided_calls decision =
     (let calls = map as_dict (list_at decision ''tool_calls'')
      in if calls = [] \<and> truthy (dget decision ''tool_name'')
         then [[(''call_id'', PStr ''tool-call-1''), (''tool_name'', dget decision ''tool_name''),
                (''tool_args'', py_or (dget decision ''tool_args'') (PDict [])),
                (''reason'', dget decision ''reason'')]]
         else calls)"

definition execute_exec :: "'w dependencies \<Rightarrow> pydict \<Rightarrow> 'w \<Rightarrow> (py_exn + pydict) \<times> 'w" where
  "execute_exec deps store w =
     (let calls = decided_calls (as_dict (dget store ''decision''))
      in if calls = [] then (Inl (exn ''ValueError'' ''tool_call decision missing tool call''), w)
         else case dep_run_tools deps of
                Some run_tools \<Rightarrow> run_tools calls store w
              | None \<Rightarrow>
                  (case run_tools_safely deps calls store w of
                     (rs, w') \<Rightarrow>
                       (Inr [(''execution_mode'', PStr ''sequential''), (''results'', PList (map PDict rs))], w')))"

definition merge_tool_loaded_skill :: "pydict \<Rightarrow> pydict \<Rightarrow> pydict" where
  "merge_tool_loaded_skill result store =
     (let out = dict_at result ''output''; skill = dget out ''skill''
      in if \<not> is_dict skill \<or> \<not> truthy (dget out ''loaded'') \<or> truthy (dget out ''already_loaded'') then store
         else
           let item = dset ''availability'' (PStr ''tool_loaded'') (as_dict skill);
               skills = filter (\<lambda>s. \<not> py_eq (dget (as_dict s) ''id'') (dget item ''id'')) (list_at store ''skills'')
                 @ [PDict item]
           in dset ''context'' (PDict (dset ''skills'' (PList skills) (as_dict (dget store ''context''))))
                (dset ''skills'' (PList skills) store))"

text \<open>The loop over the results: loaded skills go into the store, FAQ results are collected.\<close>

fun collect_results :: "pydict list \<Rightarrow> pydict \<Rightarrow> pydict \<times> (string \<times> pydict list) list" where
  "collect_results [] store = (store, [])"
| "collect_results (r # rs) store =
     (let store1 = (if is_load_skill_tool (dget r ''tool_name'') then merge_tool_loaded_skill r store else store);
          (store2, found) = collect_results rs store1;
          out = dict_at r ''output''
      in if is_search_faq_tool (dget r ''tool_name'') \<and> is_list (dget out ''results'')
         then (store2, (py_str (py_or (dget out ''query'')
                 (py_or (dget (dict_at r ''args'') ''query'') (PStr []))),
               map as_dict (as_list (dget out ''results''))) # found)
         else (store2, found))"

definition call_event :: "string \<Rightarrow> pydict \<Rightarrow> pydict \<Rightarrow> pydict" where
  "call_event name decision r =
     [(''event'', PStr ''tool_call''), (''node'', PStr name), (''call_id'', dget r ''call_id''),
      (''reason'', dget decision ''reason''), (''tool_name'', dget r ''tool_name''),
      (''args'', PDict (safe_args (dict_at r ''args''))), (''status'', dget r ''status''),
      (''tool_metadata'', py_or (dget r ''tool_metadata'') (PDict [])), (''latency_ms'', dget r ''latency_ms''),
      (''output'', if has_key r ''output'' then dget r ''output''
         else PDict (filter (\<lambda>(k, v). k \<noteq> ''call_id'' \<and> k \<noteq> ''tool_name'') r)),
      (''error_type'', dget r ''error_type''), (''error'', dget r ''error'')]"

definition batch_payload :: "pyval \<Rightarrow> pydict \<Rightarrow> pydict list \<Rightarrow> nat \<Rightarrow> string \<Rightarrow> string \<Rightarrow> pydict" where
  "batch_payload reason batch results observed mode status =
     [(''tool_observation_count'', PInt (int observed)), (''reason'', reason),
      (''execution_mode'', py_or (dget batch ''execution_mode'') (PStr mode)),
      (''call_count'', PInt (int (length results))), (''latency_ms'', dget batch ''latency_ms''),
      (''status'', PStr status), (''call_ids'', PList (map (\<lambda>r. dget r ''call_id'') results))]"

definition pending_post :: "string \<Rightarrow> pydict \<Rightarrow> pydict list \<Rightarrow> pydict \<Rightarrow> pydict" where
  "pending_post name batch results store =
     (let decision = dict_at store ''decision'';
          requests = list_at batch ''approval_requests'';
          s1 = dset ''approval_requests'' (PList requests)
            (dset ''answer'' (py_or (dget batch ''answer'') (PStr ''This operation continues after an approval.''))
              (dset ''route'' (PStr ''approval_required'') (dset ''status'' (PStr ''pending_approval'') store)));
          payload = batch_payload (dget decision ''reason'') batch results
              (length (list_at store ''tool_observations'')) ''approval_required'' ''pending_approval'' @
            [(''approval_ids'', PList (map (\<lambda>a. dget (as_dict a) ''approval_id'') (filter is_dict requests)))]
      in append_observability ([(''event'', PStr ''approval_required''), (''node'', PStr name)] @ payload)
           (append_trace name ''pending_approval'' payload s1))"

definition results_post :: "string \<Rightarrow> pydict \<Rightarrow> pydict list \<Rightarrow> pydict \<Rightarrow> pydict \<times> string" where
  "results_post name batch results store =
     (let decision = dict_at store ''decision'';
          (s1, found) = collect_results results store;
          s2 = (if found = [] then s1
                else dset ''retrieved_faqs''
                  (PList (map PDict (merge_ranked_results (map fst found) (map snd found)))) s1);
          action = (if list_ex (\<lambda>r. py_eq (dget r ''status'') (PStr ''error'')) results then ''error'' else ''ok'');
          payload = batch_payload (dget decision ''reason'') batch results
            (length (list_at store ''tool_observations'')) ''sequential'' action;
          s3 = append_observability ([(''event'', PStr ''tool_batch''), (''node'', PStr name)] @ payload)
            (append_trace name action payload s2)
      in (fold (\<lambda>r. append_observability (call_event name decision r)) results s3, action))"

definition execute_node :: "string \<Rightarrow> 'w dependencies \<Rightarrow> pydict \<Rightarrow> 'w \<Rightarrow> 'w node_result" where
  "execute_node name deps store w =
     (case execute_exec deps store w of
        (Inl e, w') \<Rightarrow> (Inl e, w')
      | (Inr batch, w') \<Rightarrow>
          let items = (if is_list (dget batch ''results'') then as_list (dget batch ''results'') else [PDict batch]);
              results = map as_dict items;
              s1 = dset ''tool_observations'' (PList (list_at store ''tool_observations'' @ items)) store
          in if \<not> list_all is_dict items then (Inl attribute_error, w')
             else if py_eq (dget batch ''status'') (PStr ''pending_approval'')
               then (Inr (pending_post name batch results s1, ''pending_approval''), w')
             else (Inr (results_post name batch results s1), w'))"

section \<open>The self check\<close>

definition default_self_check :: "pydict \<Rightarrow> self_check_result" where
  "default_self_check state =
     (if truthy (dget state ''answer'') then \<lparr>sc_passed = True, sc_reason = None, sc_revised_answer = None\<rparr>
      else \<lparr>sc_passed = False, sc_reason = Some ''missing_answer'', sc_revised_answer = None\<rparr>)"

definition check_post :: "string \<Rightarrow> self_check_result \<Rightarrow> pydict \<Rightarrow> pydict" where
  "check_post name r store =
     (let payload = [(''passed'', PBool (sc_passed r)), (''reason'', opt_text (sc_reason r))];
          s1 = (case sc_revised_answer r of None \<Rightarrow> store | Some a \<Rightarrow> if a = [] then store else dset ''answer'' (PStr a) store);
          s2 = dset ''self_check'' (PDict payload) s1;
          s3 = (if sc_passed r then dset ''status'' (PStr ''completed'') s2
                else dset ''errors'' (PList (list_at s2 ''errors'' @
                       [py_or (opt_text (sc_reason r)) (PStr ''self_check_failed'')]))
                     (dset ''status'' (PStr ''failed'') s2))
      in append_observability ([(''event'', PStr ''self_check''), (''node'', PStr name)] @ payload)
           (append_trace name ''done'' payload s3))"

definition pending_check_post :: "string \<Rightarrow> pydict \<Rightarrow> pydict" where
  "pending_check_post name store =
     (let payload = [(''passed'', PBool True), (''reason'', PStr ''pending_approval'')]
      in append_observability ([(''event'', PStr ''self_check''), (''node'', PStr name)] @ payload)
           (append_trace name ''pending_approval'' payload (dset ''self_check'' (PDict payload) store)))"

definition is_pending :: "pydict \<Rightarrow> bool" where
  "is_pending store \<longleftrightarrow> py_eq (dget store ''status'') (PStr ''pending_approval'')"

definition self_check_node :: "string \<Rightarrow> 'w dependencies \<Rightarrow> pydict \<Rightarrow> 'w \<Rightarrow> 'w node_result" where
  "self_check_node name deps store w =
     (if is_pending store then (Inr (pending_check_post name store, ''done''), w)
      else case dep_self_check deps store w of
             (Inl e, w') \<Rightarrow> (Inl e, w')
           | (Inr r, w') \<Rightarrow> (Inr (check_post name r store, ''done''), w'))"

section \<open>The flow\<close>

fun edge :: "node \<Rightarrow> string \<Rightarrow> node option" where
  "edge LoadContext a = (if a = ''ok'' then Some LoadSkills else None)"
| "edge LoadSkills a = (if a = ''ok'' then Some PreGuard else None)"
| "edge PreGuard a = (if a = ''ok'' then Some Think else None)"
| "edge Think a =
     (if a = ''tool_call'' then Some ExecuteTool
      else if a \<in> set [''answer'', ''clarify'', ''handoff'', ''chat''] then Some SelfCheck else None)"
| "edge ExecuteTool a =
     (if a = ''ok'' \<or> a = ''error'' then Some Think
      else if a = ''pending_approval'' then Some SelfCheck else None)"
| "edge SelfCheck a = None"

definition run_node ::
  "'w platform \<Rightarrow> (node \<Rightarrow> string) \<Rightarrow> int \<Rightarrow> 'w dependencies \<Rightarrow> node \<Rightarrow> pydict \<Rightarrow> 'w \<Rightarrow> 'w node_result" where
  "run_node pf name_of max_iterations deps node store w =
     (case node of
        LoadContext \<Rightarrow> load_context_node (name_of node) deps store w
      | LoadSkills \<Rightarrow> load_skills_node pf (name_of node) deps store w
      | PreGuard \<Rightarrow> pre_guard_node (name_of node) deps store w
      | Think \<Rightarrow> think_node max_iterations (name_of node) deps store w
      | ExecuteTool \<Rightarrow> execute_node (name_of node) deps store w
      | SelfCheck \<Rightarrow> self_check_node (name_of node) deps store w)"

text \<open>A run of at most \<open>n\<close> nodes; \<open>None\<close> is a run that was cut off.\<close>

fun run_flow ::
  "'w platform \<Rightarrow> (node \<Rightarrow> string) \<Rightarrow> int \<Rightarrow> 'w dependencies \<Rightarrow> nat \<Rightarrow> node \<Rightarrow> pydict \<Rightarrow> 'w \<Rightarrow>
   (py_exn + pydict) option \<times> 'w" where
  "run_flow pf name_of m deps 0 node store w = (None, w)"
| "run_flow pf name_of m deps (Suc n) node store w =
     (case run_node pf name_of m deps node store w of
        (Inl e, w') \<Rightarrow> (Some (Inl e), w')
      | (Inr (store', action), w') \<Rightarrow>
          (case edge node action of
             None \<Rightarrow> (Some (Inr store'), w')
           | Some next \<Rightarrow> run_flow pf name_of m deps n next store' w'))"

definition max_steps :: "int \<Rightarrow> nat" where
  "max_steps max_iterations = nat (max 8 (max_iterations * 4 + 8))"

definition run_agent ::
  "'w platform \<Rightarrow> (node \<Rightarrow> string) \<Rightarrow> int \<Rightarrow> 'w dependencies \<Rightarrow> pydict \<Rightarrow> pydict \<Rightarrow> 'w \<Rightarrow>
   (py_exn + pydict) option \<times> 'w" where
  "run_agent pf name_of max_iterations deps request initial_state w =
     run_flow pf name_of max_iterations deps (max_steps max_iterations) LoadContext
       (initial_store request deps initial_state) w"

section \<open>What each node leaves alone\<close>

lemma append_trace_other [simp]: "k \<noteq> ''trace'' \<Longrightarrow> dget (append_trace node action payload store) k = dget store k"
  by (simp add: append_trace_def)

lemma append_observability_other [simp]:
  "k \<noteq> ''observability'' \<Longrightarrow> dget (append_observability event store) k = dget store k"
  by (simp add: append_observability_def)

lemma loop_count_cong: "dget s ''loop_count'' = dget t ''loop_count'' \<Longrightarrow> loop_count s = loop_count t"
  by (simp add: loop_count_def)

lemma loop_count_set [simp]: "dget s ''loop_count'' = PInt n \<Longrightarrow> loop_count s = Some n"
  by (simp add: loop_count_def py_or_def)

lemma merge_skill_other:
  "k \<noteq> ''skills'' \<Longrightarrow> k \<noteq> ''context'' \<Longrightarrow> dget (merge_tool_loaded_skill r store) k = dget store k"
  by (simp add: merge_tool_loaded_skill_def Let_def)

lemma collect_results_other:
  "k \<noteq> ''skills'' \<Longrightarrow> k \<noteq> ''context'' \<Longrightarrow> dget (fst (collect_results rs store)) k = dget store k"
proof (induction rs store rule: collect_results.induct)
  case (1 store)
  then show ?case by simp
next
  case (2 r rs store)
  let ?s = "if is_load_skill_tool (dget r ''tool_name'') then merge_tool_loaded_skill r store else store"
  have "dget (fst (collect_results rs ?s)) k = dget ?s k" using 2 by blast
  moreover have "dget ?s k = dget store k" using 2(2,3) by (simp add: merge_skill_other)
  ultimately show ?case by (simp add: Let_def split_beta)
qed

lemma fold_events_other:
  "k \<noteq> ''observability'' \<Longrightarrow>
     dget (fold (\<lambda>r. append_observability (call_event name decision r)) rs s) k = dget s k"
  by (induction rs arbitrary: s) simp_all

definition result_keys :: "string list" where
  "result_keys = [''skills'', ''context'', ''retrieved_faqs'', ''trace'', ''observability'']"

lemma results_post_other:
  assumes "k \<notin> set result_keys"
  shows "dget (fst (results_post name batch results store)) k = dget store k"
proof -
  have k: "k \<noteq> ''skills''" "k \<noteq> ''context''" "k \<noteq> ''retrieved_faqs''" "k \<noteq> ''trace''" "k \<noteq> ''observability''"
    using assms by (simp_all add: result_keys_def)
  show ?thesis
    using k collect_results_other [OF k(1,2)]
    by (simp add: results_post_def Let_def split_beta fold_events_other)
qed

lemma results_post_action: "snd (results_post name batch results store) \<in> {''ok'', ''error''}"
  by (simp add: results_post_def Let_def split_beta)

lemma execute_result:
  assumes "execute_node name deps store w = (Inr (s, a), w')"
  shows "loop_count s = loop_count store" and "a \<in> {''ok'', ''error'', ''pending_approval''}"
    and "a = ''pending_approval'' \<Longrightarrow> is_pending s \<and> dget s ''status'' = PStr ''pending_approval'' \<and> truthy (dget s ''answer'')"
    and "a \<noteq> ''pending_approval'' \<Longrightarrow> dget s ''status'' = dget store ''status''"
proof -
  obtain batch items where batch: "execute_exec deps store w = (Inr batch, w')"
    and res: "(s, a) = (if py_eq (dget batch ''status'') (PStr ''pending_approval'')
        then (pending_post name batch (map as_dict items)
               (dset ''tool_observations'' (PList (list_at store ''tool_observations'' @ items)) store), ''pending_approval'')
        else results_post name batch (map as_dict items)
               (dset ''tool_observations'' (PList (list_at store ''tool_observations'' @ items)) store))"
  proof -
    obtain r w1 where r: "execute_exec deps store w = (r, w1)" by (cases "execute_exec deps store w")
    then obtain batch where batch: "r = Inr batch" using assms by (cases r) (simp_all add: execute_node_def)
    define items where "items = (if is_list (dget batch ''results'') then as_list (dget batch ''results'')
        else [PDict batch])"
    show ?thesis
    proof (rule that)
      show "execute_exec deps store w = (Inr batch, w')"
        using assms r batch by (auto simp: execute_node_def Let_def split: if_splits)
      show "(s, a) = (if py_eq (dget batch ''status'') (PStr ''pending_approval'')
        then (pending_post name batch (map as_dict items)
               (dset ''tool_observations'' (PList (list_at store ''tool_observations'' @ items)) store), ''pending_approval'')
        else results_post name batch (map as_dict items)
               (dset ''tool_observations'' (PList (list_at store ''tool_observations'' @ items)) store))"
        using assms unfolding execute_node_def r batch Let_def prod.case sum.case items_def [symmetric]
        by (simp split: if_splits)
    qed
  qed
  let ?s1 = "dset ''tool_observations'' (PList (list_at store ''tool_observations'' @ items)) store"
  have key: "''loop_count'' \<notin> set result_keys" "''status'' \<notin> set result_keys" by (simp_all add: result_keys_def)
  show "loop_count s = loop_count store"
  proof (cases "py_eq (dget batch ''status'') (PStr ''pending_approval'')")
    case True
    then show ?thesis
      using res by (intro loop_count_cong) (simp add: pending_post_def Let_def)
  next
    case False
    then have "s = fst (results_post name batch (map as_dict items) ?s1)" using res by (metis fst_conv)
    then show ?thesis
      using results_post_other [OF key(1), of name batch "map as_dict items" ?s1]
      by (intro loop_count_cong) simp
  qed
  show "a \<in> {''ok'', ''error'', ''pending_approval''}"
    using res results_post_action [of name batch "map as_dict items" ?s1]
    by (cases "py_eq (dget batch ''status'') (PStr ''pending_approval'')") (auto simp: prod_eq_iff)
  show "is_pending s \<and> dget s ''status'' = PStr ''pending_approval'' \<and> truthy (dget s ''answer'')"
    if "a = ''pending_approval''"
  proof -
    have "py_eq (dget batch ''status'') (PStr ''pending_approval'')"
    proof (rule ccontr)
      assume "\<not> py_eq (dget batch ''status'') (PStr ''pending_approval'')"
      then have "a = snd (results_post name batch (map as_dict items) ?s1)" using res by (metis snd_conv)
      with that results_post_action [of name batch "map as_dict items" ?s1] show False by simp
    qed
    then have "s = pending_post name batch (map as_dict items) ?s1" using res by simp
    then show ?thesis by (simp add: pending_post_def Let_def is_pending_def py_or_def)
  qed
  show "dget s ''status'' = dget store ''status''" if "a \<noteq> ''pending_approval''"
  proof -
    have "\<not> py_eq (dget batch ''status'') (PStr ''pending_approval'')" using that res by auto
    then have "s = fst (results_post name batch (map as_dict items) ?s1)" using res by (metis fst_conv)
    then show ?thesis using results_post_other [OF key(2), of name batch "map as_dict items" ?s1] by simp
  qed
qed

lemma think_post_fields:
  "loop_count (think_post name n d store) = Some n"
  "dget (think_post name n d store) ''status'' = dget store ''status''"
  "ag_answer d = Some a \<Longrightarrow> a \<noteq> [] \<Longrightarrow> dget (think_post name n d store) ''answer'' = PStr a"
  by (auto simp: think_post_def Let_def split: option.split)

lemma check_post_status:
  "dget (check_post name r store) ''status'' = PStr (if sc_passed r then ''completed'' else ''failed'')"
  by (simp add: check_post_def Let_def)

lemma pending_check_fields:
  "dget (pending_check_post name store) ''status'' = dget store ''status''"
  "dget (pending_check_post name store) ''answer'' = dget store ''answer''"
  by (simp_all add: pending_check_post_def Let_def)

section \<open>A turn ends\<close>

definition final_status :: "pydict \<Rightarrow> bool" where
  "final_status s \<longleftrightarrow>
     dget s ''status'' \<in> {PStr ''completed'', PStr ''failed'', PStr ''pending_approval''}"

text \<open>\<open>tally\<close> reads from the world how many tool batches were run.\<close>

definition counts_batches :: "('w \<Rightarrow> nat) \<Rightarrow> 'w dependencies \<Rightarrow> bool" where
  "counts_batches tally deps \<longleftrightarrow>
     (\<forall>r w. tally (snd (dep_load_context deps r w)) = tally w) \<and>
     (\<forall>s w. tally (snd (dep_think deps s w)) = tally w) \<and>
     (\<forall>s w. tally (snd (dep_self_check deps s w)) = tally w) \<and>
     (\<forall>f r c w. dep_load_skills deps = Some f \<longrightarrow> tally (snd (f r c w)) = tally w) \<and>
     (\<forall>f r c w. dep_pre_guard deps = Some f \<longrightarrow> tally (snd (f r c w)) = tally w) \<and>
     (\<forall>s w. tally (snd (execute_exec deps s w)) \<le> tally w + 1)"

definition proper_routes :: "'w dependencies \<Rightarrow> bool" where
  "proper_routes deps \<longleftrightarrow>
     (\<forall>s w d w'. dep_think deps s w = (Inr d, w') \<longrightarrow> ag_route d = ''faq_answer'' \<or> ag_route d \<in> set routes)"

text \<open>
  The exceptions a turn may end with. All but two are raised by a dependency: a loader, the guard before the
  planner, the planner in a state whose round counter can be read, the self check or the function that
  runs a whole batch. (A skill loader and a single tool that raise do not end the turn: their exception is
  recorded.) The other two are the loop's own: an \<open>AttributeError\<close> when the loader's skills or the results
  of a batch are not dictionaries, and the \<open>ValueError\<close> on a decision of the planner to call a tool that
  names none.
\<close>

definition batch_items :: "pydict \<Rightarrow> pyval list" where
  "batch_items batch =
     (if is_list (dget batch ''results'') then as_list (dget batch ''results'') else [PDict batch])"

definition missing_call :: py_exn where
  "missing_call = exn ''ValueError'' ''tool_call decision missing tool call''"

definition malformed_fault :: "'w dependencies \<Rightarrow> py_exn \<Rightarrow> bool" where
  "malformed_fault deps e \<longleftrightarrow> e = attribute_error \<and>
     ((\<exists>f r c w out w'. dep_load_skills deps = Some f \<and> f r c w = (Inr out, w') \<and>
         \<not> list_all is_dict (as_list (dget out ''skills''))) \<or>
      (\<exists>f calls s w out w'. dep_run_tools deps = Some f \<and> calls \<noteq> [] \<and> f calls s w = (Inr out, w') \<and>
         \<not> list_all is_dict (batch_items out)))"

definition batch_fault :: "'w dependencies \<Rightarrow> py_exn \<Rightarrow> bool" where
  "batch_fault deps e \<longleftrightarrow>
     (\<exists>f calls s w w'. dep_run_tools deps = Some f \<and> calls \<noteq> [] \<and> f calls s w = (Inl e, w'))"

definition loader_fault :: "'w dependencies \<Rightarrow> py_exn \<Rightarrow> bool" where
  "loader_fault deps e \<longleftrightarrow>
     (\<exists>r w w'. dep_load_context deps r w = (Inl e, w')) \<or>
     (\<exists>f r c w w'. dep_pre_guard deps = Some f \<and> f r c w = (Inl e, w'))"

definition turn_fault :: "'w dependencies \<Rightarrow> py_exn \<Rightarrow> bool" where
  "turn_fault deps e \<longleftrightarrow>
     loader_fault deps e \<or> batch_fault deps e \<or> malformed_fault deps e \<or>
     (\<exists>s w w'. loop_count s \<noteq> None \<and> dep_think deps s w = (Inl e, w')) \<or>
     (\<exists>s w w'. dep_self_check deps s w = (Inl e, w')) \<or>
     (e = missing_call \<and> (\<exists>s w d w'. dep_think deps s w = (Inr d, w') \<and> ag_route d = ''tool_call'' \<and>
        decided_calls (decision_dict d) = []))"

definition ended :: "'w dependencies \<Rightarrow> (py_exn + pydict) option \<Rightarrow> bool" where
  "ended deps r \<longleftrightarrow>
     (case r of None \<Rightarrow> False | Some (Inl e) \<Rightarrow> turn_fault deps e | Some (Inr s) \<Rightarrow> final_status s)"

lemma self_check_ends:
  assumes "n > 0"
  shows "ended deps (fst (run_flow pf name_of m deps n SelfCheck store w))"
    and "counts_batches tally deps \<Longrightarrow> tally (snd (run_flow pf name_of m deps n SelfCheck store w)) = tally w"
proof -
  obtain k where n: "n = Suc k" using assms by (cases n) auto
  have "ended deps (fst (run_flow pf name_of m deps n SelfCheck store w)) \<and>
      (counts_batches tally deps \<longrightarrow> tally (snd (run_flow pf name_of m deps n SelfCheck store w)) = tally w)"
  proof (cases "is_pending store")
    case True
    then show ?thesis
      by (cases "dget store ''status''")
         (simp_all add: n run_node_def self_check_node_def ended_def final_status_def pending_check_fields is_pending_def)
  next
    case False
    obtain r w1 where r: "dep_self_check deps store w = (r, w1)" by (cases "dep_self_check deps store w")
    have "counts_batches tally deps \<Longrightarrow> tally w1 = tally w"
      using r unfolding counts_batches_def by (metis snd_conv)
    moreover have "turn_fault deps e" if "r = Inl e" for e
      using r that unfolding turn_fault_def by blast
    ultimately show ?thesis
      using False r
      by (cases r) (simp_all add: n run_node_def self_check_node_def ended_def final_status_def check_post_status)
  qed
  then show "ended deps (fst (run_flow pf name_of m deps n SelfCheck store w))"
    "counts_batches tally deps \<Longrightarrow> tally (snd (run_flow pf name_of m deps n SelfCheck store w)) = tally w"
    by blast+
qed

lemma execute_counts:
  assumes "counts_batches tally deps"
  shows "tally (snd (execute_node name deps store w)) \<le> tally w + 1"
  using assms by (auto simp: execute_node_def counts_batches_def Let_def split: prod.splits sum.splits) (metis snd_conv)+

lemma think_result:
  assumes "think_node m name deps store w = (Inr (s, a), w')" "proper_routes deps" "loop_count store = Some n"
  shows "loop_count s = Some (n + 1)" and "dget s ''status'' = dget store ''status''"
    and "edge Think a = Some SelfCheck \<or> (edge Think a = Some ExecuteTool \<and> n + 1 \<le> m)"
proof -
  obtain d where d: "think_exec m deps store w = (Inr d, w')" "s = think_post name (n + 1) d store"
    "a = think_action (ag_route d)"
    using assms(1,3) by (auto simp: think_node_def split: prod.splits sum.splits)
  then show "loop_count s = Some (n + 1)" "dget s ''status'' = dget store ''status''"
    by (simp_all add: think_post_fields)
  show "edge Think a = Some SelfCheck \<or> (edge Think a = Some ExecuteTool \<and> n + 1 \<le> m)"
  proof (cases "n + 1 > m")
    case True
    then have "ag_route d = ''handoff''"
      using d(1) assms(3) by (auto simp: think_exec_def max_iterations_decision_def)
    then show ?thesis by (simp add: d(3) think_action_def)
  next
    case False
    then have "dep_think deps store w = (Inr d, w')" using d(1) assms(3) by (simp add: think_exec_def)
    then have "ag_route d = ''faq_answer'' \<or> ag_route d \<in> set routes"
      using assms(2) unfolding proper_routes_def by blast
    then have "ag_route d = ''faq_answer'' \<or> ag_route d = ''tool_call'' \<or> ag_route d = ''answer'' \<or>
        ag_route d = ''clarify'' \<or> ag_route d = ''handoff'' \<or> ag_route d = ''chat''"
      by (simp add: routes_def)
    then show ?thesis using False unfolding d(3) by (elim disjE) (simp_all add: think_action_def)
  qed
qed

lemma think_to_execute:
  assumes "think_node m name deps store w = (Inr (s, a), w')" "edge Think a = Some ExecuteTool"
  obtains d where "dep_think deps store w = (Inr d, w')" "ag_route d = ''tool_call''"
    "dget s ''decision'' = PDict (decision_dict d)"
proof -
  obtain d n where d: "think_exec m deps store w = (Inr d, w')" "s = think_post name (n + 1) d store"
    "a = think_action (ag_route d)"
    using assms(1) by (auto simp: think_node_def split: prod.splits sum.splits option.splits)
  have route: "ag_route d = ''tool_call''"
    using assms(2) d(3) by (auto simp: think_action_def split: if_splits)
  have "d \<noteq> max_iterations_decision" using route by (auto simp: max_iterations_decision_def)
  then have "dep_think deps store w = (Inr d, w')"
    using d(1) by (auto simp: think_exec_def split: option.splits if_splits)
  moreover have "dget s ''decision'' = PDict (decision_dict d)"
    by (auto simp: d(2) think_post_def Let_def split: option.split)
  ultimately show ?thesis using that route by blast
qed

lemma think_fault:
  assumes "think_node m name deps store w = (Inl e, w')" "loop_count store \<noteq> None"
  shows "turn_fault deps e"
proof -
  have "dep_think deps store w = (Inl e, w')"
    using assms by (auto simp: think_node_def think_exec_def split: prod.splits sum.splits option.splits if_splits)
  then show ?thesis using assms(2) unfolding turn_fault_def by blast
qed

lemma execute_fault:
  assumes "execute_node name deps store w = (Inl e, w')"
  shows "batch_fault deps e \<or> malformed_fault deps e \<or>
    (e = missing_call \<and> decided_calls (as_dict (dget store ''decision'')) = [])"
proof (cases "execute_exec deps store w")
  case (Pair r w1)
  let ?calls = "decided_calls (as_dict (dget store ''decision''))"
  show ?thesis
  proof (cases r)
    case (Inl x)
    then have "x = e" using assms Pair by (simp add: execute_node_def)
    then show ?thesis
      using Pair Inl unfolding execute_exec_def missing_call_def [symmetric] batch_fault_def
      by (auto simp: Let_def split: if_splits option.splits prod.splits)
  next
    case (Inr batch)
    then have e: "e = attribute_error" "\<not> list_all is_dict (batch_items batch)"
      using assms Pair by (auto simp: execute_node_def batch_items_def Let_def split: if_splits)
    show ?thesis
    proof (cases "dep_run_tools deps")
      case None
      then have "list_all is_dict (batch_items batch)"
        using Pair Inr
        by (auto simp: execute_exec_def Let_def batch_items_def list_all_iff split: if_splits prod.splits)
      then show ?thesis using e by simp
    next
      case (Some f)
      then have "?calls \<noteq> []" "f ?calls store w = (Inr batch, w1)"
        using Pair Inr by (auto simp: execute_exec_def Let_def split: if_splits)
      then show ?thesis using Some e unfolding malformed_fault_def by blast
    qed
  qed
qed

lemma think_flow_ends:
  assumes "proper_routes deps" "counts_batches tally deps"
  shows "loop_count store = Some n \<Longrightarrow> nat (m - n) = k \<Longrightarrow> 2 * k + 2 \<le> fuel \<Longrightarrow>
    ended deps (fst (run_flow pf name_of m deps fuel Think store w)) \<and>
    tally (snd (run_flow pf name_of m deps fuel Think store w)) \<le> tally w + k"
proof (induction k arbitrary: n store w fuel rule: less_induct)
  case (less k)
  obtain f where fuel: "fuel = Suc (Suc f)" "2 * k \<le> f"
    using less.prems(3) by (cases fuel; cases "fuel - 1") auto
  obtain r w1 where r: "think_node m (name_of Think) deps store w = (r, w1)"
    by (cases "think_node m (name_of Think) deps store w")
  have w1: "tally w1 = tally w"
  proof -
    have "tally (snd (think_exec m deps store w)) = tally w"
      using assms(2) by (simp add: think_exec_def counts_batches_def split: option.split)
    then show ?thesis using r by (auto simp: think_node_def split: prod.splits sum.splits option.splits)
  qed
  show ?case
  proof (cases r)
    case (Inl e)
    have "turn_fault deps e" using think_fault [of m _ deps store w e w1] r less.prems(1) by (simp add: Inl)
    then show ?thesis using r w1 Inl by (simp add: fuel run_node_def ended_def)
  next
    case (Inr sa)
    obtain s a where sa: "sa = (s, a)" by (cases sa)
    note think = think_result [OF r [unfolded Inr sa] assms(1) less.prems(1)]
    from think(3) show ?thesis
    proof
      assume "edge Think a = Some SelfCheck"
      then have "run_flow pf name_of m deps fuel Think store w = run_flow pf name_of m deps (Suc f) SelfCheck s w1"
        using r by (simp add: fuel run_node_def Inr sa)
      then show ?thesis
        using self_check_ends(1) [of "Suc f" deps pf name_of m s w1]
          self_check_ends(2) [OF _ assms(2), of "Suc f" pf name_of m s w1] w1 by simp
    next
      assume e: "edge Think a = Some ExecuteTool \<and> n + 1 \<le> m"
      then have k: "k > 0" "nat (m - (n + 1)) = k - 1" using less.prems(2) by auto
      obtain q w2 where q: "execute_node (name_of ExecuteTool) deps s w1 = (q, w2)"
        by (cases "execute_node (name_of ExecuteTool) deps s w1")
      have w2: "tally w2 \<le> tally w + 1" using execute_counts [OF assms(2), of "name_of ExecuteTool" s w1] q w1 by simp
      have flow: "run_flow pf name_of m deps fuel Think store w = run_flow pf name_of m deps (Suc f) ExecuteTool s w1"
        using r e by (simp add: fuel run_node_def Inr sa)
      show ?thesis
      proof (cases q)
        case (Inl x)
        obtain d where d: "dep_think deps store w = (Inr d, w1)" "ag_route d = ''tool_call''"
          "dget s ''decision'' = PDict (decision_dict d)"
          using think_to_execute [OF r [unfolded Inr sa]] e by blast
        then have "turn_fault deps x"
          using execute_fault [OF q [unfolded Inl]] unfolding turn_fault_def d(3) as_dict.simps by blast
        then show ?thesis using q Inl w2 k(1) unfolding flow by (simp add: run_node_def ended_def)
      next
        case (Inr tb)
        obtain t b where tb: "tb = (t, b)" by (cases tb)
        note exec = execute_result [OF q [unfolded Inr tb]]
        show ?thesis
        proof (cases "b = ''pending_approval''")
          case True
          then have "run_flow pf name_of m deps (Suc f) ExecuteTool s w1 = run_flow pf name_of m deps f SelfCheck t w2"
            using q by (simp add: run_node_def Inr tb)
          moreover have "f > 0" using fuel(2) k(1) by simp
          ultimately show ?thesis
            using self_check_ends(1) [of f deps pf name_of m t w2]
              self_check_ends(2) [OF _ assms(2), of f pf name_of m t w2] w2 k(1) unfolding flow by simp
        next
          case False
          then have "run_flow pf name_of m deps (Suc f) ExecuteTool s w1 = run_flow pf name_of m deps f Think t w2"
            using q exec(2) by (auto simp: run_node_def Inr tb)
          moreover have "loop_count t = Some (n + 1)" using exec(1) think(1) by simp
          moreover have "2 * (k - 1) + 2 \<le> f" using fuel(2) k(1) by simp
          ultimately show ?thesis
            using less.IH [of "k - 1" t "n + 1" f w2] k w2 unfolding flow by auto
        qed
      qed
    qed
  qed
qed

text \<open>The three nodes before the planner change neither the count of its rounds nor the status.\<close>

lemma load_context_result:
  assumes "load_context_node name deps store w = (Inr (s, a), w')"
  shows "a = ''ok''" "loop_count s = loop_count store" "dget s ''status'' = dget store ''status''"
  using assms by (auto simp: load_context_node_def intro!: loop_count_cong split: prod.splits sum.splits)

lemma load_skills_result:
  assumes "load_skills_node pf name deps store w = (Inr (s, a), w')"
  shows "a = ''ok''" "loop_count s = loop_count store" "dget s ''status'' = dget store ''status''"
  using assms by (auto simp: load_skills_node_def Let_def intro!: loop_count_cong split: prod.splits if_splits)

lemma pre_guard_result:
  assumes "pre_guard_node name deps store w = (Inr (s, a), w')"
  shows "a = ''ok''" "loop_count s = loop_count store" "dget s ''status'' = dget store ''status''"
  using assms by (auto simp: pre_guard_node_def Let_def intro!: loop_count_cong split: prod.splits sum.splits)

definition same_turn :: "pydict \<Rightarrow> pydict \<Rightarrow> bool" where
  "same_turn s t \<longleftrightarrow> loop_count s = loop_count t \<and> dget s ''status'' = dget t ''status''"

lemma entry_nodes:
  assumes "node \<in> {LoadContext, LoadSkills, PreGuard}" "run_node pf name_of m deps node store w = (Inr (s, a), w')"
  shows "same_turn s store"
    and "edge node a = Some (if node = LoadContext then LoadSkills else if node = LoadSkills then PreGuard else Think)"
  using assms load_context_result load_skills_result pre_guard_result
  by (fastforce simp: same_turn_def run_node_def)+

lemma load_skills_tally:
  assumes "counts_batches tally deps"
  shows "tally (snd (load_skills_node pf name deps store w)) = tally w"
proof -
  have "tally (snd (skills_result pf deps r c w)) = tally w" for r c
  proof (cases "dep_load_skills deps")
    case None
    then show ?thesis by (simp add: skills_result_def Let_def)
  next
    case (Some f)
    obtain x w1 where x: "f r c w = (x, w1)" by (cases "f r c w")
    then have "tally w1 = tally w" using assms Some unfolding counts_batches_def by (metis snd_conv)
    then show ?thesis using Some x by (cases x) (simp_all add: skills_result_def Let_def)
  qed
  then show ?thesis by (simp add: load_skills_node_def Let_def split_beta)
qed

lemma entry_tally:
  assumes "counts_batches tally deps" "node \<in> {LoadContext, LoadSkills, PreGuard}"
  shows "tally (snd (run_node pf name_of m deps node store w)) = tally w"
proof -
  have "tally (snd (load_context_node name deps store w)) = tally w" for name
    using assms(1) by (auto simp: load_context_node_def counts_batches_def split: prod.splits sum.splits) (metis snd_conv)+
  moreover have "tally (snd (pre_guard_node name deps store w)) = tally w" for name
  proof (cases "dep_pre_guard deps")
    case None
    then show ?thesis by (simp add: pre_guard_node_def Let_def)
  next
    case (Some f)
    obtain x w1 where x: "f (as_dict (dget store ''request'')) (as_dict (dget store ''context'')) w = (x, w1)"
      by (cases "f (as_dict (dget store ''request'')) (as_dict (dget store ''context'')) w")
    then have "tally w1 = tally w" using assms(1) Some unfolding counts_batches_def by (metis snd_conv)
    then show ?thesis using Some x by (cases x) (simp_all add: pre_guard_node_def Let_def)
  qed
  ultimately show ?thesis
    using assms(2) load_skills_tally [OF assms(1)] by (auto simp: run_node_def)
qed

text \<open>A run either ends in an entry node with its exception or reaches the planner.\<close>

lemma entry_fault:
  assumes "node \<in> {LoadContext, LoadSkills, PreGuard}" "run_node pf name_of m deps node store w = (Inl e, w')"
  shows "loader_fault deps e \<or> malformed_fault deps e"
proof -
  have "loader_fault deps e" if "load_context_node name deps store w = (Inl e, w')" for name
    using that unfolding load_context_node_def loader_fault_def
    by (auto split: prod.splits sum.splits)
  moreover have "loader_fault deps e" if "pre_guard_node name deps store w = (Inl e, w')" for name
    using that unfolding pre_guard_node_def loader_fault_def Let_def
    by (auto split: prod.splits sum.splits option.splits)
  moreover have "malformed_fault deps e" if "load_skills_node pf name deps store w = (Inl e, w')" for name
  proof -
    let ?r = "as_dict (dget store ''request'')" and ?c = "as_dict (dget store ''context'')"
    have e: "e = attribute_error" "\<not> list_all is_dict (as_list (dget (fst (skills_result pf deps ?r ?c w)) ''skills''))"
      using that by (auto simp: load_skills_node_def Let_def split: prod.splits if_splits)
    then obtain f out w1 where "dep_load_skills deps = Some f" "f ?r ?c w = (Inr out, w1)"
      "\<not> list_all is_dict (as_list (dget out ''skills''))"
      by (auto simp: skills_result_def Let_def split: option.splits prod.splits sum.splits)
    then show ?thesis unfolding malformed_fault_def e(1) by blast
  qed
  moreover have "node = LoadContext \<or> node = LoadSkills \<or> node = PreGuard" using assms(1) by simp
  ultimately show ?thesis using assms(2) by (elim disjE) (simp_all add: run_node_def)
qed

definition entered ::
  "'w dependencies \<Rightarrow> ('w \<Rightarrow> nat) \<Rightarrow> (pydict \<Rightarrow> 'w \<Rightarrow> (py_exn + pydict) option \<times> 'w) \<Rightarrow> pydict \<Rightarrow> 'w \<Rightarrow>
   (py_exn + pydict) option \<times> 'w \<Rightarrow> bool" where
  "entered deps tally think store w r \<longleftrightarrow>
     (\<exists>e w1. r = (Some (Inl e), w1) \<and> (loader_fault deps e \<or> malformed_fault deps e) \<and> tally w1 = tally w) \<or>
     (\<exists>s w1. same_turn s store \<and> tally w1 = tally w \<and> r = think s w1)"

lemma entered_step:
  assumes "counts_batches tally deps" "node \<in> {LoadContext, LoadSkills, PreGuard}"
    and "\<And>s w1. entered deps tally think s w1 (run_flow pf name_of m deps n
      (if node = LoadContext then LoadSkills else if node = LoadSkills then PreGuard else Think) s w1)"
  shows "entered deps tally think store w (run_flow pf name_of m deps (Suc n) node store w)"
proof -
  obtain r w1 where r: "run_node pf name_of m deps node store w = (r, w1)"
    by (cases "run_node pf name_of m deps node store w")
  have t: "tally w1 = tally w" using entry_tally [OF assms(1,2), of pf name_of m store w] r by simp
  show ?thesis
  proof (cases r)
    case (Inl e)
    then have "loader_fault deps e \<or> malformed_fault deps e" using entry_fault [OF assms(2) r [unfolded Inl]] by blast
    then show ?thesis using r t Inl by (simp add: entered_def)
  next
    case (Inr sa)
    obtain s a where sa: "sa = (s, a)" by (cases sa)
    note entry = entry_nodes [OF assms(2) r [unfolded Inr sa]]
    have "run_flow pf name_of m deps (Suc n) node store w = run_flow pf name_of m deps n
        (if node = LoadContext then LoadSkills else if node = LoadSkills then PreGuard else Think) s w1"
      using r entry(2) by (simp add: Inr sa)
    then show ?thesis
      using assms(3) [of s w1] entry(1) t unfolding entered_def same_turn_def by force
  qed
qed

lemma entry_flow:
  assumes "counts_batches tally deps" "f \<ge> 3"
  shows "entered deps tally (run_flow pf name_of m deps (f - 3) Think) store w
    (run_flow pf name_of m deps f LoadContext store w)"
proof -
  obtain n where n: "f = Suc (Suc (Suc n))" using assms(2) by (metis Suc_le_D Suc_le_mono numeral_3_eq_3)
  let ?entered = "entered deps tally (run_flow pf name_of m deps n Think)"
  have think: "?entered s w1 (run_flow pf name_of m deps n Think s w1)" for s w1
    by (simp add: entered_def same_turn_def) blast
  have guard: "?entered s w1 (run_flow pf name_of m deps (Suc n) PreGuard s w1)" for s w1
    by (rule entered_step [OF assms(1)]) (simp_all add: think del: run_flow.simps)
  have skills: "?entered s w1 (run_flow pf name_of m deps (Suc (Suc n)) LoadSkills s w1)" for s w1
    by (rule entered_step [OF assms(1)]) (simp_all add: guard del: run_flow.simps)
  have "?entered store w (run_flow pf name_of m deps (Suc (Suc (Suc n))) LoadContext store w)"
    by (rule entered_step [OF assms(1)]) (simp_all add: skills del: run_flow.simps)
  then show ?thesis by (simp add: n del: run_flow.simps)
qed


text \<open>A turn whose planner calls a failing tool for ever: its world counts the batches.\<close>

definition stubborn_decision :: agent_decision where
  "stubborn_decision =
     \<lparr>ag_route = ''tool_call'', ag_answer = None, ag_tool_name = Some ''stock'', ag_tool_args = [],
      ag_reason = None, ag_tool_calls = []\<rparr>"

definition stubborn :: "nat dependencies" where
  "stubborn =
     \<lparr>dep_load_context = (\<lambda>r w. (Inr [], w)), dep_think = (\<lambda>s w. (Inr stubborn_decision, w)),
      dep_run_tool = (\<lambda>name args s w. (Inl attribute_error, w + 1)),
      dep_self_check = (\<lambda>s w. (Inr (default_self_check s), w)), dep_load_skills = None, dep_run_tools = None,
      dep_tool_catalog = None, dep_pre_guard = None\<rparr>"

definition clock :: "nat platform" where
  "clock = \<lparr>perf_counter = (\<lambda>w. 0), sleep = (\<lambda>d w. w)\<rparr>"

definition small_batches :: "nat dependencies" where
  "small_batches = stubborn\<lparr>dep_run_tools := Some (\<lambda>calls s w. (Inr [(''status'', PStr ''ok'')], w + 1))\<rparr>"


section \<open>A configured turn ends with an answer\<close>

definition answered :: "pydict \<Rightarrow> bool" where
  "answered s \<longleftrightarrow> truthy (dget s ''answer'') \<and> dget s ''status'' \<in> {PStr ''completed'', PStr ''pending_approval''}"

text \<open>The planner of a configured agent over the model's client \<open>chat\<close>, and the default self check.\<close>

definition configured :: "('w \<Rightarrow> pydict \<Rightarrow> py_exn + pydict) \<Rightarrow> 'w dependencies \<Rightarrow> bool" where
  "configured chat deps \<longleftrightarrow>
     (\<forall>s w. fst (dep_think deps s w) = configured_planner_think (chat w) s) \<and>
     (\<forall>s w. dep_self_check deps s w = (Inr (default_self_check s), w))"

text \<open>
  The exceptions that end a configured turn. Of the client's only those that are not a
  \<open>DeepSeekError\<close> count: the planner turns that one into an answer.
\<close>

definition client_fault :: "('w \<Rightarrow> pydict \<Rightarrow> py_exn + pydict) \<Rightarrow> py_exn \<Rightarrow> bool" where
  "client_fault chat e \<longleftrightarrow> exn_type e \<noteq> ''DeepSeekError'' \<and> (\<exists>s w. chat w s = Inl e)"

lemma configured_valid:
  assumes "configured chat deps" "dep_think deps s w = (Inr d, w')"
  shows "(\<exists>allowed. tool_decision allowed d) \<or> final_decision d"
proof -
  have "configured_planner_think (chat w) s = Inr d"
    using assms unfolding configured_def by (metis fst_conv)
  then show ?thesis using configured_think_valid by blast
qed

lemma configured_raises:
  assumes "configured_planner_think chat s = Inl e" "loop_count s \<noteq> None"
  shows "exn_type e \<noteq> ''DeepSeekError'' \<and> chat s = Inl e"
proof -
  have "\<exists>g. stop_replanning_after_unusable_tools s = Inr g"
    using assms(2) unfolding stop_replanning_after_unusable_tools_def loop_count_def Let_def
    by (auto split: option.split)
  then obtain g where "stop_replanning_after_unusable_tools s = Inr g" by blast
  then show ?thesis
    using assms(1) by (auto simp: configured_planner_think_def Let_def split: if_splits option.splits sum.splits)
qed

lemma configured_fault:
  assumes "configured chat deps" "turn_fault deps e"
  shows "loader_fault deps e \<or> batch_fault deps e \<or> malformed_fault deps e \<or> client_fault chat e"
proof -
  have "client_fault chat e" if t: "loop_count s \<noteq> None" "dep_think deps s w = (Inl e, w')" for s w w'
  proof -
    have "configured_planner_think (chat w) s = Inl e"
      using assms(1) t(2) unfolding configured_def by (metis fst_conv)
    then show ?thesis using configured_raises t(1) unfolding client_fault_def by blast
  qed
  moreover have "dep_self_check deps s w \<noteq> (Inl e, w')" for s w w'
    using assms(1) by (simp add: configured_def)
  moreover have "decided_calls (decision_dict d) \<noteq> []"
    if t: "dep_think deps s w = (Inr d, w')" "ag_route d = ''tool_call''" for s w d w'
  proof -
    have "ag_tool_calls d \<noteq> []"
      using configured_valid [OF assms(1) t(1)] t(2) by (auto simp: tool_decision_def final_decision_def)
    then show ?thesis
      by (simp add: decided_calls_def decision_dict_def decision_tool_calls_def list_at_def dget_map_of py_or_def Let_def)
  qed
  ultimately show ?thesis using assms(2) unfolding turn_fault_def by blast
qed

lemma configured_decision:
  assumes "configured chat deps" "think_exec m deps store w = (Inr d, w')"
  shows "(\<exists>allowed. tool_decision allowed d) \<or> final_decision d"
proof -
  obtain n where n: "loop_count store = Some n" using assms(2) by (cases "loop_count store") (simp_all add: think_exec_def)
  show ?thesis
  proof (cases "n + 1 > m")
    case True
    then have "d = max_iterations_decision" using assms(2) n by (simp add: think_exec_def)
    then show ?thesis by (simp add: max_iterations_decision_def final_say)
  next
    case False
    then show ?thesis using assms(2) n configured_valid [OF assms(1)] by (simp add: think_exec_def)
  qed
qed

lemma configured_think:
  assumes "configured chat deps" "think_node m name deps store w = (Inr (s, a), w')"
  shows "dget s ''status'' = dget store ''status''"
    and "edge Think a = Some ExecuteTool \<or> (edge Think a = Some SelfCheck \<and> truthy (dget s ''answer''))"
proof -
  obtain d n where d: "think_exec m deps store w = (Inr d, w')" "s = think_post name (n + 1) d store"
    "a = think_action (ag_route d)"
    using assms(2) by (auto simp: think_node_def split: prod.splits sum.splits option.splits)
  show "dget s ''status'' = dget store ''status''" by (simp add: d(2) think_post_fields)
  from configured_decision [OF assms(1) d(1)]
  show "edge Think a = Some ExecuteTool \<or> (edge Think a = Some SelfCheck \<and> truthy (dget s ''answer''))"
  proof
    assume "\<exists>allowed. tool_decision allowed d"
    then show ?thesis by (auto simp: d(3) tool_decision_def think_action_def)
  next
    assume f: "final_decision d"
    then obtain x where "ag_answer d = Some x" "x \<noteq> []" by (auto simp: final_decision_def)
    then have "truthy (dget s ''answer'')" by (simp add: d(2) think_post_fields)
    moreover have "edge Think a = Some SelfCheck"
      using f unfolding d(3) final_decision_def think_action_def by (elim conjE insertE emptyE) simp_all
    ultimately show ?thesis by blast
  qed
qed

lemma configured_check:
  assumes "configured chat deps" "truthy (dget store ''answer'')" "\<not> is_pending store"
    "fst (run_flow pf name_of m deps n SelfCheck store w) = Some (Inr s)"
  shows "answered s"
proof -
  obtain k where n: "n = Suc k" using assms(4) by (cases n) simp_all
  have "dep_self_check deps store w = (Inr (default_self_check store), w)" using assms(1) unfolding configured_def by blast
  then have "s = check_post (name_of SelfCheck) (default_self_check store) store"
    using assms(3,4) by (simp add: n run_node_def self_check_node_def)
  then show ?thesis using assms(2) by (simp add: answered_def default_self_check_def check_post_def Let_def)
qed

lemma pending_check:
  assumes "dget store ''status'' = PStr ''pending_approval''" "truthy (dget store ''answer'')"
    "fst (run_flow pf name_of m deps n SelfCheck store w) = Some (Inr s)"
  shows "answered s"
proof -
  obtain k where n: "n = Suc k" using assms(3) by (cases n) simp_all
  have "s = pending_check_post (name_of SelfCheck) store"
    using assms(1,3) by (simp add: n run_node_def self_check_node_def is_pending_def)
  then show ?thesis using assms(1,2) by (simp add: answered_def pending_check_fields)
qed

lemma configured_flow:
  assumes "configured chat deps"
  shows "\<not> is_pending store \<Longrightarrow> fst (run_flow pf name_of m deps n Think store w) = Some (Inr s) \<Longrightarrow> answered s"
proof (induction n arbitrary: store w rule: less_induct)
  case (less n)
  obtain f where n: "n = Suc f" using less.prems(2) by (cases n) simp_all
  obtain t a w1 where t: "think_node m (name_of Think) deps store w = (Inr (t, a), w1)"
    using less.prems(2) by (auto simp: n run_node_def split: prod.splits sum.splits)
  note think = configured_think [OF assms t]
  have np: "\<not> is_pending t" using less.prems(1) think(1) by (simp add: is_pending_def)
  from think(2) show ?case
  proof
    assume c: "edge Think a = Some SelfCheck \<and> truthy (dget t ''answer'')"
    then have "fst (run_flow pf name_of m deps f SelfCheck t w1) = Some (Inr s)"
      using less.prems(2) t by (simp add: n run_node_def)
    with configured_check [OF assms] c np show ?thesis by blast
  next
    assume e: "edge Think a = Some ExecuteTool"
    then have flow: "fst (run_flow pf name_of m deps f ExecuteTool t w1) = Some (Inr s)"
      using less.prems(2) t by (simp add: n run_node_def)
    then obtain g where f: "f = Suc g" by (cases f) simp_all
    obtain u b w2 where u: "execute_node (name_of ExecuteTool) deps t w1 = (Inr (u, b), w2)"
      using flow by (auto simp: f run_node_def split: prod.splits sum.splits)
    note exec = execute_result [OF u]
    show ?thesis
    proof (cases "b = ''pending_approval''")
      case True
      then have "fst (run_flow pf name_of m deps g SelfCheck u w2) = Some (Inr s)"
        using flow u by (simp add: f run_node_def)
      moreover have "dget u ''status'' = PStr ''pending_approval''" "truthy (dget u ''answer'')"
        using exec(3) [OF True] by simp_all
      ultimately show ?thesis by (intro pending_check)
    next
      case False
      then have "fst (run_flow pf name_of m deps g Think u w2) = Some (Inr s)"
        using flow u exec(2) by (auto simp: f run_node_def)
      moreover have "\<not> is_pending u" using exec(4) [OF False] np by (simp add: is_pending_def)
      ultimately show ?thesis using less.IH [of g u w2] by (simp add: n f)
    qed
  qed
qed

lemma configured_routes:
  assumes "configured chat deps"
  shows "proper_routes deps"
  unfolding proper_routes_def
  using configured_valid [OF assms] by (fastforce simp: tool_decision_def final_decision_def routes_def)


definition chatty :: "nat dependencies" where
  "chatty = stubborn\<lparr>dep_think := \<lambda>s w. (configured_planner_think
     (\<lambda>_. Inr [(''route'', PStr ''tool_call''), (''tool_name'', PStr ''missing'')]) s, w)\<rparr>"

definition chatty_replies :: "nat \<Rightarrow> pydict \<Rightarrow> py_exn + pydict" where
  "chatty_replies w s = Inr [(''route'', PStr ''tool_call''), (''tool_name'', PStr ''missing'')]"


end
