(* ===== verification/Engines.thy ===== *)
theory Engines
  imports Agent_Loop
begin

text \<open>
  The two execution engines of a turn (\<open>execution_engine.py\<close>, \<open>langgraph_engine.py\<close>). The first runs
  the planner flow of \<open>Agent_Loop\<close>; the second runs the same nodes as a graph over a persisted state
  that leaves out the request and the runtime context, and stops at \<open>await_approval\<close> until it is
  resumed with a decision. Of the graph runtime (third-party) the following is used: a node's result
  overwrites the declared keys of the state, an interrupt saves the state, a resume continues the
  interrupted node with the payload, and a run stops with an error after \<open>limit\<close> nodes.
\<close>

section \<open>The persisted state\<close>

definition runtime_only_keys :: "string list" where
  "runtime_only_keys = [''request'', ''deps'', ''stream_handler'']"

definition planner_state_keys :: "string list" where
  "planner_state_keys =
     [''tool_catalog'', ''loop_mode'', ''trace_id'', ''run_context'', ''trace'', ''observability'', ''context'',
      ''skills'', ''auto_skills'', ''session_skills'', ''skill_retrieval'', ''intent'', ''retrieved_faqs'',
      ''tool_observations'', ''loop_count'', ''route'', ''answer'', ''status'', ''errors'', ''decision'',
      ''self_check'', ''approval_requests'']"

definition without_keys :: "string list \<Rightarrow> pydict \<Rightarrow> pydict" where
  "without_keys ks d = filter (\<lambda>(k, v). k \<notin> set ks) d"

definition persisted_state :: "pydict \<Rightarrow> pydict" where
  "persisted_state data =
     (let persisted = without_keys runtime_only_keys data; ctx = dget persisted ''context''
      in if is_dict ctx \<and> has_key (as_dict ctx) ''runtime_context''
         then dset ''context'' (PDict (without_keys [''runtime_context''] (as_dict ctx))) persisted
         else persisted)"

text \<open>\<open>initial_persisted_state\<close> and the loop of \<open>start\<close> over the initial state.\<close>

definition graph_initial_state :: "pydict \<Rightarrow> 'w dependencies \<Rightarrow> pydict \<Rightarrow> pydict" where
  "graph_initial_state request deps initial =
     dmerge (persisted_state (make_store request deps ''planner'')) (without_keys runtime_only_keys initial)"

text \<open>The graph runtime keeps the declared keys of what a node (or the caller) gives it.\<close>

definition absorb :: "pydict \<Rightarrow> pydict \<Rightarrow> pydict" where
  "absorb state update = dmerge state (filter (\<lambda>(k, v). k \<in> set planner_state_keys) update)"

text \<open>The store \<open>_node_adapter\<close> rebuilds for a node; an absent runtime context is \<open>None\<close>.\<close>

definition node_store :: "pydict \<Rightarrow> 'w dependencies \<Rightarrow> pyval \<Rightarrow> pydict \<Rightarrow> pydict" where
  "node_store request deps rc state =
     (let store = dmerge (make_store request deps ''planner'') (without_keys runtime_only_keys state)
      in if truthy rc
         then dset ''context'' (PDict (dset ''runtime_context'' rc (dict_at store ''context''))) store
         else store)"

section \<open>The graph\<close>

datatype graph_node = Planner_Node node | Await_Approval

definition route_after_think :: "pydict \<Rightarrow> graph_node" where
  "route_after_think state =
     (if py_eq (dget state ''route'') (PStr ''tool_call'') then Planner_Node ExecuteTool else Planner_Node SelfCheck)"

definition route_after_tool :: "pydict \<Rightarrow> graph_node" where
  "route_after_tool state =
     (if py_eq (dget state ''status'') (PStr ''pending_approval'') then Await_Approval else Planner_Node Think)"

definition route_after_approval :: "pydict \<Rightarrow> graph_node" where
  "route_after_approval state =
     (if py_eq (dget state ''route'') (PStr ''tool_call'') then Planner_Node Think else Planner_Node SelfCheck)"

fun graph_edge :: "graph_node \<Rightarrow> pydict \<Rightarrow> graph_node option" where
  "graph_edge (Planner_Node LoadContext) state = Some (Planner_Node LoadSkills)"
| "graph_edge (Planner_Node LoadSkills) state = Some (Planner_Node PreGuard)"
| "graph_edge (Planner_Node PreGuard) state = Some (Planner_Node Think)"
| "graph_edge (Planner_Node Think) state = Some (route_after_think state)"
| "graph_edge (Planner_Node ExecuteTool) state = Some (route_after_tool state)"
| "graph_edge (Planner_Node SelfCheck) state = None"
| "graph_edge Await_Approval state = Some (route_after_approval state)"

text \<open>\<open>await_approval\<close> after its interrupt has returned a payload.\<close>

definition resumed_observations :: "pydict \<Rightarrow> pydict \<Rightarrow> pyval list" where
  "resumed_observations payload state =
     list_at state ''tool_observations'' @
     (if is_dict (dget payload ''approval_observation'') then [dget payload ''approval_observation''] else []) @
     filter is_dict (as_list (dget payload ''tool_results''))"

definition await_approval :: "pyval \<Rightarrow> pydict \<Rightarrow> pydict" where
  "await_approval given state =
     (let payload = (if is_dict given then as_dict given
            else [(''decision'', PStr ''rejected''), (''reason'', PStr ''invalid_resume_payload'')]);
          decision = py_str (py_or (dget payload ''decision'') (PStr ''rejected''));
          s1 = dset ''status'' (PStr ''running'')
            (dset ''approval_requests'' (PList [])
              (dset ''tool_observations'' (PList (resumed_observations payload state)) state))
      in if decision = ''approved'' then dset ''answer'' PNone (dset ''route'' (PStr ''tool_call'') s1)
         else dset ''answer'' (PStr (py_str (py_or (dget payload ''answer'')
                (PStr ''the approval was rejected, the tool is not executed''))))
              (dset ''route'' (PStr ''answer'') s1))"

datatype graph_outcome = Graph_Failed py_exn | Graph_Ended pydict | Graph_Waiting pydict

definition graph_step ::
  "'w platform \<Rightarrow> (node \<Rightarrow> string) \<Rightarrow> int \<Rightarrow> pydict \<Rightarrow> 'w dependencies \<Rightarrow> pyval \<Rightarrow> node \<Rightarrow> pydict \<Rightarrow> 'w \<Rightarrow>
   (py_exn + pydict) \<times> 'w" where
  "graph_step pf name_of m request deps rc node state w =
     (case run_node pf name_of m deps node (node_store request deps rc state) w of
        (Inl e, w') \<Rightarrow> (Inl e, w')
      | (Inr (store, action), w') \<Rightarrow> (Inr (absorb state (persisted_state store)), w'))"

text \<open>A run of at most \<open>n\<close> nodes; the payload is the one of a resume, \<open>None\<close> stands for an interrupt.\<close>

fun run_graph ::
  "'w platform \<Rightarrow> (node \<Rightarrow> string) \<Rightarrow> int \<Rightarrow> pydict \<Rightarrow> 'w dependencies \<Rightarrow> pyval \<Rightarrow> nat \<Rightarrow> graph_node \<Rightarrow>
   pyval option \<Rightarrow> pydict \<Rightarrow> 'w \<Rightarrow> graph_outcome option \<times> 'w" where
  "run_graph pf name_of m request deps rc 0 gn payload state w = (None, w)"
| "run_graph pf name_of m request deps rc (Suc n) Await_Approval None state w = (Some (Graph_Waiting state), w)"
| "run_graph pf name_of m request deps rc (Suc n) Await_Approval (Some payload) state w =
     (let state' = absorb state (await_approval payload state)
      in run_graph pf name_of m request deps rc n (route_after_approval state') None state' w)"
| "run_graph pf name_of m request deps rc (Suc n) (Planner_Node node) payload state w =
     (case graph_step pf name_of m request deps rc node state w of
        (Inl e, w') \<Rightarrow> (Some (Graph_Failed e), w')
      | (Inr state', w') \<Rightarrow>
          (case graph_edge (Planner_Node node) state' of
             None \<Rightarrow> (Some (Graph_Ended state'), w')
           | Some next \<Rightarrow> run_graph pf name_of m request deps rc n next payload state' w'))"

definition graph_start ::
  "'w platform \<Rightarrow> (node \<Rightarrow> string) \<Rightarrow> int \<Rightarrow> nat \<Rightarrow> 'w dependencies \<Rightarrow> pydict \<Rightarrow> pydict \<Rightarrow> pyval \<Rightarrow> 'w \<Rightarrow>
   graph_outcome option \<times> 'w" where
  "graph_start pf name_of m limit deps request initial rc w =
     run_graph pf name_of m request deps rc limit (Planner_Node LoadContext) None
       (absorb [] (graph_initial_state request deps initial)) w"

definition graph_resume ::
  "'w platform \<Rightarrow> (node \<Rightarrow> string) \<Rightarrow> int \<Rightarrow> nat \<Rightarrow> 'w dependencies \<Rightarrow> pydict \<Rightarrow> pydict \<Rightarrow> pyval \<Rightarrow> pydict \<Rightarrow> 'w \<Rightarrow>
   graph_outcome option \<times> 'w" where
  "graph_resume pf name_of m limit deps request payload rc saved w =
     run_graph pf name_of m request deps rc limit Await_Approval (Some (PDict payload)) saved w"

section \<open>Nodes cannot tell the order of keys\<close>

definition alike :: "pydict \<Rightarrow> pydict \<Rightarrow> bool" where
  "alike s t \<longleftrightarrow>
     (\<forall>k. k \<noteq> ''context'' \<longrightarrow> map_of s k = map_of t k) \<and>
     (\<exists>c d. map_of s ''context'' = Some (PDict c) \<and> map_of t ''context'' = Some (PDict d) \<and> map_of c = map_of d)"

text \<open>The parts of a turn read dictionaries by key, not by position.\<close>

definition insensitive :: "'w dependencies \<Rightarrow> bool" where
  "insensitive deps \<longleftrightarrow>
     (\<forall>s t. alike s t \<longrightarrow> dep_think deps s = dep_think deps t \<and> dep_self_check deps s = dep_self_check deps t \<and>
        (\<forall>name args. dep_run_tool deps name args s = dep_run_tool deps name args t) \<and>
        (\<forall>f calls. dep_run_tools deps = Some f \<longrightarrow> f calls s = f calls t)) \<and>
     (\<forall>c d r. map_of c = map_of d \<longrightarrow>
        (\<forall>f. dep_load_skills deps = Some f \<longrightarrow> f r c = f r d) \<and>
        (\<forall>f. dep_pre_guard deps = Some f \<longrightarrow> f r c = f r d))"

definition carries :: "pyval \<Rightarrow> pydict \<Rightarrow> bool" where
  "carries rc c \<longleftrightarrow> map_of c ''runtime_context'' = (if truthy rc then Some rc else None)"

definition base_keys :: "string list" where
  "base_keys =
     [''request'', ''tool_catalog'', ''loop_mode'', ''trace_id'', ''run_context'', ''trace'', ''observability'',
      ''context'', ''skills'', ''auto_skills'', ''session_skills'', ''skill_retrieval'', ''intent'',
      ''retrieved_faqs'', ''tool_observations'', ''loop_count'', ''route'', ''answer'', ''status'', ''errors'']"

definition tidy :: "pydict \<Rightarrow> string set \<Rightarrow> pydict \<Rightarrow> bool" where
  "tidy request B s \<longleftrightarrow>
     distinct (map fst s) \<and> map_of s ''request'' = Some (PDict request) \<and>
     dom (map_of s) \<subseteq> insert ''request'' (set planner_state_keys) \<and> set base_keys \<union> B \<subseteq> dom (map_of s)"

definition linked :: "pydict \<Rightarrow> pyval \<Rightarrow> string set \<Rightarrow> pydict \<Rightarrow> pydict \<Rightarrow> bool" where
  "linked request rc B s t \<longleftrightarrow>
     alike s t \<and> tidy request B s \<and> tidy request B t \<and> carries rc (as_dict (dget t ''context''))"

lemma dget_cong: "map_of s k = map_of t k \<Longrightarrow> dget s k = dget t k"
  by (simp add: dget_map_of)

lemma tidy_set:
  assumes "k \<in> set planner_state_keys" "tidy request B s"
  shows "tidy request B (dset k v s)"
proof -
  have "dom (map_of (dset k v s)) = insert k (dom (map_of s))" by (simp add: update_conv')
  moreover have "k \<noteq> ''request''" using assms(1) by (auto simp: planner_state_keys_def)
  ultimately show ?thesis
    using assms unfolding tidy_def by (simp add: distinct_update update_conv' subset_insertI2 insert_commute)
qed

lemma linked_get: "linked request rc B s t \<Longrightarrow> k \<noteq> ''context'' \<Longrightarrow> dget s k = dget t k"
  by (intro dget_cong) (simp add: linked_def alike_def)

lemma linked_list_at: "linked request rc B s t \<Longrightarrow> k \<noteq> ''context'' \<Longrightarrow> list_at s k = list_at t k"
  by (simp add: list_at_def linked_get)

lemma list_at_set: "k \<noteq> j \<Longrightarrow> list_at (dset k v s) j = list_at s j"
  by (simp add: list_at_def)

lemma linked_context:
  assumes "linked request rc B s t"
  shows "map_of (as_dict (dget s ''context'')) = map_of (as_dict (dget t ''context''))"
    and "carries rc (as_dict (dget t ''context''))"
  using assms by (auto simp: linked_def alike_def dget_map_of)

lemma linked_set:
  assumes "linked request rc B s t" "k \<in> set planner_state_keys" "k \<noteq> ''context''"
  shows "linked request rc B (dset k v s) (dset k v t)"
  using assms tidy_set [OF assms(2)] by (auto simp: linked_def alike_def update_conv')

lemma linked_set_context:
  assumes "linked request rc B s t" "map_of c = map_of d" "carries rc d"
  shows "linked request rc B (dset ''context'' (PDict c) s) (dset ''context'' (PDict d) t)"
proof -
  have "''context'' \<in> set planner_state_keys" by (simp add: planner_state_keys_def)
  then show ?thesis
    using assms tidy_set [of "''context''"] by (auto simp: linked_def alike_def update_conv')
qed

lemma carries_set: "carries rc c \<Longrightarrow> k \<noteq> ''runtime_context'' \<Longrightarrow> carries rc (dset k v c)"
  by (simp add: carries_def update_conv')

lemma linked_trace:
  "linked request rc B s t \<Longrightarrow> linked request rc B (append_trace node action payload s) (append_trace node action payload t)"
  by (simp add: append_trace_def linked_list_at linked_set planner_state_keys_def)

lemma linked_observability:
  "linked request rc B s t \<Longrightarrow> linked request rc B (append_observability event s) (append_observability event t)"
  by (simp add: append_observability_def linked_list_at linked_set planner_state_keys_def)

lemmas linked_steps = linked_trace linked_observability linked_set linked_set_context linked_list_at linked_get

text \<open>Two results of a node that agree up to the order of keys.\<close>

abbreviation same_result where
  "same_result request rc B \<equiv> rel_prod (rel_sum (=) (rel_prod (linked request rc B) (=))) (=)"

lemma linked_request: "linked request rc B s t \<Longrightarrow> dget s ''request'' = PDict request \<and> dget t ''request'' = PDict request"
  by (simp add: linked_def tidy_def dget_map_of)

lemma pre_guard_cong:
  assumes "insensitive deps" "linked request rc B s t"
  shows "same_result request rc B (pre_guard_node name deps s w) (pre_guard_node name deps t w)"
proof -
  note ctx = linked_context(1) [OF assms(2)]
  have history: "list_at (as_dict (dget s ''context'')) ''history'' = list_at (as_dict (dget t ''context'')) ''history''"
    using ctx by (simp add: list_at_def dget_map_of)
  have guard: "(case dep_pre_guard deps of Some guard \<Rightarrow> guard r (as_dict (dget s ''context'')) w | None \<Rightarrow> d) =
      (case dep_pre_guard deps of Some guard \<Rightarrow> guard r (as_dict (dget t ''context'')) w | None \<Rightarrow> d)" for r d
  proof (cases "dep_pre_guard deps")
    case (Some f)
    have "f r (as_dict (dget s ''context'')) = f r (as_dict (dget t ''context''))"
      using assms(1) ctx Some unfolding insensitive_def by blast
    then show ?thesis by (simp add: Some)
  qed simp
  show ?thesis
    unfolding pre_guard_node_def Let_def linked_request [OF assms(2), THEN conjunct1]
      linked_request [OF assms(2), THEN conjunct2] guard history
    using assms(2) by (auto intro!: linked_steps simp: planner_state_keys_def split: prod.split sum.split)
qed

lemma skills_result_cong:
  assumes "insensitive deps" "map_of c = map_of d"
  shows "skills_result pf deps r c w = skills_result pf deps r d w"
proof (cases "dep_load_skills deps")
  case (Some f)
  have "f r c = f r d" using assms Some unfolding insensitive_def by blast
  then show ?thesis by (simp add: skills_result_def Some)
qed (simp add: skills_result_def)

lemma load_skills_cong:
  assumes "insensitive deps" "linked request rc B s t"
  shows "same_result request rc B (load_skills_node pf name deps s w) (load_skills_node pf name deps t w)"
proof -
  note ctx = linked_context [OF assms(2)]
  have map_set: "map_of c = map_of d \<Longrightarrow> map_of (dset k v c) = map_of (dset k v d)" for c d k v
    by (simp add: update_conv')
  show ?thesis
    unfolding load_skills_node_def Let_def linked_request [OF assms(2), THEN conjunct1]
      linked_request [OF assms(2), THEN conjunct2] skills_result_cong [OF assms(1) ctx(1)]
    using assms(2) ctx
    by (auto intro!: linked_steps map_set carries_set simp: planner_state_keys_def split: prod.split)
qed

lemma linked_loop_count: "linked request rc B s t \<Longrightarrow> loop_count s = loop_count t"
  by (intro loop_count_cong linked_get) simp_all

lemma insensitive_at:
  assumes "insensitive deps" "linked request rc B s t"
  shows "dep_think deps s = dep_think deps t" "dep_self_check deps s = dep_self_check deps t"
    and "dep_run_tool deps n a s = dep_run_tool deps n a t"
    and "dep_run_tools deps = Some f \<Longrightarrow> f calls s = f calls t"
  using assms unfolding insensitive_def linked_def by blast+

lemma think_post_cong:
  "linked request rc B s t \<Longrightarrow> linked request rc B (think_post name n d s) (think_post name n d t)"
  by (auto simp: think_post_def Let_def planner_state_keys_def intro!: linked_steps split: option.split)

lemma think_cong:
  assumes "insensitive deps" "linked request rc B s t"
  shows "same_result request rc B (think_node m name deps s w) (think_node m name deps t w)"
proof -
  have "think_exec m deps s w = think_exec m deps t w"
    unfolding think_exec_def linked_loop_count [OF assms(2)] insensitive_at(1) [OF assms] ..
  then show ?thesis
    using assms(2) linked_loop_count [OF assms(2)]
    by (auto simp: think_node_def intro!: think_post_cong split: prod.split sum.split option.split)
qed

lemma run_tools_safely_cong:
  assumes "insensitive deps" "linked request rc B s t"
  shows "run_tools_safely deps calls s w = run_tools_safely deps calls t w"
proof (induction calls arbitrary: w)
  case (Cons call calls)
  have "run_tool_safely deps call s w = run_tool_safely deps call t w"
    by (simp add: run_tool_safely_def insensitive_at(3) [OF assms])
  then show ?case by (simp add: Cons.IH)
qed simp

lemma execute_exec_cong:
  assumes "insensitive deps" "linked request rc B s t"
  shows "execute_exec deps s w = execute_exec deps t w"
proof -
  have "dget s ''decision'' = dget t ''decision''" by (rule linked_get [OF assms(2)]) simp
  then show ?thesis
    using insensitive_at(4) [OF assms] run_tools_safely_cong [OF assms]
    by (auto simp: execute_exec_def Let_def split: option.split)
qed

lemma merge_skill_cong:
  assumes "linked request rc B s t"
  shows "linked request rc B (merge_tool_loaded_skill r s) (merge_tool_loaded_skill r t)"
proof -
  note ctx = linked_context [OF assms]
  have "linked request rc B
      (dset ''context'' (PDict (dset ''skills'' v (as_dict (dget s ''context'')))) (dset ''skills'' v s))
      (dset ''context'' (PDict (dset ''skills'' v (as_dict (dget t ''context'')))) (dset ''skills'' v t))" for v
  proof (rule linked_set_context)
    show "linked request rc B (dset ''skills'' v s) (dset ''skills'' v t)"
      by (rule linked_set [OF assms]) (simp_all add: planner_state_keys_def)
    show "map_of (dset ''skills'' v (as_dict (dget s ''context''))) = map_of (dset ''skills'' v (as_dict (dget t ''context'')))"
      using ctx(1) by (simp add: update_conv')
    show "carries rc (dset ''skills'' v (as_dict (dget t ''context'')))" using ctx(2) by (rule carries_set) simp
  qed
  moreover have "list_at s ''skills'' = list_at t ''skills''" by (rule linked_list_at [OF assms]) simp
  ultimately show ?thesis using assms by (simp add: merge_tool_loaded_skill_def Let_def)
qed

lemma collect_cong:
  "linked request rc B s t \<Longrightarrow>
     rel_prod (linked request rc B) (=) (collect_results rs s) (collect_results rs t)"
proof (induction rs arbitrary: s t)
  case (Cons r rs)
  let ?m = "\<lambda>s. if is_load_skill_tool (dget r ''tool_name'') then merge_tool_loaded_skill r s else s"
  have "linked request rc B (?m s) (?m t)" using Cons.prems merge_skill_cong by simp
  from Cons.IH [OF this] show ?case
    by (cases "collect_results rs (?m s)"; cases "collect_results rs (?m t)") (simp add: Let_def)
qed simp

lemma fold_events_cong:
  "linked request rc B s t \<Longrightarrow> linked request rc B
     (fold (\<lambda>r. append_observability (call_event name decision r)) rs s)
     (fold (\<lambda>r. append_observability (call_event name decision r)) rs t)"
  by (induction rs arbitrary: s t) (simp_all add: linked_observability)

lemma results_post_cong:
  assumes "linked request rc B s t"
  shows "rel_prod (linked request rc B) (=) (results_post name batch rs s) (results_post name batch rs t)"
proof -
  have same: "dict_at s ''decision'' = dict_at t ''decision''" "list_at s ''tool_observations'' = list_at t ''tool_observations''"
    using linked_get [OF assms] linked_list_at [OF assms] by (simp_all add: dict_at_def)
  obtain s1 f where s1: "collect_results rs s = (s1, f)" by (cases "collect_results rs s")
  then obtain t1 where t1: "collect_results rs t = (t1, f)" and l: "linked request rc B s1 t1"
    using collect_cong [OF assms, of rs] by (cases "collect_results rs t") auto
  show ?thesis
    unfolding results_post_def Let_def s1 t1 prod.case same
    using l by (auto intro!: fold_events_cong linked_steps simp: planner_state_keys_def)
qed

lemma pending_post_cong:
  assumes "linked request rc B s t"
  shows "linked request rc B (pending_post name batch rs s) (pending_post name batch rs t)"
proof -
  have same: "dict_at s ''decision'' = dict_at t ''decision''" "list_at s ''tool_observations'' = list_at t ''tool_observations''"
    using linked_get [OF assms] linked_list_at [OF assms] by (simp_all add: dict_at_def)
  show ?thesis
    unfolding pending_post_def Let_def same
    using assms by (auto intro!: linked_steps simp: planner_state_keys_def)
qed

lemma execute_cong:
  assumes "insensitive deps" "linked request rc B s t"
  shows "same_result request rc B (execute_node name deps s w) (execute_node name deps t w)"
proof -
  obtain r w1 where t: "execute_exec deps t w = (r, w1)" by (cases "execute_exec deps t w")
  then have s: "execute_exec deps s w = (r, w1)" by (simp add: execute_exec_cong [OF assms])
  have observed: "list_at s ''tool_observations'' = list_at t ''tool_observations''"
    by (rule linked_list_at [OF assms(2)]) simp
  have l: "linked request rc B (dset ''tool_observations'' v s) (dset ''tool_observations'' v t)" for v
    by (rule linked_set [OF assms(2)]) (simp_all add: planner_state_keys_def)
  show ?thesis
  proof (cases r)
    case (Inl e)
    then show ?thesis by (simp add: execute_node_def s t)
  next
    case (Inr batch)
    show ?thesis
      unfolding execute_node_def s t Inr prod.case sum.case Let_def observed
      using l results_post_cong pending_post_cong by auto
  qed
qed

lemma self_check_cong:
  assumes "insensitive deps" "linked request rc B s t"
  shows "same_result request rc B (self_check_node name deps s w) (self_check_node name deps t w)"
proof -
  have "is_pending s = is_pending t" using linked_get [OF assms(2)] by (simp add: is_pending_def)
  moreover have "linked request rc B (check_post name r s) (check_post name r t)" for r
  proof -
    have errors: "list_at s ''errors'' = list_at t ''errors''" by (rule linked_list_at [OF assms(2)]) simp
    show ?thesis
      unfolding check_post_def Let_def
      using assms(2)
      by (auto simp: list_at_set errors planner_state_keys_def intro!: linked_trace linked_observability linked_set
          split: option.split)
  qed
  moreover have "linked request rc B (pending_check_post name s) (pending_check_post name t)"
    using assms(2) by (auto simp: pending_check_post_def Let_def planner_state_keys_def intro!: linked_steps)
  ultimately show ?thesis
    by (auto simp: self_check_node_def insensitive_at(2) [OF assms] split: prod.split sum.split)
qed

lemma node_cong:
  assumes "insensitive deps" "linked request rc B s t" "node \<noteq> LoadContext"
  shows "same_result request rc B (run_node pf name_of m deps node s w) (run_node pf name_of m deps node t w)"
  using assms load_skills_cong pre_guard_cong think_cong execute_cong self_check_cong
  by (cases node) (simp_all add: run_node_def)

section \<open>A store and the state that persists it\<close>

lemma map_of_without: "map_of (without_keys ks d) k = (if k \<in> set ks then None else map_of d k)"
  by (induction d) (auto simp: without_keys_def)

lemma map_of_keep: "map_of (filter (\<lambda>(k, v). P k) d) k = (if P k then map_of d k else None)"
  by (induction d) auto

lemma distinct_keep: "distinct (map fst d) \<Longrightarrow> distinct (map fst (filter (\<lambda>(k, v). P k) d))"
  by (rule distinct_map_filter)

lemma distinct_without: "distinct (map fst d) \<Longrightarrow> distinct (map fst (without_keys ks d))"
  unfolding without_keys_def by (rule distinct_map_filter)

lemma distinct_persisted: "distinct (map fst u) \<Longrightarrow> distinct (map fst (persisted_state u))"
  by (simp add: persisted_state_def Let_def distinct_without distinct_update)

lemma distinct_dmerge: "distinct (map fst d) \<Longrightarrow> distinct (map fst (dmerge d e))"
  unfolding dmerge_def by (induction e arbitrary: d) (auto simp: distinct_update)

lemma persisted_other:
  "k \<noteq> ''context'' \<Longrightarrow> map_of (persisted_state u) k = (if k \<in> set runtime_only_keys then None else map_of u k)"
  by (simp add: persisted_state_def Let_def map_of_without update_conv')

lemma persisted_context:
  assumes "map_of u ''context'' = Some (PDict c)"
  shows "\<exists>d. map_of (persisted_state u) ''context'' = Some (PDict d) \<and> map_of d = (map_of c)(''runtime_context'' := None)"
proof -
  have here: "map_of (without_keys runtime_only_keys u) ''context'' = Some (PDict c)"
    using assms by (simp add: map_of_without runtime_only_keys_def)
  show ?thesis
  proof (cases "has_key c ''runtime_context''")
    case True
    then show ?thesis
      using here by (auto simp: persisted_state_def Let_def dget_map_of update_conv' map_of_without fun_eq_iff)
  next
    case False
    then show ?thesis
      using here by (auto simp: persisted_state_def Let_def dget_map_of has_key_def fun_eq_iff)
  qed
qed

lemma map_of_absorb:
  assumes "distinct (map fst p)"
  shows "map_of (absorb t p) k =
    (if k \<in> set planner_state_keys then (case map_of p k of None \<Rightarrow> map_of t k | Some v \<Rightarrow> Some v) else map_of t k)"
proof -
  have "map_of (absorb t p) k = (map_of t ++ map_of (filter (\<lambda>(k, v). k \<in> set planner_state_keys) p)) k"
    unfolding absorb_def by (simp add: map_of_dmerge [OF distinct_keep [OF assms]])
  then show ?thesis by (simp add: map_add_def map_of_keep)
qed

lemma make_store_keys: "dom (map_of (make_store request deps mode)) = set base_keys"
  by (auto simp: dom_map_of_conv_image_fst make_store_def base_keys_def)

lemma make_store_request [simp]: "map_of (make_store request deps mode) ''request'' = Some (PDict request)"
  by (simp add: make_store_def)

lemma distinct_make_store: "distinct (map fst (make_store request deps mode))"
  by (simp add: make_store_def)

lemma map_of_node_store:
  assumes "distinct (map fst t)" "k \<noteq> ''context''"
  shows "map_of (node_store request deps rc t) k =
    (if k \<in> set runtime_only_keys then map_of (make_store request deps ''planner'') k
     else case map_of t k of None \<Rightarrow> map_of (make_store request deps ''planner'') k | Some v \<Rightarrow> Some v)"
  using assms
  by (simp add: node_store_def Let_def map_of_dmerge distinct_without update_conv' map_add_def map_of_without)

lemma node_store_context:
  assumes "distinct (map fst t)" "map_of t ''context'' = Some (PDict c)"
  shows "\<exists>d. map_of (node_store request deps rc t) ''context'' = Some (PDict d) \<and>
    map_of d = (if truthy rc then (map_of c)(''runtime_context'' \<mapsto> rc) else map_of c)"
proof -
  let ?merged = "dmerge (make_store request deps ''planner'') (without_keys runtime_only_keys t)"
  have "map_of ?merged ''context'' = Some (PDict c)"
    using assms by (simp add: map_of_dmerge distinct_without map_add_def map_of_without runtime_only_keys_def)
  moreover from this have "dict_at ?merged ''context'' = c" by (simp add: dict_at_def dget_map_of py_or_def)
  ultimately show ?thesis by (simp add: node_store_def Let_def update_conv')
qed

lemma distinct_node_store: "distinct (map fst (node_store request deps rc t))"
  by (simp add: node_store_def Let_def distinct_dmerge distinct_make_store distinct_update)

text \<open>A state that stands for a store: a node run on the rebuilt store cannot tell it from the original.\<close>

definition persists :: "pydict \<Rightarrow> 'w dependencies \<Rightarrow> pyval \<Rightarrow> pydict \<Rightarrow> pydict \<Rightarrow> bool" where
  "persists request deps rc s t \<longleftrightarrow>
     distinct (map fst t) \<and> dom (map_of t) \<subseteq> set planner_state_keys \<and>
     linked request rc (dom (map_of t)) s (node_store request deps rc t) \<and>
     (\<forall>k. k \<notin> {''request'', ''context''} \<longrightarrow> dget t k = dget s k) \<and>
     map_of (as_dict (dget t ''context'')) = (map_of (as_dict (dget s ''context'')))(''runtime_context'' := None)"

lemma request_key: "''request'' \<notin> set planner_state_keys"
  by (simp add: planner_state_keys_def)

lemma declared_not_runtime: "k \<in> set planner_state_keys \<Longrightarrow> k \<notin> set runtime_only_keys"
  by (auto simp: planner_state_keys_def runtime_only_keys_def)

lemma base_declared: "set base_keys \<subseteq> insert ''request'' (set planner_state_keys)"
  by (simp add: base_keys_def planner_state_keys_def)

text \<open>Absorbing what a node left in its store gives a state that persists the store.\<close>

lemma absorbed_map:
  assumes u: "tidy request (dom (map_of t)) u" and dom: "dom (map_of t) \<subseteq> set planner_state_keys" and k: "k \<noteq> ''context''"
  shows "map_of (absorb t (persisted_state u)) k = (if k = ''request'' then None else map_of u k)"
proof -
  have distinct: "distinct (map fst (persisted_state u))" using u by (simp add: tidy_def distinct_persisted)
  have grow: "map_of t k = None" if "map_of u k = None" using u that by (auto simp: tidy_def)
  have declared: "k \<in> set planner_state_keys \<or> k = ''request''" if "map_of u k \<noteq> None"
  proof -
    have "k \<in> dom (map_of u)" using that by (simp add: domIff)
    then show ?thesis using u unfolding tidy_def by blast
  qed
  have "map_of t ''request'' = None" using dom request_key by auto
  then show ?thesis
    using grow declared dom request_key declared_not_runtime [of k]
    by (auto simp: map_of_absorb [OF distinct] persisted_other [OF k] split: option.split)
qed

lemma absorbed_context:
  assumes u: "tidy request (dom (map_of t)) u" and c: "map_of u ''context'' = Some (PDict c)"
  shows "\<exists>d. map_of (absorb t (persisted_state u)) ''context'' = Some (PDict d) \<and>
    map_of d = (map_of c)(''runtime_context'' := None)"
proof -
  have distinct: "distinct (map fst (persisted_state u))" using u by (simp add: tidy_def distinct_persisted)
  have "''context'' \<in> set planner_state_keys" by (simp add: planner_state_keys_def)
  then show ?thesis
    using persisted_context [OF c] by (auto simp: map_of_absorb [OF distinct])
qed

lemma rebuild:
  assumes l: "linked request rc (dom (map_of t)) s u" and t: "distinct (map fst t)" "dom (map_of t) \<subseteq> set planner_state_keys"
  shows "persists request deps rc s (absorb t (persisted_state u))"
proof -
  let ?t = "absorb t (persisted_state u)"
  let ?v = "node_store request deps rc ?t"
  have s: "tidy request (dom (map_of t)) s" and u: "tidy request (dom (map_of t)) u" and same: "alike s u"
    using l by (simp_all add: linked_def)
  obtain c d where c: "map_of s ''context'' = Some (PDict c)" and d: "map_of u ''context'' = Some (PDict d)"
    and cd: "map_of c = map_of d" and rc: "carries rc d"
    using l by (auto simp: linked_def alike_def dget_map_of)
  note map = absorbed_map [OF u t(2)]
  obtain e where e: "map_of ?t ''context'' = Some (PDict e)" "map_of e = (map_of d)(''runtime_context'' := None)"
    using absorbed_context [OF u d] by blast
  have distinct: "distinct (map fst ?t)" unfolding absorb_def by (rule distinct_dmerge [OF t(1)])
  have in_u: "dom (map_of u) \<subseteq> insert ''request'' (set planner_state_keys)" "set base_keys \<subseteq> dom (map_of u)"
    using u by (auto simp: tidy_def)
  have domt: "dom (map_of ?t) = dom (map_of u) - {''request''}"
  proof (rule set_eqI)
    fix k
    show "k \<in> dom (map_of ?t) \<longleftrightarrow> k \<in> dom (map_of u) - {''request''}"
      using map [of k] e(1) d by (cases "k = ''context''") (auto simp: dom_def)
  qed
  obtain f where f: "map_of ?v ''context'' = Some (PDict f)" "map_of f = map_of d"
  proof -
    obtain f where "map_of ?v ''context'' = Some (PDict f)"
      "map_of f = (if truthy rc then (map_of e)(''runtime_context'' \<mapsto> rc) else map_of e)"
      using node_store_context [OF distinct e(1)] by blast
    then show ?thesis using that e(2) rc by (simp add: carries_def fun_upd_idem)
  qed
  have v: "map_of ?v k = map_of u k" if k: "k \<noteq> ''context''" for k
  proof (cases "k = ''request''")
    case True
    then show ?thesis
      using u map_of_node_store [OF distinct k, of request deps rc] by (simp add: runtime_only_keys_def tidy_def)
  next
    case False
    then have m: "map_of ?t k = map_of u k" using map [OF k] by simp
    show ?thesis
    proof (cases "map_of u k")
      case None
      then have "k \<notin> set base_keys" using in_u(2) by auto
      then have "map_of (make_store request deps ''planner'') k = None"
        using make_store_keys [of request deps "''planner''"] by blast
      then show ?thesis using map_of_node_store [OF distinct k, of request deps rc] m None by simp
    next
      case (Some x)
      then have "k \<in> set planner_state_keys" using in_u(1) False by auto
      then show ?thesis
        using map_of_node_store [OF distinct k, of request deps rc] m Some declared_not_runtime [of k] by simp
    qed
  qed
  have domv: "dom (map_of ?v) = dom (map_of u)"
  proof (rule set_eqI)
    fix k
    show "k \<in> dom (map_of ?v) \<longleftrightarrow> k \<in> dom (map_of u)"
      using v [of k] f(1) d by (cases "k = ''context''") (auto simp: dom_def)
  qed
  have doms: "dom (map_of s) = dom (map_of u)"
  proof (rule set_eqI)
    fix k
    show "k \<in> dom (map_of s) \<longleftrightarrow> k \<in> dom (map_of u)"
      using same c d by (cases "k = ''context''") (auto simp: alike_def dom_def)
  qed
  have "alike s ?v" using same v c f cd by (auto simp: alike_def)
  moreover have "carries rc (as_dict (dget ?v ''context''))" using f rc by (simp add: dget_map_of carries_def)
  moreover have "tidy request (dom (map_of ?t)) s" using s doms domt in_u by (auto simp: tidy_def)
  moreover have "tidy request (dom (map_of ?t)) ?v"
    using v [of "''request''"] u domv domt in_u distinct_node_store by (auto simp: tidy_def)
  moreover have "dget ?t k = dget s k" if "k \<notin> {''request'', ''context''}" for k
    using that map [of k] same by (auto simp: alike_def dget_map_of)
  moreover have "map_of (as_dict (dget ?t ''context'')) = (map_of (as_dict (dget s ''context'')))(''runtime_context'' := None)"
    using e c cd by (simp add: dget_map_of)
  moreover have "dom (map_of ?t) \<subseteq> set planner_state_keys" using domt in_u(1) by auto
  ultimately show ?thesis using distinct unfolding persists_def linked_def by blast
qed

section \<open>Both engines run the same turn\<close>

text \<open>A node of the graph does to the state what it does to the store in the flow.\<close>

lemma graph_step_result:
  assumes "insensitive deps" "persists request deps rc s t" "node \<noteq> LoadContext"
    and "run_node pf name_of m deps node s w = (r, w')"
  shows "case r of Inl e \<Rightarrow> graph_step pf name_of m request deps rc node t w = (Inl e, w')
    | Inr (s', a) \<Rightarrow> \<exists>t'. graph_step pf name_of m request deps rc node t w = (Inr t', w') \<and> persists request deps rc s' t'"
proof -
  let ?u = "node_store request deps rc t"
  have l: "linked request rc (dom (map_of t)) s ?u" and t: "distinct (map fst t)" "dom (map_of t) \<subseteq> set planner_state_keys"
    using assms(2) by (simp_all add: persists_def)
  obtain q w2 where q: "run_node pf name_of m deps node ?u w = (q, w2)"
    by (cases "run_node pf name_of m deps node ?u w")
  have rel: "rel_sum (=) (rel_prod (linked request rc (dom (map_of t))) (=)) r q" "w2 = w'"
    using node_cong [OF assms(1) l assms(3), of pf name_of m w] unfolding q assms(4) by simp_all
  show ?thesis
  proof (cases r)
    case (Inl e)
    then have "q = Inl e" using rel(1) by (cases q) simp_all
    then show ?thesis using q rel(2) by (simp add: graph_step_def Inl)
  next
    case (Inr sa)
    obtain s' a where sa: "sa = (s', a)" by (cases sa)
    then obtain u' where u': "q = Inr (u', a)" "linked request rc (dom (map_of t)) s' u'"
      using rel(1) Inr by (cases q) auto
    then show ?thesis
      using q rel(2) rebuild [OF u'(2) t, where deps = deps] by (simp add: graph_step_def Inr sa)
  qed
qed

text \<open>What the caller of the engine gets to see: after a completed turn the same state (the graph leaves
  the request and the runtime context out); when the turn waits for an approval the flow has also run the
  self check, which adds its own record.\<close>

definition waiting_same :: "pydict \<Rightarrow> pydict \<Rightarrow> bool" where
  "waiting_same s t \<longleftrightarrow> dget t ''status'' = PStr ''pending_approval'' \<and>
     list_all (\<lambda>k. dget t k = dget s k)
       (filter (\<lambda>k. k \<notin> {''context'', ''self_check'', ''trace'', ''observability''}) planner_state_keys)"

definition ended_same :: "pydict \<Rightarrow> pydict \<Rightarrow> bool" where
  "ended_same s t \<longleftrightarrow>
     (\<forall>k. k \<notin> {''request'', ''context''} \<longrightarrow> dget t k = dget s k) \<and>
     map_of (as_dict (dget t ''context'')) = (map_of (as_dict (dget s ''context'')))(''runtime_context'' := None)"

definition agrees :: "(py_exn + pydict) option \<times> 'w \<Rightarrow> graph_outcome option \<times> 'w \<Rightarrow> bool" where
  "agrees x y \<longleftrightarrow> snd x = snd y \<and>
     (case fst x of
        None \<Rightarrow> False
      | Some (Inl e) \<Rightarrow> fst y = Some (Graph_Failed e)
      | Some (Inr s) \<Rightarrow>
          (case fst y of
             Some (Graph_Ended t) \<Rightarrow> ended_same s t
           | Some (Graph_Waiting t) \<Rightarrow> waiting_same s t
           | _ \<Rightarrow> False))"

lemma check_agrees:
  assumes "insensitive deps" "persists request deps rc s t"
  shows "agrees (run_flow pf name_of m deps (Suc f) SelfCheck s w)
    (run_graph pf name_of m request deps rc (Suc g) (Planner_Node SelfCheck) None t w)"
proof -
  obtain r w' where r: "run_node pf name_of m deps SelfCheck s w = (r, w')"
    by (cases "run_node pf name_of m deps SelfCheck s w")
  have step: "case r of Inl e \<Rightarrow> graph_step pf name_of m request deps rc SelfCheck t w = (Inl e, w')
    | Inr (s', a) \<Rightarrow> \<exists>t'. graph_step pf name_of m request deps rc SelfCheck t w = (Inr t', w') \<and> persists request deps rc s' t'"
    by (rule graph_step_result [OF assms _ r]) simp
  show ?thesis
  proof (cases r)
    case (Inl e)
    then show ?thesis using r step by (simp add: agrees_def)
  next
    case (Inr sa)
    then show ?thesis
      using r step by (cases sa) (auto simp: agrees_def persists_def ended_same_def)
  qed
qed

lemma pending_agrees:
  assumes "persists request deps rc s t" "is_pending s" "dget s ''status'' = PStr ''pending_approval''"
  shows "agrees (run_flow pf name_of m deps (Suc f) SelfCheck s w)
    (run_graph pf name_of m request deps rc (Suc g) Await_Approval None t w)"
proof -
  have flow: "run_flow pf name_of m deps (Suc f) SelfCheck s w = (Some (Inr (pending_check_post (name_of SelfCheck) s)), w)"
    using assms(2) by (simp add: run_node_def self_check_node_def)
  have get: "dget t k = dget s k" if "k \<noteq> ''request''" "k \<noteq> ''context''" for k
    using assms(1) that by (simp add: persists_def)
  have kept: "dget (pending_check_post (name_of SelfCheck) s) k = dget s k"
    if "k \<notin> {''self_check'', ''trace'', ''observability''}" for k
    using that by (simp add: pending_check_post_def Let_def)
  have "waiting_same (pending_check_post (name_of SelfCheck) s) t"
    unfolding waiting_same_def list_all_iff set_filter
  proof (intro conjI ballI)
    show "dget t ''status'' = PStr ''pending_approval''" using get [of "''status''"] assms(3) by simp
    fix k
    assume k: "k \<in> {k \<in> set planner_state_keys. k \<notin> {''context'', ''self_check'', ''trace'', ''observability''}}"
    then have "k \<noteq> ''request''" using request_key by blast
    with k show "dget t k = dget (pending_check_post (name_of SelfCheck) s) k"
      using get [of k] kept [of k] by simp
  qed
  then show ?thesis unfolding flow by (simp add: agrees_def)
qed

lemma think_route:
  assumes "think_node m name deps s w = (Inr (s', a), w')"
  shows "\<exists>r. dget s' ''route'' = PStr r \<and> a = think_action r"
  using assms by (auto simp: think_node_def think_post_def Let_def split: prod.splits sum.splits option.splits)

lemma execute_not_pending:
  assumes "execute_node name deps s w = (Inr (s', a), w')" "\<not> is_pending s"
  shows "a = ''pending_approval'' \<longleftrightarrow> is_pending s'"
  using execute_result [OF assms(1)] assms(2) by (auto simp: is_pending_def)

lemma loop_agrees:
  assumes "insensitive deps" "proper_routes deps"
  shows "persists request deps rc s t \<Longrightarrow> loop_count s = Some n \<Longrightarrow> \<not> is_pending s \<Longrightarrow> nat (m - n) = k \<Longrightarrow>
    2 * k + 2 \<le> f \<Longrightarrow> 2 * k + 2 \<le> g \<Longrightarrow>
    agrees (run_flow pf name_of m deps f Think s w)
      (run_graph pf name_of m request deps rc g (Planner_Node Think) None t w)"
proof (induction k arbitrary: n s t w f g rule: less_induct)
  case (less k)
  obtain f' where f: "f = Suc (Suc f')" "2 * k \<le> f'" using less.prems(5) by (cases f; cases "f - 1") auto
  obtain g' where g: "g = Suc (Suc g')" "2 * k \<le> g'" using less.prems(6) by (cases g; cases "g - 1") auto
  obtain r w1 where r: "think_node m (name_of Think) deps s w = (r, w1)" by (cases "think_node m (name_of Think) deps s w")
  have step: "case r of Inl e \<Rightarrow> graph_step pf name_of m request deps rc Think t w = (Inl e, w1)
    | Inr (s', a) \<Rightarrow> \<exists>t'. graph_step pf name_of m request deps rc Think t w = (Inr t', w1) \<and> persists request deps rc s' t'"
    by (rule graph_step_result [OF assms(1) less.prems(1)]) (simp_all add: run_node_def r)
  show ?case
  proof (cases r)
    case (Inl e)
    then show ?thesis using r step by (simp add: f g run_node_def agrees_def)
  next
    case (Inr sa)
    obtain s1 a where sa: "sa = (s1, a)" by (cases sa)
    note s1 = r [unfolded Inr sa]
    obtain t1 where t1: "graph_step pf name_of m request deps rc Think t w = (Inr t1, w1)" "persists request deps rc s1 t1"
      using step by (auto simp: Inr sa)
    note think = think_result [OF s1 assms(2) less.prems(2)]
    obtain route where route: "dget s1 ''route'' = PStr route" "a = think_action route" using think_route [OF s1] by blast
    have "dget t1 ''route'' = PStr route" using t1(2) route(1) by (simp add: persists_def)
    then have next_node: "route_after_think t1 = Planner_Node (if edge Think a = Some ExecuteTool then ExecuteTool else SelfCheck)"
      by (simp add: route_after_think_def route(2) think_action_def)
    from think(3) show ?thesis
    proof
      assume e: "edge Think a = Some SelfCheck"
      have "run_flow pf name_of m deps f Think s w = run_flow pf name_of m deps (Suc f') SelfCheck s1 w1"
        using s1 e by (simp add: f run_node_def)
      moreover have "run_graph pf name_of m request deps rc g (Planner_Node Think) None t w =
          run_graph pf name_of m request deps rc (Suc g') (Planner_Node SelfCheck) None t1 w1"
        using t1(1) next_node e by (simp add: g)
      ultimately show ?thesis using check_agrees [OF assms(1) t1(2)] by metis
    next
      assume e: "edge Think a = Some ExecuteTool \<and> n + 1 \<le> m"
      then have k: "k > 0" "nat (m - (n + 1)) = k - 1" using less.prems(4) by auto
      have flow: "run_flow pf name_of m deps f Think s w = run_flow pf name_of m deps (Suc f') ExecuteTool s1 w1"
        using s1 e by (simp add: f run_node_def)
      have graph: "run_graph pf name_of m request deps rc g (Planner_Node Think) None t w =
          run_graph pf name_of m request deps rc (Suc g') (Planner_Node ExecuteTool) None t1 w1"
        using t1(1) next_node e by (simp add: g)
      obtain q w2 where q: "execute_node (name_of ExecuteTool) deps s1 w1 = (q, w2)"
        by (cases "execute_node (name_of ExecuteTool) deps s1 w1")
      have step2: "case q of Inl e \<Rightarrow> graph_step pf name_of m request deps rc ExecuteTool t1 w1 = (Inl e, w2)
        | Inr (s', a) \<Rightarrow> \<exists>t'. graph_step pf name_of m request deps rc ExecuteTool t1 w1 = (Inr t', w2) \<and> persists request deps rc s' t'"
        by (rule graph_step_result [OF assms(1) t1(2)]) (simp_all add: run_node_def q)
      have np: "\<not> is_pending s1" using less.prems(3) think(2) by (simp add: is_pending_def)
      show ?thesis
      proof (cases q)
        case (Inl x)
        then show ?thesis using q step2 unfolding flow graph by (simp add: run_node_def agrees_def)
      next
        case (Inr sb)
        obtain s2 b where sb: "sb = (s2, b)" by (cases sb)
        note s2 = q [unfolded Inr sb]
        obtain t2 where t2: "graph_step pf name_of m request deps rc ExecuteTool t1 w1 = (Inr t2, w2)"
          "persists request deps rc s2 t2"
          using step2 by (auto simp: Inr sb)
        note exec = execute_result [OF s2]
        have pending: "is_pending t2 = (b = ''pending_approval'')"
          using execute_not_pending [OF s2 np] t2(2) by (simp add: is_pending_def persists_def)
        show ?thesis
        proof (cases "b = ''pending_approval''")
          case True
          obtain f2 g2 where fg: "f' = Suc f2" "g' = Suc g2" using f(2) g(2) k(1) by (cases f'; cases g') auto
          have "run_flow pf name_of m deps (Suc f') ExecuteTool s1 w1 = run_flow pf name_of m deps (Suc f2) SelfCheck s2 w2"
            using s2 True by (simp add: run_node_def fg)
          moreover have "run_graph pf name_of m request deps rc (Suc g') (Planner_Node ExecuteTool) None t1 w1 =
              run_graph pf name_of m request deps rc (Suc g2) Await_Approval None t2 w2"
            using t2(1) pending True by (simp add: route_after_tool_def is_pending_def fg)
          ultimately show ?thesis
            using pending_agrees [OF t2(2)] exec(3) [OF True] unfolding flow graph by metis
        next
          case False
          have "run_flow pf name_of m deps (Suc f') ExecuteTool s1 w1 = run_flow pf name_of m deps f' Think s2 w2"
            using s2 exec(2) False by (auto simp: run_node_def)
          moreover have "run_graph pf name_of m request deps rc (Suc g') (Planner_Node ExecuteTool) None t1 w1 =
              run_graph pf name_of m request deps rc g' (Planner_Node Think) None t2 w2"
            using t2(1) pending False by (simp add: route_after_tool_def is_pending_def)
          moreover have "loop_count s2 = Some (n + 1)" using exec(1) think(1) by simp
          moreover have "\<not> is_pending s2" using exec(4) [OF False] np by (simp add: is_pending_def)
          ultimately show ?thesis
            using less.IH [of "k - 1" s2 t2 "n + 1" f' g' w2] k t2(2) f(2) g(2) unfolding flow graph by simp
        qed
      qed
    qed
  qed
qed

lemma entry_step_agrees:
  assumes "insensitive deps" "persists request deps rc s t" "node = LoadSkills \<and> onward = PreGuard \<or> node = PreGuard \<and> onward = Think"
    and "\<And>s' t' w'. persists request deps rc s' t' \<Longrightarrow> same_turn s' s \<Longrightarrow>
      agrees (run_flow pf name_of m deps f onward s' w') (run_graph pf name_of m request deps rc g (Planner_Node onward) None t' w')"
  shows "agrees (run_flow pf name_of m deps (Suc f) node s w)
    (run_graph pf name_of m request deps rc (Suc g) (Planner_Node node) None t w)"
proof -
  obtain r w' where r: "run_node pf name_of m deps node s w = (r, w')" by (cases "run_node pf name_of m deps node s w")
  have step: "case r of Inl e \<Rightarrow> graph_step pf name_of m request deps rc node t w = (Inl e, w')
    | Inr (s', a) \<Rightarrow> \<exists>t'. graph_step pf name_of m request deps rc node t w = (Inr t', w') \<and> persists request deps rc s' t'"
    by (rule graph_step_result [OF assms(1,2) _ r]) (use assms(3) in auto)
  show ?thesis
  proof (cases r)
    case (Inl e)
    then show ?thesis using r step by (simp add: agrees_def)
  next
    case (Inr sa)
    obtain s' a where sa: "sa = (s', a)" by (cases sa)
    obtain t' where t': "graph_step pf name_of m request deps rc node t w = (Inr t', w')" "persists request deps rc s' t'"
      using step by (auto simp: Inr sa)
    have "node \<in> {LoadContext, LoadSkills, PreGuard}" using assms(3) by auto
    from entry_nodes [OF this r [unfolded Inr sa]] assms(3)
    have "same_turn s' s" "edge node a = Some onward" by auto
    moreover have "graph_edge (Planner_Node node) t' = Some (Planner_Node onward)" using assms(3) by auto
    ultimately show ?thesis using r t' assms(4) [OF t'(2)] by (simp add: Inr sa)
  qed
qed

lemma linked_load:
  assumes "\<And>k. k \<noteq> ''context'' \<Longrightarrow> map_of s k = map_of u k" "tidy request B s" "tidy request B u" "carries rc c"
  shows "linked request rc B (dset ''context'' (PDict c) s) (dset ''context'' (PDict c) u)"
proof -
  have "''context'' \<in> set planner_state_keys" by (simp add: planner_state_keys_def)
  then show ?thesis using assms tidy_set [of "''context''"] by (auto simp: linked_def alike_def update_conv')
qed

text \<open>The store and the state a turn starts with.\<close>

lemma start_stores:
  fixes deps :: "'w dependencies" and request :: pydict
  assumes initial: "distinct (map fst initial)" "fst ` set initial \<subseteq> set planner_state_keys"
  defines "t \<equiv> absorb [] (graph_initial_state request deps initial)"
  shows "distinct (map fst t)" "dom (map_of t) \<subseteq> set planner_state_keys"
    and "k \<noteq> ''context'' \<Longrightarrow> map_of (initial_store request deps initial) k = map_of (node_store request deps rc t) k"
    and "tidy request (dom (map_of t)) (initial_store request deps initial)"
    and "tidy request (dom (map_of t)) (node_store request deps rc t)"
proof -
  let ?ms = "make_store request deps ''planner''"
  let ?s = "initial_store request deps initial"
  let ?v = "node_store request deps rc t"
  have given: "map_of initial k = None" if "k \<notin> set planner_state_keys" for k
    using initial(2) that by (metis dom_map_of_conv_image_fst domIff subsetD)
  have s: "map_of ?s k = (case map_of initial k of None \<Rightarrow> map_of ?ms k | Some v \<Rightarrow> Some v)" for k
  proof -
    have "map_of (filter (\<lambda>(k, v). k \<noteq> ''request'' \<and> k \<noteq> ''deps'') initial) k = map_of initial k"
      unfolding map_of_keep [where P = "\<lambda>k. k \<noteq> ''request'' \<and> k \<noteq> ''deps''"]
      using given [of k] by (auto simp: planner_state_keys_def)
    moreover have "distinct (map fst (filter (\<lambda>(k, v). k \<noteq> ''request'' \<and> k \<noteq> ''deps'') initial))"
      by (rule distinct_map_filter) (rule initial(1))
    ultimately show ?thesis by (simp add: initial_store_def map_of_dmerge map_add_def)
  qed
  have g: "distinct (map fst (graph_initial_state request deps initial))"
    by (simp add: graph_initial_state_def distinct_dmerge distinct_persisted distinct_make_store)
  show d: "distinct (map fst t)" unfolding t_def absorb_def by (rule distinct_dmerge) simp
  have t: "map_of t k = (if k \<in> set planner_state_keys then map_of (graph_initial_state request deps initial) k else None)" for k
    unfolding t_def map_of_absorb [OF g] by (auto split: option.split)
  show dom: "dom (map_of t) \<subseteq> set planner_state_keys" using t by (auto split: if_splits)
  have init: "map_of (graph_initial_state request deps initial) k =
      (case map_of initial k of None \<Rightarrow> map_of (persisted_state ?ms) k | Some v \<Rightarrow> Some v)" if "k \<in> set planner_state_keys" for k
    using declared_not_runtime [OF that] initial(1)
    by (simp add: graph_initial_state_def map_of_dmerge distinct_without map_add_def map_of_without)
  have ms: "map_of ?ms k = None" if "k \<notin> set base_keys" for k using make_store_keys [of request deps "''planner''"] that by blast
  show same: "map_of ?s k = map_of ?v k" if k: "k \<noteq> ''context''" for k
  proof (cases "k \<in> set planner_state_keys")
    case True
    then have "k \<notin> set runtime_only_keys" by (rule declared_not_runtime)
    then show ?thesis
      using t [of k] init [OF True] True persisted_other [OF k, of ?ms]
      by (auto simp: s map_of_node_store [OF d k] split: option.split)
  next
    case False
    then show ?thesis using t [of k] given [of k] by (simp add: s map_of_node_store [OF d k])
  qed
  have keys: "set base_keys \<subseteq> dom (map_of ?s)" "dom (map_of ?s) \<subseteq> insert ''request'' (set planner_state_keys)"
  proof -
    show "set base_keys \<subseteq> dom (map_of ?s)"
    proof
      fix k
      assume "k \<in> set base_keys"
      then have "map_of ?ms k \<noteq> None" using make_store_keys [of request deps "''planner''"] by blast
      then show "k \<in> dom (map_of ?s)" by (simp add: s domIff split: option.split)
    qed
    have "k \<in> insert ''request'' (set planner_state_keys)" if "map_of ?s k \<noteq> None" for k
    proof (rule ccontr)
      assume k: "k \<notin> insert ''request'' (set planner_state_keys)"
      then have "map_of initial k = None" "k \<notin> set base_keys" using given base_declared by blast+
      then show False using that ms [of k] by (simp add: s)
    qed
    then show "dom (map_of ?s) \<subseteq> insert ''request'' (set planner_state_keys)" by blast
  qed
  have ctx: "map_of ?ms ''context'' \<noteq> None" by (simp add: make_store_def)
  have ts: "dom (map_of t) \<subseteq> dom (map_of ?s)"
  proof
    fix k
    assume k: "k \<in> dom (map_of t)"
    then have "k \<in> set planner_state_keys" using dom by blast
    then have "map_of initial k \<noteq> None \<or> map_of (persisted_state ?ms) k \<noteq> None"
      using k t [of k] init [of k] by (cases "map_of (persisted_state ?ms) k") (auto split: option.splits)
    then show "k \<in> dom (map_of ?s)"
      using ctx by (cases "k = ''context''") (auto simp: s persisted_other split: option.splits if_splits)
  qed
  have sr: "map_of ?s ''request'' = Some (PDict request)" using given [OF request_key] by (simp add: s)
  show "tidy request (dom (map_of t)) ?s"
    using keys ts sr
    by (simp add: tidy_def initial_store_def distinct_dmerge distinct_make_store)
  have v: "map_of ?v ''context'' \<noteq> None"
    using ctx by (simp add: node_store_def Let_def map_of_dmerge distinct_without d update_conv' map_add_def split: option.split)
  have "dom (map_of ?v) = dom (map_of ?s)"
  proof (rule set_eqI)
    fix k
    show "k \<in> dom (map_of ?v) \<longleftrightarrow> k \<in> dom (map_of ?s)"
      using same [of k] v ctx by (cases "k = ''context''") (auto simp: domIff s split: option.splits)
  qed
  then show "tidy request (dom (map_of t)) ?v"
    using keys ts sr same [of "''request''"] distinct_node_store by (simp add: tidy_def)
qed

text \<open>C6: The two engines run the same turn. Whatever the model, the tools and the loaders do, the run of
  the planner flow and the run of the graph call the same parts in the same order (the world they leave
  is the same) and end in the same way: with the same exception, with the same final state but for the
  request and the runtime context that the graph does not persist, or waiting for the same approval. The
  parts may not depend on the order of dictionary keys, the loaded context carries the runtime context
  the engine was given, and the graph's step limit is not below \<open>2 * rounds + 5\<close>.\<close>

theorem engines_agree:
  assumes "insensitive deps" "proper_routes deps"
    and loader: "\<And>r w c w'. dep_load_context deps r w = (Inr c, w') \<Longrightarrow> carries rc c"
    and initial: "distinct (map fst initial)" "fst ` set initial \<subseteq> set planner_state_keys"
    and start: "\<not> is_pending (initial_store request deps initial)"
      "loop_count (initial_store request deps initial) = Some n" "0 \<le> n"
    and limit: "2 * nat (m - n) + 5 \<le> limit"
  shows "agrees (run_agent pf name_of m deps request initial w) (graph_start pf name_of m limit deps request initial rc w)"
proof -
  let ?s = "initial_store request deps initial"
  define t where "t = absorb [] (graph_initial_state request deps initial)"
  let ?u = "node_store request deps rc t"
  let ?post = "\<lambda>c s. append_trace (name_of LoadContext) ''ok'' [] (dset ''context'' (PDict c) s)"
  note stores = start_stores [OF initial, where request = request and deps = deps, folded t_def]
  obtain g where g: "limit = Suc (Suc (Suc g))" "2 * nat (m - n) + 2 \<le> g"
    using limit by (cases limit; cases "limit - 1"; cases "limit - 2") auto
  have steps: "2 * nat (m - n) + 5 \<le> max_steps m" using start(3) by (auto simp: max_steps_def max_def)
  obtain f where f: "max_steps m = Suc (Suc (Suc f))" "2 * nat (m - n) + 2 \<le> f"
    using steps by (cases "max_steps m"; cases "max_steps m - 1"; cases "max_steps m - 2") auto
  have request: "dget ?s ''request'' = PDict request" "dget ?u ''request'' = PDict request"
    using stores(4,5) by (simp_all add: tidy_def dget_map_of)
  obtain r w1 where r: "dep_load_context deps request w = (r, w1)" by (cases "dep_load_context deps request w")
  show ?thesis
  proof (cases r)
    case (Inl e)
    then show ?thesis
      using r request
      by (simp add: run_agent_def graph_start_def t_def [symmetric] f(1) g(1) run_node_def load_context_node_def
          graph_step_def agrees_def)
  next
    case (Inr c)
    have l: "linked request rc (dom (map_of t)) (?post c ?s) (?post c ?u)"
    proof (rule linked_trace, rule linked_load)
      show "carries rc c" using loader r Inr by simp
    qed (use stores(3-5) in simp_all)
    let ?t1 = "absorb t (persisted_state (?post c ?u))"
    have p: "persists request deps rc (?post c ?s) ?t1" by (rule rebuild [OF l stores(1,2)])
    have flow: "run_agent pf name_of m deps request initial w =
        run_flow pf name_of m deps (Suc (Suc f)) LoadSkills (?post c ?s) w1"
      using r request by (simp add: run_agent_def f(1) run_node_def load_context_node_def Inr)
    have graph: "graph_start pf name_of m limit deps request initial rc w =
        run_graph pf name_of m request deps rc (Suc (Suc g)) (Planner_Node LoadSkills) None ?t1 w1"
      using r request
      by (simp add: graph_start_def t_def [symmetric] g(1) run_node_def load_context_node_def graph_step_def Inr)
    have turn: "same_turn (?post c ?s) ?s" by (auto simp: same_turn_def intro: loop_count_cong)
    have think: "agrees (run_flow pf name_of m deps f Think s' w')
        (run_graph pf name_of m request deps rc g (Planner_Node Think) None t' w')"
      if "persists request deps rc s' t'" "same_turn s' ?s" for s' t' w'
      using that start(1,2) f(2) g(2)
      by (intro loop_agrees [OF assms(1,2) that(1) _ _ refl]) (simp_all add: same_turn_def is_pending_def)
    have trans: "same_turn a b \<Longrightarrow> same_turn b d \<Longrightarrow> same_turn a d" for a b d by (simp add: same_turn_def)
    have guard: "agrees (run_flow pf name_of m deps (Suc f) PreGuard s' w')
        (run_graph pf name_of m request deps rc (Suc g) (Planner_Node PreGuard) None t' w')"
      if "persists request deps rc s' t'" "same_turn s' ?s" for s' t' w'
      by (rule entry_step_agrees [OF assms(1) that(1), where onward = Think]) (use think trans that(2) in auto)
    show ?thesis
      unfolding flow graph
      by (rule entry_step_agrees [OF assms(1) p, where onward = PreGuard]) (use guard trans turn in auto)
  qed
qed

text \<open>A turn of two rounds, a read tool and an answer, over a world that counts the calls.\<close>

definition two_rounds :: "nat dependencies" where
  "two_rounds = small_batches\<lparr>
     dep_load_context := \<lambda>r w. (Inr [(''runtime_context'', PDict [(''tools'', PList [])])], w),
     dep_think := \<lambda>s w. (if dget s ''loop_count'' = PInt 0 then (Inr stubborn_decision, w)
       else (Inr (say ''answer'' ''five'' None), w))\<rparr>"

theorem engines_agree_witness:
  "agrees (run_agent clock (\<lambda>n. ''node'') 3 two_rounds [(''query'', PStr ''stock'')] [] 0)
    (graph_start clock (\<lambda>n. ''node'') 3 11 two_rounds [(''query'', PStr ''stock'')] [] (PDict [(''tools'', PList [])]) 0)"
proof (rule engines_agree)
  show "insensitive two_rounds"
  proof -
    have "dget s k = dget t k" if "alike s t" "k \<noteq> ''context''" for s t k
      using that by (simp add: alike_def dget_map_of)
    then have "default_self_check s = default_self_check t" "dget s ''loop_count'' = dget t ''loop_count''"
      if "alike s t" for s t using that by (simp_all add: default_self_check_def)
    then show ?thesis by (auto simp: insensitive_def two_rounds_def small_batches_def stubborn_def)
  qed
  show "proper_routes two_rounds"
    by (simp add: proper_routes_def two_rounds_def small_batches_def stubborn_decision_def say_def routes_def)
  show "\<And>r w c w'. dep_load_context two_rounds r w = (Inr c, w') \<Longrightarrow> carries (PDict [(''tools'', PList [])]) c"
    by (auto simp: two_rounds_def carries_def)
  show "loop_count (initial_store [(''query'', PStr ''stock'')] two_rounds []) = Some 0"
    by (simp add: initial_store_def dmerge_def make_store_def)
  show "\<not> is_pending (initial_store [(''query'', PStr ''stock'')] two_rounds [])"
    by (simp add: initial_store_def dmerge_def make_store_def is_pending_def)
qed simp_all

section \<open>Resuming a rejected approval\<close>

lemma get_absorbed:
  assumes "distinct (map fst u)" "k \<in> set planner_state_keys" "k \<noteq> ''context''" "map_of u k = Some v"
  shows "map_of (absorb t (persisted_state u)) k = Some v"
  using assms declared_not_runtime [OF assms(2)]
  by (simp add: map_of_absorb [OF distinct_persisted] persisted_other)

lemma get_node_store:
  assumes "distinct (map fst t)" "k \<in> set planner_state_keys" "k \<noteq> ''context''" "map_of t k = Some v"
  shows "map_of (node_store request deps rc t) k = Some v"
  using assms declared_not_runtime [OF assms(2)] by (simp add: map_of_node_store)

lemma py_str_not_Nil: "truthy v \<Longrightarrow> py_str v \<noteq> []"
  by (cases v) (simp_all add: float_text_def Let_def)

text \<open>The state after \<open>await_approval\<close> with a payload that does not approve.\<close>

lemma await_rejected:
  assumes saved: "distinct (map fst saved)" and rejected: "py_str (py_or (dget payload ''decision'') (PStr ''rejected'')) \<noteq> ''approved''"
  defines "t \<equiv> absorb saved (await_approval (PDict payload) saved)"
  shows "distinct (map fst t)" "map_of t ''status'' = Some (PStr ''running'')" "map_of t ''route'' = Some (PStr ''answer'')"
    and "map_of t ''approval_requests'' = Some (PList [])"
    and "map_of t ''tool_observations'' = Some (PList (resumed_observations payload saved))"
    and "\<exists>a. map_of t ''answer'' = Some (PStr a) \<and> a \<noteq> [] \<and>
      (truthy (dget payload ''answer'') \<longrightarrow> a = py_str (dget payload ''answer''))"
proof -
  define a where "a = py_str (py_or (dget payload ''answer'') (PStr ''the approval was rejected, the tool is not executed''))"
  define u where "u = dset ''answer'' (PStr a) (dset ''route'' (PStr ''answer'')
      (dset ''status'' (PStr ''running'')
        (dset ''approval_requests'' (PList [])
          (dset ''tool_observations'' (PList (resumed_observations payload saved)) saved))))"
  have t: "t = absorb saved u"
    unfolding t_def await_approval_def Let_def u_def a_def using rejected by simp
  have u: "distinct (map fst u)" unfolding u_def by (intro distinct_update saved)
  have get: "map_of t k = Some v" if "map_of u k = Some v" "k \<in> set planner_state_keys" for k v
    using that by (simp add: t map_of_absorb [OF u])
  show "distinct (map fst t)" unfolding t absorb_def by (rule distinct_dmerge [OF saved])
  show "map_of t ''status'' = Some (PStr ''running'')" "map_of t ''route'' = Some (PStr ''answer'')"
    "map_of t ''approval_requests'' = Some (PList [])"
    "map_of t ''tool_observations'' = Some (PList (resumed_observations payload saved))"
    by (rule get; simp add: u_def update_conv' planner_state_keys_def)+
  have "map_of t ''answer'' = Some (PStr a)" by (rule get; simp add: u_def update_conv' planner_state_keys_def)
  moreover have "a \<noteq> []" unfolding a_def by (rule py_str_not_Nil) (simp add: py_or_def)
  moreover have "truthy (dget payload ''answer'') \<Longrightarrow> a = py_str (dget payload ''answer'')" by (simp add: a_def py_or_def)
  ultimately show "\<exists>a. map_of t ''answer'' = Some (PStr a) \<and> a \<noteq> [] \<and>
      (truthy (dget payload ''answer'') \<longrightarrow> a = py_str (dget payload ''answer''))" by blast
qed

text \<open>Resuming the graph with anything but an approval calls no part of the turn: the world is
  unchanged, no model is asked and no tool runs. The turn is completed with the answer of the payload (or
  the standard text), nothing waits for an approval any more, and the observation of the rejection is
  appended to the earlier ones.\<close>

theorem rejected_resume_ends:
  assumes check: "\<And>s w. dep_self_check deps s w = (Inr (default_self_check s), w)"
    and rejected: "py_str (py_or (dget payload ''decision'') (PStr ''rejected'')) \<noteq> ''approved''"
    and saved: "distinct (map fst saved)" and limit: "2 \<le> limit"
  shows "\<exists>t a. graph_resume pf name_of m limit deps request payload rc saved w = (Some (Graph_Ended t), w) \<and>
    dget t ''status'' = PStr ''completed'' \<and> dget t ''route'' = PStr ''answer'' \<and>
    dget t ''answer'' = PStr a \<and> a \<noteq> [] \<and> (truthy (dget payload ''answer'') \<longrightarrow> a = py_str (dget payload ''answer'')) \<and>
    dget t ''approval_requests'' = PList [] \<and>
    dget t ''tool_observations'' = PList (resumed_observations payload saved)"
proof -
  obtain g where g: "limit = Suc (Suc g)" using limit by (cases limit; cases "limit - 1") auto
  define t where "t = absorb saved (await_approval (PDict payload) saved)"
  note await = await_rejected [OF saved rejected, folded t_def]
  obtain a where a: "map_of t ''answer'' = Some (PStr a)" "a \<noteq> []"
    "truthy (dget payload ''answer'') \<longrightarrow> a = py_str (dget payload ''answer'')"
    using await(6) by blast
  let ?u = "node_store request deps rc t"
  define v where "v = check_post (name_of SelfCheck) (default_self_check ?u) ?u"
  have known: "''status'' \<in> set planner_state_keys" "''route'' \<in> set planner_state_keys"
    "''answer'' \<in> set planner_state_keys" "''approval_requests'' \<in> set planner_state_keys"
    "''tool_observations'' \<in> set planner_state_keys" by (simp_all add: planner_state_keys_def)
  have u: "dget ?u ''status'' = PStr ''running''" "dget ?u ''answer'' = PStr a"
    using get_node_store [OF await(1) known(1) _ await(2), where request = request and deps = deps and rc = rc]
      get_node_store [OF await(1) known(3) _ a(1), where request = request and deps = deps and rc = rc]
    by (simp_all add: dget_map_of)
  have check_u: "default_self_check ?u = \<lparr>sc_passed = True, sc_reason = None, sc_revised_answer = None\<rparr>"
    using u(2) a(2) by (simp add: default_self_check_def)
  have step: "graph_step pf name_of m request deps rc SelfCheck t w = (Inr (absorb t (persisted_state v)), w)"
    using u(1) by (simp add: graph_step_def run_node_def self_check_node_def is_pending_def check v_def)
  have run: "graph_resume pf name_of m limit deps request payload rc saved w = (Some (Graph_Ended (absorb t (persisted_state v))), w)"
    using await(3) step
    by (simp add: graph_resume_def g Let_def t_def [symmetric] route_after_approval_def dget_map_of)
  have distinct: "distinct (map fst v)"
    unfolding v_def check_post_def check_u Let_def append_trace_def append_observability_def
    by (simp add: distinct_update distinct_node_store)
  have v: "map_of v k = map_of ?u k" if "k \<notin> {''status'', ''self_check'', ''trace'', ''observability''}" for k
    using that by (simp add: v_def check_post_def check_u Let_def append_trace_def append_observability_def update_conv')
  have status: "map_of v ''status'' = Some (PStr ''completed'')"
    by (simp add: v_def check_post_def check_u Let_def append_trace_def append_observability_def update_conv')
  have get: "dget (absorb t (persisted_state v)) k = x"
    if "map_of t k = Some x" "k \<in> set planner_state_keys" "k \<notin> {''context'', ''status'', ''self_check'', ''trace'', ''observability''}" for k x
    using that v [of k] get_node_store [OF await(1) that(2), of x request deps rc] get_absorbed [OF distinct that(2), of x t]
    by (simp add: dget_map_of)
  have "dget (absorb t (persisted_state v)) ''status'' = PStr ''completed''"
    using get_absorbed [OF distinct known(1) _ status, of t] by (simp add: dget_map_of)
  moreover have "dget (absorb t (persisted_state v)) ''route'' = PStr ''answer''" by (rule get [OF await(3) known(2)]) simp
  moreover have "dget (absorb t (persisted_state v)) ''answer'' = PStr a" by (rule get [OF a(1) known(3)]) simp
  moreover have "dget (absorb t (persisted_state v)) ''approval_requests'' = PList []"
    by (rule get [OF await(4) known(4)]) simp
  moreover have "dget (absorb t (persisted_state v)) ''tool_observations'' = PList (resumed_observations payload saved)"
    by (rule get [OF await(5) known(5)]) simp
  ultimately show ?thesis using run a by blast
qed

theorem rejected_resume_ends_witness:
  "\<exists>t a. graph_resume clock (\<lambda>n. ''node'') 3 25 two_rounds [] [(''decision'', PStr ''rejected''), (''answer'', PStr ''no'')]
      PNone [(''status'', PStr ''pending_approval'')] 4 = (Some (Graph_Ended t), 4) \<and>
    dget t ''status'' = PStr ''completed'' \<and> dget t ''route'' = PStr ''answer'' \<and>
    dget t ''answer'' = PStr a \<and> a \<noteq> [] \<and>
    (truthy (dget [(''decision'', PStr ''rejected''), (''answer'', PStr ''no'')] ''answer'') \<longrightarrow>
      a = py_str (dget [(''decision'', PStr ''rejected''), (''answer'', PStr ''no'')] ''answer'')) \<and>
    dget t ''approval_requests'' = PList [] \<and>
    dget t ''tool_observations'' = PList (resumed_observations
      [(''decision'', PStr ''rejected''), (''answer'', PStr ''no'')] [(''status'', PStr ''pending_approval'')])"
  by (rule rejected_resume_ends)
    (simp_all add: two_rounds_def small_batches_def stubborn_def py_or_def)

end
