(* ===== verification/Tool_Adapters.thy ===== *)
theory Tool_Adapters
  imports Tool_Executor
begin

text \<open>
  The tools of a runtime context (\<open>tool_adapters.py\<close>): the executor built from their manifests, the
  check of arguments against a JSON schema, the dispatch to a local handler or an MCP server, and the
  settings of an MCP connection. The call of an MCP server, the hash of a connection and the state
  handed to local tools are parameters.
\<close>

definition adapter_error :: "string \<Rightarrow> py_exn" where
  "adapter_error s = exn ''ToolAdapterError'' s"

section \<open>The check of arguments against a JSON schema\<close>

text \<open>The Python types behind a JSON type; \<open>None\<close> is a type the check does not know.\<close>

definition json_types :: "string \<Rightarrow> py_type list option" where
  "json_types t = map_of
     [(''string'', [TStr]), (''integer'', [TInt]), (''number'', [TInt, TFloat]), (''boolean'', [TBool]),
      (''object'', [TDict]), (''array'', [TList])] t"

definition is_bool :: "pyval \<Rightarrow> bool" where
  "is_bool v \<longleftrightarrow> (case v of PBool b \<Rightarrow> True | _ \<Rightarrow> False)"

definition validate_json_type :: "string \<Rightarrow> string \<Rightarrow> pyval \<Rightarrow> string \<Rightarrow> py_exn option" where
  "validate_json_type tool_id key v json_type =
     (case json_types json_type of
        None \<Rightarrow> None
      | Some expected \<Rightarrow>
          if json_type = ''integer'' \<and> is_bool v
            then Some (adapter_error (''tool '' @ tool_id @ '' arg '' @ key @ '' expects integer''))
          else if json_type = ''number'' \<and> is_bool v
            then Some (adapter_error (''tool '' @ tool_id @ '' arg '' @ key @ '' expects number''))
          else if \<not> list_ex (has_type v) expected
            then Some (adapter_error (''tool '' @ tool_id @ '' arg '' @ key @ '' expects '' @ json_type))
          else None)"

text \<open>The first exception of a loop over checks.\<close>

fun first_error :: "('a \<Rightarrow> py_exn option) \<Rightarrow> 'a list \<Rightarrow> py_exn option" where
  "first_error f [] = None"
| "first_error f (x # xs) = (case f x of Some e \<Rightarrow> Some e | None \<Rightarrow> first_error f xs)"

definition check_required :: "string \<Rightarrow> pydict \<Rightarrow> pyval \<Rightarrow> py_exn option" where
  "check_required tool_id args key =
     (if is_str key \<and> \<not> has_key args (py_str key)
      then Some (adapter_error (''tool '' @ tool_id @ '' missing required arg: '' @ py_str key)) else None)"

definition check_property :: "string \<Rightarrow> pydict \<Rightarrow> string \<times> pyval \<Rightarrow> py_exn option" where
  "check_property tool_id properties arg =
     (case arg of (key, v) \<Rightarrow>
        let prop = dget properties key
        in if is_dict prop \<and> is_str (dget (as_dict prop) ''type'')
           then validate_json_type tool_id key v (py_str (dget (as_dict prop) ''type'')) else None)"

definition validate_json_schema_args :: "string \<Rightarrow> pyval \<Rightarrow> pydict \<Rightarrow> py_exn option" where
  "validate_json_schema_args tool_id schema args =
     (if \<not> is_dict schema \<or> \<not> truthy schema then None
      else case first_error (check_required tool_id args) (as_list (dget (as_dict schema) ''required'')) of
             Some e \<Rightarrow> Some e
           | None \<Rightarrow>
               if \<not> is_dict (dget (as_dict schema) ''properties'') then None
               else first_error (check_property tool_id (as_dict (dget (as_dict schema) ''properties''))) args)"

section \<open>MCP connections\<close>

definition mcp_prefixes :: "string list" where
  "mcp_prefixes = [''mcp+http://'', ''mcp+https://'', ''mcp+stdio://'']"

definition is_mcp_runner_tool_id :: "string \<Rightarrow> bool" where
  "is_mcp_runner_tool_id rid \<longleftrightarrow> list_ex (starts_with rid) mcp_prefixes"

definition is_mcp_tool :: "pydict \<Rightarrow> bool" where
  "is_mcp_tool tool \<longleftrightarrow>
     is_dict (dget tool ''mcp_connection'') \<or> is_mcp_runner_tool_id (text_or_empty (dget tool ''runner_tool_id''))"

definition mcp_connection_id :: "pydict \<Rightarrow> string" where
  "mcp_connection_id tool =
     (let connection = dget tool ''mcp_connection''
      in if is_dict connection \<and> truthy (dget (as_dict connection) ''connection_id'')
         then py_str (dget (as_dict connection) ''connection_id'')
         else text_or_empty (py_or (dget tool ''mcp_connection_id'') (dget tool ''runner_tool_id'')))"

text \<open>\<open>digest\<close> is the hash of the serialized connection, used when it has no hash of its own.\<close>

definition mcp_connection_cache_key :: "(pydict \<Rightarrow> string) \<Rightarrow> pydict \<Rightarrow> string" where
  "mcp_connection_cache_key digest tool =
     (if \<not> is_dict (dget tool ''mcp_connection'') then text_or_empty (dget tool ''runner_tool_id'')
      else
        let connection = as_dict (dget tool ''mcp_connection'');
            own = text_or_empty (dget connection ''config_hash'');
            config_hash = (if own = [] then digest connection else own)
        in mcp_connection_id tool @ '':'' @ config_hash @ '':'' @
           py_str (py_or (dget connection ''config_version'') (PStr ''0'')) @ '':'' @
           py_str (py_or (dget connection ''credential_version'') (PStr ''0'')))"

definition mcp_connection_config :: "pydict \<Rightarrow> pydict" where
  "mcp_connection_config tool = as_dict (dget (as_dict (dget tool ''mcp_connection'')) ''config'')"

text \<open>\<open>isinstance(v, (int, float)) and v > 0\<close>; a boolean is an \<open>int\<close>.\<close>

definition positive :: "pyval \<Rightarrow> rat option" where
  "positive v = (case py_num v of None \<Rightarrow> None | Some q \<Rightarrow> if q > 0 then Some q else None)"

definition mcp_connect_timeout_seconds :: "pydict \<Rightarrow> rat" where
  "mcp_connect_timeout_seconds tool =
     (case positive (dget (mcp_connection_config tool) ''connect_timeout_ms'') of None \<Rightarrow> 10 | Some q \<Rightarrow> q / 1000)"

definition mcp_idle_ttl_seconds :: "pydict \<Rightarrow> rat \<Rightarrow> rat" where
  "mcp_idle_ttl_seconds tool fallback =
     (case positive (dget (mcp_connection_config tool) ''idle_ttl_seconds'') of None \<Rightarrow> fallback | Some q \<Rightarrow> q)"

definition mcp_discovery_ttl_seconds :: "pydict \<Rightarrow> rat \<Rightarrow> rat" where
  "mcp_discovery_ttl_seconds tool fallback =
     (case positive (dget (mcp_connection_config tool) ''discovery_ttl_seconds'') of None \<Rightarrow> fallback | Some q \<Rightarrow> q)"

definition tool_timeout_seconds :: "pydict \<Rightarrow> rat" where
  "tool_timeout_seconds tool =
     (case positive (py_or (dget tool ''timeout_seconds'') (dget tool ''timeout'')) of
        Some q \<Rightarrow> q
      | None \<Rightarrow>
          (case positive (dget tool ''timeout_ms'') of
             Some q \<Rightarrow> q / 1000
           | None \<Rightarrow>
               (case positive (dget (mcp_connection_config tool) ''call_timeout_ms'') of
                  Some q \<Rightarrow> q / 1000
                | None \<Rightarrow> 30)))"

section \<open>The executor of a runtime context\<close>

definition runtime_tools :: "pydict \<Rightarrow> py_exn + pydict list" where
  "runtime_tools ctx =
     (let tools = py_or (dget ctx ''tools'') (PList [])
      in if \<not> is_list tools then Inl (adapter_error ''the tools of the runtime context are invalid'')
         else Inr (filter (\<lambda>t. truthy (dget t ''tool_id'')) (map as_dict (filter is_dict (as_list tools)))))"

text \<open>Local handlers get the tool state and the manifest with the state; \<open>call_mcp\<close> calls a server.\<close>

type_synonym 'w mcp_call = "pydict \<Rightarrow> pydict \<Rightarrow> pydict \<Rightarrow> 'w \<Rightarrow> (py_exn + pyval) \<times> 'w"

definition execute_tool_manifest ::
  "'w runner_registry \<Rightarrow> 'w mcp_call \<Rightarrow> pydict \<Rightarrow> pydict \<Rightarrow> pydict \<Rightarrow> pydict \<Rightarrow> 'w \<Rightarrow> (py_exn + pyval) \<times> 'w" where
  "execute_tool_manifest reg call_mcp tool_state tool args state w =
     (case validate_json_schema_args (get_text tool ''tool_id'') (dget tool ''input_schema'') args of
        Some e \<Rightarrow> (Inl e, w)
      | None \<Rightarrow>
          let rid = py_str (py_or (dget tool ''runner_tool_id'') (PStr (''local.'' @ get_text tool ''tool_id'')))
          in if starts_with rid ''local.''
             then (case get_tool reg rid of
                     Inl e \<Rightarrow> (Inl e, w)
                   | Inr t \<Rightarrow> lt_handler t args
                       (dset ''_current_tool'' (PDict tool) (dset ''_tool_runtime'' (PDict tool_state) state)) w)
             else if is_dict (dget tool ''mcp_connection'') \<or> is_mcp_runner_tool_id rid then call_mcp tool args state w
             else (Inl (adapter_error (''unsupported runner_tool_id: '' @ rid)), w))"

definition tool_spec_from_config ::
  "'w runner_registry \<Rightarrow> 'w mcp_call \<Rightarrow> pydict \<Rightarrow> pydict \<Rightarrow> 'w tool_spec" where
  "tool_spec_from_config reg call_mcp tool_state tool =
     (let tool_id = get_text tool ''tool_id''
      in \<lparr>ts_name = tool_id,
          ts_description = py_str (py_or (py_or (dget tool ''description'') (dget tool ''name'')) (PStr tool_id)),
          ts_input_schema = [],
          ts_handler = (\<lambda>args state. execute_tool_manifest reg call_mcp tool_state tool args state),
          ts_max_retries = 1, ts_retry_delay = 0,
          ts_metadata =
            \<lparr>read_only = truthy (dget_or tool ''read_only'' (PBool True)),
             parallel_safe = truthy (dget_or tool ''parallel_safe'' (PBool True)),
             idempotent = truthy (dget_or tool ''idempotent'' (PBool True)),
             side_effects = py_str (py_or (dget tool ''side_effect_level'') (PStr ''unspecified''))\<rparr>,
          ts_json_schema = (if is_dict (dget tool ''input_schema'') then dget tool ''input_schema'' else PNone)\<rparr>)"

fun register_all :: "('a \<Rightarrow> 'w tool_spec) \<Rightarrow> 'a list \<Rightarrow> 'w executor \<Rightarrow> py_exn + 'w executor" where
  "register_all spec_of [] ex = Inr ex"
| "register_all spec_of (t # ts) ex =
     (case register ex (spec_of t) of Inl e \<Rightarrow> Inl e | Inr ex' \<Rightarrow> register_all spec_of ts ex')"

definition build_runtime_tool_executor ::
  "'w runner_registry \<Rightarrow> 'w mcp_call \<Rightarrow> pydict \<Rightarrow> pydict \<Rightarrow> py_exn + 'w executor" where
  "build_runtime_tool_executor reg call_mcp tool_state ctx =
     (case runtime_tools ctx of
        Inl e \<Rightarrow> Inl e
      | Inr tools \<Rightarrow> register_all (tool_spec_from_config reg call_mcp tool_state) tools
          \<lparr>ex_tools = [], before_call = [], after_call = [], on_error = []\<rparr>)"

text \<open>\<open>warmup_runtime_mcp_clients\<close>: each connection once; a server that fails is reported.\<close>

fun warmup_tools ::
  "(pydict \<Rightarrow> string) \<Rightarrow> (pydict \<Rightarrow> 'w \<Rightarrow> (py_exn + pydict) \<times> 'w) \<Rightarrow> pydict list \<Rightarrow> string list \<Rightarrow> pydict \<Rightarrow> 'w \<Rightarrow>
   pydict \<times> 'w" where
  "warmup_tools digest warmup [] warmed results w = (results, w)"
| "warmup_tools digest warmup (tool # tools) warmed results w =
     (let key = mcp_connection_cache_key digest tool
      in if \<not> is_mcp_tool tool \<or> key \<in> set warmed then warmup_tools digest warmup tools warmed results w
         else
           let rid = text_or_empty (dget tool ''runner_tool_id'');
               tool_id = py_str (py_or (dget tool ''tool_id'') (PStr rid));
               (r, w') = warmup tool w;
               entry = (case r of
                  Inr d \<Rightarrow> d
                | Inl e \<Rightarrow>
                    [(''status'', PStr ''error''), (''runner_tool_id'', PStr rid),
                     (''connection_id'', PStr (mcp_connection_id tool)), (''error'', PStr (exn_text e))])
           in warmup_tools digest warmup tools (key # warmed) (dset tool_id (PDict entry) results) w')"

definition warmup_runtime_mcp_clients ::
  "(pydict \<Rightarrow> string) \<Rightarrow> (pydict \<Rightarrow> 'w \<Rightarrow> (py_exn + pydict) \<times> 'w) \<Rightarrow> pydict \<Rightarrow> 'w \<Rightarrow> (py_exn + pydict) \<times> 'w" where
  "warmup_runtime_mcp_clients digest warmup ctx w =
     (case runtime_tools ctx of
        Inl e \<Rightarrow> (Inl e, w)
      | Inr tools \<Rightarrow> (case warmup_tools digest warmup tools [] [] w of (r, w') \<Rightarrow> (Inr r, w')))"

section \<open>Properties\<close>

text \<open>What a schema accepts, stated without the order of the checks.\<close>

definition conforms :: "string \<Rightarrow> pyval \<Rightarrow> bool" where
  "conforms t v \<longleftrightarrow>
     (t = ''string'' \<longrightarrow> is_str v) \<and> (t = ''object'' \<longrightarrow> is_dict v) \<and> (t = ''array'' \<longrightarrow> is_list v) \<and>
     (t = ''boolean'' \<longrightarrow> is_bool v) \<and>
     (t = ''integer'' \<longrightarrow> (\<exists>i. v = PInt i)) \<and>
     (t = ''number'' \<longrightarrow> (\<exists>i. v = PInt i) \<or> (\<exists>r. v = PFloat r))"

definition declared_type :: "pydict \<Rightarrow> string \<Rightarrow> string option" where
  "declared_type schema key =
     (case dget (as_dict (dget (as_dict (dget schema ''properties'')) key)) ''type'' of PStr t \<Rightarrow> Some t | _ \<Rightarrow> None)"

definition schema_accepts :: "pyval \<Rightarrow> pydict \<Rightarrow> bool" where
  "schema_accepts schema args \<longleftrightarrow>
     (\<forall>key. PStr key \<in> set (as_list (dget (as_dict schema) ''required'')) \<longrightarrow> has_key args key) \<and>
     (\<forall>key v t. (key, v) \<in> set args \<longrightarrow> declared_type (as_dict schema) key = Some t \<longrightarrow> conforms t v)"

lemma first_error_None: "first_error f xs = None \<longleftrightarrow> list_all (\<lambda>x. f x = None) xs"
  by (induction xs) (auto split: option.split)

lemma first_error_adapter:
  "(\<And>x e. f x = Some e \<Longrightarrow> \<exists>msg. e = adapter_error msg) \<Longrightarrow> first_error f xs = Some e \<Longrightarrow> \<exists>msg. e = adapter_error msg"
  by (induction xs) (auto split: option.splits)

lemma validate_type_iff: "validate_json_type tool_id key v t = None \<longleftrightarrow> conforms t v"
proof -
  have types: "json_types t = (if t = ''string'' then Some [TStr] else if t = ''integer'' then Some [TInt]
      else if t = ''number'' then Some [TInt, TFloat] else if t = ''boolean'' then Some [TBool]
      else if t = ''object'' then Some [TDict] else if t = ''array'' then Some [TList] else None)"
    by (simp add: json_types_def)
  show ?thesis
    unfolding validate_json_type_def types conforms_def
    by (cases v) (simp_all add: is_bool_def)
qed

lemma validate_type_adapter: "validate_json_type tool_id key v t = Some e \<Longrightarrow> \<exists>msg. e = adapter_error msg"
  by (auto simp: validate_json_type_def split: option.splits if_splits)

lemma is_str_ex: "is_str v \<longleftrightarrow> (\<exists>s. v = PStr s)"
  by (cases v) simp_all

lemma check_property_iff:
  "check_property tool_id (as_dict (dget schema ''properties'')) (key, v) = None \<longleftrightarrow>
     (\<forall>t. declared_type schema key = Some t \<longrightarrow> conforms t v)"
proof (cases "dget (as_dict (dget schema ''properties'')) key")
  case (PDict d)
  show ?thesis
    by (cases "dget d ''type''")
      (simp_all add: check_property_def declared_type_def PDict validate_type_iff)
qed (simp_all add: check_property_def declared_type_def)

lemma validate_schema_iff: "validate_json_schema_args tool_id schema args = None \<longleftrightarrow> schema_accepts schema args"
proof (cases "is_dict schema \<and> truthy schema")
  case False
  then have "as_dict schema = []" by (cases schema) simp_all
  then show ?thesis using False by (auto simp: validate_json_schema_args_def schema_accepts_def declared_type_def)
next
  case True
  let ?props = "dget (as_dict schema) ''properties''"
  have required: "first_error (check_required tool_id args) ks = None \<longleftrightarrow> (\<forall>key. PStr key \<in> set ks \<longrightarrow> has_key args key)" for ks
    by (auto simp: first_error_None list_all_iff check_required_def is_str_ex)
  have properties: "first_error (check_property tool_id (as_dict ?props)) args = None \<longleftrightarrow>
      (\<forall>key v t. (key, v) \<in> set args \<longrightarrow> declared_type (as_dict schema) key = Some t \<longrightarrow> conforms t v)"
    using check_property_iff [of tool_id "as_dict schema"] by (auto simp: first_error_None list_all_iff)
  have untyped: "\<not> is_dict ?props \<Longrightarrow> declared_type (as_dict schema) key = None" for key
    by (cases ?props) (simp_all add: declared_type_def)
  have "validate_json_schema_args tool_id schema args = None \<longleftrightarrow>
      first_error (check_required tool_id args) (as_list (dget (as_dict schema) ''required'')) = None \<and>
      (is_dict ?props \<longrightarrow> first_error (check_property tool_id (as_dict ?props)) args = None)"
    using True by (simp add: validate_json_schema_args_def split: option.split)
  then show ?thesis
    unfolding required properties schema_accepts_def using untyped by (cases "is_dict ?props") simp_all
qed

lemma validate_schema_adapter:
  assumes "validate_json_schema_args tool_id schema args = Some e"
  shows "\<exists>msg. e = adapter_error msg"
proof -
  have required: "check_required tool_id args x = Some e \<Longrightarrow> \<exists>msg. e = adapter_error msg" for x e
    by (auto simp: check_required_def split: if_splits)
  have property: "check_property tool_id ps x = Some e \<Longrightarrow> \<exists>msg. e = adapter_error msg" for ps x e
    by (cases x) (auto simp: check_property_def Let_def validate_type_adapter split: if_splits)
  let ?required = "first_error (check_required tool_id args) (as_list (dget (as_dict schema) ''required''))"
  show ?thesis
  proof (cases ?required)
    case (Some e')
    then have "e' = e" using assms by (simp add: validate_json_schema_args_def split: if_splits)
    then show ?thesis using first_error_adapter [OF required Some] by simp
  next
    case None
    then have "first_error (check_property tool_id (as_dict (dget (as_dict schema) ''properties''))) args = Some e"
      using assms by (simp add: validate_json_schema_args_def split: if_splits)
    from first_error_adapter [OF property this] show ?thesis by simp
  qed
qed

text \<open>C26: A tool runs only on arguments its JSON schema accepts: the check fails exactly when a required
  argument is missing or an argument does not have its declared type (a boolean is neither an integer nor
  a number), and then neither a local handler nor an MCP server is called.\<close>

theorem schema_enforced:
  "(validate_json_schema_args (get_text tool ''tool_id'') (dget tool ''input_schema'') args = None \<longleftrightarrow>
     schema_accepts (dget tool ''input_schema'') args) \<and>
   (schema_accepts (dget tool ''input_schema'') args \<or>
    (\<exists>msg. execute_tool_manifest reg call_mcp tool_state tool args state w = (Inl (adapter_error msg), w)))"
proof (cases "validate_json_schema_args (get_text tool ''tool_id'') (dget tool ''input_schema'') args")
  case None
  then show ?thesis by (simp add: validate_schema_iff)
next
  case (Some e)
  then have "\<not> schema_accepts (dget tool ''input_schema'') args"
    by (simp add: validate_schema_iff [of "get_text tool ''tool_id''", symmetric])
  moreover obtain msg where "e = adapter_error msg" using validate_schema_adapter [OF Some] by blast
  then have "execute_tool_manifest reg call_mcp tool_state tool args state w = (Inl (adapter_error msg), w)"
    using Some by (simp add: execute_tool_manifest_def)
  ultimately show ?thesis using Some by auto
qed

text \<open>The executor of a context has one tool per manifest, in order, under its id.\<close>

definition tool_ids :: "pydict list \<Rightarrow> string list" where
  "tool_ids tools = map (\<lambda>t. get_text t ''tool_id'') tools"

lemma register_all_result:
  "register_all spec_of ts ex = Inr ex' \<Longrightarrow>
     ex_tools ex' = ex_tools ex @ map (\<lambda>t. (ts_name (spec_of t), spec_of t)) ts \<and>
     before_call ex' = before_call ex \<and> after_call ex' = after_call ex \<and> on_error ex' = on_error ex \<and>
     (distinct (map fst (ex_tools ex)) \<longrightarrow> distinct (map fst (ex_tools ex')))"
proof (induction ts arbitrary: ex)
  case (Cons t ts)
  obtain ex1 where ex1: "register ex (spec_of t) = Inr ex1" "register_all spec_of ts ex1 = Inr ex'"
    using Cons.prems by (auto split: sum.splits)
  then have "ex1 = ex\<lparr>ex_tools := ex_tools ex @ [(ts_name (spec_of t), spec_of t)]\<rparr>"
    and "ts_name (spec_of t) \<notin> fst ` set (ex_tools ex)"
    by (auto simp: register_def map_of_eq_None_iff split: if_splits)
  moreover from this have "distinct (map fst (ex_tools ex)) \<longrightarrow> distinct (map fst (ex_tools ex1))" by simp
  moreover have "distinct (map fst (ex_tools ex1)) \<longrightarrow> distinct (map fst (ex_tools ex'))"
    using Cons.IH [OF ex1(2)] by blast
  ultimately show ?case using Cons.IH [OF ex1(2)] by simp
qed simp

lemma executor_of_context:
  assumes "build_runtime_tool_executor reg call_mcp tool_state ctx = Inr ex" "runtime_tools ctx = Inr tools"
  shows "ex_tools ex = map (\<lambda>t. (get_text t ''tool_id'', tool_spec_from_config reg call_mcp tool_state t)) tools"
    and "distinct (tool_ids tools)" "before_call ex = []" "after_call ex = []" "on_error ex = []"
proof -
  have names: "ts_name (tool_spec_from_config reg call_mcp tool_state t) = get_text t ''tool_id''" for t
    by (simp add: tool_spec_from_config_def Let_def)
  have all: "register_all (tool_spec_from_config reg call_mcp tool_state) tools
      \<lparr>ex_tools = [], before_call = [], after_call = [], on_error = []\<rparr> = Inr ex"
    using assms by (simp add: build_runtime_tool_executor_def)
  note r = register_all_result [OF all]
  from r show t: "ex_tools ex = map (\<lambda>t. (get_text t ''tool_id'', tool_spec_from_config reg call_mcp tool_state t)) tools"
    and "before_call ex = []" "after_call ex = []" "on_error ex = []" by (simp_all add: names)
  have "distinct (map fst (ex_tools ex))"
    by (rule r [THEN conjunct2, THEN conjunct2, THEN conjunct2, THEN conjunct2, THEN mp]) simp
  then show "distinct (tool_ids tools)" by (simp add: t tool_ids_def comp_def)
qed

end
