(* ===== verification/Strapi_Client.thy ===== *)
theory Strapi_Client
  imports Prelude "HOL-Library.Multiset"
begin

text \<open>
  The client of the content server (\<open>strapi.py\<close>): listing over pages, lookup, creation and upsert of
  entities. The HTTP exchange is third-party: a server answers a \<open>GET\<close> of an endpoint with parameters, a
  \<open>POST\<close> and a \<open>PUT\<close>, each with a JSON object or a \<open>StrapiError\<close>. What the client relies on is the
  predicate \<open>serves\<close>: the server pages by the size asked for or its own maximum, whichever is less, over
  one arrangement of the selected rows.
\<close>

record 'w server =
  srv_get :: "string \<Rightarrow> (string \<times> string) list \<Rightarrow> 'w \<Rightarrow> (py_exn + pydict) \<times> 'w"
  srv_post :: "string \<Rightarrow> pydict \<Rightarrow> 'w \<Rightarrow> (py_exn + pydict) \<times> 'w"
  srv_put :: "string \<Rightarrow> string \<Rightarrow> pydict \<Rightarrow> 'w \<Rightarrow> (py_exn + pydict) \<times> 'w"

record strapi_settings =
  st_base_url :: string
  st_api_token :: string
  st_collections :: "(string \<times> (string \<times> string)) list"

definition strapi_error :: "string \<Rightarrow> py_exn" where
  "strapi_error s = exn ''StrapiError'' s"

text \<open>The constructor of the client; a collection is its owner and its endpoint.\<close>

definition strapi_client :: "strapi_settings \<Rightarrow> py_exn option" where
  "strapi_client settings =
     (if st_base_url settings = [] then Some (strapi_error ''STRAPI_BASE_URL is required'')
      else if st_api_token settings = [] then Some (strapi_error ''STRAPI_API_TOKEN is required'')
      else None)"

definition collection_endpoint :: "strapi_settings \<Rightarrow> string \<Rightarrow> py_exn + string" where
  "collection_endpoint settings name =
     (case map_of (st_collections settings) name of
        None \<Rightarrow> Inl (strapi_error (''collection '' @ name @ '' is not configured for Strapi''))
      | Some (owner, endpoint) \<Rightarrow>
          if owner \<noteq> ''strapi'' \<or> endpoint = []
          then Inl (strapi_error (''collection '' @ name @ '' is not configured for Strapi''))
          else Inr endpoint)"

text \<open>\<open>client_from_settings\<close> and then \<open>collection_endpoint\<close>.\<close>

definition open_collection :: "strapi_settings \<Rightarrow> string \<Rightarrow> py_exn + string" where
  "open_collection settings name =
     (case strapi_client settings of Some e \<Rightarrow> Inl e | None \<Rightarrow> collection_endpoint settings name)"

section \<open>Entities and queries\<close>

definition normalize_entity :: "pydict \<Rightarrow> pydict" where
  "normalize_entity entity =
     (case dget entity ''attributes'' of PDict d \<Rightarrow> dmerge [(''id'', dget entity ''id'')] d | _ \<Rightarrow> entity)"

definition entity_reference :: "pydict \<Rightarrow> py_exn + string" where
  "entity_reference entity =
     (let v = py_or (dget entity ''documentId'') (dget entity ''id'')
      in if v = PNone then Inl (strapi_error ''Strapi entity has no documentId or id'') else Inr (py_str v))"

fun query_value :: "pyval \<Rightarrow> string option" where
  "query_value (PBool b) = Some (if b then ''true'' else ''false'')"
| "query_value PNone = None"
| "query_value v = Some (py_str v)"

definition flatten_query :: "pydict \<Rightarrow> (string \<times> string) list" where
  "flatten_query values' =
     concat (map (\<lambda>(k, v). case query_value v of None \<Rightarrow> [] | Some s \<Rightarrow> [(k, s)]) values')"

definition page_params :: "pydict \<Rightarrow> string option \<Rightarrow> nat \<Rightarrow> nat \<Rightarrow> (string \<times> string) list" where
  "page_params filters sort_by page_size page =
     (let params = AList.update ''pagination[pageSize]'' (nat_text page_size)
            (AList.update ''pagination[page]'' (nat_text page) (flatten_query filters))
      in case sort_by of None \<Rightarrow> params | Some s \<Rightarrow> if s = [] then params else AList.update ''sort'' s params)"

section \<open>Listing\<close>

text \<open>\<open>(v or {}).get(k)\<close>: a value that is truthy and no dictionary raises.\<close>

definition or_get :: "pyval \<Rightarrow> string \<Rightarrow> py_exn + pyval" where
  "or_get v k =
     (if \<not> truthy v then Inr PNone
      else case v of PDict d \<Rightarrow> Inr (dget d k) | _ \<Rightarrow> Inl (exn ''AttributeError'' k))"

definition page_count :: "pydict \<Rightarrow> py_exn + pyval" where
  "page_count payload =
     (case or_get (dget payload ''meta'') ''pagination'' of Inl e \<Rightarrow> Inl e | Inr p \<Rightarrow> or_get p ''pageCount'')"

text \<open>Is this the last page? The rows and the number of pages decide.\<close>

definition last_page :: "pyval list \<Rightarrow> pydict \<Rightarrow> nat \<Rightarrow> py_exn + bool" where
  "last_page rows payload page =
     (case page_count payload of
        Inl e \<Rightarrow> Inl e
      | Inr n \<Rightarrow>
          if rows = [] \<or> n = PNone then Inr True
          else (case py_int n of
                  None \<Rightarrow> Inl (exn ''ValueError'' ''pageCount'')
                | Some i \<Rightarrow> Inr (i \<le> int page)))"

text \<open>One round of the loop: it stops with an exception or the result, or goes on to the next page.\<close>

datatype page_step = Stop "py_exn + pydict list" | Next_Page "pydict list"

definition take_page ::
  "nat option \<Rightarrow> nat \<Rightarrow> pydict list \<Rightarrow> pydict \<Rightarrow> page_step" where
  "take_page max_items page result payload =
     (let rows = py_or (dget payload ''data'') (PList [])
      in if \<not> is_list rows then Stop (Inl (strapi_error ''Strapi list response has invalid data''))
         else
           let result' = result @ map (normalize_entity \<circ> as_dict) (filter is_dict (as_list rows))
           in if (case max_items of None \<Rightarrow> False | Some m \<Rightarrow> m \<le> length result')
              then Stop (Inr (take (the max_items) result'))
              else case last_page (as_list rows) payload page of
                     Inl e \<Rightarrow> Stop (Inl e)
                   | Inr done_all \<Rightarrow> if done_all then Stop (Inr result') else Next_Page result')"

definition fetch_page ::
  "'w server \<Rightarrow> string \<Rightarrow> pydict \<Rightarrow> string option \<Rightarrow> nat \<Rightarrow> nat option \<Rightarrow> nat \<Rightarrow> pydict list \<Rightarrow> 'w \<Rightarrow> page_step \<times> 'w" where
  "fetch_page srv endpoint filters sort_by page_size max_items page result w =
     (case srv_get srv endpoint (page_params filters sort_by page_size page) w of
        (Inl e, w') \<Rightarrow> (Stop (Inl e), w')
      | (Inr payload, w') \<Rightarrow> (take_page max_items page result payload, w'))"

text \<open>The loop over the pages; \<open>None\<close> is a loop without end.\<close>

partial_function (option) list_pages ::
  "'w server \<Rightarrow> string \<Rightarrow> pydict \<Rightarrow> string option \<Rightarrow> nat \<Rightarrow> nat option \<Rightarrow> nat \<Rightarrow> pydict list \<Rightarrow> 'w \<Rightarrow>
   ((py_exn + pydict list) \<times> 'w) option" where
  "list_pages srv endpoint filters sort_by page_size max_items page result w =
     (let r = fetch_page srv endpoint filters sort_by page_size max_items page result w
      in case fst r of
           Stop answer \<Rightarrow> Some (answer, snd r)
         | Next_Page result' \<Rightarrow>
             list_pages srv endpoint filters sort_by page_size max_items (page + 1) result' (snd r))"

declare list_pages.simps [code]

definition list_entities ::
  "'w server \<Rightarrow> string \<Rightarrow> pydict \<Rightarrow> string option \<Rightarrow> nat \<Rightarrow> nat option \<Rightarrow> 'w \<Rightarrow> ((py_exn + pydict list) \<times> 'w) option" where
  "list_entities srv endpoint filters sort_by page_size max_items w =
     list_pages srv endpoint filters sort_by page_size max_items 1 [] w"

section \<open>Single entities\<close>

definition eq_filter :: "string \<Rightarrow> string" where
  "eq_filter field = ''filters['' @ field @ ''][$eq]''"

definition find_one ::
  "'w server \<Rightarrow> string \<Rightarrow> string \<Rightarrow> pyval \<Rightarrow> 'w \<Rightarrow> ((py_exn + pydict option) \<times> 'w) option" where
  "find_one srv endpoint field v w =
     (case list_entities srv endpoint [(eq_filter field, v)] None 1 (Some 1) w of
        None \<Rightarrow> None
      | Some (Inl e, w') \<Rightarrow> Some (Inl e, w')
      | Some (Inr [], w') \<Rightarrow> Some (Inr None, w')
      | Some (Inr (r # _), w') \<Rightarrow> Some (Inr (Some r), w'))"

text \<open>\<open>payload.get("data") or {}\<close>, normalized; another truthy value than a dictionary raises.\<close>

definition answered_entity :: "(py_exn + pydict) \<times> 'w \<Rightarrow> (py_exn + pydict) \<times> 'w" where
  "answered_entity r =
     (case r of
        (Inl e, w) \<Rightarrow> (Inl e, w)
      | (Inr payload, w) \<Rightarrow>
          (case py_or (dget payload ''data'') (PDict []) of
             PDict d \<Rightarrow> (Inr (normalize_entity d), w)
           | _ \<Rightarrow> (Inl (exn ''AttributeError'' ''get''), w)))"

definition create_entity :: "'w server \<Rightarrow> string \<Rightarrow> pydict \<Rightarrow> 'w \<Rightarrow> (py_exn + pydict) \<times> 'w" where
  "create_entity srv endpoint data w = answered_entity (srv_post srv endpoint data w)"

definition update_entity :: "'w server \<Rightarrow> string \<Rightarrow> string \<Rightarrow> pydict \<Rightarrow> 'w \<Rightarrow> (py_exn + pydict) \<times> 'w" where
  "update_entity srv endpoint ref data w = answered_entity (srv_put srv endpoint ref data w)"

definition upsert ::
  "'w server \<Rightarrow> string \<Rightarrow> string \<Rightarrow> pyval \<Rightarrow> pydict \<Rightarrow> 'w \<Rightarrow> ((py_exn + pydict) \<times> 'w) option" where
  "upsert srv endpoint field v data w =
     (case find_one srv endpoint field v w of
        None \<Rightarrow> None
      | Some (Inl e, w') \<Rightarrow> Some (Inl e, w')
      | Some (Inr existing, w') \<Rightarrow>
          (case existing of
             Some r \<Rightarrow>
               if r \<noteq> [] then
                 (case entity_reference r of
                    Inl e \<Rightarrow> Some (Inl e, w')
                  | Inr ref \<Rightarrow> Some (update_entity srv endpoint ref data w'))
               else Some (create_entity srv endpoint data w')
           | None \<Rightarrow> Some (create_entity srv endpoint data w')))"

section \<open>What the client relies on\<close>

text \<open>
  The documented behaviour of the server for the queries the repository makes: equality filters, pages
  counted from one, and a maximum \<open>cap\<close> of the page size (Strapi's \<open>maxLimit\<close>, 100 if not configured): a larger
  size is cut to it. A query with a sort, \<open>createdAt:desc\<close>, gives the rows in the opposite order of
  their creation (creation times are taken to be different); a query without one gives them in some order,
  the same for all pages of the query. A \<open>POST\<close> appends a row, a \<open>PUT\<close> merges into the row with the given
  document id. \<open>rows\<close> reads the rows of an endpoint off the state of the server, in the order of their
  creation; nobody else writes while a listing goes through its pages.
\<close>

definition eq_filters :: "(string \<times> string) list \<Rightarrow> pydict" where
  "eq_filters fs = map (\<lambda>(f, v). (eq_filter f, PStr v)) fs"

definition selected :: "(string \<times> string) list \<Rightarrow> pydict list \<Rightarrow> pydict list" where
  "selected fs rs = filter (\<lambda>r. list_all (\<lambda>(f, v). dget r f = PStr v) fs) rs"

definition arranged :: "string option \<Rightarrow> pydict list \<Rightarrow> pydict list \<Rightarrow> bool" where
  "arranged sort_by rs l \<longleftrightarrow> (if sort_by = Some ''createdAt:desc'' then l = rev rs else mset l = mset rs)"

definition page_payload :: "pydict list \<Rightarrow> nat \<Rightarrow> nat \<Rightarrow> pydict" where
  "page_payload rs n k =
     [(''data'', PList (map PDict (take n (drop ((k - 1) * n) rs)))),
      (''meta'', PDict [(''pagination'', PDict [(''pageCount'', PInt (int ((length rs + n - 1) div n)))])])]"

definition plain_row :: "pydict \<Rightarrow> bool" where
  "plain_row r \<longleftrightarrow> dget r ''attributes'' = PNone \<and> (\<exists>i. dget r ''documentId'' = PStr i \<and> i \<noteq> [])"

definition plain_data :: "pydict \<Rightarrow> bool" where
  "plain_data d \<longleftrightarrow> \<not> has_key d ''attributes'' \<and> \<not> has_key d ''documentId''"

definition serves :: "nat \<Rightarrow> 'w server \<Rightarrow> ('w \<Rightarrow> string \<Rightarrow> pydict list) \<Rightarrow> ('w \<Rightarrow> bool) \<Rightarrow> bool" where
  "serves cap srv rows valid \<longleftrightarrow> 0 < cap \<and> (\<forall>w. valid w \<longrightarrow>
     (\<forall>e. list_all plain_row (rows w e)) \<and>
     (\<forall>e fs sort_by n. 0 < n \<longrightarrow> sort_by \<in> {None, Some ''createdAt:desc''} \<longrightarrow>
        (\<exists>l. arranged sort_by (selected fs (rows w e)) l \<and>
           (\<forall>k > 0. srv_get srv e (page_params (eq_filters fs) sort_by n k) w =
              (Inr (page_payload l (min n cap) k), w)))) \<and>
     (\<forall>e d. plain_data d \<longrightarrow> (\<exists>r w'. srv_post srv e d w = (Inr [(''data'', PDict r)], w') \<and> valid w' \<and>
        rows w' = (rows w)(e := rows w e @ [r]) \<and> (\<forall>k. has_key d k \<longrightarrow> dget r k = dget d k))) \<and>
     (\<forall>e i d. plain_data d \<longrightarrow> (\<exists>r \<in> set (rows w e). dget r ''documentId'' = PStr i) \<longrightarrow>
        (\<exists>r w'. srv_put srv e i d w = (Inr [(''data'', PDict r)], w') \<and> valid w' \<and>
           rows w' = (rows w)(e := map (\<lambda>r. if dget r ''documentId'' = PStr i then dmerge r d else r) (rows w e)))))"

lemma serves_laws:
  assumes "serves cap srv rows valid" "valid w"
  shows serves_plain: "list_all plain_row (rows w e)"
    and serves_get: "0 < n \<Longrightarrow> sort_by \<in> {None, Some ''createdAt:desc''} \<Longrightarrow>
        \<exists>l. arranged sort_by (selected fs (rows w e)) l \<and>
          (\<forall>k > 0. srv_get srv e (page_params (eq_filters fs) sort_by n k) w = (Inr (page_payload l (min n cap) k), w))"
    and serves_post: "plain_data d \<Longrightarrow> \<exists>r w'. srv_post srv e d w = (Inr [(''data'', PDict r)], w') \<and> valid w' \<and>
        rows w' = (rows w)(e := rows w e @ [r]) \<and> (\<forall>k. has_key d k \<longrightarrow> dget r k = dget d k)"
    and serves_put: "plain_data d \<Longrightarrow> \<exists>r \<in> set (rows w e). dget r ''documentId'' = PStr i \<Longrightarrow>
        \<exists>r w'. srv_put srv e i d w = (Inr [(''data'', PDict r)], w') \<and> valid w' \<and>
           rows w' = (rows w)(e := map (\<lambda>r. if dget r ''documentId'' = PStr i then dmerge r d else r) (rows w e))"
  using assms unfolding serves_def by blast+

lemma serves_cap: "serves cap srv rows valid \<Longrightarrow> 0 < cap"
  by (simp add: serves_def)

lemma normalize_plain: "plain_row r \<Longrightarrow> normalize_entity r = r"
  by (simp add: normalize_entity_def plain_row_def)

lemma arranged_set: "arranged sort_by rs l \<Longrightarrow> set l = set rs"
  by (auto simp: arranged_def dest: mset_eq_setD split: if_splits)

lemma arranged_plain: "list_all plain_row rs \<Longrightarrow> arranged sort_by (selected fs rs) l \<Longrightarrow> list_all plain_row l"
  by (auto simp: list_all_iff selected_def dest: arranged_set)

definition limited :: "nat option \<Rightarrow> 'a list \<Rightarrow> 'a list" where
  "limited bound xs = (case bound of None \<Rightarrow> xs | Some m \<Rightarrow> take m xs)"

lemma rows_of_page:
  assumes "list_all plain_row rs"
  shows "map (normalize_entity \<circ> as_dict) (filter is_dict (map PDict rs)) = rs"
  using assms by (induction rs) (auto simp: normalize_plain)

lemma last_page_payload:
  assumes "0 < n" "0 < k"
  shows "last_page (map PDict (take n (drop ((k - 1) * n) rs))) (page_payload rs n k) k = Inr (length rs \<le> k * n)"
proof -
  have "(length rs + n - 1) div n \<le> k \<longleftrightarrow> length rs + n - 1 < (k + 1) * n"
    using assms(1) by (simp add: less_mult_imp_div_less Suc_le_eq div_less_iff_less_mult flip: less_Suc_eq_le)
  also have "\<dots> \<longleftrightarrow> length rs \<le> k * n" using assms(1) by auto
  finally have pages: "(length rs + n - 1) div n \<le> k \<longleftrightarrow> length rs \<le> k * n" .
  have "length rs \<le> k * n" if "drop ((k - 1) * n) rs = []"
  proof -
    have "length rs \<le> (k - 1) * n" using that by simp
    also have "\<dots> \<le> k * n" by simp
    finally show ?thesis .
  qed
  then show ?thesis
    using assms pages by (auto simp: last_page_def page_count_def page_payload_def or_get_def dget_map_of)
qed

lemma take_page_rows:
  assumes "py_or (dget payload ''data'') (PList []) = PList (map PDict page)" "list_all plain_row page"
    and "last_page (map PDict page) payload k = Inr ended" "acc @ page = acc'"
  shows "take_page bound k acc payload =
    (if \<exists>m. bound = Some m \<and> m \<le> length acc' then Stop (Inr (limited bound acc'))
     else if ended then Stop (Inr acc') else Next_Page acc')"
  using assms(3) rows_of_page [OF assms(2)] assms(4)
  by (auto simp: take_page_def assms(1) limited_def Let_def simp del: map_map split: option.split)

lemma take_page_payload:
  assumes "list_all plain_row rs" "0 < n" "0 < k"
  shows "take_page bound k (take ((k - 1) * n) rs) (page_payload rs n k) =
    (if (\<exists>m. bound = Some m \<and> m \<le> length (take (k * n) rs)) \<or> length rs \<le> k * n
     then Stop (Inr (limited bound rs)) else Next_Page (take (k * n) rs))"
proof -
  let ?page = "take n (drop ((k - 1) * n) rs)"
  have rows: "py_or (dget (page_payload rs n k) ''data'') (PList []) = PList (map PDict ?page)"
    by (cases "?page = []") (auto simp: page_payload_def dget_map_of py_or_def)
  have plain: "list_all plain_row ?page" using assms(1) by (auto simp: list_all_iff dest: in_set_takeD in_set_dropD)
  have "(k - 1) * n + n = k * n" using assms(3) by (cases k) simp_all
  then have joined: "take ((k - 1) * n) rs @ ?page = take (k * n) rs" by (metis take_add)
  have cut: "limited bound (take (k * n) rs) = limited bound rs" if "bound = Some m" "m \<le> length (take (k * n) rs)" for m
    using that by (simp add: limited_def min_absorb1)
  have whole: "limited bound rs = rs" if "\<forall>m \<le> length rs. bound \<noteq> Some m"
  proof (cases bound)
    case (Some m)
    then have "\<not> m \<le> length rs" using that by blast
    then show ?thesis by (simp add: limited_def Some)
  qed (simp add: limited_def)
  show ?thesis
    unfolding take_page_rows [OF rows plain last_page_payload [OF assms(2,3)] joined]
    using cut whole by auto
qed

lemma list_pages_rows:
  assumes "list_all plain_row l" "0 < c"
    and get: "\<And>k. 0 < k \<Longrightarrow> srv_get srv e (page_params (eq_filters fs) sort_by n k) w = (Inr (page_payload l c k), w)"
  shows "0 < k \<Longrightarrow> list_pages srv e (eq_filters fs) sort_by n bound k (take ((k - 1) * c) l) w = Some (Inr (limited bound l), w)"
proof (induction "length l - k * c" arbitrary: k rule: less_induct)
  case less
  note step = take_page_payload [OF assms(1,2) less.prems, of bound] and get = get [OF less.prems]
  show ?case
  proof (cases "(\<exists>m. bound = Some m \<and> m \<le> length (take (k * c) l)) \<or> length l \<le> k * c")
    case True
    then show ?thesis by (subst list_pages.simps) (simp add: fetch_page_def get step Let_def del: One_nat_def)
  next
    case False
    have "length l - (c + k * c) < length l - k * c" if "\<not> length l \<le> k * c" using that assms(2) by linarith
    then have "length l - (k + 1) * c < length l - k * c" using False by simp
    then have "list_pages srv e (eq_filters fs) sort_by n bound (k + 1) (take (k * c) l) w = Some (Inr (limited bound l), w)"
      using less.hyps [of "k + 1"] by simp
    then show ?thesis using False by (subst list_pages.simps) (simp add: fetch_page_def get step Let_def del: One_nat_def)
  qed
qed

lemma list_entities_rows:
  assumes "serves cap srv rows valid" "valid w" "sort_by \<in> {None, Some ''createdAt:desc''}" "0 < page_size"
  shows "\<exists>l. arranged sort_by (selected fs (rows w e)) l \<and>
    list_entities srv e (eq_filters fs) sort_by page_size max_items w = Some (Inr (limited max_items l), w)"
proof -
  obtain l where l: "arranged sort_by (selected fs (rows w e)) l"
    and get: "\<And>k. 0 < k \<Longrightarrow> srv_get srv e (page_params (eq_filters fs) sort_by page_size k) w =
      (Inr (page_payload l (min page_size cap) k), w)"
    using serves_get [OF assms(1,2,4,3)] by blast
  have "list_all plain_row l" using arranged_plain [OF serves_plain [OF assms(1,2)] l] .
  moreover have "0 < min page_size cap" using serves_cap [OF assms(1)] assms(4) by simp
  ultimately have "list_pages srv e (eq_filters fs) sort_by page_size max_items 1
      (take ((1 - 1) * min page_size cap) l) w = Some (Inr (limited max_items l), w)"
    using get zero_less_one by (rule list_pages_rows)
  then show ?thesis using l by (auto simp: list_entities_def)
qed

text \<open>C34: Listing is complete and ends. Against a server that pages as documented, with any maximum page size
  of its own and any size asked for, the loop over the pages stops and returns the selected rows, each as
  often as the server has it and none left out, newest first when sorted so; with \<open>max_items\<close> it returns
  the first of them. It changes nothing.\<close>

theorem listing_complete:
  assumes "serves cap srv rows valid" "valid w" "sort_by \<in> {None, Some ''createdAt:desc''}" "0 < page_size"
  shows "\<exists>l. list_entities srv e (eq_filters fs) sort_by page_size max_items w =
      Some (Inr (case max_items of None \<Rightarrow> l | Some m \<Rightarrow> take m l), w) \<and>
    mset l = mset (selected fs (rows w e)) \<and>
    (sort_by = Some ''createdAt:desc'' \<longrightarrow> l = rev (selected fs (rows w e)))"
  using list_entities_rows [OF assms, of fs e max_items] by (auto simp: arranged_def limited_def split: if_splits)

text \<open>Which one of several matching rows \<open>find_one\<close> gives is the server's choice.\<close>

lemma find_one_row:
  assumes "serves cap srv rows valid" "valid w"
  obtains (none) "selected [(f, v)] (rows w e) = []" "find_one srv e f (PStr v) w = Some (Inr None, w)"
    | (found) r where "r \<in> set (selected [(f, v)] (rows w e))" "find_one srv e f (PStr v) w = Some (Inr (Some r), w)"
proof -
  obtain l where l: "arranged None (selected [(f, v)] (rows w e)) l"
    "list_entities srv e (eq_filters [(f, v)]) None 1 (Some 1) w = Some (Inr (limited (Some 1) l), w)"
    using list_entities_rows [OF assms insertI1 zero_less_one] by blast
  have set: "set l = set (selected [(f, v)] (rows w e))" by (rule arranged_set [OF l(1)])
  show ?thesis
  proof (cases l)
    case Nil
    then show ?thesis using l(2) set by (intro none) (simp_all add: find_one_def eq_filters_def limited_def)
  next
    case (Cons r l')
    then have "r \<in> set (selected [(f, v)] (rows w e))" using set by (metis list.set_intros(1))
    then show ?thesis using l(2) Cons by (intro found [of r]) (simp_all add: find_one_def eq_filters_def limited_def)
  qed
qed

lemma answered_row: "plain_row r \<Longrightarrow> answered_entity (Inr [(''data'', PDict r)], w) = (Inr r, w)"
  by (cases r) (auto simp: answered_entity_def dget_map_of py_or_def normalize_plain plain_row_def)

text \<open>An upsert under a key that no row has appends a row, any upsert leaves the other endpoints.\<close>

lemma upsert_fresh:
  assumes "serves cap srv rows valid" "valid w" "plain_data d" "\<And>r. r \<in> set (rows w e) \<Longrightarrow> dget r f \<noteq> PStr v"
  obtains r w' where "upsert srv e f (PStr v) d w = Some (Inr r, w')" "valid w'"
    "rows w' = (rows w)(e := rows w e @ [r])" "\<And>k. has_key d k \<Longrightarrow> dget r k = dget d k"
proof -
  have "selected [(f, v)] (rows w e) = []" using assms(4) by (simp add: selected_def filter_empty_conv)
  then have none: "find_one srv e f (PStr v) w = Some (Inr None, w)"
    by (cases rule: find_one_row [OF assms(1,2), of f v e]) simp_all
  obtain r w' where p: "srv_post srv e d w = (Inr [(''data'', PDict r)], w')" "valid w'"
    "rows w' = (rows w)(e := rows w e @ [r])" "\<forall>k. has_key d k \<longrightarrow> dget r k = dget d k"
    using serves_post [OF assms(1-3)] by blast
  have "plain_row r" using serves_plain [OF assms(1) p(2), of e] p(3) by simp
  then have "upsert srv e f (PStr v) d w = Some (Inr r, w')"
    by (simp add: upsert_def none create_entity_def p(1) answered_row)
  then show ?thesis using that p by blast
qed

lemma upsert_elsewhere:
  assumes "serves cap srv rows valid" "valid w" "plain_data d"
  obtains r w' where "upsert srv e f (PStr v) d w = Some (r, w')" "valid w'" "\<not> isl r"
    "\<And>e'. e' \<noteq> e \<Longrightarrow> rows w' e' = rows w e'"
proof (rule find_one_row [OF assms(1,2), of f v e], goal_cases)
  case none: 1
  then have "\<And>r. r \<in> set (rows w e) \<Longrightarrow> dget r f \<noteq> PStr v" by (auto simp: selected_def filter_empty_conv)
  from upsert_fresh [OF assms this] show ?thesis using that by (metis fun_upd_other sum.disc(2))
next
  case found: (2 r)
  have r: "r \<in> set (rows w e)" using found(2) by (simp add: selected_def)
  then have "plain_row r" using serves_plain [OF assms(1,2), of e] by (simp add: list_all_iff)
  then obtain i where i: "dget r ''documentId'' = PStr i" "i \<noteq> []" by (auto simp: plain_row_def)
  then have ref: "entity_reference r = Inr i" "r \<noteq> []" by (auto simp: entity_reference_def py_or_def dget_map_of)
  obtain r' w' where p: "srv_put srv e i d w = (Inr [(''data'', PDict r')], w')" "valid w'"
    "rows w' = (rows w)(e := map (\<lambda>r. if dget r ''documentId'' = PStr i then dmerge r d else r) (rows w e))"
    using serves_put [OF assms] r i(1) by blast
  have "\<exists>x. answered_entity (Inr [(''data'', PDict r')], w') = (x, w') \<and> \<not> isl x"
    by (cases r') (simp_all add: answered_entity_def dget_map_of py_or_def)
  then obtain x where x: "answered_entity (Inr [(''data'', PDict r')], w') = (x, w')" "\<not> isl x" by blast
  show ?thesis
  proof (rule that [OF _ p(2) x(2)])
    show "upsert srv e f (PStr v) d w = Some (x, w')"
      by (simp add: upsert_def found(3) ref update_entity_def p(1) x(1))
    show "rows w' e' = rows w e'" if "e' \<noteq> e" for e' using that by (simp add: p(3))
  qed
qed

section \<open>A server in memory\<close>

text \<open>A server that keeps its rows per endpoint and behaves as documented, with at most \<open>cap\<close> rows a page.\<close>

type_synonym content = "string \<Rightarrow> pydict list"

definition field_filters :: "(string \<times> string) list \<Rightarrow> (string \<times> string) list" where
  "field_filters params =
     map (\<lambda>(k, v). (take (length k - 14) (drop 8 k), v)) (filter (\<lambda>p. starts_with (fst p) ''filters['') params)"

definition number_param :: "(string \<times> string) list \<Rightarrow> string \<Rightarrow> nat" where
  "number_param params k = (case map_of params k of None \<Rightarrow> 1 | Some s \<Rightarrow> digits_value s)"

definition capped_server :: "nat \<Rightarrow> content server" where
  "capped_server cap =
     \<lparr>srv_get = (\<lambda>e params db.
        let rs = selected (field_filters params) (db e)
        in (Inr (page_payload (if map_of params ''sort'' = Some ''createdAt:desc'' then rev rs else rs)
             (min (number_param params ''pagination[pageSize]'') cap) (number_param params ''pagination[page]'')), db)),
      srv_post = (\<lambda>e d db.
        let r = d @ [(''documentId'', PStr (''d'' @ nat_text (length (db e))))]
        in (Inr [(''data'', PDict r)], db(e := db e @ [r]))),
      srv_put = (\<lambda>e i d db.
        (Inr [(''data'', PDict d)], db(e := map (\<lambda>r. if dget r ''documentId'' = PStr i then dmerge r d else r) (db e))))\<rparr>"

definition memory_server :: "content server" where
  "memory_server = capped_server 100"

definition content_ok :: "content \<Rightarrow> bool" where
  "content_ok db \<longleftrightarrow> (\<forall>e. list_all plain_row (db e))"

lemma filter_update:
  "\<not> P k \<Longrightarrow> filter (\<lambda>p. P (fst p)) (AList.update k v xs) = filter (\<lambda>p. P (fst p)) xs"
  by (induction xs) auto

lemma flatten_eq_filters: "flatten_query (eq_filters fs) = map (\<lambda>(f, v). (eq_filter f, v)) fs"
  by (induction fs) (auto simp: flatten_query_def eq_filters_def)

lemma field_filters_params: "field_filters (page_params (eq_filters fs) sort_by n k) = fs"
proof -
  let ?P = "\<lambda>k. starts_with k ''filters[''"
  have "filter (\<lambda>p. ?P (fst p)) (page_params (eq_filters fs) sort_by n k) = filter (\<lambda>p. ?P (fst p)) (flatten_query (eq_filters fs))"
    by (simp add: page_params_def Let_def filter_update starts_with_def split: option.split)
  also have "\<dots> = flatten_query (eq_filters fs)"
    by (rule filter_True) (auto simp: flatten_eq_filters eq_filter_def starts_with_def)
  finally have "field_filters (page_params (eq_filters fs) sort_by n k) =
      map (\<lambda>(k, v). (take (length k - 14) (drop 8 k), v)) (map (\<lambda>(f, v). (eq_filter f, v)) fs)"
    by (simp add: field_filters_def flatten_eq_filters)
  also have "\<dots> = fs" by (induction fs) (auto simp: eq_filter_def)
  finally show ?thesis .
qed

lemma number_params:
  "number_param (page_params (eq_filters fs) sort_by n k) ''pagination[page]'' = k"
  "number_param (page_params (eq_filters fs) sort_by n k) ''pagination[pageSize]'' = n"
  using nat_text_digits by (auto simp: number_param_def page_params_def Let_def update_conv' split: option.split)

lemma sort_param: "sort_by \<noteq> Some [] \<Longrightarrow> map_of (page_params (eq_filters fs) sort_by n k) ''sort'' = sort_by"
proof -
  have "map_of (map (\<lambda>(f, v). (eq_filter f, v)) fs) ''sort'' = None" by (induction fs) (auto simp: eq_filter_def)
  then show "sort_by \<noteq> Some [] \<Longrightarrow> map_of (page_params (eq_filters fs) sort_by n k) ''sort'' = sort_by"
    by (auto simp: page_params_def Let_def update_conv' flatten_eq_filters split: option.split)
qed

lemma put_plain: "plain_row r \<Longrightarrow> plain_data d \<Longrightarrow> plain_row (dmerge r d)"
  by (simp add: plain_row_def plain_data_def dmerge_other)

lemma post_plain:
  assumes "plain_data d"
  shows "plain_row (d @ [(''documentId'', PStr (''d'' @ nat_text n))])"
    and "has_key d k \<Longrightarrow> dget (d @ [(''documentId'', PStr (''d'' @ nat_text n))]) k = dget d k"
  using assms by (auto simp: plain_row_def plain_data_def dget_map_of has_key_def map_add_def split: option.split)

lemma capped_serves: "0 < cap \<Longrightarrow> serves cap (capped_server cap) id content_ok"
  unfolding serves_def
proof (intro allI impI conjI)
  fix db :: content and e fs sort_by n
  assume db: "content_ok db" and "0 < (n :: nat)" and sort: "sort_by \<in> {None, Some ''createdAt:desc''}"
  let ?rs = "selected fs (id db e)"
  let ?l = "if sort_by = Some ''createdAt:desc'' then rev ?rs else ?rs"
  have "srv_get (capped_server cap) e (page_params (eq_filters fs) sort_by n k) db = (Inr (page_payload ?l (min n cap) k), db)" for k
    using sort by (auto simp: capped_server_def field_filters_params number_params sort_param)
  moreover have "arranged sort_by ?rs ?l" by (simp add: arranged_def)
  ultimately show "\<exists>l. arranged sort_by ?rs l \<and>
      (\<forall>k > 0. srv_get (capped_server cap) e (page_params (eq_filters fs) sort_by n k) db =
         (Inr (page_payload l (min n cap) k), db))" by blast
next
  fix db :: content and e d
  assume "content_ok db" "plain_data d"
  then show "\<exists>r w'. srv_post (capped_server cap) e d db = (Inr [(''data'', PDict r)], w') \<and> content_ok w' \<and>
      id w' = (id db)(e := id db e @ [r]) \<and> (\<forall>k. has_key d k \<longrightarrow> dget r k = dget d k)"
    using post_plain [of d] by (auto simp: capped_server_def content_ok_def Let_def)
next
  fix db :: content and e i d
  assume "content_ok db" "plain_data d"
  then show "\<exists>r w'. srv_put (capped_server cap) e i d db = (Inr [(''data'', PDict r)], w') \<and> content_ok w' \<and>
      id w' = (id db)(e := map (\<lambda>r. if dget r ''documentId'' = PStr i then dmerge r d else r) (id db e))"
    using put_plain by (auto simp: capped_server_def content_ok_def list_all_iff)
qed (simp_all add: content_ok_def)

lemma memory_serves: "serves 100 memory_server id content_ok"
  unfolding memory_server_def by (rule capped_serves) simp

definition three_rows :: content where
  "three_rows e = (if e = ''/chats'' then map (\<lambda>i. [(''documentId'', PStr i), (''session_id'', PStr ''s'')]) [''a'', ''b'', ''c''] else [])"

theorem listing_complete_witness:
  "list_entities (capped_server 2) ''/chats'' (eq_filters [(''session_id'', ''s'')]) (Some ''createdAt:desc'') 5 None three_rows =
    Some (Inr (map (\<lambda>i. [(''documentId'', PStr i), (''session_id'', PStr ''s'')]) [''c'', ''b'', ''a'']), three_rows)"
proof -
  have ok: "content_ok three_rows" by (simp add: content_ok_def three_rows_def plain_row_def dget_map_of)
  have "selected [(''session_id'', ''s'')] (id three_rows ''/chats'') =
      map (\<lambda>i. [(''documentId'', PStr i), (''session_id'', PStr ''s'')]) [''a'', ''b'', ''c'']"
    by (simp add: selected_def three_rows_def dget_map_of)
  with listing_complete [where rows = id and valid = content_ok, OF capped_serves [of 2] ok, of "Some ''createdAt:desc''" 5 "''/chats''" "[(''session_id'', ''s'')]" None]
  show ?thesis by auto
qed

end
