(* ===== verification/Sessions.thy ===== *)
theory Sessions
  imports Strapi_Client
begin

text \<open>
  Conversations (\<open>sessions.py\<close>): the messages of a turn are written to the content server and read back
  as history, as the views a turn's context is made of, and for the feedback of users. The lock that
  keeps two turns of a session apart is PostgreSQL's and not modelled.
\<close>

section \<open>Identities\<close>

definition DEFAULT_SESSION_ID :: string where "DEFAULT_SESSION_ID = ''local-session''"
definition SESSION_USER_PREFIX :: string where "SESSION_USER_PREFIX = ''session-owner:''"

definition normalize_session_id :: "pyval \<Rightarrow> string" where
  "normalize_session_id session_id =
     (let v = py_strip (text_or_empty session_id) in if v = [] then DEFAULT_SESSION_ID else v)"

definition derive_user_id_from_session :: "pyval \<Rightarrow> string" where
  "derive_user_id_from_session session_id = SESSION_USER_PREFIX @ normalize_session_id session_id"

definition session_user_id :: "pyval \<Rightarrow> pyval \<Rightarrow> string" where
  "session_user_id session_id user_id =
     (let v = py_strip (text_or_empty user_id) in if v = [] then derive_user_id_from_session session_id else v)"

definition trace_id :: "pydict \<Rightarrow> string \<Rightarrow> string" where
  "trace_id result session_id = py_str (py_or (dget result ''trace_id'') (PStr session_id))"

section \<open>What is written for a turn\<close>

text \<open>The first value that is given wins for a key; \<open>None\<close> and the empty text are not given.\<close>

definition lineage_keys :: "(string \<times> string) list" where
  "lineage_keys = [(''agent_id'', ''agent_id''), (''release_id'', ''release_id''),
     (''release_version'', ''release_version''), (''version'', ''release_version'')]"

definition add_lineage :: "pydict \<Rightarrow> string \<times> string \<Rightarrow> pydict \<Rightarrow> pydict" where
  "add_lineage metadata keys d =
     (case keys of (source, target) \<Rightarrow>
        let v = dget metadata source
        in if v = PNone \<or> v = PStr [] \<or> has_key d target then d else dset target v d)"

definition learning_lineage :: "pydict \<Rightarrow> pydict" where
  "learning_lineage metadata = fold (add_lineage metadata) lineage_keys []"

definition faq_id_of :: "pydict \<Rightarrow> py_exn + int" where
  "faq_id_of item =
     (case py_int (dget item ''faq_id'') of None \<Rightarrow> Inl (exn ''ValueError'' ''faq_id'') | Some i \<Rightarrow> Inr i)"

definition retrieved_faq_ids :: "pydict \<Rightarrow> py_exn + int list" where
  "retrieved_faq_ids result =
     traverse faq_id_of (filter (\<lambda>d. dget d ''faq_id'' \<noteq> PNone) (map as_dict (as_list (dget result ''retrieved_faqs''))))"

definition latency_ms :: "pydict \<Rightarrow> py_exn + pyval" where
  "latency_ms result =
     (let v = dget result ''total_latency_ms''
      in if v = PNone then Inr PNone
         else case py_float v of
                None \<Rightarrow> Inl (exn ''ValueError'' ''total_latency_ms'')
              | Some r \<Rightarrow> Inr (PInt (the (py_int (PFloat r)))))"

text \<open>The identity of a turn: session, user, trace, source and the metadata of its request.\<close>

record turn_identity =
  ti_session :: string
  ti_user :: string
  ti_trace :: string
  ti_source :: string
  ti_metadata :: pydict

definition turn_metadata :: "turn_identity \<Rightarrow> pydict" where
  "turn_metadata t = dset ''request_metadata'' (PDict (ti_metadata t)) (learning_lineage (ti_metadata t))"

definition session_entry :: "turn_identity \<Rightarrow> string \<Rightarrow> pydict" where
  "session_entry t user_message =
     (let title = py_take 80 (py_strip user_message)
      in [(''session_id'', PStr (ti_session t)), (''user_id'', PStr (ti_user t)),
          (''title'', PStr (if title = [] then ''unnamed session'' else title)),
          (''source'', PStr (ti_source t)), (''metadata'', PDict (turn_metadata t))])"

definition message_key :: "turn_identity \<Rightarrow> string \<Rightarrow> string" where
  "message_key t role = ti_trace t @ '':'' @ role"

definition user_entry :: "turn_identity \<Rightarrow> string \<Rightarrow> pydict" where
  "user_entry t user_message =
     [(''message_key'', PStr (message_key t ''user'')), (''session_id'', PStr (ti_session t)),
      (''user_id'', PStr (ti_user t)), (''trace_id'', PStr (ti_trace t)), (''role'', PStr ''user''),
      (''content'', PStr user_message), (''source'', PStr (ti_source t)), (''metadata'', PDict (turn_metadata t))]"

definition assistant_metadata :: "turn_identity \<Rightarrow> string \<Rightarrow> pydict \<Rightarrow> pydict" where
  "assistant_metadata t instance_id result =
     dset ''request_metadata'' (PDict (ti_metadata t)) (dmerge
       [(''status'', dget result ''status''), (''loop_mode'', dget result ''loop_mode''),
        (''loop_count'', dget result ''loop_count''), (''self_check'', py_or (dget result ''self_check'') (PDict [])),
        (''decision'', py_or (dget result ''decision'') (PDict [])),
        (''injected_skill_ids'', PList (map (\<lambda>s. dget (as_dict s) ''id'') (as_list (dget result ''skills'')))),
        (''model_usage'', py_or (dget result ''model_usage'') (PDict [])), (''instance_id'', PStr instance_id)]
       (learning_lineage (ti_metadata t)))"

definition assistant_entry :: "turn_identity \<Rightarrow> string \<Rightarrow> string \<Rightarrow> pydict \<Rightarrow> py_exn + pydict" where
  "assistant_entry t instance_id assistant_message result =
     (case retrieved_faq_ids result of
        Inl e \<Rightarrow> Inl e
      | Inr ids \<Rightarrow>
          (case latency_ms result of
             Inl e \<Rightarrow> Inl e
           | Inr latency \<Rightarrow> Inr
               [(''message_key'', PStr (message_key t ''assistant'')), (''session_id'', PStr (ti_session t)),
                (''user_id'', PStr (ti_user t)), (''trace_id'', PStr (ti_trace t)), (''role'', PStr ''assistant''),
                (''content'', PStr assistant_message), (''route'', dget result ''route''),
                (''intent'', py_or (dget result ''intent'') (PDict [])), (''retrieved_faq_ids'', PList (map PInt ids)),
                (''tool_calls'', py_or (dget result ''tool_observations'') (PList [])),
                (''observability'', py_or (dget result ''observability'') (PList [])), (''latency_ms'', latency),
                (''source'', PStr (ti_source t)), (''metadata'', PDict (assistant_metadata t instance_id result))]))"

text \<open>The three upserts of a turn; an exception leaves what was written before it.\<close>

definition save_chat_turn ::
  "'w server \<Rightarrow> strapi_settings \<Rightarrow> string \<Rightarrow> pyval \<Rightarrow> pyval \<Rightarrow> string \<Rightarrow> string \<Rightarrow> pydict \<Rightarrow> string \<Rightarrow> pydict \<Rightarrow> 'w \<Rightarrow>
   ((py_exn + string) \<times> 'w) option" where
  "save_chat_turn srv settings instance_id session_id user_id user_message assistant_message result source metadata w =
     (let sid = normalize_session_id session_id;
          t = \<lparr>ti_session = sid, ti_user = session_user_id (PStr sid) user_id, ti_trace = trace_id result sid,
               ti_source = source, ti_metadata = metadata\<rparr>
      in case open_collection settings ''chat_sessions'' of
           Inl e \<Rightarrow> Some (Inl e, w)
         | Inr sessions \<Rightarrow>
             (case open_collection settings ''chat_messages'' of
                Inl e \<Rightarrow> Some (Inl e, w)
              | Inr messages \<Rightarrow>
                  (case upsert srv sessions ''session_id'' (PStr sid) (session_entry t user_message) w of
                     None \<Rightarrow> None
                   | Some (Inl e, w1) \<Rightarrow> Some (Inl e, w1)
                   | Some (Inr _, w1) \<Rightarrow>
                       (case upsert srv messages ''message_key'' (PStr (message_key t ''user'')) (user_entry t user_message) w1 of
                          None \<Rightarrow> None
                        | Some (Inl e, w2) \<Rightarrow> Some (Inl e, w2)
                        | Some (Inr _, w2) \<Rightarrow>
                            (case assistant_entry t instance_id assistant_message result of
                               Inl e \<Rightarrow> Some (Inl e, w2)
                             | Inr entry \<Rightarrow>
                                 (case upsert srv messages ''message_key'' (PStr (message_key t ''assistant'')) entry w2 of
                                    None \<Rightarrow> None
                                  | Some (Inl e, w3) \<Rightarrow> Some (Inl e, w3)
                                  | Some (Inr _, w3) \<Rightarrow> Some (Inr (message_key t ''assistant''), w3)))))))"

section \<open>Reading a conversation\<close>

definition is_visible :: "pydict \<Rightarrow> bool" where
  "is_visible row \<longleftrightarrow>
     (dget row ''role'' = PStr ''user'' \<or> dget row ''role'' = PStr ''assistant'') \<and>
     truthy (dget row ''message_key'') \<and> dget row ''content'' \<noteq> PNone"

text \<open>The newest \<open>limit\<close> messages that pass the filters, the oldest of them first.\<close>

definition load_messages ::
  "'w server \<Rightarrow> strapi_settings \<Rightarrow> (string \<times> string) list \<Rightarrow> nat \<Rightarrow> 'w \<Rightarrow> ((py_exn + pydict list) \<times> 'w) option" where
  "load_messages srv settings fs limit w =
     (case open_collection settings ''chat_messages'' of
        Inl e \<Rightarrow> Some (Inl e, w)
      | Inr messages \<Rightarrow>
          (case list_entities srv messages (eq_filters fs) (Some ''createdAt:desc'') (max 1 (min limit 100)) (Some limit) w of
             None \<Rightarrow> None
           | Some (Inl e, w') \<Rightarrow> Some (Inl e, w')
           | Some (Inr rows, w') \<Rightarrow> Some (Inr (rev (take limit (filter is_visible rows))), w')))"

definition load_session_messages ::
  "'w server \<Rightarrow> strapi_settings \<Rightarrow> pyval \<Rightarrow> nat \<Rightarrow> 'w \<Rightarrow> ((py_exn + pydict list) \<times> 'w) option" where
  "load_session_messages srv settings session_id limit w =
     load_messages srv settings [(''session_id'', normalize_session_id session_id)] limit w"

definition load_session_user_messages ::
  "'w server \<Rightarrow> strapi_settings \<Rightarrow> pyval \<Rightarrow> pyval \<Rightarrow> nat \<Rightarrow> 'w \<Rightarrow> ((py_exn + pydict list) \<times> 'w) option" where
  "load_session_user_messages srv settings session_id user_id limit w =
     (let sid = normalize_session_id session_id
      in load_messages srv settings [(''session_id'', sid), (''user_id'', session_user_id (PStr sid) user_id)] limit w)"

definition history_item :: "pydict \<Rightarrow> pydict" where
  "history_item row = [(''role'', dget row ''role''), (''content'', dget row ''content'')]"

definition assistant_ids :: "pydict list \<Rightarrow> string list" where
  "assistant_ids rows = map (\<lambda>r. get_text r ''message_key'') (filter (\<lambda>r. dget r ''role'' = PStr ''assistant'') rows)"

definition load_recent_conversation ::
  "'w server \<Rightarrow> strapi_settings \<Rightarrow> pyval \<Rightarrow> nat \<Rightarrow> 'w \<Rightarrow> ((py_exn + pydict list \<times> string list) \<times> 'w) option" where
  "load_recent_conversation srv settings session_id limit w =
     (case load_session_messages srv settings session_id limit w of
        None \<Rightarrow> None
      | Some (Inl e, w') \<Rightarrow> Some (Inl e, w')
      | Some (Inr rows, w') \<Rightarrow> Some (Inr (map history_item rows, assistant_ids rows), w'))"

section \<open>The views of a session's context\<close>

definition context_item_from_message :: "pydict \<Rightarrow> pydict" where
  "context_item_from_message row =
     [(''message_key'', PStr (text_or_empty (dget row ''message_key''))), (''role'', dget row ''role''),
      (''content'', dget row ''content''), (''user_id'', dget row ''user_id''), (''trace_id'', dget row ''trace_id'')]"

text \<open>\<open>xs[-n:]\<close>: all of the list for \<open>n = 0\<close>.\<close>

definition last_items :: "nat \<Rightarrow> 'a list \<Rightarrow> 'a list" where
  "last_items n xs = (if n = 0 then xs else drop (length xs - n) xs)"

definition context_views :: "nat \<Rightarrow> pydict list \<Rightarrow> pydict list \<Rightarrow> pydict" where
  "context_views user_limit session_rows user_rows =
     (let seen = map (\<lambda>r. get_text r ''message_key'') (filter (\<lambda>r. truthy (dget r ''message_key'')) session_rows);
          others = filter (\<lambda>r. truthy (dget r ''message_key'') \<and> get_text r ''message_key'' \<notin> set seen) user_rows
      in [(''session_context'', PList (map (PDict \<circ> context_item_from_message) session_rows)),
          (''session_user_context'',
             PList (map PDict (last_items user_limit (map context_item_from_message others))))])"

definition load_session_context_views ::
  "'w server \<Rightarrow> strapi_settings \<Rightarrow> pyval \<Rightarrow> pyval \<Rightarrow> nat \<Rightarrow> nat \<Rightarrow> 'w \<Rightarrow> ((py_exn + pydict) \<times> 'w) option" where
  "load_session_context_views srv settings session_id user_id session_limit user_limit w =
     (case load_session_messages srv settings session_id session_limit w of
        None \<Rightarrow> None
      | Some (Inl e, w1) \<Rightarrow> Some (Inl e, w1)
      | Some (Inr session_rows, w1) \<Rightarrow>
          (case load_session_user_messages srv settings session_id (PStr (session_user_id session_id user_id))
                  (user_limit + session_limit) w1 of
             None \<Rightarrow> None
           | Some (Inl e, w2) \<Rightarrow> Some (Inl e, w2)
           | Some (Inr user_rows, w2) \<Rightarrow> Some (Inr (context_views user_limit session_rows user_rows), w2)))"

section \<open>Lookups and feedback\<close>

definition load_assistant_metadata ::
  "'w server \<Rightarrow> strapi_settings \<Rightarrow> pyval \<Rightarrow> nat \<Rightarrow> 'w \<Rightarrow> ((py_exn + pydict list) \<times> 'w) option" where
  "load_assistant_metadata srv settings session_id limit w =
     (case load_session_messages srv settings session_id limit w of
        None \<Rightarrow> None
      | Some (Inl e, w') \<Rightarrow> Some (Inl e, w')
      | Some (Inr rows, w') \<Rightarrow>
          Some (Inr (map (\<lambda>r. as_dict (dget r ''metadata''))
            (filter (\<lambda>r. dget r ''role'' = PStr ''assistant'' \<and> is_dict (dget r ''metadata'')) rows)), w'))"

definition answers_request :: "string \<Rightarrow> string \<Rightarrow> pydict \<Rightarrow> bool" where
  "answers_request key v row \<longleftrightarrow>
     dget row ''role'' = PStr ''assistant'' \<and>
     dget (as_dict (dget (as_dict (dget row ''metadata'')) ''request_metadata'')) key = PStr v"

definition find_assistant_message_by_request_metadata ::
  "'w server \<Rightarrow> strapi_settings \<Rightarrow> pyval \<Rightarrow> string \<Rightarrow> string \<Rightarrow> 'w \<Rightarrow> ((py_exn + string option) \<times> 'w) option" where
  "find_assistant_message_by_request_metadata srv settings session_id key v w =
     (if key = [] \<or> v = [] then Some (Inr None, w)
      else case load_session_messages srv settings session_id 100 w of
             None \<Rightarrow> None
           | Some (Inl e, w') \<Rightarrow> Some (Inl e, w')
           | Some (Inr rows, w') \<Rightarrow>
               Some (Inr (map_option (\<lambda>r. get_text r ''message_key'') (find (answers_request key v) (rev rows))), w'))"

definition feedback_entry :: "string \<Rightarrow> pydict \<Rightarrow> string \<Rightarrow> string \<Rightarrow> string \<Rightarrow> string option \<Rightarrow> pydict" where
  "feedback_entry key message sid uid rating reason =
     [(''assistant_message_key'', PStr key), (''trace_id'', dget message ''trace_id''), (''session_id'', PStr sid),
      (''user_id'', PStr uid), (''rating'', PStr rating),
      (''reason'', (case reason of None \<Rightarrow> PNone | Some s \<Rightarrow> if py_strip s = [] then PNone else PStr (py_strip s)))]"

definition save_message_feedback ::
  "'w server \<Rightarrow> strapi_settings \<Rightarrow> string \<Rightarrow> pyval \<Rightarrow> pyval \<Rightarrow> string \<Rightarrow> string option \<Rightarrow> 'w \<Rightarrow>
   ((py_exn + pydict) \<times> 'w) option" where
  "save_message_feedback srv settings key session_id user_id rating reason w =
     (if rating \<noteq> ''positive'' \<and> rating \<noteq> ''negative''
        then Some (Inl (exn ''ValueError'' ''rating must be positive or negative''), w)
      else
        let sid = normalize_session_id session_id; uid = session_user_id (PStr sid) user_id
        in case open_collection settings ''chat_messages'' of
             Inl e \<Rightarrow> Some (Inl e, w)
           | Inr messages \<Rightarrow>
               (case find_one srv messages ''message_key'' (PStr key) w of
                  None \<Rightarrow> None
                | Some (Inl e, w1) \<Rightarrow> Some (Inl e, w1)
                | Some (Inr found, w1) \<Rightarrow>
                    let message = (case found of None \<Rightarrow> [] | Some m \<Rightarrow> m)
                    in if message = [] \<or> dget message ''session_id'' \<noteq> PStr sid \<or> dget message ''role'' \<noteq> PStr ''assistant''
                       then Some (Inl (exn ''ValueError'' ''assistant message does not belong to this session''), w1)
                       else (case open_collection settings ''message_feedback'' of
                               Inl e \<Rightarrow> Some (Inl e, w1)
                             | Inr feedback \<Rightarrow>
                                 upsert srv feedback ''assistant_message_key'' (PStr key)
                                   (feedback_entry key message sid uid rating reason) w1)))"

section \<open>Properties\<close>

lemma load_messages_rows:
  assumes "serves cap srv rows valid" "valid w" "open_collection settings ''chat_messages'' = Inr messages"
  shows "load_messages srv settings fs limit w =
    Some (Inr (rev (take limit (filter is_visible (take limit (rev (selected fs (rows w messages))))))), w)"
proof -
  have "list_entities srv messages (eq_filters fs) (Some ''createdAt:desc'') (max 1 (min limit 100)) (Some limit) w =
      Some (Inr (take limit (rev (selected fs (rows w messages)))), w)"
    using list_entities_rows [OF assms(1,2), of "Some ''createdAt:desc''" "max 1 (min limit 100)" fs messages "Some limit"]
    by (auto simp: arranged_def limited_def)
  then show ?thesis by (simp add: load_messages_def assms(3))
qed

lemma loaded_row:
  assumes "r \<in> set (rev (take limit (filter is_visible (take limit (rev (selected fs rs))))))"
  shows "r \<in> set rs \<and> is_visible r \<and> (\<forall>(f, v) \<in> set fs. dget r f = PStr v)"
  using assms by (auto simp: selected_def list_all_iff dest!: in_set_takeD) fastforce

lemma set_last_items: "set (last_items n xs) \<subseteq> set xs"
  by (simp add: last_items_def set_drop_subset)

lemma length_last_items: "length xs \<le> n + m \<Longrightarrow> length (last_items n xs) \<le> (if n = 0 then m else n)"
  by (auto simp: last_items_def)

lemma disjoint_images:
  assumes "f ` A \<subseteq> K" "\<And>c. c \<in> B \<Longrightarrow> f c \<notin> K"
  shows "f ` A \<inter> f ` B = {}"
proof -
  have "f ` B \<inter> K = {}" using assms(2) by auto
  moreover have "f ` A \<inter> f ` B \<subseteq> K \<inter> f ` B" by (rule Int_mono [OF assms(1) subset_refl])
  ultimately show ?thesis by (simp add: Int_commute)
qed

lemma item_fields:
  "dget (context_item_from_message r) ''message_key'' = PStr (text_or_empty (dget r ''message_key''))"
  "dget (context_item_from_message r) ''user_id'' = dget r ''user_id''"
  by (simp_all add: context_item_from_message_def dget_def dget_or_def)

lemma item_key: "is_visible r \<Longrightarrow> get_text (context_item_from_message r) ''message_key'' = get_text r ''message_key''"
  by (simp add: get_text_def item_fields text_or_empty_def is_visible_def py_or_def)

text \<open>C33: The context of a session is its own. Both views a turn's context gets are made of messages of the
  session with the given id only, the second one of the given user only, and no message appears in both.
  The first view has at most \<open>session_limit\<close> messages and the second at most \<open>user_limit\<close>, except that
  a \<open>user_limit\<close> of 0, for which the code's slice \<open>[-0:]\<close> is the whole list, bounds it by \<open>session_limit\<close>
  only (the repository's only call uses 8 for both). Reading them changes nothing. The content server is any
  that pages as documented (\<open>serves\<close>).\<close>

theorem context_isolated:
  assumes "serves cap srv rows valid" "valid w" "open_collection settings ''chat_messages'' = Inr messages"
  shows "\<exists>sc uc. load_session_context_views srv settings session_id user_id session_limit user_limit w =
      Some (Inr [(''session_context'', PList (map PDict sc)), (''session_user_context'', PList (map PDict uc))], w) \<and>
    length sc \<le> session_limit \<and> length uc \<le> (if user_limit = 0 then session_limit else user_limit) \<and>
    (\<forall>c \<in> set sc \<union> set uc. \<exists>r \<in> set (rows w messages). c = context_item_from_message r \<and> is_visible r \<and>
       dget r ''session_id'' = PStr (normalize_session_id session_id)) \<and>
    (\<forall>c \<in> set uc. dget c ''user_id'' =
       PStr (session_user_id (PStr (normalize_session_id session_id)) (PStr (session_user_id session_id user_id)))) \<and>
    (\<lambda>d. get_text d ''message_key'') ` set sc \<inter> (\<lambda>d. get_text d ''message_key'') ` set uc = {}"
proof -
  let ?sid = "normalize_session_id session_id"
  let ?uid = "session_user_id (PStr ?sid) (PStr (session_user_id session_id user_id))"
  define srows where "srows = rev (take session_limit (filter is_visible
    (take session_limit (rev (selected [(''session_id'', ?sid)] (rows w messages))))))"
  define urows where "urows = rev (take (user_limit + session_limit) (filter is_visible
    (take (user_limit + session_limit) (rev (selected [(''session_id'', ?sid), (''user_id'', ?uid)] (rows w messages))))))"
  define keys where "keys = map (\<lambda>r. get_text r ''message_key'') (filter (\<lambda>r. truthy (dget r ''message_key'')) srows)"
  define others where "others = filter (\<lambda>r. truthy (dget r ''message_key'') \<and> get_text r ''message_key'' \<notin> set keys) urows"
  let ?sc = "map context_item_from_message srows" and ?uc = "last_items user_limit (map context_item_from_message others)"
  have views: "load_session_context_views srv settings session_id user_id session_limit user_limit w =
      Some (Inr [(''session_context'', PList (map PDict ?sc)), (''session_user_context'', PList (map PDict ?uc))], w)"
    by (simp add: load_session_context_views_def load_session_messages_def load_session_user_messages_def
        load_messages_rows [OF assms] context_views_def srows_def [symmetric] urows_def [symmetric] keys_def [symmetric]
        others_def [symmetric] Let_def)
  have s: "r \<in> set (rows w messages) \<and> is_visible r \<and> dget r ''session_id'' = PStr ?sid" if "r \<in> set srows" for r
    using loaded_row [OF that [unfolded srows_def]] by simp
  have u: "r \<in> set (rows w messages) \<and> is_visible r \<and> dget r ''session_id'' = PStr ?sid \<and> dget r ''user_id'' = PStr ?uid"
    if "r \<in> set others" for r
  proof -
    have "r \<in> set urows" using that by (simp add: others_def)
    from loaded_row [OF this [unfolded urows_def]] show ?thesis by simp
  qed
  have uc: "\<exists>r \<in> set others. c = context_item_from_message r" if "c \<in> set ?uc" for c
    using subsetD [OF set_last_items that] by auto
  note key = item_key
  have "(\<lambda>d. get_text d ''message_key'') ` set ?sc \<inter> (\<lambda>d. get_text d ''message_key'') ` set ?uc = {}"
  proof -
    have "(\<lambda>d. get_text d ''message_key'') ` set ?sc \<subseteq> set keys" using s key by (auto simp: keys_def is_visible_def)
    moreover have "get_text c ''message_key'' \<notin> set keys" if c: "c \<in> set ?uc" for c
    proof -
      obtain r where r: "r \<in> set others" "c = context_item_from_message r" using uc [OF c] by blast
      then have "get_text c ''message_key'' = get_text r ''message_key''" using u [OF r(1)] key by simp
      then show ?thesis using r(1) by (simp add: others_def)
    qed
    ultimately show ?thesis by (rule disjoint_images)
  qed
  moreover have "length ?sc \<le> session_limit" by (simp add: srows_def)
  moreover have "length ?uc \<le> (if user_limit = 0 then session_limit else user_limit)"
  proof (rule length_last_items)
    have "length others \<le> length urows" unfolding others_def by (rule length_filter_le)
    also have "\<dots> \<le> user_limit + session_limit" by (simp add: urows_def)
    finally show "length (map context_item_from_message others) \<le> user_limit + session_limit" by simp
  qed
  moreover have "dget c ''user_id'' = PStr ?uid" if c: "c \<in> set ?uc" for c
  proof -
    obtain r where "r \<in> set others" "c = context_item_from_message r" using uc [OF c] by blast
    then show ?thesis using u by (simp add: item_fields)
  qed
  moreover have "\<exists>r \<in> set (rows w messages). c = context_item_from_message r \<and> is_visible r \<and> dget r ''session_id'' = PStr ?sid"
    if "c \<in> set ?sc \<union> set ?uc" for c
    using that
  proof
    assume "c \<in> set ?sc"
    then show ?thesis using s by auto
  next
    assume "c \<in> set ?uc"
    then show ?thesis using uc u by blast
  qed
  ultimately show ?thesis using views by blast
qed

definition turn_of :: "pyval \<Rightarrow> pyval \<Rightarrow> pydict \<Rightarrow> string \<Rightarrow> pydict \<Rightarrow> turn_identity" where
  "turn_of session_id user_id result source metadata =
     (let sid = normalize_session_id session_id
      in \<lparr>ti_session = sid, ti_user = session_user_id (PStr sid) user_id, ti_trace = trace_id result sid,
          ti_source = source, ti_metadata = metadata\<rparr>)"

lemma entries_plain:
  "plain_data (session_entry t user_message)" "plain_data (user_entry t user_message)"
  "assistant_entry t i a result = Inr entry \<Longrightarrow> plain_data entry"
  by (auto simp: plain_data_def has_key_def session_entry_def user_entry_def assistant_entry_def Let_def split: sum.splits)

lemma user_fields:
  "has_key (user_entry t u) k \<longleftrightarrow> k \<in> {''message_key'', ''session_id'', ''user_id'', ''trace_id'', ''role'', ''content'', ''source'', ''metadata''}"
  "dget (user_entry t u) ''message_key'' = PStr (message_key t ''user'')"
  "dget (user_entry t u) ''session_id'' = PStr (ti_session t)"
  "dget (user_entry t u) ''role'' = PStr ''user''" "dget (user_entry t u) ''content'' = PStr u"
  by (auto simp: user_entry_def has_key_def dget_map_of)

lemma assistant_fields:
  assumes "assistant_entry t i a result = Inr entry"
  shows "k \<in> {''message_key'', ''session_id'', ''role'', ''content''} \<Longrightarrow> has_key entry k"
    and "dget entry ''message_key'' = PStr (message_key t ''assistant'')"
    and "dget entry ''session_id'' = PStr (ti_session t)"
    and "dget entry ''role'' = PStr ''assistant''" "dget entry ''content'' = PStr a"
  using assms by (auto simp: assistant_entry_def has_key_def dget_map_of split: sum.splits)

lemma newest_first:
  assumes "dget u ''session_id'' = PStr sid" "dget a ''session_id'' = PStr sid" "is_visible u" "is_visible a"
  shows "rev (take (limit + 2) (filter is_visible (take (limit + 2) (rev (selected [(''session_id'', sid)] (rs @ [u, a])))))) =
    rev (take limit (filter is_visible (take limit (rev (selected [(''session_id'', sid)] rs))))) @ [u, a]"
proof -
  have "selected [(''session_id'', sid)] (rs @ [u, a]) = selected [(''session_id'', sid)] rs @ [u, a]"
    using assms(1,2) by (simp add: selected_def)
  then show ?thesis using assms(3,4) by simp
qed

text \<open>C32: A turn is read back as it was saved. After a turn with a new trace is saved, the recent conversation
  of its session is the one before it followed by the user's message and the answer, in this order, and
  the answer's key is the last of the assistant's messages; for every number of older messages asked for.\<close>

theorem turn_read_back:
  assumes srv: "serves cap srv rows valid" "valid w"
    and colls: "open_collection settings ''chat_sessions'' = Inr sessions"
      "open_collection settings ''chat_messages'' = Inr messages" "sessions \<noteq> messages"
    and t: "t = turn_of session_id user_id result source metadata"
    and fresh: "\<And>r role. r \<in> set (rows w messages) \<Longrightarrow> role \<in> {''user'', ''assistant''} \<Longrightarrow>
      dget r ''message_key'' \<noteq> PStr (message_key t role)"
    and entry: "assistant_entry t instance_id answer result = Inr entry"
  shows "\<exists>w'. save_chat_turn srv settings instance_id session_id user_id question answer result source metadata w =
      Some (Inr (message_key t ''assistant''), w') \<and>
    (\<forall>limit. \<exists>history ids.
       load_recent_conversation srv settings session_id limit w = Some (Inr (history, ids), w) \<and>
       load_recent_conversation srv settings session_id (limit + 2) w' =
         Some (Inr (history @ [[(''role'', PStr ''user''), (''content'', PStr question)],
                               [(''role'', PStr ''assistant''), (''content'', PStr answer)]],
                    ids @ [message_key t ''assistant'']), w'))"
proof -
  let ?sid = "normalize_session_id session_id"
  have sid: "ti_session t = ?sid" by (simp add: t turn_of_def Let_def)
  obtain x1 w1 where s: "upsert srv sessions ''session_id'' (PStr ?sid) (session_entry t question) w = Some (x1, w1)"
      "valid w1" "\<not> isl x1" "rows w1 messages = rows w messages"
    using upsert_elsewhere [OF srv entries_plain(1)] colls(3) by metis
  have none1: "dget r ''message_key'' \<noteq> PStr (message_key t ''user'')" if "r \<in> set (rows w1 messages)" for r
    using fresh that by (simp add: s(4))
  obtain u w2 where u: "upsert srv messages ''message_key'' (PStr (message_key t ''user'')) (user_entry t question) w1 = Some (Inr u, w2)"
      "valid w2" "rows w2 = (rows w1)(messages := rows w1 messages @ [u])"
      "\<And>k. has_key (user_entry t question) k \<Longrightarrow> dget u k = dget (user_entry t question) k"
    using upsert_fresh [OF srv(1) s(2) entries_plain(2) none1] by metis
  have rows2: "rows w2 messages = rows w messages @ [u]" by (simp add: u(3) s(4))
  have udata: "dget u ''message_key'' = PStr (message_key t ''user'')" "dget u ''session_id'' = PStr ?sid"
    "dget u ''role'' = PStr ''user''" "dget u ''content'' = PStr question"
    using u(4) by (simp_all add: user_fields sid)
  have none2: "dget r ''message_key'' \<noteq> PStr (message_key t ''assistant'')" if "r \<in> set (rows w2 messages)" for r
    using fresh that udata(1) by (auto simp: rows2 message_key_def)
  obtain a w3 where a: "upsert srv messages ''message_key'' (PStr (message_key t ''assistant'')) entry w2 = Some (Inr a, w3)"
      "valid w3" "rows w3 = (rows w2)(messages := rows w2 messages @ [a])" "\<And>k. has_key entry k \<Longrightarrow> dget a k = dget entry k"
    using upsert_fresh [OF srv(1) u(2) entries_plain(3) [OF entry] none2] by metis
  have rows3: "rows w3 messages = rows w messages @ [u, a]" by (simp add: a(3) rows2)
  have adata: "dget a ''message_key'' = PStr (message_key t ''assistant'')" "dget a ''session_id'' = PStr ?sid"
    "dget a ''role'' = PStr ''assistant''" "dget a ''content'' = PStr answer"
    using a(4) assistant_fields [OF entry] by (simp_all add: sid)
  have visible: "is_visible u" "is_visible a" using udata adata by (simp_all add: is_visible_def message_key_def)
  have saved: "save_chat_turn srv settings instance_id session_id user_id question answer result source metadata w =
      Some (Inr (message_key t ''assistant''), w3)"
    using s(1,3) u(1) a(1) entry t
    by (cases x1) (simp_all add: save_chat_turn_def turn_of_def colls Let_def)
  have "\<exists>history ids. load_recent_conversation srv settings session_id limit w = Some (Inr (history, ids), w) \<and>
       load_recent_conversation srv settings session_id (limit + 2) w3 =
         Some (Inr (history @ [[(''role'', PStr ''user''), (''content'', PStr question)],
                               [(''role'', PStr ''assistant''), (''content'', PStr answer)]],
                    ids @ [message_key t ''assistant'']), w3)" for limit
    unfolding load_recent_conversation_def load_session_messages_def load_messages_rows [OF srv colls(2)]
      load_messages_rows [OF srv(1) a(2) colls(2)] rows3 newest_first [OF udata(2) adata(2) visible]
    using udata adata by (simp add: history_item_def assistant_ids_def get_text_def)
  with saved show ?thesis by blast
qed

text \<open>Feedback stays with its session. Whatever is asked, only the collection of feedback can change, and
  it changes only for a rating of an existing message of the assistant in the given session.\<close>

theorem feedback_isolated:
  assumes srv: "serves cap srv rows valid" "valid w"
    and colls: "open_collection settings ''chat_messages'' = Inr messages"
      "open_collection settings ''message_feedback'' = Inr feedback"
  shows "\<exists>r w'. save_message_feedback srv settings key session_id user_id rating reason w = Some (r, w') \<and>
    (\<forall>e. e \<noteq> feedback \<longrightarrow> rows w' e = rows w e) \<and>
    (isl r \<longrightarrow> w' = w) \<and>
    (\<not> isl r \<longrightarrow> (rating = ''positive'' \<or> rating = ''negative'') \<and>
       (\<exists>m \<in> set (rows w messages). dget m ''message_key'' = PStr key \<and> dget m ''role'' = PStr ''assistant'' \<and>
          dget m ''session_id'' = PStr (normalize_session_id session_id)))"
proof (cases "rating = ''positive'' \<or> rating = ''negative''")
  case False
  then show ?thesis by (simp add: save_message_feedback_def)
next
  case rating: True
  let ?sid = "normalize_session_id session_id"
  let ?uid = "session_user_id (PStr ?sid) user_id"
  obtain found where found: "find_one srv messages ''message_key'' (PStr key) w = Some (Inr found, w)"
    "\<And>m. found = Some m \<Longrightarrow> m \<in> set (selected [(''message_key'', key)] (rows w messages))"
    by (rule find_one_row [OF srv, of "''message_key''" key messages]) auto
  define m where "m = (case found of None \<Rightarrow> [] | Some m \<Rightarrow> m)"
  have run: "save_message_feedback srv settings key session_id user_id rating reason w =
      (if m = [] \<or> dget m ''session_id'' \<noteq> PStr ?sid \<or> dget m ''role'' \<noteq> PStr ''assistant''
       then Some (Inl (exn ''ValueError'' ''assistant message does not belong to this session''), w)
       else upsert srv feedback ''assistant_message_key'' (PStr key) (feedback_entry key m ?sid ?uid rating reason) w)"
    using rating by (auto simp: save_message_feedback_def colls found(1) Let_def m_def [symmetric])
  show ?thesis
  proof (cases "m = [] \<or> dget m ''session_id'' \<noteq> PStr ?sid \<or> dget m ''role'' \<noteq> PStr ''assistant''")
    case True
    then show ?thesis using run by simp
  next
    case False
    then have "found = Some m" by (cases found) (simp_all add: m_def)
    then have "m \<in> set (selected [(''message_key'', key)] (rows w messages))" by (rule found(2))
    then have row: "m \<in> set (rows w messages)" "dget m ''message_key'' = PStr key" by (auto simp: selected_def)
    have "plain_data (feedback_entry key m ?sid ?uid rating reason)"
      by (simp add: plain_data_def has_key_def feedback_entry_def)
    from upsert_elsewhere [OF srv this] obtain r w' where
      "upsert srv feedback ''assistant_message_key'' (PStr key) (feedback_entry key m ?sid ?uid rating reason) w = Some (r, w')"
      "\<not> isl r" "\<And>e. e \<noteq> feedback \<Longrightarrow> rows w' e = rows w e" by metis
    then show ?thesis using run False row rating by auto
  qed
qed

definition content_settings :: strapi_settings where
  "content_settings =
     \<lparr>st_base_url = ''http://content'', st_api_token = ''token'',
      st_collections = [(''chat_sessions'', ''strapi'', ''/sessions''), (''chat_messages'', ''strapi'', ''/chats''),
        (''message_feedback'', ''strapi'', ''/feedback'')]\<rparr>"

lemma content_collections:
  "open_collection content_settings ''chat_sessions'' = Inr ''/sessions''"
  "open_collection content_settings ''chat_messages'' = Inr ''/chats''"
  "open_collection content_settings ''message_feedback'' = Inr ''/feedback''"
  by (simp_all add: open_collection_def strapi_client_def collection_endpoint_def content_settings_def)

lemma three_rows_ok: "content_ok three_rows"
  by (simp add: content_ok_def three_rows_def plain_row_def dget_map_of)

theorem context_isolated_witness:
  "\<exists>sc uc. load_session_context_views memory_server content_settings (PStr '' s'') PNone 2 2 three_rows =
      Some (Inr [(''session_context'', PList (map PDict sc)), (''session_user_context'', PList (map PDict uc))], three_rows) \<and>
    length sc \<le> 2 \<and> length uc \<le> 2"
  using context_isolated [where rows = id and valid = content_ok, OF memory_serves three_rows_ok content_collections(2), of "PStr '' s''" PNone 2 2] by auto

theorem turn_read_back_witness:
  "\<exists>w'. save_chat_turn memory_server content_settings ''i'' (PStr ''s'') PNone ''hello'' ''hi'' [(''trace_id'', PStr ''t1'')] ''api'' [] three_rows =
      Some (Inr ''t1:assistant'', w') \<and>
    load_recent_conversation memory_server content_settings (PStr ''s'') 2 w' =
      Some (Inr ([[(''role'', PStr ''user''), (''content'', PStr ''hello'')],
                  [(''role'', PStr ''assistant''), (''content'', PStr ''hi'')]], [''t1:assistant'']), w')"
proof -
  let ?t = "turn_of (PStr ''s'') PNone [(''trace_id'', PStr ''t1'')] ''api'' []"
  have key: "message_key ?t role = ''t1:'' @ role" for role
    by (simp add: turn_of_def message_key_def trace_id_def Let_def dget_map_of py_or_def)
  obtain entry where entry: "assistant_entry ?t ''i'' ''hi'' [(''trace_id'', PStr ''t1'')] = Inr entry"
    by (simp add: assistant_entry_def retrieved_faq_ids_def latency_ms_def dget_map_of)
  have fresh: "dget r ''message_key'' \<noteq> PStr (message_key ?t role)" if "r \<in> set (id three_rows ''/chats'')" for r role
    using that by (auto simp: three_rows_def dget_map_of)
  have before_turn: "load_recent_conversation memory_server content_settings (PStr ''s'') 0 three_rows = Some (Inr ([], []), three_rows)"
    by (simp add: load_recent_conversation_def load_session_messages_def assistant_ids_def
        load_messages_rows [where rows = id and valid = content_ok, OF memory_serves three_rows_ok content_collections(2)])
  obtain w' where w': "save_chat_turn memory_server content_settings ''i'' (PStr ''s'') PNone ''hello'' ''hi''
        [(''trace_id'', PStr ''t1'')] ''api'' [] three_rows = Some (Inr (message_key ?t ''assistant''), w')"
    and read: "\<forall>limit. \<exists>history ids.
       load_recent_conversation memory_server content_settings (PStr ''s'') limit three_rows = Some (Inr (history, ids), three_rows) \<and>
       load_recent_conversation memory_server content_settings (PStr ''s'') (limit + 2) w' =
         Some (Inr (history @ [[(''role'', PStr ''user''), (''content'', PStr ''hello'')],
                               [(''role'', PStr ''assistant''), (''content'', PStr ''hi'')]],
                    ids @ [message_key ?t ''assistant'']), w')"
    using turn_read_back [where rows = id and valid = content_ok and question = "''hello''",
        OF memory_serves three_rows_ok content_collections(1,2) _ refl fresh entry] by auto
  show ?thesis using w' spec [OF read, of 0] before_turn by (simp add: key numeral_2_eq_2)
qed

theorem feedback_isolated_witness:
  "\<exists>r w'. save_message_feedback memory_server content_settings ''k'' (PStr ''s'') PNone ''positive'' None three_rows = Some (r, w') \<and>
    w' ''/chats'' = three_rows ''/chats''"
  using feedback_isolated [where rows = id and valid = content_ok, OF memory_serves three_rows_ok content_collections(2,3), of "''k''" "PStr ''s''" PNone "''positive''" None]
  by auto

text \<open>A \<open>user_limit\<close> of 0 does not empty the second view.\<close>

definition shared_session :: content where
  "shared_session e =
     (if e = ''/chats''
      then map (\<lambda>(k, u). [(''documentId'', PStr k), (''message_key'', PStr k), (''role'', PStr ''user''),
             (''content'', PStr k), (''session_id'', PStr ''s''), (''user_id'', PStr u)])
        [(''m1'', ''u1''), (''m2'', ''u2'')]
      else [])"

lemma shared_session_ok: "content_ok shared_session"
  by (simp add: content_ok_def shared_session_def plain_row_def dget_map_of)

lemma zero_limit_returns_messages:
  "\<exists>sc c. load_session_context_views memory_server content_settings (PStr ''s'') (PStr ''u1'') 1 0 shared_session =
     Some (Inr [(''session_context'', PList sc), (''session_user_context'', PList [PDict c])], shared_session) \<and>
     dget c ''content'' = PStr ''m1''"
  by (simp add: load_session_context_views_def load_session_messages_def load_session_user_messages_def
      load_messages_rows [where rows = id and valid = content_ok, OF memory_serves shared_session_ok content_collections(2)]
      context_views_def shared_session_def selected_def dget_map_of is_visible_def normalize_session_id_def
      session_user_id_def text_or_empty_def py_strip_def is_space_def get_text_def last_items_def py_or_def
      context_item_from_message_def Let_def)

end
