(* ===== verification/Configured_Runner.thy ===== *)
theory Configured_Runner
  imports Engines Approval_Gate Tool_Adapters Memory_Service Sessions
begin

text \<open>
  A whole turn of a configured agent and the decision of an approval (\<open>configured_runner.py\<close>,
  \<open>execution_engine.py\<close>): the parts of the turn are put together from the tools of the runtime context
  behind the approval gate, the planner, the context loader with governed memory, and run on one of the
  two engines; an approved call is executed against a freshly resolved context and the turn goes on. The
  services of the world are an environment: the language model, the session store, the skill library,
  the MCP servers, the resolver of contexts, the usage counter, the tool log and the checkpoints.
\<close>

record 'w turn_env =
  te_platform :: "'w platform"
  te_schedule :: "nat \<Rightarrow> nat list"
  te_node_name :: "node \<Rightarrow> string"
  te_max_iterations :: int
  te_step_limit :: nat
  te_registry :: "'w runner_registry"
  te_call_mcp :: "'w mcp_call"
  te_digest :: "pydict \<Rightarrow> string"
  te_warmup :: "pydict \<Rightarrow> 'w \<Rightarrow> (py_exn + pydict) \<times> 'w"
  te_tool_state :: pydict
  te_tool_log :: "(pydict \<Rightarrow> 'w \<Rightarrow> 'w) option"
  te_views :: "pydict \<Rightarrow> 'w \<Rightarrow> (py_exn + pydict) \<times> 'w"
  te_skill_index :: "pydict \<Rightarrow> 'w \<Rightarrow> py_exn + pyval list"
  te_memory :: "'w memory_service"
  te_now :: "'w \<Rightarrow> int"
  te_chat :: "pydict \<Rightarrow> 'w \<Rightarrow> (py_exn + pydict) \<times> 'w"
  te_usage :: "'w \<Rightarrow> pydict"
  te_checkpoint :: "'w \<Rightarrow> pyval"
  te_saved_state :: "string \<Rightarrow> 'w \<Rightarrow> pydict"
  te_resolve :: "string \<Rightarrow> string \<Rightarrow> string \<Rightarrow> string \<Rightarrow> 'w \<Rightarrow> (py_exn + pydict) \<times> 'w"
  te_fresh :: "'w \<Rightarrow> string"
  te_thinking :: bool
  te_engine :: string

record 'w approval_api =
  api_create :: "'w create"
  api_get :: "string \<Rightarrow> 'w \<Rightarrow> pydict option"
  api_decide :: "string \<Rightarrow> approval_decision \<Rightarrow> 'w \<Rightarrow> (approval_error + pydict) \<times> 'w"
  api_mark_executed :: "string \<Rightarrow> pydict \<Rightarrow> 'w \<Rightarrow> 'w"

fun approval_exn :: "approval_error \<Rightarrow> py_exn" where
  "approval_exn NotFound = exn ''ApprovalError'' ''the approval does not exist''"
| "approval_exn AlreadyDecided = exn ''ApprovalError'' ''the approval is already decided''"
| "approval_exn RequestExpired = exn ''ApprovalError'' ''the approval has expired''"
| "approval_exn (StoreError s) = exn ''DatabaseError'' s"
| "approval_exn (Unsupported s) = exn ''ValueError'' s"

fun memory_exn :: "memory_error \<Rightarrow> py_exn" where
  "memory_exn (ValueError s) = exn ''ValueError'' s"
| "memory_exn (AttributeError s) = exn ''AttributeError'' s"
| "memory_exn (RuntimeErr s) = exn ''RuntimeError'' s"

section \<open>The request\<close>

text \<open>The constructor of \<open>AgentRequest\<close>; the stream handler is left out.\<close>

definition agent_request :: "string \<Rightarrow> pyval \<Rightarrow> pyval \<Rightarrow> pyval \<Rightarrow> pyval list \<Rightarrow> pydict" where
  "agent_request query user_id session_id trace history =
     (let sid = normalize_session_id session_id
      in [(''query'', PStr query), (''product_id'', PStr ''aicoin''), (''domain_hint'', PNone),
          (''user_id'', PStr (if truthy user_id then py_strip (py_str user_id)
             else derive_user_id_from_session (PStr sid))),
          (''session_id'', PStr sid), (''trace_id'', trace), (''history'', PList history)])"

text \<open>\<open>replace\<close> runs the constructor again, which changes nothing but the id.\<close>

definition ensure_trace_id :: "string \<Rightarrow> pydict \<Rightarrow> pydict" where
  "ensure_trace_id fresh request =
     (if truthy (dget request ''trace_id'') then request
      else dset ''trace_id'' (PStr (''turn-'' @ fresh)) request)"

section \<open>The context of a turn\<close>

definition is_load_skill_manifest :: "pydict \<Rightarrow> bool" where
  "is_load_skill_manifest tool \<longleftrightarrow>
     (let tool_id = text_or_empty (dget tool ''tool_id'')
      in tool_id = ''runtime.load_skill'' \<or> ends_with tool_id ''.load_skill'' \<or>
         text_or_empty (dget tool ''runner_name'') = ''load_skill'')"

definition load_skill_scope :: "pydict \<Rightarrow> pydict" where
  "load_skill_scope ctx =
     (let scopes = as_dict (dget ctx ''tool_scopes'');
          tools = map as_dict (filter is_dict (as_list (dget ctx ''tools'')));
          candidates = map (\<lambda>t. text_or_empty (dget t ''tool_id'')) (filter is_load_skill_manifest tools) @
            [''runtime.load_skill'', ''load_skill'']
      in case filter (\<lambda>c. is_dict (dget scopes c)) candidates of
           [] \<Rightarrow> []
         | c # _ \<Rightarrow> as_dict (dget scopes c))"

definition configured_skill_index :: "'w turn_env \<Rightarrow> pydict \<Rightarrow> 'w \<Rightarrow> pyval list" where
  "configured_skill_index env ctx w =
     (let scope = load_skill_scope ctx
      in if scope = [] then []
         else case te_skill_index env scope w of Inl e \<Rightarrow> [] | Inr items \<Rightarrow> items)"

definition memory_scope_of :: "pydict \<Rightarrow> governance \<Rightarrow> pydict \<Rightarrow> memory_error + memory_scope" where
  "memory_scope_of ctx gov request =
     (let agent = as_dict (dget ctx ''agent''); sid = text_or_empty (dget request ''session_id'')
      in MemoryScope
           \<lparr>sc_user_id = py_strip (text_or_empty (dget request ''user_id'')),
            sc_session_id = (if sid = [] then None else Some sid),
            sc_agent_id = (if truthy (dget agent ''id'') then Some (get_text agent ''id'') else gv_agent_id gov),
            sc_tenant_id = Some (gv_tenant_id gov), sc_namespace = ''preferences'', sc_memory_scope = ''user_global''\<rparr>)"

text \<open>What is recalled for the request; a failure before the recall passes through.\<close>

definition recalled_memory :: "'w turn_env \<Rightarrow> pydict \<Rightarrow> pydict \<Rightarrow> 'w \<Rightarrow> py_exn + memory_item list" where
  "recalled_memory env ctx request w =
     (if py_strip (text_or_empty (dget request ''user_id'')) = [] then Inr []
      else case governance_from_runtime_context (PDict ctx) None of
             Inl e \<Rightarrow> Inl (memory_exn e)
           | Inr gov \<Rightarrow>
               (case memory_scope_of ctx gov request of
                  Inl e \<Rightarrow> Inl (memory_exn e)
                | Inr scope \<Rightarrow> Inr (svc_recall (te_memory env) w (te_now env w) scope
                    (text_or_empty (dget request ''query'')) (Some gov))))"

definition context_of :: "pydict \<Rightarrow> pydict \<Rightarrow> pyval list \<Rightarrow> pydict \<Rightarrow> memory_item list \<Rightarrow> pydict" where
  "context_of ctx request skill_index views memory =
     (let history = as_list (dget request ''history'')
      in [(''history'', PList (drop (length history - 8) history)),
          (''session_context'', dget views ''session_context''),
          (''session_user_context'', dget views ''session_user_context''),
          (''memory'', PList (map (PDict \<circ> to_prompt_dict) memory)), (''runtime_context'', PDict ctx),
          (''active_tool_ids'', PList (as_list (py_or (dget ctx ''tool_ids'') (PList [])))),
          (''tool_scopes'', py_or (dget ctx ''tool_scopes'') (PDict [])), (''skill_index'', PList skill_index),
          (''skill_index_source'', PStr (if skill_index \<noteq> [] then ''runtime_tool_scope'' else ''none''))])"

definition load_configured_context ::
  "'w turn_env \<Rightarrow> pydict \<Rightarrow> pydict \<Rightarrow> 'w \<Rightarrow> (py_exn + pydict) \<times> 'w" where
  "load_configured_context env ctx request w =
     (let skill_index = configured_skill_index env ctx w;
          (views, w') = (case te_views env request w of
             (Inr v, w') \<Rightarrow> (v, w')
           | (Inl e, w') \<Rightarrow> ([(''session_context'', PList []), (''session_user_context'', PList [])], w'))
      in case recalled_memory env ctx request w' of
           Inl e \<Rightarrow> (Inl e, w')
         | Inr memory \<Rightarrow> (Inr (context_of ctx request skill_index views memory), w'))"

definition load_configured_skills :: "pydict \<Rightarrow> pydict \<Rightarrow> pydict" where
  "load_configured_skills request ctx =
     (let index = PList (as_list (dget ctx ''skill_index''))
      in [(''query'', dget request ''query''), (''candidates'', index), (''skills'', PList []),
          (''auto_skills'', PList []), (''session_skills'', PList []), (''skill_index'', index),
          (''skipped'', PBool True),
          (''reason'', py_or (dget ctx ''skill_index_source'') (PStr ''configured_scope_index''))])"

section \<open>The parts of a turn\<close>

text \<open>\<open>record_mcp_warmup\<close> writes the results into the policy of the context it is given.\<close>

definition record_mcp_warmup :: "'w turn_env \<Rightarrow> pydict \<Rightarrow> 'w \<Rightarrow> (py_exn + pydict) \<times> 'w" where
  "record_mcp_warmup env ctx w =
     (case warmup_runtime_mcp_clients (te_digest env) (te_warmup env) ctx w of
        (Inl e, w') \<Rightarrow> (Inl e, w')
      | (Inr [], w') \<Rightarrow> (Inr ctx, w')
      | (Inr results, w') \<Rightarrow>
          (Inr (dset ''policy''
             (PDict (dset ''mcp_warmup'' (PDict results) (as_dict (dget ctx ''policy'')))) ctx), w'))"

definition log_hooks :: "(pydict \<Rightarrow> 'w \<Rightarrow> 'w) option \<Rightarrow> 'w hook list" where
  "log_hooks logger = (case logger of None \<Rightarrow> [] | Some f \<Rightarrow> [\<lambda>event w. (None, f event w)])"

definition configured_executor :: "'w turn_env \<Rightarrow> pydict \<Rightarrow> py_exn + 'w executor" where
  "configured_executor env ctx =
     (case build_runtime_tool_executor (te_registry env) (te_call_mcp env) (te_tool_state env) ctx of
        Inl e \<Rightarrow> Inl e
      | Inr ex \<Rightarrow> Inr (ex\<lparr>after_call := after_call ex @ log_hooks (te_tool_log env),
                          on_error := on_error ex @ log_hooks (te_tool_log env)\<rparr>))"

text \<open>The planner asks the model unless one of its guards decides.\<close>

definition planner_asks :: "pydict \<Rightarrow> bool" where
  "planner_asks state \<longleftrightarrow>
     (let context = py_or (dget state ''context'') (PDict [])
      in \<not> (is_dict context \<and> \<not> is_dict (dget (as_dict context) ''runtime_context''))) \<and>
     stop_replanning_after_unusable_tools state = Inr None"

definition configured_think :: "'w turn_env \<Rightarrow> pydict \<Rightarrow> 'w \<Rightarrow> (py_exn + agent_decision) \<times> 'w" where
  "configured_think env state w =
     (case te_chat env state w of
        (reply, w') \<Rightarrow>
          (configured_planner_think (\<lambda>_. reply) state, if planner_asks state then w' else w))"

definition configured_run_tools ::
  "'w turn_env \<Rightarrow> 'w executor \<Rightarrow> 'w approval_gate \<Rightarrow> pydict list \<Rightarrow> pydict \<Rightarrow> 'w \<Rightarrow> (py_exn + pydict) \<times> 'w" where
  "configured_run_tools env ex gate calls state w =
     (case gated_run_tools (te_platform env) (te_schedule env) ex gate calls state w of
        (Inl e, w') \<Rightarrow> (Inl (approval_exn e), w')
      | (Inr r, w') \<Rightarrow> (Inr r, w'))"

definition configured_run_tool ::
  "'w turn_env \<Rightarrow> 'w executor \<Rightarrow> 'w approval_gate \<Rightarrow> string \<Rightarrow> pydict \<Rightarrow> pydict \<Rightarrow> 'w \<Rightarrow> (py_exn + pydict) \<times> 'w" where
  "configured_run_tool env ex gate name args state w =
     (case gated_run_tool (te_platform env) ex gate name args state w of
        (Inl e, w') \<Rightarrow> (Inl (approval_exn e), w')
      | (Inr r, w') \<Rightarrow> (r, w'))"

definition configured_parts ::
  "'w turn_env \<Rightarrow> pydict \<Rightarrow> 'w executor \<Rightarrow> 'w approval_gate \<Rightarrow> 'w dependencies" where
  "configured_parts env ctx ex gate =
     \<lparr>dep_load_context = (\<lambda>request w. load_configured_context env ctx request w),
      dep_think = (\<lambda>state w. configured_think env state w),
      dep_run_tool = (\<lambda>name args state w. configured_run_tool env ex gate name args state w),
      dep_self_check = (\<lambda>state w. (Inr (default_self_check state), w)),
      dep_load_skills = Some (\<lambda>request context w. (Inr (load_configured_skills request context), w)),
      dep_run_tools = Some (\<lambda>calls state w. configured_run_tools env ex gate calls state w),
      dep_tool_catalog = Some (catalog ex),
      dep_pre_guard = Some (\<lambda>request context w.
        (Inr [(''route_hint'', PStr ''planner''), (''reason'', PStr ''configured_runner'')], w))\<rparr>"

text \<open>The context comes back with the results of the warm-up.\<close>

definition build_configured_dependencies ::
  "'w turn_env \<Rightarrow> pydict \<Rightarrow> 'w create option \<Rightarrow> pydict \<Rightarrow> 'w \<Rightarrow> (py_exn + pydict \<times> 'w dependencies) \<times> 'w" where
  "build_configured_dependencies env ctx store metadata w =
     (case record_mcp_warmup env ctx w of
        (Inl e, w') \<Rightarrow> (Inl e, w')
      | (Inr ctx', w') \<Rightarrow>
          (case configured_executor env ctx' of
             Inl e \<Rightarrow> (Inl e, w')
           | Inr ex \<Rightarrow>
               (Inr (ctx', configured_parts env ctx' ex
                  \<lparr>ag_context = ctx', ag_store = store, ag_metadata = metadata\<rparr>), w')))"

text \<open>They are the dependencies of which \<open>Agent_Loop\<close> shows that a turn with them ends with an answer.\<close>

lemma built_configured:
  "build_configured_dependencies env ctx store metadata w = (Inr (ctx', deps), w') \<Longrightarrow>
     configured (\<lambda>v s. fst (te_chat env s v)) deps"
  by (auto simp: build_configured_dependencies_def configured_parts_def configured_def configured_think_def
      configured_planner_think_def Let_def split: prod.splits sum.splits)

section \<open>A turn\<close>

definition get_execution_engine :: "string \<Rightarrow> string option \<Rightarrow> py_exn + string" where
  "get_execution_engine configured_name engine_name =
     (let selected = py_lower (py_strip (opt_or engine_name configured_name))
      in if selected = ''pocoflow'' \<or> selected = ''langgraph'' then Inr selected
         else Inl (exn ''ConfigError'' (''unsupported execution engine: '' @ selected)))"

definition ENGINE_SCHEMA_VERSION :: string where "ENGINE_SCHEMA_VERSION = ''planner-v1''"

definition attach_engine_metadata :: "pydict \<Rightarrow> string \<Rightarrow> string \<Rightarrow> string option \<Rightarrow> pydict" where
  "attach_engine_metadata result engine thread_id checkpoint_id =
     (let r = dset ''engine_thread_id'' (PStr thread_id)
            (dset ''engine_schema_version'' (PStr ENGINE_SCHEMA_VERSION)
              (dset ''execution_engine'' (PStr engine) result))
      in case checkpoint_id of None \<Rightarrow> r | Some c \<Rightarrow> if c = [] then r else dset ''checkpoint_id'' (PStr c) r)"

definition checkpoint_id_from_config :: "pyval \<Rightarrow> string option" where
  "checkpoint_id_from_config config =
     (let v = dget (as_dict (dget (as_dict config) ''configurable'')) ''checkpoint_id''
      in if truthy v then Some (py_str v) else None)"

text \<open>Differences of usage counters; a counter that is no number raises.\<close>

definition usage_keys :: "string list" where
  "usage_keys = [''calls'', ''failed_calls'', ''prompt_tokens'', ''completion_tokens'', ''total_tokens'']"

definition counter :: "pydict \<Rightarrow> string \<Rightarrow> py_exn + int" where
  "counter d k =
     (case py_int (py_or (dget d k) (PInt 0)) of None \<Rightarrow> Inl (exn ''ValueError'' k) | Some n \<Rightarrow> Inr n)"

definition counter_delta :: "pydict \<Rightarrow> pydict \<Rightarrow> string \<Rightarrow> py_exn + (string \<times> pyval)" where
  "counter_delta old new k =
     (case counter new k of
        Inl e \<Rightarrow> Inl e
      | Inr n \<Rightarrow> (case counter old k of Inl e \<Rightarrow> Inl e | Inr o' \<Rightarrow> Inr (k, PInt (n - o'))))"

definition model_delta :: "pydict \<Rightarrow> pydict \<Rightarrow> string \<Rightarrow> py_exn + (string \<times> pydict)" where
  "model_delta earlier later model =
     (case traverse (counter_delta (as_dict (dget earlier model)) (as_dict (dget later model))) usage_keys of
        Inl e \<Rightarrow> Inl e
      | Inr d \<Rightarrow> Inr (model, d))"

definition diff_model_usage :: "pydict \<Rightarrow> pydict \<Rightarrow> py_exn + pydict" where
  "diff_model_usage earlier later =
     (let old = dict_at earlier ''by_model''; new = dict_at later ''by_model''
      in case traverse (model_delta old new) (sorted_set (map fst old @ map fst new)) of
           Inl e \<Rightarrow> Inl e
         | Inr deltas \<Rightarrow>
             (case traverse (counter_delta earlier later) [''total_calls'', ''failed_calls''] of
                Inl e \<Rightarrow> Inl e
              | Inr totals \<Rightarrow> Inr (totals @ [(''by_model'', PDict
                  (map (\<lambda>(m, d). (m, PDict d)) (filter (\<lambda>(m, d). list_ex (truthy \<circ> snd) d) deltas)))])))"

definition subtract :: "pyval \<Rightarrow> pyval \<Rightarrow> pyval" where
  "subtract right left =
     (case (right, left) of
        (PFloat r, l) \<Rightarrow> PFloat (r - the (py_num l))
      | (r, PFloat l) \<Rightarrow> PFloat (the (py_num r) - l)
      | (r, l) \<Rightarrow> PInt (the (py_int r) - the (py_int l)))"

text \<open>The keys come in the order of a set; here in that of their first appearance.\<close>

definition diff_usage :: "pydict \<Rightarrow> pydict \<Rightarrow> pydict" where
  "diff_usage earlier later =
     concat (map (\<lambda>k.
       if is_number (dget earlier k) \<and> is_number (dget later k)
         then [(k, subtract (dget later k) (dget earlier k))]
       else if py_eq (dget later k) (dget earlier k) then [] else [(k, dget later k)])
       (unique (map fst earlier @ map fst later)))"

definition run_output :: "'w turn_env \<Rightarrow> pydict \<Rightarrow> pydict \<Rightarrow> pydict" where
  "run_output env request result =
     dset ''answer_assets'' (PList (map PDict (trusted_top1_images
         (map as_dict (list_at result ''retrieved_faqs'')) (text_option (dget result ''route'')))))
       (dset ''model_thinking_enabled'' (PBool (te_thinking env))
         (dset ''trace_id'' (dget request ''trace_id'') result))"

definition step_limit_error :: py_exn where
  "step_limit_error = exn ''StepLimit'' ''the run was cut off''"

text \<open>\<open>PocoFlowEngine.start\<close>; the turn's own request and usage are those of the parts.\<close>

definition pocoflow_start ::
  "'w turn_env \<Rightarrow> 'w dependencies \<Rightarrow> pydict \<Rightarrow> pydict \<Rightarrow> 'w \<Rightarrow> (py_exn + pydict) \<times> 'w" where
  "pocoflow_start env deps request initial w =
     (case run_agent (te_platform env) (te_node_name env) (te_max_iterations env) deps request initial w of
        (None, w') \<Rightarrow> (Inl step_limit_error, w')
      | (Some (Inl e), w') \<Rightarrow> (Inl e, w')
      | (Some (Inr s), w') \<Rightarrow>
          (case diff_model_usage (te_usage env w) (te_usage env w') of
             Inl e \<Rightarrow> (Inl e, w')
           | Inr usage \<Rightarrow>
               (Inr (attach_engine_metadata (dset ''model_usage'' (PDict usage) (run_output env request s))
                  ''pocoflow'' (get_text request ''trace_id'') None), w')))"

text \<open>\<open>LangGraphEngine._invoke\<close> after the run of the graph.\<close>

definition graph_output ::
  "'w turn_env \<Rightarrow> pydict \<Rightarrow> string \<Rightarrow> 'w \<Rightarrow> graph_outcome option \<times> 'w \<Rightarrow> (py_exn + pydict) \<times> 'w" where
  "graph_output env request thread_id w0 ended_run =
     (case ended_run of
        (None, w') \<Rightarrow> (Inl step_limit_error, w')
      | (Some (Graph_Failed e), w') \<Rightarrow> (Inl e, w')
      | (Some (Graph_Ended s), w') \<Rightarrow>
          (Inr (dset ''model_usage'' (PDict (diff_usage (te_usage env w0) (te_usage env w')))
             (run_output env request (attach_engine_metadata s ''langgraph'' thread_id
                (checkpoint_id_from_config (te_checkpoint env w'))))), w')
      | (Some (Graph_Waiting s), w') \<Rightarrow>
          (Inr (dset ''model_usage'' (PDict (diff_usage (te_usage env w0) (te_usage env w')))
             (run_output env request (attach_engine_metadata s ''langgraph'' thread_id
                (checkpoint_id_from_config (te_checkpoint env w'))))), w'))"

definition langgraph_start ::
  "'w turn_env \<Rightarrow> 'w dependencies \<Rightarrow> pydict \<Rightarrow> pydict \<Rightarrow> pydict \<Rightarrow> pydict \<Rightarrow> 'w \<Rightarrow> (py_exn + pydict) \<times> 'w" where
  "langgraph_start env deps request initial metadata ctx w =
     graph_output env request
       (py_str (py_or (dget metadata ''engine_thread_id'') (dget request ''trace_id''))) w
       (graph_start (te_platform env) (te_node_name env) (te_max_iterations env) (te_step_limit env) deps request
          initial (PDict ctx) w)"

definition summarize_runtime_context :: "pydict \<Rightarrow> pydict" where
  "summarize_runtime_context ctx =
     (let agent = as_dict (dget ctx ''agent'')
      in [(''release'', PDict (as_dict (dget ctx ''release''))),
          (''agent'', PDict [(''id'', dget agent ''id''), (''name'', dget agent ''name''), (''model'', dget agent ''model'')]),
          (''channel'', dget ctx ''channel''), (''actor'', py_or (dget ctx ''actor'') (PDict [])),
          (''tool_ids'', py_or (dget ctx ''tool_ids'') (PList [])), (''policy'', py_or (dget ctx ''policy'') (PDict []))])"

definition turn_initial_state :: "pyval list \<Rightarrow> int \<Rightarrow> pydict" where
  "turn_initial_state observations loops =
     (if observations = [] then [] else [(''tool_observations'', PList observations)]) @
     (if loops = 0 then [] else [(''loop_count'', PInt loops)])"

definition run_configured_turn ::
  "'w turn_env \<Rightarrow> pydict \<Rightarrow> string \<Rightarrow> pyval \<Rightarrow> pyval \<Rightarrow> pyval list \<Rightarrow> pydict \<Rightarrow> 'w create option \<Rightarrow> pyval list \<Rightarrow> int \<Rightarrow>
   string option \<Rightarrow> 'w \<Rightarrow> (py_exn + pydict) \<times> 'w" where
  "run_configured_turn env ctx message session_id user_id history metadata store observations loops engine_name w =
     (case get_execution_engine (te_engine env) engine_name of
        Inl e \<Rightarrow> (Inl e, w)
      | Inr engine \<Rightarrow>
          let request = ensure_trace_id (te_fresh env w)
                (agent_request (py_strip message) user_id session_id PNone history);
              effective = dmerge metadata
                [(''execution_engine'', PStr engine), (''engine_schema_version'', PStr ENGINE_SCHEMA_VERSION),
                 (''engine_thread_id'', PStr (get_text request ''trace_id''))]
          in case build_configured_dependencies env ctx store effective w of
               (Inl e, w1) \<Rightarrow> (Inl e, w1)
             | (Inr (ctx', deps), w1) \<Rightarrow>
                 let initial = turn_initial_state observations loops
                 in case (if engine = ''langgraph'' then langgraph_start env deps request initial effective ctx' w1
                          else pocoflow_start env deps request initial w1) of
                      (Inl e, w2) \<Rightarrow> (Inl e, w2)
                    | (Inr result, w2) \<Rightarrow>
                        (Inr (dset ''request_metadata'' (PDict effective)
                           (dset ''runtime_context'' (PDict (summarize_runtime_context ctx')) result)), w2))"

section \<open>The decision of an approval\<close>

definition approval_observation :: "pydict \<Rightarrow> string \<Rightarrow> pydict" where
  "approval_observation r status =
     [(''call_id'', dget (as_dict (dget (dict_at r ''snapshot'') ''tool_call'')) ''call_id''),
      (''tool_name'', dget r ''tool_id''), (''args'', py_or (dget r ''tool_args'') (PDict [])),
      (''status'', PStr (''approval_'' @ status)), (''approval_id'', dget r ''approval_id''),
      (''decided_by'', dget r ''decided_by''), (''comment'', dget r ''decision_comment''),
      (''tool_metadata'', py_or (dget r ''policy'') (PDict []))]"

definition snapshot_of :: "pydict \<Rightarrow> pydict" where
  "snapshot_of r = as_dict (dget r ''snapshot'')"

definition snapshot_metadata :: "pydict \<Rightarrow> pydict" where
  "snapshot_metadata r = as_dict (dget (snapshot_of r) ''metadata'')"

definition approval_execution_engine :: "pydict \<Rightarrow> string" where
  "approval_execution_engine r = py_str (py_or (dget (snapshot_metadata r) ''execution_engine'') (PStr ''pocoflow''))"

definition rejected_answer :: string where
  "rejected_answer = ''the approval was rejected, the tool is not executed''"

definition rejected_approval_response :: "pydict \<Rightarrow> pydict" where
  "rejected_approval_response r =
     [(''run_id'', dget r ''run_id''), (''session_id'', dget r ''session_id''), (''agent_id'', dget r ''agent_id''),
      (''release_id'', dget r ''release_id''), (''actor_id'', dget r ''actor_id''), (''channel'', dget r ''channel''),
      (''answer'', PStr rejected_answer), (''route'', PStr ''answer''), (''status'', PStr ''completed''),
      (''trace_id'', dget r ''trace_id''), (''approval'', PDict (approval_response r)),
      (''tool_observations'', PList [PDict (approval_observation r ''rejected'')]), (''model_usage'', PDict []),
      (''flow'', PList [PDict [(''event'', PStr ''approval_rejected''), (''approval_id'', dget r ''approval_id'')]])]"

definition resume_request :: "pydict \<Rightarrow> pydict" where
  "resume_request snapshot =
     [(''query'', py_or (dget snapshot ''message'') (PStr [])), (''session_id'', dget snapshot ''session_id''),
      (''trace_id'', dget snapshot ''trace_id''), (''history'', py_or (dget snapshot ''history'') (PList [])),
      (''user_id'', py_or (dget snapshot ''user_id'') PNone)]"

definition build_resume_state :: "pydict \<Rightarrow> pydict \<Rightarrow> py_exn + pydict" where
  "build_resume_state snapshot ctx =
     (case counter snapshot ''loop_count'' of
        Inl e \<Rightarrow> Inl e
      | Inr n \<Rightarrow> Inr
          [(''request'', PDict (resume_request snapshot)),
           (''context'', PDict [(''runtime_context'', PDict ctx), (''history'', py_or (dget snapshot ''history'') (PList []))]),
           (''tool_observations'', PList (list_at snapshot ''tool_observations'')),
           (''decision'', py_or (dget snapshot ''decision'') (PDict [])), (''loop_count'', PInt n),
           (''trace_id'', dget snapshot ''trace_id'')])"

text \<open>\<open>None\<close>: the tool may be called.\<close>

definition ensure_tool_still_allowed :: "pydict \<Rightarrow> string \<Rightarrow> py_exn option" where
  "ensure_tool_still_allowed ctx tool_id =
     (if tool_id \<in> set (map py_str (list_at ctx ''tool_ids'')) then None
      else Some (exn ''ApprovalError'' ''the tool is no longer available or authorized''))"

definition resolve_for :: "'w turn_env \<Rightarrow> pydict \<Rightarrow> 'w \<Rightarrow> (py_exn + pydict) \<times> 'w" where
  "resolve_for env r w =
     te_resolve env (get_text r ''agent_id'') (get_text r ''release_id'') (get_text r ''actor_id'') (get_text r ''channel'') w"

definition text_or_none :: "pyval \<Rightarrow> pyval" where
  "text_or_none v = (let s = text_or_empty v in if s = [] then PNone else PStr s)"

definition snapshot_session :: "pydict \<Rightarrow> pyval" where
  "snapshot_session r = PStr (text_or_empty (py_or (dget (snapshot_of r) ''session_id'') (dget r ''session_id'')))"

definition snapshot_history :: "pydict \<Rightarrow> pyval list" where
  "snapshot_history r = as_list (dget (snapshot_of r) ''history'')"

text \<open>The graph is resumed in the state its checkpoint saved.\<close>

definition resume_langgraph_approval ::
  "'w turn_env \<Rightarrow> 'w create \<Rightarrow> pydict \<Rightarrow> pydict \<Rightarrow> pydict \<Rightarrow> 'w \<Rightarrow> (py_exn + pydict) \<times> 'w" where
  "resume_langgraph_approval env create r ctx payload w =
     (let snapshot = snapshot_of r; metadata = snapshot_metadata r;
          effective = dmerge metadata
            [(''approval_id'', dget r ''approval_id''), (''approval_decision'', dget payload ''decision'')]
      in case build_configured_dependencies env ctx (Some create) effective w of
           (Inl e, w1) \<Rightarrow> (Inl e, w1)
         | (Inr (ctx', deps), w1) \<Rightarrow>
             let request = ensure_trace_id (te_fresh env w1)
                   (agent_request (text_or_empty (dget snapshot ''message'')) (text_or_none (dget snapshot ''user_id''))
                      (snapshot_session r) (text_or_none (py_or (dget snapshot ''trace_id'') (dget r ''trace_id'')))
                      (snapshot_history r));
                 thread_id = py_str (py_or (dget metadata ''engine_thread_id'') (dget request ''trace_id''));
                 saved = te_saved_state env thread_id w1
             in case graph_output env request thread_id w1
                       (graph_resume (te_platform env) (te_node_name env) (te_max_iterations env) (te_step_limit env)
                          deps request payload (PDict ctx') saved w1) of
                  (Inl e, w2) \<Rightarrow> (Inl e, w2)
                | (Inr resumed, w2) \<Rightarrow>
                    (Inr (dset ''request_metadata'' (PDict effective)
                       (dset ''runtime_context'' (PDict (summarize_runtime_context ctx')) resumed)), w2))"

definition resume_rejected_langgraph_approval ::
  "'w turn_env \<Rightarrow> 'w create \<Rightarrow> pydict \<Rightarrow> 'w \<Rightarrow> (py_exn + pydict) \<times> 'w" where
  "resume_rejected_langgraph_approval env create r w =
     (case resolve_for env r w of
        (Inl e, w1) \<Rightarrow> (Inr (rejected_approval_response r), w1)
      | (Inr ctx, w1) \<Rightarrow>
          (case resume_langgraph_approval env create r ctx
                  [(''decision'', PStr ''rejected''),
                   (''approval_observation'', PDict (approval_observation r ''rejected'')),
                   (''answer'', PStr rejected_answer)] w1 of
             (Inl e, w2) \<Rightarrow> (Inl e, w2)
           | (Inr resumed, w2) \<Rightarrow> (Inr (dset ''approval'' (PDict (approval_response r)) resumed), w2)))"

text \<open>The continuation of an approved turn after its tool has run.\<close>

definition continue_approved ::
  "'w turn_env \<Rightarrow> 'w create \<Rightarrow> pydict \<Rightarrow> pydict \<Rightarrow> pyval list \<Rightarrow> 'w \<Rightarrow> (py_exn + pydict) \<times> 'w" where
  "continue_approved env create r ctx results w =
     (let snapshot = snapshot_of r; observation = PDict (approval_observation r ''approved'')
      in if approval_execution_engine r = ''langgraph''
         then resume_langgraph_approval env create r ctx
                [(''decision'', PStr ''approved''), (''approval_observation'', observation),
                 (''tool_results'', PList results)] w
         else case counter snapshot ''loop_count'' of
                Inl e \<Rightarrow> (Inl e, w)
              | Inr loops \<Rightarrow>
                  run_configured_turn env ctx (text_or_empty (dget snapshot ''message'')) (snapshot_session r)
                    (text_or_none (dget snapshot ''user_id'')) (snapshot_history r)
                    (dmerge (snapshot_metadata r)
                       [(''approval_id'', dget r ''approval_id''), (''approval_decision'', PStr ''approved'')])
                    (Some create) (list_at snapshot ''tool_observations'' @ [observation] @ results) loops
                    (Some ''pocoflow'') w)"

definition resume_approved_approval ::
  "'w turn_env \<Rightarrow> 'w approval_api \<Rightarrow> pydict \<Rightarrow> 'w \<Rightarrow> (py_exn + pydict) \<times> 'w" where
  "resume_approved_approval env api r w =
     (case resolve_for env r w of
        (Inl e, w1) \<Rightarrow> (Inl e, w1)
      | (Inr ctx, w1) \<Rightarrow>
          let snapshot = snapshot_of r; call = as_dict (dget snapshot ''tool_call'');
              tool_id = text_or_empty (py_or (dget call ''tool_name'') (dget r ''tool_id''))
          in case ensure_tool_still_allowed ctx tool_id of
               Some e \<Rightarrow> (Inl e, w1)
             | None \<Rightarrow>
                 (case build_configured_dependencies env ctx None (snapshot_metadata r) w1 of
                    (Inl e, w2) \<Rightarrow> (Inl e, w2)
                  | (Inr (ctx', deps), w2) \<Rightarrow>
                      (case build_resume_state snapshot ctx' of
                         Inl e \<Rightarrow> (Inl e, w2)
                       | Inr state \<Rightarrow>
                           (case the (dep_run_tools deps) [call] state w2 of
                              (Inl e, w3) \<Rightarrow> (Inl e, w3)
                            | (Inr batch, w3) \<Rightarrow>
                                let results = (if is_list (dget batch ''results'')
                                      then as_list (dget batch ''results'') else [PDict batch])
                                in case continue_approved env (api_create api) r ctx' results w3 of
                                     (Inl e, w4) \<Rightarrow> (Inl e, w4)
                                   | (Inr resumed, w4) \<Rightarrow>
                                       (Inr (dset ''approval'' (PDict (approval_response
                                          (dset ''status'' (PStr APPROVAL_EXECUTED) r))) resumed),
                                        api_mark_executed api (get_text r ''approval_id'') resumed w4)))))"

text \<open>
  A decision that was already taken: an approval whose tool has not been executed is taken up again, one
  whose tool has been executed answers with the stored result.
\<close>

datatype decided = Fresh pydict | Cached pydict | Refused approval_error

definition approval_to_act_on :: "approval_error \<Rightarrow> string \<Rightarrow> pydict option \<Rightarrow> decided" where
  "approval_to_act_on e decision existing =
     (if decision \<noteq> APPROVAL_APPROVED \<or> e \<noteq> AlreadyDecided then Refused e
      else case existing of
             None \<Rightarrow> Refused e
           | Some r \<Rightarrow>
               if r = [] then Refused e
               else if py_eq (dget r ''status'') (PStr APPROVAL_APPROVED) \<and> \<not> truthy (dget r ''result'') then Fresh r
               else if py_eq (dget r ''status'') (PStr APPROVAL_EXECUTED) \<and> is_dict (dget r ''result'')
                 then Cached (dset ''approval'' (PDict (approval_response r)) (as_dict (dget r ''result'')))
               else Refused e)"

definition decide_approval ::
  "'w turn_env \<Rightarrow> 'w approval_api \<Rightarrow> string \<Rightarrow> approval_decision \<Rightarrow> 'w \<Rightarrow> (py_exn + pydict) \<times> 'w" where
  "decide_approval env api i d w =
     (if ad_decision d \<noteq> APPROVAL_APPROVED \<and> ad_decision d \<noteq> APPROVAL_REJECTED
        then (Inl (exn ''ApprovalError'' ''a decision is approved or rejected''), w)
      else
        let (r, w1) = api_decide api i d w
        in case (case r of Inr record \<Rightarrow> Fresh record
                         | Inl e \<Rightarrow> approval_to_act_on e (ad_decision d) (api_get api i w1)) of
             Refused e \<Rightarrow> (Inl (approval_exn e), w1)
           | Cached result \<Rightarrow> (Inr result, w1)
           | Fresh record \<Rightarrow>
               if ad_decision d = APPROVAL_REJECTED
               then (if approval_execution_engine record = ''langgraph''
                     then resume_rejected_langgraph_approval env (api_create api) record w1
                     else (Inr (rejected_approval_response record), w1))
               else resume_approved_approval env api record w1)"

section \<open>Conditions of the world that a turn keeps\<close>

text \<open>Every decision a store ever holds is a batch of calls of some kind \<open>N\<close>, say calls that name their tools
  (\<open>proper_call\<close>), and its catalog is one of \<open>C\<close>.\<close>

definition proper_call :: "pydict \<Rightarrow> bool" where
  "proper_call c \<longleftrightarrow> (\<exists>name. named_call name c)"

definition calls_named :: "(pydict \<Rightarrow> bool) \<Rightarrow> pydict \<Rightarrow> bool" where
  "calls_named N decision \<longleftrightarrow> list_all N (decided_calls decision)"

definition sane :: "(pydict \<Rightarrow> bool) \<Rightarrow> pyval set \<Rightarrow> pydict \<Rightarrow> bool" where
  "sane N C s \<longleftrightarrow>
     (\<forall>v. (''tool_catalog'', v) \<in> set s \<longrightarrow> v \<in> C) \<and>
     (\<forall>v. (''decision'', v) \<in> set s \<longrightarrow> calls_named N (as_dict v))"

definition offers :: "pyval set \<Rightarrow> 'w dependencies \<Rightarrow> bool" where
  "offers C deps \<longleftrightarrow> (\<exists>c. dep_tool_catalog deps = Some c \<and> PList (map PDict c) \<in> C)"

lemma set_dset: "set (dset k v s) \<subseteq> insert (k, v) (set s)"
  by (induction s) auto

lemma sane_set: "sane N C s \<Longrightarrow> k \<noteq> ''tool_catalog'' \<Longrightarrow> k \<noteq> ''decision'' \<Longrightarrow> sane N C (dset k v s)"
  using set_dset [of k v s] by (fastforce simp: sane_def)

lemma sane_decide: "sane N C s \<Longrightarrow> calls_named N d \<Longrightarrow> sane N C (dset ''decision'' (PDict d) s)"
  using set_dset [of "''decision''" "PDict d" s] by (fastforce simp: sane_def)

lemma sane_subset: "sane N C s \<Longrightarrow> set t \<subseteq> set s \<Longrightarrow> sane N C t"
  by (auto simp: sane_def)

lemma sane_without: "sane N C s \<Longrightarrow> sane N C (without_keys ks s)"
  by (erule sane_subset) (auto simp: without_keys_def)

lemma sane_merge: "sane N C s \<Longrightarrow> sane N C t \<Longrightarrow> sane N C (dmerge s t)"
proof -
  have "set (dmerge s t) \<subseteq> set s \<union> set t"
    unfolding dmerge_def
  proof (induction t arbitrary: s)
    case (Cons p t)
    obtain k v where p: "p = (k, v)" by (cases p)
    show ?case using Cons.IH [of "dset k v s"] set_dset [of k v s] by (auto simp: p)
  qed simp
  then show "sane N C s \<Longrightarrow> sane N C t \<Longrightarrow> sane N C (dmerge s t)" unfolding sane_def by blast
qed

lemma sane_trace [simp]: "sane N C s \<Longrightarrow> sane N C (append_trace node action payload s)"
  by (simp add: append_trace_def sane_set)

lemma sane_observability [simp]: "sane N C s \<Longrightarrow> sane N C (append_observability event s)"
  by (simp add: append_observability_def sane_set)

lemma sane_get: "sane N C s \<Longrightarrow> dget s ''tool_catalog'' \<in> insert PNone C"
  using map_of_SomeD [of s "''tool_catalog''"] by (auto simp: sane_def dget_map_of split: option.split)

lemma calls_named_Nil: "calls_named N []"
  by (simp add: calls_named_def decided_calls_def list_at_def py_or_def)

lemma sane_decision: "sane N C s \<Longrightarrow> calls_named N (as_dict (dget s ''decision''))"
  using map_of_SomeD [of s "''decision''"]
  by (auto simp: sane_def dget_map_of calls_named_Nil split: option.split)

lemma sane_collect: "sane N C s \<Longrightarrow> sane N C (fst (collect_results rs s))"
proof (induction rs arbitrary: s)
  case (Cons r rs)
  let ?m = "if is_load_skill_tool (dget r ''tool_name'') then merge_tool_loaded_skill r s else s"
  have "sane N C (fst (collect_results rs ?m))"
    by (rule Cons.IH) (use Cons.prems in \<open>simp add: merge_tool_loaded_skill_def Let_def sane_set\<close>)
  then show ?case by (simp add: Let_def split_beta)
qed simp

lemma sane_events:
  "sane N C s \<Longrightarrow> sane N C (fold (\<lambda>r. append_observability (call_event name decision r)) rs s)"
  by (induction rs arbitrary: s) simp_all

lemma sane_results: "sane N C s \<Longrightarrow> sane N C (fst (results_post name batch rs s))"
  using sane_collect [of N C s rs] by (simp add: results_post_def Let_def split_beta sane_events sane_set)

lemma sane_pending: "sane N C s \<Longrightarrow> sane N C (pending_post name batch rs s)"
  by (simp add: pending_post_def Let_def sane_set)

lemma sane_check: "sane N C s \<Longrightarrow> sane N C (check_post name r s)"
  by (simp add: check_post_def Let_def sane_set split: option.split)

lemma sane_think: "sane N C s \<Longrightarrow> calls_named N (decision_dict d) \<Longrightarrow> sane N C (think_post name n d s)"
  by (simp add: think_post_def Let_def sane_set sane_decide split: option.split)

text \<open>The parts of a turn keep a condition of the world; batches of calls that name their tools do.\<close>

definition parts_spare :: "('w \<Rightarrow> bool) \<Rightarrow> (pydict \<Rightarrow> bool) \<Rightarrow> pyval set \<Rightarrow> 'w dependencies \<Rightarrow> bool" where
  "parts_spare I N C deps \<longleftrightarrow>
     (\<forall>r w. I w \<longrightarrow> I (snd (dep_load_context deps r w))) \<and>
     (\<forall>s w. I w \<longrightarrow> I (snd (dep_think deps s w))) \<and>
     (\<forall>s w. I w \<longrightarrow> I (snd (dep_self_check deps s w))) \<and>
     (\<forall>f r c w. dep_load_skills deps = Some f \<longrightarrow> I w \<longrightarrow> I (snd (f r c w))) \<and>
     (\<forall>f r c w. dep_pre_guard deps = Some f \<longrightarrow> I w \<longrightarrow> I (snd (f r c w))) \<and>
     (\<exists>f. dep_run_tools deps = Some f \<and>
        (\<forall>calls s w. list_all N calls \<longrightarrow> I w \<longrightarrow> I (snd (f calls s w)))) \<and>
     (\<forall>s w d w'. dget s ''tool_catalog'' \<in> insert PNone C \<longrightarrow>
        dep_think deps s w = (Inr d, w') \<longrightarrow> calls_named N (decision_dict d))"

lemma say_named: "calls_named N (decision_dict (say r a q))"
  by (simp add: calls_named_def decided_calls_def decision_dict_def say_def decision_tool_calls_def list_at_def
      py_or_def opt_text_def)

lemma execute_spares:
  assumes "parts_spare I N C deps" "sane N C s" "I w"
  shows "I (snd (execute_exec deps s w))"
proof -
  have "\<exists>f. dep_run_tools deps = Some f \<and>
      (\<forall>calls s w. list_all N calls \<longrightarrow> I w \<longrightarrow> I (snd (f calls s w)))"
    using assms(1) unfolding parts_spare_def by (elim conjE)
  then obtain f where f: "dep_run_tools deps = Some f"
    "\<forall>calls s w. list_all N calls \<longrightarrow> I w \<longrightarrow> I (snd (f calls s w))" by (elim exE conjE)
  have "list_all N (decided_calls (as_dict (dget s ''decision'')))"
    using sane_decision [OF assms(2)] by (simp add: calls_named_def)
  then show ?thesis using f assms(3) by (simp add: execute_exec_def Let_def)
qed

lemma skills_spare:
  assumes "parts_spare I N C deps" "I w"
  shows "I (snd (skills_result pf deps r c w))"
proof (cases "dep_load_skills deps")
  case (Some f)
  then have "I (snd (f r c w))" using assms unfolding parts_spare_def by blast
  then show ?thesis by (cases "f r c w"; cases "fst (f r c w)") (simp_all add: skills_result_def Some Let_def)
qed (simp add: skills_result_def Let_def assms(2))

lemma guard_spare:
  assumes "parts_spare I N C deps" "I w"
  shows "I (snd (case dep_pre_guard deps of Some guard \<Rightarrow> guard r c w | None \<Rightarrow> (d, w)))"
proof (cases "dep_pre_guard deps")
  case (Some f)
  then show ?thesis using assms unfolding parts_spare_def by simp
qed (simp add: assms(2))

lemma node_spares:
  assumes "parts_spare I N C deps" "sane N C s" "I w" "run_node pf name_of m deps node s w = (r, w')"
  shows "I w' \<and> (case r of Inl e \<Rightarrow> True | Inr (s', a) \<Rightarrow> sane N C s')"
proof (cases node)
  case LoadContext
  have "I (snd (dep_load_context deps (as_dict (dget s ''request'')) w))" using assms(1,3) by (simp add: parts_spare_def)
  then show ?thesis
    using assms(2,4) LoadContext
    by (auto simp: run_node_def load_context_node_def sane_set split: prod.splits sum.splits)
next
  case LoadSkills
  then show ?thesis
    using assms(2,4) skills_spare [OF assms(1,3), of pf "as_dict (dget s ''request'')" "as_dict (dget s ''context'')"]
    by (auto simp: run_node_def load_skills_node_def Let_def sane_set split: prod.splits if_splits)
next
  case PreGuard
  then show ?thesis
    using assms(2,4) guard_spare [OF assms(1,3), where r = "as_dict (dget s ''request'')" and c = "as_dict (dget s ''context'')"
        and d = "Inr [(''route_hint'', PStr ''planner''), (''reason'', PStr ''no_pre_guard'')]"]
    by (auto simp: run_node_def pre_guard_node_def Let_def sane_set split: prod.splits sum.splits)
next
  case Think
  obtain x w1 where x: "think_exec m deps s w = (x, w1)" by (cases "think_exec m deps s w")
  have w1: "I w1"
  proof -
    have "I (snd (dep_think deps s w))" using assms(1,3) by (simp add: parts_spare_def)
    then show ?thesis using x assms(3) by (auto simp: think_exec_def split: option.splits if_splits)
  qed
  have named: "calls_named N (decision_dict d)" if "x = Inr d" for d
  proof -
    have "d = max_iterations_decision \<or> dep_think deps s w = (Inr d, w1)"
      using x that by (auto simp: think_exec_def split: option.splits if_splits)
    moreover have "calls_named N (decision_dict d)" if "dep_think deps s w = (Inr d, w1)"
      using assms(1) sane_get [OF assms(2)] that unfolding parts_spare_def by blast
    ultimately show ?thesis by (auto simp: max_iterations_decision_def say_named)
  qed
  show ?thesis
    using assms(2,4) Think x w1 named
    by (auto simp: run_node_def think_node_def sane_think split: sum.splits option.splits)
next
  case ExecuteTool
  obtain x w1 where x: "execute_exec deps s w = (x, w1)" by (cases "execute_exec deps s w")
  then have "I w1" using execute_spares [OF assms(1-3)] by simp
  moreover have "sane N C (dset ''tool_observations'' v s)" for v by (simp add: sane_set assms(2))
  ultimately show ?thesis
    using assms(4) x sane_results sane_pending
    by (auto simp: ExecuteTool run_node_def execute_node_def Let_def split: sum.splits if_splits)
      (metis fst_conv sane_results)+
next
  case SelfCheck
  have "I (snd (dep_self_check deps s w))" using assms(1,3) by (simp add: parts_spare_def)
  then show ?thesis
    using assms(2-4) SelfCheck
    by (auto simp: run_node_def self_check_node_def pending_check_post_def Let_def sane_check sane_set
        split: prod.splits sum.splits if_splits)
qed

lemma flow_spares:
  assumes "parts_spare I N C deps"
  shows "sane N C s \<Longrightarrow> I w \<Longrightarrow> I (snd (run_flow pf name_of m deps n node s w))"
proof (induction n arbitrary: node s w)
  case (Suc n)
  obtain r w1 where r: "run_node pf name_of m deps node s w = (r, w1)" by (cases "run_node pf name_of m deps node s w")
  note spare = node_spares [OF assms Suc.prems r]
  show ?case
  proof (cases r)
    case (Inl e)
    then show ?thesis using r spare by simp
  next
    case (Inr sa)
    then show ?thesis using r spare Suc.IH by (cases sa) (auto split: option.split)
  qed
qed simp

lemma sane_persisted: "sane N C u \<Longrightarrow> sane N C (persisted_state u)"
  by (simp add: persisted_state_def Let_def sane_without sane_set)

lemma sane_absorb: "sane N C t \<Longrightarrow> sane N C p \<Longrightarrow> sane N C (absorb t p)"
  unfolding absorb_def by (intro sane_merge) (auto elim: sane_subset)

lemma sane_make_store: "offers C deps \<Longrightarrow> sane N C (make_store request deps mode)"
  by (auto simp: sane_def make_store_def offers_def)

lemma sane_node_store:
  assumes "offers C deps" "sane N C t"
  shows "sane N C (node_store request deps rc t)"
  unfolding node_store_def Let_def
  by (simp add: sane_merge sane_make_store [OF assms(1)] sane_without assms(2) sane_set)

lemma sane_await: "sane N C t \<Longrightarrow> sane N C (await_approval payload t)"
  by (simp add: await_approval_def Let_def sane_set)

lemma graph_spares:
  assumes "parts_spare I N C deps" "offers C deps"
  shows "sane N C t \<Longrightarrow> I w \<Longrightarrow> I (snd (run_graph pf name_of m request deps rc n gn payload t w))"
proof (induction n arbitrary: gn payload t w)
  case (Suc n)
  show ?case
  proof (cases gn)
    case Await_Approval
    show ?thesis
    proof (cases payload)
      case None
      then show ?thesis using Suc.prems by (simp add: Await_Approval)
    next
      case (Some p)
      have "sane N C (absorb t (await_approval p t))" using Suc.prems(1) by (simp add: sane_absorb sane_await)
      then show ?thesis using Suc by (simp add: Await_Approval Some Let_def)
    qed
  next
    case (Planner_Node node)
    obtain r w1 where r: "run_node pf name_of m deps node (node_store request deps rc t) w = (r, w1)"
      by (cases "run_node pf name_of m deps node (node_store request deps rc t) w")
    note spare = node_spares [OF assms(1) sane_node_store [OF assms(2) Suc.prems(1)] Suc.prems(2) r]
    show ?thesis
    proof (cases r)
      case (Inl e)
      then show ?thesis using r spare by (simp add: Planner_Node graph_step_def)
    next
      case (Inr sa)
      obtain s a where sa: "sa = (s, a)" by (cases sa)
      have "sane N C (absorb t (persisted_state s))"
        using spare Suc.prems(1) by (simp add: Inr sa sane_absorb sane_persisted)
      then show ?thesis
        using r spare Suc.IH by (simp add: Planner_Node graph_step_def Inr sa split: option.split)
    qed
  qed
qed simp

section \<open>An unapproved tool never runs\<close>

definition env_spares :: "('w \<Rightarrow> bool) \<Rightarrow> 'w turn_env \<Rightarrow> bool" where
  "env_spares I env \<longleftrightarrow>
     (\<forall>s w. I w \<longrightarrow> I (snd (te_chat env s w))) \<and>
     (\<forall>r w. I w \<longrightarrow> I (snd (te_views env r w))) \<and>
     (\<forall>t w. I w \<longrightarrow> I (snd (te_warmup env t w))) \<and>
     (\<forall>f event w. te_tool_log env = Some f \<longrightarrow> I w \<longrightarrow> I (f event w)) \<and>
     (\<forall>d w. I w \<longrightarrow> I (sleep (te_platform env) d w)) \<and>
     (\<forall>n. set (te_schedule env n) = {..<n})"

definition ungated_spare :: "('w \<Rightarrow> bool) \<Rightarrow> 'w turn_env \<Rightarrow> pydict \<Rightarrow> bool" where
  "ungated_spare I env ctx \<longleftrightarrow>
     (\<forall>tools t args state w. runtime_tools ctx = Inr tools \<longrightarrow> t \<in> set tools \<longrightarrow> \<not> tool_requires_approval t \<longrightarrow> I w \<longrightarrow>
        I (snd (execute_tool_manifest (te_registry env) (te_call_mcp env) (te_tool_state env) t args state w)))"

definition plain_tool_ids :: "pydict \<Rightarrow> bool" where
  "plain_tool_ids ctx \<longleftrightarrow>
     (\<forall>tools. runtime_tools ctx = Inr tools \<longrightarrow> list_all (\<lambda>i. i \<noteq> [] \<and> py_strip i = i) (tool_ids tools))"

lemma configured_executor_tools:
  assumes "configured_executor env ctx = Inr ex"
  obtains tools where "runtime_tools ctx = Inr tools" "distinct (tool_ids tools)"
    "ex_tools ex = map (\<lambda>t. (get_text t ''tool_id'',
       tool_spec_from_config (te_registry env) (te_call_mcp env) (te_tool_state env) t)) tools"
    "before_call ex = []" "after_call ex = log_hooks (te_tool_log env)" "on_error ex = log_hooks (te_tool_log env)"
proof -
  obtain ex0 where ex0: "build_runtime_tool_executor (te_registry env) (te_call_mcp env) (te_tool_state env) ctx = Inr ex0"
    and ex: "ex = ex0\<lparr>after_call := after_call ex0 @ log_hooks (te_tool_log env),
                      on_error := on_error ex0 @ log_hooks (te_tool_log env)\<rparr>"
    using assms by (auto simp: configured_executor_def split: sum.splits)
  obtain tools where tools: "runtime_tools ctx = Inr tools"
    using ex0 by (cases "runtime_tools ctx") (simp_all add: build_runtime_tool_executor_def)
  show ?thesis
    by (rule that [OF tools]) (simp_all add: ex executor_of_context [OF ex0 tools])
qed

lemma tool_by_id_tools:
  assumes "runtime_tools ctx = Inr tools" "distinct (tool_ids tools)"
  shows "tool_by_id ctx = map (\<lambda>t. (get_text t ''tool_id'', t)) tools"
proof -
  have list: "filter (\<lambda>t. truthy (dget t ''tool_id'')) (map as_dict (filter is_dict (as_list (dget ctx ''tools'')))) = tools"
    using assms(1) by (cases "truthy (dget ctx ''tools'')"; cases "dget ctx ''tools''")
      (auto simp: runtime_tools_def py_or_def Let_def split: if_splits)
  have "tool_by_id ctx = fold (\<lambda>(k, v) acc. AList.update k v acc) (map (\<lambda>t. (get_text t ''tool_id'', t)) tools) []"
    unfolding tool_by_id_def list by (simp add: fold_map comp_def get_text_def)
  also have "\<dots> = map (\<lambda>t. (get_text t ''tool_id'', t)) tools"
    using assms(2) by (subst fold_update_distinct) (simp_all add: tool_ids_def comp_def)
  finally show ?thesis .
qed

lemma runtime_tools_nonempty: "runtime_tools ctx = Inr tools \<Longrightarrow> t \<in> set tools \<Longrightarrow> t \<noteq> []"
  by (auto simp: runtime_tools_def Let_def split: if_splits)

lemma executor_spares:
  assumes "configured_executor env ctx = Inr ex" "env_spares I env"
    and handlers: "\<And>tools t args state w. runtime_tools ctx = Inr tools \<Longrightarrow> distinct (tool_ids tools) \<Longrightarrow> t \<in> set tools \<Longrightarrow>
      name = get_text t ''tool_id'' \<Longrightarrow> I w \<Longrightarrow>
      I (snd (execute_tool_manifest (te_registry env) (te_call_mcp env) (te_tool_state env) t args state w))"
  shows "spares I (te_platform env) ex name"
proof -
  obtain tools where tools: "runtime_tools ctx = Inr tools" "distinct (tool_ids tools)"
    and ex: "ex_tools ex = map (\<lambda>t. (get_text t ''tool_id'',
       tool_spec_from_config (te_registry env) (te_call_mcp env) (te_tool_state env) t)) tools"
    and hooks: "before_call ex = []" "after_call ex = log_hooks (te_tool_log env)" "on_error ex = log_hooks (te_tool_log env)"
    using configured_executor_tools [OF assms(1)] by blast
  have "I (snd (h event w))" if "h \<in> set (log_hooks (te_tool_log env))" "I w" for h event w
    using that assms(2) by (auto simp: log_hooks_def env_spares_def split: option.splits)
  moreover have "I (sleep (te_platform env) d w)" if "I w" for d w using that assms(2) by (simp add: env_spares_def)
  moreover have "I (snd (ts_handler spec args state w))" if spec: "map_of (ex_tools ex) name = Some spec" and "I w" for spec args state w
  proof -
    obtain t where t: "t \<in> set tools" "name = get_text t ''tool_id''"
      "spec = tool_spec_from_config (te_registry env) (te_call_mcp env) (te_tool_state env) t"
      using map_of_SomeD [OF spec] by (auto simp: ex)
    have "I (snd (execute_tool_manifest (te_registry env) (te_call_mcp env) (te_tool_state env) t args state w))"
      by (rule handlers [OF tools t(1,2) that(2)])
    then show ?thesis by (simp add: t(3) tool_spec_from_config_def Let_def)
  qed
  ultimately show ?thesis by (simp add: spares_def hooks)
qed

lemma ungated_executor_spares:
  assumes "configured_executor env ctx = Inr ex" "env_spares I env" "ungated_spare I env ctx"
    and "ag_context gate = ctx" "\<not> needs_approval gate name"
  shows "spares I (te_platform env) ex name"
proof (rule executor_spares [OF assms(1,2)])
  fix tools t args state w
  assume tools: "runtime_tools ctx = Inr tools" "distinct (tool_ids tools)" and t: "t \<in> set tools" "name = get_text t ''tool_id''"
    and "I w"
  have "map_of (map (\<lambda>t. (get_text t ''tool_id'', t)) tools) name = Some t"
    using tools(2) t by (intro map_of_is_SomeI) (auto simp: tool_ids_def comp_def)
  then have "\<not> tool_requires_approval t"
    using assms(4,5) runtime_tools_nonempty [OF tools(1) t(1)]
    by (auto simp: needs_approval_def tool_by_id_tools [OF tools])
  then show "I (snd (execute_tool_manifest (te_registry env) (te_call_mcp env) (te_tool_state env) t args state w))"
    using assms(3) tools(1) t(1) \<open>I w\<close> unfolding ungated_spare_def by blast
qed

lemma catalog_item_name: "dget (catalog_item spec) ''name'' = PStr (ts_name spec)"
  by (simp add: catalog_item_def Let_def dget_map_of map_of_dmerge metadata_dict_def map_add_def update_conv')

lemma catalog_names_in:
  assumes "dget state ''tool_catalog'' = PList (map PDict (catalog ex)) \<or> dget state ''tool_catalog'' = PNone"
  shows "set (catalog_names state) \<subseteq> ts_name ` snd ` set (ex_tools ex)"
  using assms by (force simp: catalog_names_def catalog_def catalog_item_name get_text_def)

lemma tool_calls_named:
  assumes "list_all (\<lambda>c. tc_tool_name c \<noteq> [] \<and> py_strip (tc_tool_name c) = tc_tool_name c) (ag_tool_calls d)"
    and "ag_tool_calls d \<noteq> [] \<or> ag_tool_name d = None"
  shows "calls_named proper_call (decision_dict d)"
proof (cases "ag_tool_calls d = []")
  case True
  then show ?thesis
    using assms(2) by (simp add: calls_named_def decided_calls_def decision_dict_def decision_tool_calls_def list_at_def
      py_or_def opt_text_def)
next
  case False
  then have "decided_calls (decision_dict d) = map tool_call_as_dict (ag_tool_calls d)"
    by (simp add: decided_calls_def decision_dict_def decision_tool_calls_def list_at_def py_or_def)
  then show ?thesis
    using assms(1) by (simp add: calls_named_def list_all_iff proper_call_def named_call_def tool_call_as_dict_def)
qed

lemma configured_think_named:
  assumes "configured_executor env ctx = Inr ex" "plain_tool_ids ctx"
    and "dget s ''tool_catalog'' = PList (map PDict (catalog ex)) \<or> dget s ''tool_catalog'' = PNone"
    and "configured_think env s w = (Inr d, w')"
  shows "calls_named proper_call (decision_dict d)"
proof -
  obtain tools where tools: "runtime_tools ctx = Inr tools"
    and ex: "ex_tools ex = map (\<lambda>t. (get_text t ''tool_id'',
       tool_spec_from_config (te_registry env) (te_call_mcp env) (te_tool_state env) t)) tools"
    using configured_executor_tools [OF assms(1)] by blast
  have plain: "i \<noteq> [] \<and> py_strip i = i" if "i \<in> set (catalog_names s)" for i
  proof -
    have "i \<in> set (tool_ids tools)"
      using that catalog_names_in [OF assms(3)]
      by (force simp: ex tool_ids_def tool_spec_from_config_def Let_def)
    then show ?thesis using assms(2) tools by (simp add: plain_tool_ids_def list_all_iff)
  qed
  obtain reply w1 where "te_chat env s w = (reply, w1)" by (cases "te_chat env s w")
  then have "configured_planner_think (\<lambda>_. reply) s = Inr d" using assms(4) by (simp add: configured_think_def)
  from configured_think_valid [OF this] show ?thesis
  proof
    assume "tool_decision (catalog_names s) d"
    then show ?thesis using plain by (intro tool_calls_named) (auto simp: tool_decision_def list_all_iff)
  next
    assume "final_decision d"
    then show ?thesis by (intro tool_calls_named) (simp_all add: final_decision_def)
  qed
qed

lemma configured_context_spares:
  "env_spares I env \<Longrightarrow> I w \<Longrightarrow> I (snd (load_configured_context env ctx r w))"
proof -
  assume a: "env_spares I env" "I w"
  obtain v w1 where v: "te_views env r w = (v, w1)" by (cases "te_views env r w")
  have "I (snd (te_views env r w))" using a by (simp add: env_spares_def)
  then show ?thesis using v by (cases v) (auto simp: load_configured_context_def Let_def split: sum.split)
qed

lemma parts_spareI:
  assumes env: "env_spares I env"
    and tools: "\<And>calls s w. list_all N calls \<Longrightarrow> I w \<Longrightarrow> I (snd (configured_run_tools env ex gate calls s w))"
    and named: "\<And>s w d w'. dget s ''tool_catalog'' \<in> insert PNone C \<Longrightarrow> configured_think env s w = (Inr d, w') \<Longrightarrow>
      calls_named N (decision_dict d)"
  shows "parts_spare I N C (configured_parts env ctx ex gate)"
proof -
  have "I (snd (te_chat env s w))" if "I w" for s w using that env by (simp add: env_spares_def)
  then have "I (snd (configured_think env s w))" if "I w" for s w
    using that by (simp add: configured_think_def split: prod.split) (metis snd_conv)
  moreover have "calls_named N (decision_dict d)"
    if "dget s ''tool_catalog'' = PNone \<or> dget s ''tool_catalog'' \<in> C" "configured_think env s w = (Inr d, w')" for s w d w'
    by (rule named [OF _ that(2)]) (use that(1) in auto)
  ultimately show ?thesis
    unfolding parts_spare_def configured_parts_def
    using tools configured_context_spares [OF env]
    by (intro conjI allI impI) auto
qed

lemma configured_parts_spare:
  assumes "configured_executor env ctx = Inr ex" "env_spares I env" "ungated_spare I env ctx" "plain_tool_ids ctx"
    and "creates_spare I create"
    and "gate = \<lparr>ag_context = ctx, ag_store = Some create, ag_metadata = metadata\<rparr>"
  shows "parts_spare I proper_call {PList (map PDict (catalog ex))} (configured_parts env ctx ex gate)"
proof -
  have tools: "I (snd (configured_run_tools env ex gate calls s w))"
    if "list_all proper_call calls" "I w" for calls s w
  proof -
    have "I (snd (gated_run_tools (te_platform env) (te_schedule env) ex gate calls s w))"
    proof (rule gate_blocks_unapproved)
      show "ag_store gate = Some create" by (simp add: assms(6))
      show "spares I (te_platform env) ex name" if "\<not> needs_approval gate name" for name
        by (rule ungated_executor_spares [OF assms(1-3) _ that]) (simp add: assms(6))
      show "set (te_schedule env n) = {..<n}" for n using assms(2) by (simp add: env_spares_def)
      show "\<exists>name. named_call name c" if "c \<in> set calls" for c using that \<open>list_all _ calls\<close> by (simp add: list_all_iff proper_call_def)
    qed (use assms(5) that(2) in auto)
    then show ?thesis by (auto simp: configured_run_tools_def split: prod.split sum.split)
  qed
  have named: "calls_named proper_call (decision_dict d)"
    if "dget s ''tool_catalog'' \<in> insert PNone {PList (map PDict (catalog ex))}" "configured_think env s w = (Inr d, w')" for s w d w'
    by (rule configured_think_named [OF assms(1,4) _ that(2)]) (use that(1) in auto)
  show ?thesis by (rule parts_spareI [OF assms(2) tools named])
qed

text \<open>Where every tool keeps the condition, no call has to be of any kind.\<close>

definition tools_spare :: "('w \<Rightarrow> bool) \<Rightarrow> 'w turn_env \<Rightarrow> bool" where
  "tools_spare I env \<longleftrightarrow>
     (\<forall>(rid, t) \<in> set (reg_tools (te_registry env)). \<forall>args state w. I w \<longrightarrow> I (snd (lt_handler t args state w))) \<and>
     (\<forall>tool args state w. I w \<longrightarrow> I (snd (te_call_mcp env tool args state w)))"

lemma manifest_spares:
  assumes "tools_spare I env" "I w"
  shows "I (snd (execute_tool_manifest (te_registry env) (te_call_mcp env) tool_state tool args state w))"
  using assms map_of_SomeD [of "reg_tools (te_registry env)"]
  by (fastforce simp: execute_tool_manifest_def tools_spare_def get_tool_def Let_def split: option.split sum.split)

lemma configured_parts_keep:
  assumes "configured_executor env ctx = Inr ex" "env_spares I env" "tools_spare I env"
    and "\<And>create. ag_store gate = Some create \<Longrightarrow> creates_spare I create"
  shows "parts_spare I (\<lambda>_. True) UNIV (configured_parts env ctx ex gate)"
proof (rule parts_spareI [OF assms(2)])
  fix calls s w
  assume "I w"
  obtain r w1 where pending: "pending_result gate calls s w = (r, w1)" by (cases "pending_result gate calls s w")
  have w1: "I w1"
  proof (cases "ag_store gate")
    case None
    then have "w1 = w" using pending by (cases calls) auto
    then show ?thesis using \<open>I w\<close> by simp
  next
    case (Some create)
    have "I (snd (pending_result gate calls s w))" by (rule pending_spares [OF Some assms(4) [OF Some] \<open>I w\<close>])
    then show ?thesis using pending by simp
  qed
  have spare: "spares I (te_platform env) ex name" for name
    by (rule executor_spares [OF assms(1,2)]) (rule manifest_spares [OF assms(3)])
  have "I (snd (run_many (te_platform env) (te_schedule env) ex calls s w1))"
    by (rule run_many_spares) (use assms(2) w1 spare in \<open>simp_all add: env_spares_def\<close>)
  then have "I (snd (gated_run_tools (te_platform env) (te_schedule env) ex gate calls s w))"
    using pending w1
    by (cases "run_many (te_platform env) (te_schedule env) ex calls s w1")
      (auto simp: gated_run_tools_def gate_run_many_def split: sum.splits option.splits)
  then show "I (snd (configured_run_tools env ex gate calls s w))"
    by (auto simp: configured_run_tools_def split: prod.split sum.split)
qed (simp add: calls_named_def list_all_iff)

lemma warmup_tools_spare:
  assumes "\<And>t w. I w \<Longrightarrow> I (snd (warmup t w))"
  shows "I w \<Longrightarrow> I (snd (warmup_tools digest warmup tools warmed results w))"
proof (induction tools arbitrary: warmed results w)
  case (Cons tool tools)
  obtain r w1 where r: "warmup tool w = (r, w1)" by (cases "warmup tool w")
  then have "I w1" using assms [OF Cons.prems, of tool] by simp
  then show ?case using Cons r by (simp add: Let_def)
qed simp

lemma record_warmup_result:
  assumes "record_mcp_warmup env ctx w = (r, w')" "\<And>t w. I w \<Longrightarrow> I (snd (te_warmup env t w))" "I w"
  shows "I w'" and "r = Inr ctx' \<Longrightarrow> runtime_tools ctx' = runtime_tools ctx"
proof -
  have spare: "I (snd (warmup_runtime_mcp_clients (te_digest env) (te_warmup env) ctx w))"
    using warmup_tools_spare [of I "te_warmup env", OF assms(2) assms(3)] assms(3)
    by (simp add: warmup_runtime_mcp_clients_def split: sum.split prod.split) (metis snd_conv)
  obtain q w1 where q: "warmup_runtime_mcp_clients (te_digest env) (te_warmup env) ctx w = (q, w1)"
    by (cases "warmup_runtime_mcp_clients (te_digest env) (te_warmup env) ctx w")
  show "I w'" using assms(1) spare q by (cases q) (auto simp: record_mcp_warmup_def split: list.splits)
  show "runtime_tools ctx' = runtime_tools ctx" if "r = Inr ctx'"
    using assms(1) q that by (cases q) (auto simp: record_mcp_warmup_def runtime_tools_def split: list.splits)
qed

lemma dependencies_spare:
  assumes "build_configured_dependencies env ctx (Some create) metadata w = (Inr (ctx', deps), w')"
    and "env_spares I env" "ungated_spare I env ctx" "plain_tool_ids ctx"
    and "creates_spare I create" "I w"
  shows "\<exists>C. parts_spare I proper_call C deps \<and> offers C deps"
proof -
  have warmup: "record_mcp_warmup env ctx w = (Inr ctx', w')"
    using assms(1) by (auto simp: build_configured_dependencies_def split: prod.splits sum.splits)
  obtain ex where ex: "configured_executor env ctx' = Inr ex"
    and deps: "deps = configured_parts env ctx' ex \<lparr>ag_context = ctx', ag_store = Some create, ag_metadata = metadata\<rparr>"
    using assms(1) warmup by (auto simp: build_configured_dependencies_def split: sum.splits)
  have "runtime_tools ctx' = runtime_tools ctx"
    using record_warmup_result(2) [OF warmup] assms(2,6) by (simp add: env_spares_def)
  then have "ungated_spare I env ctx'" "plain_tool_ids ctx'" using assms(3,4) by (simp_all add: ungated_spare_def plain_tool_ids_def)
  from configured_parts_spare [OF ex assms(2) this assms(5) refl]
  show ?thesis by (intro exI [of _ "{PList (map PDict (catalog ex))}"]) (simp add: deps configured_parts_def offers_def)
qed

lemma dependencies_keep:
  assumes "build_configured_dependencies env ctx store metadata w = (Inr (ctx', deps), w')"
    and "env_spares I env" "tools_spare I env"
    and "\<And>create. store = Some create \<Longrightarrow> creates_spare I create"
  shows "parts_spare I (\<lambda>_. True) UNIV deps \<and> offers UNIV deps"
proof -
  obtain ex where ex: "configured_executor env ctx' = Inr ex"
    and deps: "deps = configured_parts env ctx' ex \<lparr>ag_context = ctx', ag_store = store, ag_metadata = metadata\<rparr>"
    using assms(1) by (auto simp: build_configured_dependencies_def split: prod.splits sum.splits)
  have "parts_spare I (\<lambda>_. True) UNIV deps"
    unfolding deps by (rule configured_parts_keep [OF ex assms(2,3)]) (use assms(4) in auto)
  then show ?thesis by (simp add: offers_def deps configured_parts_def)
qed

lemma sane_UNIV: "sane (\<lambda>_. True) UNIV s"
  by (simp add: sane_def calls_named_def list_all_iff)

lemma dependencies_world:
  assumes "build_configured_dependencies env ctx store metadata w = (r, w')"
    and "\<And>t w. I w \<Longrightarrow> I (snd (te_warmup env t w))" "I w"
  shows "I w'"
proof -
  obtain q w1 where q: "record_mcp_warmup env ctx w = (q, w1)" by (cases "record_mcp_warmup env ctx w")
  have "I w1" by (rule record_warmup_result(1) [OF q]) (use assms(2,3) in auto)
  then show ?thesis using assms(1) q by (auto simp: build_configured_dependencies_def split: sum.splits)
qed

lemma sane_turn_state: "sane N C (turn_initial_state observations loops)"
  by (simp add: sane_def turn_initial_state_def)

lemma sane_start:
  assumes "offers C deps" "sane N C initial"
  shows "sane N C (initial_store request deps initial)"
    and "sane N C (absorb [] (graph_initial_state request deps initial))"
proof -
  have "sane N C (filter P initial)" for P
    using assms(2) by (rule sane_subset) auto
  then show "sane N C (initial_store request deps initial)"
    unfolding initial_store_def by (intro sane_merge sane_make_store [OF assms(1)])
  have "sane N C []" by (simp add: sane_def)
  then show "sane N C (absorb [] (graph_initial_state request deps initial))"
    unfolding graph_initial_state_def
    by (intro sane_absorb sane_merge sane_persisted sane_without sane_make_store [OF assms(1)] assms(2))
qed

lemma engines_spare:
  assumes "parts_spare I N C deps" "offers C deps"
    and "sane N C initial" "I w"
  shows "I (snd (pocoflow_start env deps request initial w))"
    and "I (snd (langgraph_start env deps request initial metadata ctx w))"
proof -
  have "I (snd (run_agent (te_platform env) (te_node_name env) (te_max_iterations env) deps request initial w))"
    unfolding run_agent_def by (rule flow_spares [OF assms(1) sane_start(1) [OF assms(2,3)] assms(4)])
  then show "I (snd (pocoflow_start env deps request initial w))"
    by (auto simp: pocoflow_start_def split: prod.split option.split sum.split)
  have "I (snd (graph_start (te_platform env) (te_node_name env) (te_max_iterations env) (te_step_limit env) deps request
      initial (PDict ctx) w))"
    unfolding graph_start_def by (rule graph_spares [OF assms(1,2) sane_start(2) [OF assms(2,3)] assms(4)])
  then show "I (snd (langgraph_start env deps request initial metadata ctx w))"
    by (auto simp: langgraph_start_def graph_output_def split: prod.split option.split graph_outcome.split)
qed

lemma turn_spares:
  assumes deps: "\<And>metadata w ctx' deps w'. build_configured_dependencies env ctx (Some create) metadata w = (Inr (ctx', deps), w') \<Longrightarrow>
      I w \<Longrightarrow> \<exists>N C. parts_spare I N C deps \<and> offers C deps"
    and "\<And>t w. I w \<Longrightarrow> I (snd (te_warmup env t w))" "I w"
  shows "I (snd (run_configured_turn env ctx message session_id user_id history metadata (Some create) observations loops
    engine_name w))"
proof (cases "get_execution_engine (te_engine env) engine_name")
  case (Inl e)
  then show ?thesis using assms(3) by (simp add: run_configured_turn_def)
next
  case (Inr engine)
  define request where "request = ensure_trace_id (te_fresh env w) (agent_request (py_strip message) user_id session_id PNone history)"
  define effective where "effective = dmerge metadata
      [(''execution_engine'', PStr engine), (''engine_schema_version'', PStr ENGINE_SCHEMA_VERSION),
       (''engine_thread_id'', PStr (get_text request ''trace_id''))]"
  obtain r w1 where r: "build_configured_dependencies env ctx (Some create) effective w = (r, w1)"
    by (cases "build_configured_dependencies env ctx (Some create) effective w")
  have w1: "I w1" by (rule dependencies_world [OF r]) (use assms(2,3) in auto)
  show ?thesis
  proof (cases r)
    case (Inl e)
    then show ?thesis
      using r w1 Inr by (simp add: run_configured_turn_def request_def [symmetric] effective_def [symmetric] Let_def)
  next
    case (Inr parts)
    obtain ctx' deps where parts: "parts = (ctx', deps)" by (cases parts)
    obtain N C where c: "parts_spare I N C deps" "offers C deps"
      using assms(1) [OF r [unfolded Inr parts] assms(3)] by blast
    let ?initial = "turn_initial_state observations loops"
    note spare = engines_spare [OF c sane_turn_state w1]
    define started where "started = (if engine = ''langgraph''
      then langgraph_start env deps request (turn_initial_state observations loops) effective ctx' w1
      else pocoflow_start env deps request (turn_initial_state observations loops) w1)"
    have "I (snd started)" unfolding started_def using spare by (cases "engine = ''langgraph''") simp_all
    moreover have "run_configured_turn env ctx message session_id user_id history metadata (Some create) observations loops
        engine_name w =
        (case started of
           (Inl e, w2) \<Rightarrow> (Inl e, w2)
         | (Inr result, w2) \<Rightarrow>
             (Inr (dset ''request_metadata'' (PDict effective)
                (dset ''runtime_context'' (PDict (summarize_runtime_context ctx')) result)), w2))"
      using r \<open>get_execution_engine _ _ = Inr engine\<close>
      unfolding run_configured_turn_def started_def request_def effective_def Inr parts Let_def by simp
    ultimately show ?thesis by (cases started; cases "fst started") simp_all
  qed
qed


text \<open>The desk of \<open>Approval_Gate\<close> as an agent: its model keeps asking for a refund.\<close>

definition desk_registry :: "desk runner_registry" where
  "desk_registry =
     \<lparr>reg_tools = map (\<lambda>(name, h). (''local.'' @ name,
          \<lparr>lt_tool_id = name, lt_runner_tool_id = ''local.'' @ name, lt_description = [], lt_handler = h,
           lt_input_schema = [], lt_max_retries = 1, lt_retry_delay = 0, lt_metadata = default_metadata\<rparr>))
        [(''refund'', \<lambda>args state (n, st). (Inr PNone, (n + 1, st))),
         (''stock'', \<lambda>args state w. (Inr (PInt 5), w))],
      reg_skills = []\<rparr>"

definition desk_env :: "desk turn_env" where
  "desk_env =
     \<lparr>te_platform = desk_platform, te_schedule = (\<lambda>n. [0..<n]), te_node_name = (\<lambda>n. ''node''),
      te_max_iterations = 3, te_step_limit = 25, te_registry = desk_registry,
      te_call_mcp = (\<lambda>tool args state w. (Inl (adapter_error ''none''), w)), te_digest = (\<lambda>c. []),
      te_warmup = (\<lambda>tool w. (Inr [], w)), te_tool_state = [], te_tool_log = None,
      te_views = (\<lambda>r w. (Inr [], w)), te_skill_index = (\<lambda>s w. Inr []),
      te_memory = \<lparr>ms_provider = None, ms_recall_enabled = True, ms_write_enabled = True, ms_recall_limit = 8,
        ms_max_item_chars = 400\<rparr>,
      te_now = (\<lambda>w. 0),
      te_chat = (\<lambda>s w. (Inr [(''route'', PStr ''tool_call''), (''tool_name'', PStr ''refund'')], w)),
      te_usage = (\<lambda>w. []), te_checkpoint = (\<lambda>w. PNone), te_saved_state = (\<lambda>i w. []),
      te_resolve = (\<lambda>a r u c w. (Inr desk_context, w)), te_fresh = (\<lambda>w. ''f''), te_thinking = False,
      te_engine = ''pocoflow''\<rparr>"

definition desk_create :: "desk create" where
  "desk_create snapshot approval w =
     (case w of (n, st) \<Rightarrow> case mem_create st 0 ''f1'' snapshot approval 1800 of (r, st') \<Rightarrow> (Inr r, (n, st')))"

lemma desk_tools: "runtime_tools desk_context = Inr
    [[(''tool_id'', PStr ''refund''), (''side_effect_level'', PStr ''external_write'')],
     [(''tool_id'', PStr ''stock''), (''side_effect_level'', PStr ''none'')]]"
  by (simp add: runtime_tools_def desk_context_def py_or_def)

lemma desk_ungated: "ungated_spare (\<lambda>w. fst w = 7) desk_env desk_context"
  by (auto simp: ungated_spare_def desk_tools tool_requires_approval_def py_or_def write_levels_def desk_env_def
      execute_tool_manifest_def validate_json_schema_args_def get_text_def starts_with_def get_tool_def desk_registry_def
      split: option.split)

lemma desk_spares: "env_spares (\<lambda>w. fst w = 7) desk_env" "plain_tool_ids desk_context"
  by (auto simp: env_spares_def desk_env_def desk_platform_def plain_tool_ids_def desk_tools tool_ids_def get_text_def
      py_strip_def is_space_def)


end
