(* ===== verification/Approval_Resume.thy ===== *)
theory Approval_Resume
  imports Configured_Runner
begin

text \<open>
  What the decision of an approval may run (\<open>configured_runner.py\<close>, \<open>decide_approval\<close>): a rejection runs
  nothing, an approved call runs only while the refreshed context still offers its tool, and an approval
  whose call has run answers from the store.
\<close>

section \<open>The in-memory store as the approval interface\<close>

text \<open>The default store of the process, next to the rest \<open>'v\<close> of the world; \<open>ttl\<close> is in seconds.\<close>

definition memory_create ::
  "('v \<Rightarrow> int) \<Rightarrow> ('v \<Rightarrow> string) \<Rightarrow> int \<Rightarrow> ('v \<times> memory_store) create" where
  "memory_create instant fresh ttl snapshot approval w =
     (let (r, st) = mem_create (snd w) (instant (fst w)) (fresh (fst w)) snapshot approval ttl in (Inr r, (fst w, st)))"

definition memory_api ::
  "(pydict \<Rightarrow> string option) \<Rightarrow> ('v \<Rightarrow> int) \<Rightarrow> ('v \<Rightarrow> string) \<Rightarrow> int \<Rightarrow> ('v \<times> memory_store) approval_api" where
  "memory_api objs instant fresh ttl =
     \<lparr>api_create = memory_create instant fresh ttl,
      api_get = (\<lambda>i w. mem_get (snd w) i),
      api_decide = (\<lambda>i d w. let (r, st) = mem_decide (snd w) (instant (fst w)) i d in (r, (fst w, st))),
      api_mark_executed = (\<lambda>i result w. (fst w, mem_mark_executed objs (snd w) i result))\<rparr>"

section \<open>What a decision may run\<close>

lemma rejected_resume_world:
  assumes "\<And>s w. dep_self_check deps s w = (Inr (default_self_check s), w)"
    and "py_str (py_or (dget payload ''decision'') (PStr ''rejected'')) \<noteq> ''approved''" "distinct (map fst saved)"
  shows "snd (graph_resume pf name_of m limit deps request payload rc saved w) = w"
proof (cases limit)
  case (Suc n)
  let ?t = "absorb saved (await_approval (PDict payload) saved)"
  have "route_after_approval ?t = Planner_Node SelfCheck"
    using await_rejected(3) [OF assms(3,2)] by (simp add: route_after_approval_def dget_map_of)
  then have resume: "graph_resume pf name_of m limit deps request payload rc saved w =
      run_graph pf name_of m request deps rc n (Planner_Node SelfCheck) None ?t w"
    by (simp add: graph_resume_def Suc Let_def)
  show ?thesis
    unfolding resume by (cases n) (simp_all add: graph_step_def run_node_def self_check_node_def assms(1))
qed (simp add: graph_resume_def)

lemma dependencies_check:
  "build_configured_dependencies env ctx store metadata w = (Inr (ctx', deps), w') \<Longrightarrow>
     dep_self_check deps s v = (Inr (default_self_check s), v)"
  by (auto simp: build_configured_dependencies_def configured_parts_def split: prod.splits sum.splits)

lemma graph_output_world: "snd (graph_output env request tid w0 r) = snd r"
  by (cases r) (simp add: graph_output_def split: option.split graph_outcome.split)

lemma rejected_langgraph_world:
  assumes warmup: "\<And>t w. I w \<Longrightarrow> I (snd (te_warmup env t w))" and "I w"
    and "py_str (py_or (dget payload ''decision'') (PStr ''rejected'')) \<noteq> ''approved''"
    and saved: "\<And>tid w. distinct (map fst (te_saved_state env tid w))"
  shows "I (snd (resume_langgraph_approval env create r ctx payload w))"
proof -
  define effective where "effective = dmerge (snapshot_metadata r)
      [(''approval_id'', dget r ''approval_id''), (''approval_decision'', dget payload ''decision'')]"
  obtain q w1 where q: "build_configured_dependencies env ctx (Some create) effective w = (q, w1)"
    by (cases "build_configured_dependencies env ctx (Some create) effective w")
  have w1: "I w1" by (rule dependencies_world [OF q]) (use warmup assms(2) in auto)
  show ?thesis
  proof (cases q)
    case (Inl e)
    then show ?thesis using q w1 by (simp add: resume_langgraph_approval_def effective_def [symmetric] Let_def)
  next
    case (Inr parts)
    obtain ctx' deps where parts: "parts = (ctx', deps)" by (cases parts)
    define request where "request = ensure_trace_id (te_fresh env w1)
      (agent_request (text_or_empty (dget (snapshot_of r) ''message'')) (text_or_none (dget (snapshot_of r) ''user_id''))
         (snapshot_session r) (text_or_none (py_or (dget (snapshot_of r) ''trace_id'') (dget r ''trace_id'')))
         (snapshot_history r))"
    define tid where "tid = py_str (py_or (dget (snapshot_metadata r) ''engine_thread_id'') (dget request ''trace_id''))"
    define out where "out = graph_output env request tid w1
      (graph_resume (te_platform env) (te_node_name env) (te_max_iterations env) (te_step_limit env)
         deps request payload (PDict ctx') (te_saved_state env tid w1) w1)"
    have "snd out = w1"
      unfolding out_def graph_output_world
      by (rule rejected_resume_world) (use dependencies_check [OF q [unfolded Inr parts]] assms(3) saved in auto)
    moreover have "resume_langgraph_approval env create r ctx payload w =
        (case out of
           (Inl e, w2) \<Rightarrow> (Inl e, w2)
         | (Inr resumed, w2) \<Rightarrow>
             (Inr (dset ''request_metadata'' (PDict effective)
                (dset ''runtime_context'' (PDict (summarize_runtime_context ctx')) resumed)), w2))"
      using q unfolding resume_langgraph_approval_def out_def tid_def request_def effective_def Inr parts Let_def by simp
    ultimately show ?thesis using w1 by (cases out; cases "fst out") simp_all
  qed
qed

text \<open>C9: Rejecting an approval runs nothing: on either engine, whatever the stored request is, no model is
  asked and no tool runs; the world changes at most by the decision itself, the resolution of the context
  and the warm-up of connections (a saved graph state is a dictionary, that is without double keys).\<close>

theorem rejection_runs_nothing:
  assumes "ad_decision d = APPROVAL_REJECTED"
    and decide: "\<And>w. I w \<Longrightarrow> I (snd (api_decide api i d w))"
    and resolve: "\<And>a r u c w. I w \<Longrightarrow> I (snd (te_resolve env a r u c w))"
    and warmup: "\<And>t w. I w \<Longrightarrow> I (snd (te_warmup env t w))"
    and saved: "\<And>tid w. distinct (map fst (te_saved_state env tid w))" and "I w"
  shows "I (snd (decide_approval env api i d w))"
proof -
  obtain q w1 where q: "api_decide api i d w = (q, w1)" by (cases "api_decide api i d w")
  have w1: "I w1" using decide [OF assms(6)] q by simp
  show ?thesis
  proof (cases q)
    case (Inl e)
    then show ?thesis
      using q w1 assms(1)
      by (simp add: decide_approval_def approval_to_act_on_def APPROVAL_REJECTED_def APPROVAL_APPROVED_def)
  next
    case (Inr r)
    have run: "decide_approval env api i d w =
        (if approval_execution_engine r = ''langgraph'' then resume_rejected_langgraph_approval env (api_create api) r w1
         else (Inr (rejected_approval_response r), w1))"
      using q assms(1) by (simp add: decide_approval_def Inr)
    obtain c w2 where c: "resolve_for env r w1 = (c, w2)" by (cases "resolve_for env r w1")
    have w2: "I w2" using resolve [OF w1] c unfolding resolve_for_def by (metis snd_conv)
    define payload where "payload = [(''decision'', PStr ''rejected''),
        (''approval_observation'', PDict (approval_observation r ''rejected'')), (''answer'', PStr rejected_answer)]"
    have resumed: "I (snd (resume_langgraph_approval env (api_create api) r ctx payload w2))" for ctx
      by (rule rejected_langgraph_world) (use warmup saved w2 in \<open>auto simp: payload_def py_or_def\<close>)
    have "I (snd (resume_rejected_langgraph_approval env (api_create api) r w1))"
    proof (cases c)
      case (Inl e)
      then show ?thesis using c w2 by (simp add: resume_rejected_langgraph_approval_def)
    next
      case (Inr ctx)
      then show ?thesis
        using c resumed [of ctx]
        by (auto simp: resume_rejected_langgraph_approval_def payload_def split: prod.split sum.split)
    qed
    then show ?thesis using w1 by (simp add: run)
  qed
qed

definition desk_record :: pydict where
  "desk_record =
     [(''approval_id'', PStr ''appr_1''), (''tool_id'', PStr ''refund''), (''status'', PStr ''pending''),
      (''expires_at'', PNone)]"

definition desk_store :: memory_store where
  "desk_store = [(''appr_1'', desk_record)]"

theorem rejection_runs_nothing_witness:
  "fst (snd (decide_approval desk_env (memory_api (\<lambda>_. None) (\<lambda>n. 0) (\<lambda>n. ''f1'') 1800) ''appr_1'' reject (7, desk_store))) = 7"
  by (rule rejection_runs_nothing [where I = "\<lambda>w. fst w = 7"])
    (auto simp: reject_def memory_api_def desk_env_def split: prod.split)

text \<open>C25: An approved call runs only while it is still permitted: when the context, resolved anew for the
  actor of the request, no longer offers the tool of the stored call, the approval is answered by an
  error, and nothing after the decision and the resolution happens (no connection, no model, no tool).\<close>

theorem approved_tool_checked:
  assumes "ad_decision d = APPROVAL_APPROVED" "api_decide api i d w = (Inr r, w1)" "resolve_for env r w1 = (Inr ctx, w2)"
    and "text_or_empty (py_or (dget (as_dict (dget (snapshot_of r) ''tool_call'')) ''tool_name'') (dget r ''tool_id''))
      \<notin> set (map py_str (list_at ctx ''tool_ids''))"
  shows "decide_approval env api i d w =
    (Inl (exn ''ApprovalError'' ''the tool is no longer available or authorized''), w2)"
  using assms
  by (simp add: decide_approval_def resume_approved_approval_def ensure_tool_still_allowed_def Let_def
      APPROVAL_APPROVED_def APPROVAL_REJECTED_def)

theorem approved_tool_checked_witness:
  "fst (decide_approval desk_env (memory_api (\<lambda>_. None) (\<lambda>n. 0) (\<lambda>n. ''f1'') 1800) ''appr_1'' approve (7, desk_store)) =
     Inl (exn ''ApprovalError'' ''the tool is no longer available or authorized'')"
proof -
  let ?r = "dmerge desk_record [(''status'', PStr ''approved''), (''decided_at'', iso 0), (''decided_by'', PStr ''boss''),
    (''decision_comment'', PNone)]"
  have r: "api_decide (memory_api (\<lambda>_. None) (\<lambda>n. 0) (\<lambda>n. ''f1'') 1800) ''appr_1'' approve (7 :: nat, desk_store) =
      (Inr ?r, (7, AList.update ''appr_1'' ?r desk_store))"
    by (simp add: memory_api_def mem_decide_def mem_get_def desk_store_def desk_record_def approve_def dget_map_of
        py_eq_text is_expired_def iso_def opt_str_def Let_def APPROVAL_PENDING_def APPROVAL_APPROVED_def)
  show ?thesis
    by (subst approved_tool_checked [OF _ r]) (auto simp: approve_def resolve_for_def desk_env_def desk_context_def
        list_at_def dget_map_of py_or_def snapshot_of_def)
qed

section \<open>An approval that was carried out\<close>

text \<open>What every service, tool and new request keeps is still true when the resumed turn is over.\<close>

lemma resumed_graph_spares:
  assumes "env_spares I env" "tools_spare I env" "creates_spare I create" "I w"
  shows "I (snd (resume_langgraph_approval env create r ctx payload w))"
proof -
  define effective where "effective = dmerge (snapshot_metadata r)
      [(''approval_id'', dget r ''approval_id''), (''approval_decision'', dget payload ''decision'')]"
  obtain q w1 where q: "build_configured_dependencies env ctx (Some create) effective w = (q, w1)"
    by (cases "build_configured_dependencies env ctx (Some create) effective w")
  have w1: "I w1" by (rule dependencies_world [OF q]) (use assms(1,4) in \<open>auto simp: env_spares_def\<close>)
  show ?thesis
  proof (cases q)
    case (Inl e)
    then show ?thesis using q w1 by (simp add: resume_langgraph_approval_def effective_def [symmetric] Let_def)
  next
    case (Inr parts)
    obtain ctx' deps where parts: "parts = (ctx', deps)" by (cases parts)
    have spare: "parts_spare I (\<lambda>_. True) UNIV deps" "offers UNIV deps"
      using dependencies_keep [OF q [unfolded Inr parts] assms(1,2)] assms(3) by auto
    have run: "I (snd (graph_output env request tid w0 (graph_resume pf name_of m limit deps request p rc saved w1)))"
      for request tid w0 pf name_of m limit p rc saved
      unfolding graph_output_world graph_resume_def by (rule graph_spares [OF spare sane_UNIV w1])
    show ?thesis
      using q w1 unfolding resume_langgraph_approval_def effective_def [symmetric] Inr parts Let_def
      by (auto split: prod.split sum.split) (metis run snd_conv)+
  qed
qed

lemma continue_spares:
  assumes "env_spares I env" "tools_spare I env" "creates_spare I create" "I w"
  shows "I (snd (continue_approved env create r ctx results w))"
proof -
  have "I (snd (run_configured_turn env ctx message sid uid history metadata (Some create) observations loops engine w))"
    for message sid uid history metadata observations loops engine
  proof (rule turn_spares)
    show "\<exists>N C. parts_spare I N C deps \<and> offers C deps"
      if "build_configured_dependencies env ctx (Some create) md v = (Inr (ctx', deps), v')" for md v ctx' deps v'
      using dependencies_keep [OF that assms(1,2)] assms(3) by blast
  qed (use assms in \<open>auto simp: env_spares_def\<close>)
  then show ?thesis
    using resumed_graph_spares [OF assms] assms(4)
    by (simp add: continue_approved_def Let_def split: sum.split)
qed

lemma resumed_approval_ends:
  assumes "env_spares I env" "tools_spare I env" "creates_spare I (api_create api)"
    and resolve: "\<And>a r u c w. I w \<Longrightarrow> I (snd (te_resolve env a r u c w))" and "I w"
    and finished: "resume_approved_approval env api r w = (Inr out, w')"
  obtains resumed v where "I v" "w' = api_mark_executed api (get_text r ''approval_id'') resumed v"
    "out = dset ''approval'' (PDict (approval_response (dset ''status'' (PStr APPROVAL_EXECUTED) r))) resumed"
proof -
  obtain ctx w1 where ctx: "resolve_for env r w = (Inr ctx, w1)"
    using finished by (cases "resolve_for env r w"; cases "fst (resolve_for env r w)") (auto simp: resume_approved_approval_def)
  have w1: "I w1" using resolve [OF \<open>I w\<close>] ctx unfolding resolve_for_def by (metis snd_conv)
  obtain ctx' deps w2 where deps: "build_configured_dependencies env ctx None (snapshot_metadata r) w1 = (Inr (ctx', deps), w2)"
    using finished ctx by (auto simp: resume_approved_approval_def Let_def split: option.splits prod.splits sum.splits)
  have w2: "I w2" by (rule dependencies_world [OF deps]) (use assms(1) w1 in \<open>auto simp: env_spares_def\<close>)
  have spare: "parts_spare I (\<lambda>_. True) UNIV deps" using dependencies_keep [OF deps assms(1,2)] by blast
  obtain f where f: "dep_run_tools deps = Some f" "\<And>calls s w. I w \<Longrightarrow> I (snd (f calls s w))"
    using spare unfolding parts_spare_def by (auto simp: list_all_iff)
  obtain state batch w3 where batch: "build_resume_state (snapshot_of r) ctx' = Inr state"
      "f [as_dict (dget (snapshot_of r) ''tool_call'')] state w2 = (Inr batch, w3)"
    using finished ctx deps f(1)
    by (auto simp: resume_approved_approval_def Let_def split: option.splits prod.splits sum.splits)
  have w3: "I w3" using f(2) [OF w2] batch(2) by (metis snd_conv)
  let ?results = "if is_list (dget batch ''results'') then as_list (dget batch ''results'') else [PDict batch]"
  obtain resumed v where v: "continue_approved env (api_create api) r ctx' ?results w3 = (Inr resumed, v)"
      and out: "out = dset ''approval'' (PDict (approval_response (dset ''status'' (PStr APPROVAL_EXECUTED) r))) resumed"
      "w' = api_mark_executed api (get_text r ''approval_id'') resumed v"
    using finished ctx deps f(1) batch unfolding resume_approved_approval_def Let_def
    by (auto split: option.splits prod.splits sum.splits)
  have "I v" using continue_spares [OF assms(1-3) w3] v by (metis snd_conv)
  then show ?thesis using that out by blast
qed

lemma memory_create_spares:
  assumes "\<And>v. i \<noteq> ''appr_'' @ fresh v"
  shows "creates_spare (\<lambda>w. mem_get (snd w) i = Some r) (memory_create instant fresh ttl)"
proof -
  have "mem_get (snd (mem_create st t (fresh v) snapshot approval ttl)) i = mem_get st i"
    if "dget approval ''approval_id'' = PNone" for st t v snapshot approval
    using that assms [of v] by (simp add: mem_create_def Let_def mem_get_def py_or_def update_conv')
  then show ?thesis by (simp add: creates_spare_def memory_create_def split_beta)
qed

lemma memory_decided:
  assumes "mem_decide st t i d = (Inr r, st')"
  shows "mem_get st' i = Some r"
  using assms by (auto simp: mem_decide_def mem_get_def Let_def update_conv' dmerge_def split: option.splits if_splits)

lemma executed_again:
  assumes "mem_get st i = Some r" "ad_decision d = APPROVAL_APPROVED" "api = memory_api objs instant fresh ttl"
    and "st' = mem_mark_executed objs st i resumed"
  shows "decide_approval env api i d (v, st') =
    (Inr (dset ''approval'' (PDict (approval_response (dset ''status'' (PStr APPROVAL_EXECUTED) r)))
       (json_safe_dict objs resumed)), (v, st'))"
proof -
  let ?e = "dmerge r [(''status'', PStr APPROVAL_EXECUTED), (''result'', PDict (json_safe_dict objs resumed))]"
  have e: "mem_get st' i = Some ?e" using assms(1,4) by (simp add: mem_mark_executed_def mem_get_def update_conv' dmerge_def)
  have "mem_decide st' t i d = (Inl AlreadyDecided, st')" for t
    using e by (simp add: mem_decide_def dget_dmerge py_eq_text APPROVAL_EXECUTED_def APPROVAL_PENDING_def)
  moreover have "approval_response ?e = approval_response (dset ''status'' (PStr APPROVAL_EXECUTED) r)"
    by (simp add: approval_response_def dget_dmerge)
  moreover have "?e \<noteq> []" by (simp add: dmerge_def)
  ultimately show ?thesis
    using e assms(2)
    by (simp add: decide_approval_def assms(3) memory_api_def approval_to_act_on_def dget_dmerge py_eq_text
        APPROVAL_EXECUTED_def APPROVAL_APPROVED_def)
qed

text \<open>C10: An approval is carried out once. When an approval of a pending request of the in-memory store was
  answered, on either engine, every later approval of the same request is answered from the store and
  nothing in the world changes: no model is asked and no tool runs again. The later answer has the same
  approval record, and under every other key what the first answer had there, as JSON: texts, numbers,
  lists and dictionaries of them are the same, and an object of the runtime (the request in the state of
  a flow) is its \<open>str\<close>. No service or tool of the turn writes the approval store, and new requests get
  new ids.\<close>

theorem approval_carried_out_once:
  fixes env :: "('v \<times> memory_store) turn_env"
  assumes "ad_decision d = APPROVAL_APPROVED" "ad_decision d' = APPROVAL_APPROVED"
    and decided: "mem_decide (snd w) (instant (fst w)) i d = (Inr r, st)" and id: "get_text r ''approval_id'' = i"
    and env: "env_spares (\<lambda>w. mem_get (snd w) i = Some r) env" "tools_spare (\<lambda>w. mem_get (snd w) i = Some r) env"
    and resolve: "\<And>a r' u c w. mem_get (snd w) i = Some r \<Longrightarrow> mem_get (snd (snd (te_resolve env a r' u c w))) i = Some r"
    and fresh: "\<And>v. i \<noteq> ''appr_'' @ fresh v"
    and answered: "decide_approval env (memory_api objs instant fresh ttl) i d w = (Inr out, w')"
  shows "\<exists>out'. decide_approval env (memory_api objs instant fresh ttl) i d' w' = (Inr out', w') \<and>
      dget out' ''approval'' = dget out ''approval'' \<and>
      (\<forall>k. k \<noteq> ''approval'' \<longrightarrow> dget out' k = json_safe objs (dget out k))"
proof -
  let ?I = "\<lambda>w. mem_get (snd w) i = Some r" and ?api = "memory_api objs instant fresh ttl"
  have run: "resume_approved_approval env ?api r (fst w, st) = (Inr out, w')"
    using answered decided assms(1)
    by (simp add: decide_approval_def memory_api_def APPROVAL_APPROVED_def APPROVAL_REJECTED_def)
  obtain resumed v where v: "?I v" "w' = api_mark_executed ?api i resumed v"
      "out = dset ''approval'' (PDict (approval_response (dset ''status'' (PStr APPROVAL_EXECUTED) r))) resumed"
  proof (rule resumed_approval_ends [OF env _ _ _ run])
    show "creates_spare ?I (api_create ?api)" using memory_create_spares [OF fresh] by (simp add: memory_api_def)
    show "?I (fst w, st)" using memory_decided [OF decided] by simp
  qed (use resolve id in auto)
  have w': "w' = (fst v, mem_mark_executed objs (snd v) i resumed)" using v(2) by (simp add: memory_api_def)
  show ?thesis
    unfolding w' v(3) executed_again [OF v(1) assms(2) refl refl]
    by (simp add: dget_json_safe)
qed

text \<open>A desk whose manager approves one refund twice: the till pays once.\<close>

definition till_context :: pydict where
  "till_context = dset ''tool_ids'' (PList [PStr ''refund'', PStr ''stock'']) desk_context"

definition till_env :: "desk turn_env" where
  "till_env = desk_env\<lparr>te_resolve := \<lambda>a r u c w. (Inr till_context, w),
     te_chat := \<lambda>s w. (Inr [(''route'', PStr ''answer''), (''answer'', PStr ''paid'')], w)\<rparr>"

definition till_objs :: "pydict \<Rightarrow> string option" where
  "till_objs d = (if has_key d ''product_id'' then Some ''AgentRequest(...)'' else None)"

definition till_api :: "desk approval_api" where
  "till_api = memory_api till_objs (\<lambda>n. 0) (\<lambda>n. ''f1'') 1800"

definition till_store :: memory_store where
  "till_store = [(''appr_1'', dset ''snapshot'' (PDict [(''tool_call'', PDict [(''tool_name'', PStr ''refund'')])]) desk_record)]"

lemma till_spares:
  assumes "I = (\<lambda>w. mem_get (snd w) i = Some r)"
  shows "env_spares I till_env" "tools_spare I till_env"
  by (auto simp: assms env_spares_def tools_spare_def till_env_def desk_env_def desk_platform_def desk_registry_def)

theorem approval_carried_out_once_witness:
  "\<exists>out out' w'. decide_approval till_env till_api ''appr_1'' approve (7, till_store) = (Inr out, w') \<and>
     decide_approval till_env till_api ''appr_1'' approve w' = (Inr out', w') \<and>
     fst w' = 8 \<and> dget out ''answer'' = PStr ''paid'' \<and> dget out' ''answer'' = PStr ''paid''"
proof -
  let ?p = "decide_approval till_env till_api ''appr_1'' approve (7, till_store)"
  have p: "(case fst ?p of Inl e \<Rightarrow> False | Inr out \<Rightarrow> dget out ''answer'' = PStr ''paid'') \<and> fst (snd ?p) = 8"
    by code_simp
  then obtain out w' where out: "?p = (Inr out, w')" "dget out ''answer'' = PStr ''paid''" "fst w' = 8"
    by (cases ?p; cases "fst ?p") auto
  have "\<exists>r st. mem_decide till_store 0 ''appr_1'' approve = (Inr r, st) \<and> get_text r ''approval_id'' = ''appr_1''"
    by (simp add: mem_decide_def mem_get_def till_store_def desk_record_def dget_map_of py_eq_text is_expired_def Let_def
        get_text_def map_of_dmerge map_add_def APPROVAL_PENDING_def)
  then obtain r st where r: "mem_decide till_store 0 ''appr_1'' approve = (Inr r, st)" "get_text r ''approval_id'' = ''appr_1''"
    by blast
  have "\<exists>out'. decide_approval till_env till_api ''appr_1'' approve w' = (Inr out', w') \<and>
      dget out' ''approval'' = dget out ''approval'' \<and>
      (\<forall>k. k \<noteq> ''approval'' \<longrightarrow> dget out' k = json_safe till_objs (dget out k))"
    unfolding till_api_def
  proof (rule approval_carried_out_once [where w = "(7, till_store)", OF _ _ _ r(2) till_spares [OF refl]])
    show "decide_approval till_env (memory_api till_objs (\<lambda>n. 0) (\<lambda>n. ''f1'') 1800) ''appr_1'' approve (7, till_store) = (Inr out, w')"
      using out(1) by (simp add: till_api_def)
  qed (use r(1) in \<open>simp_all add: approve_def till_env_def\<close>)
  then show ?thesis using out by fastforce
qed

end
