(* ===== verification/Mcp_Sessions.thy ===== *)
theory Mcp_Sessions
  imports Tool_Adapters
begin

text \<open>
  The pool of MCP connections (\<open>tool_adapters.py\<close>, \<open>MCPClientManager\<close>). Sessions are objects that a call
  keeps using after the table has dropped them, so they are numbered in the order of their creation and
  the table maps connection keys to numbers. The sections under the table's lock run as one step each;
  calls lock and release a session between them. The client of a session is third-party: the model counts
  which clients were opened (a session exists) and closed. Readings of the clock are arguments. The
  cancellation of a coroutine by a timeout of its caller is not modelled.
\<close>

record mcp_session =
  se_key :: string
  se_connection :: string
  se_created_at :: rat
  se_used_at :: rat
  se_idle_ttl :: rat
  se_discovery_ttl :: rat
  se_discovered_at :: rat
  se_tools :: "string list option"
  se_locked :: bool

record mcp_manager =
  mm_objects :: "mcp_session list"
  mm_table :: "(string \<times> nat) list"
  mm_closed :: "nat list"

record mcp_limits =
  lim_sessions :: int
  lim_idle_ttl :: rat
  lim_discovery_ttl :: rat
  lim_digest :: "pydict \<Rightarrow> string"

definition no_sessions :: mcp_manager where
  "no_sessions = \<lparr>mm_objects = [], mm_table = [], mm_closed = []\<rparr>"

abbreviation object :: "mcp_manager \<Rightarrow> nat \<Rightarrow> mcp_session" where
  "object m i \<equiv> mm_objects m ! i"

definition update_session :: "nat \<Rightarrow> (mcp_session \<Rightarrow> mcp_session) \<Rightarrow> mcp_manager \<Rightarrow> mcp_manager" where
  "update_session i f m = m\<lparr>mm_objects := (mm_objects m)[i := f (object m i)]\<rparr>"

section \<open>Closing sessions\<close>

text \<open>An exception of the client that is closed is swallowed.\<close>

definition close_session :: "string \<Rightarrow> mcp_manager \<Rightarrow> mcp_manager" where
  "close_session key m =
     (case map_of (mm_table m) key of
        None \<Rightarrow> m
      | Some i \<Rightarrow> m\<lparr>mm_table := AList.delete key (mm_table m), mm_closed := mm_closed m @ [i]\<rparr>)"

definition expired :: "rat \<Rightarrow> mcp_session \<Rightarrow> bool" where
  "expired now s \<longleftrightarrow> \<not> se_locked s \<and> now - se_used_at s \<ge> se_idle_ttl s"

definition cleanup_idle_sessions :: "rat \<Rightarrow> mcp_manager \<Rightarrow> nat \<times> mcp_manager" where
  "cleanup_idle_sessions now m =
     (let keys = map fst (filter (\<lambda>(k, i). expired now (object m i)) (mm_table m))
      in (length keys, fold close_session keys m))"

definition evict_superseded_connection :: "pydict \<Rightarrow> string \<Rightarrow> mcp_manager \<Rightarrow> mcp_manager" where
  "evict_superseded_connection tool key m =
     (let stale = map fst (filter (\<lambda>(k, i). k \<noteq> key \<and> se_connection (object m i) = mcp_connection_id tool \<and>
            \<not> se_locked (object m i)) (mm_table m))
      in fold close_session stale m)"

text \<open>\<open>min\<close> with a key gives the first of the least elements.\<close>

fun first_min :: "('a \<Rightarrow> rat) \<Rightarrow> 'a \<Rightarrow> 'a list \<Rightarrow> 'a" where
  "first_min f x [] = x"
| "first_min f x (y # ys) = first_min f (if f y < f x then y else x) ys"

definition idle_sessions :: "mcp_manager \<Rightarrow> mcp_session list" where
  "idle_sessions m = filter (\<lambda>s. \<not> se_locked s) (map (object m \<circ> snd) (mm_table m))"

text \<open>The loop closes idle sessions, the least recently used first; \<open>None\<close> would be a loop without end.\<close>

partial_function (option) enforce_session_limit :: "int \<Rightarrow> mcp_manager \<Rightarrow> (py_exn option \<times> mcp_manager) option" where
  "enforce_session_limit bound m =
     (if int (length (mm_table m)) < bound then Some (None, m)
      else case idle_sessions m of
             [] \<Rightarrow> Some (Some (adapter_error ''the session cache is full and every connection is in use''), m)
           | s # ss \<Rightarrow> enforce_session_limit bound (close_session (se_key (first_min se_used_at s ss)) m))"

declare enforce_session_limit.simps [code]

definition evict_session :: "string \<Rightarrow> nat \<Rightarrow> mcp_manager \<Rightarrow> mcp_manager" where
  "evict_session key i m = (if map_of (mm_table m) key = Some i then close_session key m else m)"

definition close_sessions :: "mcp_manager \<Rightarrow> mcp_manager" where
  "close_sessions m = fold close_session (map fst (mm_table m)) m"

section \<open>Getting a session\<close>

definition new_session :: "mcp_limits \<Rightarrow> pydict \<Rightarrow> string \<Rightarrow> rat \<Rightarrow> mcp_session" where
  "new_session limits tool key now =
     \<lparr>se_key = key, se_connection = mcp_connection_id tool, se_created_at = now, se_used_at = now,
      se_idle_ttl = mcp_idle_ttl_seconds tool (lim_idle_ttl limits),
      se_discovery_ttl = mcp_discovery_ttl_seconds tool (lim_discovery_ttl limits),
      se_discovered_at = 0, se_tools = None, se_locked = False\<rparr>"

text \<open>
  \<open>connect\<close> is the exception with which building the transport or opening the client fails; \<open>t\<close> and
  \<open>t'\<close> are the readings of the clock by the cleanup and afterwards.
\<close>

definition get_session ::
  "mcp_limits \<Rightarrow> py_exn option \<Rightarrow> pydict \<Rightarrow> rat \<Rightarrow> rat \<Rightarrow> mcp_manager \<Rightarrow> ((py_exn + nat) \<times> mcp_manager) option" where
  "get_session limits connect tool t t' m =
     (let key = mcp_connection_cache_key (lim_digest limits) tool; m1 = snd (cleanup_idle_sessions t m)
      in case map_of (mm_table m1) key of
           Some i \<Rightarrow> Some (Inr i, update_session i (\<lambda>s. s\<lparr>se_used_at := t'\<rparr>) m1)
         | None \<Rightarrow>
             (case enforce_session_limit (lim_sessions limits) (evict_superseded_connection tool key m1) of
                None \<Rightarrow> None
              | Some (Some e, m2) \<Rightarrow> Some (Inl e, m2)
              | Some (None, m2) \<Rightarrow>
                  (case connect of
                     Some e \<Rightarrow> Some (Inl e, m2)
                   | None \<Rightarrow>
                       let i = length (mm_objects m2)
                       in Some (Inr i, m2\<lparr>mm_objects := mm_objects m2 @ [new_session limits tool key t'],
                                         mm_table := AList.update key i (mm_table m2)\<rparr>))))"

section \<open>Calls and warm-ups on a session\<close>

definition enter_session :: "nat \<Rightarrow> mcp_manager \<Rightarrow> mcp_manager" where
  "enter_session i = update_session i (\<lambda>s. s\<lparr>se_locked := True\<rparr>)"

definition leave_session :: "nat \<Rightarrow> mcp_manager \<Rightarrow> mcp_manager" where
  "leave_session i = update_session i (\<lambda>s. s\<lparr>se_locked := False\<rparr>)"

text \<open>The end of \<open>_call_tool\<close>; after a failed call \<open>leave_session\<close> and \<open>evict_session\<close> run.\<close>

definition call_returned :: "rat \<Rightarrow> nat \<Rightarrow> mcp_manager \<Rightarrow> mcp_manager" where
  "call_returned now i m = update_session i (\<lambda>s. s\<lparr>se_used_at := now\<rparr>) (leave_session i m)"

text \<open>The two ends of \<open>_warmup\<close> that answer: with the tools discovered before, and with new ones.\<close>

definition discovery_valid :: "rat \<Rightarrow> mcp_session \<Rightarrow> bool" where
  "discovery_valid now s \<longleftrightarrow> se_tools s \<noteq> None \<and> now - se_discovered_at s < se_discovery_ttl s"

definition warmup_result :: "pydict \<Rightarrow> mcp_session \<Rightarrow> bool \<Rightarrow> pydict" where
  "warmup_result tool s cached =
     [(''status'', PStr ''ok''), (''runner_tool_id'', PStr (text_or_empty (dget tool ''runner_tool_id''))),
      (''connection_id'', PStr (se_connection s)),
      (''tools'', PList (map PStr (case se_tools s of None \<Rightarrow> [] | Some ts \<Rightarrow> ts))), (''cached'', PBool cached)]"

definition warmup_cached :: "pydict \<Rightarrow> rat \<Rightarrow> nat \<Rightarrow> mcp_manager \<Rightarrow> (pydict \<times> mcp_manager) option" where
  "warmup_cached tool now i m =
     (if discovery_valid now (object m i)
      then Some (warmup_result tool (object m i) True, update_session i (\<lambda>s. s\<lparr>se_used_at := now\<rparr>) m)
      else None)"

definition warmup_listed :: "pydict \<Rightarrow> string list \<Rightarrow> rat \<Rightarrow> nat \<Rightarrow> mcp_manager \<Rightarrow> pydict \<times> mcp_manager" where
  "warmup_listed tool names now i m =
     (let m' = update_session i (\<lambda>s. s\<lparr>se_tools := Some names, se_discovered_at := now, se_used_at := now\<rparr>)
            (leave_session i m)
      in (warmup_result tool (object m' i) False, m'))"

section \<open>Well-formed pools\<close>

text \<open>Every session ever opened is in the table under its own key or was closed, once.\<close>

definition pool_ok :: "mcp_manager \<Rightarrow> bool" where
  "pool_ok m \<longleftrightarrow>
     distinct (map fst (mm_table m)) \<and>
     (\<forall>(k, i) \<in> set (mm_table m). se_key (object m i) = k) \<and>
     distinct (map snd (mm_table m) @ mm_closed m) \<and>
     set (map snd (mm_table m) @ mm_closed m) = {..<length (mm_objects m)}"

text \<open>What closing does: some sessions of the table move to the closed ones.\<close>

definition drop_sessions :: "nat list \<Rightarrow> mcp_manager \<Rightarrow> mcp_manager" where
  "drop_sessions xs m =
     m\<lparr>mm_table := filter (\<lambda>p. snd p \<notin> set xs) (mm_table m), mm_closed := mm_closed m @ xs\<rparr>"

definition droppable :: "nat list \<Rightarrow> mcp_manager \<Rightarrow> bool" where
  "droppable xs m \<longleftrightarrow> distinct xs \<and> set xs \<subseteq> snd ` set (mm_table m)"

lemma drop_nothing: "drop_sessions [] m = m"
  by (simp add: drop_sessions_def)

lemma drop_append: "drop_sessions ys (drop_sessions xs m) = drop_sessions (xs @ ys) m"
  by (simp add: drop_sessions_def conj_commute)

lemma drop_objects [simp]: "mm_objects (drop_sessions xs m) = mm_objects m"
  by (simp add: drop_sessions_def)

lemma drop_ok:
  assumes "pool_ok m" "droppable xs m"
  shows "pool_ok (drop_sessions xs m)"
proof -
  let ?kept = "filter (\<lambda>p. snd p \<notin> set xs) (mm_table m)"
  have "set (map snd ?kept) = snd ` set (mm_table m) - set xs" by force
  moreover have "distinct (map fst ?kept)" using assms(1) by (simp add: pool_ok_def distinct_map_filter)
  moreover have "distinct (map snd ?kept)" using assms(1) by (simp add: pool_ok_def distinct_map_filter)
  ultimately show ?thesis
    using assms unfolding pool_ok_def droppable_def drop_sessions_def by auto
qed

lemma droppable_append:
  "droppable xs m \<Longrightarrow> droppable ys (drop_sessions xs m) \<Longrightarrow> droppable (xs @ ys) m"
  by (auto simp: droppable_def drop_sessions_def)

lemma table_key: "pool_ok m \<Longrightarrow> p \<in> set (mm_table m) \<Longrightarrow> se_key (object m (snd p)) = fst p"
  unfolding pool_ok_def by (auto simp: case_prod_beta)

lemma table_id: "pool_ok m \<Longrightarrow> p \<in> set (mm_table m) \<Longrightarrow> q \<in> set (mm_table m) \<Longrightarrow> snd p = snd q \<longleftrightarrow> fst p = fst q"
  by (metis (no_types) eq_key_imp_eq_value pool_ok_def prod.collapse table_key)

lemma close_is_drop:
  assumes "pool_ok m" "(k, i) \<in> set (mm_table m)"
  shows "close_session k m = drop_sessions [i] m" and "droppable [i] m"
proof -
  have "map_of (mm_table m) k = Some i" using assms by (simp add: pool_ok_def)
  moreover have "AList.delete k (mm_table m) = filter (\<lambda>p. snd p \<notin> set [i]) (mm_table m)"
    unfolding AList.delete_eq
  proof (rule filter_cong [OF refl])
    fix p
    assume "p \<in> set (mm_table m)"
    from table_id [OF assms(1) this assms(2)] show "(case p of (k', _) \<Rightarrow> k \<noteq> k') = (snd p \<notin> set [i])" by (cases p) auto
  qed
  ultimately show "close_session k m = drop_sessions [i] m" by (simp add: close_session_def drop_sessions_def)
  show "droppable [i] m" using assms(2) by (force simp: droppable_def)
qed

lemma close_entries:
  assumes "pool_ok m" "set ps \<subseteq> set (mm_table m)" "distinct (map fst ps)"
  shows "fold close_session (map fst ps) m = drop_sessions (map snd ps) m \<and> droppable (map snd ps) m"
  using assms
proof (induction ps arbitrary: m)
  case Nil
  then show ?case by (simp add: drop_nothing droppable_def)
next
  case (Cons p ps)
  obtain k i where p: "p = (k, i)" by (cases p)
  have entry: "(k, i) \<in> set (mm_table m)" using Cons.prems(2) p by simp
  note close = close_is_drop [OF Cons.prems(1) entry]
  have "set ps \<subseteq> set (mm_table (drop_sessions [i] m))"
  proof
    fix q
    assume q: "q \<in> set ps"
    then have "q \<in> set (mm_table m)" using Cons.prems(2) by auto
    moreover have "snd q \<noteq> i"
      using table_id [OF Cons.prems(1) \<open>q \<in> set (mm_table m)\<close> entry] Cons.prems(3) q p by force
    ultimately show "q \<in> set (mm_table (drop_sessions [i] m))" by (simp add: drop_sessions_def)
  qed
  from Cons.IH [OF drop_ok [OF Cons.prems(1) close(2)] this] Cons.prems(3)
  show ?case using close droppable_append [OF close(2)] by (simp add: p drop_append)
qed

lemma close_filtered:
  assumes "pool_ok m"
  shows "fold close_session (map fst (filter P (mm_table m))) m = drop_sessions (map snd (filter P (mm_table m))) m"
    and "droppable (map snd (filter P (mm_table m))) m"
  using close_entries [OF assms, of "filter P (mm_table m)"] assms
  by (auto simp: pool_ok_def distinct_map_filter)

lemma first_min_in: "first_min f x xs \<in> set (x # xs)"
  by (induction xs arbitrary: x) (auto split: if_splits)

lemma first_min_le: "y \<in> set (x # xs) \<Longrightarrow> f (first_min f x xs) \<le> f y"
proof (induction xs arbitrary: x y)
  case (Cons z xs)
  have "f (first_min f (if f z < f x then z else x) xs) \<le> f (if f z < f x then z else x)"
    by (rule Cons.IH) simp
  then show ?case using Cons.IH [of y "if f z < f x then z else x"] Cons.prems by (auto split: if_splits)
qed simp

lemma cleanup_drops:
  assumes "pool_ok m"
  obtains xs where "cleanup_idle_sessions t m = (length xs, drop_sessions xs m)" "droppable xs m"
    "\<And>i. i \<in> set xs \<longleftrightarrow> i \<in> snd ` set (mm_table m) \<and> expired t (object m i)"
proof
  let ?P = "\<lambda>(k, i). expired t (object m i)"
  show "cleanup_idle_sessions t m =
      (length (map snd (filter ?P (mm_table m))), drop_sessions (map snd (filter ?P (mm_table m))) m)"
    by (simp add: cleanup_idle_sessions_def Let_def close_filtered(1) [OF assms])
  show "droppable (map snd (filter ?P (mm_table m))) m" by (rule close_filtered(2) [OF assms])
  show "i \<in> set (map snd (filter ?P (mm_table m))) \<longleftrightarrow> i \<in> snd ` set (mm_table m) \<and> expired t (object m i)" for i by force
qed

lemma supersede_drops:
  assumes "pool_ok m"
  obtains xs where "evict_superseded_connection tool key m = drop_sessions xs m" "droppable xs m"
    "\<And>i. i \<in> set xs \<longleftrightarrow> i \<in> snd ` set (mm_table m) \<and> se_key (object m i) \<noteq> key \<and>
       se_connection (object m i) = mcp_connection_id tool \<and> \<not> se_locked (object m i)"
proof
  let ?P = "\<lambda>(k, i). k \<noteq> key \<and> se_connection (object m i) = mcp_connection_id tool \<and> \<not> se_locked (object m i)"
  show "evict_superseded_connection tool key m = drop_sessions (map snd (filter ?P (mm_table m))) m"
    by (simp add: evict_superseded_connection_def Let_def close_filtered(1) [OF assms])
  show "droppable (map snd (filter ?P (mm_table m))) m" by (rule close_filtered(2) [OF assms])
  show "i \<in> set (map snd (filter ?P (mm_table m))) \<longleftrightarrow> i \<in> snd ` set (mm_table m) \<and> se_key (object m i) \<noteq> key \<and>
       se_connection (object m i) = mcp_connection_id tool \<and> \<not> se_locked (object m i)" for i
  proof -
    have "filter ?P (mm_table m) = filter (\<lambda>p. se_key (object m (snd p)) \<noteq> key \<and>
        se_connection (object m (snd p)) = mcp_connection_id tool \<and> \<not> se_locked (object m (snd p))) (mm_table m)"
      using table_key [OF assms] by (intro filter_cong) (auto simp: case_prod_beta)
    then show ?thesis by (force simp: image_iff)
  qed
qed

text \<open>The least recently used idle sessions go, no more of them than it takes.\<close>

definition limit_spec :: "int \<Rightarrow> mcp_manager \<Rightarrow> nat list \<Rightarrow> py_exn option \<Rightarrow> bool" where
  "limit_spec bound m xs e \<longleftrightarrow>
     droppable xs m \<and> (\<forall>i \<in> set xs. \<not> se_locked (object m i)) \<and>
     (\<forall>i \<in> set xs. \<forall>p \<in> set (mm_table (drop_sessions xs m)). \<not> se_locked (object m (snd p)) \<longrightarrow>
        se_used_at (object m i) \<le> se_used_at (object m (snd p))) \<and>
     (let left = int (length (mm_table (drop_sessions xs m)))
      in if e = None then left < bound \<and> (xs = [] \<or> left + 1 = bound)
         else bound \<le> left \<and> (\<forall>p \<in> set (mm_table (drop_sessions xs m)). se_locked (object m (snd p))))"

lemma enforce_limit:
  "pool_ok m \<Longrightarrow> \<exists>xs e. enforce_session_limit bound m = Some (e, drop_sessions xs m) \<and> limit_spec bound m xs e"
proof (induction "length (mm_table m)" arbitrary: m rule: less_induct)
  case less
  show ?case
  proof (cases "int (length (mm_table m)) < bound")
    case True
    then have "enforce_session_limit bound m = Some (None, drop_sessions [] m)"
      by (simp add: enforce_session_limit.simps drop_nothing)
    moreover have "limit_spec bound m [] None" using True by (simp add: limit_spec_def droppable_def drop_nothing)
    ultimately show ?thesis by blast
  next
    case full: False
    show ?thesis
    proof (cases "idle_sessions m")
      case Nil
      have "enforce_session_limit bound m =
          Some (Some (adapter_error ''the session cache is full and every connection is in use''), drop_sessions [] m)"
        using full Nil by (simp add: enforce_session_limit.simps drop_nothing)
      moreover have "limit_spec bound m [] (Some e)" for e
        using full Nil by (auto simp: limit_spec_def droppable_def drop_nothing idle_sessions_def filter_empty_conv)
      ultimately show ?thesis by blast
    next
      case (Cons s ss)
      let ?old = "first_min se_used_at s ss"
      have "?old \<in> set (idle_sessions m)" using first_min_in [of se_used_at s ss] by (simp add: Cons)
      then obtain p where p: "p \<in> set (mm_table m)" "?old = object m (snd p)" "\<not> se_locked (object m (snd p))"
        by (auto simp: idle_sessions_def)
      have key: "se_key ?old = fst p" using table_key [OF less.prems p(1)] p(2) by simp
      have least: "se_used_at (object m (snd p)) \<le> se_used_at (object m (snd q))"
        if "q \<in> set (mm_table m)" "\<not> se_locked (object m (snd q))" for q
      proof -
        have "object m (snd q) \<in> set (s # ss)" unfolding Cons [symmetric] using that by (auto simp: idle_sessions_def)
        from first_min_le [OF this, of se_used_at] show ?thesis by (simp add: p(2))
      qed
      let ?m = "drop_sessions [snd p] m"
      have "(fst p, snd p) \<in> set (mm_table m)" using p(1) by simp
      note close = close_is_drop [OF less.prems this]
      have shorter: "length (mm_table ?m) + 1 = length (mm_table m)"
      proof -
        have "mm_table ?m = removeAll p (mm_table m)"
          unfolding drop_sessions_def removeAll_filter_not_eq using table_id [OF less.prems _ p(1)] p(1)
          by (auto intro!: filter_cong simp: prod_eq_iff)
        also have "\<dots> = remove1 p (mm_table m)"
          using less.prems by (simp add: distinct_remove1_removeAll pool_ok_def distinct_map)
        finally show ?thesis using length_pos_if_in_set [OF p(1)] p(1) by (simp add: length_remove1)
      qed
      obtain xs e where rest: "enforce_session_limit bound ?m = Some (e, drop_sessions xs ?m)" "limit_spec bound ?m xs e"
        using less.hyps [OF _ drop_ok [OF less.prems close(2)]] shorter by auto
      have run: "enforce_session_limit bound m = Some (e, drop_sessions (snd p # xs) m)"
        using full rest(1) key close(1) by (subst enforce_session_limit.simps) (simp add: Cons drop_append)
      have table: "mm_table (drop_sessions xs ?m) = mm_table (drop_sessions (snd p # xs) m)"
        by (simp add: drop_sessions_def conj_commute)
      have "droppable (snd p # xs) m"
        using droppable_append [OF close(2), of xs] rest(2) by (simp add: limit_spec_def)
      then have "limit_spec bound m (snd p # xs) e"
        using rest(2) least full shorter p(3)
        unfolding limit_spec_def Let_def table
        by (auto simp: drop_sessions_def split: if_splits)
      then show ?thesis using run by blast
    qed
  qed
qed

section \<open>The manager over time\<close>

text \<open>
  Any number of calls, warm-ups, sweeps of the janitor and the shutdown, in any order and at any times;
  \<open>evicted\<close> is what follows a failed call, with whatever happened to the pool since.
\<close>

inductive mcp_step :: "mcp_limits \<Rightarrow> mcp_manager \<Rightarrow> mcp_manager \<Rightarrow> bool" for limits where
  got: "get_session limits connect tool t t' m = Some (r, m') \<Longrightarrow> mcp_step limits m m'"
| swept: "mcp_step limits m (snd (cleanup_idle_sessions t m))"
| entered: "i < length (mm_objects m) \<Longrightarrow> \<not> se_locked (object m i) \<Longrightarrow> mcp_step limits m (enter_session i m)"
| returned: "i < length (mm_objects m) \<Longrightarrow> se_locked (object m i) \<Longrightarrow> mcp_step limits m (call_returned t i m)"
| failed: "i < length (mm_objects m) \<Longrightarrow> se_locked (object m i) \<Longrightarrow> mcp_step limits m (leave_session i m)"
| evicted: "i < length (mm_objects m) \<Longrightarrow> mcp_step limits m (evict_session (se_key (object m i)) i m)"
| reused: "i < length (mm_objects m) \<Longrightarrow> warmup_cached tool t i m = Some (r, m') \<Longrightarrow> mcp_step limits m m'"
| listed: "i < length (mm_objects m) \<Longrightarrow> se_locked (object m i) \<Longrightarrow>
     mcp_step limits m (snd (warmup_listed tool names t i m))"
| shut: "mcp_step limits m (close_sessions m)"

inductive mcp_reachable :: "mcp_limits \<Rightarrow> mcp_manager \<Rightarrow> bool" for limits where
  start: "mcp_reachable limits no_sessions"
| step: "mcp_reachable limits m \<Longrightarrow> mcp_step limits m m' \<Longrightarrow> mcp_reachable limits m'"

definition pool_inv :: "mcp_limits \<Rightarrow> mcp_manager \<Rightarrow> bool" where
  "pool_inv limits m \<longleftrightarrow> pool_ok m \<and> int (length (mm_table m)) \<le> max 0 (lim_sessions limits)"

lemma drop_inv:
  assumes "pool_inv limits m" "droppable xs m"
  shows "pool_inv limits (drop_sessions xs m)"
proof -
  have "length (mm_table (drop_sessions xs m)) \<le> length (mm_table m)" by (simp add: drop_sessions_def)
  then show ?thesis using drop_ok [of m xs] assms by (simp add: pool_inv_def)
qed

lemma update_inv:
  assumes "\<And>s. se_key (f s) = se_key s" "pool_inv limits m"
  shows "pool_inv limits (update_session i f m)"
proof -
  have "se_key (object (update_session i f m) j) = se_key (object m j)" for j
    by (cases "i < length (mm_objects m)") (auto simp: update_session_def nth_list_update assms(1) list_update_beyond)
  then show ?thesis using assms(2) by (simp add: pool_inv_def pool_ok_def) (simp add: update_session_def)
qed

lemma evict_inv:
  assumes "pool_inv limits m"
  shows "pool_inv limits (evict_session key i m)"
proof (cases "map_of (mm_table m) key = Some i")
  case True
  have ok: "pool_ok m" using assms by (simp add: pool_inv_def)
  show ?thesis
    using close_is_drop [OF ok map_of_SomeD [OF True]] drop_inv [OF assms] by (simp add: evict_session_def True)
qed (simp add: evict_session_def assms)

lemma fresh_ok:
  assumes "pool_ok m" "map_of (mm_table m) key = None" "se_key s = key"
  shows "pool_ok (m\<lparr>mm_objects := mm_objects m @ [s], mm_table := AList.update key (length (mm_objects m)) (mm_table m)\<rparr>)"
    and "AList.update key (length (mm_objects m)) (mm_table m) = mm_table m @ [(key, length (mm_objects m))]"
proof -
  have fresh: "key \<notin> fst ` set (mm_table m)" using assms(2) by (simp add: map_of_eq_None_iff)
  show table: "AList.update key (length (mm_objects m)) (mm_table m) = mm_table m @ [(key, length (mm_objects m))]"
    by (rule update_fresh [OF fresh])
  have ids: "set (map snd (mm_table m) @ mm_closed m) = {..<length (mm_objects m)}" using assms(1) by (simp add: pool_ok_def)
  then have below: "i < length (mm_objects m)" if "(k, i) \<in> set (mm_table m)" for k i using that by force
  have "length (mm_objects m) \<notin> set (map snd (mm_table m) @ mm_closed m)" unfolding ids by simp
  moreover have "insert (length (mm_objects m)) {..<length (mm_objects m)} = {..<Suc (length (mm_objects m))}" by auto
  ultimately show "pool_ok (m\<lparr>mm_objects := mm_objects m @ [s],
      mm_table := AList.update key (length (mm_objects m)) (mm_table m)\<rparr>)"
    using assms(1,3) fresh ids below unfolding pool_ok_def table by (auto simp: nth_append)
qed

text \<open>A request for a session, whatever its outcome: which sessions it closes and what it leaves.\<close>

definition session_given ::
  "mcp_limits \<Rightarrow> pydict \<Rightarrow> rat \<Rightarrow> mcp_manager \<Rightarrow> nat list \<Rightarrow> py_exn + nat \<Rightarrow> mcp_manager \<Rightarrow> bool" where
  "session_given limits tool t' m xs r m' \<longleftrightarrow>
     (let key = mcp_connection_cache_key (lim_digest limits) tool; m1 = drop_sessions xs m
      in case r of
           Inl e \<Rightarrow> m' = m1
         | Inr i \<Rightarrow>
             if i < length (mm_objects m)
             then map_of (mm_table m1) key = Some i \<and> m' = update_session i (\<lambda>s. s\<lparr>se_used_at := t'\<rparr>) m1
             else i = length (mm_objects m) \<and> int (length (mm_table m1)) < lim_sessions limits \<and>
               map_of (mm_table m1) key = None \<and>
               m' = m1\<lparr>mm_objects := mm_objects m @ [new_session limits tool key t'],
                       mm_table := mm_table m1 @ [(key, i)]\<rparr> \<and>
               (\<forall>p \<in> set (mm_table m1). se_connection (object m (snd p)) = mcp_connection_id tool \<longrightarrow>
                  se_locked (object m (snd p))))"

lemma table_below: "pool_ok m \<Longrightarrow> p \<in> set (mm_table m) \<Longrightarrow> snd p < length (mm_objects m)"
  unfolding pool_ok_def by (metis UnI1 imageI lessThan_iff list.set_map set_append)

lemma get_session_spec:
  assumes ok: "pool_ok m"
  obtains xs r m' where "get_session limits connect tool t t' m = Some (r, m')" "droppable xs m"
    "\<And>i. i \<in> set xs \<Longrightarrow> \<not> se_locked (object m i)" "session_given limits tool t' m xs r m'"
proof -
  let ?key = "mcp_connection_cache_key (lim_digest limits) tool"
  obtain xs1 where c: "cleanup_idle_sessions t m = (length xs1, drop_sessions xs1 m)" "droppable xs1 m"
    "\<And>i. i \<in> set xs1 \<longleftrightarrow> i \<in> snd ` set (mm_table m) \<and> expired t (object m i)"
    using cleanup_drops [OF ok] by blast
  let ?m1 = "drop_sessions xs1 m"
  have ok1: "pool_ok ?m1" by (rule drop_ok [OF ok c(2)])
  have idle1: "\<not> se_locked (object m i)" if "i \<in> set xs1" for i using that c(3) by (simp add: expired_def)
  show ?thesis
  proof (cases "map_of (mm_table ?m1) ?key")
    case (Some i)
    have "i < length (mm_objects m)" using table_below [OF ok1 map_of_SomeD [OF Some]] by simp
    then have "session_given limits tool t' m xs1 (Inr i) (update_session i (\<lambda>s. s\<lparr>se_used_at := t'\<rparr>) ?m1)"
      using Some by (simp add: session_given_def)
    moreover have "get_session limits connect tool t t' m =
        Some (Inr i, update_session i (\<lambda>s. s\<lparr>se_used_at := t'\<rparr>) ?m1)"
      by (simp add: get_session_def c(1) Some)
    ultimately show ?thesis using that [OF _ c(2) idle1] by blast
  next
    case None
    obtain xs2 where s: "evict_superseded_connection tool ?key ?m1 = drop_sessions xs2 ?m1" "droppable xs2 ?m1"
      "\<And>i. i \<in> set xs2 \<longleftrightarrow> i \<in> snd ` set (mm_table ?m1) \<and> se_key (object ?m1 i) \<noteq> ?key \<and>
         se_connection (object ?m1 i) = mcp_connection_id tool \<and> \<not> se_locked (object ?m1 i)"
      using supersede_drops [OF ok1] by blast
    let ?m2 = "drop_sessions xs2 ?m1"
    have ok2: "pool_ok ?m2" by (rule drop_ok [OF ok1 s(2)])
    obtain xs3 e where l: "enforce_session_limit (lim_sessions limits) ?m2 = Some (e, drop_sessions xs3 ?m2)"
      "limit_spec (lim_sessions limits) ?m2 xs3 e"
      using enforce_limit [OF ok2] by blast
    let ?xs = "xs1 @ xs2 @ xs3"
    have m3: "drop_sessions xs3 ?m2 = drop_sessions ?xs m" by (simp add: drop_append)
    have drop: "droppable ?xs m"
      using droppable_append [OF c(2) droppable_append [OF s(2)]] l(2) by (simp add: limit_spec_def)
    have idle: "\<not> se_locked (object m i)" if "i \<in> set ?xs" for i
      using that idle1 s(3) l(2) by (auto simp: limit_spec_def)
    have none: "map_of (mm_table (drop_sessions ?xs m)) ?key = None"
      using None by (auto simp: drop_sessions_def map_of_eq_None_iff)
    have key: "se_key (object m (snd p)) = fst p" if "p \<in> set (mm_table (drop_sessions ?xs m))" for p
      using that table_key [OF ok] by (simp add: drop_sessions_def)
    have other: "se_locked (object m (snd p))"
      if "p \<in> set (mm_table (drop_sessions ?xs m))" "se_connection (object m (snd p)) = mcp_connection_id tool" for p
    proof (rule ccontr)
      assume "\<not> se_locked (object m (snd p))"
      moreover have "fst p \<noteq> ?key" using none that(1) by (metis map_of_eq_None_iff imageI)
      moreover have "p \<in> set (mm_table ?m1)" using that(1) by (simp add: drop_sessions_def)
      ultimately have "snd p \<in> set xs2" using s(3) that key [OF that(1)] by simp
      then show False using that(1) by (simp add: drop_sessions_def)
    qed
    have run: "get_session limits connect tool t t' m =
      (case e of
         Some e' \<Rightarrow> Some (Inl e', drop_sessions ?xs m)
       | None \<Rightarrow>
           (case connect of
              Some e' \<Rightarrow> Some (Inl e', drop_sessions ?xs m)
            | None \<Rightarrow> Some (Inr (length (mm_objects m)),
                (drop_sessions ?xs m)\<lparr>mm_objects := mm_objects m @ [new_session limits tool ?key t'],
                  mm_table := mm_table (drop_sessions ?xs m) @ [(?key, length (mm_objects m))]\<rparr>)))"
      using None fresh_ok(2) [OF drop_ok [OF ok drop] none, of "new_session limits tool ?key t'"]
      by (simp add: get_session_def c(1) s(1) l(1) m3 new_session_def Let_def split: option.split)
    show ?thesis
    proof (cases "e = None \<and> connect = None")
      case True
      have "int (length (mm_table (drop_sessions ?xs m))) < lim_sessions limits"
        using l(2) True by (simp add: limit_spec_def Let_def m3)
      then show ?thesis using that [OF _ drop idle] run none other True by (simp add: session_given_def Let_def)
    next
      case False
      then obtain e' where "get_session limits connect tool t t' m = Some (Inl e', drop_sessions ?xs m)"
        using run by (auto split: option.splits)
      moreover have "session_given limits tool t' m ?xs (Inl e') (drop_sessions ?xs m)" by (simp add: session_given_def)
      ultimately show ?thesis using that [OF _ drop idle] by blast
    qed
  qed
qed

lemma get_session_inv:
  assumes "get_session limits connect tool t t' m = Some (r, m')" "pool_inv limits m"
  shows "pool_inv limits m'"
proof -
  let ?key = "mcp_connection_cache_key (lim_digest limits) tool"
  have ok: "pool_ok m" using assms(2) by (simp add: pool_inv_def)
  obtain xs where drop: "droppable xs m" and given: "session_given limits tool t' m xs r m'"
    using get_session_spec [OF ok, of limits connect tool t t'] assms(1) by (metis option.inject prod.inject)
  note dropped = drop_inv [OF assms(2) drop]
  show ?thesis
  proof (cases r)
    case (Inl e)
    then show ?thesis using given dropped by (simp add: session_given_def)
  next
    case (Inr i)
    show ?thesis
    proof (cases "i < length (mm_objects m)")
      case True
      then show ?thesis
        using given update_inv [OF _ dropped, of "\<lambda>s. s\<lparr>se_used_at := t'\<rparr>"] by (simp add: session_given_def Inr Let_def)
    next
      case False
      then have none: "map_of (mm_table (drop_sessions xs m)) ?key = None" and room: "int (length (mm_table m')) \<le> lim_sessions limits"
        and m': "m' = (drop_sessions xs m)\<lparr>mm_objects := mm_objects m @ [new_session limits tool ?key t'],
          mm_table := mm_table (drop_sessions xs m) @ [(?key, length (mm_objects m))]\<rparr>"
        using given by (auto simp: session_given_def Inr Let_def)
      have "pool_ok m'"
        using fresh_ok [OF drop_ok [OF ok drop] none, of "new_session limits tool ?key t'"] by (simp add: m' new_session_def)
      then show ?thesis using room by (simp add: pool_inv_def)
    qed
  qed
qed

lemma step_inv: "mcp_step limits m m' \<Longrightarrow> pool_inv limits m \<Longrightarrow> pool_inv limits m'"
proof (induction rule: mcp_step.induct)
  case (got connect tool t t' m r m')
  then show ?case by (rule get_session_inv)
next
  case (swept m t)
  then have "pool_ok m" by (simp add: pool_inv_def)
  then show ?case
  proof (rule cleanup_drops [where t = t])
    fix xs
    assume "cleanup_idle_sessions t m = (length xs, drop_sessions xs m)" "droppable xs m"
    then show ?thesis using drop_inv [OF swept] by simp
  qed
next
  case (shut m)
  then have "pool_ok m" by (simp add: pool_inv_def)
  from close_filtered [OF this, of "\<lambda>_. True"] show ?case using drop_inv [OF shut] by (simp add: close_sessions_def)
next
  case (reused i m tool t r m')
  then show ?case by (auto simp: warmup_cached_def intro!: update_inv split: if_splits)
qed (auto simp: enter_session_def leave_session_def call_returned_def warmup_listed_def Let_def intro!: update_inv evict_inv)

lemma reachable_inv: "mcp_reachable limits m \<Longrightarrow> pool_inv limits m"
proof (induction rule: mcp_reachable.induct)
  case start
  then show ?case by (simp add: pool_inv_def pool_ok_def no_sessions_def)
next
  case (step m m')
  then show ?case by (blast intro: step_inv)
qed

text \<open>C23: No connection leaks, and the pool keeps its bound. After any sequence of calls, warm-ups, failures
  and sweeps, in any order, every client that was ever opened is either in the table under the key of its
  own session or has been closed, and closed once; and the table never holds more than the configured
  number of sessions.\<close>

theorem no_connection_leaks:
  assumes "mcp_reachable limits m"
  shows "distinct (map snd (mm_table m) @ mm_closed m) \<and>
    set (map snd (mm_table m) @ mm_closed m) = {..<length (mm_objects m)} \<and>
    (\<forall>(k, i) \<in> set (mm_table m). se_key (object m i) = k) \<and>
    int (length (mm_table m)) \<le> max 0 (lim_sessions limits)"
  using reachable_inv [OF assms] unfolding pool_inv_def pool_ok_def by blast

text \<open>A call gets a session, or an error, in a bounded number of steps, and no session that is executing a
  call is closed for it. It is answered with the session of its connection key; when that is a new one,
  every other session of the same connection that is left (an older configuration) is executing a call,
  and the limit holds with the new session counted.\<close>

theorem get_session_safe:
  assumes "mcp_reachable limits m"
  shows "\<exists>xs r m'. get_session limits connect tool t t' m = Some (r, m') \<and> mm_closed m' = mm_closed m @ xs \<and>
    (\<forall>i \<in> set xs. \<not> se_locked (object m i)) \<and>
    (\<forall>i. r = Inr i \<longrightarrow> map_of (mm_table m') (mcp_connection_cache_key (lim_digest limits) tool) = Some i \<and>
       (length (mm_objects m) \<le> i \<longrightarrow> int (length (mm_table m')) \<le> lim_sessions limits \<and>
          (\<forall>(k, j) \<in> set (mm_table m'). j \<noteq> i \<longrightarrow> se_connection (object m' j) = mcp_connection_id tool \<longrightarrow>
             se_locked (object m' j))))"
proof -
  let ?key = "mcp_connection_cache_key (lim_digest limits) tool"
  have ok: "pool_ok m" using reachable_inv [OF assms] by (simp add: pool_inv_def)
  obtain xs r m' where g: "get_session limits connect tool t t' m = Some (r, m')"
      "\<And>i. i \<in> set xs \<Longrightarrow> \<not> se_locked (object m i)"
    and given: "session_given limits tool t' m xs r m'"
    using get_session_spec [OF ok, of limits connect tool t t'] by metis
  have "mm_closed m' = mm_closed m @ xs"
    using given by (auto simp: session_given_def drop_sessions_def update_session_def Let_def split: sum.splits if_splits)
  moreover have "map_of (mm_table m') ?key = Some i \<and>
     (length (mm_objects m) \<le> i \<longrightarrow> int (length (mm_table m')) \<le> lim_sessions limits \<and>
        (\<forall>(k, j) \<in> set (mm_table m'). j \<noteq> i \<longrightarrow> se_connection (object m' j) = mcp_connection_id tool \<longrightarrow>
           se_locked (object m' j)))" if r: "r = Inr i" for i
  proof (cases "i < length (mm_objects m)")
    case True
    then show ?thesis using given by (simp add: session_given_def r update_session_def Let_def)
  next
    case False
    have "j < length (mm_objects m)" if "(k, j) \<in> set (mm_table (drop_sessions xs m))" for k j
      using table_below [OF ok, of "(k, j)"] that by (simp add: drop_sessions_def)
    then show ?thesis using False given by (auto simp: session_given_def r Let_def nth_append map_add_def map_of_append)
  qed
  ultimately show ?thesis using g by blast
qed

text \<open>The limit closes the least recently used idle sessions: the loop ends, with room for one more session or
  with the error that every session is in use.\<close>

lemma limit_evicts_lru:
  assumes "mcp_reachable limits m"
  shows "\<exists>xs e. enforce_session_limit bound m = Some (e, drop_sessions xs m) \<and> limit_spec bound m xs e"
  using reachable_inv [OF assms] by (intro enforce_limit) (simp add: pool_inv_def)

text \<open>A pool of one session: a second connection replaces the first while it is idle and is refused while
  it executes a call.\<close>

definition one_session :: mcp_limits where
  "one_session = \<lparr>lim_sessions = 1, lim_idle_ttl = 900, lim_discovery_ttl = 300, lim_digest = (\<lambda>c. ''h'')\<rparr>"

definition server :: "string \<Rightarrow> pydict" where
  "server name = [(''tool_id'', PStr name), (''runner_tool_id'', PStr (''mcp+http://'' @ name))]"

definition one_open :: mcp_manager where
  "one_open = \<lparr>mm_objects = [new_session one_session (server ''a'') ''mcp+http://a'' 1], mm_table = [(''mcp+http://a'', 0)],
     mm_closed = []\<rparr>"

lemma server_key: "mcp_connection_cache_key d (server name) = ''mcp+http://'' @ name"
  by (simp add: mcp_connection_cache_key_def server_def text_or_empty_def py_or_def)

lemma one_open_reachable: "mcp_reachable one_session (enter_session 0 one_open)" "mcp_reachable one_session one_open"
proof -
  have "get_session one_session None (server ''a'') 0 1 no_sessions = Some (Inr 0, one_open)"
    by (simp add: get_session_def cleanup_idle_sessions_def no_sessions_def evict_superseded_connection_def
        enforce_session_limit.simps one_session_def one_open_def server_key Let_def)
  then show opened: "mcp_reachable one_session one_open" by (rule mcp_reachable.step [OF start got])
  show "mcp_reachable one_session (enter_session 0 one_open)"
    by (rule mcp_reachable.step [OF opened entered]) (simp_all add: one_open_def new_session_def)
qed

theorem no_connection_leaks_witness:
  "distinct (map snd (mm_table one_open) @ mm_closed one_open) \<and> int (length (mm_table one_open)) \<le> max 0 (1 :: int)"
  using no_connection_leaks [OF one_open_reachable(2)] by (simp add: one_session_def)

theorem get_session_safe_witness:
  "\<exists>r m'. get_session one_session None (server ''b'') 2 3 (enter_session 0 one_open) = Some (r, m') \<and> 0 \<notin> set (mm_closed m')"
proof -
  have "se_locked (object (enter_session 0 one_open) 0)" "mm_closed (enter_session 0 one_open) = []"
    by (simp_all add: enter_session_def update_session_def one_open_def)
  then show ?thesis
    using get_session_safe [OF one_open_reachable(1), of None "server ''b''" 2 3] by fastforce
qed

end
