(* ===== verification/Cp_Base.thy ===== *)
theory Cp_Base
  imports Runtime_Scope
begin

text \<open>
  What the parts of the control plane (\<open>src/apps/control-plane/backend/app\<close>) share: its
  exceptions, actions on its database as functions from a state to a result and a state, the
  combinators its routes are written with, and what an action may do to the state, as a
  relation (\<open>steps\<close>) that the combinators pass on. The scope functions of \<open>authz.py\<close> and
  \<open>validate_tool_scope\<close> of \<open>tools.py\<close> follow, with their agreement with the copies the runtime
  keeps of them.
\<close>

section \<open>Exceptions and actions\<close>

text \<open>\<open>DbError\<close> stands for \<open>psycopg.Error\<close>, raised for a violated constraint.\<close>

datatype cp_error =
    HTTPException int string
  | CpValueError string
  | PermissionError string
  | CpRuntimeError string
  | CpAttributeError string
  | CpKeyError string
  | IdentityAuthError string
  | IdentityUnavailableError string
  | IdentityForbiddenError string
  | GatewayRunnerError int string
  | DbError string

type_synonym 'a cp = "cp_error + 'a"

type_synonym ('s, 'a) action = "'s \<Rightarrow> 'a cp \<times> 's"

definition give :: "'a \<Rightarrow> ('s, 'a) action" where
  "give x s = (Inr x, s)"

definition raise :: "cp_error \<Rightarrow> ('s, 'a) action" where
  "raise e s = (Inl e, s)"

definition query :: "('s \<Rightarrow> 'a) \<Rightarrow> ('s, 'a) action" where
  "query f s = (Inr (f s), s)"

text \<open>A fallible read, and the lifting of a result that does not read the state.\<close>

definition query_cp :: "('s \<Rightarrow> 'a cp) \<Rightarrow> ('s, 'a) action" where
  "query_cp f s = (f s, s)"

definition chain :: "('s, 'a) action \<Rightarrow> ('a \<Rightarrow> ('s, 'b) action) \<Rightarrow> ('s, 'b) action" where
  "chain m f s = (case m s of (Inl e, t) \<Rightarrow> (Inl e, t) | (Inr x, t) \<Rightarrow> f x t)"

definition andthen :: "('s, 'a) action \<Rightarrow> ('s, 'b) action \<Rightarrow> ('s, 'b) action" where
  "andthen m k = chain m (\<lambda>_. k)"

text \<open>\<open>if not b: raise e\<close>.\<close>

definition require :: "bool \<Rightarrow> cp_error \<Rightarrow> ('s, unit) action" where
  "require b e = (if b then give () else raise e)"

text \<open>A write that cannot fail, and a transaction that commits or leaves the state as it was.\<close>

definition modify :: "('s \<Rightarrow> 's) \<Rightarrow> ('s, unit) action" where
  "modify f s = (Inr (), f s)"

definition transaction :: "('s \<Rightarrow> cp_error + 's) \<Rightarrow> ('s, unit) action" where
  "transaction f s = (case f s of Inl e \<Rightarrow> (Inl e, s) | Inr t \<Rightarrow> (Inr (), t))"

text \<open>\<open>try: m except ...: raise f(error)\<close>; a handler that records before it raises.\<close>

definition rethrow :: "(cp_error \<Rightarrow> cp_error) \<Rightarrow> ('s, 'a) action \<Rightarrow> ('s, 'a) action" where
  "rethrow f m s = (case m s of (Inl e, t) \<Rightarrow> (Inl (f e), t) | (Inr x, t) \<Rightarrow> (Inr x, t))"

definition handle :: "('s, 'a) action \<Rightarrow> (cp_error \<Rightarrow> ('s, 'a) action) \<Rightarrow> ('s, 'a) action" where
  "handle m h s = (case m s of (Inl e, t) \<Rightarrow> h e t | (Inr x, t) \<Rightarrow> (Inr x, t))"

text \<open>A loop that runs an action for each element and stops at the first exception.\<close>

fun each :: "('x \<Rightarrow> ('s, unit) action) \<Rightarrow> 'x list \<Rightarrow> ('s, unit) action" where
  "each f [] = give ()"
| "each f (x # xs) = andthen (f x) (each f xs)"

section \<open>What an action does to the state\<close>

definition steps :: "('s \<Rightarrow> 's \<Rightarrow> bool) \<Rightarrow> ('s, 'a) action \<Rightarrow> bool" where
  "steps R m \<longleftrightarrow> (\<forall>s. R s (snd (m s)))"

text \<open>
  A relation that holds from a state to itself and along two steps holds along an action built
  from actions it holds along. The relations below are equality (the action only reads),
  the preservation of an invariant, and the evolution of a table.
\<close>

locale evolution =
  fixes R :: "'s \<Rightarrow> 's \<Rightarrow> bool"
  assumes same: "R s s"
    and along: "R s t \<Longrightarrow> R t u \<Longrightarrow> R s u"
begin

lemma stepsI: "(\<And>s. R s (snd (m s))) \<Longrightarrow> steps R m"
  by (simp add: steps_def)

lemma stepsD: "steps R m \<Longrightarrow> m s = (r, t) \<Longrightarrow> R s t"
  by (metis steps_def snd_conv)

lemma give_steps: "steps R (give x)"
  by (simp add: steps_def give_def same)

lemma raise_steps: "steps R (raise e)"
  by (simp add: steps_def raise_def same)

lemma query_steps: "steps R (query f)" "steps R (query_cp g)"
  by (simp_all add: steps_def query_def query_cp_def same)

lemma require_steps: "steps R (require b e)"
  by (simp add: require_def give_steps raise_steps)

lemma chain_steps: "steps R m \<Longrightarrow> (\<And>x. steps R (f x)) \<Longrightarrow> steps R (chain m f)"
  unfolding steps_def chain_def by (auto split: prod.split sum.split) (metis along snd_conv)+

lemma andthen_steps: "steps R m \<Longrightarrow> steps R k \<Longrightarrow> steps R (andthen m k)"
  by (simp add: andthen_def chain_steps)

lemma rethrow_steps: "steps R m \<Longrightarrow> steps R (rethrow f m)"
  unfolding steps_def rethrow_def by (auto split: prod.split sum.split) (metis snd_conv)+

lemma handle_steps: "steps R m \<Longrightarrow> (\<And>e. steps R (h e)) \<Longrightarrow> steps R (handle m h)"
  unfolding steps_def handle_def by (auto split: prod.split sum.split) (metis along snd_conv)+

lemma modify_steps: "(\<And>s. R s (f s)) \<Longrightarrow> steps R (modify f)"
  by (simp add: steps_def modify_def)

lemma transaction_steps: "(\<And>s t. f s = Inr t \<Longrightarrow> R s t) \<Longrightarrow> steps R (transaction f)"
  by (auto simp: steps_def transaction_def same split: sum.split)

lemma each_steps: "(\<And>x. x \<in> set xs \<Longrightarrow> steps R (f x)) \<Longrightarrow> steps R (each f xs)"
  by (induction xs) (simp_all add: give_steps andthen_steps)

lemma if_steps: "(b \<Longrightarrow> steps R m) \<Longrightarrow> (\<not> b \<Longrightarrow> steps R k) \<Longrightarrow> steps R (if b then m else k)"
  by simp

lemmas action_steps = give_steps raise_steps query_steps require_steps andthen_steps chain_steps
  rethrow_steps handle_steps if_steps

end

text \<open>An action that only reads, and one that keeps an invariant.\<close>

interpretation reads: evolution "(=)"
  by unfold_locales simp_all

abbreviation keeping :: "('s \<Rightarrow> bool) \<Rightarrow> 's \<Rightarrow> 's \<Rightarrow> bool" where
  "keeping I \<equiv> \<lambda>s t. I s \<longrightarrow> I t"

interpretation keep: evolution "keeping I" for I
  by unfold_locales simp_all

text \<open>
  Runs of the combinators on a result that is known: how the proofs about one call unfold a
  route.
\<close>

lemma action_simps [simp]:
  "give x s = (Inr x, s)"
  "raise e s = (Inl e, s)"
  "query f s = (Inr (f s), s)"
  "query_cp g s = (g s, s)"
  "modify h s = (Inr (), h s)"
  "require b e s = (if b then Inr () else Inl e, s)"
  by (simp_all add: give_def raise_def query_def query_cp_def modify_def require_def)

lemma chain_Inr_iff:
  "chain m f s = (Inr y, u) \<longleftrightarrow> (\<exists>x t. m s = (Inr x, t) \<and> f x t = (Inr y, u))"
  by (auto simp: chain_def split: prod.split sum.split)

lemma andthen_Inr_iff:
  "andthen m k s = (Inr y, u) \<longleftrightarrow> (\<exists>x t. m s = (Inr x, t) \<and> k t = (Inr y, u))"
  by (simp add: andthen_def chain_Inr_iff)

lemma rethrow_Inr_iff: "rethrow f m s = (Inr y, u) \<longleftrightarrow> m s = (Inr y, u)"
  by (auto simp: rethrow_def split: prod.split sum.split)

lemma transaction_Inr_iff: "transaction f s = (Inr y, u) \<longleftrightarrow> f s = Inr u"
  by (auto simp: transaction_def split: sum.split)

lemma require_Inr_iff: "require b e s = (Inr y, u) \<longleftrightarrow> b \<and> u = s"
  by auto

lemma give_Inr_iff: "give x s = (Inr y, u) \<longleftrightarrow> y = x \<and> u = s"
  by auto

lemma query_Inr_iff:
  "query f s = (Inr y, u) \<longleftrightarrow> y = f s \<and> u = s"
  "query_cp g s = (Inr z, u) \<longleftrightarrow> g s = Inr z \<and> u = s"
  by auto

lemma raise_Inr_iff: "raise e s = (Inr y, u) \<longleftrightarrow> False"
  by simp

lemmas succeeded = chain_Inr_iff andthen_Inr_iff rethrow_Inr_iff transaction_Inr_iff
  require_Inr_iff give_Inr_iff query_Inr_iff raise_Inr_iff

lemma chain_unfold [simp]:
  "m s = (Inl e, t) \<Longrightarrow> chain m f s = (Inl e, t)"
  "m s = (Inr x, t) \<Longrightarrow> chain m f s = f x t"
  by (simp_all add: chain_def)

lemma andthen_unfold [simp]:
  "m s = (Inl e, t) \<Longrightarrow> andthen m k s = (Inl e, t)"
  "m s = (Inr x, t) \<Longrightarrow> andthen m k s = k t"
  by (simp_all add: andthen_def)

section \<open>Scopes (\<open>authz.py\<close>)\<close>

fun authz_scope_text :: "pyval \<Rightarrow> string cp" where
  "authz_scope_text (PStr s) = Inr s"
| "authz_scope_text v = Inl (CpValueError ''scope values must be texts'')"

fun authz_scope_entry :: "string \<times> pyval \<Rightarrow> (string \<times> string list) cp" where
  "authz_scope_entry (key, PList vs) =
     (case traverse authz_scope_text vs of
        Inl e \<Rightarrow> Inl e
      | Inr clean_values \<Rightarrow> Inr (key, sorted_set clean_values))"
| "authz_scope_entry (key, v) = Inl (CpValueError ''scope must be dict[str, list[str]]'')"

definition authz_normalize_scope :: "pyval \<Rightarrow> scope cp" where
  "authz_normalize_scope v =
     (if \<not> truthy v then Inr []
      else case v of
             PDict d \<Rightarrow> traverse authz_scope_entry d
           | _ \<Rightarrow> Inl (CpAttributeError ''items''))"

definition authz_merge_tool_scopes :: "(string \<times> pyval) list \<Rightarrow> (string \<times> scope) list cp" where
  "authz_merge_tool_scopes rows =
     (case traverse (\<lambda>(tool_id, raw_scope).
              case authz_normalize_scope raw_scope of Inl e \<Rightarrow> Inl e | Inr s \<Rightarrow> Inr (tool_id, s)) rows of
        Inl e \<Rightarrow> Inl e
      | Inr clean \<Rightarrow>
          Inr (map (\<lambda>(t, s). (t, map (\<lambda>(k, vs). (k, sorted_set vs)) (sorted_items s)))
                 (sorted_items (fold merge_row clean []))))"

definition authz_scope_is_subset :: "pyval \<Rightarrow> pyval \<Rightarrow> bool cp" where
  "authz_scope_is_subset requested allowed =
     (case authz_normalize_scope requested of
        Inl e \<Rightarrow> Inl e
      | Inr r \<Rightarrow>
          (case authz_normalize_scope allowed of
             Inl e \<Rightarrow> Inl e
           | Inr a \<Rightarrow>
               Inr (list_all (\<lambda>(key, vs). set vs \<subseteq> set (case map_of a key of None \<Rightarrow> [] | Some ws \<Rightarrow> ws)) r)))"

text \<open>The message names the sorted keys of the requested scope, or \<open>scope\<close> when it has none.\<close>

definition validate_tool_scope_subset :: "string \<Rightarrow> pyval \<Rightarrow> pyval \<Rightarrow> unit cp" where
  "validate_tool_scope_subset tool_id requested allowed =
     (case authz_scope_is_subset requested allowed of
        Inl e \<Rightarrow> Inl e
      | Inr True \<Rightarrow> Inr ()
      | Inr False \<Rightarrow>
          (case authz_normalize_scope requested of
             Inl e \<Rightarrow> Inl e
           | Inr r \<Rightarrow>
               Inl (PermissionError (tool_id @ '' scope exceeds the role grants: '' @
                 (if r = [] then ''scope'' else py_join '', '' (sorted_set (map fst r)))))))"

definition validate_configured_tools :: "string list \<Rightarrow> string list \<Rightarrow> unit cp" where
  "validate_configured_tools configured current =
     (let missing = filter (\<lambda>t. t \<notin> set current) configured
      in if missing \<noteq> []
         then Inl (PermissionError (''missing tool permissions: '' @ py_join '', '' (sorted_set missing)))
         else Inr ())"

definition authz_effective_tools :: "string list \<Rightarrow> string list \<Rightarrow> string list \<Rightarrow> string list" where
  "authz_effective_tools configured created current =
     filter (\<lambda>t. t \<in> set created \<and> t \<in> set current) configured"

text \<open>\<open>tools.validate_tool_scope\<close>; \<open>None\<close> is an absent schema.\<close>

definition validate_tool_scope :: "string \<Rightarrow> pyval \<Rightarrow> scope option \<Rightarrow> scope cp" where
  "validate_tool_scope tool_id scope schema =
     (case authz_normalize_scope scope of
        Inl e \<Rightarrow> Inl e
      | Inr normalized \<Rightarrow>
          (case schema of
             None \<Rightarrow> Inl (CpValueError (tool_id @ '' declares no scope schema''))
           | Some permitted \<Rightarrow>
               if permitted = []
               then (if normalized \<noteq> [] then Inl (CpValueError (tool_id @ '' scope invalid'')) else Inr [])
               else if normalized = [] then Inl (CpValueError (tool_id @ '' scope may not be empty''))
               else case find (\<lambda>(key, vs). \<not> set vs \<subseteq>
                           set (case map_of permitted key of None \<Rightarrow> [] | Some ws \<Rightarrow> ws)) normalized of
                      Some (key, vs) \<Rightarrow> Inl (CpValueError (tool_id @ '' scope invalid: '' @ key))
                    | None \<Rightarrow> Inr normalized))"

section \<open>The two services compute the same permissions\<close>

fun authz_error :: "ctx_error \<Rightarrow> cp_error" where
  "authz_error (RuntimeContextError m status) = CpValueError m"
| "authz_error (PyTypeError m) = CpAttributeError m"
| "authz_error (KeyError m) = CpKeyError m"

definition as_authz :: "'a ctx \<Rightarrow> 'a cp" where
  "as_authz r = map_sum authz_error id r"

lemma as_authz_simps [simp]:
  "as_authz (Inl e) = Inl (authz_error e)"
  "as_authz (Inr x) = Inr x"
  by (simp_all add: as_authz_def)

lemma traverse_as_authz:
  "(\<And>x. g x = as_authz (f x)) \<Longrightarrow> traverse g xs = as_authz (traverse f xs)"
  by (induction xs) (simp_all add: as_authz_def split: sum.split)

lemma authz_scope_text_eq: "authz_scope_text v = as_authz (scope_text v)"
  by (cases v) simp_all

lemma authz_scope_entry_eq: "authz_scope_entry p = as_authz (scope_entry p)"
  by (cases p rule: scope_entry.cases)
    (simp_all add: traverse_as_authz [OF authz_scope_text_eq] split: sum.split)

lemma authz_normalize_eq: "authz_normalize_scope v = as_authz (normalize_scope v)"
  by (cases v)
    (simp_all add: authz_normalize_scope_def normalize_scope_def traverse_as_authz [OF authz_scope_entry_eq])

lemma authz_merge_eq: "authz_merge_tool_scopes rows = as_authz (merge_tool_scopes rows)"
proof -
  have "traverse (\<lambda>(t, raw). case authz_normalize_scope raw of Inl e \<Rightarrow> Inl e | Inr s \<Rightarrow> Inr (t, s)) rows =
      as_authz (traverse (\<lambda>(t, raw). case normalize_scope raw of Inl e \<Rightarrow> Inl e | Inr s \<Rightarrow> Inr (t, s)) rows)"
    by (rule traverse_as_authz) (simp add: authz_normalize_eq split: prod.split sum.split)
  then show ?thesis
    by (simp add: authz_merge_tool_scopes_def merge_tool_scopes_def split: sum.split)
qed

lemma authz_subset_eq: "authz_scope_is_subset r a = as_authz (scope_is_subset r a)"
  by (simp add: authz_scope_is_subset_def scope_is_subset_def authz_normalize_eq subset_values_def
      split: sum.split)

text \<open>The control plane's and the runtime's copies of the permission algebra agree: on every
  input, well formed or not, normalizing, merging and comparing scopes give the same result in both
  services, or an error in both (a \<open>ValueError\<close> here, a 422 there), and the effective
  tools are the same set. A permission shown by one service is the permission the other enforces.
\<close>

theorem permission_algebras_agree:
  "authz_normalize_scope v = as_authz (normalize_scope v) \<and>
   authz_merge_tool_scopes rows = as_authz (merge_tool_scopes rows) \<and>
   authz_scope_is_subset v w = as_authz (scope_is_subset v w) \<and>
   authz_effective_tools a b c = effective_tools a b c"
  by (simp add: authz_normalize_eq authz_merge_eq authz_subset_eq authz_effective_tools_def
      effective_tools_def)

section \<open>Scopes the control plane writes\<close>

text \<open>Typed scopes (request models, the \<open>scope_json\<close> columns) never make these functions fail.\<close>

lemma authz_normalize_val:
  "authz_normalize_scope (scope_val s) = Inr (map (\<lambda>(k, vs). (k, sorted_set vs)) s)"
  by (simp add: authz_normalize_eq normalize_scope_val)

lemma authz_merge_total: "\<exists>m. authz_merge_tool_scopes (map (\<lambda>(t, s). (t, scope_val s)) rows) = Inr m"
proof -
  have "\<exists>c. traverse (\<lambda>(t, raw). case normalize_scope raw of Inl e \<Rightarrow> Inl e | Inr s \<Rightarrow> Inr (t, s))
      (map (\<lambda>(t, s). (t, scope_val s)) rows) = Inr c"
    by (induction rows) (auto simp: normalize_scope_val)
  then show ?thesis by (auto simp: authz_merge_eq merge_tool_scopes_def)
qed

lemma authz_subset_val:
  assumes "distinct (map fst r)"
  shows "authz_scope_is_subset (scope_val r) (scope_val a) =
     Inr (\<forall>k. scope_values r k \<subseteq> scope_values a k)"
proof -
  have "scope_is_subset (scope_val r) (scope_val a) =
      Inr (subset_values (map (\<lambda>(k, vs). (k, sorted_set vs)) r) (map (\<lambda>(k, vs). (k, sorted_set vs)) a))"
    by (simp add: scope_is_subset_def normalize_scope_val)
  then show ?thesis using assms
    by (simp add: authz_subset_eq subset_values_iff del: map_map)
qed

lemma validate_subset_iff:
  assumes "distinct (map fst r)"
  shows "validate_tool_scope_subset t (scope_val r) (scope_val a) = Inr u \<longleftrightarrow>
     (\<forall>k. scope_values r k \<subseteq> scope_values a k)"
  using assms
  by (simp add: validate_tool_scope_subset_def authz_subset_val authz_normalize_val split: bool.split)

lemma validate_configured_iff:
  "validate_configured_tools configured current = Inr u \<longleftrightarrow> set configured \<subseteq> set current"
  by (auto simp: validate_configured_tools_def Let_def filter_empty_conv)

lemma validate_tool_scope_iff:
  "(\<exists>n. validate_tool_scope t (scope_val s) (Some permitted) = Inr n) \<longleftrightarrow>
     (if permitted = [] then s = []
      else s \<noteq> [] \<and> (\<forall>p \<in> set s. set (snd p) \<subseteq> scope_values permitted (fst p)))"
proof -
  have vals: "set (case map_of permitted k of None \<Rightarrow> [] | Some ws \<Rightarrow> ws) = scope_values permitted k" for k
    by (simp add: scope_values_def split: option.split)
  have "(find (\<lambda>(k, vs). \<not> set vs \<subseteq> scope_values permitted k)
      (map (\<lambda>(k, vs). (k, sorted_set vs)) s) = None) \<longleftrightarrow>
      (\<forall>p \<in> set s. set (snd p) \<subseteq> scope_values permitted (fst p))"
    by (simp add: find_None_iff split_beta)
  then show ?thesis
    by (auto simp: validate_tool_scope_def authz_normalize_val vals split: option.split)
qed

end
