(* ===== verification/Cp_Store.thy ===== *)
theory Cp_Store
  imports Cp_Base Runtime_Context
begin

text \<open>
  The control plane's tables (\<open>ensure_schema\<close> in \<open>db.py\<close>) as a record of row lists, and the
  functions of \<open>db.py\<close> on users, sessions, roles and memory policies. One function of
  \<open>db.py\<close> is one transaction: it commits its new tables or, when a constraint is violated, raises
  \<open>DbError\<close> and leaves them as they were. Rows without an \<open>ORDER BY\<close> come in insertion order. The
  clock, \<open>json.dumps\<close> with sorted keys and \<open>sha256\<close> are fields of the environment, and so are the
  failures of the writes that record a run (\<open>Cp_Runs\<close>); other writes fail on a violated constraint only. The reads
  the runtime makes of the same tables (\<open>Runtime_Context\<close>) are related to this record by
  \<open>runtime_view\<close>.
\<close>

section \<open>Rows\<close>

record cp_env =
  cv_now :: int
  cv_dumps :: "pyval \<Rightarrow> string"
  cv_sha256 :: "string \<Rightarrow> string"
  cv_write_fails :: "nat \<Rightarrow> string list \<Rightarrow> bool"

record session_row =
  se_token_hash :: string
  se_user_id :: string
  se_revoked_at :: "int option"

record role_row =
  ro_id :: string
  ro_name :: string
  ro_description :: string
  ro_status :: string
  ro_is_system :: bool

record role_event =
  re_role_id :: string
  re_actor_id :: string
  re_event_type :: string
  re_status :: string
  re_permissions :: "(string \<times> scope) list"

record policy_row =
  po_tenant_id :: string
  po_namespace :: string
  po_mode :: string
  po_allow_public_agents :: bool
  po_updated_by :: string
  po_updated_at :: int

record preference_row =
  pf_tenant_id :: string
  pf_user_id :: string
  pf_namespace :: string
  pf_share_across_agents :: bool
  pf_updated_at :: int

text \<open>\<open>ToolDefinition\<close>; a row of \<open>tools\<close> is one without its connection.\<close>

record tool_def =
  td_tool_id :: string
  td_name :: string
  td_description :: string
  td_status :: string
  td_source :: string
  td_runner_tool_id :: "string option"
  td_runner_name :: "string option"
  td_mcp_connection_id :: "string option"
  td_mcp_connection :: "connection_row option"
  td_version :: string
  td_read_only :: bool
  td_idempotent :: bool
  td_parallel_safe :: bool
  td_requires_approval :: bool
  td_side_effect_level :: string
  td_data_sensitivity :: string
  td_network_access :: string
  td_layer :: string
  td_category :: string
  td_namespace :: string
  td_group_id :: string
  td_group_name :: string
  td_timeout_ms :: int
  td_input_schema :: pydict
  td_scope_schema :: scope
  td_scope_descriptions :: "(string \<times> string) list"
  td_manifest_hash :: string

record workflow_row =
  wv_workflow_id :: string
  wv_version :: string
  wv_lifecycle_status :: string
  wv_manifest :: tool_def
  wv_manifest_hash :: string
  wv_created_by :: string
  wv_created_at :: int
  wv_activated_by :: string
  wv_activated_at :: int
  wv_retired_by :: "string option"
  wv_retired_at :: "int option"

record agent_row =
  ag_id :: string
  ag_name :: string
  ag_icon :: string
  ag_visibility :: string
  ag_owner_user_id :: string
  ag_system_prompt :: string
  ag_model :: "string option"
  ag_enabled :: bool
  ag_created_at :: int

record agent_tool_row =
  at_agent_id :: string
  at_tool_id :: string
  at_scope :: scope
  at_enabled :: bool

record snapshot_row =
  sn_agent_id :: string
  sn_version :: int
  sn_permissions :: "string list"
  sn_created_by :: string
  sn_reason :: string

record agent_release_row =
  ar_id :: string
  ar_agent_id :: string
  ar_version :: int
  ar_status :: string
  ar_config_json :: pydict
  ar_published_by :: string
  ar_published_at :: int
  ar_revoked_at :: "int option"

record permission_event =
  pe_agent_id :: "string option"
  pe_user_id :: string
  pe_event_type :: string
  pe_detail :: string

record run_row =
  rn_run_id :: string
  rn_message :: string
  rn_answer :: "string option"
  rn_status :: string
  rn_error :: "string option"
  rn_agent_id :: "string option"
  rn_actor_id :: "string option"
  rn_created_at :: int
  rn_completed_at :: "int option"

record audit_row =
  au_run_id :: string
  au_event_type :: string
  au_detail :: string

record cp_db =
  d_users :: "(string \<times> string) list"
  d_sessions :: "session_row list"
  d_roles :: "role_row list"
  d_user_roles :: "(string \<times> string) list"
  d_permissions :: "(string \<times> string \<times> scope) list"
  d_role_events :: "role_event list"
  d_policies :: "policy_row list"
  d_preferences :: "preference_row list"
  d_connections :: "connection_row list"
  d_tools :: "tool_def list"
  d_workflows :: "workflow_row list"
  d_agents :: "agent_row list"
  d_members :: "(string \<times> string) list"
  d_agent_tools :: "agent_tool_row list"
  d_snapshots :: "snapshot_row list"
  d_channels :: "(string \<times> string) list"
  d_releases :: "agent_release_row list"
  d_permission_events :: "permission_event list"
  d_runs :: "run_row list"
  d_audit :: "audit_row list"
  d_tool_calls :: "(string \<times> string \<times> string) list"

definition no_rows :: cp_db where
  "no_rows =
     \<lparr>d_users = [], d_sessions = [], d_roles = [], d_user_roles = [], d_permissions = [],
      d_role_events = [], d_policies = [], d_preferences = [], d_connections = [], d_tools = [],
      d_workflows = [], d_agents = [], d_members = [], d_agent_tools = [], d_snapshots = [],
      d_channels = [], d_releases = [], d_permission_events = [], d_runs = [], d_audit = [],
      d_tool_calls = []\<rparr>"

text \<open>\<open>INSERT ... ON CONFLICT DO UPDATE\<close> on the rows with the key \<open>p\<close>.\<close>

definition put_row :: "('r \<Rightarrow> bool) \<Rightarrow> 'r \<Rightarrow> ('r \<Rightarrow> 'r) \<Rightarrow> 'r list \<Rightarrow> 'r list" where
  "put_row p new f rows =
     (if list_ex p rows then map (\<lambda>r. if p r then f r else r) rows else rows @ [new])"

text \<open>The rows of a statement \<open>UPDATE ... WHERE p\<close>.\<close>

definition update_rows :: "('r \<Rightarrow> bool) \<Rightarrow> ('r \<Rightarrow> 'r) \<Rightarrow> 'r list \<Rightarrow> 'r list" where
  "update_rows p f rows = map (\<lambda>r. if p r then f r else r) rows"

lemma find_put_row:
  assumes "p new" "\<And>r. p r \<Longrightarrow> p (f r)"
  shows "find p (put_row p new f rows) =
     Some (case find p rows of None \<Rightarrow> new | Some r \<Rightarrow> f r)"
proof (cases "list_ex p rows")
  case True
  then have "find p (map (\<lambda>r. if p r then f r else r) rows) =
      Some (case find p rows of None \<Rightarrow> new | Some r \<Rightarrow> f r)"
    using assms by (induction rows) auto
  with True show ?thesis by (simp add: put_row_def)
next
  case False
  then have "find p rows = None" by (auto simp: find_None_iff list_ex_iff)
  moreover from this have "find p (rows @ [new]) = Some new"
    using assms(1) by (induction rows) (auto split: if_splits)
  ultimately show ?thesis using False by (simp add: put_row_def)
qed

lemma filter_put_row:
  assumes "\<And>r. q r \<Longrightarrow> \<not> p r" "\<not> q new" "\<And>r. p r \<Longrightarrow> \<not> q (f r)"
  shows "filter q (put_row p new f rows) = filter q rows"
proof -
  have "filter q (map (\<lambda>r. if p r then f r else r) rows) = filter q rows"
    using assms by (induction rows) auto
  then show ?thesis using assms(2) by (simp add: put_row_def)
qed

lemma set_put_row: "set (put_row p new f rows) \<subseteq> insert new (set rows \<union> f ` set rows)"
  by (auto simp: put_row_def)

lemma set_update_rows: "set (update_rows p f rows) \<subseteq> set rows \<union> f ` set rows"
  by (auto simp: update_rows_def)

section \<open>Users\<close>

definition user_statuses :: "string list" where
  "user_statuses = [''active'', ''disabled'']"

definition upsert_user :: "string \<Rightarrow> string \<Rightarrow> (cp_db, unit) action" where
  "upsert_user u status = transaction (\<lambda>db.
     if status \<notin> set user_statuses then Inl (CpValueError ''status must be active or disabled'')
     else Inr (db\<lparr>d_users := AList.update u status (d_users db)\<rparr>))"

definition ensure_user_exists :: "string \<Rightarrow> string \<Rightarrow> (cp_db, unit) action" where
  "ensure_user_exists u status = transaction (\<lambda>db.
     if status \<notin> set user_statuses then Inl (CpValueError ''status must be active or disabled'')
     else Inr (if map_of (d_users db) u = None
               then db\<lparr>d_users := d_users db @ [(u, status)]\<rparr> else db))"

definition user_status :: "cp_db \<Rightarrow> string \<Rightarrow> string option" where
  "user_status db u = map_of (d_users db) u"

definition user_active :: "cp_db \<Rightarrow> string \<Rightarrow> bool" where
  "user_active db u \<longleftrightarrow> (case map_of (d_users db) u of None \<Rightarrow> False | Some status \<Rightarrow> status = ''active'')"

section \<open>Sessions\<close>

definition hash_session_token :: "cp_env \<Rightarrow> string \<Rightarrow> string" where
  "hash_session_token v token = cv_sha256 v token"

definition create_user_session :: "cp_env \<Rightarrow> string \<Rightarrow> string \<Rightarrow> (cp_db, unit) action" where
  "create_user_session v token u = transaction (\<lambda>db.
     if list_ex (\<lambda>s. se_token_hash s = hash_session_token v token) (d_sessions db)
       then Inl (DbError ''user_sessions_pkey'')
     else if map_of (d_users db) u = None then Inl (DbError ''user_sessions_user_id_fkey'')
     else Inr (db\<lparr>d_sessions := d_sessions db @
            [\<lparr>se_token_hash = hash_session_token v token, se_user_id = u, se_revoked_at = None\<rparr>]\<rparr>))"

definition get_session_user :: "cp_env \<Rightarrow> cp_db \<Rightarrow> string \<Rightarrow> string option" where
  "get_session_user v db token =
     map_option se_user_id
       (find (\<lambda>s. se_token_hash s = hash_session_token v token \<and> se_revoked_at s = None \<and>
                  user_active db (se_user_id s)) (d_sessions db))"

definition revoke_user_session :: "cp_env \<Rightarrow> string \<Rightarrow> (cp_db, unit) action" where
  "revoke_user_session v token = modify (\<lambda>db.
     db\<lparr>d_sessions := update_rows
          (\<lambda>s. se_token_hash s = hash_session_token v token \<and> se_revoked_at s = None)
          (\<lambda>s. s\<lparr>se_revoked_at := Some (cv_now v)\<rparr>) (d_sessions db)\<rparr>)"

section \<open>Roles\<close>

definition has_role :: "cp_db \<Rightarrow> string \<Rightarrow> string \<Rightarrow> bool" where
  "has_role db u r \<longleftrightarrow> (u, r) \<in> set (d_user_roles db)"

definition get_user_roles :: "cp_db \<Rightarrow> string \<Rightarrow> string list" where
  "get_user_roles db u = map snd (filter (\<lambda>(user, role). user = u) (d_user_roles db))"

definition role_exists :: "cp_db \<Rightarrow> string \<Rightarrow> bool" where
  "role_exists db r \<longleftrightarrow> list_ex (\<lambda>row. ro_id row = r) (d_roles db)"

definition role_is_system :: "cp_db \<Rightarrow> string \<Rightarrow> bool option" where
  "role_is_system db r = map_option ro_is_system (find (\<lambda>row. ro_id row = r) (d_roles db))"

definition roles_exist :: "cp_db \<Rightarrow> string list \<Rightarrow> bool" where
  "roles_exist db rs \<longleftrightarrow> list_all (role_exists db) rs"

definition upsert_role ::
  "string \<Rightarrow> string \<Rightarrow> string \<Rightarrow> string \<Rightarrow> bool \<Rightarrow> (cp_db, unit) action" where
  "upsert_role r name description status is_system = transaction (\<lambda>db.
     if status \<notin> set user_statuses then Inl (CpValueError ''status must be active or disabled'')
     else Inr (db\<lparr>d_roles := put_row (\<lambda>row. ro_id row = r)
            \<lparr>ro_id = r, ro_name = name, ro_description = description, ro_status = status,
             ro_is_system = is_system\<rparr>
            (\<lambda>row. row\<lparr>ro_name := name, ro_description := description, ro_status := status,
                      ro_is_system := ro_is_system row \<or> is_system\<rparr>) (d_roles db)\<rparr>))"

definition create_custom_role ::
  "string \<Rightarrow> string \<Rightarrow> string \<Rightarrow> string \<Rightarrow> (cp_db, unit) action" where
  "create_custom_role r name description status = transaction (\<lambda>db.
     if role_exists db r then Inl (DbError ''roles_pkey'')
     else Inr (db\<lparr>d_roles := d_roles db @
            [\<lparr>ro_id = r, ro_name = name, ro_description = description, ro_status = status,
              ro_is_system = False\<rparr>]\<rparr>))"

text \<open>The result is \<open>cursor.rowcount == 1\<close>.\<close>

definition update_custom_role ::
  "string \<Rightarrow> string \<Rightarrow> string \<Rightarrow> string \<Rightarrow> (cp_db, bool) action" where
  "update_custom_role r name description status db =
     (let hit = (\<lambda>row. ro_id row = r \<and> \<not> ro_is_system row)
      in (Inr (length (filter hit (d_roles db)) = 1),
          db\<lparr>d_roles := update_rows hit
               (\<lambda>row. row\<lparr>ro_name := name, ro_description := description, ro_status := status\<rparr>)
               (d_roles db)\<rparr>))"

definition record_role_change_event ::
  "string \<Rightarrow> string \<Rightarrow> string \<Rightarrow> string \<Rightarrow> (string \<times> scope) list \<Rightarrow> (cp_db, unit) action" where
  "record_role_change_event r actor event_type status permissions = modify (\<lambda>db.
     db\<lparr>d_role_events := d_role_events db @
          [\<lparr>re_role_id = r, re_actor_id = actor, re_event_type = event_type, re_status = status,
            re_permissions = permissions\<rparr>]\<rparr>)"

definition tool_exists :: "cp_db \<Rightarrow> string \<Rightarrow> bool" where
  "tool_exists db t \<longleftrightarrow> list_ex (\<lambda>row. td_tool_id row = t) (d_tools db)"

definition normalized_scope :: "scope \<Rightarrow> scope" where
  "normalized_scope s = map (\<lambda>(k, vs). (k, sorted_set vs)) s"

definition replace_role_tool_permissions ::
  "string \<Rightarrow> (string \<times> scope) list \<Rightarrow> (cp_db, unit) action" where
  "replace_role_tool_permissions r permissions = transaction (\<lambda>db.
     let kept = filter (\<lambda>(role, tool, scope). role \<noteq> r) (d_permissions db)
     in if permissions \<noteq> [] \<and> (\<not> role_exists db r \<or> \<not> list_all (tool_exists db) (map fst permissions))
        then Inl (DbError ''role_tool_permissions_fkey'')
        else Inr (db\<lparr>d_permissions := kept @
               map (\<lambda>(t, s). (r, t, normalized_scope s)) permissions\<rparr>))"

definition replace_user_roles :: "string \<Rightarrow> string list \<Rightarrow> (cp_db, unit) action" where
  "replace_user_roles u rs = transaction (\<lambda>db.
     if rs \<noteq> [] \<and> (map_of (d_users db) u = None \<or> \<not> list_all (role_exists db) rs)
     then Inl (DbError ''user_roles_fkey'')
     else Inr (db\<lparr>d_user_roles :=
            filter (\<lambda>(user, role). user \<noteq> u) (d_user_roles db) @ map (\<lambda>r. (u, r)) (remdups rs)\<rparr>))"

definition remove_role_everywhere :: "string \<Rightarrow> (cp_db, unit) action" where
  "remove_role_everywhere r = modify (\<lambda>db.
     db\<lparr>d_permissions := filter (\<lambda>(role, tool, scope). role \<noteq> r) (d_permissions db),
        d_user_roles := filter (\<lambda>(user, role). role \<noteq> r) (d_user_roles db),
        d_roles := filter (\<lambda>row. ro_id row \<noteq> r) (d_roles db)\<rparr>)"

definition remove_tool_everywhere :: "string \<Rightarrow> (cp_db, unit) action" where
  "remove_tool_everywhere t = modify (\<lambda>db.
     db\<lparr>d_permissions := filter (\<lambda>(role, tool, scope). tool \<noteq> t) (d_permissions db),
        d_agent_tools := filter (\<lambda>row. at_tool_id row \<noteq> t) (d_agent_tools db),
        d_tools := filter (\<lambda>row. td_tool_id row \<noteq> t) (d_tools db)\<rparr>)"

text \<open>\<open>user_roles JOIN roles (active) JOIN role_tool_permissions\<close>.\<close>

definition role_tool_rows :: "cp_db \<Rightarrow> string \<Rightarrow> (string \<times> scope) list" where
  "role_tool_rows db u =
     concat (map (\<lambda>(user, role).
        if user = u \<and> list_ex (\<lambda>row. ro_id row = role \<and> ro_status row = ''active'') (d_roles db)
        then map (\<lambda>(r, tool, scope). (tool, scope))
               (filter (\<lambda>(r, tool, scope). r = role) (d_permissions db))
        else []) (d_user_roles db))"

definition user_tool_scopes :: "cp_db \<Rightarrow> string \<Rightarrow> (string \<times> scope) list cp" where
  "user_tool_scopes db u =
     authz_merge_tool_scopes (map (\<lambda>(t, s). (t, scope_val s)) (role_tool_rows db u))"

section \<open>Memory policies and preferences\<close>

definition memory_modes :: "string list" where
  "memory_modes = [''tenant_required'', ''user_controlled'', ''agent_private'']"

definition upsert_memory_namespace_policy ::
  "cp_env \<Rightarrow> string \<Rightarrow> string \<Rightarrow> string \<Rightarrow> bool \<Rightarrow> string \<Rightarrow> (cp_db, unit) action" where
  "upsert_memory_namespace_policy v tenant ns mode allow actor = transaction (\<lambda>db.
     if mode \<notin> set memory_modes then Inl (CpValueError ''memory policy mode invalid'')
     else Inr (db\<lparr>d_policies := put_row (\<lambda>p. po_tenant_id p = tenant \<and> po_namespace p = ns)
            \<lparr>po_tenant_id = tenant, po_namespace = ns, po_mode = mode,
             po_allow_public_agents = allow, po_updated_by = actor, po_updated_at = cv_now v\<rparr>
            (\<lambda>p. p\<lparr>po_mode := mode, po_allow_public_agents := allow, po_updated_by := actor,
                  po_updated_at := cv_now v\<rparr>) (d_policies db)\<rparr>))"

definition list_memory_namespace_policies :: "cp_db \<Rightarrow> string \<Rightarrow> policy_row list" where
  "list_memory_namespace_policies db tenant =
     sort_key po_namespace (filter (\<lambda>p. po_tenant_id p = tenant) (d_policies db))"

definition upsert_user_memory_preference ::
  "cp_env \<Rightarrow> string \<Rightarrow> string \<Rightarrow> string \<Rightarrow> bool \<Rightarrow> (cp_db, unit) action" where
  "upsert_user_memory_preference v tenant u ns share = transaction (\<lambda>db.
     if map_of (d_users db) u = None then Inl (DbError ''user_memory_preferences_user_id_fkey'')
     else Inr (db\<lparr>d_preferences :=
            put_row (\<lambda>p. pf_tenant_id p = tenant \<and> pf_user_id p = u \<and> pf_namespace p = ns)
              \<lparr>pf_tenant_id = tenant, pf_user_id = u, pf_namespace = ns,
               pf_share_across_agents = share, pf_updated_at = cv_now v\<rparr>
              (\<lambda>p. p\<lparr>pf_share_across_agents := share, pf_updated_at := cv_now v\<rparr>)
              (d_preferences db)\<rparr>))"

definition list_user_memory_preferences :: "cp_db \<Rightarrow> string \<Rightarrow> string \<Rightarrow> preference_row list" where
  "list_user_memory_preferences db tenant u =
     sort_key pf_namespace
       (filter (\<lambda>p. pf_tenant_id p = tenant \<and> pf_user_id p = u) (d_preferences db))"

end
