(* ===== verification/Cp_Identity.thy ===== *)
theory Cp_Identity
  imports Cp_Store
begin

text \<open>
  Who a request comes from: \<open>identity.py\<close>, the guards of \<open>api.py\<close> (\<open>require_platform_admin\<close>,
  \<open>require_current_actor\<close>) and its \<open>/auth\<close> routes. The reply of the OA service to a token is a
  parameter; the session token of a login is an argument of the route.
\<close>

section \<open>Configuration and environment\<close>

datatype oa_reply =
    OaHttpError int
  | OaUnreachable
  | OaPayload pyval

record cp_config =
  cc_auth_mode :: string
  cc_oa_auth_me_url :: "string option"
  cc_oa_login_url :: "string option"
  cc_bootstrap_admin_users :: "string list"
  cc_runner_backend :: string
  cc_runner_gateway_url :: "string option"
  cc_llm_api_key :: string
  cc_llm_model :: string

text \<open>What a route reads besides the database: the clock and digests, the configuration, OA.\<close>

record cp_world =
  cw_env :: cp_env
  cw_config :: cp_config
  cw_oa :: "string \<Rightarrow> oa_reply"

section \<open>\<open>identity.py\<close>\<close>

record external_identity =
  xi_uid :: string
  xi_name :: "string option"
  xi_email :: "string option"
  xi_avatar :: "string option"

fun optional_string :: "pyval \<Rightarrow> string option" where
  "optional_string (PStr s) = (if s = [] then None else Some s)"
| "optional_string v = None"

text \<open>\<open>authorization.split(" ", 1)[1].strip()\<close> of a header that starts with \<open>bearer \<close>.\<close>

definition extract_bearer_token :: "string option \<Rightarrow> string cp" where
  "extract_bearer_token authorization =
     (case authorization of
        None \<Rightarrow> Inl (IdentityAuthError ''missing login token'')
      | Some a \<Rightarrow>
          if a = [] \<or> \<not> starts_with (py_lower a) ''bearer '' then Inl (IdentityAuthError ''missing login token'')
          else let token = py_strip (tl (dropWhile (\<lambda>c. c \<noteq> CHR '' '') a))
               in if token = [] then Inl (IdentityAuthError ''missing login token'') else Inr token)"

definition fetch_oa_current_user :: "cp_world \<Rightarrow> string \<Rightarrow> external_identity cp" where
  "fetch_oa_current_user w token =
     (if \<not> opt_truthy (cc_oa_auth_me_url (cw_config w))
      then Inl (IdentityUnavailableError ''OA address not configured'')
      else case cw_oa w token of
             OaHttpError code \<Rightarrow>
               (if code = 401 \<or> code = 403 then Inl (IdentityAuthError ''OA login expired'')
                else Inl (IdentityUnavailableError (''OA failed: HTTP '' @ int_text code)))
           | OaUnreachable \<Rightarrow> Inl (IdentityUnavailableError ''OA unavailable'')
           | OaPayload (PDict payload) \<Rightarrow>
               (case py_or (py_or (dget payload ''uid'') (dget payload ''user_id'')) (dget payload ''id'') of
                  PStr uid \<Rightarrow>
                    (if uid = [] then Inl (IdentityUnavailableError ''OA reply lacks uid'')
                     else Inr \<lparr>xi_uid = uid, xi_name = optional_string (dget payload ''name''),
                               xi_email = optional_string (dget payload ''email''),
                               xi_avatar = optional_string (dget payload ''avatar'')\<rparr>)
                | _ \<Rightarrow> Inl (IdentityUnavailableError ''OA reply lacks uid''))
           | OaPayload v \<Rightarrow> Inl (CpAttributeError ''get''))"

definition resolve_current_user_id :: "cp_world \<Rightarrow> string option \<Rightarrow> (cp_db, string) action" where
  "resolve_current_user_id w authorization =
     chain (query_cp (\<lambda>_. extract_bearer_token authorization)) (\<lambda>token.
       if cc_auth_mode (cw_config w) = ''local''
       then chain (query (\<lambda>db. get_session_user (cw_env w) db token)) (\<lambda>user.
              case user of
                None \<Rightarrow> raise (IdentityAuthError ''login expired'')
              | Some u \<Rightarrow> give u)
       else chain (query_cp (\<lambda>_. fetch_oa_current_user w token)) (\<lambda>i.
              andthen (ensure_user_exists (xi_uid i) ''active'')
                (chain (query (\<lambda>db. user_active db (xi_uid i))) (\<lambda>active.
                   andthen (require active (IdentityForbiddenError ''current user unavailable''))
                     (give (xi_uid i))))))"

section \<open>Guards (\<open>api.py\<close>)\<close>

fun identity_status :: "cp_error \<Rightarrow> cp_error" where
  "identity_status (IdentityAuthError m) = HTTPException 401 m"
| "identity_status (IdentityForbiddenError m) = HTTPException 403 m"
| "identity_status (IdentityUnavailableError m) = HTTPException 503 m"
| "identity_status e = e"

text \<open>\<open>except (psycopg.Error, RuntimeError)\<close>: \<open>GatewayRunnerError\<close> is a \<open>RuntimeError\<close>.\<close>

fun db_failure :: "cp_error \<Rightarrow> cp_error" where
  "db_failure (DbError m) = HTTPException 503 ''database unavailable''"
| "db_failure (CpRuntimeError m) = HTTPException 503 ''database unavailable''"
| "db_failure (GatewayRunnerError s m) = HTTPException 503 ''database unavailable''"
| "db_failure e = e"

text \<open>The handlers that also catch \<open>ValueError\<close>.\<close>

fun value_failure :: "int \<Rightarrow> cp_error \<Rightarrow> cp_error" where
  "value_failure code (CpValueError m) = HTTPException code m"
| "value_failure code e = db_failure e"

definition current_user_id :: "cp_world \<Rightarrow> string option \<Rightarrow> (cp_db, string) action" where
  "current_user_id w authorization = rethrow identity_status (resolve_current_user_id w authorization)"

definition optional_current_user_id :: "cp_world \<Rightarrow> string option \<Rightarrow> (cp_db, string option) action" where
  "optional_current_user_id w authorization =
     (if \<not> opt_truthy authorization then give None
      else chain (current_user_id w authorization) (\<lambda>u. give (Some u)))"

definition bearer_token :: "string option \<Rightarrow> string cp" where
  "bearer_token authorization =
     (case extract_bearer_token authorization of
        Inl e \<Rightarrow> Inl (HTTPException 401 ''missing login token'')
      | Inr token \<Rightarrow> Inr token)"

definition require_platform_admin :: "string \<Rightarrow> (cp_db, unit) action" where
  "require_platform_admin actor =
     chain (query (\<lambda>db. user_active db actor \<and> has_role db actor PLATFORM_ADMIN_ROLE)) (\<lambda>ok.
       require ok (HTTPException 403 ''platform_admin role required''))"

definition require_current_platform_admin :: "cp_world \<Rightarrow> string option \<Rightarrow> (cp_db, string) action" where
  "require_current_platform_admin w authorization =
     chain (current_user_id w authorization) (\<lambda>actor.
       andthen (require_platform_admin actor) (give actor))"

definition require_current_actor ::
  "cp_world \<Rightarrow> string option \<Rightarrow> string \<Rightarrow> (cp_db, string) action" where
  "require_current_actor w authorization claimed =
     chain (current_user_id w authorization) (\<lambda>actor.
       andthen (require (actor = claimed) (HTTPException 403 ''actor is not the logged-in user''))
         (chain (query (\<lambda>db. user_active db actor)) (\<lambda>active.
            andthen (require active (HTTPException 403 ''current user unavailable''))
              (give actor))))"

section \<open>The \<open>/auth\<close> routes\<close>

record user_profile_view =
  up_user_id :: string
  up_status :: string
  up_roles :: "string list"
  up_role_tool_scopes :: "(string \<times> scope) list"
  up_is_platform_admin :: bool

definition user_profile :: "string \<Rightarrow> (cp_db, user_profile_view) action" where
  "user_profile u = query_cp (\<lambda>db.
     case user_status db u of
       None \<Rightarrow> Inl (HTTPException 404 ''user does not exist'')
     | Some status \<Rightarrow>
         (case user_tool_scopes db u of
            Inl e \<Rightarrow> Inl e
          | Inr scopes \<Rightarrow>
              Inr \<lparr>up_user_id = u, up_status = status, up_roles = sort (get_user_roles db u),
                   up_role_tool_scopes = scopes,
                   up_is_platform_admin = has_role db u PLATFORM_ADMIN_ROLE\<rparr>))"

definition login_route ::
  "cp_world \<Rightarrow> string \<Rightarrow> string \<Rightarrow> (cp_db, string \<times> user_profile_view) action" where
  "login_route w token u = rethrow db_failure
     (andthen (require (cc_auth_mode (cw_config w) = ''local'') (HTTPException 403 ''OA login is used''))
       (chain (query (\<lambda>db. user_active db u)) (\<lambda>active.
          andthen (require active (HTTPException 403 ''user does not exist or is unavailable''))
            (andthen (create_user_session (cw_env w) token u)
              (chain (user_profile u) (\<lambda>profile. give (token, profile)))))))"

definition me_route :: "cp_world \<Rightarrow> string option \<Rightarrow> (cp_db, user_profile_view) action" where
  "me_route w authorization = rethrow db_failure (chain (current_user_id w authorization) user_profile)"

definition logout_route :: "cp_world \<Rightarrow> string option \<Rightarrow> (cp_db, unit) action" where
  "logout_route w authorization = rethrow db_failure
     (chain (query_cp (\<lambda>_. bearer_token authorization)) (\<lambda>token.
        if cc_auth_mode (cw_config w) = ''local'' then revoke_user_session (cw_env w) token
        else give ()))"

end
