(* ===== verification/Mcp_Uri.thy ===== *)
theory Mcp_Uri
  imports Runtime_Context
begin

text \<open>
  MCP connections between the two services. The control plane validates a connection
  (\<open>MCPConnectionRequest\<close> in \<open>models.py\<close>), stores its configuration and derives the URI
  \<open>runner_tool_id\<close>; the runtime (\<open>tool_adapters.py\<close>) opens the transport either from the stored
  configuration (\<open>build_structured_mcp_transport\<close>) or, for tools that carry only the URI, by parsing
  it back (\<open>parse_stdio_parts\<close>). The functions of \<open>urllib.parse\<close> both use are written out on
  byte strings; \<open>unquote\<close> does not replace invalid UTF-8, and \<open>urlsplit\<close> does not strip control
  characters.
\<close>

section \<open>\<open>urllib.parse\<close>\<close>

definition hex_digit :: "nat \<Rightarrow> char" where
  "hex_digit n = (if n < 10 then char_of (48 + n) else char_of (55 + n))"

definition hex_value :: "char \<Rightarrow> nat option" where
  "hex_value c =
     (let n = (of_char c :: nat)
      in if 48 \<le> n \<and> n \<le> 57 then Some (n - 48)
         else if 65 \<le> n \<and> n \<le> 70 then Some (n - 55)
         else if 97 \<le> n \<and> n \<le> 102 then Some (n - 87)
         else None)"

definition is_letter :: "char \<Rightarrow> bool" where
  "is_letter c \<longleftrightarrow> (let n = (of_char c :: nat) in (65 \<le> n \<and> n \<le> 90) \<or> (97 \<le> n \<and> n \<le> 122))"

text \<open>The bytes \<open>quote\<close> always keeps.\<close>

definition unreserved :: "char \<Rightarrow> bool" where
  "unreserved c \<longleftrightarrow> is_letter c \<or> is_digit c \<or> c \<in> set ''_.-~''"

definition percent :: char where "percent = CHR ''%''"

definition quote_byte :: "char \<Rightarrow> string" where
  "quote_byte c = [percent, hex_digit (of_char c div 16), hex_digit (of_char c mod 16)]"

definition url_quote :: "string \<Rightarrow> string \<Rightarrow> string" where
  "url_quote safe s = concat (map (\<lambda>c. if unreserved c \<or> c \<in> set safe then [c] else quote_byte c) s)"

definition quote_plus :: "string \<Rightarrow> string" where
  "quote_plus s =
     concat (map (\<lambda>c. if c = CHR '' '' then ''+'' else if unreserved c then [c] else quote_byte c) s)"

fun url_unquote :: "string \<Rightarrow> string" where
  "url_unquote (c # a # b # s) =
     (if c = percent
      then (case (hex_value a, hex_value b) of
              (Some x, Some y) \<Rightarrow> char_of (16 * x + y) # url_unquote s
            | _ \<Rightarrow> c # url_unquote (a # b # s))
      else c # url_unquote (a # b # s))"
| "url_unquote s = s"

definition unquote_plus :: "string \<Rightarrow> string" where
  "unquote_plus s = url_unquote (map (\<lambda>c. if c = CHR ''+'' then CHR '' '' else c) s)"

definition urlencode :: "(string \<times> string) list \<Rightarrow> string" where
  "urlencode pairs = py_join ''&'' (map (\<lambda>(k, v). quote_plus k @ ''='' @ quote_plus v) pairs)"

text \<open>\<open>s.split(sep)\<close> for one character, and \<open>s.split(sep, 1)\<close> as a pair when it occurs.\<close>

fun split_on :: "char \<Rightarrow> string \<Rightarrow> string list" where
  "split_on sep [] = [[]]"
| "split_on sep (c # s) =
     (if c = sep then [] # split_on sep s
      else (case split_on sep s of [] \<Rightarrow> [[c]] | w # ws \<Rightarrow> (c # w) # ws))"

definition cut_at :: "(char \<Rightarrow> bool) \<Rightarrow> string \<Rightarrow> string \<times> string" where
  "cut_at p s = (takeWhile (\<lambda>c. \<not> p c) s, dropWhile (\<lambda>c. \<not> p c) s)"

text \<open>\<open>parse_qsl\<close>: pairs with no \<open>=\<close> or a blank value are dropped. \<open>parse_qs(q).get(key, [])\<close>.\<close>

definition parse_pair :: "string \<Rightarrow> (string \<times> string) option" where
  "parse_pair part =
     (case cut_at (\<lambda>c. c = CHR ''='') part of (name, rest) \<Rightarrow>
        if rest = [] \<or> tl rest = [] then None else Some (unquote_plus name, unquote_plus (tl rest)))"

definition parse_qsl :: "string \<Rightarrow> (string \<times> string) list" where
  "parse_qsl q = List.map_filter parse_pair (split_on CHR ''&'' q)"

definition qs_get :: "string \<Rightarrow> string \<Rightarrow> string list" where
  "qs_get q key = map snd (filter (\<lambda>(k, v). k = key) (parse_qsl q))"

record url_parts =
  u_scheme :: string
  u_netloc :: string
  u_path :: string
  u_query :: string
  u_fragment :: string

definition scheme_char :: "char \<Rightarrow> bool" where
  "scheme_char c \<longleftrightarrow> is_letter c \<or> is_digit c \<or> c \<in> set ''+-.''"

definition tl_or :: "string \<Rightarrow> string" where
  "tl_or s = (case s of [] \<Rightarrow> [] | c # t \<Rightarrow> t)"

definition urlsplit :: "string \<Rightarrow> url_parts" where
  "urlsplit url =
     (let (s, r) = cut_at (\<lambda>c. c = CHR '':'') url;
          has_scheme = (r \<noteq> [] \<and> s \<noteq> [] \<and> is_letter (hd s) \<and> list_all scheme_char s);
          rest = (if has_scheme then tl r else url);
          (netloc, rest2) = (if prefix ''//'' rest
                             then cut_at (\<lambda>c. c \<in> set ''/?#'') (drop 2 rest) else ([], rest));
          (before_fragment, frag) = cut_at (\<lambda>c. c = CHR ''#'') rest2;
          (path, q) = cut_at (\<lambda>c. c = CHR ''?'') before_fragment
      in \<lparr>u_scheme = (if has_scheme then py_lower s else []), u_netloc = netloc, u_path = path,
          u_query = tl_or q, u_fragment = tl_or frag\<rparr>)"

text \<open>\<open>urlunsplit\<close> of parts with a scheme and a netloc.\<close>

definition urlunsplit :: "url_parts \<Rightarrow> string" where
  "urlunsplit u =
     (let url = (if u_netloc u \<noteq> []
                 then ''//'' @ u_netloc u @
                      (if u_path u \<noteq> [] \<and> hd (u_path u) \<noteq> CHR ''/'' then ''/'' else []) @ u_path u
                 else u_path u);
          url = (if u_scheme u \<noteq> [] then u_scheme u @ '':'' @ url else url);
          url = (if u_query u \<noteq> [] then url @ ''?'' @ u_query u else url)
      in if u_fragment u \<noteq> [] then url @ ''#'' @ u_fragment u else url)"

section \<open>The control plane's side (\<open>models.py\<close>)\<close>

record connection_request =
  cq_name :: string
  cq_status :: string
  cq_transport :: string
  cq_url :: "string option"
  cq_command :: "string option"
  cq_args :: "string list"
  cq_cwd :: "string option"
  cq_env_vars :: "string list"
  cq_bearer_env :: "string option"
  cq_headers :: "(string \<times> string) list"
  cq_connect_timeout_ms :: int
  cq_call_timeout_ms :: int
  cq_idle_ttl_seconds :: int
  cq_discovery_ttl_seconds :: int

text \<open>\<open>validate_transport_config\<close> and \<open>validate_headers\<close>; \<open>None\<close> is a \<open>ValueError\<close>.\<close>

definition transport_config_ok :: "connection_request \<Rightarrow> bool" where
  "transport_config_ok r \<longleftrightarrow>
     (if cq_transport r = ''streamable_http''
      then let parsed = urlsplit (opt_or (cq_url r) [])
           in u_scheme parsed \<in> set [''http'', ''https''] \<and> u_netloc parsed \<noteq> []
      else opt_truthy (cq_command r))"

definition header_name_char :: "char \<Rightarrow> bool" where
  "header_name_char c \<longleftrightarrow> is_letter c \<or> is_digit c \<or>
     c \<in> set [CHR ''!'', CHR ''#'', CHR ''$'', CHR ''%'', CHR ''&'', CHR 0x27, CHR ''*'', CHR ''+'', CHR ''.'',
              CHR ''^'', CHR ''_'', CHR 0x60, CHR ''|'', CHR ''~'', CHR ''-'']"

definition validate_header :: "string \<times> string \<Rightarrow> (string \<times> string) list option \<Rightarrow> (string \<times> string) list option" where
  "validate_header h acc =
     (case (h, acc) of
        (_, None) \<Rightarrow> None
      | ((raw_key, v), Some clean) \<Rightarrow>
          (let key = py_strip raw_key
           in if key = [] then Some clean
              else if \<not> list_all header_name_char key then None
              else if CHR 0x0D \<in> set v \<or> CHR 0x0A \<in> set v then None
              else if 2000 < py_len v then None
              else Some (AList.update key v clean)))"

definition validate_headers :: "(string \<times> string) list \<Rightarrow> (string \<times> string) list option" where
  "validate_headers headers = fold validate_header headers (Some [])"

definition runtime_config :: "connection_request \<Rightarrow> pydict" where
  "runtime_config r =
     [(''connect_timeout_ms'', PInt (cq_connect_timeout_ms r)),
      (''call_timeout_ms'', PInt (cq_call_timeout_ms r)),
      (''idle_ttl_seconds'', PInt (cq_idle_ttl_seconds r)),
      (''discovery_ttl_seconds'', PInt (cq_discovery_ttl_seconds r))] @
     (if cq_transport r = ''streamable_http''
      then [(''url'', opt_val (cq_url r)), (''bearer_env'', opt_val (cq_bearer_env r)),
            (''headers'', PDict (map (\<lambda>(k, v). (k, PStr v)) (cq_headers r)))]
      else [(''command'', opt_val (cq_command r)), (''args'', PList (map PStr (cq_args r))),
            (''cwd'', opt_val (cq_cwd r)), (''env_vars'', PList (map PStr (cq_env_vars r)))])"

text \<open>\<open>MCPConnectionDefinition.runner_tool_id\<close>.\<close>

definition connection_uri :: "connection_row \<Rightarrow> string" where
  "connection_uri m =
     (let config = as_dict (m_config m)
      in if m_transport m = ''streamable_http''
         then (let url = text_or_empty (dget config ''url'');
                   bearer_env = dget config ''bearer_env''
               in if truthy bearer_env
                  then (let parsed = urlsplit url
                        in ''mcp+'' @ urlunsplit (parsed\<lparr>u_query :=
                             urlencode (parse_qsl (u_query parsed) @ [(''bearer_env'', py_str bearer_env)])\<rparr>))
                  else ''mcp+'' @ url)
         else (let command = url_quote ''/'' (text_or_empty (dget config ''command''));
                   args = map (\<lambda>v. (''arg'', py_str v)) (as_list (py_or (dget config ''args'') (PList [])));
                   cwd = (if truthy (dget config ''cwd'') then [(''cwd'', py_str (dget config ''cwd''))] else []);
                   env_vars = map py_str (as_list (py_or (dget config ''env_vars'') (PList [])));
                   env = (if env_vars \<noteq> [] then [(''env'', py_join '','' env_vars)] else [])
               in ''mcp+stdio://'' @ command @ ''?'' @ urlencode (args @ cwd @ env)))"

section \<open>The runtime's side (\<open>tool_adapters.py\<close>)\<close>

record stdio_transport =
  st_command :: string
  st_args :: "string list"
  st_cwd :: "string option"
  st_env :: "(string \<times> string) list"

text \<open>The first value of a query list, or the given default.\<close>

definition first_or :: "'a \<Rightarrow> 'a list \<Rightarrow> 'a" where
  "first_or d xs = (case xs of [] \<Rightarrow> d | x # ys \<Rightarrow> x)"

definition env_of :: "(string \<Rightarrow> string option) \<Rightarrow> string list \<Rightarrow> (string \<times> string) list" where
  "env_of environ names =
     fold (\<lambda>name env. case environ name of None \<Rightarrow> env | Some v \<Rightarrow> AList.update name v env) names []"

definition parse_stdio_parts :: "(string \<Rightarrow> string option) \<Rightarrow> string \<Rightarrow> string + stdio_transport" where
  "parse_stdio_parts environ uri =
     (let parsed = urlsplit uri;
          command = url_unquote (if u_netloc parsed \<noteq> [] then u_netloc parsed else u_path parsed)
      in if command = [] then Inl ''mcp stdio command missing''
         else (let q = u_query parsed;
                   names = filter (\<lambda>k. k \<noteq> []) (map py_strip
                             (split_on CHR '','' (first_or [] (qs_get q ''env''))))
               in Inr \<lparr>st_command = command, st_args = map url_unquote (qs_get q ''arg''),
                       st_cwd = (case qs_get q ''cwd'' of [] \<Rightarrow> None | c # cs \<Rightarrow> Some c),
                       st_env = env_of environ names\<rparr>))"

text \<open>The stdio branch of \<open>build_structured_mcp_transport\<close>.\<close>

definition structured_stdio :: "(string \<Rightarrow> string option) \<Rightarrow> pydict \<Rightarrow> string + stdio_transport" where
  "structured_stdio environ config =
     (let command = text_or_empty (dget config ''command'')
      in if command = [] then Inl ''MCP stdio command missing''
         else Inr \<lparr>st_command = command,
                   st_args = map py_str (as_list (py_or (dget config ''args'') (PList []))),
                   st_cwd = (if truthy (dget config ''cwd'') then Some (py_str (dget config ''cwd'')) else None),
                   st_env = env_of environ (map py_str (as_list (py_or (dget config ''env_vars'') (PList []))))\<rparr>)"

text \<open>
  \<open>bearer_headers\<close> of a URI, and the headers of the HTTP branch of
  \<open>build_structured_mcp_transport\<close>.
\<close>

definition bearer_headers :: "(string \<Rightarrow> string option) \<Rightarrow> string \<Rightarrow> (string \<times> string) list" where
  "bearer_headers environ url =
     (case qs_get (u_query (urlsplit url)) ''bearer_env'' of
        [] \<Rightarrow> []
      | name # names \<Rightarrow>
          (case environ name of
             None \<Rightarrow> []
           | Some token \<Rightarrow> if token = [] then [] else [(''Authorization'', ''Bearer '' @ token)]))"

definition structured_headers :: "(string \<Rightarrow> string option) \<Rightarrow> pydict \<Rightarrow> (string \<times> string) list" where
  "structured_headers environ config =
     (let headers = map (\<lambda>(k, v). (k, py_str v)) (as_dict (dget config ''headers''));
          bearer_env = dget config ''bearer_env'';
          token = (if truthy bearer_env then environ (py_str bearer_env) else None)
      in case token of
           None \<Rightarrow> headers
         | Some t \<Rightarrow> if t = [] then headers else AList.update ''Authorization'' (''Bearer '' @ t) headers)"

section \<open>Reading back what was quoted\<close>

lemma hex_roundtrip: "n < 16 \<Longrightarrow> hex_value (hex_digit n) = Some n"
  by (simp add: hex_value_def hex_digit_def)

lemma byte_bounds: "of_char c div (16::nat) < 16" "of_char c mod (16::nat) < 16"
proof -
  have "of_char c < (256::nat)" by simp
  then show "of_char c div (16::nat) < 16" by linarith
qed simp

lemma percent_reserved: "\<not> unreserved percent"
  by (simp add: unreserved_def percent_def is_letter_def is_digit_def)

lemma unquote_kept: "c \<noteq> percent \<Longrightarrow> url_unquote (c # s) = c # url_unquote s"
proof (cases s)
  case Nil
  then show ?thesis by simp
next
  case (Cons a t)
  assume "c \<noteq> percent"
  with Cons show ?thesis by (cases t) simp_all
qed

lemma unquote_byte: "url_unquote (quote_byte c @ s) = c # url_unquote s"
  by (simp add: quote_byte_def hex_roundtrip byte_bounds)

lemma unquote_quote: "percent \<notin> set safe \<Longrightarrow> url_unquote (url_quote safe s) = s"
proof (induction s)
  case Nil
  then show ?case by (simp add: url_quote_def)
next
  case (Cons c s)
  then have "c \<noteq> percent" if "unreserved c \<or> c \<in> set safe"
    using that percent_reserved by auto
  with Cons show ?case
    by (auto simp: url_quote_def unquote_kept unquote_byte)
qed

lemma unquote_plain: "percent \<notin> set s \<Longrightarrow> url_unquote s = s"
  by (induction s) (auto simp: unquote_kept)

lemma plus_reserved: "\<not> unreserved (CHR ''+'')" "\<not> unreserved (CHR '' '')"
  by (simp_all add: unreserved_def is_letter_def is_digit_def)

lemma quote_byte_plain: "CHR ''+'' \<notin> set (quote_byte c)"
proof -
  have "hex_digit n \<noteq> CHR ''+''" if "n < 16" for n
    using hex_roundtrip [OF that] by (auto simp: hex_value_def)
  from this [OF byte_bounds(1) [of c]] this [OF byte_bounds(2) [of c]] show ?thesis
    by (auto simp: quote_byte_def percent_def)
qed

lemma unquote_quote_plus: "unquote_plus (quote_plus s) = s"
proof (induction s)
  case Nil
  then show ?case by (simp add: quote_plus_def unquote_plus_def)
next
  case (Cons c s)
  let ?f = "\<lambda>c. if c = CHR ''+'' then CHR '' '' else c"
  consider "c = CHR '' ''" | "c \<noteq> CHR '' ''" "unreserved c" | "c \<noteq> CHR '' ''" "\<not> unreserved c" by blast
  then show ?case
  proof cases
    case 1
    then show ?thesis using Cons.IH
      by (simp add: quote_plus_def unquote_plus_def unquote_kept percent_def)
  next
    case 2
    moreover from this have "c \<noteq> percent" "c \<noteq> CHR ''+''"
      using percent_reserved plus_reserved by auto
    ultimately show ?thesis using Cons.IH
      by (simp add: quote_plus_def unquote_plus_def unquote_kept)
  next
    case 3
    have "map ?f (quote_byte c) = quote_byte c"
      using quote_byte_plain [of c] by (intro map_idI) auto
    with 3 show ?thesis using Cons.IH
      by (simp add: quote_plus_def unquote_plus_def unquote_byte)
  qed
qed

text \<open>The bytes of quoted text: no separator of a URL is among them.\<close>

definition quoted_char :: "char \<Rightarrow> bool" where
  "quoted_char c \<longleftrightarrow> unreserved c \<or> c = percent \<or> c = CHR ''+''"

lemma hex_digit_unreserved: "n < 16 \<Longrightarrow> unreserved (hex_digit n)"
  by (simp add: unreserved_def hex_digit_def is_letter_def is_digit_def)

lemma quote_byte_chars: "list_all quoted_char (quote_byte c)"
  using byte_bounds [of c] by (simp add: quote_byte_def quoted_char_def hex_digit_unreserved)

lemma quote_plus_chars: "list_all quoted_char (quote_plus s)"
  using quote_byte_chars
  by (induction s) (auto simp: quote_plus_def quoted_char_def [of "CHR ''+''"] quoted_char_def)

lemma url_quote_chars: "list_all (\<lambda>c. quoted_char c \<or> c \<in> set safe) (url_quote safe s)"
proof (induction s)
  case Nil
  then show ?case by (simp add: url_quote_def)
next
  case (Cons c s)
  moreover have "list_all (\<lambda>c. quoted_char c \<or> c \<in> set safe) (quote_byte c)"
    using quote_byte_chars by (rule list.pred_mono_strong) simp
  ultimately show ?case by (simp add: url_quote_def quoted_char_def)
qed

lemma separators:
  "\<not> quoted_char (CHR ''&'')" "\<not> quoted_char (CHR ''='')" "\<not> quoted_char (CHR ''?'')"
  "\<not> quoted_char (CHR ''#'')" "\<not> quoted_char (CHR ''/'')"
  by (simp_all add: quoted_char_def percent_def unreserved_def is_letter_def is_digit_def)

section \<open>Query strings\<close>

lemma split_no_sep: "sep \<notin> set s \<Longrightarrow> split_on sep s = [s]"
  by (induction s) auto

lemma split_not_Nil: "split_on sep s \<noteq> []"
  by (induction s) (auto split: list.split)

lemma split_append: "sep \<notin> set w \<Longrightarrow> split_on sep (w @ sep # s) = w # split_on sep s"
  by (induction w) (auto simp: split_not_Nil)

lemma split_join:
  "ws \<noteq> [] \<Longrightarrow> \<forall>w \<in> set ws. sep \<notin> set w \<Longrightarrow> split_on sep (py_join [sep] ws) = ws"
  by (induction ws rule: induct_list012) (auto simp: split_no_sep split_append)

lemma cut_at_sep: "list_all (\<lambda>c. \<not> p c) w \<Longrightarrow> p x \<Longrightarrow> cut_at p (w @ x # s) = (w, x # s)"
  by (induction w) (auto simp: cut_at_def)

lemma cut_at_none: "list_all (\<lambda>c. \<not> p c) w \<Longrightarrow> cut_at p w = (w, [])"
  by (induction w) (auto simp: cut_at_def)

lemma quoted_avoids: "list_all quoted_char w \<Longrightarrow> \<not> quoted_char x \<Longrightarrow> x \<notin> set w"
  by (auto simp: list_all_iff)

lemma parse_encoded_pair:
  "parse_pair (quote_plus k @ CHR ''='' # quote_plus v) = (if v = [] then None else Some (k, v))"
proof -
  have "cut_at (\<lambda>c. c = CHR ''='') (quote_plus k @ CHR ''='' # quote_plus v) =
      (quote_plus k, CHR ''='' # quote_plus v)"
    using quoted_avoids [OF quote_plus_chars separators(2)]
    by (intro cut_at_sep) (auto simp: list_all_iff)
  moreover have "quote_plus v = [] \<longleftrightarrow> v = []"
    by (cases v) (auto simp: quote_plus_def quote_byte_def)
  ultimately show ?thesis by (simp add: parse_pair_def unquote_quote_plus)
qed

lemma parse_urlencode: "parse_qsl (urlencode ps) = filter (\<lambda>p. snd p \<noteq> []) ps"
proof (cases "ps = []")
  case True
  then show ?thesis by (simp add: urlencode_def parse_qsl_def parse_pair_def cut_at_def map_filter_def)
next
  case False
  let ?enc = "\<lambda>(k, v). quote_plus k @ ''='' @ quote_plus v"
  have "CHR ''&'' \<notin> set (?enc p)" for p
    using quoted_avoids [OF quote_plus_chars separators(1)] by (auto split: prod.split)
  then have "split_on CHR ''&'' (urlencode ps) = map ?enc ps"
    using False unfolding urlencode_def by (intro split_join) auto
  moreover have "List.map_filter parse_pair (map ?enc ps) = filter (\<lambda>p. snd p \<noteq> []) ps"
    by (induction ps) (auto simp: map_filter_simps parse_encoded_pair)
  ultimately show ?thesis by (simp add: parse_qsl_def)
qed

lemma urlencode_plain: "CHR ''#'' \<notin> set (urlencode ps)"
proof -
  have "CHR ''#'' \<notin> set (py_join ''&'' ws)" if "\<forall>w \<in> set ws. CHR ''#'' \<notin> set w" for ws
    using that by (induction ws rule: induct_list012) auto
  then show ?thesis
    using quoted_avoids [OF quote_plus_chars separators(4)]
    unfolding urlencode_def by (auto split: prod.split)
qed

section \<open>The URI of a stdio connection opens the process its configuration describes\<close>

text \<open>A command without a slash, or an absolute path: \<open>urlsplit\<close> cuts the host at the first slash.\<close>

definition plain_command :: "string \<Rightarrow> bool" where
  "plain_command c \<longleftrightarrow> c \<noteq> [] \<and> (CHR ''/'' \<notin> set c \<or> hd c = CHR ''/'')"

definition plain_name :: "string \<Rightarrow> bool" where
  "plain_name n \<longleftrightarrow> n \<noteq> [] \<and> CHR '','' \<notin> set n \<and> py_strip n = n"

lemma slash_kept: "url_quote ''/'' (CHR ''/'' # s) = CHR ''/'' # url_quote ''/'' s"
  by (simp add: url_quote_def)

lemma quoted_slash: "CHR ''/'' \<in> set (url_quote ''/'' c) \<Longrightarrow> CHR ''/'' \<in> set c"
proof (induction c)
  case Nil
  then show ?case by (simp add: url_quote_def)
next
  case (Cons x c)
  then show ?case
    using quoted_avoids [OF quote_byte_chars [of x] separators(5)]
    by (auto simp: url_quote_def split: if_splits)
qed

lemma quote_Nil: "url_quote safe c = [] \<longleftrightarrow> c = []"
  by (cases c) (auto simp: url_quote_def quote_byte_def)

lemma quoted_command_chars:
  "CHR ''?'' \<notin> set (url_quote ''/'' c)" "CHR ''#'' \<notin> set (url_quote ''/'' c)"
  using url_quote_chars [of "''/''" c] separators by (auto simp: list_all_iff)

lemma scheme_prefix:
  "urlsplit (''mcp+stdio://'' @ rest) =
     (let (netloc, rest2) = cut_at (\<lambda>c. c \<in> set ''/?#'') rest;
          (before_fragment, frag) = cut_at (\<lambda>c. c = CHR ''#'') rest2;
          (path, q) = cut_at (\<lambda>c. c = CHR ''?'') before_fragment
      in \<lparr>u_scheme = ''mcp+stdio'', u_netloc = netloc, u_path = path,
          u_query = tl_or q, u_fragment = tl_or frag\<rparr>)"
proof -
  have cut: "cut_at (\<lambda>c. c = CHR '':'') (''mcp+stdio://'' @ rest) = (''mcp+stdio'', ''://'' @ rest)"
    by (simp add: cut_at_def)
  have ok: "is_letter (hd ''mcp+stdio'')" "list_all scheme_char ''mcp+stdio''"
    by (simp_all add: is_letter_def scheme_char_def is_digit_def)
  have low: "py_lower ''mcp+stdio'' = ''mcp+stdio''"
    by (simp add: py_lower_def lower_char_def Let_def)
  show ?thesis unfolding urlsplit_def cut Let_def split_conv using ok low by simp
qed

lemma split_stdio_uri:
  assumes "plain_command c" "CHR ''#'' \<notin> set q"
  shows "url_unquote (let u = urlsplit (''mcp+stdio://'' @ url_quote ''/'' c @ ''?'' @ q)
           in if u_netloc u \<noteq> [] then u_netloc u else u_path u) = c"
    and "u_query (urlsplit (''mcp+stdio://'' @ url_quote ''/'' c @ ''?'' @ q)) = q"
proof -
  let ?c = "url_quote ''/'' c"
  have frag: "cut_at (\<lambda>x. x = CHR ''#'') (w @ CHR ''?'' # q) = (w @ CHR ''?'' # q, [])"
    if "CHR ''#'' \<notin> set w" for w
    using that assms(2) by (intro cut_at_none) (auto simp: list_all_iff)
  have path: "cut_at (\<lambda>x. x = CHR ''?'') (w @ CHR ''?'' # q) = (w, CHR ''?'' # q)"
    if "CHR ''?'' \<notin> set w" for w
    using that by (intro cut_at_sep) (auto simp: list_all_iff)
  have undone: "url_unquote ?c = c" by (rule unquote_quote) (simp add: percent_def)
  show "url_unquote (let u = urlsplit (''mcp+stdio://'' @ ?c @ ''?'' @ q)
      in if u_netloc u \<noteq> [] then u_netloc u else u_path u) = c"
    and "u_query (urlsplit (''mcp+stdio://'' @ ?c @ ''?'' @ q)) = q"
  proof -
    consider "CHR ''/'' \<notin> set c" | "hd c = CHR ''/''" "c \<noteq> []"
      using assms(1) by (auto simp: plain_command_def)
    then have "urlsplit (''mcp+stdio://'' @ ?c @ CHR ''?'' # q) =
        (if hd c = CHR ''/'' \<and> c \<noteq> []
         then \<lparr>u_scheme = ''mcp+stdio'', u_netloc = [], u_path = ?c, u_query = q, u_fragment = []\<rparr>
         else \<lparr>u_scheme = ''mcp+stdio'', u_netloc = ?c, u_path = [], u_query = q, u_fragment = []\<rparr>)"
    proof cases
      case 1
      then have "cut_at (\<lambda>x. x \<in> set ''/?#'') (?c @ CHR ''?'' # q) = (?c, CHR ''?'' # q)"
        using quoted_slash quoted_command_chars by (intro cut_at_sep) (auto simp: list_all_iff)
      moreover from 1 have "\<not> (hd c = CHR ''/'' \<and> c \<noteq> [])" by (cases c) auto
      ultimately show ?thesis
        using frag [of "[]"] path [of "[]"]
        unfolding scheme_prefix by (auto simp: tl_or_def)
    next
      case 2
      then obtain d where "?c = CHR ''/'' # d" by (cases c) (simp_all add: slash_kept)
      then have "cut_at (\<lambda>x. x \<in> set ''/?#'') (?c @ CHR ''?'' # q) = ([], ?c @ CHR ''?'' # q)"
        by (simp add: cut_at_def)
      with 2 show ?thesis
        using frag [OF quoted_command_chars(2)] path [OF quoted_command_chars(1)]
        unfolding scheme_prefix by (simp add: tl_or_def)
    qed
    moreover have "?c \<noteq> []" using assms(1) by (simp add: quote_Nil plain_command_def)
    ultimately show "url_unquote (let u = urlsplit (''mcp+stdio://'' @ ?c @ ''?'' @ q)
        in if u_netloc u \<noteq> [] then u_netloc u else u_path u) = c"
      and "u_query (urlsplit (''mcp+stdio://'' @ ?c @ ''?'' @ q)) = q"
      using undone by simp_all
  qed
qed

definition stdio_query :: "string list \<Rightarrow> string option \<Rightarrow> string list \<Rightarrow> (string \<times> string) list" where
  "stdio_query args cwd env_vars =
     map (\<lambda>v. (''arg'', v)) args @
     (case cwd of None \<Rightarrow> [] | Some c \<Rightarrow> if c = [] then [] else [(''cwd'', c)]) @
     (if env_vars \<noteq> [] then [(''env'', py_join '','' env_vars)] else [])"

lemma query_parts:
  assumes "\<forall>a \<in> set args. a \<noteq> []" "\<forall>n \<in> set env_vars. plain_name n"
  shows "qs_get (urlencode (stdio_query args cwd env_vars)) ''arg'' = args"
    and "qs_get (urlencode (stdio_query args cwd env_vars)) ''cwd'' =
       (case cwd of None \<Rightarrow> [] | Some c \<Rightarrow> if c = [] then [] else [c])"
    and "filter (\<lambda>k. k \<noteq> []) (map py_strip
       (split_on CHR '','' (first_or [] (qs_get (urlencode (stdio_query args cwd env_vars)) ''env'')))) = env_vars"
proof -
  have join: "py_join '','' env_vars \<noteq> []" if "env_vars \<noteq> []"
    using that assms(2) by (induction env_vars rule: induct_list012) (auto simp: plain_name_def)
  have args: "filter (\<lambda>p. snd p \<noteq> []) (map (\<lambda>v. (''arg'', v)) args) = map (\<lambda>v. (''arg'', v)) args"
    using assms(1) by (simp add: filter_id_conv)
  have args2: "filter (\<lambda>p. fst p = k) (map (\<lambda>v. (''arg'', v)) args) =
      (if k = ''arg'' then map (\<lambda>v. (''arg'', v)) args else [])" for k
    by (auto simp: filter_empty_conv filter_id_conv)
  have parsed: "parse_qsl (urlencode (stdio_query args cwd env_vars)) = stdio_query args cwd env_vars"
    using join args by (auto simp: parse_urlencode stdio_query_def split: option.split)
  have get: "qs_get (urlencode (stdio_query args cwd env_vars)) k =
      map snd (filter (\<lambda>p. fst p = k) (stdio_query args cwd env_vars))" for k
    by (simp add: qs_get_def parsed case_prod_unfold)
  show "qs_get (urlencode (stdio_query args cwd env_vars)) ''arg'' = args"
    unfolding get by (simp add: stdio_query_def args2 comp_def split: option.split)
  show "qs_get (urlencode (stdio_query args cwd env_vars)) ''cwd'' =
      (case cwd of None \<Rightarrow> [] | Some c \<Rightarrow> if c = [] then [] else [c])"
    unfolding get by (simp add: stdio_query_def args2 split: option.split)
  have "first_or [] (qs_get (urlencode (stdio_query args cwd env_vars)) ''env'') = py_join '','' env_vars"
    unfolding get by (simp add: stdio_query_def args2 first_or_def split: option.split)
  moreover have "map py_strip env_vars = env_vars" "filter (\<lambda>k. k \<noteq> []) env_vars = env_vars"
    using assms(2) by (auto simp: plain_name_def filter_id_conv intro: map_idI)
  moreover have "split_on CHR '','' (py_join '','' env_vars) = env_vars" if "env_vars \<noteq> []"
    using that assms(2) by (intro split_join) (auto simp: plain_name_def)
  moreover have "py_strip [] = []" by (simp add: py_strip_def)
  ultimately show "filter (\<lambda>k. k \<noteq> []) (map py_strip
      (split_on CHR '','' (first_or [] (qs_get (urlencode (stdio_query args cwd env_vars)) ''env'')))) = env_vars"
    by (cases "env_vars = []") simp_all
qed

lemma connection_uri_stdio:
  assumes "m_transport m = ''stdio''" "m_config m = PDict (runtime_config r)"
    "cq_transport r = ''stdio''" "cq_command r = Some c" "c \<noteq> []"
  shows "connection_uri m = ''mcp+stdio://'' @ url_quote ''/'' c @ ''?'' @
     urlencode (stdio_query (cq_args r) (cq_cwd r) (cq_env_vars r))"
proof -
  have args: "map (\<lambda>v. (''arg'', py_str v)) (as_list (py_or (PList (map PStr xs)) (PList []))) =
      map (\<lambda>v. (''arg'', v)) xs" for xs
    by (cases xs) (simp_all add: py_or_def)
  have names: "map py_str (as_list (py_or (PList (map PStr xs)) (PList []))) = xs" for xs
    by (induction xs) (simp_all add: py_or_def comp_def)
  show ?thesis
    using assms by (cases "cq_cwd r")
      (simp_all add: connection_uri_def runtime_config_def stdio_query_def text_or_empty_def
        args names Let_def, simp_all add: py_or_def)
qed

text \<open>
  C38: A stdio connection that a tool carries only as the URI the control plane derived
  (\<open>runner_tool_id\<close>) is launched exactly as the stored configuration says: for every command without
  a slash or with an absolute path, arguments that are neither blank nor contain a percent sign, any
  working directory and names of environment variables, parsing the URI in the runtime yields the
  command, arguments, directory and environment of the structured connection.
\<close>

theorem uri_opens_same_process:
  assumes "m_transport m = ''stdio''" "m_config m = PDict (runtime_config r)"
    and "cq_transport r = ''stdio''" "cq_command r = Some c" "plain_command c"
    and "\<forall>a \<in> set (cq_args r). a \<noteq> [] \<and> percent \<notin> set a"
    and "\<forall>n \<in> set (cq_env_vars r). plain_name n"
  shows "parse_stdio_parts environ (connection_uri m) = structured_stdio environ (runtime_config r)"
proof -
  let ?q = "urlencode (stdio_query (cq_args r) (cq_cwd r) (cq_env_vars r))"
  have nonblank: "\<forall>a \<in> set (cq_args r). a \<noteq> []" using assms(6) by simp
  have c: "c \<noteq> []" using assms(5) by (simp add: plain_command_def)
  have uri: "connection_uri m = ''mcp+stdio://'' @ url_quote ''/'' c @ ''?'' @ ?q"
    by (rule connection_uri_stdio) (use assms c in simp_all)
  note parts = split_stdio_uri [OF assms(5) urlencode_plain [of "stdio_query (cq_args r) (cq_cwd r) (cq_env_vars r)"],
      folded uri, unfolded Let_def]
  note q = query_parts [OF _ assms(7), of "cq_args r" "cq_cwd r", OF nonblank]
  have dirs: "(case case d of None \<Rightarrow> [] | Some c \<Rightarrow> if c = [] then [] else [c] of [] \<Rightarrow> None | x # xs \<Rightarrow> Some x) =
      (case d of None \<Rightarrow> None | Some c \<Rightarrow> if c = [] then None else Some c)" for d :: "string option"
    by (simp split: option.split)
  have args: "map url_unquote (cq_args r) = cq_args r"
    using assms(6) by (intro map_idI) (auto simp: unquote_plain)
  have lists: "as_list (py_or (PList (map PStr xs)) (PList [])) = map PStr xs" for xs
    by (cases xs) (simp_all add: py_or_def)
  have strs: "map py_str (map PStr xs) = xs" for xs by (induction xs) simp_all
  have "parse_stdio_parts environ (connection_uri m) =
      Inr \<lparr>st_command = c, st_args = cq_args r,
           st_cwd = (case cq_cwd r of None \<Rightarrow> None | Some d \<Rightarrow> if d = [] then None else Some d),
           st_env = env_of environ (cq_env_vars r)\<rparr>"
    by (simp only: parse_stdio_parts_def Let_def parts c if_False q args dirs)
  moreover have "structured_stdio environ (runtime_config r) =
      Inr \<lparr>st_command = c, st_args = cq_args r,
           st_cwd = (case cq_cwd r of None \<Rightarrow> None | Some d \<Rightarrow> if d = [] then None else Some d),
           st_env = env_of environ (cq_env_vars r)\<rparr>"
    using assms(3,4) c
    by (simp add: structured_stdio_def runtime_config_def lists strs text_or_empty_def py_or_def Let_def
        split: option.split del: map_map)
  ultimately show ?thesis by simp
qed

definition sample_stdio :: "string \<Rightarrow> string list \<Rightarrow> connection_request" where
  "sample_stdio command args =
     \<lparr>cq_name = ''files'', cq_status = ''active'', cq_transport = ''stdio'', cq_url = None,
      cq_command = Some command, cq_args = args, cq_cwd = Some ''/srv'', cq_env_vars = [''HOME'', ''PATH''],
      cq_bearer_env = None, cq_headers = [], cq_connect_timeout_ms = 10000,
      cq_call_timeout_ms = 30000, cq_idle_ttl_seconds = 900, cq_discovery_ttl_seconds = 300\<rparr>"

definition stored_connection :: "connection_request \<Rightarrow> connection_row" where
  "stored_connection r =
     \<lparr>m_id = ''c1'', m_name = cq_name r, m_status = cq_status r, m_transport = cq_transport r,
      m_config = PDict (runtime_config r), m_config_version = 1, m_config_hash = ''h''\<rparr>"

lemma uri_opens_same_process_witness:
  "parse_stdio_parts (\<lambda>n. if n = ''HOME'' then Some ''/root'' else None)
     (connection_uri (stored_connection (sample_stdio ''/usr/bin/node'' [''a b'', ''x=1&y'']))) =
   structured_stdio (\<lambda>n. if n = ''HOME'' then Some ''/root'' else None)
     (runtime_config (sample_stdio ''/usr/bin/node'' [''a b'', ''x=1&y'']))"
  by (rule uri_opens_same_process [where c = "''/usr/bin/node''"])
    (simp_all add: stored_connection_def sample_stdio_def plain_command_def plain_name_def percent_def
      py_strip_def is_space_def)

text \<open>
  Outside those conditions the two ways differ: a relative path keeps only the part before its
  first slash, an argument is decoded twice, and a blank argument is dropped.
\<close>

lemma uri_changes_process:
  "map_sum id st_command (parse_stdio_parts Map.empty (connection_uri (stored_connection (sample_stdio ''bin/server'' [])))) =
     Inr ''bin''"
  "map_sum id st_args (parse_stdio_parts Map.empty (connection_uri (stored_connection (sample_stdio ''node'' [''a%2Fb'', []])))) =
     Inr [''a/b'']"
  "map_sum id st_args (structured_stdio Map.empty (runtime_config (sample_stdio ''node'' [''a%2Fb'', []]))) =
     Inr [''a%2Fb'', []]"
  by code_simp+

end
