(* ===== verification/Cp_Catalog.thy ===== *)
theory Cp_Catalog
  imports Cp_Identity Mcp_Uri
begin

text \<open>
  The catalogue of the control plane: tools, MCP connections and workflow versions. First the
  functions of \<open>db.py\<close> on those tables, then the definitions a request builds
  (\<open>workflow_capabilities.py\<close>, \<open>api.py\<close>) and the routes. A workflow is published as a version
  with an immutable manifest; at most one version is active and the tool row carries its manifest.
\<close>

section \<open>Manifests and their digests\<close>

definition connection_dump :: "connection_row \<Rightarrow> pydict" where
  "connection_dump m =
     [(''connection_id'', PStr (m_id m)), (''name'', PStr (m_name m)), (''status'', PStr (m_status m)),
      (''transport'', PStr (m_transport m)), (''config'', m_config m),
      (''config_version'', PInt (m_config_version m)), (''config_hash'', PStr (m_config_hash m))]"

definition connection_snapshot :: "connection_row option \<Rightarrow> pyval" where
  "connection_snapshot m = (case m of None \<Rightarrow> PNone | Some c \<Rightarrow> PDict (connection_dump c))"

definition descriptions_val :: "(string \<times> string) list \<Rightarrow> pyval" where
  "descriptions_val ds = PDict (map (\<lambda>(k, v). (k, PStr v)) ds)"

text \<open>\<open>tool.model_dump(exclude={"manifest_hash"})\<close>.\<close>

definition tool_dump :: "tool_def \<Rightarrow> pydict" where
  "tool_dump t =
     [(''tool_id'', PStr (td_tool_id t)), (''name'', PStr (td_name t)),
      (''description'', PStr (td_description t)), (''status'', PStr (td_status t)),
      (''source'', PStr (td_source t)), (''runner_tool_id'', opt_val (td_runner_tool_id t)),
      (''runner_name'', opt_val (td_runner_name t)),
      (''mcp_connection_id'', opt_val (td_mcp_connection_id t)),
      (''mcp_connection'', connection_snapshot (td_mcp_connection t)),
      (''version'', PStr (td_version t)), (''read_only'', PBool (td_read_only t)),
      (''idempotent'', PBool (td_idempotent t)), (''parallel_safe'', PBool (td_parallel_safe t)),
      (''requires_approval'', PBool (td_requires_approval t)),
      (''side_effect_level'', PStr (td_side_effect_level t)),
      (''data_sensitivity'', PStr (td_data_sensitivity t)),
      (''network_access'', PStr (td_network_access t)), (''layer'', PStr (td_layer t)),
      (''category'', PStr (td_category t)), (''namespace'', PStr (td_namespace t)),
      (''group_id'', PStr (td_group_id t)), (''group_name'', PStr (td_group_name t)),
      (''timeout_ms'', PInt (td_timeout_ms t)), (''input_schema'', PDict (td_input_schema t)),
      (''scope_schema'', scope_val (td_scope_schema t)),
      (''scope_descriptions'', descriptions_val (td_scope_descriptions t))]"

definition compute_tool_manifest_hash :: "cp_env \<Rightarrow> tool_def \<Rightarrow> string" where
  "compute_tool_manifest_hash v t = ''sha256:'' @ cv_sha256 v (cv_dumps v (PDict (tool_dump t)))"

definition compute_mcp_connection_hash :: "cp_env \<Rightarrow> string \<Rightarrow> pydict \<Rightarrow> string" where
  "compute_mcp_connection_hash v transport config =
     ''sha256:'' @ cv_sha256 v (cv_dumps v
        (PDict [(''transport'', PStr transport), (''config'', PDict config)]))"

section \<open>Connections (\<open>db.py\<close>)\<close>

definition fetch_mcp_connection :: "cp_db \<Rightarrow> string \<Rightarrow> connection_row option" where
  "fetch_mcp_connection db cid = find (\<lambda>m. m_id m = cid) (d_connections db)"

definition fetch_mcp_connections :: "cp_db \<Rightarrow> connection_row list" where
  "fetch_mcp_connections db = sort_key m_name (sort_key m_id (d_connections db))"

definition upsert_mcp_connection ::
  "cp_env \<Rightarrow> string \<Rightarrow> connection_request \<Rightarrow> (cp_db, connection_row) action" where
  "upsert_mcp_connection v cid r db =
     (let config = runtime_config r;
          config_hash = compute_mcp_connection_hash v (cq_transport r) config;
          new = \<lparr>m_id = cid, m_name = cq_name r, m_status = cq_status r,
                 m_transport = cq_transport r, m_config = PDict config, m_config_version = 1,
                 m_config_hash = config_hash\<rparr>;
          rows = put_row (\<lambda>m. m_id m = cid) new
                   (\<lambda>m. m\<lparr>m_name := cq_name r, m_status := cq_status r, m_transport := cq_transport r,
                          m_config := PDict config,
                          m_config_version := (if m_config_hash m = config_hash then m_config_version m
                                               else m_config_version m + 1),
                          m_config_hash := config_hash\<rparr>) (d_connections db)
      in (Inr (the (find (\<lambda>m. m_id m = cid) rows)), db\<lparr>d_connections := rows\<rparr>))"

section \<open>Tools (\<open>db.py\<close>)\<close>

text \<open>The row \<open>_upsert_tool\<close> writes: the manifest hash filled in, no connection object.\<close>

definition tool_row_of :: "cp_env \<Rightarrow> tool_def \<Rightarrow> tool_def" where
  "tool_row_of v t =
     t\<lparr>td_mcp_connection := None,
       td_manifest_hash := (if td_manifest_hash t \<noteq> [] then td_manifest_hash t
                            else compute_tool_manifest_hash v t)\<rparr>"

definition connection_known :: "cp_db \<Rightarrow> string option \<Rightarrow> bool" where
  "connection_known db cid \<longleftrightarrow>
     (case cid of None \<Rightarrow> True | Some c \<Rightarrow> list_ex (\<lambda>m. m_id m = c) (d_connections db))"

definition put_tool :: "cp_env \<Rightarrow> tool_def \<Rightarrow> bool \<Rightarrow> cp_db \<Rightarrow> cp_error + cp_db" where
  "put_tool v t preserve_status db =
     (if \<not> connection_known db (td_mcp_connection_id t) then Inl (DbError ''tools_mcp_connection_id_fkey'')
      else Inr (db\<lparr>d_tools := put_row (\<lambda>row. td_tool_id row = td_tool_id t) (tool_row_of v t)
             (\<lambda>row. if preserve_status then (tool_row_of v t)\<lparr>td_status := td_status row\<rparr>
                    else tool_row_of v t) (d_tools db)\<rparr>))"

definition upsert_tool :: "cp_env \<Rightarrow> tool_def \<Rightarrow> (cp_db, unit) action" where
  "upsert_tool v t = transaction (put_tool v t False)"

definition tool_ids_exist :: "cp_db \<Rightarrow> string list \<Rightarrow> bool" where
  "tool_ids_exist db ids \<longleftrightarrow> list_all (tool_exists db) ids"

definition hydrate_tool_connections :: "cp_db \<Rightarrow> bool \<Rightarrow> tool_def list \<Rightarrow> tool_def list" where
  "hydrate_tool_connections db require_active tools =
     List.map_filter (\<lambda>t.
       if \<not> opt_truthy (td_mcp_connection_id t) then Some t
       else case fetch_mcp_connection db (the (td_mcp_connection_id t)) of
              None \<Rightarrow> None
            | Some m \<Rightarrow>
                if require_active \<and> m_status m \<noteq> ''active'' then None
                else Some (t\<lparr>td_runner_tool_id := Some (connection_uri m), td_mcp_connection := Some m\<rparr>))
       tools"

text \<open>\<open>ORDER BY layer, group_id, category, id\<close>.\<close>

definition fetch_tools :: "cp_db \<Rightarrow> tool_def list" where
  "fetch_tools db = hydrate_tool_connections db False
     (sort_key td_layer (sort_key td_group_id (sort_key td_category (sort_key td_tool_id (d_tools db)))))"

definition fetch_tools_by_ids :: "cp_db \<Rightarrow> string list \<Rightarrow> (string \<times> tool_def) list" where
  "fetch_tools_by_ids db ids =
     map (\<lambda>t. (td_tool_id t, t))
       (hydrate_tool_connections db True
          (filter (\<lambda>t. td_tool_id t \<in> set ids \<and> td_status t = ''active'') (d_tools db)))"

definition fetch_tool_scope_schemas :: "cp_db \<Rightarrow> string list \<Rightarrow> (string \<times> scope) list" where
  "fetch_tool_scope_schemas db ids = map (\<lambda>(i, t). (i, td_scope_schema t)) (fetch_tools_by_ids db ids)"

definition cp_active_tool_ids :: "cp_db \<Rightarrow> string list \<Rightarrow> string list" where
  "cp_active_tool_ids db ids =
     map td_tool_id (filter (\<lambda>t. td_tool_id t \<in> set ids \<and> td_status t = ''active'' \<and>
        (case td_mcp_connection_id t of
           None \<Rightarrow> True
         | Some cid \<Rightarrow> list_ex (\<lambda>m. m_id m = cid \<and> m_status m = ''active'') (d_connections db)))
       (d_tools db))"

definition update_tool_status :: "string \<Rightarrow> string \<Rightarrow> (cp_db, bool) action" where
  "update_tool_status t status db =
     (if status \<notin> set user_statuses then (Inl (CpValueError ''status must be active or disabled''), db)
      else (Inr (length (filter (\<lambda>row. td_tool_id row = t) (d_tools db)) = 1),
            db\<lparr>d_tools := update_rows (\<lambda>row. td_tool_id row = t) (\<lambda>row. row\<lparr>td_status := status\<rparr>)
                 (d_tools db)\<rparr>))"

text \<open>The result is the sorted ids of the tools the statement disabled.\<close>

definition replace_discovered_mcp_tools ::
  "cp_env \<Rightarrow> string \<Rightarrow> tool_def list \<Rightarrow> (cp_db, string list) action" where
  "replace_discovered_mcp_tools v cid tools db =
     (if list_ex (\<lambda>t. td_source t \<noteq> ''mcp'' \<or> td_mcp_connection_id t \<noteq> Some cid) tools
      then (Inl (CpValueError ''discovered tools do not belong to the connection''), db)
      else case foldl (\<lambda>acc t. case acc of Inl e \<Rightarrow> Inl e | Inr d \<Rightarrow> put_tool v t True d) (Inr db) tools of
             Inl e \<Rightarrow> (Inl e, db)
           | Inr db1 \<Rightarrow>
               (let gone = (\<lambda>row. td_source row = ''mcp'' \<and> td_mcp_connection_id row = Some cid \<and>
                                  td_tool_id row \<notin> set (map td_tool_id tools) \<and> td_status row \<noteq> ''disabled'')
                in (Inr (sort (map td_tool_id (filter gone (d_tools db1)))),
                    db1\<lparr>d_tools := update_rows gone (\<lambda>row. row\<lparr>td_status := ''disabled''\<rparr>) (d_tools db1)\<rparr>)))"

section \<open>Workflow versions (\<open>db.py\<close>)\<close>

record version_summary =
  ws_workflow_id :: string
  ws_version :: string
  ws_lifecycle_status :: string
  ws_manifest_hash :: string
  ws_created_by :: string
  ws_created_at :: int
  ws_activated_by :: string
  ws_activated_at :: int
  ws_retired_by :: "string option"
  ws_retired_at :: "int option"

definition row_to_workflow_version_summary :: "workflow_row \<Rightarrow> version_summary" where
  "row_to_workflow_version_summary r =
     \<lparr>ws_workflow_id = wv_workflow_id r, ws_version = wv_version r,
      ws_lifecycle_status = wv_lifecycle_status r, ws_manifest_hash = wv_manifest_hash r,
      ws_created_by = wv_created_by r, ws_created_at = wv_created_at r,
      ws_activated_by = wv_activated_by r, ws_activated_at = wv_activated_at r,
      ws_retired_by = wv_retired_by r, ws_retired_at = wv_retired_at r\<rparr>"

definition is_version :: "string \<Rightarrow> string \<Rightarrow> workflow_row \<Rightarrow> bool" where
  "is_version w n r \<longleftrightarrow> wv_workflow_id r = w \<and> wv_version r = n"

definition find_version :: "cp_db \<Rightarrow> string \<Rightarrow> string \<Rightarrow> workflow_row option" where
  "find_version db w n = find (is_version w n) (d_workflows db)"

definition retire_other_versions ::
  "cp_env \<Rightarrow> string \<Rightarrow> string \<Rightarrow> string \<Rightarrow> workflow_row list \<Rightarrow> workflow_row list" where
  "retire_other_versions v actor w n =
     update_rows (\<lambda>r. wv_workflow_id r = w \<and> wv_lifecycle_status r = ''active'' \<and> wv_version r \<noteq> n)
       (\<lambda>r. r\<lparr>wv_lifecycle_status := ''retired'', wv_retired_by := Some actor,
             wv_retired_at := Some (cv_now v)\<rparr>)"

definition activate_version ::
  "cp_env \<Rightarrow> string \<Rightarrow> tool_def \<Rightarrow> workflow_row option \<Rightarrow> workflow_row list \<Rightarrow> workflow_row list" where
  "activate_version v actor t existing rows =
     (case existing of
        None \<Rightarrow> rows @ [\<lparr>wv_workflow_id = td_tool_id t, wv_version = td_version t,
                        wv_lifecycle_status = ''active'', wv_manifest = t,
                        wv_manifest_hash = td_manifest_hash t, wv_created_by = actor,
                        wv_created_at = cv_now v, wv_activated_by = actor,
                        wv_activated_at = cv_now v, wv_retired_by = None, wv_retired_at = None\<rparr>]
      | Some r0 \<Rightarrow> update_rows (is_version (td_tool_id t) (td_version t))
                    (\<lambda>r. r\<lparr>wv_lifecycle_status := ''active'', wv_activated_by := actor,
                          wv_activated_at := cv_now v, wv_retired_by := None,
                          wv_retired_at := None\<rparr>) rows)"

text \<open>
  One transaction, serialized per workflow by an advisory lock. The summary returned is that of
  the row the last statement reads back.
\<close>

definition publish_workflow_version ::
  "cp_env \<Rightarrow> tool_def \<Rightarrow> string \<Rightarrow> (cp_db, version_summary) action" where
  "publish_workflow_version v tool actor db =
     (if td_source tool \<noteq> ''workflow''
      then (Inl (CpValueError ''only workflow tools have versions''), db)
      else let hash = (if td_manifest_hash tool \<noteq> [] then td_manifest_hash tool
                       else compute_tool_manifest_hash v tool);
               immutable = tool\<lparr>td_manifest_hash := hash\<rparr>;
               existing = find_version db (td_tool_id tool) (td_version tool)
           in if existing \<noteq> None \<and> wv_manifest_hash (the existing) \<noteq> hash
              then (Inl (CpValueError (td_tool_id tool @ ''@'' @ td_version tool @
                      '' is published and its content is immutable'')), db)
              else let rows = activate_version v actor immutable existing
                               (retire_other_versions v actor (td_tool_id tool) (td_version tool) (d_workflows db))
                   in case put_tool v immutable False (db\<lparr>d_workflows := rows\<rparr>) of
                        Inl e \<Rightarrow> (Inl e, db)
                      | Inr db1 \<Rightarrow>
                          (Inr (row_to_workflow_version_summary
                                  (the (find_version db1 (td_tool_id tool) (td_version tool)))), db1))"

text \<open>\<open>ORDER BY created_at DESC, version DESC\<close>.\<close>

definition fetch_workflow_versions :: "cp_db \<Rightarrow> string \<Rightarrow> version_summary list" where
  "fetch_workflow_versions db w =
     map row_to_workflow_version_summary
       (sort_key (\<lambda>r. - wv_created_at r)
          (rev (sort_key wv_version (filter (\<lambda>r. wv_workflow_id r = w) (d_workflows db)))))"

definition retire_version_row :: "cp_env \<Rightarrow> string \<Rightarrow> workflow_row \<Rightarrow> workflow_row" where
  "retire_version_row v actor r =
     r\<lparr>wv_lifecycle_status := ''retired'',
       wv_retired_by := (case wv_retired_by r of None \<Rightarrow> Some actor | Some a \<Rightarrow> Some a),
       wv_retired_at := (case wv_retired_at r of None \<Rightarrow> Some (cv_now v) | Some a \<Rightarrow> Some a)\<rparr>"

definition retire_workflow_version ::
  "cp_env \<Rightarrow> string \<Rightarrow> string \<Rightarrow> string \<Rightarrow> (cp_db, version_summary option) action" where
  "retire_workflow_version v w n actor db =
     (case find_version db w n of
        None \<Rightarrow> (Inr None, db)
      | Some r \<Rightarrow>
          (let db1 = db\<lparr>d_workflows := update_rows (is_version w n) (retire_version_row v actor) (d_workflows db)\<rparr>;
               db2 = (if wv_lifecycle_status r = ''active''
                      then db1\<lparr>d_tools := update_rows
                             (\<lambda>t. td_tool_id t = w \<and> td_source t = ''workflow'' \<and> td_version t = n)
                             (\<lambda>t. t\<lparr>td_status := ''disabled''\<rparr>) (d_tools db1)\<rparr>
                      else db1)
           in (Inr (map_option row_to_workflow_version_summary (find_version db2 w n)), db2)))"

section \<open>Definitions a request builds\<close>

record tool_request =
  tq_name :: string
  tq_description :: string
  tq_status :: string
  tq_source :: string
  tq_runner_tool_id :: "string option"
  tq_runner_name :: "string option"
  tq_mcp_connection_id :: "string option"
  tq_version :: string
  tq_read_only :: bool
  tq_idempotent :: bool
  tq_parallel_safe :: bool
  tq_requires_approval :: bool
  tq_side_effect_level :: string
  tq_data_sensitivity :: string
  tq_network_access :: string
  tq_layer :: string
  tq_category :: string
  tq_namespace :: string
  tq_group_id :: string
  tq_group_name :: string
  tq_timeout_ms :: int
  tq_input_schema :: pydict
  tq_scope_schema :: scope
  tq_scope_descriptions :: "(string \<times> string) list"
  tq_manifest_hash :: "string option"

record workflow_request =
  wq_name :: string
  wq_description :: string
  wq_status :: string
  wq_mcp_connection_id :: string
  wq_runner_name :: string
  wq_version :: string
  wq_requires_approval :: bool
  wq_side_effect_level :: string
  wq_data_sensitivity :: string
  wq_timeout_ms :: int
  wq_input_schema :: pydict
  wq_scope_schema :: scope
  wq_scope_descriptions :: "(string \<times> string) list"

text \<open>\<open>workflow_capabilities.build_workflow_capability\<close>.\<close>

definition build_workflow_capability :: "string \<Rightarrow> workflow_request \<Rightarrow> connection_row \<Rightarrow> tool_def" where
  "build_workflow_capability w r m =
     \<lparr>td_tool_id = w, td_name = wq_name r, td_description = wq_description r,
      td_status = wq_status r, td_source = ''workflow'',
      td_runner_tool_id = Some (connection_uri m), td_runner_name = Some (wq_runner_name r),
      td_mcp_connection_id = Some (wq_mcp_connection_id r), td_mcp_connection = Some m,
      td_version = wq_version r, td_read_only = False, td_idempotent = False,
      td_parallel_safe = False, td_requires_approval = wq_requires_approval r,
      td_side_effect_level = wq_side_effect_level r, td_data_sensitivity = wq_data_sensitivity r,
      td_network_access = ''internal_only'', td_layer = ''workflow'', td_category = ''workflow'',
      td_namespace = ''workflow'', td_group_id = ''workflow.registered'',
      td_group_name = ''Registered Workflows'', td_timeout_ms = wq_timeout_ms r,
      td_input_schema = wq_input_schema r, td_scope_schema = wq_scope_schema r,
      td_scope_descriptions = wq_scope_descriptions r, td_manifest_hash = []\<rparr>"

definition workflow_definition_from_request ::
  "cp_db \<Rightarrow> string \<Rightarrow> workflow_request \<Rightarrow> tool_def cp" where
  "workflow_definition_from_request db w r =
     (case fetch_mcp_connection db (wq_mcp_connection_id r) of
        None \<Rightarrow> Inl (HTTPException 422 ''MCP connection does not exist'')
      | Some m \<Rightarrow> Inr (build_workflow_capability w r m))"

definition tool_from_request :: "string \<Rightarrow> tool_request \<Rightarrow> connection_row option \<Rightarrow> tool_def" where
  "tool_from_request t r m =
     \<lparr>td_tool_id = t, td_name = tq_name r, td_description = tq_description r,
      td_status = tq_status r, td_source = tq_source r,
      td_runner_tool_id = (case m of None \<Rightarrow> tq_runner_tool_id r | Some c \<Rightarrow> Some (connection_uri c)),
      td_runner_name = tq_runner_name r, td_mcp_connection_id = tq_mcp_connection_id r,
      td_mcp_connection = m, td_version = tq_version r, td_read_only = tq_read_only r,
      td_idempotent = tq_idempotent r, td_parallel_safe = tq_parallel_safe r,
      td_requires_approval = tq_requires_approval r, td_side_effect_level = tq_side_effect_level r,
      td_data_sensitivity = tq_data_sensitivity r, td_network_access = tq_network_access r,
      td_layer = tq_layer r, td_category = tq_category r, td_namespace = tq_namespace r,
      td_group_id = tq_group_id r, td_group_name = tq_group_name r, td_timeout_ms = tq_timeout_ms r,
      td_input_schema = tq_input_schema r, td_scope_schema = tq_scope_schema r,
      td_scope_descriptions = tq_scope_descriptions r,
      td_manifest_hash = opt_or (tq_manifest_hash r) []\<rparr>"

definition tool_definition_from_request :: "cp_db \<Rightarrow> string \<Rightarrow> tool_request \<Rightarrow> tool_def cp" where
  "tool_definition_from_request db t r =
     (if opt_truthy (tq_mcp_connection_id r)
      then if tq_source r \<notin> set [''mcp'', ''workflow'']
           then Inl (HTTPException 422 ''only MCP and workflow tools have a connection'')
           else (case fetch_mcp_connection db (the (tq_mcp_connection_id r)) of
                   None \<Rightarrow> Inl (HTTPException 422 ''MCP connection does not exist'')
                 | Some m \<Rightarrow> Inr (tool_from_request t r (Some m)))
      else Inr (tool_from_request t r None))"

text \<open>\<open>runtime_tool_manifest\<close>: the dictionary a release or a draft run carries for a tool.\<close>

definition runtime_tool_manifest :: "tool_def \<Rightarrow> pyval \<Rightarrow> pydict" where
  "runtime_tool_manifest t s =
     [(''tool_id'', PStr (td_tool_id t)), (''runner_tool_id'', opt_val (td_runner_tool_id t)),
      (''runner_name'', opt_val (td_runner_name t)),
      (''mcp_connection_id'', opt_val (td_mcp_connection_id t)),
      (''mcp_connection'', connection_snapshot (td_mcp_connection t)),
      (''name'', PStr (td_name t)), (''description'', PStr (td_description t)),
      (''source'', PStr (td_source t)), (''version'', PStr (td_version t)),
      (''read_only'', PBool (td_read_only t)), (''idempotent'', PBool (td_idempotent t)),
      (''parallel_safe'', PBool (td_parallel_safe t)),
      (''requires_approval'', PBool (td_requires_approval t)),
      (''side_effect_level'', PStr (td_side_effect_level t)),
      (''data_sensitivity'', PStr (td_data_sensitivity t)),
      (''network_access'', PStr (td_network_access t)), (''layer'', PStr (td_layer t)),
      (''category'', PStr (td_category t)), (''namespace'', PStr (td_namespace t)),
      (''group_id'', PStr (td_group_id t)), (''group_name'', PStr (td_group_name t)),
      (''timeout_ms'', PInt (td_timeout_ms t)), (''input_schema'', PDict (td_input_schema t)),
      (''scope_schema'', scope_val (td_scope_schema t)),
      (''scope_descriptions'', descriptions_val (td_scope_descriptions t)),
      (''scope'', s), (''manifest_hash'', PStr (td_manifest_hash t))]"

section \<open>Routes\<close>

text \<open>\<open>[a-zA-Z0-9][a-zA-Z0-9._-]{0,99}\<close>.\<close>

definition identifier_ok :: "string \<Rightarrow> bool" where
  "identifier_ok s \<longleftrightarrow>
     s \<noteq> [] \<and> length s \<le> 100 \<and> (is_letter (hd s) \<or> is_digit (hd s)) \<and>
     list_all (\<lambda>c. is_letter c \<or> is_digit c \<or> c \<in> set ''._-'') (tl s)"

definition list_mcp_connections_route ::
  "cp_world \<Rightarrow> string option \<Rightarrow> (cp_db, connection_row list) action" where
  "list_mcp_connections_route w authorization = rethrow db_failure
     (andthen (require_current_platform_admin w authorization) (query fetch_mcp_connections))"

definition set_mcp_connection_route ::
  "cp_world \<Rightarrow> string option \<Rightarrow> string \<Rightarrow> connection_request \<Rightarrow> (cp_db, connection_row) action" where
  "set_mcp_connection_route w authorization cid r =
     andthen (require (identifier_ok cid) (HTTPException 422 ''MCP connection_id invalid''))
       (rethrow db_failure
          (andthen (require_current_platform_admin w authorization)
             (upsert_mcp_connection (cw_env w) cid r)))"

definition list_tools_route :: "(cp_db, tool_def list) action" where
  "list_tools_route = query fetch_tools"

definition set_tool_route :: "cp_world \<Rightarrow> string \<Rightarrow> tool_request \<Rightarrow> (cp_db, tool_def) action" where
  "set_tool_route w t r = rethrow db_failure
     (chain (query_cp (\<lambda>db. tool_definition_from_request db t r)) (\<lambda>tool.
        andthen (upsert_tool (cw_env w) tool)
          (give (tool\<lparr>td_manifest_hash := (if td_manifest_hash tool \<noteq> [] then td_manifest_hash tool
             else compute_tool_manifest_hash (cw_env w) tool)\<rparr>))))"

definition set_workflow_route ::
  "cp_world \<Rightarrow> string option \<Rightarrow> string \<Rightarrow> workflow_request \<Rightarrow> (cp_db, tool_def) action" where
  "set_workflow_route w authorization wid r =
     andthen (require (identifier_ok wid) (HTTPException 422 ''workflow_id invalid''))
       (rethrow (value_failure 409)
          (chain (require_current_platform_admin w authorization) (\<lambda>actor.
             chain (query_cp (\<lambda>db. workflow_definition_from_request db wid r)) (\<lambda>workflow.
               chain (publish_workflow_version (cw_env w) workflow actor) (\<lambda>version.
                 give (workflow\<lparr>td_manifest_hash := ws_manifest_hash version\<rparr>))))))"

definition list_workflow_versions_route ::
  "cp_world \<Rightarrow> string option \<Rightarrow> string \<Rightarrow> (cp_db, version_summary list) action" where
  "list_workflow_versions_route w authorization wid = rethrow db_failure
     (andthen (require_current_platform_admin w authorization)
        (query (\<lambda>db. fetch_workflow_versions db wid)))"

definition retire_workflow_route ::
  "cp_world \<Rightarrow> string option \<Rightarrow> string \<Rightarrow> string \<Rightarrow> (cp_db, version_summary) action" where
  "retire_workflow_route w authorization wid version = rethrow db_failure
     (chain (require_current_platform_admin w authorization) (\<lambda>actor.
        chain (retire_workflow_version (cw_env w) wid version actor) (\<lambda>retired.
          case retired of
            None \<Rightarrow> raise (HTTPException 404 ''workflow version does not exist'')
          | Some s \<Rightarrow> give s)))"

text \<open>The route also publishes an invalidation event after the update. It is best effort, changes no
  table, and is not modelled.\<close>

definition set_tool_status_route ::
  "cp_world \<Rightarrow> string option \<Rightarrow> string \<Rightarrow> string \<Rightarrow> string \<Rightarrow> (cp_db, tool_def) action" where
  "set_tool_status_route w authorization t claimed status = rethrow (value_failure 422)
     (chain (require_current_platform_admin w authorization) (\<lambda>actor.
        andthen (require (claimed = actor) (HTTPException 403 ''actor is not the logged-in user''))
          (chain (update_tool_status t status) (\<lambda>found.
             andthen (require found (HTTPException 404 ''tool does not exist''))
               (chain (query (\<lambda>db. filter (\<lambda>tool. td_tool_id tool = t) (fetch_tools db))) (\<lambda>tools.
                  case tools of
                    [] \<Rightarrow> raise (HTTPException 404 ''tool does not exist'')
                  | tool # _ \<Rightarrow> give tool))))))"

end
