(* ===== verification/Cp_Roles.thy ===== *)
theory Cp_Roles
  imports Cp_Catalog
begin

text \<open>
  Users, roles and memory policies: the routes of \<open>api.py\<close> that administer who may do what, with the
  seeded roles and local tools (\<open>tools.py\<close>). Role names and descriptions are English glosses.
\<close>

section \<open>Role requests\<close>

record role_request =
  rq_actor_id :: string
  rq_role_id :: string
  rq_name :: string
  rq_description :: string
  rq_status :: string
  rq_permissions :: "(string \<times> scope) list"

record role_summary =
  rs_role_id :: string
  rs_name :: string
  rs_description :: string
  rs_status :: string
  rs_is_system :: bool
  rs_permissions :: "(string \<times> scope) list"

record user_summary =
  us_user_id :: string
  us_status :: string
  us_roles :: "string list"

text \<open>The permissions a role request asks for, each within the schema its tool declares.\<close>

definition normalize_role_permissions :: "cp_db \<Rightarrow> role_request \<Rightarrow> (string \<times> scope) list cp" where
  "normalize_role_permissions db r =
     (case authz_merge_tool_scopes (map (\<lambda>(t, s). (t, scope_val s)) (rq_permissions r)) of
        Inl e \<Rightarrow> Inl e
      | Inr permissions \<Rightarrow>
          (let schemas = fetch_tool_scope_schemas db (map fst permissions)
           in case traverse (\<lambda>(t, s). validate_tool_scope t (scope_val s) (map_of schemas t)) permissions of
                Inl e \<Rightarrow> Inl e
              | Inr _ \<Rightarrow> Inr permissions))"

definition fetch_roles :: "cp_db \<Rightarrow> role_summary list" where
  "fetch_roles db =
     map (\<lambda>row. \<lparr>rs_role_id = ro_id row, rs_name = ro_name row, rs_description = ro_description row,
                 rs_status = ro_status row, rs_is_system = ro_is_system row,
                 rs_permissions = map (\<lambda>(r, t, s). (t, normalized_scope s))
                   (filter (\<lambda>(r, t, s). r = ro_id row) (d_permissions db))\<rparr>)
       (sort_key ro_id (d_roles db))"

definition fetch_users_with_roles :: "cp_db \<Rightarrow> user_summary list" where
  "fetch_users_with_roles db =
     map (\<lambda>(u, status). \<lparr>us_user_id = u, us_status = status, us_roles = sort (get_user_roles db u)\<rparr>)
       (sort_key fst (d_users db))"

definition saved_role :: "role_request \<Rightarrow> string \<Rightarrow> (string \<times> scope) list \<Rightarrow> role_summary" where
  "saved_role r rid permissions =
     \<lparr>rs_role_id = rid, rs_name = rq_name r, rs_description = rq_description r,
      rs_status = rq_status r, rs_is_system = False, rs_permissions = sorted_items permissions\<rparr>"

section \<open>Routes on roles\<close>

definition list_roles_route :: "cp_world \<Rightarrow> string option \<Rightarrow> (cp_db, role_summary list) action" where
  "list_roles_route w authorization = rethrow db_failure
     (andthen (require_current_platform_admin w authorization) (query fetch_roles))"

definition list_users_route :: "cp_world \<Rightarrow> string option \<Rightarrow> (cp_db, user_summary list) action" where
  "list_users_route w authorization = rethrow db_failure
     (andthen (require_current_platform_admin w authorization) (query fetch_users_with_roles))"

definition create_role_route ::
  "cp_world \<Rightarrow> string option \<Rightarrow> role_request \<Rightarrow> (cp_db, role_summary) action" where
  "create_role_route w authorization r = rethrow (value_failure 422)
     (chain (require_current_platform_admin w authorization) (\<lambda>actor.
        andthen (require (rq_actor_id r = actor) (HTTPException 403 ''actor is not the logged-in user''))
          (chain (query (\<lambda>db. role_exists db (rq_role_id r))) (\<lambda>taken.
             andthen (require (\<not> taken) (HTTPException 409 ''role id exists''))
               (chain (query_cp (\<lambda>db. normalize_role_permissions db r)) (\<lambda>permissions.
                  chain (query (\<lambda>db. tool_ids_exist db (map fst permissions))) (\<lambda>known.
                    andthen (require known (HTTPException 422 ''unregistered tools''))
                      (andthen (create_custom_role (rq_role_id r) (rq_name r) (rq_description r) (rq_status r))
                        (andthen (replace_role_tool_permissions (rq_role_id r) permissions)
                          (andthen (record_role_change_event (rq_role_id r) actor ''role_created''
                                      (rq_status r) permissions)
                            (give (saved_role r (rq_role_id r) permissions))))))))))))"

definition update_role_route ::
  "cp_world \<Rightarrow> string option \<Rightarrow> string \<Rightarrow> role_request \<Rightarrow> (cp_db, role_summary) action" where
  "update_role_route w authorization rid r = rethrow (value_failure 422)
     (chain (require_current_platform_admin w authorization) (\<lambda>actor.
        andthen (require (rq_actor_id r = actor) (HTTPException 403 ''actor is not the logged-in user''))
          (andthen (require (rq_role_id r = rid) (HTTPException 422 ''role id may not change''))
             (chain (query (\<lambda>db. role_is_system db rid)) (\<lambda>is_system.
                andthen (require (is_system \<noteq> None) (HTTPException 404 ''role does not exist''))
                  (andthen (require (is_system \<noteq> Some True) (HTTPException 403 ''system role''))
                    (chain (query_cp (\<lambda>db. normalize_role_permissions db r)) (\<lambda>permissions.
                       chain (query (\<lambda>db. tool_ids_exist db (map fst permissions))) (\<lambda>known.
                         andthen (require known (HTTPException 422 ''unregistered tools''))
                           (chain (update_custom_role rid (rq_name r) (rq_description r) (rq_status r)) (\<lambda>found.
                              andthen (require found (HTTPException 404 ''role does not exist''))
                                (andthen (replace_role_tool_permissions rid permissions)
                                  (andthen (record_role_change_event rid actor ''role_updated''
                                              (rq_status r) permissions)
                                    (give (saved_role r rid permissions)))))))))))))))"

definition set_user_roles_route ::
  "cp_world \<Rightarrow> string option \<Rightarrow> string \<Rightarrow> string \<Rightarrow> string list \<Rightarrow> (cp_db, string list) action" where
  "set_user_roles_route w authorization u claimed roles = rethrow db_failure
     (chain (require_current_platform_admin w authorization) (\<lambda>actor.
        andthen (require (claimed = actor) (HTTPException 403 ''actor is not the logged-in user''))
          (chain (query (\<lambda>db. roles_exist db roles)) (\<lambda>known.
             andthen (require known (HTTPException 422 ''unregistered roles''))
               (chain (query (\<lambda>db. user_active db u)) (\<lambda>active.
                  andthen (if active then give () else upsert_user u ''active'')
                    (andthen (replace_user_roles u roles) (give (sorted_set roles)))))))))"

section \<open>Routes on users and memory policies\<close>

definition set_user_route :: "string \<Rightarrow> string \<Rightarrow> (cp_db, unit) action" where
  "set_user_route u status = rethrow (value_failure 422) (upsert_user u status)"

definition list_memory_policies_route ::
  "cp_world \<Rightarrow> string option \<Rightarrow> string \<Rightarrow> (cp_db, policy_row list) action" where
  "list_memory_policies_route w authorization tenant = rethrow db_failure
     (andthen (require_current_platform_admin w authorization)
        (query (\<lambda>db. list_memory_namespace_policies db tenant)))"

definition set_memory_policy_route ::
  "cp_world \<Rightarrow> string option \<Rightarrow> string \<Rightarrow> string \<Rightarrow> string \<Rightarrow> bool \<Rightarrow> (cp_db, unit) action" where
  "set_memory_policy_route w authorization tenant ns mode allow = rethrow (value_failure 422)
     (chain (require_current_platform_admin w authorization) (\<lambda>actor.
        upsert_memory_namespace_policy (cw_env w) tenant ns mode allow actor))"

definition list_memory_preferences_route ::
  "cp_world \<Rightarrow> string option \<Rightarrow> string \<Rightarrow> string \<Rightarrow> (cp_db, preference_row list) action" where
  "list_memory_preferences_route w authorization u tenant = rethrow db_failure
     (andthen (require_current_actor w authorization u)
        (query (\<lambda>db. list_user_memory_preferences db tenant u)))"

definition set_memory_preference_route ::
  "cp_world \<Rightarrow> string option \<Rightarrow> string \<Rightarrow> string \<Rightarrow> string \<Rightarrow> bool \<Rightarrow> (cp_db, unit) action" where
  "set_memory_preference_route w authorization u tenant ns share = rethrow db_failure
     (andthen (require_current_actor w authorization u)
        (upsert_user_memory_preference (cw_env w) tenant u ns share))"

section \<open>Seeded roles, tools and users\<close>

definition local_tool ::
  "string \<Rightarrow> string \<Rightarrow> string \<Rightarrow> bool \<Rightarrow> pydict \<Rightarrow> string \<Rightarrow> string \<Rightarrow> tool_def" where
  "local_tool t name description idempotent schema action_name action_note =
     \<lparr>td_tool_id = t, td_name = name, td_description = description, td_status = ''active'',
      td_source = ''local'', td_runner_tool_id = Some (''local.'' @ t), td_runner_name = None,
      td_mcp_connection_id = None, td_mcp_connection = None, td_version = ''local-v1'',
      td_read_only = True, td_idempotent = idempotent, td_parallel_safe = True,
      td_requires_approval = False, td_side_effect_level = ''none'', td_data_sensitivity = ''internal'',
      td_network_access = ''none'', td_layer = ''runtime'', td_category = ''utility'',
      td_namespace = ''platform'', td_group_id = ''platform.local'', td_group_name = ''platform local tools'',
      td_timeout_ms = 8000, td_input_schema = schema, td_scope_schema = [(''actions'', [action_name])],
      td_scope_descriptions = [(''actions'', action_note)], td_manifest_hash = []\<rparr>"

definition text_schema :: "string \<Rightarrow> pydict" where
  "text_schema field =
     [(''type'', PStr ''object''),
      (''properties'', PDict [(field, PDict [(''type'', PStr ''string'')])]),
      (''required'', PList [PStr field])]"

definition LOCAL_TOOLS :: "tool_def list" where
  "LOCAL_TOOLS =
     [local_tool ''calculator'' ''Calculator'' ''evaluates basic arithmetic'' True
        (text_schema ''expression'') ''calculate'' ''allowed calculations'',
      local_tool ''time_now'' ''Current Time'' ''returns the current server time'' False
        [(''type'', PStr ''object''), (''properties'', PDict [])] ''read'' ''may read the server time'',
      local_tool ''text_stats'' ''Text Stats'' ''counts characters and tokens'' True
        (text_schema ''text'') ''read'' ''may read and count the text'']"

definition DEFAULT_ROLE_DEFINITIONS :: "(string \<times> string \<times> string \<times> (string \<times> scope) list) list" where
  "DEFAULT_ROLE_DEFINITIONS =
     [(PLATFORM_ADMIN_ROLE, ''platform administrator'', ''manages roles, grants and configuration'', []),
      (''office_tools'', ''office tools'', ''all local low-risk tools'',
        [(''calculator'', [(''actions'', [''calculate''])]), (''text_stats'', [(''actions'', [''read''])]),
         (''time_now'', [(''actions'', [''read''])])]),
      (''analyst_tools'', ''analysis tools'', ''calculation and text statistics'',
        [(''calculator'', [(''actions'', [''calculate''])]), (''text_stats'', [(''actions'', [''read''])])]),
      (''time_tools'', ''time query'', ''reads the server time only'',
        [(''time_now'', [(''actions'', [''read''])])])]"

definition DEFAULT_DEMO_USERS :: "(string \<times> string list) list" where
  "DEFAULT_DEMO_USERS =
     [(''u_console'', [PLATFORM_ADMIN_ROLE, ''office_tools'']), (''u_analyst'', [''analyst_tools'']),
      (''u_timekeeper'', [''time_tools'']), (''u_guest'', [])]"

text \<open>The demo users with the configured administrators added.\<close>

definition seeded_users :: "string list \<Rightarrow> (string \<times> string list) list" where
  "seeded_users admins =
     fold (\<lambda>u users. AList.update u
             ((case map_of users u of None \<Rightarrow> [] | Some rs \<Rightarrow> rs) @ [PLATFORM_ADMIN_ROLE]) users)
       (remdups admins) DEFAULT_DEMO_USERS"

definition seed_role :: "string \<times> string \<times> string \<times> (string \<times> scope) list \<Rightarrow> (cp_db, unit) action" where
  "seed_role d =
     (case d of (r, name, description, permissions) \<Rightarrow>
        andthen (upsert_role r name description ''active'' True)
          (replace_role_tool_permissions r permissions))"

definition seed_user :: "string \<times> string list \<Rightarrow> (cp_db, unit) action" where
  "seed_user d =
     (case d of (u, default_roles) \<Rightarrow>
        andthen (upsert_user u ''active'')
          (chain (query (\<lambda>db. get_user_roles db u)) (\<lambda>existing.
             if existing = [] then replace_user_roles u default_roles else give ())))"

text \<open>\<open>POST /admin/seed-roles\<close> takes no credentials.\<close>

definition seed_roles_route :: "cp_world \<Rightarrow> (cp_db, string list \<times> string list) action" where
  "seed_roles_route w = rethrow (value_failure 422)
     (andthen (remove_tool_everywhere ''search_faq'')
       (andthen (remove_role_everywhere ''faq_reader'')
         (andthen (each (upsert_tool (cw_env w)) LOCAL_TOOLS)
           (andthen (each seed_role DEFAULT_ROLE_DEFINITIONS)
             (andthen (each seed_user (seeded_users (cc_bootstrap_admin_users (cw_config w))))
               (give (sort (map fst DEFAULT_ROLE_DEFINITIONS),
                      sorted_set (cc_bootstrap_admin_users (cw_config w) @ [''u_console'']))))))))"

end
