(* ===== verification/Cp_Agents.thy ===== *)
theory Cp_Agents
  imports Cp_Roles
begin

text \<open>
  Agents and their releases: the functions of \<open>db.py\<close> on the agent tables and the routes of
  \<open>api.py\<close> that create, edit, publish and revoke. An agent in memory is the dictionary
  \<open>load_agent\<close> returns; a Python set in it is the list of its elements, of which only
  membership, sorting and \<open>set()\<close> are used. Identifiers made by \<open>uuid4\<close> are arguments.
\<close>

section \<open>Requests\<close>

datatype requested_tool = ToolName string | ToolConfig string scope

record agent_config_request =
  aq_user_id :: string
  aq_name :: string
  aq_icon :: string
  aq_visibility :: string
  aq_members :: "string list"
  aq_system_prompt :: string
  aq_model :: "string option"
  aq_tools :: "requested_tool list"
  aq_channels :: "string list"

definition normalize_agent_model :: "string option \<Rightarrow> string option" where
  "normalize_agent_model model =
     (let stripped = (if opt_truthy model then py_strip (the model) else [])
      in if stripped = [] then None else Some stripped)"

fun requested_row :: "requested_tool \<Rightarrow> string \<times> pyval" where
  "requested_row (ToolName t) = (t, PDict [])"
| "requested_row (ToolConfig t s) = (t, scope_val s)"

definition normalize_agent_tool_request :: "agent_config_request \<Rightarrow> (string \<times> scope) list cp" where
  "normalize_agent_tool_request r = authz_merge_tool_scopes (map requested_row (aq_tools r))"

section \<open>Agents (\<open>db.py\<close>)\<close>

definition record_permission_event ::
  "string option \<Rightarrow> string \<Rightarrow> string \<Rightarrow> string \<Rightarrow> (cp_db, unit) action" where
  "record_permission_event agent u event_type detail = modify (\<lambda>db.
     db\<lparr>d_permission_events := d_permission_events db @
          [\<lparr>pe_agent_id = agent, pe_user_id = u, pe_event_type = event_type, pe_detail = detail\<rparr>]\<rparr>)"

text \<open>\<open>INSERT INTO users (id) ... ON CONFLICT DO NOTHING\<close>: a new user is active.\<close>

definition add_user :: "string \<Rightarrow> (string \<times> string) list \<Rightarrow> (string \<times> string) list" where
  "add_user u users = (if map_of users u = None then users @ [(u, ''active'')] else users)"

definition agent_tool_rows :: "string \<Rightarrow> (string \<times> scope) list \<Rightarrow> agent_tool_row list" where
  "agent_tool_rows a scopes =
     map (\<lambda>(t, s). \<lparr>at_agent_id = a, at_tool_id = t, at_scope = s, at_enabled = True\<rparr>) scopes"

definition requested_ids :: "requested_tool list \<Rightarrow> string list" where
  "requested_ids ts = map (\<lambda>t. case t of ToolName n \<Rightarrow> n | ToolConfig n s \<Rightarrow> n) ts"

definition save_agent ::
  "cp_env \<Rightarrow> string \<Rightarrow> agent_config_request \<Rightarrow> string list \<Rightarrow> (string \<times> scope) list \<Rightarrow> (cp_db, unit) action" where
  "save_agent v a r creator_permissions tool_scopes = transaction (\<lambda>db.
     let scopes = (if tool_scopes \<noteq> [] then tool_scopes
                   else map (\<lambda>t. (t, [])) (unique (requested_ids (aq_tools r))));
         members = (if aq_visibility r = ''public'' then []
                    else sorted_set (map py_strip (filter
                           (\<lambda>m. py_strip m \<noteq> [] \<and> py_strip m \<noteq> aq_user_id r) (aq_members r))))
     in if list_ex (\<lambda>row. ag_id row = a) (d_agents db) then Inl (DbError ''agents_pkey'')
        else if \<not> list_all (tool_exists db) (map fst scopes) then Inl (DbError ''agent_tools_tool_id_fkey'')
        else Inr (db\<lparr>
          d_agents := d_agents db @
            [\<lparr>ag_id = a, ag_name = aq_name r, ag_icon = aq_icon r, ag_visibility = aq_visibility r,
              ag_owner_user_id = aq_user_id r, ag_system_prompt = aq_system_prompt r,
              ag_model = normalize_agent_model (aq_model r), ag_enabled = True,
              ag_created_at = cv_now v\<rparr>],
          d_users := fold add_user members (d_users db),
          d_members := d_members db @ map (\<lambda>m. (a, m)) members,
          d_agent_tools := d_agent_tools db @ agent_tool_rows a scopes,
          d_snapshots := d_snapshots db @
            [\<lparr>sn_agent_id = a, sn_version = 1, sn_permissions = sort creator_permissions,
              sn_created_by = aq_user_id r, sn_reason = ''agent_created''\<rparr>],
          d_channels := d_channels db @ map (\<lambda>c. (a, c)) (remdups (aq_channels r))\<rparr>))"

definition next_snapshot_version :: "cp_db \<Rightarrow> string \<Rightarrow> int" where
  "next_snapshot_version db a =
     foldr max (map sn_version (filter (\<lambda>s. sn_agent_id s = a) (d_snapshots db))) 0 + 1"

definition save_agent_update ::
  "string \<Rightarrow> agent_config_request \<Rightarrow> string list \<Rightarrow> (string \<times> scope) list \<Rightarrow> string \<Rightarrow> (cp_db, unit) action" where
  "save_agent_update a r owner_permissions tool_scopes actor = transaction (\<lambda>db.
     let members = (if aq_visibility r = ''public'' then []
                    else sorted_set (map py_strip (filter (\<lambda>m. py_strip m \<noteq> []) (aq_members r))))
     in if \<not> list_all (tool_exists db) (map fst tool_scopes) then Inl (DbError ''agent_tools_tool_id_fkey'')
        else Inr (db\<lparr>
          d_agents := update_rows (\<lambda>row. ag_id row = a)
            (\<lambda>row. row\<lparr>ag_name := aq_name r, ag_icon := aq_icon r, ag_visibility := aq_visibility r,
                      ag_system_prompt := aq_system_prompt r,
                      ag_model := normalize_agent_model (aq_model r)\<rparr>) (d_agents db),
          d_users := fold add_user members (d_users db),
          d_members := filter (\<lambda>(g, u). g \<noteq> a) (d_members db) @ map (\<lambda>m. (a, m)) members,
          d_agent_tools := filter (\<lambda>row. at_agent_id row \<noteq> a) (d_agent_tools db) @
            agent_tool_rows a tool_scopes,
          d_channels := filter (\<lambda>(g, c). g \<noteq> a) (d_channels db) @
            map (\<lambda>c. (a, c)) (remdups (aq_channels r)),
          d_snapshots := d_snapshots db @
            [\<lparr>sn_agent_id = a, sn_version = next_snapshot_version db a,
              sn_permissions = sort owner_permissions, sn_created_by = actor,
              sn_reason = ''agent_updated''\<rparr>]\<rparr>))"

definition update_agent_status :: "string \<Rightarrow> bool \<Rightarrow> (cp_db, bool) action" where
  "update_agent_status a enabled db =
     (Inr (length (filter (\<lambda>row. ag_id row = a) (d_agents db)) = 1),
      db\<lparr>d_agents := update_rows (\<lambda>row. ag_id row = a) (\<lambda>row. row\<lparr>ag_enabled := enabled\<rparr>) (d_agents db)\<rparr>)"

definition agent_is_enabled :: "cp_db \<Rightarrow> string \<Rightarrow> bool option" where
  "agent_is_enabled db a = map_option ag_enabled (find (\<lambda>row. ag_id row = a) (d_agents db))"

definition texts_val :: "string list \<Rightarrow> pyval" where
  "texts_val xs = PList (map PStr xs)"

definition scopes_val :: "(string \<times> scope) list \<Rightarrow> pyval" where
  "scopes_val scopes = PDict (map (\<lambda>(t, s). (t, scope_val s)) scopes)"

definition agent_tool_scopes :: "cp_db \<Rightarrow> string \<Rightarrow> (string \<times> scope) list" where
  "agent_tool_scopes db a =
     map (\<lambda>row. (at_tool_id row, normalized_scope (at_scope row)))
       (filter (\<lambda>row. at_agent_id row = a \<and> at_enabled row) (d_agent_tools db))"

text \<open>\<open>ORDER BY snapshot_version DESC LIMIT 1\<close>; the tools themselves when there is no snapshot.\<close>

definition agent_snapshot :: "cp_db \<Rightarrow> string \<Rightarrow> string list" where
  "agent_snapshot db a =
     (case rev (sort_key sn_version (filter (\<lambda>s. sn_agent_id s = a) (d_snapshots db))) of
        [] \<Rightarrow> sorted_set (map fst (agent_tool_scopes db a))
      | s # rest \<Rightarrow> sn_permissions s)"

definition agent_channels :: "cp_db \<Rightarrow> string \<Rightarrow> string list" where
  "agent_channels db a = map snd (filter (\<lambda>(g, c). g = a) (d_channels db))"

definition agent_members :: "cp_db \<Rightarrow> string \<Rightarrow> string list" where
  "agent_members db a = sort (map snd (filter (\<lambda>(g, u). g = a) (d_members db)))"

definition agent_dict :: "cp_db \<Rightarrow> agent_row \<Rightarrow> pydict" where
  "agent_dict db row =
     (let a = ag_id row
      in [(''owner_user_id'', PStr (ag_owner_user_id row)), (''enabled'', PBool (ag_enabled row)),
          (''name'', PStr (ag_name row)), (''icon'', PStr (ag_icon row)),
          (''system_prompt'', PStr (ag_system_prompt row)), (''model'', opt_val (ag_model row)),
          (''visibility'', PStr (ag_visibility row)), (''members'', texts_val (agent_members db a)),
          (''tools'', texts_val (map fst (agent_tool_scopes db a))),
          (''tool_scopes'', scopes_val (agent_tool_scopes db a)),
          (''snapshot_tools'', texts_val (agent_snapshot db a)),
          (''channels'', texts_val (agent_channels db a))])"

definition load_agent :: "cp_db \<Rightarrow> string \<Rightarrow> pydict option" where
  "load_agent db a = map_option (agent_dict db) (find (\<lambda>row. ag_id row = a) (d_agents db))"

record agent_summary =
  as_agent_id :: string
  as_name :: string
  as_icon :: string
  as_owner_user_id :: string
  as_visibility :: string
  as_enabled :: bool
  as_tools :: "string list"
  as_members :: "string list"

definition agent_listed :: "cp_db \<Rightarrow> string option \<Rightarrow> bool \<Rightarrow> agent_row \<Rightarrow> bool" where
  "agent_listed db actor is_admin row \<longleftrightarrow>
     is_admin \<or> ag_visibility row = ''public'' \<or>
     (opt_truthy actor \<and>
        (ag_owner_user_id row = the actor \<or> (ag_id row, the actor) \<in> set (d_members db)))"

definition fetch_agents :: "cp_db \<Rightarrow> string option \<Rightarrow> bool \<Rightarrow> agent_summary list" where
  "fetch_agents db actor is_admin =
     map (\<lambda>row. \<lparr>as_agent_id = ag_id row, as_name = ag_name row, as_icon = ag_icon row,
                 as_owner_user_id = ag_owner_user_id row, as_visibility = ag_visibility row,
                 as_enabled = ag_enabled row,
                 as_tools = sort (map fst (agent_tool_scopes db (ag_id row))),
                 as_members = agent_members db (ag_id row)\<rparr>)
       (take 100 (sort_key (\<lambda>row. - ag_created_at row)
          (filter (agent_listed db actor is_admin) (d_agents db))))"

section \<open>Releases (\<open>db.py\<close>)\<close>

definition next_release_version :: "cp_db \<Rightarrow> string \<Rightarrow> int" where
  "next_release_version db a =
     foldr max (map ar_version (filter (\<lambda>l. ar_agent_id l = a) (d_releases db))) 0 + 1"

definition save_agent_release ::
  "cp_env \<Rightarrow> string \<Rightarrow> string \<Rightarrow> int \<Rightarrow> pydict \<Rightarrow> string \<Rightarrow> (cp_db, unit) action" where
  "save_agent_release v l a version config actor = transaction (\<lambda>db.
     if list_ex (\<lambda>row. ar_id row = l) (d_releases db) then Inl (DbError ''agent_releases_pkey'')
     else if list_ex (\<lambda>row. ar_agent_id row = a \<and> ar_version row = version) (d_releases db)
       then Inl (DbError ''agent_releases_agent_id_version_key'')
     else if \<not> list_ex (\<lambda>row. ag_id row = a) (d_agents db) then Inl (DbError ''agent_releases_agent_id_fkey'')
     else Inr (db\<lparr>d_releases := d_releases db @
            [\<lparr>ar_id = l, ar_agent_id = a, ar_version = version, ar_status = ''published'',
              ar_config_json = config, ar_published_by = actor, ar_published_at = cv_now v,
              ar_revoked_at = None\<rparr>]\<rparr>))"

definition revoke_agent_release :: "cp_env \<Rightarrow> string \<Rightarrow> string \<Rightarrow> (cp_db, bool) action" where
  "revoke_agent_release v a l db =
     (let hit = (\<lambda>row. ar_id row = l \<and> ar_agent_id row = a \<and> ar_status row = ''published'')
      in (Inr (length (filter hit (d_releases db)) = 1),
          db\<lparr>d_releases := update_rows hit
               (\<lambda>row. row\<lparr>ar_status := ''revoked'', ar_revoked_at := Some (cv_now v)\<rparr>) (d_releases db)\<rparr>))"

definition cp_fetch_agent_release :: "cp_db \<Rightarrow> string \<Rightarrow> string \<Rightarrow> agent_release_row option" where
  "cp_fetch_agent_release db a l = find (\<lambda>row. ar_id row = l \<and> ar_agent_id row = a) (d_releases db)"

definition fetch_agent_releases :: "cp_db \<Rightarrow> string \<Rightarrow> agent_release_row list" where
  "fetch_agent_releases db a =
     take 50 (sort_key (\<lambda>row. - ar_version row) (filter (\<lambda>row. ar_agent_id row = a) (d_releases db)))"

section \<open>Who may manage and run an agent\<close>

definition can_manage_agent :: "cp_db \<Rightarrow> string \<Rightarrow> pydict \<Rightarrow> bool" where
  "can_manage_agent db actor agent \<longleftrightarrow>
     py_eq (dget agent ''owner_user_id'') (PStr actor) \<or> has_role db actor PLATFORM_ADMIN_ROLE"

definition require_agent_manager :: "string \<Rightarrow> pydict \<Rightarrow> (cp_db, unit) action" where
  "require_agent_manager actor agent =
     chain (query (\<lambda>db. can_manage_agent db actor agent)) (\<lambda>ok.
       require ok (HTTPException 403 ''may not manage this agent''))"

definition can_run_agent :: "cp_db \<Rightarrow> string \<Rightarrow> pydict \<Rightarrow> bool" where
  "can_run_agent db actor agent \<longleftrightarrow>
     py_eq (dget_or agent ''visibility'' (PStr ''private'')) (PStr ''public'') \<or>
     (py_eq (dget agent ''owner_user_id'') (PStr actor) \<or>
      actor \<in> set (map py_str (as_list (py_or (dget agent ''members'') (PList [])))) \<or>
      has_role db actor PLATFORM_ADMIN_ROLE)"

section \<open>Views of an agent\<close>

definition texts_of :: "pyval \<Rightarrow> string list" where
  "texts_of v = map py_str (as_list (py_or v (PList [])))"

text \<open>\<open>agent.get("tool_scopes") or {tool_id: {} for tool_id in sorted(agent["tools"])}\<close>.\<close>

definition configured_scopes :: "pydict \<Rightarrow> pydict" where
  "configured_scopes agent =
     as_dict (py_or (dget agent ''tool_scopes'')
       (PDict (map (\<lambda>t. (t, PDict [])) (sort (texts_of (dget agent ''tools''))))))"

record agent_detail_view =
  ad_agent_id :: string
  ad_name :: string
  ad_icon :: string
  ad_owner_user_id :: string
  ad_visibility :: string
  ad_members :: "string list"
  ad_enabled :: bool
  ad_tools :: "string list"
  ad_system_prompt :: string
  ad_model :: "string option"
  ad_tool_configs :: "(string \<times> pyval) list"
  ad_channels :: "string list"

definition agent_detail :: "string \<Rightarrow> pydict \<Rightarrow> agent_detail_view" where
  "agent_detail a agent =
     (let scopes = configured_scopes agent
      in \<lparr>ad_agent_id = a, ad_name = get_text agent ''name'', ad_icon = get_text agent ''icon'',
          ad_owner_user_id = get_text agent ''owner_user_id'',
          ad_visibility = py_str (py_or (dget agent ''visibility'') (PStr ''private'')),
          ad_members = sort (texts_of (dget agent ''members'')),
          ad_enabled = truthy (dget_or agent ''enabled'' (PBool True)),
          ad_tools = sort (map fst scopes), ad_system_prompt = text_or_empty (dget agent ''system_prompt''),
          ad_model = (if truthy (dget agent ''model'') then Some (get_text agent ''model'') else None),
          ad_tool_configs = sorted_items scopes,
          ad_channels = sort (texts_of (dget agent ''channels''))\<rparr>)"

text \<open>What \<open>publish_agent\<close> freezes: the agent, the manifests of its tools and the grants of the publisher.\<close>

definition release_agent_section :: "string \<Rightarrow> pydict \<Rightarrow> pydict" where
  "release_agent_section a agent =
     [(''id'', PStr a), (''name'', dget agent ''name''), (''icon'', dget agent ''icon''),
      (''visibility'', dget_or agent ''visibility'' (PStr ''private'')),
      (''members'', texts_val (sort (texts_of (dget agent ''members'')))),
      (''owner_user_id'', dget agent ''owner_user_id''),
      (''system_prompt'', dget agent ''system_prompt''), (''model'', dget agent ''model''),
      (''channels'', texts_val (sort (texts_of (dget agent ''channels'')))),
      (''enabled'', dget agent ''enabled'')]"

definition manifest_entries :: "(string \<times> tool_def) list \<Rightarrow> pydict \<Rightarrow> pyval" where
  "manifest_entries manifests scopes =
     PList (map (\<lambda>(t, s). PDict (runtime_tool_manifest (the (map_of manifests t)) s)) (sorted_items scopes))"

definition release_config_snapshot :: "cp_db \<Rightarrow> string \<Rightarrow> pydict \<Rightarrow> string \<Rightarrow> pydict cp" where
  "release_config_snapshot db a agent actor =
     (let scopes = configured_scopes agent;
          manifests = fetch_tools_by_ids db (map fst scopes)
      in if set (map fst manifests) \<noteq> set (map fst scopes)
         then Inl (HTTPException 422 (''published tools missing or disabled: '' @ py_join '', ''
                (sorted_set (filter (\<lambda>t. t \<notin> set (map fst manifests)) (map fst scopes)))))
         else case user_tool_scopes db actor of
                Inl e \<Rightarrow> Inl e
              | Inr grants \<Rightarrow>
                  Inr [(''agent'', PDict (release_agent_section a agent)),
                       (''tools'', manifest_entries manifests scopes),
                       (''runtime_policy'', PDict [(''release_token_enabled'', PBool False)]),
                       (''permission_snapshot'', PDict
                          [(''published_by'', PStr actor),
                           (''published_by_roles'', texts_val (sort (get_user_roles db actor))),
                           (''role_tool_scopes'', scopes_val grants)])])"

section \<open>Routes\<close>

text \<open>\<open>except PermissionError\<close>: the denial is recorded, then raised as a 403.\<close>

definition denied :: "string option \<Rightarrow> string \<Rightarrow> (cp_db, 'a) action \<Rightarrow> (cp_db, 'a) action" where
  "denied agent actor m = handle m (\<lambda>e.
     case e of
       PermissionError detail \<Rightarrow>
         andthen (record_permission_event agent actor ''tool_denied'' detail) (raise (HTTPException 403 detail))
     | _ \<Rightarrow> raise e)"

text \<open>\<open>validate_configured_tools\<close>, then \<open>validate_tool_scope_subset\<close> of each tool.\<close>

definition within_grants :: "(string \<times> scope) list \<Rightarrow> (string \<times> scope) list \<Rightarrow> unit cp" where
  "within_grants scopes grants =
     (case validate_configured_tools (map fst scopes) (map fst grants) of
        Inl e \<Rightarrow> Inl e
      | Inr _ \<Rightarrow>
          (case traverse (\<lambda>(t, s). validate_tool_scope_subset t (scope_val s)
                   (case map_of grants t of None \<Rightarrow> PNone | Some g \<Rightarrow> scope_val g)) scopes of
             Inl e \<Rightarrow> Inl e
           | Inr _ \<Rightarrow> Inr ()))"

definition create_agent_route ::
  "cp_world \<Rightarrow> string \<Rightarrow> string option \<Rightarrow> agent_config_request \<Rightarrow> (cp_db, string \<times> string list) action" where
  "create_agent_route w a authorization r =
     chain (query_cp (\<lambda>_. normalize_agent_tool_request r)) (\<lambda>tool_scopes.
       rethrow db_failure
         (chain (current_user_id w authorization) (\<lambda>actor.
            chain (query (\<lambda>db. user_active db actor)) (\<lambda>active.
              andthen (require active (HTTPException 403 ''current user unavailable''))
                (chain (query (\<lambda>db. has_role db actor PLATFORM_ADMIN_ROLE)) (\<lambda>is_admin.
                   andthen (require (actor = aq_user_id r \<or> is_admin)
                              (HTTPException 403 ''may not create an agent for another user''))
                     (chain (query (\<lambda>db. user_active db (aq_user_id r))) (\<lambda>owner_active.
                        if \<not> owner_active
                        then andthen (record_permission_event None (aq_user_id r) ''tool_denied'' ''owner inactive'')
                               (raise (HTTPException 403 ''owner unavailable''))
                        else chain (query (\<lambda>db. cp_active_tool_ids db (map fst tool_scopes))) (\<lambda>active_ids.
                          andthen (require (set active_ids = set (map fst tool_scopes))
                                     (HTTPException 422 ''unregistered or disabled tools''))
                            (chain (query_cp (\<lambda>db. user_tool_scopes db (aq_user_id r))) (\<lambda>role_scopes.
                               andthen (require (role_scopes \<noteq> []) (HTTPException 403 ''owner has no role tools''))
                                 (andthen (denied None (aq_user_id r) (query_cp (\<lambda>_. within_grants tool_scopes role_scopes)))
                                   (andthen (save_agent (cw_env w) a r (map fst role_scopes) tool_scopes)
                                     (give (a, sort (map fst tool_scopes))))))))))))))))"

definition list_agents_route :: "cp_world \<Rightarrow> string option \<Rightarrow> (cp_db, agent_summary list) action" where
  "list_agents_route w authorization = rethrow db_failure
     (chain (optional_current_user_id w authorization) (\<lambda>actor.
        chain (query (\<lambda>db. opt_truthy actor \<and> has_role db (the actor) PLATFORM_ADMIN_ROLE)) (\<lambda>is_admin.
          query (\<lambda>db. fetch_agents db actor is_admin))))"

definition require_agent :: "string \<Rightarrow> (cp_db, pydict) action" where
  "require_agent a = query_cp (\<lambda>db.
     case load_agent db a of
       None \<Rightarrow> Inl (HTTPException 404 ''agent does not exist'')
     | Some agent \<Rightarrow> Inr agent)"

definition get_agent_route :: "cp_world \<Rightarrow> string option \<Rightarrow> string \<Rightarrow> (cp_db, agent_detail_view) action" where
  "get_agent_route w authorization a = rethrow db_failure
     (chain (current_user_id w authorization) (\<lambda>actor.
        chain (require_agent a) (\<lambda>agent.
          andthen (require_agent_manager actor agent) (give (agent_detail a agent)))))"

definition updated_agent ::
  "pydict \<Rightarrow> agent_config_request \<Rightarrow> string list \<Rightarrow> (string \<times> scope) list \<Rightarrow> string list \<Rightarrow> pydict" where
  "updated_agent agent r members tool_scopes owner_tools =
     dmerge agent
       [(''name'', PStr (aq_name r)), (''icon'', PStr (aq_icon r)), (''visibility'', PStr (aq_visibility r)),
        (''members'', texts_val (unique members)), (''system_prompt'', PStr (aq_system_prompt r)),
        (''model'', opt_val (aq_model r)), (''tools'', texts_val (map fst tool_scopes)),
        (''tool_scopes'', scopes_val tool_scopes), (''snapshot_tools'', texts_val owner_tools),
        (''channels'', texts_val (unique (aq_channels r)))]"

definition update_agent_route ::
  "cp_world \<Rightarrow> string option \<Rightarrow> string \<Rightarrow> agent_config_request \<Rightarrow> (cp_db, agent_detail_view) action" where
  "update_agent_route w authorization a r =
     chain (query_cp (\<lambda>_. normalize_agent_tool_request r)) (\<lambda>tool_scopes.
       rethrow db_failure
         (chain (require_current_actor w authorization (aq_user_id r)) (\<lambda>actor.
            chain (require_agent a) (\<lambda>agent.
              andthen (require_agent_manager actor agent)
                (chain (query (\<lambda>db. cp_active_tool_ids db (map fst tool_scopes))) (\<lambda>active_ids.
                   andthen (require (set active_ids = set (map fst tool_scopes))
                              (HTTPException 422 ''unregistered or disabled tools''))
                     (chain (query_cp (\<lambda>db. user_tool_scopes db (get_text agent ''owner_user_id''))) (\<lambda>owner_scopes.
                        andthen (denied (Some a) actor (query_cp (\<lambda>_. within_grants tool_scopes owner_scopes)))
                          (let members = (if aq_visibility r = ''public'' then []
                                          else filter (\<lambda>m. m \<noteq> get_text agent ''owner_user_id'') (aq_members r))
                           in andthen (save_agent_update a (r\<lparr>aq_members := members\<rparr>) (map fst owner_scopes) tool_scopes actor)
                                (andthen (record_permission_event (Some a) actor ''agent_updated'' ''draft configuration'')
                                  (give (agent_detail a
                                     (updated_agent agent r members tool_scopes (map fst owner_scopes))))))))))))))"

definition set_agent_status_route ::
  "cp_world \<Rightarrow> string option \<Rightarrow> string \<Rightarrow> string \<Rightarrow> bool \<Rightarrow> (cp_db, string \<times> bool) action" where
  "set_agent_status_route w authorization a claimed enabled = rethrow db_failure
     (chain (require_current_platform_admin w authorization) (\<lambda>actor.
        andthen (require (claimed = actor) (HTTPException 403 ''actor is not the logged-in user''))
          (andthen (require_agent a)
             (chain (update_agent_status a enabled) (\<lambda>found.
                andthen (require found (HTTPException 404 ''agent does not exist''))
                  (andthen (record_permission_event (Some a) actor ''agent_status_updated''
                              (if enabled then ''enabled'' else ''disabled''))
                    (give (a, enabled))))))))"

definition publish_agent_route ::
  "cp_world \<Rightarrow> string \<Rightarrow> string option \<Rightarrow> string \<Rightarrow> string \<Rightarrow> (cp_db, string \<times> int) action" where
  "publish_agent_route w l authorization a claimed = rethrow db_failure
     (chain (require_current_actor w authorization claimed) (\<lambda>actor.
        chain (require_agent a) (\<lambda>agent.
          andthen (require_agent_manager actor agent)
            (chain (query (\<lambda>db. next_release_version db a)) (\<lambda>version.
               chain (query_cp (\<lambda>db. release_config_snapshot db a agent actor)) (\<lambda>config.
                 andthen (save_agent_release (cw_env w) l a version config actor)
                   (give (l, version))))))))"

definition list_releases_route :: "string \<Rightarrow> (cp_db, agent_release_row list) action" where
  "list_releases_route a = query (\<lambda>db. fetch_agent_releases db a)"

definition revoke_release_route ::
  "cp_world \<Rightarrow> string option \<Rightarrow> string \<Rightarrow> string \<Rightarrow> string \<Rightarrow> (cp_db, string \<times> int) action" where
  "revoke_release_route w authorization a l claimed = rethrow db_failure
     (chain (require_current_actor w authorization claimed) (\<lambda>actor.
        chain (require_agent a) (\<lambda>agent.
          andthen (require_agent_manager actor agent)
            (chain (query (\<lambda>db. cp_fetch_agent_release db a l)) (\<lambda>release.
               andthen (require (release \<noteq> None) (HTTPException 404 ''release does not exist''))
                 (chain (revoke_agent_release (cw_env w) a l) (\<lambda>revoked.
                    andthen (require revoked (HTTPException 409 ''release is revoked''))
                      (give (l, ar_version (the release))))))))))"

definition get_release_route :: "string \<Rightarrow> string \<Rightarrow> (cp_db, agent_release_row) action" where
  "get_release_route a l = query_cp (\<lambda>db.
     case cp_fetch_agent_release db a l of
       None \<Rightarrow> Inl (HTTPException 404 ''release does not exist'')
     | Some row \<Rightarrow> Inr row)"

end
