(* ===== verification/Cp_Gateway.thy ===== *)
theory Cp_Gateway
  imports Cp_Identity Mcp_Uri
begin

text \<open>
  Running an agent (\<open>runner.py\<close>): the debug backend, which runs local tools and asks the model
  once, and the gateway backend, which posts the run to the runtime and reads its reply. The
  model, the HTTP exchange, the JSON codec and the local tools' own code are fields of the
  environment. A reply comes from JSON, so two of its objects are never the same object: the
  identity \<open>id(request)\<close> that keys a request without an id is then different for each.
\<close>

section \<open>Results and services\<close>

record tool_trace =
  tt_tool_id :: string
  tt_status :: string
  tt_result :: string

record run_response =
  rr_run_id :: string
  rr_answer :: string
  rr_tool_calls :: "tool_trace list"
  rr_status :: string
  rr_approval_requests :: "pydict list"

datatype gateway_reply =
    GwHttpError int string
  | GwUnreachable string
  | GwText string

record cp_services =
  sv_loads :: "string \<Rightarrow> pyval option"
  sv_dumps :: "pyval \<Rightarrow> string"
  sv_llm :: "(string \<times> string) list \<Rightarrow> string \<Rightarrow> cp_error + string option"
  sv_post :: "string \<Rightarrow> pydict \<Rightarrow> gateway_reply"
  sv_local_tool :: "string \<Rightarrow> string \<Rightarrow> cp_error + string"

section \<open>The debug backend\<close>

definition call_llm_messages ::
  "cp_config \<Rightarrow> cp_services \<Rightarrow> (string \<times> string) list \<Rightarrow> string option \<Rightarrow> string cp" where
  "call_llm_messages c sv messages model =
     (let selected = opt_or model (cc_llm_model c)
      in if cc_llm_api_key c = [] \<or> selected = []
         then Inl (CpRuntimeError ''LLM_API_KEY or LLM_MODEL not configured'')
         else case sv_llm sv messages selected of
                Inl e \<Rightarrow> Inl e
              | Inr answer \<Rightarrow>
                  if \<not> opt_truthy answer \<or> py_strip (the answer) = []
                  then Inl (CpRuntimeError ''the model returned no text'')
                  else Inr (py_strip (the answer)))"

definition trace_line :: "tool_trace \<Rightarrow> string" where
  "trace_line t = tt_tool_id t @ '' ['' @ tt_status t @ '']: '' @ tt_result t"

definition build_runner_messages ::
  "pydict \<Rightarrow> string \<Rightarrow> string list \<Rightarrow> tool_trace list \<Rightarrow> (string \<times> string) list" where
  "build_runner_messages agent message allowed_tools tool_calls =
     [(''system'', py_strip (py_str (py_or (dget agent ''system_prompt'') (PStr ''You are an internal assistant.''))))] @
     (if allowed_tools \<noteq> []
      then [(''system'', ''available tools: '' @ py_join '', '' (sorted_set allowed_tools))] else []) @
     [(''user'', message)] @
     (if tool_calls \<noteq> []
      then [(''user'', ''tool results:'' @ [CHR 0x0A] @ py_join [CHR 0x0A] (map trace_line tool_calls))]
      else [])"

fun error_message :: "cp_error \<Rightarrow> string" where
  "error_message (HTTPException s m) = m"
| "error_message (CpValueError m) = m"
| "error_message (PermissionError m) = m"
| "error_message (CpRuntimeError m) = m"
| "error_message (CpAttributeError m) = m"
| "error_message (CpKeyError m) = m"
| "error_message (IdentityAuthError m) = m"
| "error_message (IdentityUnavailableError m) = m"
| "error_message (IdentityForbiddenError m) = m"
| "error_message (GatewayRunnerError s m) = ''Gateway Runner HTTP '' @ int_text s @ '': '' @ m"
| "error_message (DbError m) = m"

text \<open>\<open>execute_tool\<close> raises for any tool but the three local ones.\<close>

definition execute_local_tool :: "cp_services \<Rightarrow> string \<Rightarrow> string \<Rightarrow> string cp" where
  "execute_local_tool sv tool_id message =
     (if tool_id \<in> set [''time_now'', ''calculator'', ''text_stats''] then sv_local_tool sv tool_id message
      else Inl (CpRuntimeError (''tool '' @ tool_id @ '' is not connected'')))"

definition tool_trace_of :: "cp_services \<Rightarrow> string \<Rightarrow> string \<Rightarrow> tool_trace" where
  "tool_trace_of sv message tool_id =
     (case execute_local_tool sv tool_id message of
        Inr result \<Rightarrow> \<lparr>tt_tool_id = tool_id, tt_status = ''succeeded'', tt_result = result\<rparr>
      | Inl e \<Rightarrow> \<lparr>tt_tool_id = tool_id, tt_status = ''failed'', tt_result = error_message e\<rparr>)"

definition run_agent_once ::
  "cp_config \<Rightarrow> cp_services \<Rightarrow> pydict \<Rightarrow> string \<Rightarrow> string list \<Rightarrow> string list \<Rightarrow> (string \<times> tool_trace list) cp" where
  "run_agent_once c sv agent message allowed_tools requested_tools =
     (let tool_calls = map (tool_trace_of sv message) requested_tools
      in case call_llm_messages c sv (build_runner_messages agent message allowed_tools tool_calls)
                (case dget agent ''model'' of PStr m \<Rightarrow> Some m | _ \<Rightarrow> None) of
           Inl e \<Rightarrow> Inl e
         | Inr answer \<Rightarrow> Inr (answer, tool_calls))"

section \<open>Reading a gateway reply\<close>

definition APPROVAL_PENDING_STATUSES :: "string list" where
  "APPROVAL_PENDING_STATUSES =
     [''pending_approval'', ''approval_pending'', ''waiting_approval'', ''requires_approval'']"

definition index_name :: "nat \<Rightarrow> string" where
  "index_name i = ''tool_'' @ nat_text i"

definition parse_gateway_tool_call :: "cp_services \<Rightarrow> nat \<Rightarrow> pyval \<Rightarrow> tool_trace" where
  "parse_gateway_tool_call sv i v =
     (case v of
        PDict item \<Rightarrow>
          (let result = (if dget item ''result'' = PNone then dget item ''output'' else dget item ''result'')
           in \<lparr>tt_tool_id = py_str (py_or (py_or (py_or (dget item ''tool_id'') (dget item ''tool_name''))
                               (dget item ''name'')) (PStr (index_name i))),
               tt_status = py_str (py_or (dget item ''status'') (PStr ''unknown'')),
               tt_result = (case result of PStr s \<Rightarrow> s | PNone \<Rightarrow> [] | r \<Rightarrow> sv_dumps sv r)\<rparr>)
      | _ \<Rightarrow> \<lparr>tt_tool_id = index_name i, tt_status = ''unknown'', tt_result = py_str v\<rparr>)"

definition parse_gateway_tool_calls :: "cp_services \<Rightarrow> pyval \<Rightarrow> tool_trace list" where
  "parse_gateway_tool_calls sv v =
     map (\<lambda>(i, item). parse_gateway_tool_call sv i item) (List.enumerate 0 (as_list v))"

definition gateway_response_containers :: "pydict \<Rightarrow> pydict list" where
  "gateway_response_containers payload =
     payload # List.map_filter (\<lambda>key. case dget payload key of PDict d \<Rightarrow> Some d | _ \<Rightarrow> None)
                 [''data'', ''result'', ''output'', ''trace'']"

fun only_dict :: "pyval \<Rightarrow> pydict option" where
  "only_dict (PDict d) = Some d"
| "only_dict v = None"

fun gateway_dict_items :: "pyval \<Rightarrow> pydict list" where
  "gateway_dict_items (PDict d) = [d]"
| "gateway_dict_items (PList xs) = List.map_filter only_dict xs"
| "gateway_dict_items v = []"

definition decode_json_mapping :: "cp_services \<Rightarrow> pyval \<Rightarrow> pydict option" where
  "decode_json_mapping sv v =
     (case v of
        PDict d \<Rightarrow> Some d
      | PStr s \<Rightarrow> if py_strip s = [] then None
                  else (case sv_loads sv s of Some (PDict d) \<Rightarrow> Some d | _ \<Rightarrow> None)
      | _ \<Rightarrow> None)"

definition copied_keys :: "string list" where
  "copied_keys = [''approval_id'', ''id'', ''tool_id'', ''tool_name'', ''name'', ''reason'', ''summary'',
                  ''arguments'', ''input'', ''payload'']"

definition copy_key :: "pydict \<Rightarrow> string \<Rightarrow> pydict \<Rightarrow> pydict" where
  "copy_key item key request =
     (if dget item key \<noteq> PNone \<and> dget request key = PNone then dset key (dget item key) request else request)"

definition approval_request_from_tool_call :: "pydict \<Rightarrow> pydict option \<Rightarrow> pydict option" where
  "approval_request_from_tool_call item nested =
     (let status = py_strip (text_or_empty (dget item ''status''));
          inner = (case nested of None \<Rightarrow> [] | Some d \<Rightarrow> d)
      in if status \<notin> set APPROVAL_PENDING_STATUSES \<and> \<not> truthy (dget item ''approval_id'') then None
         else (let request = filter (\<lambda>(k, v). k \<notin> set [''approval_request'', ''approval_requests'']) inner;
                   request = fold (copy_key item) copied_keys request;
                   request = (if dget request ''tool_id'' = PNone \<and> dget item ''name'' \<noteq> PNone
                              then dset ''tool_id'' (dget item ''name'') request else request);
                   nested_id = py_or (dget inner ''approval_id'') (dget inner ''id'');
                   request = (if dget request ''approval_id'' = PNone \<and> inner \<noteq> [] \<and> nested_id \<noteq> PNone
                              then dset ''approval_id'' nested_id request else request)
               in if request = [] then None else Some request))"

text \<open>The requests one tool call of the reply carries; an empty mapping is falsy.\<close>

definition approval_requests_from_tool_call :: "cp_services \<Rightarrow> pydict \<Rightarrow> pydict list" where
  "approval_requests_from_tool_call sv item =
     (let decoded = decode_json_mapping sv (dget item ''result'');
          nested = (case decoded of
                      Some (p # d) \<Rightarrow> decoded
                    | _ \<Rightarrow> decode_json_mapping sv (dget item ''output''))
      in gateway_dict_items (dget item ''approval_request'') @
         gateway_dict_items (dget item ''approval_requests'') @
         (case nested of
            Some (p # d) \<Rightarrow>
              gateway_dict_items (dget (p # d) ''approval_request'') @
              gateway_dict_items (dget (p # d) ''approval_requests'')
          | _ \<Rightarrow> []) @
         (case approval_request_from_tool_call item nested of None \<Rightarrow> [] | Some r \<Rightarrow> [r]))"

definition approval_requests_from_tool_calls :: "cp_services \<Rightarrow> pyval \<Rightarrow> pydict list" where
  "approval_requests_from_tool_calls sv v =
     concat (map (approval_requests_from_tool_call sv) (List.map_filter only_dict (as_list v)))"

definition request_key :: "pydict \<Rightarrow> string option" where
  "request_key r =
     (let v = py_or (dget r ''approval_id'') (dget r ''id'') in if truthy v then Some (py_str v) else None)"

fun dedupe_from :: "string list \<Rightarrow> pydict list \<Rightarrow> pydict list" where
  "dedupe_from seen [] = []"
| "dedupe_from seen (r # rs) =
     (case request_key r of
        None \<Rightarrow> r # dedupe_from seen rs
      | Some k \<Rightarrow> if k \<in> set seen then dedupe_from seen rs else r # dedupe_from (k # seen) rs)"

definition dedupe_approval_requests :: "pydict list \<Rightarrow> pydict list" where
  "dedupe_approval_requests requests = dedupe_from [] requests"

definition parse_gateway_approval_requests :: "pydict \<Rightarrow> pydict list" where
  "parse_gateway_approval_requests payload =
     dedupe_approval_requests (concat (map (\<lambda>c.
        gateway_dict_items (dget c ''approval_requests'') @ gateway_dict_items (dget c ''approvals'') @
        gateway_dict_items (dget c ''pending_approvals'')) (gateway_response_containers payload)))"

text \<open>Only the last candidate is current: \<open>requests[-1:]\<close>.\<close>

definition parse_gateway_tool_approval_requests :: "cp_services \<Rightarrow> pydict \<Rightarrow> pydict list" where
  "parse_gateway_tool_approval_requests sv payload =
     (let requests = dedupe_approval_requests (concat (map (\<lambda>c.
            approval_requests_from_tool_calls sv (dget c ''tool_calls'') @
            approval_requests_from_tool_calls sv (dget c ''tool_observations''))
          (gateway_response_containers payload)))
      in drop (length requests - 1) requests)"

definition parse_gateway_status :: "pydict \<Rightarrow> string" where
  "parse_gateway_status payload =
     (case dget payload ''status'' of
        PStr s \<Rightarrow> if py_strip s \<noteq> [] then py_strip s else ''succeeded''
      | _ \<Rightarrow> ''succeeded'')"

definition answer_candidates :: "pydict \<Rightarrow> pyval list" where
  "answer_candidates payload =
     [dget payload ''answer'', dget payload ''content'', dget payload ''message''] @
     concat (map (\<lambda>key. case dget payload key of
                        PDict d \<Rightarrow> [dget d ''answer'', dget d ''content'', dget d ''message'']
                      | v \<Rightarrow> [v]) [''output'', ''result'', ''data''])"

fun filled_text :: "pyval \<Rightarrow> bool" where
  "filled_text (PStr s) = (py_strip s \<noteq> [])"
| "filled_text v = False"

definition parse_gateway_answer :: "cp_services \<Rightarrow> pydict \<Rightarrow> string" where
  "parse_gateway_answer sv payload =
     (case find filled_text (answer_candidates payload) of
        Some v \<Rightarrow> py_strip (py_str v)
      | None \<Rightarrow> sv_dumps sv (PDict payload))"

definition parse_gateway_response :: "cp_services \<Rightarrow> pydict \<Rightarrow> string \<Rightarrow> run_response" where
  "parse_gateway_response sv response fallback_run_id =
     (let calls = dget response ''tool_calls'';
          calls = (if calls = PNone then dget response ''tool_observations'' else calls);
          calls = (if calls = PNone
                   then (case dget response ''trace'' of PDict t \<Rightarrow> dget t ''tool_calls'' | _ \<Rightarrow> calls) else calls);
          status = parse_gateway_status response;
          requests = parse_gateway_approval_requests response;
          requests = (if requests = [] \<and> status \<in> set APPROVAL_PENDING_STATUSES
                      then parse_gateway_tool_approval_requests sv response else requests);
          final = (if status \<in> set APPROVAL_PENDING_STATUSES then ''pending_approval''
                   else if status = ''succeeded'' \<and> requests \<noteq> [] then ''pending_approval'' else status);
          answer = parse_gateway_answer sv response;
          answer = (if final = ''pending_approval'' \<and>
                       \<not> list_ex (\<lambda>key. filled_text (dget response key)) [''answer'', ''content'', ''message'']
                    then ''waiting for approval'' else answer)
      in \<lparr>rr_run_id = py_str (py_or (dget response ''run_id'') (PStr fallback_run_id)), rr_answer = answer,
          rr_tool_calls = parse_gateway_tool_calls sv calls, rr_status = final,
          rr_approval_requests = requests\<rparr>)"

section \<open>Calling the gateway\<close>

definition strip_slashes :: "string \<Rightarrow> string" where
  "strip_slashes s = rev (dropWhile (\<lambda>c. c = CHR ''/'') (rev s))"

definition gateway_runs_url :: "string \<Rightarrow> string" where
  "gateway_runs_url base = strip_slashes base @ ''/v1/gateway/runs''"

definition decode_gateway_error_detail :: "cp_services \<Rightarrow> string \<Rightarrow> string" where
  "decode_gateway_error_detail sv raw =
     (let t = py_strip raw
      in if t = [] then ''gateway request failed''
         else case sv_loads sv t of
                None \<Rightarrow> t
              | Some payload \<Rightarrow>
                  (case payload of
                     PDict d \<Rightarrow>
                       (case dget d ''detail'' of
                          PStr detail \<Rightarrow> detail
                        | PNone \<Rightarrow> sv_dumps sv payload
                        | detail \<Rightarrow> sv_dumps sv detail)
                   | _ \<Rightarrow> sv_dumps sv payload))"

definition call_gateway_endpoint :: "cp_services \<Rightarrow> string \<Rightarrow> pydict \<Rightarrow> pydict cp" where
  "call_gateway_endpoint sv url payload =
     (case sv_post sv url payload of
        GwHttpError code body \<Rightarrow> Inl (GatewayRunnerError code (decode_gateway_error_detail sv body))
      | GwUnreachable reason \<Rightarrow> Inl (CpRuntimeError (''gateway unreachable: '' @ reason))
      | GwText t \<Rightarrow>
          if py_strip t = [] then Inr []
          else (case sv_loads sv t of
                  None \<Rightarrow> Inr [(''answer'', PStr t)]
                | Some (PDict d) \<Rightarrow> Inr d
                | Some v \<Rightarrow> Inr [(''answer'', v)]))"

definition run_gateway_once ::
  "cp_config \<Rightarrow> cp_services \<Rightarrow> pydict \<Rightarrow> string \<Rightarrow> run_response cp" where
  "run_gateway_once c sv payload fallback_run_id =
     (if \<not> opt_truthy (cc_runner_gateway_url c) then Inl (CpRuntimeError ''RUNNER_GATEWAY_URL not configured'')
      else case call_gateway_endpoint sv (gateway_runs_url (the (cc_runner_gateway_url c))) payload of
             Inl e \<Rightarrow> Inl e
           | Inr response \<Rightarrow> Inr (parse_gateway_response sv response fallback_run_id))"

definition gateway_approval_decision_url :: "string \<Rightarrow> string \<Rightarrow> string" where
  "gateway_approval_decision_url base approval_id =
     strip_slashes base @ ''/v1/gateway/approvals/'' @ url_quote [] approval_id @ ''/decide''"

definition decide_gateway_approval ::
  "cp_config \<Rightarrow> cp_services \<Rightarrow> string \<Rightarrow> pydict \<Rightarrow> run_response cp" where
  "decide_gateway_approval c sv approval_id payload =
     (if \<not> opt_truthy (cc_runner_gateway_url c) then Inl (CpRuntimeError ''RUNNER_GATEWAY_URL not configured'')
      else case call_gateway_endpoint sv
                  (gateway_approval_decision_url (the (cc_runner_gateway_url c)) approval_id) payload of
             Inl e \<Rightarrow> Inl e
           | Inr response \<Rightarrow> Inr (parse_gateway_response sv response []))"

end
