(* ===== verification/Cp_Runs.thy ===== *)
theory Cp_Runs
  imports Cp_Agents Cp_Gateway
begin

text \<open>
  Running an agent: the run tables of \<open>db.py\<close>, the context of a release
  (\<open>runtime_context.py\<close> of the control plane), the access checks of \<open>api.py\<close> and the routes that
  run a draft or a release. A release's tool entries are taken to name their tool by a text
  (the source raises \<open>TypeError\<close> for an unhashable id).
\<close>

section \<open>Runs (\<open>db.py\<close>)\<close>

text \<open>
  A write that records a run fails when one of its texts has a NUL character, which PostgreSQL's text
  columns refuse, and when the database cannot be reached or refuses it for another reason: the field
  \<open>cv_write_fails\<close> of the environment says so for the texts of the write and the number of rows the two logs have
  at that moment.
\<close>

definition unwritable :: "cp_env \<Rightarrow> cp_db \<Rightarrow> string list \<Rightarrow> bool" where
  "unwritable v db texts \<longleftrightarrow>
     list_ex (\<lambda>t. CHR 0x00 \<in> set t) texts \<or>
     cv_write_fails v (length (d_audit db) + length (d_tool_calls db)) texts"

definition opt_texts :: "string option \<Rightarrow> string list" where
  "opt_texts x = (case x of None \<Rightarrow> [] | Some t \<Rightarrow> [t])"

definition create_run ::
  "cp_env \<Rightarrow> string \<Rightarrow> string \<Rightarrow> string option \<Rightarrow> string option \<Rightarrow> (cp_db, unit) action" where
  "create_run v run message agent actor = transaction (\<lambda>db.
     if unwritable v db (run # message # opt_texts agent @ opt_texts actor) then Inl (DbError ''agent_runs'')
     else if list_ex (\<lambda>r. rn_run_id r = run) (d_runs db) then Inl (DbError ''agent_runs_pkey'')
     else Inr (db\<lparr>
       d_runs := d_runs db @
         [\<lparr>rn_run_id = run, rn_message = message, rn_answer = None, rn_status = ''running'',
           rn_error = None, rn_agent_id = agent, rn_actor_id = actor, rn_created_at = cv_now v,
           rn_completed_at = None\<rparr>],
       d_audit := d_audit db @
         [\<lparr>au_run_id = run, au_event_type = ''run_started'', au_detail = ''run accepted''\<rparr>]\<rparr>))"

definition complete_run ::
  "cp_env \<Rightarrow> string \<Rightarrow> string option \<Rightarrow> string option \<Rightarrow> run_row \<Rightarrow> run_row" where
  "complete_run v status answer err r =
     r\<lparr>rn_status := status, rn_answer := answer, rn_error := err, rn_completed_at := Some (cv_now v)\<rparr>"

text \<open>The audit row references its run: for an unknown run the transaction fails.\<close>

definition update_run ::
  "cp_env \<Rightarrow> string \<Rightarrow> string \<Rightarrow> string option \<Rightarrow> string option \<Rightarrow> (cp_db, unit) action" where
  "update_run v run status answer err = transaction (\<lambda>db.
     if unwritable v db (run # status # opt_texts answer @ opt_texts err) then Inl (DbError ''agent_runs'')
     else if \<not> list_ex (\<lambda>r. rn_run_id r = run) (d_runs db) then Inl (DbError ''audit_logs_run_id_fkey'')
     else Inr (db\<lparr>
       d_runs := update_rows (\<lambda>r. rn_run_id r = run) (complete_run v status answer err) (d_runs db),
       d_audit := d_audit db @
         [\<lparr>au_run_id = run, au_event_type = ''run_'' @ status,
           au_detail = (if opt_truthy err then the err else ''run completed'')\<rparr>]\<rparr>))"

definition record_tool_call :: "cp_env \<Rightarrow> string \<Rightarrow> string \<Rightarrow> string \<Rightarrow> (cp_db, unit) action" where
  "record_tool_call v a t result = transaction (\<lambda>db.
     if unwritable v db [a, t, result] then Inl (DbError ''tool_call_logs'')
     else if \<not> list_ex (\<lambda>row. ag_id row = a) (d_agents db) then Inl (DbError ''tool_call_logs_agent_id_fkey'')
     else Inr (db\<lparr>d_tool_calls := d_tool_calls db @ [(a, t, result)]\<rparr>))"

definition fetch_runs :: "cp_db \<Rightarrow> run_row list" where
  "fetch_runs db = take 100 (sort_key (\<lambda>r. - rn_created_at r) (d_runs db))"

section \<open>The context of a release (\<open>runtime_context.py\<close>)\<close>

definition cp_release_tool_ids :: "pydict \<Rightarrow> string list" where
  "cp_release_tool_ids config =
     unique (List.map_filter
       (\<lambda>tool. case tool of
                 PDict d \<Rightarrow> if truthy (dget d ''tool_id'') then Some (get_text d ''tool_id'') else None
               | _ \<Rightarrow> None)
       (as_list (py_or (dget config ''tools'') (PList []))))"

definition active_entry :: "string list \<Rightarrow> pyval \<Rightarrow> pydict option" where
  "active_entry active tool =
     (case tool of
        PDict d \<Rightarrow> (case dget d ''tool_id'' of PStr t \<Rightarrow> if t \<in> set active then Some d else None | _ \<Rightarrow> None)
      | _ \<Rightarrow> None)"

definition release_scopes :: "pydict list \<Rightarrow> (string \<times> scope) list cp" where
  "release_scopes tools =
     (case traverse (\<lambda>d. case authz_normalize_scope (dget d ''scope'') of
                           Inl e \<Rightarrow> Inl e | Inr s \<Rightarrow> Inr (get_text d ''tool_id'', s)) tools of
        Inl e \<Rightarrow> Inl e
      | Inr entries \<Rightarrow> Inr (fold (\<lambda>(t, s). AList.update t s) entries []))"

definition context_agent :: "pydict \<Rightarrow> pydict" where
  "context_agent config =
     [(''id'', dget config ''id''), (''name'', py_or (dget config ''name'') (PStr ''released-agent'')),
      (''icon'', py_or (dget config ''icon'') (PStr ''robot'')),
      (''visibility'', py_or (dget config ''visibility'') (PStr ''private'')),
      (''members'', PList (as_list (py_or (dget config ''members'') (PList [])))),
      (''owner_user_id'', dget config ''owner_user_id''),
      (''system_prompt'', py_or (dget config ''system_prompt'') (PStr [])),
      (''model'', dget config ''model''),
      (''enabled'', PBool (truthy (dget_or config ''enabled'' (PBool True)))),
      (''channels'', PList (as_list (py_or (dget config ''channels'') (PList []))))]"

definition cp_build_runtime_context ::
  "cp_db \<Rightarrow> agent_release_row \<Rightarrow> string option \<Rightarrow> string option \<Rightarrow> pydict cp" where
  "cp_build_runtime_context db l actor channel =
     (case dget (ar_config_json l) ''agent'' of
        PDict agent_config \<Rightarrow>
          (case py_or (dget (ar_config_json l) ''tools'') (PList []) of
             PList raw_tools \<Rightarrow>
               (let released = cp_release_tool_ids (ar_config_json l);
                    active = cp_active_tool_ids db released;
                    tools = List.map_filter (active_entry active) raw_tools
                in case release_scopes tools of
                     Inl e \<Rightarrow> Inl e
                   | Inr scopes \<Rightarrow>
                       Inr [(''release'', PDict [(''release_id'', PStr (ar_id l)), (''agent_id'', PStr (ar_agent_id l)),
                                               (''version'', PInt (ar_version l)), (''status'', PStr (ar_status l))]),
                            (''agent'', PDict (context_agent agent_config)),
                            (''actor'', PDict [(''actor_id'', opt_val actor)]),
                            (''channel'', opt_val channel),
                            (''tools'', PList (map PDict tools)),
                            (''tool_ids'', texts_val (sort (map fst scopes))),
                            (''tool_scopes'', scopes_val scopes),
                            (''policy'', PDict [(''source'', PStr ''agent_release''),
                               (''disabled_tools_filtered'',
                                texts_val (sort (filter (\<lambda>t. t \<notin> set active) released)))])])
           | _ \<Rightarrow> Inl (CpValueError ''release tools invalid''))
      | _ \<Rightarrow> Inl (CpValueError ''release agent config missing''))"

text \<open>The three sections are dictionaries in every context \<open>cp_build_runtime_context\<close> returns.\<close>

definition runner_agent_from_context :: "pydict \<Rightarrow> pydict cp" where
  "runner_agent_from_context context =
     (case (dget context ''agent'', dget context ''tool_scopes'', dget context ''release'') of
        (PDict agent, PDict tool_scopes, PDict release) \<Rightarrow>
          Inr [(''owner_user_id'', dget agent ''owner_user_id''),
               (''enabled'', PBool (truthy (dget_or agent ''enabled'' (PBool True)))),
               (''name'', dget agent ''name''), (''icon'', dget agent ''icon''),
               (''visibility'', py_or (dget agent ''visibility'') (PStr ''private'')),
               (''members'', PList (as_list (py_or (dget agent ''members'') (PList [])))),
               (''system_prompt'', py_or (dget agent ''system_prompt'') (PStr [])),
               (''model'', dget agent ''model''),
               (''tools'', texts_val (map fst tool_scopes)), (''tool_scopes'', PDict tool_scopes),
               (''snapshot_tools'', texts_val (map fst tool_scopes)),
               (''channels'', PList (as_list (py_or (dget agent ''channels'') (PList [])))),
               (''release_id'', dget release ''release_id''), (''release_version'', dget release ''version'')]
      | _ \<Rightarrow> Inl (CpValueError ''runtime context invalid''))"

definition fetch_runtime_context ::
  "cp_db \<Rightarrow> string \<Rightarrow> string \<Rightarrow> string option \<Rightarrow> string option \<Rightarrow> pydict option cp" where
  "fetch_runtime_context db a l actor channel =
     (case cp_fetch_agent_release db a l of
        None \<Rightarrow> Inr None
      | Some row \<Rightarrow>
          (case cp_build_runtime_context db row actor channel of Inl e \<Rightarrow> Inl e | Inr c \<Rightarrow> Inr (Some c)))"

section \<open>Access (\<open>api.py\<close>)\<close>

text \<open>A failed check that records the denial before it raises.\<close>

definition guard_denied :: "bool \<Rightarrow> string \<Rightarrow> string \<Rightarrow> string \<Rightarrow> string \<Rightarrow> (cp_db, unit) action" where
  "guard_denied ok a actor reason detail =
     (if ok then give ()
      else andthen (record_permission_event (Some a) actor ''tool_denied'' reason)
             (raise (HTTPException 403 detail)))"

definition resolve_agent_access ::
  "string \<Rightarrow> string \<Rightarrow> string \<Rightarrow> (cp_db, pydict \<times> string list) action" where
  "resolve_agent_access a actor channel =
     chain (require_agent a) (\<lambda>agent.
       chain (query (\<lambda>db. truthy (dget agent ''enabled'') \<and> user_active db actor)) (\<lambda>active.
         andthen (guard_denied active a actor ''agent or owner inactive'' ''agent or owner unavailable'')
           (chain (query (\<lambda>db. can_run_agent db actor agent)) (\<lambda>may_run.
              andthen (guard_denied may_run a actor ''actor cannot run agent'' ''may not run this agent'')
                (andthen (guard_denied (channel \<in> set (texts_of (dget agent ''channels''))) a actor
                            ''channel not allowed'' ''channel not authorized'')
                  (chain (query_cp (\<lambda>db. user_tool_scopes db actor)) (\<lambda>grants.
                     let allowed = authz_effective_tools (texts_of (dget agent ''tools''))
                                     (texts_of (dget agent ''snapshot_tools'')) (map fst grants)
                     in chain (query (\<lambda>db. cp_active_tool_ids db allowed)) (\<lambda>active_ids.
                          give (agent, filter (\<lambda>t. t \<in> set active_ids) allowed)))))))))"

definition resolve_release_access ::
  "string \<Rightarrow> string \<Rightarrow> string \<Rightarrow> string \<Rightarrow> (cp_db, pydict \<times> string list) action" where
  "resolve_release_access a l actor channel =
     chain (query_cp (\<lambda>db. fetch_runtime_context db a l (Some actor) (Some channel))) (\<lambda>found.
       andthen (require (found \<noteq> None) (HTTPException 404 ''release does not exist''))
         (let context = the found
          in chain (query_cp (\<lambda>_. runner_agent_from_context context)) (\<lambda>agent.
            let released = texts_of (dget context ''tool_ids'')
            in chain (query_cp (\<lambda>db. user_tool_scopes db actor)) (\<lambda>grants.
              let allowed = authz_effective_tools released released (map fst grants)
              in andthen (require (py_eq (dget (as_dict (dget context ''release'')) ''status'') (PStr ''published''))
                            (HTTPException 409 ''release not runnable''))
                   (chain (query (\<lambda>db. agent_is_enabled db a = Some True)) (\<lambda>enabled.
                      andthen (guard_denied enabled a actor ''agent disabled'' ''agent disabled by the platform'')
                        (chain (query (\<lambda>db. can_run_agent db actor agent)) (\<lambda>may_run.
                           andthen (guard_denied may_run a actor ''actor cannot run release''
                                      ''may not run this release'')
                             (chain (query (\<lambda>db. truthy (dget agent ''enabled'') \<and> user_active db actor)) (\<lambda>active.
                                andthen (guard_denied active a actor ''release agent or actor inactive''
                                           ''agent or user unavailable'')
                                  (andthen (guard_denied (channel \<in> set (texts_of (dget agent ''channels''))) a actor
                                              ''channel not allowed'' ''channel not authorized'')
                                    (give (agent, allowed)))))))))))))"

section \<open>Runs\<close>

record agent_run_request =
  ru_actor_id :: string
  ru_channel :: string
  ru_message :: string
  ru_session_id :: "string option"
  ru_tool_ids :: "string list"
  ru_runner_backend :: "string option"

definition selected_runner_backend :: "cp_config \<Rightarrow> agent_run_request \<Rightarrow> string" where
  "selected_runner_backend c r = opt_or (ru_runner_backend r) (cc_runner_backend c)"

definition draft_runtime_context ::
  "cp_db \<Rightarrow> string \<Rightarrow> pydict \<Rightarrow> string list \<Rightarrow> string \<Rightarrow> string \<Rightarrow> pydict" where
  "draft_runtime_context db a agent allowed_tools actor channel =
     (let tool_scopes = (case dget agent ''tool_scopes'' of
                           PDict d \<Rightarrow> d | _ \<Rightarrow> map (\<lambda>t. (t, PDict [])) allowed_tools);
          active_scopes = map (\<lambda>t. (t, dget_or tool_scopes t (PDict []))) (sort allowed_tools);
          manifests = fetch_tools_by_ids db (map fst active_scopes)
      in [(''release'', PNone),
          (''agent'', PDict
             [(''id'', PStr a), (''name'', dget agent ''name''), (''icon'', dget agent ''icon''),
              (''visibility'', py_or (dget agent ''visibility'') (PStr ''private'')),
              (''members'', texts_val (sort (texts_of (dget agent ''members'')))),
              (''owner_user_id'', dget agent ''owner_user_id''),
              (''system_prompt'', py_or (dget agent ''system_prompt'') (PStr [])),
              (''model'', dget agent ''model''),
              (''enabled'', PBool (truthy (dget_or agent ''enabled'' (PBool True)))),
              (''channels'', texts_val (sort (texts_of (dget agent ''channels''))))]),
          (''actor'', PDict [(''actor_id'', PStr actor)]), (''channel'', PStr channel),
          (''tools'', PList (map (\<lambda>(t, m). PDict (runtime_tool_manifest m (dget active_scopes t)))
                              (sorted_items manifests))),
          (''tool_ids'', texts_val (map fst active_scopes)), (''tool_scopes'', PDict active_scopes),
          (''policy'', PDict [(''source'', PStr ''agent_draft''), (''disabled_tools_filtered'', PList [])])])"

definition entry_allowed :: "string list \<Rightarrow> pyval \<Rightarrow> bool" where
  "entry_allowed allowed tool = (active_entry allowed tool \<noteq> None)"

definition filter_runtime_context_tools :: "pydict \<Rightarrow> string list \<Rightarrow> pydict" where
  "filter_runtime_context_tools context allowed_tools =
     (let filtered = (case py_or (dget context ''tools'') (PList []) of
                        PList raw_tools \<Rightarrow> dset ''tools'' (PList (filter (entry_allowed allowed_tools) raw_tools)) context
                      | _ \<Rightarrow> context);
          filtered = (case py_or (dget context ''tool_scopes'') (PDict []) of
                        PDict raw_scopes \<Rightarrow>
                          dset ''tool_scopes'' (PDict (filter (\<lambda>(t, s). t \<in> set allowed_tools) raw_scopes)) filtered
                      | _ \<Rightarrow> filtered)
      in dset ''tool_ids'' (texts_val (sort allowed_tools)) filtered)"

definition gateway_run_payload ::
  "string \<Rightarrow> string \<Rightarrow> string \<Rightarrow> agent_run_request \<Rightarrow> pydict \<Rightarrow> string list \<Rightarrow> string list \<Rightarrow> pydict cp" where
  "gateway_run_payload run a message r context requested_tools allowed_tools =
     (let filtered = filter_runtime_context_tools context allowed_tools
      in case dget filtered ''release'' of
           PDict release \<Rightarrow>
             if \<not> truthy (dget release ''release_id'')
             then Inl (CpRuntimeError ''the gateway runs releases only'')
             else Inr [(''agent_id'', PStr a), (''release_id'', PStr (get_text release ''release_id'')),
                       (''actor_id'', PStr (ru_actor_id r)), (''channel'', PStr (ru_channel r)),
                       (''message'', PStr message), (''session_id'', opt_val (ru_session_id r)),
                       (''stream'', PBool False),
                       (''metadata'', PDict
                          [(''platform_run_id'', PStr run), (''requested_tool_ids'', texts_val requested_tools),
                           (''allowed_tool_ids'', texts_val (sort allowed_tools)),
                           (''runtime_context'', PDict filtered)])]
         | _ \<Rightarrow> Inl (CpRuntimeError ''the gateway runs releases only''))"

definition execute_agent_run ::
  "cp_world \<Rightarrow> cp_services \<Rightarrow> cp_db \<Rightarrow> string \<Rightarrow> string \<Rightarrow> string \<Rightarrow> agent_run_request \<Rightarrow> pydict \<Rightarrow>
   string list \<Rightarrow> string list \<Rightarrow> pydict option \<Rightarrow> run_response cp" where
  "execute_agent_run w sv db run a message r agent allowed_tools requested_tools runtime_ctx =
     (if selected_runner_backend (cw_config w) r = ''debug''
      then case run_agent_once (cw_config w) sv agent message allowed_tools requested_tools of
             Inl e \<Rightarrow> Inl e
           | Inr (answer, calls) \<Rightarrow>
               Inr \<lparr>rr_run_id = run, rr_answer = answer, rr_tool_calls = calls, rr_status = ''succeeded'',
                    rr_approval_requests = []\<rparr>
      else let context = (case runtime_ctx of
                            Some (p # d) \<Rightarrow> p # d
                          | _ \<Rightarrow> draft_runtime_context db a agent allowed_tools (ru_actor_id r) (ru_channel r))
           in case gateway_run_payload run a message r context requested_tools allowed_tools of
                Inl e \<Rightarrow> Inl e
              | Inr payload \<Rightarrow> run_gateway_once (cw_config w) sv payload run)"

definition persist_agent_run_result ::
  "cp_env \<Rightarrow> string \<Rightarrow> string \<Rightarrow> run_response \<Rightarrow> (cp_db, unit) action" where
  "persist_agent_run_result v run a result =
     andthen (each (\<lambda>t. record_tool_call v a (tt_tool_id t) (tt_status t @ '': '' @ tt_result t)) (rr_tool_calls result))
       (update_run v run (rr_status result) (Some (rr_answer result)) None)"

text \<open>The message of a failed run, cut after 500 characters.\<close>

definition llm_error_detail :: "cp_error \<Rightarrow> string" where
  "llm_error_detail e =
     (let detail = py_strip (error_message e);
          detail = (if 500 < py_len detail then py_take 500 detail @ ''...'' else detail)
      in if detail = [] then ''LLM call failed'' else ''LLM call failed: '' @ detail)"

text \<open>A failure after the run is stored: the run becomes \<open>failed\<close> (if it can be updated), then 502.\<close>

definition fail_run :: "cp_env \<Rightarrow> string \<Rightarrow> cp_error \<Rightarrow> (cp_db, 'a) action" where
  "fail_run v run e =
     andthen (handle (update_run v run ''failed'' None (Some (error_message e))) (\<lambda>_. give ()))
       (raise (HTTPException 502 (llm_error_detail e)))"

fun audit_failure :: "cp_error \<Rightarrow> cp_error" where
  "audit_failure (DbError m) = HTTPException 503 ''audit log failed''"
| "audit_failure (CpRuntimeError m) = HTTPException 503 ''audit log failed''"
| "audit_failure e = e"

definition run_admitted ::
  "cp_world \<Rightarrow> string \<Rightarrow> string \<Rightarrow> agent_run_request \<Rightarrow> string \<Rightarrow> string \<Rightarrow>
   (cp_db, pydict \<times> string list) action \<Rightarrow> (cp_db, pydict \<times> string list) action" where
  "run_admitted w run a r message denial access =
     chain access (\<lambda>(agent, allowed_tools).
       andthen (guard_denied (set (ru_tool_ids r) \<subseteq> set allowed_tools) a (ru_actor_id r)
                  (denial @ py_join '','' (sorted_set (ru_tool_ids r))) ''tool not authorized'')
         (andthen (create_run (cw_env w) run message (Some a) (Some (ru_actor_id r)))
           (give (agent, allowed_tools))))"

definition finish_run ::
  "cp_world \<Rightarrow> cp_services \<Rightarrow> string \<Rightarrow> string \<Rightarrow> agent_run_request \<Rightarrow> string \<Rightarrow> pydict option \<Rightarrow>
   pydict \<times> string list \<Rightarrow> (cp_db, run_response) action" where
  "finish_run w sv run a r message runtime_ctx admitted =
     (case admitted of (agent, allowed_tools) \<Rightarrow>
        chain (handle (query_cp (\<lambda>db. execute_agent_run w sv db run a message r agent allowed_tools
                          (unique (ru_tool_ids r)) runtime_ctx))
                 (fail_run (cw_env w) run)) (\<lambda>result.
          andthen (rethrow audit_failure (persist_agent_run_result (cw_env w) run a result)) (give result)))"

definition run_release_route ::
  "cp_world \<Rightarrow> cp_services \<Rightarrow> string \<Rightarrow> string \<Rightarrow> string \<Rightarrow> agent_run_request \<Rightarrow> (cp_db, run_response) action" where
  "run_release_route w sv run a l r =
     (let message = py_strip (ru_message r)
      in andthen (require (message \<noteq> []) (HTTPException 422 ''message is empty''))
           (chain (rethrow db_failure
              (chain (query_cp (\<lambda>db. fetch_runtime_context db a l (Some (ru_actor_id r)) (Some (ru_channel r))))
                 (\<lambda>runtime_ctx.
                   chain (run_admitted w run a r message (''release='' @ l @ '';requested='')
                            (resolve_release_access a l (ru_actor_id r) (ru_channel r)))
                     (\<lambda>admitted. give (runtime_ctx, admitted)))))
              (\<lambda>(runtime_ctx, admitted). finish_run w sv run a r message runtime_ctx admitted)))"

definition run_agent_route ::
  "cp_world \<Rightarrow> cp_services \<Rightarrow> string \<Rightarrow> string \<Rightarrow> agent_run_request \<Rightarrow> (cp_db, run_response) action" where
  "run_agent_route w sv run a r =
     (let message = py_strip (ru_message r)
      in andthen (require (message \<noteq> []) (HTTPException 422 ''message is empty''))
           (chain (rethrow db_failure
              (run_admitted w run a r message ''requested=''
                 (resolve_agent_access a (ru_actor_id r) (ru_channel r))))
              (finish_run w sv run a r message None)))"

text \<open>\<open>POST /agents/{agent_id}/authorize\<close>.\<close>

definition authorize_route ::
  "string \<Rightarrow> string \<Rightarrow> string \<Rightarrow> string \<Rightarrow> string list \<Rightarrow> (cp_db, string list) action" where
  "authorize_route a actor channel tool overrides = rethrow db_failure
     (chain (resolve_agent_access a actor channel) (\<lambda>(agent, allowed_tools).
        andthen (guard_denied (set (tool # overrides) \<subseteq> set allowed_tools) a actor
                   (''requested='' @ py_join '','' (sorted_set (tool # overrides))) ''tool not authorized'')
          (give (sort allowed_tools))))"

text \<open>\<open>POST /runs\<close>: one model call without an agent; and the decision on a pending approval.\<close>

definition plain_run_route ::
  "cp_world \<Rightarrow> cp_services \<Rightarrow> string \<Rightarrow> string \<Rightarrow> (cp_db, string \<times> string) action" where
  "plain_run_route w sv run raw_message =
     (let message = py_strip raw_message
      in andthen (require (message \<noteq> []) (HTTPException 422 ''message is empty''))
           (andthen (rethrow db_failure (create_run (cw_env w) run message None None))
              (chain (handle (query_cp (\<lambda>_. call_llm_messages (cw_config w) sv [(''user'', message)] None))
                        (fail_run (cw_env w) run)) (\<lambda>answer.
                 andthen (rethrow audit_failure (update_run (cw_env w) run ''succeeded'' (Some answer) None))
                   (give (run, answer))))))"

fun decision_failure :: "cp_error \<Rightarrow> cp_error" where
  "decision_failure (GatewayRunnerError code detail) = HTTPException code detail"
| "decision_failure (DbError m) = HTTPException 502 (llm_error_detail (DbError m))"
| "decision_failure (CpRuntimeError m) = HTTPException 502 (llm_error_detail (CpRuntimeError m))"
| "decision_failure e = e"

definition decide_gateway_approval_route ::
  "cp_world \<Rightarrow> cp_services \<Rightarrow> string option \<Rightarrow> string \<Rightarrow> string \<Rightarrow> string \<Rightarrow> string \<Rightarrow> (cp_db, run_response) action" where
  "decide_gateway_approval_route w sv authorization approval_id actor verdict note = rethrow decision_failure
     (andthen (require_current_actor w authorization actor)
       (chain (query_cp (\<lambda>_. decide_gateway_approval (cw_config w) sv approval_id
                 [(''actor_id'', PStr actor), (''decision'', PStr verdict), (''comment'', PStr note),
                  (''decided_by'', PStr actor)])) (\<lambda>result.
          andthen (if rr_run_id result \<noteq> []
                   then update_run (cw_env w) (rr_run_id result) (rr_status result) (Some (rr_answer result)) None
                   else give ())
            (give result))))"

end
