(* ===== verification/Cp_Discovery.thy ===== *)
theory Cp_Discovery
  imports Cp_Catalog
begin

text \<open>
  Discovery of the tools of an MCP server (\<open>mcp_discovery.py\<close>) and the route that stores them. The
  listing of the server (one page per cursor, or the exception of the session) and the values of
  environment variables are arguments. What the server says of a tool decides its governance:
  a tool that is not known to be read-only needs an approval.
\<close>

section \<open>Names\<close>

definition READ_ONLY_NAME_TOKENS :: "string list" where
  "READ_ONLY_NAME_TOKENS =
     [''around'', ''distance'', ''direction'', ''fetch'', ''geo'', ''geocode'', ''get'', ''ip_location'',
      ''list'', ''lookup'', ''query'', ''read'', ''regeocode'', ''route'', ''search'', ''text_search'',
      ''weather'']"

definition WRITE_NAME_TOKENS :: "string list" where
  "WRITE_NAME_TOKENS =
     [''book'', ''cancel'', ''create'', ''delete'', ''modify'', ''post'', ''publish'', ''remove'', ''send'',
      ''take_taxi'', ''update'', ''write'']"

definition alnum :: "char \<Rightarrow> bool" where
  "alnum c \<longleftrightarrow> is_letter c \<or> is_digit c"

text \<open>\<open>re.sub(r"[^a-zA-Z0-9._-]+", "_", name)\<close>: a run of other characters becomes one underscore.\<close>

definition safe_char :: "char \<Rightarrow> bool" where
  "safe_char c \<longleftrightarrow> alnum c \<or> c \<in> set ''._-''"

fun replace_runs :: "bool \<Rightarrow> string \<Rightarrow> string" where
  "replace_runs in_run [] = []"
| "replace_runs in_run (c # s) =
     (if safe_char c then c # replace_runs False s
      else if in_run then replace_runs True s
      else CHR ''_'' # replace_runs True s)"

definition strip_marks :: "string \<Rightarrow> string" where
  "strip_marks s =
     (let mark = (\<lambda>c. c \<in> set ''._-'') in rev (dropWhile mark (rev (dropWhile mark s))))"

definition discovered_id :: "cp_env \<Rightarrow> string \<Rightarrow> string \<Rightarrow> string" where
  "discovered_id v cid remote_name =
     (let stripped = strip_marks (replace_runs False remote_name);
          safe_name = (if stripped = [] then ''tool'' else stripped);
          name = (if safe_name \<noteq> remote_name
                  then safe_name @ ''.'' @ py_take 8 (cv_sha256 v remote_name) else safe_name)
      in ''mcp.'' @ cid @ ''.'' @ name)"

text \<open>The maximal runs of ASCII letters and digits of the lowered name.\<close>

fun words :: "string \<Rightarrow> string \<Rightarrow> string list" where
  "words w [] = (if w = [] then [] else [w])"
| "words w (c # s) =
     (if alnum c then words (w @ [c]) s
      else (if w = [] then [] else [w]) @ words [] s)"

definition name_tokens :: "string \<Rightarrow> string list" where
  "name_tokens remote_name = words [] (py_lower remote_name)"

definition infer_read_only :: "string \<Rightarrow> pydict \<Rightarrow> bool" where
  "infer_read_only remote_name annotations =
     (if has_key annotations ''readOnlyHint'' then dget annotations ''readOnlyHint'' = PBool True
      else let ts = name_tokens remote_name
           in if list_ex (\<lambda>t. t \<in> set WRITE_NAME_TOKENS) ts then False
              else list_ex (\<lambda>t. t \<in> set READ_ONLY_NAME_TOKENS) ts)"

section \<open>Definitions\<close>

definition side_effects :: "bool \<Rightarrow> bool \<Rightarrow> bool \<Rightarrow> string" where
  "side_effects read_only destructive open_world =
     (if read_only then (if open_world then ''external_read'' else ''none'')
      else if destructive then ''destructive''
      else if open_world then ''external_write'' else ''internal_write'')"

definition remote_tool_to_definition :: "cp_env \<Rightarrow> connection_row \<Rightarrow> pyval \<Rightarrow> tool_def cp" where
  "remote_tool_to_definition v m remote =
     (case remote of
        PDict payload \<Rightarrow>
          (let remote_name = py_strip (text_or_empty (dget payload ''name''));
               annotations = as_dict (dget payload ''annotations'');
               read_only = infer_read_only remote_name annotations;
               idempotent = (dget annotations ''idempotentHint'' = PBool True \<or> read_only);
               destructive = (dget_or annotations ''destructiveHint'' (PBool (\<not> read_only)) \<noteq> PBool False);
               open_world = (dget_or annotations ''openWorldHint'' (PBool True) \<noteq> PBool False)
           in if remote_name = [] then Inl (CpValueError ''MCP tool lacks a name'')
              else case py_int (py_or (dget (as_dict (m_config m)) ''call_timeout_ms'') (PInt 30000)) of
                     None \<Rightarrow> Inl (CpValueError ''call_timeout_ms invalid'')
                   | Some timeout \<Rightarrow>
                       Inr \<lparr>td_tool_id = discovered_id v (m_id m) remote_name,
                            td_name = py_str (py_or (dget payload ''title'') (PStr remote_name)),
                            td_description = text_or_empty (dget payload ''description''),
                            td_status = ''active'', td_source = ''mcp'',
                            td_runner_tool_id = Some (connection_uri m), td_runner_name = Some remote_name,
                            td_mcp_connection_id = Some (m_id m), td_mcp_connection = Some m,
                            td_version = ''mcp-v'' @ int_text (m_config_version m),
                            td_read_only = read_only, td_idempotent = idempotent,
                            td_parallel_safe = (read_only \<and> idempotent),
                            td_requires_approval = (\<not> read_only),
                            td_side_effect_level = side_effects read_only destructive open_world,
                            td_data_sensitivity = ''internal'',
                            td_network_access = (if open_world then ''external'' else ''internal_only''),
                            td_layer = ''integration'', td_category = ''mcp_tool'', td_namespace = m_id m,
                            td_group_id = ''mcp.'' @ m_id m, td_group_name = m_name m, td_timeout_ms = timeout,
                            td_input_schema = as_dict (dget payload ''inputSchema''), td_scope_schema = [],
                            td_scope_descriptions = [], td_manifest_hash = []\<rparr>)
      | _ \<Rightarrow> Inl (CpValueError ''MCP tools/list returned an unknown tool''))"

section \<open>The listing\<close>

text \<open>A page: the tools and the next cursor; at most \<open>n\<close> pages are read.\<close>

type_synonym remote_listing = "string option \<Rightarrow> cp_error + pyval list \<times> string option"

fun list_pages_from :: "nat \<Rightarrow> remote_listing \<Rightarrow> string option \<Rightarrow> pyval list cp" where
  "list_pages_from 0 remote cursor = Inl (CpRuntimeError ''MCP tools/list exceeds 100 pages'')"
| "list_pages_from (Suc n) remote cursor =
     (case remote cursor of
        Inl e \<Rightarrow> Inl e
      | Inr (tools, following) \<Rightarrow>
          if \<not> opt_truthy following then Inr tools
          else (case list_pages_from n remote following of Inl e \<Rightarrow> Inl e | Inr more_tools \<Rightarrow> Inr (tools @ more_tools)))"

definition list_all_tools :: "remote_listing \<Rightarrow> pyval list cp" where
  "list_all_tools remote = list_pages_from 100 remote None"

text \<open>The credentials the transport needs: a bearer token unless a header carries one, and every variable.\<close>

definition transport_ready :: "(string \<Rightarrow> string) \<Rightarrow> connection_row \<Rightarrow> unit cp" where
  "transport_ready env m =
     (let config = as_dict (m_config m)
      in if m_transport m = ''streamable_http''
         then (let bearer_env = dget config ''bearer_env'';
                   has_header = list_ex (\<lambda>(k, v). py_lower k = ''authorization'') (as_dict (dget config ''headers''))
               in if truthy bearer_env \<and> \<not> has_header \<and> env (py_str bearer_env) = []
                  then Inl (CpValueError (''MCP bearer variable not configured: '' @ py_str bearer_env)) else Inr ())
         else (case find (\<lambda>k. env (py_str k) = []) (as_list (py_or (dget config ''env_vars'') (PList []))) of
                 Some k \<Rightarrow> Inl (CpValueError (''MCP stdio variable not configured: '' @ py_str k))
               | None \<Rightarrow> Inr ()))"

definition discover_tools ::
  "cp_env \<Rightarrow> (string \<Rightarrow> string) \<Rightarrow> remote_listing \<Rightarrow> connection_row \<Rightarrow> tool_def list cp" where
  "discover_tools v env remote m =
     (if m_status m \<noteq> ''active'' then Inl (CpValueError ''a disabled connection is not discovered'')
      else case transport_ready env m of
             Inl e \<Rightarrow> Inl e
           | Inr _ \<Rightarrow>
               (case list_all_tools remote of
                  Inl e \<Rightarrow> Inl e
                | Inr remote_tools \<Rightarrow>
                    (case traverse (remote_tool_to_definition v m) remote_tools of
                       Inl e \<Rightarrow> Inl e
                     | Inr tools \<Rightarrow>
                         if \<not> distinct (map td_tool_id tools)
                         then Inl (CpValueError ''MCP tools/list repeats a tool name'')
                         else Inr tools)))"

record discovery_view =
  dv_connection_id :: string
  dv_tool_ids :: "string list"
  dv_disabled_tool_ids :: "string list"

text \<open>Any exception of the discovery is a 502; the details of exception groups are not modelled.\<close>

definition discover_route ::
  "cp_world \<Rightarrow> (string \<Rightarrow> string) \<Rightarrow> remote_listing \<Rightarrow> string option \<Rightarrow> string \<Rightarrow> (cp_db, discovery_view) action" where
  "discover_route w env remote authorization cid =
     chain (rethrow db_failure
        (andthen (require_current_platform_admin w authorization)
          (chain (query (\<lambda>db. fetch_mcp_connection db cid)) (\<lambda>found.
             andthen (require (found \<noteq> None) (HTTPException 404 ''MCP connection does not exist''))
               (give (the found)))))) (\<lambda>m.
       chain (rethrow (\<lambda>e. HTTPException 502 ''MCP discovery failed'')
                (query_cp (\<lambda>_. discover_tools (cw_env w) env remote m))) (\<lambda>tools.
         chain (rethrow db_failure (replace_discovered_mcp_tools (cw_env w) cid tools)) (\<lambda>disabled.
           give \<lparr>dv_connection_id = cid, dv_tool_ids = sort (map td_tool_id tools),
                 dv_disabled_tool_ids = disabled\<rparr>)))"

end
