(* ===== verification/Cp_Frame.thy ===== *)
theory Cp_Frame
  imports Cp_Runs Cp_Discovery
begin

text \<open>
  Which tables the functions of \<open>db.py\<close> and the routes of \<open>api.py\<close> write. \<open>same_except T\<close>
  relates two states that agree outside the tables \<open>T\<close>; it is an \<open>evolution\<close>, so that the rules of the
  combinators carry it from the functions to the routes.
\<close>

section \<open>Tables\<close>

datatype cp_table =
    Users | User_Sessions | Roles | User_Roles | Role_Permissions | Role_Events | Policies | Preferences
  | Connections | Tools | Workflows | Agents | Members | Agent_Tools | Snapshots | Channels
  | Releases | Permission_Events | Runs | Audit | Tool_Calls

fun same_table :: "cp_table \<Rightarrow> cp_db \<Rightarrow> cp_db \<Rightarrow> bool" where
  "same_table Users s t = (d_users t = d_users s)"
| "same_table User_Sessions s t = (d_sessions t = d_sessions s)"
| "same_table Roles s t = (d_roles t = d_roles s)"
| "same_table User_Roles s t = (d_user_roles t = d_user_roles s)"
| "same_table Role_Permissions s t = (d_permissions t = d_permissions s)"
| "same_table Role_Events s t = (d_role_events t = d_role_events s)"
| "same_table Policies s t = (d_policies t = d_policies s)"
| "same_table Preferences s t = (d_preferences t = d_preferences s)"
| "same_table Connections s t = (d_connections t = d_connections s)"
| "same_table Tools s t = (d_tools t = d_tools s)"
| "same_table Workflows s t = (d_workflows t = d_workflows s)"
| "same_table Agents s t = (d_agents t = d_agents s)"
| "same_table Members s t = (d_members t = d_members s)"
| "same_table Agent_Tools s t = (d_agent_tools t = d_agent_tools s)"
| "same_table Snapshots s t = (d_snapshots t = d_snapshots s)"
| "same_table Channels s t = (d_channels t = d_channels s)"
| "same_table Releases s t = (d_releases t = d_releases s)"
| "same_table Permission_Events s t = (d_permission_events t = d_permission_events s)"
| "same_table Runs s t = (d_runs t = d_runs s)"
| "same_table Audit s t = (d_audit t = d_audit s)"
| "same_table Tool_Calls s t = (d_tool_calls t = d_tool_calls s)"

definition same_except :: "cp_table set \<Rightarrow> cp_db \<Rightarrow> cp_db \<Rightarrow> bool" where
  "same_except T s t \<longleftrightarrow> (\<forall>x. x \<notin> T \<longrightarrow> same_table x s t)"

lemma all_tables:
  "(\<forall>x. P x) \<longleftrightarrow>
     (P Users \<and> P User_Sessions \<and> P Roles \<and> P User_Roles \<and> P
      Role_Permissions \<and> P Role_Events \<and> P Policies \<and> P Preferences
      \<and> P Connections \<and> P Tools \<and> P Workflows \<and> P Agents \<and> P
      Members \<and> P Agent_Tools \<and> P Snapshots \<and> P Channels \<and> P
      Releases \<and> P Permission_Events \<and> P Runs \<and> P Audit \<and> P
      Tool_Calls)"
proof
  assume tables: "P Users \<and> P User_Sessions \<and> P Roles \<and> P User_Roles \<and> P
      Role_Permissions \<and> P Role_Events \<and> P Policies \<and> P Preferences
      \<and> P Connections \<and> P Tools \<and> P Workflows \<and> P Agents \<and> P
      Members \<and> P Agent_Tools \<and> P Snapshots \<and> P Channels \<and> P
      Releases \<and> P Permission_Events \<and> P Runs \<and> P Audit \<and> P
      Tool_Calls"
  show "\<forall>x. P x"
  proof
    fix x
    show "P x" using tables by (cases x) simp_all
  qed
qed simp

lemma same_table_refl: "same_table x s s"
  by (cases x) simp_all

lemma same_table_trans: "same_table x s t \<Longrightarrow> same_table x t u \<Longrightarrow> same_table x s u"
  by (cases x) simp_all

lemma same_except_refl: "same_except T s s"
  by (simp add: same_except_def same_table_refl)

lemma same_except_trans: "same_except T s t \<Longrightarrow> same_except T t u \<Longrightarrow> same_except T s u"
  unfolding same_except_def using same_table_trans by blast

interpretation frame: evolution "same_except T" for T
  by unfold_locales (fact same_except_refl, fact same_except_trans)

lemma same_except_mono: "same_except S s t \<Longrightarrow> S \<subseteq> T \<Longrightarrow> same_except T s t"
  unfolding same_except_def by blast

lemma frame_mono: "steps (same_except S) m \<Longrightarrow> S \<subseteq> T \<Longrightarrow> steps (same_except T) m"
  unfolding steps_def using same_except_mono by blast

lemma same_exceptD: "same_except T s t \<Longrightarrow> x \<notin> T \<Longrightarrow> same_table x s t"
  by (simp add: same_except_def)

section \<open>Functions of \<open>db.py\<close>\<close>

named_theorems write_sets \<open>the tables a function writes\<close>

lemmas frame_simps = steps_def transaction_def modify_def same_except_def all_tables Let_def

lemma users_frame [write_sets]:
  "steps (same_except {Users}) (upsert_user u status)"
  "steps (same_except {Users}) (ensure_user_exists u status)"
  by (simp_all add: upsert_user_def ensure_user_exists_def frame_simps split: sum.split)

lemma sessions_frame [write_sets]:
  "steps (same_except {User_Sessions}) (create_user_session v token u)"
  "steps (same_except {User_Sessions}) (revoke_user_session v token)"
  by (simp_all add: create_user_session_def revoke_user_session_def frame_simps split: sum.split)

lemma roles_frame [write_sets]:
  "steps (same_except {Roles}) (upsert_role r name description status sys)"
  "steps (same_except {Roles}) (create_custom_role r name description status)"
  "steps (same_except {Roles}) (update_custom_role r name description status)"
  "steps (same_except {Role_Events}) (record_role_change_event r actor kind status permissions)"
  "steps (same_except {Role_Permissions}) (replace_role_tool_permissions r permissions)"
  "steps (same_except {User_Roles}) (replace_user_roles u rs)"
  "steps (same_except {Role_Permissions, User_Roles, Roles}) (remove_role_everywhere r)"
  "steps (same_except {Role_Permissions, Agent_Tools, Tools}) (remove_tool_everywhere t)"
  by (simp_all add: upsert_role_def create_custom_role_def update_custom_role_def record_role_change_event_def
      replace_role_tool_permissions_def replace_user_roles_def remove_role_everywhere_def
      remove_tool_everywhere_def frame_simps split: sum.split)

lemma policies_frame [write_sets]:
  "steps (same_except {Policies}) (upsert_memory_namespace_policy v tenant ns mode allow actor)"
  "steps (same_except {Preferences}) (upsert_user_memory_preference v tenant u ns share)"
  by (simp_all add: upsert_memory_namespace_policy_def upsert_user_memory_preference_def frame_simps
      split: sum.split)

lemma put_tool_frame: "put_tool v t preserve s = Inr u \<Longrightarrow> same_except {Tools} s u"
  by (auto simp: put_tool_def same_except_def all_tables split: if_splits)

definition put_tools :: "cp_env \<Rightarrow> tool_def list \<Rightarrow> cp_error + cp_db \<Rightarrow> cp_error + cp_db" where
  "put_tools v ts r = foldl (\<lambda>acc t. case acc of Inl e \<Rightarrow> Inl e | Inr d \<Rightarrow> put_tool v t True d) r ts"

lemma put_tools_simps [simp]:
  "put_tools v [] r = r"
  "put_tools v (t # ts) (Inr d) = put_tools v ts (put_tool v t True d)"
  by (simp_all add: put_tools_def)

lemma put_tools_stuck [simp]: "put_tools v ts (Inl e) = Inl e"
  by (induction ts) (simp_all add: put_tools_def)

lemma put_tools_frame: "put_tools v ts (Inr s) = Inr u \<Longrightarrow> same_except {Tools} s u"
proof (induction ts arbitrary: s)
  case Nil
  then show ?case by (simp add: same_except_refl)
next
  case (Cons t ts)
  then obtain d where d: "put_tool v t True s = Inr d" by (cases "put_tool v t True s") simp_all
  with Cons have "same_except {Tools} s d" "same_except {Tools} d u"
    by (simp_all add: put_tool_frame)
  then show ?case by (rule same_except_trans)
qed

lemma connections_frame [write_sets]: "steps (same_except {Connections}) (upsert_mcp_connection v cid r)"
  by (simp add: upsert_mcp_connection_def frame_simps)

lemma tool_status_frame [write_sets]: "steps (same_except {Tools}) (update_tool_status i status)"
  by (simp add: update_tool_status_def frame_simps)

lemma tools_frame [write_sets]: "steps (same_except {Tools}) (upsert_tool v t)"
  unfolding upsert_tool_def by (rule frame.transaction_steps) (rule put_tool_frame)

lemma discovered_frame [write_sets]:
  "steps (same_except {Tools}) (replace_discovered_mcp_tools v cid tools)"
proof (rule frame.stepsI)
  fix s
  show "same_except {Tools} s (snd (replace_discovered_mcp_tools v cid tools s))"
  proof (cases "put_tools v tools (Inr s)")
    case (Inl e)
    then show ?thesis by (simp add: replace_discovered_mcp_tools_def put_tools_def same_except_refl)
  next
    case (Inr d)
    then have "same_except {Tools} s d" by (rule put_tools_frame)
    then show ?thesis using Inr
      by (simp add: replace_discovered_mcp_tools_def put_tools_def same_except_def all_tables Let_def)
  qed
qed

lemma publish_frame [write_sets]:
  "steps (same_except {Workflows, Tools}) (publish_workflow_version v tool actor)"
  by (simp add: publish_workflow_version_def put_tool_def frame_simps split: sum.split)

lemma retire_frame [write_sets]:
  "steps (same_except {Workflows, Tools}) (retire_workflow_version v w n actor)"
  by (simp add: retire_workflow_version_def frame_simps split: option.split)

lemma agents_frame [write_sets]:
  "steps (same_except {Permission_Events}) (record_permission_event a u kind detail)"
  "steps (same_except {Agents}) (update_agent_status g enabled)"
  "steps (same_except {Agents, Users, Members, Agent_Tools, Snapshots, Channels}) (save_agent v g r ps scopes)"
  "steps (same_except {Agents, Users, Members, Agent_Tools, Snapshots, Channels})
     (save_agent_update g r ps scopes actor)"
  by (simp_all add: record_permission_event_def update_agent_status_def save_agent_def save_agent_update_def
      frame_simps split: sum.split)

lemma releases_frame [write_sets]:
  "steps (same_except {Releases}) (save_agent_release v l a n config actor)"
  "steps (same_except {Releases}) (revoke_agent_release v a l)"
  by (simp_all add: save_agent_release_def revoke_agent_release_def frame_simps split: sum.split)

lemma runs_frame [write_sets]:
  "steps (same_except {Runs, Audit}) (create_run v run message a actor)"
  "steps (same_except {Runs, Audit}) (update_run v run status answer err)"
  "steps (same_except {Tool_Calls}) (record_tool_call v g t result)"
  by (simp_all add: create_run_def update_run_def record_tool_call_def frame_simps split: sum.split)

end
