(* ===== verification/Cp_System.thy ===== *)
theory Cp_System
  imports Cp_Frame
begin

text \<open>
  The control plane as a whole: a request is one value, \<open>serve\<close> runs its route (the dispatch of the
  \<open>@app\<close> decorators of \<open>api.py\<close>), and a history is a sequence of requests, each of them served under
  its own clock, configuration and services. The write sets of the routes follow from those of
  \<open>db.py\<close>; with them, the laws of one table have to be looked at for the few requests that write it.
  Identifiers a route draws (\<open>uuid4\<close>, a session token) are part of the request.
\<close>

section \<open>Requests\<close>

datatype cp_request =
    Login string string
  | Me "string option"
  | Logout "string option"
  | Set_User string string
  | List_Connections "string option"
  | Set_Connection "string option" string connection_request
  | Discover "string option" string "string \<Rightarrow> string" remote_listing
  | List_Tools
  | Set_Tool string tool_request
  | Set_Workflow "string option" string workflow_request
  | List_Workflow_Versions "string option" string
  | Retire_Workflow "string option" string string
  | Set_Tool_Status "string option" string string string
  | Seed_Roles
  | List_Roles "string option"
  | List_Users "string option"
  | List_Policies "string option" string
  | Set_Policy "string option" string string string bool
  | List_Preferences "string option" string string
  | Set_Preference "string option" string string string bool
  | Create_Role "string option" role_request
  | Update_Role "string option" string role_request
  | Set_User_Roles "string option" string string "string list"
  | Create_Agent "string option" string agent_config_request
  | List_Agents "string option"
  | Get_Agent "string option" string
  | Update_Agent "string option" string agent_config_request
  | Set_Agent_Status "string option" string string bool
  | Publish_Agent "string option" string string string
  | List_Releases string
  | Revoke_Release "string option" string string string
  | Get_Release string string
  | Run_Release string string string agent_run_request
  | Authorize string string string string "string list"
  | Run_Agent string string agent_run_request
  | Decide_Approval "string option" string string string string
  | List_Runs
  | Run_Plain string string

definition quietly :: "('s, 'a) action \<Rightarrow> ('s, unit) action" where
  "quietly m = chain m (\<lambda>_. give ())"

fun serve :: "cp_world \<Rightarrow> cp_services \<Rightarrow> cp_request \<Rightarrow> (cp_db, unit) action" where
  "serve w sv (Login token u) = quietly (login_route w token u)"
| "serve w sv (Me h) = quietly (me_route w h)"
| "serve w sv (Logout h) = logout_route w h"
| "serve w sv (Set_User u status) = set_user_route u status"
| "serve w sv (List_Connections h) = quietly (list_mcp_connections_route w h)"
| "serve w sv (Set_Connection h cid r) = quietly (set_mcp_connection_route w h cid r)"
| "serve w sv (Discover h cid env remote) = quietly (discover_route w env remote h cid)"
| "serve w sv List_Tools = quietly list_tools_route"
| "serve w sv (Set_Tool t r) = quietly (set_tool_route w t r)"
| "serve w sv (Set_Workflow h wid r) = quietly (set_workflow_route w h wid r)"
| "serve w sv (List_Workflow_Versions h wid) = quietly (list_workflow_versions_route w h wid)"
| "serve w sv (Retire_Workflow h wid n) = quietly (retire_workflow_route w h wid n)"
| "serve w sv (Set_Tool_Status h t claimed status) = quietly (set_tool_status_route w h t claimed status)"
| "serve w sv Seed_Roles = quietly (seed_roles_route w)"
| "serve w sv (List_Roles h) = quietly (list_roles_route w h)"
| "serve w sv (List_Users h) = quietly (list_users_route w h)"
| "serve w sv (List_Policies h tenant) = quietly (list_memory_policies_route w h tenant)"
| "serve w sv (Set_Policy h tenant ns mode allow) = set_memory_policy_route w h tenant ns mode allow"
| "serve w sv (List_Preferences h u tenant) = quietly (list_memory_preferences_route w h u tenant)"
| "serve w sv (Set_Preference h u tenant ns share) = set_memory_preference_route w h u tenant ns share"
| "serve w sv (Create_Role h r) = quietly (create_role_route w h r)"
| "serve w sv (Update_Role h rid r) = quietly (update_role_route w h rid r)"
| "serve w sv (Set_User_Roles h u claimed rs) = quietly (set_user_roles_route w h u claimed rs)"
| "serve w sv (Create_Agent h a r) = quietly (create_agent_route w a h r)"
| "serve w sv (List_Agents h) = quietly (list_agents_route w h)"
| "serve w sv (Get_Agent h a) = quietly (get_agent_route w h a)"
| "serve w sv (Update_Agent h a r) = quietly (update_agent_route w h a r)"
| "serve w sv (Set_Agent_Status h a claimed enabled) = quietly (set_agent_status_route w h a claimed enabled)"
| "serve w sv (Publish_Agent h l a claimed) = quietly (publish_agent_route w l h a claimed)"
| "serve w sv (List_Releases a) = quietly (list_releases_route a)"
| "serve w sv (Revoke_Release h a l claimed) = quietly (revoke_release_route w h a l claimed)"
| "serve w sv (Get_Release a l) = quietly (get_release_route a l)"
| "serve w sv (Run_Release run a l r) = quietly (run_release_route w sv run a l r)"
| "serve w sv (Authorize a actor channel tool overrides) =
     quietly (authorize_route a actor channel tool overrides)"
| "serve w sv (Run_Agent run a r) = quietly (run_agent_route w sv run a r)"
| "serve w sv (Decide_Approval h approval_id actor verdict note) =
     quietly (decide_gateway_approval_route w sv h approval_id actor verdict note)"
| "serve w sv List_Runs = query (\<lambda>db. ())"
| "serve w sv (Run_Plain run message) = quietly (plain_run_route w sv run message)"

text \<open>The tables a request may write. \<open>Users\<close> stands for the entry an OA login adds.\<close>

fun writes :: "cp_request \<Rightarrow> cp_table set" where
  "writes (Login token u) = {User_Sessions}"
| "writes (Logout h) = {User_Sessions}"
| "writes (Set_User u status) = {Users}"
| "writes (Set_Connection h cid r) = {Users, Connections}"
| "writes (Discover h cid env remote) = {Users, Tools}"
| "writes List_Tools = {}"
| "writes (Set_Tool t r) = {Tools}"
| "writes (Set_Workflow h wid r) = {Users, Workflows, Tools}"
| "writes (Retire_Workflow h wid n) = {Users, Workflows, Tools}"
| "writes (Set_Tool_Status h t claimed status) = {Users, Tools}"
| "writes Seed_Roles = {Users, Roles, User_Roles, Role_Permissions, Tools, Agent_Tools}"
| "writes (Set_Policy h tenant ns mode allow) = {Users, Policies}"
| "writes (Set_Preference h u tenant ns share) = {Users, Preferences}"
| "writes (Create_Role h r) = {Users, Roles, Role_Permissions, Role_Events}"
| "writes (Update_Role h rid r) = {Users, Roles, Role_Permissions, Role_Events}"
| "writes (Set_User_Roles h u claimed rs) = {Users, User_Roles}"
| "writes (Create_Agent h a r) = {Users, Agents, Members, Agent_Tools, Snapshots, Channels, Permission_Events}"
| "writes (Update_Agent h a r) = {Users, Agents, Members, Agent_Tools, Snapshots, Channels, Permission_Events}"
| "writes (Set_Agent_Status h a claimed enabled) = {Users, Agents, Permission_Events}"
| "writes (Publish_Agent h l a claimed) = {Users, Releases}"
| "writes (List_Releases a) = {}"
| "writes (Revoke_Release h a l claimed) = {Users, Releases}"
| "writes (Get_Release a l) = {}"
| "writes (Run_Release run a l r) = {Permission_Events, Runs, Audit, Tool_Calls}"
| "writes (Authorize a actor channel tool overrides) = {Permission_Events}"
| "writes (Run_Agent run a r) = {Permission_Events, Runs, Audit, Tool_Calls}"
| "writes (Decide_Approval h approval_id actor verdict note) = {Users, Runs, Audit}"
| "writes List_Runs = {}"
| "writes (Run_Plain run message) = {Runs, Audit}"
| "writes rq = {Users}"

section \<open>Write sets of the routes\<close>

lemma quietly_steps: "steps (same_except T) m \<Longrightarrow> steps (same_except T) (quietly m)"
  by (simp add: quietly_def frame.action_steps)

lemmas users_write = users_frame [THEN frame_mono]

lemma identity_frame [write_sets]:
  "steps (same_except {Users}) (resolve_current_user_id w h)"
  "steps (same_except {Users}) (current_user_id w h)"
  "steps (same_except {Users}) (optional_current_user_id w h)"
  "steps (same_except {Users}) (require_current_platform_admin w h)"
  "steps (same_except {Users}) (require_current_actor w h claimed)"
proof -
  show resolved: "steps (same_except {Users}) (resolve_current_user_id w h)"
    unfolding resolve_current_user_id_def
    by (intro frame.action_steps users_write) (auto intro!: frame.action_steps split: option.split)
  show current: "steps (same_except {Users}) (current_user_id w h)"
    unfolding current_user_id_def by (intro frame.action_steps resolved)
  show "steps (same_except {Users}) (optional_current_user_id w h)"
    unfolding optional_current_user_id_def by (intro frame.action_steps current)
  show "steps (same_except {Users}) (require_current_platform_admin w h)"
    unfolding require_current_platform_admin_def require_platform_admin_def
    by (intro frame.action_steps current)
  show "steps (same_except {Users}) (require_current_actor w h claimed)"
    unfolding require_current_actor_def by (intro frame.action_steps current)
qed


lemma case_steps:
  "(\<And>a b. p = (a, b) \<Longrightarrow> steps R (f a b)) \<Longrightarrow> steps R (case p of (a, b) \<Rightarrow> f a b)"
  "steps R n \<Longrightarrow> (\<And>x. steps R (g x)) \<Longrightarrow> steps R (case ov of None \<Rightarrow> n | Some x \<Rightarrow> g x)"
  "steps R m \<Longrightarrow> (\<And>x ys. steps R (h x ys)) \<Longrightarrow> steps R (case xs of [] \<Rightarrow> m | x # ys \<Rightarrow> h x ys)"
  by (simp_all split: prod.split option.split list.split)

lemma guards_frame [write_sets]:
  "steps (same_except {}) (require_platform_admin u)"
  "steps (same_except {}) (user_profile u)"
  "steps (same_except {}) (require_agent a)"
  "steps (same_except {}) (require_agent_manager u agent)"
  by (simp_all add: require_platform_admin_def user_profile_def require_agent_def require_agent_manager_def
      frame.action_steps)

lemmas table_writes = write_sets [THEN frame_mono]

lemmas route_steps = frame.action_steps case_steps quietly_steps table_writes

lemma auth_routes_frame:
  "steps (same_except {User_Sessions}) (login_route w token u)"
  "steps (same_except {Users}) (me_route w h)"
  "steps (same_except {User_Sessions}) (logout_route w h)"
  unfolding login_route_def me_route_def logout_route_def
  by (intro route_steps; simp)+


lemma catalog_routes_frame:
  "steps (same_except {Users}) (list_mcp_connections_route w h)"
  "steps (same_except {Users, Connections}) (set_mcp_connection_route w h cid r)"
  "steps (same_except {Users, Tools}) (discover_route w env remote h cid)"
  "steps (same_except {}) list_tools_route"
  "steps (same_except {Tools}) (set_tool_route w t q)"
  "steps (same_except {Users, Workflows, Tools}) (set_workflow_route w h wid f)"
  "steps (same_except {Users}) (list_workflow_versions_route w h wid)"
  "steps (same_except {Users, Workflows, Tools}) (retire_workflow_route w h wid n)"
  "steps (same_except {Users, Tools}) (set_tool_status_route w h t claimed status)"
  unfolding list_mcp_connections_route_def set_mcp_connection_route_def discover_route_def
    list_tools_route_def set_tool_route_def set_workflow_route_def list_workflow_versions_route_def
    retire_workflow_route_def set_tool_status_route_def
  by (intro route_steps; simp)+

lemma role_routes_frame:
  "steps (same_except {Users}) (list_roles_route w h)"
  "steps (same_except {Users}) (list_users_route w h)"
  "steps (same_except {Users, Roles, Role_Permissions, Role_Events}) (create_role_route w h r)"
  "steps (same_except {Users, Roles, Role_Permissions, Role_Events}) (update_role_route w h rid r)"
  "steps (same_except {Users, User_Roles}) (set_user_roles_route w h u claimed rs)"
  "steps (same_except {Users}) (set_user_route u status)"
  "steps (same_except {Users}) (list_memory_policies_route w h tenant)"
  "steps (same_except {Users, Policies}) (set_memory_policy_route w h tenant ns mode allow)"
  "steps (same_except {Users}) (list_memory_preferences_route w h u tenant)"
  "steps (same_except {Users, Preferences}) (set_memory_preference_route w h u tenant ns share)"
  "steps (same_except {Users, Roles, User_Roles, Role_Permissions, Tools, Agent_Tools}) (seed_roles_route w)"
  unfolding list_roles_route_def list_users_route_def create_role_route_def update_role_route_def
    set_user_roles_route_def set_user_route_def list_memory_policies_route_def set_memory_policy_route_def
    list_memory_preferences_route_def set_memory_preference_route_def seed_roles_route_def
    seed_role_def seed_user_def
  by (intro route_steps frame.each_steps; simp)+

lemma denied_frame [write_sets]:
  "steps (same_except {Permission_Events}) m \<Longrightarrow> steps (same_except {Permission_Events}) (denied a u m)"
  unfolding denied_def
  by (intro frame.handle_steps) (auto intro!: route_steps split: cp_error.split)

lemma guard_denied_frame [write_sets]:
  "steps (same_except {Permission_Events}) (guard_denied ok a u reason detail)"
  unfolding guard_denied_def by (intro route_steps; simp)

lemma agent_routes_frame:
  "steps (same_except {Users, Agents, Members, Agent_Tools, Snapshots, Channels, Permission_Events})
     (create_agent_route w a h r)"
  "steps (same_except {Users}) (list_agents_route w h)"
  "steps (same_except {Users}) (get_agent_route w h a)"
  "steps (same_except {Users, Agents, Members, Agent_Tools, Snapshots, Channels, Permission_Events})
     (update_agent_route w h a r)"
  "steps (same_except {Users, Agents, Permission_Events}) (set_agent_status_route w h a claimed enabled)"
  "steps (same_except {Users, Releases}) (publish_agent_route w l h a claimed)"
  "steps (same_except {}) (list_releases_route a)"
  "steps (same_except {Users, Releases}) (revoke_release_route w h a l claimed)"
  "steps (same_except {}) (get_release_route a l)"
  unfolding create_agent_route_def list_agents_route_def get_agent_route_def update_agent_route_def
    set_agent_status_route_def publish_agent_route_def list_releases_route_def revoke_release_route_def
    get_release_route_def Let_def
  by (intro route_steps denied_frame [THEN frame_mono]; simp add: frame.action_steps)+


lemma access_frame [write_sets]:
  "steps (same_except {Permission_Events}) (resolve_agent_access a actor channel)"
  "steps (same_except {Permission_Events}) (resolve_release_access a l actor channel)"
  unfolding resolve_agent_access_def resolve_release_access_def Let_def
  by (intro route_steps guard_denied_frame; simp)+

lemma fail_run_frame: "steps (same_except {Runs, Audit, Tool_Calls}) (fail_run v run e)"
  unfolding fail_run_def by (intro route_steps; simp)

lemma persist_frame:
  "steps (same_except {Runs, Audit, Tool_Calls}) (persist_agent_run_result v run a result)"
  unfolding persist_agent_run_result_def by (intro route_steps frame.each_steps; simp)

lemma finish_run_frame:
  "steps (same_except {Runs, Audit, Tool_Calls}) (finish_run w sv run a r message ctx admitted)"
  unfolding finish_run_def by (intro route_steps fail_run_frame persist_frame)

lemma run_admitted_frame:
  assumes "steps (same_except {Permission_Events}) access"
  shows "steps (same_except {Permission_Events, Runs, Audit}) (run_admitted w run a r message denial access)"
  unfolding run_admitted_def
  by (intro route_steps assms [THEN frame_mono] guard_denied_frame [THEN frame_mono]; simp)

lemma run_routes_frame:
  "steps (same_except {Permission_Events, Runs, Audit, Tool_Calls}) (run_release_route w sv run a l r)"
  "steps (same_except {Permission_Events, Runs, Audit, Tool_Calls}) (run_agent_route w sv run a r)"
  "steps (same_except {Permission_Events}) (authorize_route a actor channel tool overrides)"
  "steps (same_except {Runs, Audit}) (plain_run_route w sv run text)"
  "steps (same_except {Users, Runs, Audit}) (decide_gateway_approval_route w sv h i actor verdict note)"
  unfolding run_release_route_def run_agent_route_def authorize_route_def plain_run_route_def
    decide_gateway_approval_route_def fail_run_def Let_def
  by (intro route_steps access_frame [THEN frame_mono] guard_denied_frame [THEN frame_mono]
      finish_run_frame [THEN frame_mono] run_admitted_frame [THEN frame_mono] access_frame; simp)+

lemma serve_frame: "steps (same_except (writes rq)) (serve w sv rq)"
  by (cases rq)
    (simp_all only: serve.simps writes.simps quietly_steps frame.query_steps auth_routes_frame
      catalog_routes_frame role_routes_frame agent_routes_frame run_routes_frame)

lemma serve_same: "x \<notin> writes rq \<Longrightarrow> same_table x s (snd (serve w sv rq s))"
  using serve_frame [of rq w sv] unfolding steps_def by (blast dest: same_exceptD)

section \<open>Histories\<close>

text \<open>States a control plane can reach from \<open>s\<close>, whatever is requested and answered.\<close>

inductive cp_later :: "cp_db \<Rightarrow> cp_db \<Rightarrow> bool" for s where
  now: "cp_later s s"
| served: "cp_later s t \<Longrightarrow> cp_later s (snd (serve w sv rq t))"

definition cp_reachable :: "cp_db \<Rightarrow> bool" where
  "cp_reachable t \<longleftrightarrow> cp_later no_rows t"

text \<open>A relation that every request respects holds along every history.\<close>

lemma history_evolves:
  assumes evolution: "evolution R" and steps: "\<And>w sv rq. steps R (serve w sv rq)" and "cp_later s t"
  shows "R s t"
  using \<open>cp_later s t\<close>
proof induction
  case now
  show ?case by (rule evolution.same [OF evolution])
next
  case (served t w sv rq)
  from steps have "R t (snd (serve w sv rq t))" by (simp add: steps_def)
  with served.IH show ?case by (rule evolution.along [OF evolution])
qed

text \<open>To respect a relation on one table, the requests that write the table have to.\<close>

lemma table_evolves:
  assumes "evolution R" "\<And>s t. same_table x s t \<Longrightarrow> R s t"
    and "\<And>w sv rq. x \<in> writes rq \<Longrightarrow> steps R (serve w sv rq)" and "cp_later s t"
  shows "R s t"
proof (rule history_evolves [OF \<open>evolution R\<close> _ \<open>cp_later s t\<close>])
  fix w sv rq
  show "steps R (serve w sv rq)"
    using assms(2,3) serve_same by (cases "x \<in> writes rq") (auto simp: steps_def)
qed

lemma later_trans: "cp_later s t \<Longrightarrow> cp_later t u \<Longrightarrow> cp_later s u"
  by (rotate_tac, induction rule: cp_later.induct) (simp_all add: cp_later.served)

lemma reachable_later: "cp_reachable s \<Longrightarrow> cp_later s t \<Longrightarrow> cp_reachable t"
  unfolding cp_reachable_def by (rule later_trans)

lemma reachable_invariant:
  assumes "I no_rows" "\<And>w sv rq s. I s \<Longrightarrow> I (snd (serve w sv rq s))" "cp_reachable t"
  shows "I t"
  using assms(3) unfolding cp_reachable_def
  by (induction rule: cp_later.induct) (simp_all add: assms(1,2))

end
