(* ===== verification/Cp_Admission.thy ===== *)
theory Cp_Admission
  imports Cp_System
begin

text \<open>
  Which runs the control plane admits: the access checks of drafts and releases, with the tools a run
  may ask for traced back to the rows of the tables that grant them.
\<close>

section \<open>Grants\<close>

definition role_grants :: "cp_db \<Rightarrow> string \<Rightarrow> string \<Rightarrow> bool" where
  "role_grants s u t \<longleftrightarrow>
     (\<exists>(user, role) \<in> set (d_user_roles s). user = u \<and>
        (\<exists>row \<in> set (d_roles s). ro_id row = role \<and> ro_status row = ''active'') \<and>
        (\<exists>(r, tool, scope) \<in> set (d_permissions s). r = role \<and> tool = t))"

definition tool_live :: "cp_db \<Rightarrow> string \<Rightarrow> bool" where
  "tool_live s t \<longleftrightarrow>
     (\<exists>row \<in> set (d_tools s). td_tool_id row = t \<and> td_status row = ''active'' \<and>
        (case td_mcp_connection_id row of
           None \<Rightarrow> True
         | Some cid \<Rightarrow> \<exists>m \<in> set (d_connections s). m_id m = cid \<and> m_status m = ''active''))"

lemma cp_active_iff: "t \<in> set (cp_active_tool_ids s ids) \<longleftrightarrow> t \<in> set ids \<and> tool_live s t"
  by (auto simp: cp_active_tool_ids_def tool_live_def list_ex_iff split: option.splits)

lemma permission_rows_of:
  "t \<in> fst ` set (map (\<lambda>(r, tool, scope). (tool, scope)) (filter (\<lambda>(r, tool, scope). r = role) rows)) \<longleftrightarrow>
     (\<exists>(r, tool, scope) \<in> set rows. r = role \<and> tool = t)"
  by (induction rows) auto

lemma role_rows_iff: "t \<in> fst ` set (role_tool_rows s u) \<longleftrightarrow> role_grants s u t"
proof -
  have split: "set (if c then xs else []) = (if c then set xs else {})" for c and xs :: "(string \<times> scope) list"
    by simp
  show ?thesis
    unfolding role_tool_rows_def role_grants_def set_concat set_map [of _ "d_user_roles s"] image_UN
      case_prod_beta UN_iff bex_simps
    using permission_rows_of [of t]
    by (simp only: split_beta list_ex_iff image_iff split if_distrib [of "image fst"])
      (auto 0 4 simp: list_ex_iff split: if_splits intro: rev_bexI)
qed

lemma merge_rows_tools:
  assumes "authz_merge_tool_scopes rows = Inr merged"
  shows "fst ` set merged = fst ` set rows"
proof -
  obtain clean where
    clean: "traverse (\<lambda>(t, raw). case authz_normalize_scope raw of Inl e \<Rightarrow> Inl e | Inr s \<Rightarrow> Inr (t, s)) rows = Inr clean"
    and merged: "merged = map (\<lambda>(t, s). (t, map (\<lambda>(k, vs). (k, sorted_set vs)) (sorted_items s)))
                 (sorted_items (fold merge_row clean []))"
    using assms by (auto simp: authz_merge_tool_scopes_def split: sum.splits)
  from clean have "map fst clean = map fst rows"
    by (induction rows arbitrary: clean) (auto split: sum.splits)
  then have "fst ` set clean = fst ` set rows" by (metis list.set_map)
  moreover have "fst ` set merged = fst ` set (fold merge_row clean [])"
    by (simp add: merged image_image split_beta sorted_items_def)
  ultimately show ?thesis by (simp add: fst_fold_merge)
qed

lemma granted_iff:
  assumes "user_tool_scopes s u = Inr grants"
  shows "t \<in> set (map fst grants) \<longleftrightarrow> role_grants s u t"
  using merge_rows_tools [OF assms [unfolded user_tool_scopes_def]] role_rows_iff [of t s u]
  by (simp add: image_image split_beta)

section \<open>Access checks\<close>

lemma guard_denied_Inr_iff: "guard_denied ok a u reason detail s = (Inr y, t) \<longleftrightarrow> ok \<and> t = s"
  by (auto simp: guard_denied_def succeeded)

lemma require_agent_Inr_iff:
  "require_agent a s = (Inr agent, t) \<longleftrightarrow> load_agent s a = Some agent \<and> t = s"
  by (auto simp: require_agent_def split: option.splits)

lemma effective_iff:
  "t \<in> set (authz_effective_tools c k g) \<longleftrightarrow> t \<in> set c \<and> t \<in> set k \<and> t \<in> set g"
  by (simp add: authz_effective_tools_def)

lemma context_status:
  assumes "cp_build_runtime_context db r actor channel = Inr c"
  shows "dget (as_dict (dget c ''release'')) ''status'' = PStr (ar_status r)"
  using assms
  by (auto simp: cp_build_runtime_context_def Let_def split: pyval.splits sum.splits)

lemma release_access:
  assumes "resolve_release_access a l actor channel s = (Inr (agent, allowed), t)"
  shows "t = s \<and> (\<exists>r c grants. cp_fetch_agent_release s a l = Some r \<and>
     cp_build_runtime_context s r (Some actor) (Some channel) = Inr c \<and>
     runner_agent_from_context c = Inr agent \<and> user_tool_scopes s actor = Inr grants \<and>
     ar_status r = ''published'' \<and> agent_is_enabled s a = Some True \<and> can_run_agent s actor agent \<and>
     truthy (dget agent ''enabled'') \<and> user_active s actor \<and> channel \<in> set (texts_of (dget agent ''channels'')) \<and>
     allowed = authz_effective_tools (texts_of (dget c ''tool_ids'')) (texts_of (dget c ''tool_ids''))
                 (map fst grants))"
  using assms
  by (auto simp: resolve_release_access_def succeeded guard_denied_Inr_iff Let_def
      fetch_runtime_context_def py_eq_str context_status split: option.splits sum.splits if_splits)

lemma agent_access:
  assumes "resolve_agent_access a actor channel s = (Inr (agent, allowed), t)"
  shows "t = s \<and> load_agent s a = Some agent \<and> truthy (dget agent ''enabled'') \<and> user_active s actor \<and>
     can_run_agent s actor agent \<and> channel \<in> set (texts_of (dget agent ''channels'')) \<and>
     (\<exists>grants. user_tool_scopes s actor = Inr grants \<and>
        allowed = (let tools = authz_effective_tools (texts_of (dget agent ''tools''))
                           (texts_of (dget agent ''snapshot_tools'')) (map fst grants)
                   in filter (\<lambda>t. t \<in> set (cp_active_tool_ids s tools)) tools))"
  using assms
  by (auto simp: resolve_agent_access_def succeeded guard_denied_Inr_iff require_agent_Inr_iff Let_def)


section \<open>The tools of a context\<close>

lemma texts_of_val [simp]: "texts_of (texts_val xs) = xs"
  by (cases xs) (simp_all add: texts_of_def texts_val_def py_or_def o_def)

lemma release_scope_tools:
  assumes "release_scopes tools = Inr scopes"
  shows "fst ` set scopes = (\<lambda>d. get_text d ''tool_id'') ` set tools"
proof -
  obtain entries where
    entries: "traverse (\<lambda>d. case authz_normalize_scope (dget d ''scope'') of
        Inl e \<Rightarrow> Inl e | Inr s \<Rightarrow> Inr (get_text d ''tool_id'', s)) tools = Inr entries"
    and scopes: "scopes = fold (\<lambda>(t, s). AList.update t s) entries []"
    using assms by (auto simp: release_scopes_def split: sum.splits)
  from entries have "map fst entries = map (\<lambda>d. get_text d ''tool_id'') tools"
    by (induction tools arbitrary: entries) (auto split: sum.splits)
  then have names: "fst ` set entries = (\<lambda>d. get_text d ''tool_id'') ` set tools"
    by (metis list.set_map)
  have "fst ` set (fold (\<lambda>(t, s). AList.update t s) es acc) = fst ` set es \<union> fst ` set acc"
    for es and acc :: "(string \<times> scope) list"
    by (induction es arbitrary: acc) (simp_all add: dom_update split_beta Un_insert_right)
  from this [of entries "[]"] show ?thesis by (simp add: scopes names)
qed

lemma set_map_filter: "d \<in> set (List.map_filter f xs) \<longleftrightarrow> (\<exists>x \<in> set xs. f x = Some d)"
  by (induction xs) (auto simp: map_filter_simps split: option.split)

lemma context_tools:
  assumes built: "cp_build_runtime_context s r actor channel = Inr c"
    and t: "t \<in> set (texts_of (dget c ''tool_ids''))"
  shows "t \<in> set (cp_release_tool_ids (ar_config_json r)) \<and> tool_live s t"
proof -
  let ?active = "cp_active_tool_ids s (cp_release_tool_ids (ar_config_json r))"
  obtain raw scopes where
    scopes: "release_scopes (List.map_filter (active_entry ?active) raw) = Inr scopes"
    and c: "dget c ''tool_ids'' = texts_val (sort (map fst scopes))"
    using built
    by (auto simp: cp_build_runtime_context_def Let_def split: pyval.splits sum.splits)
  from t c have "t \<in> fst ` set scopes" by simp
  then obtain d where "d \<in> set (List.map_filter (active_entry ?active) raw)" "t = get_text d ''tool_id''"
    using release_scope_tools [OF scopes] by auto
  then obtain x where "active_entry ?active x = Some d" and "t = get_text d ''tool_id''"
    by (auto simp: set_map_filter)
  then have "t \<in> set ?active"
    by (auto simp: active_entry_def get_text_def split: pyval.splits if_splits)
  then show ?thesis by (simp add: cp_active_iff)
qed


text \<open>The agent a release runs is the one frozen in its configuration.\<close>

lemma py_or_twice: "py_eq (py_or (py_or v (PStr ''private'')) (PStr ''private'')) (PStr ''public'') \<longleftrightarrow> v = PStr ''public''"
  by (cases v) (auto simp: py_or_def)

lemma frozen_agent:
  assumes built: "cp_build_runtime_context s r actor channel = Inr c"
    and runner: "runner_agent_from_context c = Inr agent"
  shows "\<exists>cfg. dget (ar_config_json r) ''agent'' = PDict cfg \<and>
     can_run_agent db u agent = can_run_agent db u cfg \<and>
     texts_of (dget agent ''channels'') = texts_of (dget cfg ''channels'') \<and>
     truthy (dget agent ''enabled'') = truthy (dget_or cfg ''enabled'' (PBool True))"
proof -
  obtain cfg where cfg: "dget (ar_config_json r) ''agent'' = PDict cfg"
    and c: "dget c ''agent'' = PDict (context_agent cfg)"
    using built by (auto simp: cp_build_runtime_context_def Let_def split: pyval.splits sum.splits)
  obtain scopes where agent: "agent =
              [(''owner_user_id'', dget (context_agent cfg) ''owner_user_id''),
               (''enabled'', PBool (truthy (dget_or (context_agent cfg) ''enabled'' (PBool True)))),
               (''name'', dget (context_agent cfg) ''name''), (''icon'', dget (context_agent cfg) ''icon''),
               (''visibility'', py_or (dget (context_agent cfg) ''visibility'') (PStr ''private'')),
               (''members'', PList (as_list (py_or (dget (context_agent cfg) ''members'') (PList [])))),
               (''system_prompt'', py_or (dget (context_agent cfg) ''system_prompt'') (PStr [])),
               (''model'', dget (context_agent cfg) ''model''),
               (''tools'', texts_val (map fst (fst scopes))), (''tool_scopes'', PDict (fst scopes)),
               (''snapshot_tools'', texts_val (map fst (fst scopes))),
               (''channels'', PList (as_list (py_or (dget (context_agent cfg) ''channels'') (PList [])))),
               (''release_id'', dget (snd scopes) ''release_id''), (''release_version'', dget (snd scopes) ''version'')]"
    using runner c by (auto simp: runner_agent_from_context_def split: pyval.splits)
  have plist: "py_or (PList xs) (PList []) = PList xs" for xs by (cases xs) (simp_all add: py_or_def)
  have vis: "py_eq (dget_or cfg ''visibility'' (PStr ''private'')) (PStr ''public'') \<longleftrightarrow>
      dget cfg ''visibility'' = PStr ''public''"
    by (auto simp: py_eq_str dget_def dget_or_def split: option.split)
  have run: "can_run_agent db u agent = can_run_agent db u cfg"
    by (simp add: can_run_agent_def agent context_agent_def py_or_twice vis plist)
  have channels: "texts_of (dget agent ''channels'') = texts_of (dget cfg ''channels'')"
    by (simp add: texts_of_def agent context_agent_def plist)
  have enabled: "truthy (dget agent ''enabled'') = truthy (dget_or cfg ''enabled'' (PBool True))"
    by (simp add: agent context_agent_def)
  from cfg run channels enabled show ?thesis by blast
qed


section \<open>Runs\<close>

lemma run_admitted_Inr_iff:
  "run_admitted w run a r message denial access s = (Inr (agent, allowed), t) \<longleftrightarrow>
     (\<exists>u. access s = (Inr (agent, allowed), u) \<and> set (ru_tool_ids r) \<subseteq> set allowed \<and>
        create_run (cw_env w) run message (Some a) (Some (ru_actor_id r)) u = (Inr (), t))"
  by (auto simp: run_admitted_def succeeded guard_denied_Inr_iff)

lemma run_refused:
  assumes refused: "run_admitted w run a r message denial access s = (Inl e, t)"
    and reads: "steps (same_except {Permission_Events}) access"
  shows "d_runs t = d_runs s"
proof -
  have same: "same_except {Permission_Events} u v \<Longrightarrow> d_runs v = d_runs u" for u v
    using same_exceptD [of _ u v Runs] by simp
  obtain ra u where access: "access s = (ra, u)" by fastforce
  have "same_except {Permission_Events} s (snd (access s))" using reads by (simp add: steps_def)
  with access have u: "d_runs u = d_runs s" using same [of s u] by simp
  show ?thesis
  proof (cases ra)
    case (Inl d)
    then show ?thesis using refused access u by (simp add: run_admitted_def)
  next
    case (Inr p)
    let ?ok = "set (ru_tool_ids r) \<subseteq> set (snd p)"
    let ?guard = "guard_denied ?ok a (ru_actor_id r) (denial @ py_join '','' (sorted_set (ru_tool_ids r))) ''tool not authorized''"
    let ?create = "andthen (create_run (cw_env w) run message (Some a) (Some (ru_actor_id r))) (give p)"
    from Inr have tail: "andthen ?guard ?create u = (Inl e, t)"
      using refused access by (simp add: run_admitted_def split_beta)
    show ?thesis
    proof (cases ?ok)
      case True
      then have "?create u = (Inl e, t)" using tail by (simp add: guard_denied_def andthen_def chain_def)
      then show ?thesis using u
        by (auto simp: andthen_def chain_def create_run_def transaction_def split: if_splits)
    next
      case False
      then have "fst (?guard u) = Inl (HTTPException 403 ''tool not authorized'')"
        by (simp add: guard_denied_def andthen_def chain_def record_permission_event_def)
      then have "snd (?guard u) = t" using tail by (cases "?guard u") (simp add: andthen_def chain_def)
      moreover have "d_runs (snd (?guard u)) = d_runs u"
        using guard_denied_frame [of ?ok] same by (simp add: steps_def)
      ultimately show ?thesis using u by simp
    qed
  qed
qed

lemma release_admitted:
  assumes "run_admitted w run a r message denial (resolve_release_access a l (ru_actor_id r) channel) s =
      (Inr (agent, allowed), t)"
  shows "\<exists>row cfg. cp_fetch_agent_release s a l = Some row \<and> ar_status row = ''published'' \<and>
     agent_is_enabled s a = Some True \<and> user_active s (ru_actor_id r) \<and>
     dget (ar_config_json row) ''agent'' = PDict cfg \<and> truthy (dget_or cfg ''enabled'' (PBool True)) \<and>
     can_run_agent s (ru_actor_id r) cfg \<and> channel \<in> set (texts_of (dget cfg ''channels'')) \<and>
     (\<forall>tool \<in> set (ru_tool_ids r). tool \<in> set (cp_release_tool_ids (ar_config_json row)) \<and>
        tool_live s tool \<and> role_grants s (ru_actor_id r) tool)"
proof -
  from assms obtain u where access: "resolve_release_access a l (ru_actor_id r) channel s = (Inr (agent, allowed), u)"
    and requested: "set (ru_tool_ids r) \<subseteq> set allowed"
    by (auto simp: run_admitted_Inr_iff)
  obtain row c grants where row: "cp_fetch_agent_release s a l = Some row" "ar_status row = ''published''"
      "agent_is_enabled s a = Some True" "user_active s (ru_actor_id r)"
    and built: "cp_build_runtime_context s row (Some (ru_actor_id r)) (Some channel) = Inr c"
      "runner_agent_from_context c = Inr agent"
    and grants: "user_tool_scopes s (ru_actor_id r) = Inr grants"
    and agent: "can_run_agent s (ru_actor_id r) agent" "truthy (dget agent ''enabled'')"
      "channel \<in> set (texts_of (dget agent ''channels''))"
    and allowed: "allowed = authz_effective_tools (texts_of (dget c ''tool_ids'')) (texts_of (dget c ''tool_ids''))
                 (map fst grants)"
    using release_access [OF access] by blast
  obtain cfg where cfg: "dget (ar_config_json row) ''agent'' = PDict cfg"
      "can_run_agent s (ru_actor_id r) agent = can_run_agent s (ru_actor_id r) cfg"
      "texts_of (dget agent ''channels'') = texts_of (dget cfg ''channels'')"
      "truthy (dget agent ''enabled'') = truthy (dget_or cfg ''enabled'' (PBool True))"
    using frozen_agent [OF built] by blast
  have "\<forall>tool \<in> set (ru_tool_ids r). tool \<in> set (cp_release_tool_ids (ar_config_json row)) \<and>
        tool_live s tool \<and> role_grants s (ru_actor_id r) tool"
    using requested context_tools [OF built(1)] granted_iff [OF grants]
    unfolding allowed by (meson effective_iff subsetD)
  with row cfg agent show ?thesis by metis
qed

lemma release_run_stored:
  assumes route: "run_release_route w sv run a l r s = (x, t)" and stored: "d_runs t \<noteq> d_runs s"
  shows "\<exists>row cfg. cp_fetch_agent_release s a l = Some row \<and> ar_status row = ''published'' \<and>
     agent_is_enabled s a = Some True \<and> user_active s (ru_actor_id r) \<and>
     dget (ar_config_json row) ''agent'' = PDict cfg \<and> truthy (dget_or cfg ''enabled'' (PBool True)) \<and>
     can_run_agent s (ru_actor_id r) cfg \<and> ru_channel r \<in> set (texts_of (dget cfg ''channels'')) \<and>
     (\<forall>tool \<in> set (ru_tool_ids r). tool \<in> set (cp_release_tool_ids (ar_config_json row)) \<and>
        tool_live s tool \<and> role_grants s (ru_actor_id r) tool)"
proof -
  let ?admitted = "run_admitted w run a r (py_strip (ru_message r)) (''release='' @ l @ '';requested='')
      (resolve_release_access a l (ru_actor_id r) (ru_channel r)) s"
  obtain e where "?admitted = (Inl e, snd ?admitted) \<or> (\<exists>agent allowed. ?admitted = (Inr (agent, allowed), snd ?admitted))"
    by (cases ?admitted; cases "fst ?admitted") auto
  then show ?thesis
  proof
    assume refused: "?admitted = (Inl e, snd ?admitted)"
    then have "d_runs (snd ?admitted) = d_runs s"
      by (rule run_refused) (rule access_frame)
    with refused route have "d_runs t = d_runs s"
      unfolding run_release_route_def Let_def
      by (auto simp: chain_def andthen_def rethrow_def split: prod.splits sum.splits if_splits)
    with stored show ?thesis by simp
  next
    assume "\<exists>agent allowed. ?admitted = (Inr (agent, allowed), snd ?admitted)"
    then show ?thesis using release_admitted by metis
  qed
qed

text \<open>
  C4: A run of a release is stored only when the release exists and is published, its agent is
  enabled on the platform and in the frozen configuration, the actor is an active user to whom the
  release is open (public, owner, member or platform administrator), the channel is one of the
  release's, and every tool the request names is in the release, is active together with
  its connection, and is granted to the actor by a role that is active now.
\<close>

theorem release_run_admitted:
  assumes "run_release_route w sv run a l r s = (x, t)" "d_runs t \<noteq> d_runs s"
  shows "\<exists>row cfg. cp_fetch_agent_release s a l = Some row \<and> ar_status row = ''published'' \<and>
     agent_is_enabled s a = Some True \<and> user_active s (ru_actor_id r) \<and>
     dget (ar_config_json row) ''agent'' = PDict cfg \<and> truthy (dget_or cfg ''enabled'' (PBool True)) \<and>
     can_run_agent s (ru_actor_id r) cfg \<and> ru_channel r \<in> set (texts_of (dget cfg ''channels'')) \<and>
     (\<forall>tool \<in> set (ru_tool_ids r). tool \<in> set (cp_release_tool_ids (ar_config_json row)) \<and>
        tool_live s tool \<and> role_grants s (ru_actor_id r) tool)"
  by (rule release_run_stored [OF assms])


definition draft_open_to :: "cp_db \<Rightarrow> agent_row \<Rightarrow> string \<Rightarrow> bool" where
  "draft_open_to s row u \<longleftrightarrow>
     ag_visibility row = ''public'' \<or> ag_owner_user_id row = u \<or> (ag_id row, u) \<in> set (d_members s) \<or>
     has_role s u PLATFORM_ADMIN_ROLE"

definition draft_offers :: "cp_db \<Rightarrow> string \<Rightarrow> string \<Rightarrow> bool" where
  "draft_offers s a t \<longleftrightarrow> (\<exists>row \<in> set (d_agent_tools s). at_agent_id row = a \<and> at_tool_id row = t \<and> at_enabled row)"

lemma loaded_agent:
  assumes "load_agent s a = Some agent"
  shows "\<exists>row \<in> set (d_agents s). ag_id row = a \<and>
     truthy (dget agent ''enabled'') = ag_enabled row \<and>
     can_run_agent s u agent = draft_open_to s row u \<and>
     set (texts_of (dget agent ''channels'')) = {c. (a, c) \<in> set (d_channels s)} \<and>
     set (texts_of (dget agent ''tools'')) = {t. draft_offers s a t}"
proof -
  obtain row where row: "row \<in> set (d_agents s)" "ag_id row = a" "agent = agent_dict s row"
    using assms by (auto simp: load_agent_def dest: find_SomeD)
  have "u \<in> set (texts_of (dget agent ''members'')) \<longleftrightarrow> (a, u) \<in> set (d_members s)"
    by (force simp: row agent_dict_def Let_def agent_members_def)
  then have open_to: "can_run_agent s u agent = draft_open_to s row u"
    by (auto simp: can_run_agent_def draft_open_to_def row agent_dict_def Let_def texts_of_def py_eq_str)
  have enabled: "truthy (dget agent ''enabled'') = ag_enabled row"
    by (simp add: row agent_dict_def Let_def)
  have channels: "set (texts_of (dget agent ''channels'')) = {c. (a, c) \<in> set (d_channels s)}"
    by (force simp: row agent_dict_def Let_def agent_channels_def)
  have tools: "set (texts_of (dget agent ''tools'')) = {t. draft_offers s a t}"
    by (force simp: row agent_dict_def Let_def agent_tool_scopes_def draft_offers_def)
  from row(1,2) open_to enabled channels tools show ?thesis by blast
qed

lemma draft_admitted:
  assumes "run_admitted w run a r message denial (resolve_agent_access a (ru_actor_id r) channel) s =
      (Inr (agent, allowed), t)"
  shows "\<exists>row \<in> set (d_agents s). ag_id row = a \<and> ag_enabled row \<and> user_active s (ru_actor_id r) \<and>
     draft_open_to s row (ru_actor_id r) \<and> (a, channel) \<in> set (d_channels s) \<and>
     (\<forall>tool \<in> set (ru_tool_ids r). draft_offers s a tool \<and> tool_live s tool \<and> role_grants s (ru_actor_id r) tool)"
proof -
  from assms obtain u where access: "resolve_agent_access a (ru_actor_id r) channel s = (Inr (agent, allowed), u)"
    and requested: "set (ru_tool_ids r) \<subseteq> set allowed"
    by (auto simp: run_admitted_Inr_iff)
  obtain grants where agent: "load_agent s a = Some agent" "truthy (dget agent ''enabled'')"
      "user_active s (ru_actor_id r)" "can_run_agent s (ru_actor_id r) agent"
      "channel \<in> set (texts_of (dget agent ''channels''))"
    and grants: "user_tool_scopes s (ru_actor_id r) = Inr grants"
    and allowed: "allowed = (let tools = authz_effective_tools (texts_of (dget agent ''tools''))
                           (texts_of (dget agent ''snapshot_tools'')) (map fst grants)
                   in filter (\<lambda>t. t \<in> set (cp_active_tool_ids s tools)) tools)"
    using agent_access [OF access] by blast
  obtain row where row: "row \<in> set (d_agents s)" "ag_id row = a"
      "truthy (dget agent ''enabled'') = ag_enabled row"
      "can_run_agent s (ru_actor_id r) agent = draft_open_to s row (ru_actor_id r)"
      "set (texts_of (dget agent ''channels'')) = {c. (a, c) \<in> set (d_channels s)}"
      "set (texts_of (dget agent ''tools'')) = {t. draft_offers s a t}"
    using loaded_agent [OF agent(1)] by blast
  have "\<forall>tool \<in> set (ru_tool_ids r). draft_offers s a tool \<and> tool_live s tool \<and> role_grants s (ru_actor_id r) tool"
  proof
    fix tool
    assume "tool \<in> set (ru_tool_ids r)"
    then have "tool \<in> set allowed" using requested by blast
    then show "draft_offers s a tool \<and> tool_live s tool \<and> role_grants s (ru_actor_id r) tool"
      using row(6) granted_iff [OF grants, of tool]
      by (auto simp: allowed Let_def cp_active_iff effective_iff simp del: set_map)
  qed
  with row agent show ?thesis by auto
qed

lemma draft_run_stored:
  assumes route: "run_agent_route w sv run a r s = (x, t)" and stored: "d_runs t \<noteq> d_runs s"
  shows "\<exists>row \<in> set (d_agents s). ag_id row = a \<and> ag_enabled row \<and> user_active s (ru_actor_id r) \<and>
     draft_open_to s row (ru_actor_id r) \<and> (a, ru_channel r) \<in> set (d_channels s) \<and>
     (\<forall>tool \<in> set (ru_tool_ids r). draft_offers s a tool \<and> tool_live s tool \<and> role_grants s (ru_actor_id r) tool)"
proof -
  let ?admitted = "run_admitted w run a r (py_strip (ru_message r)) ''requested=''
      (resolve_agent_access a (ru_actor_id r) (ru_channel r)) s"
  obtain e where "?admitted = (Inl e, snd ?admitted) \<or> (\<exists>agent allowed. ?admitted = (Inr (agent, allowed), snd ?admitted))"
    by (cases ?admitted; cases "fst ?admitted") auto
  then show ?thesis
  proof
    assume refused: "?admitted = (Inl e, snd ?admitted)"
    then have "d_runs (snd ?admitted) = d_runs s"
      by (rule run_refused) (rule access_frame)
    with refused route have "d_runs t = d_runs s"
      unfolding run_agent_route_def Let_def
      by (auto simp: chain_def andthen_def rethrow_def split: prod.splits sum.splits if_splits)
    with stored show ?thesis by simp
  next
    assume "\<exists>agent allowed. ?admitted = (Inr (agent, allowed), snd ?admitted)"
    then show ?thesis using draft_admitted by metis
  qed
qed

text \<open>
  A run of a draft is stored only when the agent's row is enabled, the actor is an active user
  to whom the draft is open (public, owner, member or platform administrator), the channel is
  configured for the agent, and every tool the request names is an enabled tool of the agent,
  is active together with its connection, and is granted to the actor by a role that is active now.
\<close>

theorem draft_run_admitted:
  assumes "run_agent_route w sv run a r s = (x, t)" "d_runs t \<noteq> d_runs s"
  shows "\<exists>row \<in> set (d_agents s). ag_id row = a \<and> ag_enabled row \<and> user_active s (ru_actor_id r) \<and>
     draft_open_to s row (ru_actor_id r) \<and> (a, ru_channel r) \<in> set (d_channels s) \<and>
     (\<forall>tool \<in> set (ru_tool_ids r). draft_offers s a tool \<and> tool_live s tool \<and> role_grants s (ru_actor_id r) tool)"
  using assms by (rule draft_run_stored)


section \<open>A sample\<close>

definition sample_world :: cp_world where
  "sample_world =
     \<lparr>cw_env = \<lparr>cv_now = 10, cv_dumps = (\<lambda>v. ''json''), cv_sha256 = (\<lambda>t. t), cv_write_fails = (\<lambda>n texts. False)\<rparr>,
      cw_config = \<lparr>cc_auth_mode = ''local'', cc_oa_auth_me_url = None, cc_oa_login_url = None,
        cc_bootstrap_admin_users = [], cc_runner_backend = ''debug'', cc_runner_gateway_url = None,
        cc_llm_api_key = ''key'', cc_llm_model = ''model''\<rparr>,
      cw_oa = (\<lambda>t. OaUnreachable)\<rparr>"

definition sample_services :: cp_services where
  "sample_services =
     \<lparr>sv_loads = (\<lambda>t. None), sv_dumps = (\<lambda>v. ''json''), sv_llm = (\<lambda>ms m. Inr (Some ''done'')),
      sv_post = (\<lambda>u p. GwUnreachable ''down''), sv_local_tool = (\<lambda>t m. Inr ''42'')\<rparr>"

definition sample_agent_row :: agent_row where
  "sample_agent_row =
     \<lparr>ag_id = ''a1'', ag_name = ''desk'', ag_icon = ''robot'', ag_visibility = ''private'',
      ag_owner_user_id = ''u1'', ag_system_prompt = ''help'', ag_model = None, ag_enabled = True,
      ag_created_at = 1\<rparr>"

definition sample_frozen :: pydict where
  "sample_frozen =
     [(''agent'', PDict [(''id'', PStr ''a1''), (''visibility'', PStr ''private''),
        (''owner_user_id'', PStr ''u1''), (''channels'', PList [PStr ''web'']), (''enabled'', PBool True)]),
      (''tools'', PList [PDict [(''tool_id'', PStr ''calculator''),
        (''scope'', PDict [(''actions'', PList [PStr ''calculate''])])]])]"

definition sample_cp :: cp_db where
  "sample_cp = no_rows\<lparr>
     d_users := [(''u1'', ''active'')],
     d_roles := [\<lparr>ro_id = ''office'', ro_name = ''office'', ro_description = [], ro_status = ''active'',
                   ro_is_system = False\<rparr>],
     d_user_roles := [(''u1'', ''office'')],
     d_permissions := [(''office'', ''calculator'', [(''actions'', [''calculate''])])],
     d_tools := [hd LOCAL_TOOLS],
     d_agents := [sample_agent_row],
     d_agent_tools := [\<lparr>at_agent_id = ''a1'', at_tool_id = ''calculator'',
                         at_scope = [(''actions'', [''calculate''])], at_enabled = True\<rparr>],
     d_snapshots := [\<lparr>sn_agent_id = ''a1'', sn_version = 1, sn_permissions = [''calculator''],
                       sn_created_by = ''u1'', sn_reason = ''agent_created''\<rparr>],
     d_channels := [(''a1'', ''web'')],
     d_releases := [\<lparr>ar_id = ''l1'', ar_agent_id = ''a1'', ar_version = 1, ar_status = ''published'',
                      ar_config_json = sample_frozen, ar_published_by = ''u1'', ar_published_at = 5,
                      ar_revoked_at = None\<rparr>]\<rparr>"

definition sample_run_request :: agent_run_request where
  "sample_run_request =
     \<lparr>ru_actor_id = ''u1'', ru_channel = ''web'', ru_message = '' six by seven '', ru_session_id = None,
      ru_tool_ids = [''calculator''], ru_runner_backend = None\<rparr>"

lemma sample_release_run:
  "map rn_status (d_runs (snd (run_release_route sample_world sample_services ''r1'' ''a1'' ''l1''
     sample_run_request sample_cp))) = [''succeeded'']"
  by code_simp

lemma sample_draft_run:
  "map rn_status (d_runs (snd (run_agent_route sample_world sample_services ''r1'' ''a1''
     sample_run_request sample_cp))) = [''succeeded'']"
  by code_simp


lemma run_row_stored:
  "map rn_status (d_runs t) = [status] \<Longrightarrow> d_runs t \<noteq> d_runs sample_cp"
  by (auto simp: sample_cp_def no_rows_def)

lemma release_run_admitted_witness:
  "\<exists>row. cp_fetch_agent_release sample_cp ''a1'' ''l1'' = Some row \<and> ar_status row = ''published'' \<and>
     ''calculator'' \<in> set (cp_release_tool_ids (ar_config_json row)) \<and>
     tool_live sample_cp ''calculator'' \<and> role_grants sample_cp ''u1'' ''calculator''"
  using release_run_admitted [OF prod.collapse [symmetric] run_row_stored [OF sample_release_run]]
  by (auto simp: sample_run_request_def)

lemma draft_run_admitted_witness:
  "\<exists>row \<in> set (d_agents sample_cp). ag_id row = ''a1'' \<and> ag_enabled row \<and> draft_open_to sample_cp row ''u1'' \<and>
     draft_offers sample_cp ''a1'' ''calculator'' \<and> tool_live sample_cp ''calculator''"
  using draft_run_admitted [OF prod.collapse [symmetric] run_row_stored [OF sample_draft_run]]
  by (auto simp: sample_run_request_def)

end
