(* ===== verification/Cp_Releases.thy ===== *)
theory Cp_Releases
  imports Cp_Admission
begin

text \<open>
  What the history of a control plane does to its releases: they are appended and never
  rewritten, a revocation is final, ids and versions are unique, and the runs of a release that is
  revoked are refused.
\<close>

section \<open>Releases are kept\<close>

definition release_kept :: "agent_release_row \<Rightarrow> agent_release_row \<Rightarrow> bool" where
  "release_kept r q \<longleftrightarrow>
     q = r \<or>
     (ar_status r = ''published'' \<and>
      (\<exists>when. q = r\<lparr>ar_status := ''revoked'', ar_revoked_at := Some when\<rparr>))"

definition releases_kept :: "cp_db \<Rightarrow> cp_db \<Rightarrow> bool" where
  "releases_kept s t \<longleftrightarrow>
     (\<exists>old new. d_releases t = old @ new \<and> list_all2 release_kept (d_releases s) old)"

lemma releases_keptI:
  "d_releases t = old @ new \<Longrightarrow> list_all2 release_kept (d_releases s) old \<Longrightarrow> releases_kept s t"
  unfolding releases_kept_def by blast

lemma release_kept_refl [simp]: "release_kept r r" "list_all2 release_kept rs rs"
  by (simp_all add: release_kept_def list_all2_refl)

lemma release_kept_trans: "release_kept r q \<Longrightarrow> release_kept q p \<Longrightarrow> release_kept r p"
  by (auto simp: release_kept_def)

interpretation kept: evolution releases_kept
proof
  show "releases_kept s s" for s
    by (rule releases_keptI [of s "d_releases s" "[]"]) simp_all
next
  fix s t u
  assume "releases_kept s t" "releases_kept t u"
  then obtain old new old' new' where
    t: "d_releases t = old @ new" "list_all2 release_kept (d_releases s) old" and
    u: "d_releases u = old' @ new'" "list_all2 release_kept (d_releases t) old'"
    unfolding releases_kept_def by blast
  from u(2) t(1) obtain p q where pq: "old' = p @ q" "list_all2 release_kept old p"
    by (auto simp: list_all2_append1)
  have "list_all2 release_kept (d_releases s) p"
    using list_all2_trans [OF release_kept_trans t(2) pq(2)] by simp
  then show "releases_kept s u" using u(1) pq(1) by (auto simp: releases_kept_def)
qed

lemma same_releases_kept: "same_table Releases s t \<Longrightarrow> releases_kept s t"
  using kept.same [of s] by (simp add: releases_kept_def)

lemma other_tables_kept: "steps (same_except T) m \<Longrightarrow> Releases \<notin> T \<Longrightarrow> steps releases_kept m"
  unfolding steps_def by (blast dest: same_exceptD intro: same_releases_kept)

lemma save_release_kept: "steps releases_kept (save_agent_release v l a n config actor)"
  unfolding save_agent_release_def
proof (rule kept.transaction_steps)
  fix s t :: cp_db
  assume "(if list_ex (\<lambda>row. ar_id row = l) (d_releases s) then Inl (DbError ''agent_releases_pkey'')
     else if list_ex (\<lambda>row. ar_agent_id row = a \<and> ar_version row = n) (d_releases s)
       then Inl (DbError ''agent_releases_agent_id_version_key'')
     else if \<not> list_ex (\<lambda>row. ag_id row = a) (d_agents s) then Inl (DbError ''agent_releases_agent_id_fkey'')
     else Inr (s\<lparr>d_releases := d_releases s @
            [\<lparr>ar_id = l, ar_agent_id = a, ar_version = n, ar_status = ''published'',
              ar_config_json = config, ar_published_by = actor, ar_published_at = cv_now v,
              ar_revoked_at = None\<rparr>]\<rparr>)) = Inr t"
  then show "releases_kept s t"
    by (auto intro: releases_keptI split: if_splits)
qed

lemma revoke_release_kept: "steps releases_kept (revoke_agent_release v a l)"
proof (rule kept.stepsI)
  fix s
  show "releases_kept s (snd (revoke_agent_release v a l s))"
    by (rule releases_keptI [of _ _ "[]"])
      (auto simp: revoke_agent_release_def Let_def update_rows_def release_kept_def list_all2_map2
        intro!: list_all2_refl)
qed

lemma serve_releases: "Releases \<in> writes rq \<Longrightarrow> steps releases_kept (serve w sv rq)"
  by (cases rq)
    (auto simp: publish_agent_route_def revoke_release_route_def quietly_def
      intro!: kept.action_steps save_release_kept revoke_release_kept
        other_tables_kept [OF identity_frame(5)] other_tables_kept [OF guards_frame(3)]
        other_tables_kept [OF guards_frame(4)])

lemma later_kept: "cp_later s t \<Longrightarrow> releases_kept s t"
  by (rule table_evolves [where x = Releases])
    (use kept.evolution_axioms same_releases_kept serve_releases in \<open>simp_all del: same_table.simps\<close>)


section \<open>Numbering\<close>

definition versions_of :: "cp_db \<Rightarrow> string \<Rightarrow> int list" where
  "versions_of db a = map ar_version (filter (\<lambda>r. ar_agent_id r = a) (d_releases db))"

definition release_state_ok :: "agent_release_row \<Rightarrow> bool" where
  "release_state_ok r \<longleftrightarrow>
     (ar_status r = ''published'' \<and> ar_revoked_at r = None) \<or>
     (ar_status r = ''revoked'' \<and> ar_revoked_at r \<noteq> None)"

definition numbered :: "cp_db \<Rightarrow> bool" where
  "numbered db \<longleftrightarrow>
     distinct (map ar_id (d_releases db)) \<and> list_all release_state_ok (d_releases db) \<and>
     (\<forall>a. versions_of db a = [1 .. int (length (versions_of db a))])"

lemma foldr_max_upto: "foldr max [1 .. int n] (0 :: int) = int n"
proof (induction n)
  case (Suc n)
  have "foldr max xs y = max y (foldr max xs 0)" if "0 \<le> y" for xs and y :: int
    using that by (induction xs) (simp_all add: max.left_commute)
  from this [of "1 + int n"] Suc show ?case by (simp add: upto_rec2)
qed simp

lemma versions_of_alt:
  "versions_of db a =
     map snd (filter (\<lambda>p. fst p = a) (map (\<lambda>r. (ar_agent_id r, ar_version r)) (d_releases db)))"
  by (simp add: versions_of_def filter_map o_def)

lemma next_version: "numbered db \<Longrightarrow> next_release_version db a = int (length (versions_of db a)) + 1"
  using foldr_max_upto [of "length (versions_of db a)"]
  by (simp add: numbered_def next_release_version_def versions_of_def)

lemma numbered_save:
  assumes "numbered s" and saved: "save_agent_release v l a (next_release_version s a) config actor s = (r, t)"
  shows "numbered t"
proof -
  let ?new = "\<lparr>ar_id = l, ar_agent_id = a, ar_version = next_release_version s a,
      ar_status = ''published'', ar_config_json = config, ar_published_by = actor,
      ar_published_at = cv_now v, ar_revoked_at = None\<rparr>"
  have "t = s \<or> (t = s\<lparr>d_releases := d_releases s @ [?new]\<rparr> \<and> l \<notin> set (map ar_id (d_releases s)))"
    using saved
    by (auto simp: save_agent_release_def transaction_def list_ex_iff split: if_splits)
  then show ?thesis
  proof
    assume t: "t = s\<lparr>d_releases := d_releases s @ [?new]\<rparr> \<and> l \<notin> set (map ar_id (d_releases s))"
    have versions: "versions_of t b =
        versions_of s b @ (if b = a then [int (length (versions_of s a)) + 1] else [])" for b
      using t next_version [OF \<open>numbered s\<close>] by (simp add: versions_of_def)
    have upto: "versions_of t b = [1 .. int (length (versions_of t b))]" for b
      using \<open>numbered s\<close> unfolding versions numbered_def by (cases "b = a") (simp_all add: upto_rec2)
    have "distinct (map ar_id (d_releases t)) \<and> list_all release_state_ok (d_releases t)"
      using \<open>numbered s\<close> t by (simp add: numbered_def release_state_ok_def)
    with upto show ?thesis unfolding numbered_def by blast
  qed (use \<open>numbered s\<close> in simp)
qed

lemma numbered_revoke: "numbered s \<Longrightarrow> numbered (snd (revoke_agent_release v a l s))"
proof -
  assume s: "numbered s"
  let ?t = "snd (revoke_agent_release v a l s)"
  have key: "map f (d_releases ?t) = map f (d_releases s)"
    if "\<And>r c. f (r\<lparr>ar_status := ''revoked'', ar_revoked_at := c\<rparr>) = f r" for f :: "agent_release_row \<Rightarrow> 'a"
    using that by (simp add: revoke_agent_release_def Let_def update_rows_def)
  have "list_all release_state_ok (d_releases ?t)"
    using s
    by (auto simp: numbered_def revoke_agent_release_def Let_def update_rows_def list_all_iff release_state_ok_def)
  with s show "numbered ?t"
    by (auto simp: numbered_def versions_of_alt key)
qed


lemma same_numbered: "same_table Releases s t \<Longrightarrow> numbered s \<Longrightarrow> numbered t"
  by (simp add: numbered_def versions_of_def)

lemma other_tables_numbered: "steps (same_except T) m \<Longrightarrow> Releases \<notin> T \<Longrightarrow> steps (keeping numbered) m"
  unfolding steps_def by (blast dest: same_exceptD intro: same_numbered)

lemma publish_numbered:
  "steps (keeping numbered)
     (chain (query (\<lambda>db. next_release_version db a)) (\<lambda>version.
        chain (query_cp (\<lambda>db. release_config_snapshot db a agent actor)) (\<lambda>config.
          andthen (save_agent_release v l a version config actor) (give (l, version)))))"
  unfolding steps_def
  by (auto simp: chain_def andthen_def split: sum.split prod.split dest: numbered_save)

lemma revoke_numbered: "steps (keeping numbered) (revoke_agent_release v a l)"
  by (simp add: steps_def numbered_revoke)

lemmas numbered_parts = publish_numbered revoke_numbered
  other_tables_numbered [OF identity_frame(5)] other_tables_numbered [OF guards_frame(3)]
  other_tables_numbered [OF guards_frame(4)]

lemma routes_numbered:
  "steps (keeping numbered) (publish_agent_route w l h a claimed)"
  "steps (keeping numbered) (revoke_release_route w h a l claimed)"
  unfolding publish_agent_route_def revoke_release_route_def
  by (rule keep.rethrow_steps; (intro numbered_parts keep.action_steps; simp))+

lemma serve_numbered: "numbered s \<Longrightarrow> numbered (snd (serve w sv rq s))"
proof (cases "Releases \<in> writes rq")
  case True
  then have "steps (keeping numbered) (serve w sv rq)"
    by (cases rq) (simp_all add: quietly_def keep.chain_steps keep.give_steps routes_numbered)
  then show "numbered s \<Longrightarrow> ?thesis" by (simp add: steps_def)
next
  case False
  then show "numbered s \<Longrightarrow> ?thesis" by (rule same_numbered [OF serve_same])
qed


section \<open>A revocation is final\<close>

lemma find_kept:
  assumes "list_all2 release_kept rs qs" "find (\<lambda>r. ar_id r = l \<and> ar_agent_id r = a) rs = Some r"
  shows "\<exists>q. find (\<lambda>r. ar_id r = l \<and> ar_agent_id r = a) qs = Some q \<and> release_kept r q"
  using assms
proof (induction rule: list_all2_induct)
  case (Cons x xs y ys)
  then have "ar_id y = ar_id x" "ar_agent_id y = ar_agent_id x" by (auto simp: release_kept_def)
  with Cons show ?case by (auto split: if_splits)
qed simp

lemma find_append: "find P (xs @ ys) = (case find P xs of None \<Rightarrow> find P ys | Some x \<Rightarrow> Some x)"
  by (induction xs) simp_all

lemma release_later:
  assumes "cp_later s t" "cp_fetch_agent_release s a l = Some r"
  shows "\<exists>q. cp_fetch_agent_release t a l = Some q \<and> release_kept r q"
proof -
  from later_kept [OF assms(1)] obtain old new where
    t: "d_releases t = old @ new" "list_all2 release_kept (d_releases s) old"
    by (auto simp: releases_kept_def)
  from find_kept [OF t(2)] assms(2) t(1) show ?thesis
    by (fastforce simp: cp_fetch_agent_release_def find_append)
qed

lemma revoked_later:
  assumes "cp_later s t" "cp_fetch_agent_release s a l = Some r" "ar_status r = ''revoked''"
  shows "cp_fetch_agent_release t a l = Some r"
  using release_later [OF assms(1,2)] assms(3) by (auto simp: release_kept_def)

lemma access_needs_published:
  assumes "cp_fetch_agent_release s a l = Some r" "ar_status r \<noteq> ''published''"
  shows "\<exists>e t. resolve_release_access a l actor channel s = (Inl e, t)"
proof -
  obtain x t where run: "resolve_release_access a l actor channel s = (x, t)" by fastforce
  show ?thesis
  proof (cases x)
    case (Inr p)
    with run release_access [of a l actor channel s "fst p" "snd p" t] assms show ?thesis by simp
  qed (use run in simp)
qed

lemma revoked_run_refused:
  assumes later: "cp_later s t" "cp_fetch_agent_release s a l = Some row" "ar_status row = ''revoked''"
    and route: "run_release_route w sv run a l r t = (x, u)"
  shows "(\<exists>e. x = Inl e) \<and> d_runs u = d_runs t"
proof
  have row: "cp_fetch_agent_release t a l = Some row" by (rule revoked_later [OF later])
  then show "d_runs u = d_runs t"
    using release_run_stored [OF route] later(3) by auto
  obtain e v where "resolve_release_access a l (ru_actor_id r) (ru_channel r) t = (Inl e, v)"
    using access_needs_published [OF row, of "ru_actor_id r" "ru_channel r"] later(3) by auto
  then show "\<exists>e. x = Inl e"
    using route unfolding run_release_route_def run_admitted_def Let_def
    by (auto simp: chain_def andthen_def rethrow_def split: prod.splits sum.splits if_splits)
qed

section \<open>A history\<close>

definition play :: "cp_request list \<Rightarrow> cp_db \<Rightarrow> cp_db" where
  "play rqs s = fold (\<lambda>rq d. snd (serve sample_world sample_services rq d)) rqs s"

lemma play_later: "cp_later s (play rqs s)"
  by (induction rqs rule: rev_induct) (simp_all add: play_def cp_later.now cp_later.served)

definition logged_in :: "string option" where
  "logged_in = Some ''Bearer tok''"

definition desk_history :: "cp_request list" where
  "desk_history =
     [Login ''tok'' ''u1'', Publish_Agent logged_in ''l2'' ''a1'' ''u1'',
      Revoke_Release logged_in ''a1'' ''l1'' ''u1'']"

lemma desk_releases:
  "map (\<lambda>r. (ar_id r, ar_version r, ar_status r)) (d_releases (play desk_history sample_cp)) =
     [(''l1'', 1, ''revoked''), (''l2'', 2, ''published'')]"
  by code_simp

lemma desk_revoked:
  "map_option ar_status (cp_fetch_agent_release (play desk_history sample_cp) ''a1'' ''l1'') = Some ''revoked''"
  by code_simp

lemma desk_versions: "versions_of (play desk_history sample_cp) ''a1'' = [1, 2]"
  by code_simp

lemma numbered_later: "cp_later s t \<Longrightarrow> s = no_rows \<or> numbered s \<Longrightarrow> numbered t"
proof (induction rule: cp_later.induct)
  case now
  then show ?case by (auto simp: numbered_def versions_of_def no_rows_def)
qed (simp add: serve_numbered)

lemma numbered_sample: "numbered sample_cp"
  by (simp add: numbered_def versions_of_def sample_cp_def release_state_ok_def)

section \<open>The laws\<close>

text \<open>
  C17: Releases are append-only. In every later state the releases of an earlier state come first
  and in the same order, each of them unchanged (agent, version, frozen configuration, publisher)
  except that a published one may have become revoked; a revoked one is exactly as it was.
\<close>

theorem releases_append_only:
  assumes "cp_later s t"
  shows "\<exists>old new. d_releases t = old @ new \<and> list_all2 release_kept (d_releases s) old"
  using later_kept [OF assms] by (simp add: releases_kept_def)

lemma releases_append_only_witness:
  "\<exists>old new. d_releases (play desk_history sample_cp) = old @ new \<and>
     list_all2 release_kept (d_releases sample_cp) old"
  by (rule releases_append_only [OF play_later])

text \<open>
  Release ids are unique, the releases of an agent are numbered \<open>1, 2, 3, ...\<close> without gaps in
  the order of their publication, and a release has a revocation time exactly when it is revoked:
  an empty database has this property, and every history keeps it.
\<close>

theorem releases_numbered:
  assumes "cp_later s t" "s = no_rows \<or> numbered s"
  shows "distinct (map ar_id (d_releases t)) \<and> list_all release_state_ok (d_releases t) \<and>
     versions_of t a = [1 .. int (length (versions_of t a))]"
  using numbered_later [OF assms] by (simp add: numbered_def)

lemma releases_numbered_witness:
  "versions_of (play desk_history sample_cp) ''a1'' =
     [1 .. int (length (versions_of (play desk_history sample_cp) ''a1''))] \<and>
   length (versions_of (play desk_history sample_cp) ''a1'') = 2"
  using releases_numbered [OF play_later [of sample_cp desk_history], of "''a1''"] numbered_sample
  by (simp add: desk_versions)

text \<open>
  C5: A revocation is final: once a release is revoked, every later request to run it, by whomever,
  on whatever channel and with whatever tools, ends in an error and stores no run.
\<close>

theorem revoked_never_runs:
  assumes "cp_later s t" "cp_fetch_agent_release s a l = Some row" "ar_status row = ''revoked''"
    and "run_release_route w sv run a l r t = (x, u)"
  shows "(\<exists>e. x = Inl e) \<and> d_runs u = d_runs t"
  using assms by (rule revoked_run_refused)

lemma revoked_never_runs_witness:
  "(\<exists>e. fst (run_release_route sample_world sample_services ''r1'' ''a1'' ''l1'' sample_run_request
        (play desk_history sample_cp)) = Inl e) \<and>
   map rn_status (d_runs (snd (run_release_route sample_world sample_services ''r1'' ''a1'' ''l1''
        sample_run_request sample_cp))) = [''succeeded'']"
proof -
  obtain row where "cp_fetch_agent_release (play desk_history sample_cp) ''a1'' ''l1'' = Some row"
      "ar_status row = ''revoked''"
    using desk_revoked by auto
  from revoked_never_runs [OF cp_later.now this prod.collapse [symmetric]] sample_release_run
  show ?thesis by blast
qed

end
