(* ===== verification/Cp_Privileges.thy ===== *)
theory Cp_Privileges
  imports Cp_Releases
begin

text \<open>
  Who may change what: the tables only a platform administrator's request (or the seeding of the
  roles) changes, the releases only their agent's owner or an administrator changes, and what
  remains open to a caller without credentials.
\<close>

section \<open>Identity\<close>

definition identified :: "cp_world \<Rightarrow> string option \<Rightarrow> cp_db \<Rightarrow> string \<Rightarrow> bool" where
  "identified w h s u \<longleftrightarrow>
     (\<exists>token. extract_bearer_token h = Inr token \<and>
        (if cc_auth_mode (cw_config w) = ''local'' then get_session_user (cw_env w) s token = Some u
         else (\<exists>i. fetch_oa_current_user w token = Inr i \<and> xi_uid i = u) \<and>
              (user_status s u = None \<or> user_status s u = Some ''active'')))"

lemma session_user_active: "get_session_user v s token = Some u \<Longrightarrow> user_active s u"
  by (auto simp: get_session_user_def dest: find_SomeD)

lemma rethrow_Inl_iff: "rethrow f m s = (Inl e, t) \<longleftrightarrow> (\<exists>d. m s = (Inl d, t) \<and> e = f d)"
  by (auto simp: rethrow_def split: prod.split sum.split)

lemma known_user:
  "ensure_user_exists u ''active'' s = (Inr y, t) \<Longrightarrow>
     user_active t u \<longleftrightarrow> user_status s u = None \<or> user_status s u = Some ''active''"
  by (auto simp: ensure_user_exists_def transaction_Inr_iff user_active_def user_status_def user_statuses_def
      map_add_def split: if_splits)

lemma current_user_identified:
  assumes current: "current_user_id w h s = (Inr u, t)"
  shows "identified w h s u \<and> user_active t u \<and> same_except {Users} s t"
proof -
  have "same_except {Users} s t"
    using identity_frame(2) [of w h] current by (auto simp: steps_def dest: spec [of _ s])
  moreover have "identified w h s u \<and> user_active t u"
    using current
    by (auto simp: current_user_id_def resolve_current_user_id_def succeeded identified_def known_user
        dest: session_user_active split: if_splits option.splits)
  ultimately show ?thesis by blast
qed

lemma admin_required:
  assumes "\<not> (\<exists>u. identified w h s u \<and> has_role s u PLATFORM_ADMIN_ROLE)"
  shows "\<exists>e t. require_current_platform_admin w h s = (Inl e, t) \<and> same_except {Users} s t"
proof -
  obtain x t where run: "require_current_platform_admin w h s = (x, t)" by fastforce
  have frame: "same_except {Users} s t"
    using identity_frame(4) [of w h] run by (auto simp: steps_def dest: spec [of _ s])
  have "x = Inr u \<Longrightarrow> False" for u
  proof -
    assume "x = Inr u"
    then obtain v where current: "current_user_id w h s = (Inr u, v)" and role: "has_role v u PLATFORM_ADMIN_ROLE"
      using run by (auto simp: require_current_platform_admin_def require_platform_admin_def succeeded split: if_splits)
    from current_user_identified [OF current] have "identified w h s u" "has_role s u PLATFORM_ADMIN_ROLE"
      using role same_exceptD [of "{Users}" s v User_Roles] by (simp_all add: has_role_def)
    with assms show False by blast
  qed
  with run frame show ?thesis by (cases x) auto
qed

section \<open>Tables of the administrators\<close>

definition admin_tables :: "cp_table set" where
  "admin_tables = {Roles, User_Roles, Role_Permissions, Role_Events, Policies, Connections, Workflows}"

fun credentials :: "cp_request \<Rightarrow> string option" where
  "credentials (Set_Connection h cid r) = h"
| "credentials (Discover h cid env remote) = h"
| "credentials (Set_Workflow h wid r) = h"
| "credentials (Retire_Workflow h wid n) = h"
| "credentials (Set_Tool_Status h t claimed status) = h"
| "credentials (Set_Policy h tenant ns mode allow) = h"
| "credentials (Create_Role h r) = h"
| "credentials (Update_Role h rid r) = h"
| "credentials (Set_User_Roles h u claimed rs) = h"
| "credentials (Create_Agent h a r) = h"
| "credentials (Update_Agent h a r) = h"
| "credentials (Set_Agent_Status h a claimed enabled) = h"
| "credentials (Publish_Agent h l a claimed) = h"
| "credentials (Revoke_Release h a l claimed) = h"
| "credentials rq = None"

lemma refused_chain:
  "m s = (Inl e, t) \<Longrightarrow> snd (chain m f s) = t"
  "m s = (Inl e, t) \<Longrightarrow> snd (andthen m k s) = t"
  by simp_all

lemma snd_wrapped: "snd (rethrow f m s) = snd (m s)" "snd (quietly m s) = snd (m s)"
  by (auto simp: rethrow_def quietly_def chain_def split: prod.split sum.split)

lemma snd_required: "snd (andthen (require b e) k s) = (if b then snd (k s) else s)"
  by (simp add: andthen_def chain_def)

lemma admin_only:
  assumes "\<not> (\<exists>u. identified w (credentials rq) s u \<and> has_role s u PLATFORM_ADMIN_ROLE)"
    and "x \<in> admin_tables" "x \<in> writes rq" "rq \<noteq> Seed_Roles"
  shows "same_except {Users} s (snd (serve w sv rq s))"
proof -
  obtain e t where refused: "require_current_platform_admin w (credentials rq) s = (Inl e, t)"
    and frame: "same_except {Users} s t"
    using admin_required [OF assms(1)] by blast
  then show ?thesis using assms(2-4)
    by (cases rq)
      (auto simp: admin_tables_def snd_wrapped snd_required refused_chain same_except_refl
        set_mcp_connection_route_def set_workflow_route_def retire_workflow_route_def
        set_memory_policy_route_def create_role_route_def update_role_route_def set_user_roles_route_def)
qed

text \<open>
  C7: Roles, the roles of users, the tool permissions of roles, their change log, the memory
  policies, the MCP connections and the workflow versions change only by a request whose credentials
  identify a user with the platform administrator role, or by the seeding of the
  roles; every other request, whatever it carries, leaves these tables as they are.
\<close>

theorem privileges_guarded:
  assumes "x \<in> admin_tables" "\<not> same_table x s (snd (serve w sv rq s))"
  shows "rq = Seed_Roles \<or>
     (\<exists>u. identified w (credentials rq) s u \<and> has_role s u PLATFORM_ADMIN_ROLE)"
proof (rule ccontr)
  assume none: "\<not> (rq = Seed_Roles \<or> (\<exists>u. identified w (credentials rq) s u \<and> has_role s u PLATFORM_ADMIN_ROLE))"
  have "x \<in> writes rq" using assms(2) serve_same by blast
  with none assms(1) have "same_except {Users} s (snd (serve w sv rq s))"
    using admin_only by blast
  then show False using assms same_exceptD [of "{Users}" s _ x] by (auto simp: admin_tables_def)
qed


definition admin_cp :: cp_db where
  "admin_cp = sample_cp\<lparr>
     d_user_roles := [(''u1'', PLATFORM_ADMIN_ROLE)],
     d_sessions := [\<lparr>se_token_hash = ''tok'', se_user_id = ''u1'', se_revoked_at = None\<rparr>]\<rparr>"

lemma policies_length:
  "length (d_policies (snd (serve sample_world sample_services
     (Set_Policy logged_in ''tenant'' ''notes'' ''user_controlled'' False) admin_cp))) = 1"
  by code_simp

lemma policy_set:
  "d_policies (snd (serve sample_world sample_services
     (Set_Policy logged_in ''tenant'' ''notes'' ''user_controlled'' False) admin_cp)) \<noteq> []"
  using policies_length by (metis list.size(3) zero_neq_one)

lemma no_policies: "d_policies admin_cp = []"
  by (simp add: admin_cp_def sample_cp_def no_rows_def)

lemma privileges_guarded_witness:
  "\<exists>u. identified sample_world logged_in admin_cp u \<and> has_role admin_cp u PLATFORM_ADMIN_ROLE"
  using privileges_guarded [of Policies admin_cp sample_world sample_services
      "Set_Policy logged_in ''tenant'' ''notes'' ''user_controlled'' False"] policy_set
  by (simp add: admin_tables_def no_policies del: serve.simps)

section \<open>Agents and their releases\<close>

fun managed_agent :: "cp_request \<Rightarrow> string option" where
  "managed_agent (Update_Agent h a r) = Some a"
| "managed_agent (Publish_Agent h l a claimed) = Some a"
| "managed_agent (Revoke_Release h a l claimed) = Some a"
| "managed_agent rq = None"

definition may_manage :: "cp_world \<Rightarrow> string option \<Rightarrow> string \<Rightarrow> cp_db \<Rightarrow> bool" where
  "may_manage w h a s \<longleftrightarrow>
     (\<exists>u. identified w h s u \<and>
        (\<exists>row \<in> set (d_agents s). ag_id row = a \<and> (ag_owner_user_id row = u \<or> has_role s u PLATFORM_ADMIN_ROLE)))"

lemma current_actor_identified:
  assumes "require_current_actor w h claimed s = (x, t)"
  shows "same_except {Users} s t \<and> (\<forall>u. x = Inr u \<longrightarrow> identified w h s u)"
proof -
  have "same_except {Users} s t"
    using identity_frame(5) [of w h claimed] assms by (auto simp: steps_def dest: spec [of _ s])
  moreover have "identified w h s u" if "x = Inr u" for u
    using assms that current_user_identified [of w h s u]
    by (auto simp: require_current_actor_def succeeded split: if_splits)
  ultimately show ?thesis by blast
qed

lemma managed_only:
  assumes "\<not> may_manage w h a s"
  shows "same_except {Users} s (snd (chain (require_current_actor w h claimed) (\<lambda>actor.
     chain (require_agent a) (\<lambda>agent. andthen (require_agent_manager actor agent) (k actor agent))) s))"
proof -
  obtain x t where actor: "require_current_actor w h claimed s = (x, t)" by fastforce
  have frame: "same_except {Users} s t" using current_actor_identified [OF actor] by blast
  then have same: "d_agents t = d_agents s" "d_user_roles t = d_user_roles s"
    using same_exceptD [OF frame, of Agents] same_exceptD [OF frame, of User_Roles] by simp_all
  show ?thesis
  proof (cases x)
    case (Inl e)
    with actor frame show ?thesis by simp
  next
    case (Inr u)
    then have identified: "identified w h s u" using current_actor_identified [OF actor] by blast
    show ?thesis
    proof (cases "load_agent t a")
      case None
      with actor frame Inr show ?thesis by (simp add: chain_def require_agent_def)
    next
      case (Some agent)
      then obtain row where row: "row \<in> set (d_agents s)" "ag_id row = a" "agent = agent_dict t row"
        using same(1) by (auto simp: load_agent_def dest: find_SomeD)
      then have "ag_owner_user_id row \<noteq> u \<and> \<not> has_role s u PLATFORM_ADMIN_ROLE"
        using assms identified by (auto simp: may_manage_def)
      then have "\<not> can_manage_agent t u agent"
        using row(3) same(2) by (simp add: can_manage_agent_def agent_dict_def Let_def has_role_def py_eq_str)
      then have "snd (andthen (require_agent_manager u agent) (k u agent) t) = t"
        by (simp add: require_agent_manager_def andthen_def chain_def)
      with actor frame Inr Some show ?thesis by (simp add: chain_def require_agent_def)
    qed
  qed
qed

lemma snd_query_cp: "snd (chain (query_cp f) k s) = (case f s of Inl e \<Rightarrow> s | Inr x \<Rightarrow> snd (k x s))"
  by (simp add: chain_def split: sum.split)

lemma managed_routes:
  assumes "\<not> may_manage w h a s"
  shows "same_except {Users} s (snd (publish_agent_route w l h a claimed s))"
    and "same_except {Users} s (snd (revoke_release_route w h a l claimed s))"
    and "same_except {Users} s (snd (update_agent_route w h a r s))"
proof -
  show "same_except {Users} s (snd (publish_agent_route w l h a claimed s))"
    unfolding publish_agent_route_def snd_wrapped by (rule managed_only [OF assms])
  show "same_except {Users} s (snd (revoke_release_route w h a l claimed s))"
    unfolding revoke_release_route_def snd_wrapped by (rule managed_only [OF assms])
  show "same_except {Users} s (snd (update_agent_route w h a r s))"
    unfolding update_agent_route_def snd_query_cp
    by (cases "normalize_agent_tool_request r")
      (simp_all only: sum.case snd_wrapped same_except_refl managed_only [OF assms])
qed

lemma manager_only:
  assumes "managed_agent rq = Some a" "\<not> may_manage w (credentials rq) a s"
  shows "same_except {Users} s (snd (serve w sv rq s))"
  using assms by (cases rq) (simp_all add: snd_wrapped managed_routes)

definition same_elsewhere :: "string \<Rightarrow> cp_db \<Rightarrow> cp_db \<Rightarrow> bool" where
  "same_elsewhere a s t \<longleftrightarrow>
     filter (\<lambda>r. ar_agent_id r \<noteq> a) (d_releases t) = filter (\<lambda>r. ar_agent_id r \<noteq> a) (d_releases s)"

interpretation others: evolution "same_elsewhere a" for a
  by unfold_locales (simp_all add: same_elsewhere_def)

lemma same_releases_elsewhere: "same_table Releases s t \<Longrightarrow> same_elsewhere a s t"
  by (simp add: same_elsewhere_def)

lemma other_tables_others:
  "steps (same_except T) m \<Longrightarrow> Releases \<notin> T \<Longrightarrow> steps (same_elsewhere a) m"
  unfolding steps_def by (blast dest: same_exceptD intro: same_releases_elsewhere)

lemma release_writes_others:
  "steps (same_elsewhere a)
     (save_agent_release v l a n config actor)"
  "steps (same_elsewhere a)
     (revoke_agent_release v a l)"
proof -
  show "steps (same_elsewhere a)
     (save_agent_release v l a n config actor)"
    by (auto simp: steps_def save_agent_release_def transaction_def same_elsewhere_def)
  have "filter (\<lambda>r. ar_agent_id r \<noteq> a) (update_rows (\<lambda>row. ar_id row = l \<and> ar_agent_id row = a \<and> ar_status row = ''published'')
      (\<lambda>row. row\<lparr>ar_status := ''revoked'', ar_revoked_at := Some k\<rparr>) rs) = filter (\<lambda>r. ar_agent_id r \<noteq> a) rs"
    for k and rs :: "agent_release_row list"
    by (induction rs) (simp_all add: update_rows_def)
  then show "steps (same_elsewhere a)
     (revoke_agent_release v a l)"
    by (simp add: steps_def revoke_agent_release_def Let_def same_elsewhere_def)
qed

lemmas others_parts = release_writes_others
  other_tables_others [OF identity_frame(5)] other_tables_others [OF guards_frame(3)]
  other_tables_others [OF guards_frame(4)]

lemma others_untouched:
  assumes "managed_agent rq = Some a"
  shows "same_elsewhere a s (snd (serve w sv rq s))"
proof (cases "Releases \<in> writes rq")
  case False
  then show ?thesis using serve_same [of Releases rq s w sv] by (simp add: same_elsewhere_def)
next
  case True
  have "steps (same_elsewhere a)
      (publish_agent_route w l h a c)" for l h c
    unfolding publish_agent_route_def
    by (rule others.rethrow_steps; (intro others_parts others.action_steps; simp))
  moreover have "steps (same_elsewhere a)
      (revoke_release_route w h a l c)" for l h c
    unfolding revoke_release_route_def
    by (rule others.rethrow_steps; (intro others_parts others.action_steps; simp))
  ultimately show ?thesis using True assms
    by (cases rq) (simp_all add: snd_wrapped steps_def)
qed

text \<open>
  C31: An agent's draft and its releases belong to its owner: a request that changes any release, or
  edits, publishes or revokes an agent, changes nothing (but the entry of a user who logs in for the
  first time) unless its credentials identify the agent's owner or a platform administrator, and
  then the releases of all other agents stay as they are.
\<close>

theorem releases_guarded:
  assumes "\<not> same_table x s (snd (serve w sv rq s))" "x \<noteq> Users"
    and "x = Releases \<or> managed_agent rq \<noteq> None"
  shows "\<exists>a. managed_agent rq = Some a \<and> may_manage w (credentials rq) a s \<and>
     same_elsewhere a s (snd (serve w sv rq s))"
proof -
  have "managed_agent rq \<noteq> None" if "x = Releases"
    using that assms(1) serve_same [of x rq s w sv] by (cases rq) auto
  then obtain a where a: "managed_agent rq = Some a" using assms(3) by blast
  have "may_manage w (credentials rq) a s"
    using assms(1,2) manager_only [OF a] by (metis same_exceptD singletonD)
  with a others_untouched [OF a] show ?thesis by blast
qed

lemma published_twice:
  "map ar_version (d_releases (snd (serve sample_world sample_services
     (Publish_Agent logged_in ''l2'' ''a1'' ''u1'') admin_cp))) = [1, 2]"
  by code_simp

lemma releases_guarded_witness:
  "may_manage sample_world logged_in ''a1'' admin_cp"
proof -
  have "map ar_version (d_releases admin_cp) = [1]" by (simp add: admin_cp_def sample_cp_def no_rows_def)
  then have "\<not> same_table Releases admin_cp (snd (serve sample_world sample_services
     (Publish_Agent logged_in ''l2'' ''a1'' ''u1'') admin_cp))"
    using published_twice by (auto simp del: serve.simps)
  from releases_guarded [OF this] show ?thesis by simp
qed


section \<open>What needs no credentials\<close>

text \<open>
  \<open>PUT /users/{user_id}\<close>, \<open>PUT /tools/{tool_id}\<close> and, in local mode, \<open>POST /auth/login\<close> take no
  credentials. Together they let any caller act as an administrator whose account is disabled, and
  take the approval away from a tool.
\<close>

definition locked_cp :: cp_db where
  "locked_cp = admin_cp\<lparr>d_users := [(''u1'', ''disabled'')], d_sessions := []\<rparr>"

definition take_over :: "cp_request list" where
  "take_over = [Set_User ''u1'' ''active'', Login ''tok'' ''u1'']"

lemma anyone_becomes_admin:
  "map credentials take_over = [None, None] \<and> \<not> identified sample_world logged_in locked_cp ''u1'' \<and>
   identified sample_world logged_in (play take_over locked_cp) ''u1'' \<and>
   has_role (play take_over locked_cp) ''u1'' PLATFORM_ADMIN_ROLE"
proof -
  have token: "extract_bearer_token logged_in = Inr ''tok''" by code_simp
  have locked: "get_session_user (cw_env sample_world) locked_cp ''tok'' = None" by code_simp
  have "get_session_user (cw_env sample_world) (play take_over locked_cp) ''tok'' = Some ''u1''" by code_simp
  moreover have "has_role (play take_over locked_cp) ''u1'' PLATFORM_ADMIN_ROLE" by code_simp
  ultimately show ?thesis using token locked
    by (simp add: take_over_def identified_def sample_world_def)
qed

lemma put_tool_row:
  assumes "put_tool v t False s = Inr u" "row \<in> set (d_tools u)" "td_tool_id row = td_tool_id t"
  shows "row = tool_row_of v t"
proof -
  have "td_tool_id (tool_row_of v t) = td_tool_id t" by (simp add: tool_row_of_def)
  with assms show ?thesis
    by (auto simp: put_tool_def put_row_def list_ex_iff split: if_splits)
qed

lemma anyone_lifts_approval:
  assumes "tq_mcp_connection_id r = None" "\<not> tq_requires_approval r"
  shows "credentials (Set_Tool t r) = None \<and>
     (\<forall>row \<in> set (d_tools (snd (serve w sv (Set_Tool t r) s))). td_tool_id row = t \<longrightarrow> \<not> td_requires_approval row)"
proof -
  let ?tool = "tool_from_request t r None"
  have tool: "tool_definition_from_request s t r = Inr ?tool"
    using assms(1) by (simp add: tool_definition_from_request_def)
  obtain u where u: "put_tool (cw_env w) ?tool False s = Inr u"
    using assms(1) by (simp add: put_tool_def connection_known_def tool_from_request_def)
  then have "snd (serve w sv (Set_Tool t r) s) = u"
    using tool by (simp add: snd_wrapped set_tool_route_def upsert_tool_def transaction_def andthen_def chain_def)
  moreover have "\<not> td_requires_approval (tool_row_of (cw_env w) ?tool)" "td_tool_id ?tool = t"
    using assms(2) by (simp_all add: tool_row_of_def tool_from_request_def)
  ultimately show ?thesis using put_tool_row [OF u] by auto
qed

end
