(* ===== verification/Cp_Workflows.thy ===== *)
theory Cp_Workflows
  imports Cp_Privileges
begin

text \<open>
  Workflow versions over the history of a control plane: a published manifest is never rewritten or
  deleted, a version number is used once per workflow, and at most one version is active.
\<close>

section \<open>The laws as a relation\<close>

definition version_key :: "workflow_row \<Rightarrow> string \<times> string" where
  "version_key r = (wv_workflow_id r, wv_version r)"

text \<open>What no request changes of a version: all but its lifecycle.\<close>

definition version_content :: "workflow_row \<Rightarrow> (string \<times> string) \<times> tool_def \<times> string \<times> string \<times> int" where
  "version_content r = (version_key r, wv_manifest r, wv_manifest_hash r, wv_created_by r, wv_created_at r)"

definition one_active :: "workflow_row list \<Rightarrow> bool" where
  "one_active rows \<longleftrightarrow>
     (\<forall>r \<in> set rows. \<forall>q \<in> set rows. wv_workflow_id r = wv_workflow_id q \<and>
        wv_lifecycle_status r = ''active'' \<and> wv_lifecycle_status q = ''active'' \<longrightarrow> wv_version r = wv_version q)"

definition version_state_ok :: "workflow_row \<Rightarrow> bool" where
  "version_state_ok r \<longleftrightarrow>
     wv_lifecycle_status r \<in> {''active'', ''retired''} \<and> wv_manifest_hash r = td_manifest_hash (wv_manifest r)"

definition versions_ok :: "cp_db \<Rightarrow> bool" where
  "versions_ok s \<longleftrightarrow>
     distinct (map version_key (d_workflows s)) \<and> one_active (d_workflows s) \<and>
     list_all version_state_ok (d_workflows s)"

definition versions_kept :: "cp_db \<Rightarrow> cp_db \<Rightarrow> bool" where
  "versions_kept s t \<longleftrightarrow>
     take (length (d_workflows s)) (map version_content (d_workflows t)) = map version_content (d_workflows s) \<and>
     (versions_ok s \<longrightarrow> versions_ok t)"

lemma take_trans:
  assumes "take (length xs) (map f ys) = map f xs" "take (length ys) (map f zs) = map f ys"
  shows "take (length xs) (map f zs) = map f xs"
proof -
  have "length (map f xs) \<le> length ys" using assms(1) by (metis length_map length_take min.cobounded2 nat_le_linear min_def)
  then have "take (length xs) (map f zs) = take (length xs) (take (length ys) (map f zs))" by (simp add: min_def)
  with assms show ?thesis by simp
qed

interpretation versions: evolution versions_kept
proof
  show "versions_kept s s" for s by (simp add: versions_kept_def)
  show "versions_kept s u" if "versions_kept s t" "versions_kept t u" for s t u
    using that take_trans unfolding versions_kept_def by blast
qed

lemma same_versions_kept: "same_table Workflows s t \<Longrightarrow> versions_kept s t"
  by (simp add: versions_kept_def versions_ok_def)

lemma other_tables_versions: "steps (same_except T) m \<Longrightarrow> Workflows \<notin> T \<Longrightarrow> steps versions_kept m"
  unfolding steps_def by (blast dest: same_exceptD intro: same_versions_kept)

section \<open>Publishing and retiring\<close>

lemma content_update:
  "(\<And>r. version_content (f r) = version_content r) \<Longrightarrow>
     map version_content (update_rows p f rows) = map version_content rows"
  by (simp add: update_rows_def)

lemma retired_content: "map version_content (retire_other_versions v actor w n rows) = map version_content rows"
  unfolding retire_other_versions_def
  by (rule content_update) (simp add: version_content_def version_key_def)

lemma keys_of_content: "map version_content rows = map version_content rows' \<Longrightarrow> map version_key rows = map version_key rows'"
proof -
  assume "map version_content rows = map version_content rows'"
  then have "map fst (map version_content rows) = map fst (map version_content rows')" by simp
  then show ?thesis by (simp add: version_content_def o_def)
qed

lemma activated_content:
  "take (length rows) (map version_content (activate_version v actor t existing rows)) = map version_content rows"
  by (simp add: activate_version_def update_rows_def version_content_def version_key_def split: option.split)

lemma activated_keys:
  "map version_key (activate_version v actor t existing rows) =
     map version_key rows @ (if existing = None then [(td_tool_id t, td_version t)] else [])"
  by (simp add: activate_version_def update_rows_def version_key_def split: option.split)

definition retire_row :: "cp_env \<Rightarrow> string \<Rightarrow> string \<Rightarrow> string \<Rightarrow> workflow_row \<Rightarrow> workflow_row" where
  "retire_row v actor w n r =
     (if wv_workflow_id r = w \<and> wv_lifecycle_status r = ''active'' \<and> wv_version r \<noteq> n
      then r\<lparr>wv_lifecycle_status := ''retired'', wv_retired_by := Some actor, wv_retired_at := Some (cv_now v)\<rparr>
      else r)"

lemma retire_others_map: "retire_other_versions v actor w n rows = map (retire_row v actor w n) rows"
  by (simp add: retire_other_versions_def update_rows_def retire_row_def)

lemma retire_row_facts:
  "wv_workflow_id (retire_row v actor w n r) = wv_workflow_id r"
  "wv_version (retire_row v actor w n r) = wv_version r"
  "wv_manifest (retire_row v actor w n r) = wv_manifest r"
  "wv_manifest_hash (retire_row v actor w n r) = wv_manifest_hash r"
  "wv_lifecycle_status (retire_row v actor w n r) =
     (if wv_workflow_id r = w \<and> wv_lifecycle_status r = ''active'' \<and> wv_version r \<noteq> n then ''retired''
      else wv_lifecycle_status r)"
  by (simp_all add: retire_row_def)

lemma published_rows:
  assumes "x \<in> set (activate_version v actor t existing
     (retire_other_versions v actor (td_tool_id t) (td_version t) rows))"
  shows "wv_workflow_id x = td_tool_id t \<and> (wv_lifecycle_status x = ''active'' \<longrightarrow> wv_version x = td_version t) \<or>
     wv_workflow_id x \<noteq> td_tool_id t \<and> x \<in> set rows"
proof (cases "\<exists>r \<in> set rows. wv_workflow_id x = wv_workflow_id r \<and>
    (x = retire_row v actor (td_tool_id t) (td_version t) r \<or> is_version (td_tool_id t) (td_version t) x)")
  case True
  then obtain r where r: "r \<in> set rows"
    and x: "x = retire_row v actor (td_tool_id t) (td_version t) r \<or> is_version (td_tool_id t) (td_version t) x"
    by blast
  have "wv_workflow_id r \<noteq> td_tool_id t \<Longrightarrow> retire_row v actor (td_tool_id t) (td_version t) r = r"
    by (simp add: retire_row_def)
  with r x show ?thesis
    by (cases "wv_workflow_id r = td_tool_id t") (auto simp: is_version_def retire_row_facts split: if_splits)
next
  case False
  then show ?thesis using assms unfolding retire_others_map
    by (auto simp: activate_version_def update_rows_def is_version_def retire_row_facts split: option.splits)
qed

lemma one_active_published:
  assumes "one_active rows"
  shows "one_active (activate_version v actor t existing
     (retire_other_versions v actor (td_tool_id t) (td_version t) rows))"
  unfolding one_active_def
proof (intro ballI impI)
  fix r q
  assume rows: "r \<in> set (activate_version v actor t existing
       (retire_other_versions v actor (td_tool_id t) (td_version t) rows))"
      "q \<in> set (activate_version v actor t existing
       (retire_other_versions v actor (td_tool_id t) (td_version t) rows))"
    and active: "wv_workflow_id r = wv_workflow_id q \<and>
        wv_lifecycle_status r = ''active'' \<and> wv_lifecycle_status q = ''active''"
  show "wv_version r = wv_version q"
    using published_rows [OF rows(1)] published_rows [OF rows(2)] active assms
    unfolding one_active_def by metis
qed

lemma states_published:
  assumes "list_all version_state_ok rows"
  shows "list_all version_state_ok (activate_version v actor t existing (retire_other_versions v actor w n rows))"
proof -
  have "version_state_ok (retire_row v actor w n r)" if "version_state_ok r" for r
    using that by (simp add: version_state_ok_def retire_row_facts)
  with assms show ?thesis unfolding retire_others_map
    by (auto simp: activate_version_def update_rows_def list_all_iff split: option.splits)
      (simp_all add: version_state_ok_def)
qed

lemma versions_published:
  assumes rows: "d_workflows u = activate_version v actor t (find_version s (td_tool_id t) (td_version t))
     (retire_other_versions v actor (td_tool_id t) (td_version t) (d_workflows s))"
  shows "versions_kept s u"
proof -
  let ?retired = "retire_other_versions v actor (td_tool_id t) (td_version t) (d_workflows s)"
  let ?existing = "find_version s (td_tool_id t) (td_version t)"
  have len: "length ?retired = length (d_workflows s)" by (simp add: retire_others_map)
  have content: "take (length (d_workflows s)) (map version_content (d_workflows u)) = map version_content (d_workflows s)"
    using activated_content [of ?retired v actor t ?existing] by (simp add: rows len retired_content)
  have "?existing = None \<longleftrightarrow> (td_tool_id t, td_version t) \<notin> set (map version_key (d_workflows s))"
    by (force simp: find_version_def find_None_iff is_version_def version_key_def)
  then have "distinct (map version_key (d_workflows s)) \<Longrightarrow> distinct (map version_key (d_workflows u))"
    by (simp add: rows activated_keys keys_of_content [OF retired_content])
  with content show ?thesis
    unfolding versions_kept_def versions_ok_def
    by (simp add: rows one_active_published states_published)
qed

lemma publish_kept: "steps versions_kept (publish_workflow_version v tool actor)"
proof (rule versions.stepsI)
  fix s
  let ?t = "tool\<lparr>td_manifest_hash := (if td_manifest_hash tool \<noteq> [] then td_manifest_hash tool
                       else compute_tool_manifest_hash v tool)\<rparr>"
  let ?u = "snd (publish_workflow_version v tool actor s)"
  have ids: "td_tool_id ?t = td_tool_id tool" "td_version ?t = td_version tool" by simp_all
  have "?u = s \<or> d_workflows ?u = activate_version v actor ?t (find_version s (td_tool_id ?t) (td_version ?t))
     (retire_other_versions v actor (td_tool_id ?t) (td_version ?t) (d_workflows s))"
    unfolding ids by (auto simp: publish_workflow_version_def Let_def put_tool_def)
  then show "versions_kept s ?u" using versions_published versions.same by metis
qed


lemma retired_ok:
  assumes "one_active rows" "list_all version_state_ok rows"
  shows "one_active (update_rows (is_version w n) (retire_version_row v actor) rows) \<and>
     list_all version_state_ok (update_rows (is_version w n) (retire_version_row v actor) rows)"
proof -
  have kept: "x \<in> set rows \<or> (wv_lifecycle_status x = ''retired'' \<and> version_state_ok x)"
    if "x \<in> set (update_rows (is_version w n) (retire_version_row v actor) rows)" for x
    using that assms(2) by (auto simp: update_rows_def retire_version_row_def version_state_ok_def list_all_iff)
  have active: "x \<in> set rows"
    if "x \<in> set (update_rows (is_version w n) (retire_version_row v actor) rows)" "wv_lifecycle_status x = ''active''" for x
    using kept [OF that(1)] that(2) by auto
  have "one_active (update_rows (is_version w n) (retire_version_row v actor) rows)"
    using assms(1) active unfolding one_active_def by blast
  moreover have "list_all version_state_ok (update_rows (is_version w n) (retire_version_row v actor) rows)"
    using assms(2) kept unfolding list_all_iff by blast
  ultimately show ?thesis by blast
qed

lemma versions_retired:
  assumes rows: "d_workflows u = update_rows (is_version w n) (retire_version_row v actor) (d_workflows s)"
  shows "versions_kept s u"
proof -
  have content: "map version_content (d_workflows u) = map version_content (d_workflows s)"
    unfolding rows by (rule content_update) (simp add: version_content_def version_key_def retire_version_row_def)
  then have "take (length (d_workflows s)) (map version_content (d_workflows u)) = map version_content (d_workflows s)"
    by simp
  moreover have "versions_ok s \<longrightarrow> versions_ok u"
    using keys_of_content [OF content] retired_ok [of "d_workflows s" w n v actor]
    by (simp add: versions_ok_def rows)
  ultimately show ?thesis by (simp add: versions_kept_def)
qed

lemma retire_kept: "steps versions_kept (retire_workflow_version v w n actor)"
proof (rule versions.stepsI)
  fix s
  let ?u = "snd (retire_workflow_version v w n actor s)"
  have "?u = s \<or> d_workflows ?u = update_rows (is_version w n) (retire_version_row v actor) (d_workflows s)"
    by (simp add: retire_workflow_version_def Let_def split: option.split)
  then show "versions_kept s ?u" using versions_retired versions.same by metis
qed

lemma serve_versions: "Workflows \<in> writes rq \<Longrightarrow> steps versions_kept (serve w sv rq)"
proof -
  have "steps versions_kept (set_workflow_route w h wid r)" for h wid r
    unfolding set_workflow_route_def
    by (intro versions.action_steps publish_kept other_tables_versions [OF identity_frame(4)]; simp)
  moreover have "steps versions_kept (retire_workflow_route w h wid n)" for h wid n
    unfolding retire_workflow_route_def
    by (intro versions.action_steps case_steps retire_kept other_tables_versions [OF identity_frame(4)]; simp)
  ultimately show "Workflows \<in> writes rq \<Longrightarrow> steps versions_kept (serve w sv rq)"
    by (cases rq) (simp_all add: quietly_def versions.chain_steps versions.give_steps)
qed

lemma later_versions: "cp_later s t \<Longrightarrow> versions_kept s t"
  by (rule table_evolves [where x = Workflows])
    (use versions.evolution_axioms same_versions_kept serve_versions in \<open>simp_all del: same_table.simps\<close>)

section \<open>The law\<close>

text \<open>
  C18: A published workflow version is immutable: every version of an earlier state is, in every
  later state, at the same place with the same manifest, hash and creator. Where the versions of
  each workflow are distinct and at most one of them is active, with a hash that is its
  manifest's, this stays so along every history (an empty database is such a state).
\<close>

theorem workflow_versions_immutable:
  assumes "cp_later s t"
  shows "take (length (d_workflows s)) (map version_content (d_workflows t)) = map version_content (d_workflows s) \<and>
     (versions_ok s \<longrightarrow> versions_ok t)"
  using later_versions [OF assms] by (simp add: versions_kept_def)


definition workflow_cp :: cp_db where
  "workflow_cp = admin_cp\<lparr>d_connections :=
     [\<lparr>m_id = ''flows'', m_name = ''flows'', m_status = ''active'', m_transport = ''streamable_http'',
       m_config = PDict [(''url'', PStr ''http://flows'')], m_config_version = 1, m_config_hash = ''h''\<rparr>]\<rparr>"

definition refund :: "string \<Rightarrow> cp_request" where
  "refund version = Set_Workflow logged_in ''refund''
     \<lparr>wq_name = ''Refund'', wq_description = version, wq_status = ''active'', wq_mcp_connection_id = ''flows'',
      wq_runner_name = ''refund'', wq_version = version, wq_requires_approval = True,
      wq_side_effect_level = ''internal_write'', wq_data_sensitivity = ''internal'', wq_timeout_ms = 1000,
      wq_input_schema = [], wq_scope_schema = [], wq_scope_descriptions = []\<rparr>"

lemma refund_versions:
  "map (\<lambda>r. (wv_version r, wv_lifecycle_status r))
     (d_workflows (play [refund ''v1'', refund ''v2''] workflow_cp)) = [(''v1'', ''retired''), (''v2'', ''active'')]"
  by code_simp

lemma workflow_versions_immutable_witness:
  "versions_ok (play [refund ''v1'', refund ''v2''] workflow_cp) \<and>
   map (\<lambda>r. (wv_version r, wv_lifecycle_status r))
     (d_workflows (play [refund ''v1'', refund ''v2''] workflow_cp)) = [(''v1'', ''retired''), (''v2'', ''active'')]"
proof -
  have "versions_ok workflow_cp"
    by (simp add: versions_ok_def one_active_def workflow_cp_def admin_cp_def sample_cp_def no_rows_def)
  then show ?thesis
    using workflow_versions_immutable [OF play_later [of workflow_cp "[refund ''v1'', refund ''v2'']"]] refund_versions
    by blast
qed

end
