(* ===== verification/Cp_Accounting.thy ===== *)
theory Cp_Accounting
  imports Cp_Workflows
begin

text \<open>
  The books of a run: every run that was stored ends with a result or a recorded failure, and what
  the caller is told is what the tables say. Then what a run hands to the gateway.
\<close>

section \<open>Runs are accounted for\<close>

lemma complete_new_row:
  assumes "run \<notin> set (map rn_run_id rows)" "rn_run_id row = run"
  shows "update_rows (\<lambda>r. rn_run_id r = run) f (rows @ [row]) = rows @ [f row]"
proof -
  have "update_rows (\<lambda>r. rn_run_id r = run) f rows = rows"
    using assms(1) by (induction rows) (auto simp: update_rows_def)
  then show ?thesis using assms(2) by (simp add: update_rows_def)
qed

definition call_row :: "string \<Rightarrow> tool_trace \<Rightarrow> string \<times> string \<times> string" where
  "call_row a c = (a, tt_tool_id c, tt_status c @ '': '' @ tt_result c)"

definition call_texts :: "string \<Rightarrow> tool_trace \<Rightarrow> string list" where
  "call_texts a c = [a, tt_tool_id c, tt_status c @ '': '' @ tt_result c]"

lemma record_call:
  "list_ex (\<lambda>row. ag_id row = a) (d_agents u) \<Longrightarrow>
     record_tool_call v a (tt_tool_id c) (tt_status c @ '': '' @ tt_result c) u =
       (if unwritable v u (call_texts a c) then (Inl (DbError ''tool_call_logs''), u)
        else (Inr (), u\<lparr>d_tool_calls := d_tool_calls u @ [call_row a c]\<rparr>))"
  by (simp add: record_tool_call_def transaction_def call_texts_def call_row_def)

text \<open>The tool calls of a result are logged one after the other, up to the first that is refused.\<close>

lemma record_calls:
  assumes "list_ex (\<lambda>row. ag_id row = a) (d_agents u)"
    and "each (\<lambda>t. record_tool_call v a (tt_tool_id t) (tt_status t @ '': '' @ tt_result t)) calls u = (x, t)"
  shows "(x = Inr () \<and> t = u\<lparr>d_tool_calls := d_tool_calls u @ map (call_row a) calls\<rparr>) \<or>
    (\<exists>m k. x = Inl (DbError m) \<and> k < length calls \<and> unwritable v t (call_texts a (calls ! k)) \<and>
       t = u\<lparr>d_tool_calls := d_tool_calls u @ map (call_row a) (take k calls)\<rparr>)"
  using assms
proof (induction calls arbitrary: u)
  case Nil
  then show ?case by (simp add: give_def)
next
  case (Cons c calls)
  let ?u = "u\<lparr>d_tool_calls := d_tool_calls u @ [call_row a c]\<rparr>"
  let ?rest = "each (\<lambda>t. record_tool_call v a (tt_tool_id t) (tt_status t @ '': '' @ tt_result t)) calls"
  show ?case
  proof (cases "unwritable v u (call_texts a c)")
    case True
    then have "x = Inl (DbError ''tool_call_logs'') \<and> t = u"
      using Cons.prems record_call [OF Cons.prems(1)] by (simp add: andthen_def chain_def)
    with True show ?thesis by force
  next
    case False
    then have rest: "?rest ?u = (x, t)"
      using Cons.prems record_call [OF Cons.prems(1)] by (simp add: andthen_def chain_def)
    have agent: "list_ex (\<lambda>row. ag_id row = a) (d_agents ?u)" using Cons.prems(1) by simp
    from Cons.IH [OF agent rest] show ?thesis
    proof (elim disjE exE conjE)
      fix m k
      assume "x = Inl (DbError m)" "k < length calls" "unwritable v t (call_texts a (calls ! k))"
        "t = ?u\<lparr>d_tool_calls := d_tool_calls ?u @ map (call_row a) (take k calls)\<rparr>"
      then show ?thesis by (intro disjI2 exI [of _ m] exI [of _ "Suc k"]) simp
    qed simp
  qed
qed

lemma update_stored_run:
  assumes "d_runs u = rows @ [row]" "rn_run_id row = run" "run \<notin> set (map rn_run_id rows)"
  shows "if unwritable v u (run # status # opt_texts answer @ opt_texts err)
     then update_run v run status answer err u = (Inl (DbError ''agent_runs''), u)
     else \<exists>t. update_run v run status answer err u = (Inr (), t) \<and>
       d_runs t = rows @ [complete_run v status answer err row] \<and> d_tool_calls t = d_tool_calls u"
  using assms complete_new_row [OF assms(3,2)]
  by (simp add: update_run_def transaction_def)

text \<open>
  What the tables and the caller may show after a run was stored. A result is told only with a
  completed row that carries it. A failure of the run is told as a 502 with a row \<open>failed\<close>; that row
  stays \<open>running\<close> only when the database refuses the very write of the failure. When it refuses a write of the result,
  the caller gets a 503, the row stays \<open>running\<close>, and the tool calls before the refused write are logged.
\<close>

definition result_write :: "string \<Rightarrow> string \<Rightarrow> run_response \<Rightarrow> nat \<Rightarrow> string list" where
  "result_write run a result k =
     (if k < length (rr_tool_calls result) then call_texts a (rr_tool_calls result ! k)
      else [run, rr_status result, rr_answer result])"

definition accounted ::
  "cp_env \<Rightarrow> string \<Rightarrow> string \<Rightarrow> string \<Rightarrow> cp_db \<Rightarrow> run_response cp \<Rightarrow> cp_db \<Rightarrow> bool" where
  "accounted v run a u s x t \<longleftrightarrow>
     (\<exists>row. d_runs t = d_runs s @ [row] \<and> rn_run_id row = run \<and> rn_agent_id row = Some a \<and>
        rn_actor_id row = Some u \<and>
        (case x of
           Inr result \<Rightarrow>
             rn_completed_at row = Some (cv_now v) \<and>
             rn_status row = rr_status result \<and> rn_answer row = Some (rr_answer result) \<and> rn_error row = None \<and>
             d_tool_calls t = d_tool_calls s @ map (call_row a) (rr_tool_calls result)
         | Inl e \<Rightarrow> rn_answer row = None \<and>
             (if rn_status row = ''failed''
              then rn_completed_at row = Some (cv_now v) \<and> d_tool_calls t = d_tool_calls s \<and>
                (\<exists>f. e = HTTPException 502 (llm_error_detail f) \<and> rn_error row = Some (error_message f))
              else rn_status row = ''running'' \<and> rn_completed_at row = None \<and> rn_error row = None \<and>
                ((\<exists>f. e = HTTPException 502 (llm_error_detail f) \<and> d_tool_calls t = d_tool_calls s \<and>
                    unwritable v t [run, ''failed'', error_message f]) \<or>
                 (\<exists>result k. e = HTTPException 503 ''audit log failed'' \<and> k \<le> length (rr_tool_calls result) \<and>
                    d_tool_calls t = d_tool_calls s @ map (call_row a) (take k (rr_tool_calls result)) \<and>
                    unwritable v t (result_write run a result k))))))"

lemma failed_accounted:
  assumes u: "d_runs u = d_runs s @ [row]" "d_tool_calls u = d_tool_calls s"
    and row: "rn_run_id row = run" "rn_agent_id row = Some a" "rn_actor_id row = Some act"
      "rn_status row = ''running''" "rn_completed_at row = None" "rn_answer row = None" "rn_error row = None"
    and new: "run \<notin> set (map rn_run_id (d_runs s))"
    and failed: "fail_run v run f u = (x, t)"
  shows "accounted v run a act s x t"
proof (cases "unwritable v u [run, ''failed'', error_message f]")
  case True
  then have "x = Inl (HTTPException 502 (llm_error_detail f)) \<and> t = u"
    using failed update_stored_run [OF u(1) row(1) new, of v "''failed''" None "Some (error_message f)"]
    by (simp add: fail_run_def handle_def andthen_def chain_def opt_texts_def give_def raise_def)
  with True u row show ?thesis by (auto simp: accounted_def)
next
  case False
  then obtain t' where t': "update_run v run ''failed'' None (Some (error_message f)) u = (Inr (), t')"
      "d_runs t' = d_runs s @ [complete_run v ''failed'' None (Some (error_message f)) row]"
      "d_tool_calls t' = d_tool_calls u"
    using update_stored_run [OF u(1) row(1) new, of v "''failed''" None "Some (error_message f)"]
    by (auto simp: opt_texts_def)
  then have "x = Inl (HTTPException 502 (llm_error_detail f)) \<and> t = t'"
    using failed by (simp add: fail_run_def handle_def andthen_def chain_def raise_def)
  with t' u row show ?thesis by (auto simp: accounted_def complete_run_def)
qed

lemma result_accounted:
  assumes u: "d_runs u = d_runs s @ [row]" "d_tool_calls u = d_tool_calls s"
    and row: "rn_run_id row = run" "rn_agent_id row = Some a" "rn_actor_id row = Some act"
      "rn_status row = ''running''" "rn_completed_at row = None" "rn_answer row = None" "rn_error row = None"
    and new: "run \<notin> set (map rn_run_id (d_runs s))"
    and agent: "list_ex (\<lambda>row. ag_id row = a) (d_agents u)"
    and stored: "andthen (rethrow audit_failure (persist_agent_run_result v run a result)) (give result) u = (x, t)"
  shows "accounted v run a act s x t"
proof -
  let ?log = "each (\<lambda>t. record_tool_call v a (tt_tool_id t) (tt_status t @ '': '' @ tt_result t)) (rr_tool_calls result)"
  have refused: "accounted v run a act s x t"
    if "x = Inl (HTTPException 503 ''audit log failed'')" "k \<le> length (rr_tool_calls result)"
      "t = u\<lparr>d_tool_calls := d_tool_calls u @ map (call_row a) (take k (rr_tool_calls result))\<rparr>"
      "unwritable v t (result_write run a result k)" for k
    using that u row unfolding accounted_def
    by (intro exI [of _ row]) (auto intro!: exI [of _ result] exI [of _ k])
  obtain y u1 where log: "?log u = (y, u1)" by fastforce
  from record_calls [OF agent log] show ?thesis
  proof (elim disjE exE conjE)
    fix m k
    assume k: "y = Inl (DbError m)" "k < length (rr_tool_calls result)"
      "unwritable v u1 (call_texts a (rr_tool_calls result ! k))"
      "u1 = u\<lparr>d_tool_calls := d_tool_calls u @ map (call_row a) (take k (rr_tool_calls result))\<rparr>"
    then have "x = Inl (HTTPException 503 ''audit log failed'') \<and> t = u1"
      using stored log by (simp add: persist_agent_run_result_def rethrow_def andthen_def chain_def)
    with k show ?thesis by (intro refused [of k]) (simp_all add: result_write_def)
  next
    assume y: "y = Inr ()" and u1: "u1 = u\<lparr>d_tool_calls := d_tool_calls u @ map (call_row a) (rr_tool_calls result)\<rparr>"
    then have runs: "d_runs u1 = d_runs s @ [row]" using u(1) by simp
    note update = update_stored_run [OF runs row(1) new, of v "rr_status result" "Some (rr_answer result)" None]
    show ?thesis
    proof (cases "unwritable v u1 [run, rr_status result, rr_answer result]")
      case True
      then have "x = Inl (HTTPException 503 ''audit log failed'') \<and> t = u1"
        using stored log y update
        by (simp add: persist_agent_run_result_def rethrow_def andthen_def chain_def opt_texts_def)
      with True u1 show ?thesis
        by (intro refused [of "length (rr_tool_calls result)"]) (simp_all add: result_write_def)
    next
      case False
      then obtain t' where t': "update_run v run (rr_status result) (Some (rr_answer result)) None u1 = (Inr (), t')"
        "d_runs t' = d_runs s @ [complete_run v (rr_status result) (Some (rr_answer result)) None row]"
        "d_tool_calls t' = d_tool_calls u1"
        using update by (auto simp: opt_texts_def)
      then have "x = Inr result \<and> t = t'"
        using stored log y
        by (simp add: persist_agent_run_result_def rethrow_def andthen_def chain_def give_def)
      with t' u1 u row show ?thesis by (simp add: accounted_def complete_run_def)
    qed
  qed
qed

lemma finish_accounted:
  assumes u: "d_runs u = d_runs s @ [row]" "d_tool_calls u = d_tool_calls s"
    and row: "rn_run_id row = run" "rn_agent_id row = Some a" "rn_actor_id row = Some (ru_actor_id r)"
      "rn_status row = ''running''" "rn_completed_at row = None" "rn_answer row = None" "rn_error row = None"
    and new: "run \<notin> set (map rn_run_id (d_runs s))"
    and agent: "list_ex (\<lambda>row. ag_id row = a) (d_agents u)"
    and finished: "finish_run w sv run a r message ctx p u = (x, t)"
  shows "accounted (cw_env w) run a (ru_actor_id r) s x t"
proof (cases "execute_agent_run w sv u run a message r (fst p) (snd p) (unique (ru_tool_ids r)) ctx")
  case (Inl e)
  obtain y :: "run_response cp" and v where f: "fail_run (cw_env w) run e u = (y, v)" by fastforce
  have "\<exists>d. y = Inl d" using f by (auto simp: fail_run_def andthen_def chain_def raise_def split: prod.splits sum.splits)
  with f have "fail_run (cw_env w) run e u = (x, t)"
    using finished Inl by (auto simp: finish_run_def split_beta handle_def chain_def)
  then show ?thesis by (rule failed_accounted [OF u row new])
next
  case (Inr result)
  then have "andthen (rethrow audit_failure (persist_agent_run_result (cw_env w) run a result)) (give result) u = (x, t)"
    using finished by (simp add: finish_run_def split_beta handle_def chain_def)
  then show ?thesis by (rule result_accounted [OF u row new agent])
qed

lemma created:
  assumes "create_run v run message (Some a) (Some u) s = (Inr (), t)"
  obtains row where "d_runs t = d_runs s @ [row]" "d_tool_calls t = d_tool_calls s" "rn_run_id row = run"
    "rn_agent_id row = Some a" "rn_actor_id row = Some u" "rn_status row = ''running''" "rn_completed_at row = None"
    "rn_answer row = None" "rn_error row = None" "run \<notin> set (map rn_run_id (d_runs s))" "d_agents t = d_agents s"
  using assms by (auto simp: create_run_def transaction_Inr_iff list_ex_iff split: if_splits) blast

lemma admitted_accounted:
  assumes admitted: "run_admitted w run a r message denial access s = (Inr p, u)"
    and access: "\<And>q t. access s = (Inr q, t) \<Longrightarrow> t = s \<and> list_ex (\<lambda>row. ag_id row = a) (d_agents s)"
    and finished: "finish_run w sv run a r message ctx p u = (x, t)"
  shows "accounted (cw_env w) run a (ru_actor_id r) s x t"
proof -
  obtain agent allowed where p: "p = (agent, allowed)" by fastforce
  from admitted access have "create_run (cw_env w) run message (Some a) (Some (ru_actor_id r)) s = (Inr (), u)"
    and agent: "list_ex (\<lambda>row. ag_id row = a) (d_agents s)"
    unfolding p run_admitted_Inr_iff by auto
  from created [OF this(1)] obtain row where
    row: "d_runs u = d_runs s @ [row]" "d_tool_calls u = d_tool_calls s" "rn_run_id row = run"
    "rn_agent_id row = Some a" "rn_actor_id row = Some (ru_actor_id r)" "rn_status row = ''running''"
    "rn_completed_at row = None" "rn_answer row = None" "rn_error row = None"
    "run \<notin> set (map rn_run_id (d_runs s))" and agents: "d_agents u = d_agents s"
    by metis
  have "list_ex (\<lambda>row. ag_id row = a) (d_agents u)" using agent agents by simp
  from finish_accounted [OF row this finished] show ?thesis .
qed

lemma release_agent_exists:
  "resolve_release_access a l actor channel s = (Inr q, t) \<Longrightarrow> t = s \<and> list_ex (\<lambda>row. ag_id row = a) (d_agents s)"
  using release_access [of a l actor channel s "fst q" "snd q" t]
  by (auto simp: agent_is_enabled_def list_ex_iff dest: find_SomeD)

lemma draft_agent_exists:
  "resolve_agent_access a actor channel s = (Inr q, t) \<Longrightarrow> t = s \<and> list_ex (\<lambda>row. ag_id row = a) (d_agents s)"
  using agent_access [of a actor channel s "fst q" "snd q" t]
  by (auto simp: load_agent_def list_ex_iff dest: find_SomeD)

lemma release_run_books:
  assumes route: "run_release_route w sv run a l r s = (x, t)" and stored: "d_runs t \<noteq> d_runs s"
  shows "accounted (cw_env w) run a (ru_actor_id r) s x t"
proof -
  let ?admitted = "run_admitted w run a r (py_strip (ru_message r)) (''release='' @ l @ '';requested='')
      (resolve_release_access a l (ru_actor_id r) (ru_channel r))"
  obtain y u where run: "?admitted s = (y, u)" by fastforce
  show ?thesis
  proof (cases y)
    case (Inl e)
    then have "d_runs u = d_runs s" using run run_refused access_frame by blast
    then have "d_runs t = d_runs s" using route run Inl unfolding run_release_route_def Let_def
      by (auto simp: chain_def andthen_def rethrow_def split: prod.splits sum.splits if_splits)
    with stored show ?thesis by simp
  next
    case (Inr p)
    obtain ctx where "finish_run w sv run a r (py_strip (ru_message r)) ctx p u = (x, t)"
      using route stored run Inr unfolding run_release_route_def Let_def
      by (auto simp: chain_def andthen_def rethrow_def split: prod.splits sum.splits if_splits)
    then show ?thesis
      by (intro admitted_accounted [OF run [unfolded Inr]]) (auto dest: release_agent_exists)
  qed
qed

lemma draft_run_books:
  assumes route: "run_agent_route w sv run a r s = (x, t)" and stored: "d_runs t \<noteq> d_runs s"
  shows "accounted (cw_env w) run a (ru_actor_id r) s x t"
proof -
  let ?admitted = "run_admitted w run a r (py_strip (ru_message r)) ''requested=''
      (resolve_agent_access a (ru_actor_id r) (ru_channel r))"
  obtain y u where run: "?admitted s = (y, u)" by fastforce
  show ?thesis
  proof (cases y)
    case (Inl e)
    then have "d_runs u = d_runs s" using run run_refused access_frame by blast
    then have "d_runs t = d_runs s" using route run Inl unfolding run_agent_route_def Let_def
      by (auto simp: chain_def andthen_def rethrow_def split: prod.splits sum.splits if_splits)
    with stored show ?thesis by simp
  next
    case (Inr p)
    have "finish_run w sv run a r (py_strip (ru_message r)) None p u = (x, t)"
      using route stored run Inr unfolding run_agent_route_def Let_def
      by (auto simp: chain_def andthen_def rethrow_def split: prod.splits sum.splits if_splits)
    then show ?thesis
      by (intro admitted_accounted [OF run [unfolded Inr]]) (auto dest: draft_agent_exists)
  qed
qed

text \<open>
  C11: A run that was stored is accounted for, whatever the model, the local tools or the gateway
  answer: the tables gain exactly one run, of this agent and actor. The caller gets the result, and then the row
  is completed with its status and answer and the call log gained exactly its tool calls; or a
  502, and then the row is \<open>failed\<close> with the error; or the database refused a write of the outcome, and only
  then the row is left \<open>running\<close>: a refused write of the error still gives the 502, a refused write of the
  result gives a 503, and the tool calls before the refused write are logged. No failure is reported as a
  result.
\<close>

theorem runs_accounted:
  assumes "run_release_route w sv run a l r s = (x, t) \<or> run_agent_route w sv run a r s = (x, t)"
    and "d_runs t \<noteq> d_runs s"
  shows "accounted (cw_env w) run a (ru_actor_id r) s x t"
  using assms release_run_books draft_run_books by metis

lemma runs_accounted_witness:
  "accounted (cw_env sample_world) ''r1'' ''a1'' ''u1'' sample_cp
     (fst (run_agent_route sample_world sample_services ''r1'' ''a1'' sample_run_request sample_cp))
     (snd (run_agent_route sample_world sample_services ''r1'' ''a1'' sample_run_request sample_cp))"
  using runs_accounted [OF disjI2 [OF prod.collapse [symmetric]] run_row_stored [OF sample_draft_run]]
  by (simp add: sample_run_request_def)

text \<open>An answer with a NUL character, as a model or a gateway may give it, leaves the run open for good.\<close>

definition nul_services :: cp_services where
  "nul_services = sample_services\<lparr>sv_llm := \<lambda>ms m. Inr (Some [CHR ''a'', CHR 0x00, CHR ''b''])\<rparr>"

lemma nul_answer_leaves_run_open:
  "fst (run_release_route sample_world nul_services ''r1'' ''a1'' ''l1'' sample_run_request sample_cp) =
     Inl (HTTPException 503 ''audit log failed'') \<and>
   map (\<lambda>r. (rn_status r, rn_completed_at r))
     (d_runs (snd (run_release_route sample_world nul_services ''r1'' ''a1'' ''l1'' sample_run_request sample_cp))) =
     [(''running'', None)]"
proof -
  let ?r = "run_release_route sample_world nul_services ''r1'' ''a1'' ''l1'' sample_run_request sample_cp"
  have "(case fst ?r of Inl e \<Rightarrow> e = HTTPException 503 ''audit log failed'' | Inr _ \<Rightarrow> False) \<and>
     map (\<lambda>r. (rn_status r, rn_completed_at r)) (d_runs (snd ?r)) = [(''running'', None)]"
    by code_simp
  then show ?thesis by (auto split: sum.splits)
qed

section \<open>What the gateway is sent\<close>

lemma filtered_tools:
  "as_list (dget (filter_runtime_context_tools context allowed) ''tools'') =
     filter (entry_allowed allowed) (as_list (dget context ''tools''))"
  by (cases "dget context ''tools''"; cases "dget context ''tool_scopes''")
    (simp_all add: filter_runtime_context_tools_def Let_def py_or_def)

lemma filtered_scopes:
  "as_dict (dget (filter_runtime_context_tools context allowed) ''tool_scopes'') =
     filter (\<lambda>(t, s). t \<in> set allowed) (as_dict (dget context ''tool_scopes''))"
  by (cases "dget context ''tools''"; cases "dget context ''tool_scopes''")
    (simp_all add: filter_runtime_context_tools_def Let_def py_or_def)

section \<open>What the gateway answers\<close>

lemma dedupe_keys:
  "distinct (List.map_filter request_key (dedupe_from seen rs)) \<and>
   set (List.map_filter request_key (dedupe_from seen rs)) \<inter> set seen = {}"
  by (induction seen rs rule: dedupe_from.induct) (auto simp: map_filter_simps split: option.splits)


lemma dedupe_approvals: "distinct (List.map_filter request_key (dedupe_approval_requests rs))"
  using dedupe_keys [of "[]" rs] by (simp add: dedupe_approval_requests_def)

lemma drop_keys:
  "distinct (List.map_filter request_key rs) \<Longrightarrow> distinct (List.map_filter request_key (drop n rs))"
proof (induction rs arbitrary: n)
  case (Cons r rs)
  then show ?case by (cases n) (auto simp: map_filter_simps split: option.splits)
qed simp

lemma pending_name: "''pending_approval'' \<in> set APPROVAL_PENDING_STATUSES" "''succeeded'' \<notin> set APPROVAL_PENDING_STATUSES"
  by (simp_all add: APPROVAL_PENDING_STATUSES_def)

lemma gateway_status:
  "rr_status (parse_gateway_response sv response fallback) =
     (if parse_gateway_status response \<in> set APPROVAL_PENDING_STATUSES \<or>
         (parse_gateway_status response = ''succeeded'' \<and> parse_gateway_approval_requests response \<noteq> [])
      then ''pending_approval'' else parse_gateway_status response)"
  using pending_name by (simp add: parse_gateway_response_def Let_def)

lemma gateway_requests:
  "rr_approval_requests (parse_gateway_response sv response fallback) =
     (if parse_gateway_approval_requests response = [] \<and> parse_gateway_status response \<in> set APPROVAL_PENDING_STATUSES
      then parse_gateway_tool_approval_requests sv response else parse_gateway_approval_requests response)"
  by (simp add: parse_gateway_response_def Let_def)

text \<open>
  The status of a parsed gateway reply, and its approval requests: those that carry an id (or a tool)
  to compare by are pairwise different; a request without one is always kept.
\<close>

theorem gateway_reply_pending:
  "rr_status (parse_gateway_response sv response fallback) =
     (if parse_gateway_status response \<in> set APPROVAL_PENDING_STATUSES \<or>
         (parse_gateway_status response = ''succeeded'' \<and> parse_gateway_approval_requests response \<noteq> [])
      then ''pending_approval'' else parse_gateway_status response) \<and>
   distinct (List.map_filter request_key (rr_approval_requests (parse_gateway_response sv response fallback)))"
  unfolding gateway_status gateway_requests parse_gateway_approval_requests_def
    parse_gateway_tool_approval_requests_def Let_def
  by (simp add: dedupe_approvals drop_keys)

section \<open>A release run on the gateway\<close>

definition sent_context :: "pydict \<Rightarrow> pydict" where
  "sent_context payload = as_dict (dget (as_dict (dget payload ''metadata'')) ''runtime_context'')"

definition governed :: "cp_db \<Rightarrow> agent_release_row \<Rightarrow> string \<Rightarrow> string \<Rightarrow> bool" where
  "governed s row u t \<longleftrightarrow> t \<in> set (cp_release_tool_ids (ar_config_json row)) \<and> tool_live s t \<and> role_grants s u t"

lemma release_allowed:
  assumes "resolve_release_access a l actor channel s = (Inr (agent, allowed), u)"
  shows "\<exists>row. cp_fetch_agent_release s a l = Some row \<and> (\<forall>t \<in> set allowed. governed s row actor t)"
  using release_access [OF assms] context_tools granted_iff unfolding governed_def
  by (metis effective_iff)

lemma sent_context_filtered:
  assumes "gateway_run_payload run a message r context requested allowed = Inr payload"
  shows "sent_context payload = filter_runtime_context_tools context allowed \<and>
     dget payload ''actor_id'' = PStr (ru_actor_id r) \<and>
     dget (as_dict (dget payload ''metadata'')) ''allowed_tool_ids'' = texts_val (sort allowed)"
  using assms
  by (auto simp: gateway_run_payload_def Let_def sent_context_def split: pyval.splits if_splits)

text \<open>
  C20: Whatever the context of a release run contains, the request posted to the gateway names the
  actor, and every tool entry and every tool scope in it, and every id on its list of
  allowed tools, is a tool of the release that is active now and granted to the actor by an active role.
\<close>

theorem gateway_run_governed:
  assumes "run_admitted w run a r message denial (resolve_release_access a l (ru_actor_id r) channel) s =
      (Inr (agent, allowed), u)"
    and "gateway_run_payload run a message r context requested allowed = Inr payload"
  shows "\<exists>row. cp_fetch_agent_release s a l = Some row \<and> dget payload ''actor_id'' = PStr (ru_actor_id r) \<and>
     list_all (\<lambda>e. \<exists>d t. e = PDict d \<and> dget d ''tool_id'' = PStr t \<and> governed s row (ru_actor_id r) t)
       (as_list (dget (sent_context payload) ''tools'')) \<and>
     list_all (\<lambda>(t, scope). governed s row (ru_actor_id r) t) (as_dict (dget (sent_context payload) ''tool_scopes'')) \<and>
     list_all (governed s row (ru_actor_id r))
       (texts_of (dget (as_dict (dget payload ''metadata'')) ''allowed_tool_ids''))"
proof -
  obtain v where "resolve_release_access a l (ru_actor_id r) channel s = (Inr (agent, allowed), v)"
    using assms(1) by (auto simp: run_admitted_Inr_iff)
  from release_allowed [OF this] obtain row where
    row: "cp_fetch_agent_release s a l = Some row" "\<forall>t \<in> set allowed. governed s row (ru_actor_id r) t"
    by blast
  have "entry_allowed allowed e \<Longrightarrow>
      \<exists>d t. e = PDict d \<and> dget d ''tool_id'' = PStr t \<and> governed s row (ru_actor_id r) t" for e
    using row(2) by (auto simp: entry_allowed_def active_entry_def split: pyval.splits if_splits)
  then show ?thesis using row sent_context_filtered [OF assms(2)]
    by (auto simp: list_all_iff filtered_tools filtered_scopes simp del: ex_simps)
qed


definition wide_context :: pydict where
  "wide_context =
     [(''release'', PDict [(''release_id'', PStr ''l1'')]),
      (''tools'', PList [PDict [(''tool_id'', PStr ''calculator'')], PDict [(''tool_id'', PStr ''pay'')]]),
      (''tool_scopes'', PDict [(''pay'', PDict [])])]"

lemma sample_admitted:
  "(case fst (run_admitted sample_world ''r1'' ''a1'' sample_run_request ''hi'' []
      (resolve_release_access ''a1'' ''l1'' (ru_actor_id sample_run_request) ''web'') sample_cp) of
      Inl e \<Rightarrow> [] | Inr p \<Rightarrow> snd p) = [''calculator'']"
  by code_simp

lemma wide_payload:
  "\<exists>payload. gateway_run_payload ''r1'' ''a1'' ''hi'' sample_run_request wide_context [] [''calculator''] = Inr payload \<and>
     as_list (dget (sent_context payload) ''tools'') = [PDict [(''tool_id'', PStr ''calculator'')]]"
  by (simp add: gateway_run_payload_def filter_runtime_context_tools_def wide_context_def Let_def py_or_def
      entry_allowed_def active_entry_def sent_context_def)

lemma gateway_run_governed_witness:
  "\<exists>payload row. gateway_run_payload ''r1'' ''a1'' ''hi'' sample_run_request wide_context [] [''calculator''] = Inr payload \<and>
     cp_fetch_agent_release sample_cp ''a1'' ''l1'' = Some row \<and> governed sample_cp row ''u1'' ''calculator''"
proof -
  obtain agent u where admitted: "run_admitted sample_world ''r1'' ''a1'' sample_run_request ''hi'' []
      (resolve_release_access ''a1'' ''l1'' (ru_actor_id sample_run_request) ''web'') sample_cp =
      (Inr (agent, [''calculator'']), u)"
    using sample_admitted by (auto split: sum.splits prod.splits) (metis prod.collapse)
  obtain payload where payload:
    "gateway_run_payload ''r1'' ''a1'' ''hi'' sample_run_request wide_context [] [''calculator''] = Inr payload"
    "as_list (dget (sent_context payload) ''tools'') = [PDict [(''tool_id'', PStr ''calculator'')]]"
    using wide_payload by blast
  from gateway_run_governed [OF admitted payload(1)] payload show ?thesis
    by (auto simp: sample_run_request_def)
qed

end
