(* ===== verification/Cp_View.thy ===== *)
theory Cp_View
  imports Cp_Accounting
begin

text \<open>
  The control plane and the runtime share one database: the control plane writes the tables the
  runtime resolves a turn from. \<open>runtime_view\<close> is the part of the control plane's tables that the queries of
  the runtime (\<open>Runtime_Context\<close>) read. Both services answer the same questions from it, what an
  administrator or a user sets is what the runtime enforces, and the two admissions of a run are compared.
\<close>

section \<open>The shared tables\<close>

definition view_tool :: "tool_def \<Rightarrow> tool_row" where
  "view_tool t =
     \<lparr>t_id = td_tool_id t, t_status = td_status t, t_mcp_connection_id = td_mcp_connection_id t,
      t_read_only = td_read_only t, t_idempotent = td_idempotent t, t_parallel_safe = td_parallel_safe t,
      t_requires_approval = td_requires_approval t, t_side_effect_level = td_side_effect_level t,
      t_data_sensitivity = td_data_sensitivity t, t_network_access = td_network_access t,
      t_timeout_ms = td_timeout_ms t\<rparr>"

text \<open>\<open>agent_releases\<close> has no column \<open>visibility\<close>.\<close>

definition view_release :: "agent_release_row \<Rightarrow> release_row" where
  "view_release r =
     \<lparr>l_id = ar_id r, l_agent_id = ar_agent_id r, l_version = ar_version r, l_status = ar_status r,
      l_visibility = None, l_config_json = PDict (ar_config_json r), l_published_at = Some (ar_published_at r)\<rparr>"

definition runtime_view :: "cp_db \<Rightarrow> platform_db" where
  "runtime_view s =
     \<lparr>p_tools = map view_tool (d_tools s), p_connections = d_connections s, p_users = d_users s,
      p_roles = map (\<lambda>r. (ro_id r, ro_status r)) (d_roles s), p_user_roles = d_user_roles s,
      p_role_tool_permissions = map (\<lambda>(r, t, scope). (r, t, scope_val scope)) (d_permissions s),
      p_releases = map view_release (d_releases s),
      p_namespace_policies =
        Some (map (\<lambda>p. (po_tenant_id p, po_namespace p, po_mode p, po_allow_public_agents p)) (d_policies s)),
      p_user_preferences =
        Some (map (\<lambda>p. (pf_tenant_id p, pf_user_id p, pf_namespace p, pf_share_across_agents p)) (d_preferences s))\<rparr>"

section \<open>The same answers\<close>

lemma view_connection:
  "connection_active (runtime_view s) cid = list_ex (\<lambda>m. m_id m = cid \<and> m_status m = ''active'') (d_connections s)"
  by (simp add: connection_active_def runtime_view_def list_ex_iff)

lemma view_tools: "p_tools (runtime_view s) = map view_tool (d_tools s)"
  by (simp add: runtime_view_def)

lemma view_active_tools: "active_tool_ids (runtime_view s) ids = cp_active_tool_ids s ids"
  unfolding active_tool_ids_def cp_active_tool_ids_def view_tools view_connection
  by (simp add: filter_map o_def view_tool_def)

lemma find_fst: "find (\<lambda>r. fst r = u) xs = map_option (\<lambda>v. (u, v)) (map_of xs u)"
  by (induction xs) auto

lemma view_user: "user_is_active (runtime_view s) u = user_active s u"
  by (simp add: user_is_active_def user_active_def runtime_view_def find_fst split: option.split)

lemma view_role: "user_has_role (runtime_view s) u r = has_role s u r"
  by (simp add: user_has_role_def has_role_def runtime_view_def)

lemma concat_converted:
  assumes "\<And>role. A role = map conv (B role)"
  shows "concat (map (\<lambda>(user, role). if C user role then A role else []) us) =
     map conv (concat (map (\<lambda>(user, role). if C user role then B role else []) us))"
  using assms by (induction us) auto

lemma view_permissions:
  "permission_rows (runtime_view s) u = map (\<lambda>(t, scope). (t, scope_val scope)) (role_tool_rows s u)"
proof -
  have rows: "map (\<lambda>(r, t, scope). (t, scope)) (filter (\<lambda>(r, t, scope). r = role)
      (map (\<lambda>(r, t, scope). (r, t, scope_val scope)) ps)) =
      map (\<lambda>(t, scope). (t, scope_val scope)) (map (\<lambda>(r, t, scope). (t, scope)) (filter (\<lambda>(r, t, scope). r = role) ps))"
    for role and ps :: "(string \<times> string \<times> scope) list"
    by (induction ps) auto
  have active: "(role, ''active'') \<in> set (p_roles (runtime_view s)) \<longleftrightarrow>
      list_ex (\<lambda>row. ro_id row = role \<and> ro_status row = ''active'') (d_roles s)" for role
    by (auto simp: list_ex_iff runtime_view_def)
  have tables: "p_user_roles (runtime_view s) = d_user_roles s"
      "p_role_tool_permissions (runtime_view s) = map (\<lambda>(r, t, scope). (r, t, scope_val scope)) (d_permissions s)"
    by (simp_all add: runtime_view_def)
  show ?thesis
    unfolding permission_rows_def role_tool_rows_def active tables
    by (rule concat_converted) (rule rows)
qed


lemma view_scopes: "as_authz (get_user_role_tool_scopes (runtime_view s) u) = user_tool_scopes s u"
  by (simp add: get_user_role_tool_scopes_def user_tool_scopes_def view_permissions authz_merge_eq)

lemma find_map_image: "(\<And>x. P (f x) = Q x) \<Longrightarrow> find P (map f xs) = map_option f (find Q xs)"
  by (induction xs) simp_all

lemma view_found: "find_release (runtime_view s) a l = map_option view_release (cp_fetch_agent_release s a l)"
  unfolding find_release_def cp_fetch_agent_release_def runtime_view_def
  by (simp, rule find_map_image) (auto simp: view_release_def)

lemma view_governance_tool:
  "map_of (fetch_active_tool_runtime_policies (runtime_view s) ids) t = Some p \<Longrightarrow>
     \<exists>row \<in> set (d_tools s). td_tool_id row = t \<and> td_status row = ''active'' \<and>
       dget p ''requires_approval'' = PBool (td_requires_approval row) \<and>
       dget p ''read_only'' = PBool (td_read_only row)"
  by (drule map_of_SomeD)
    (auto simp: fetch_active_tool_runtime_policies_def view_tools view_tool_def tool_policy_def)

text \<open>
  C8: The control plane and the runtime give the same answers over the database they share: for
  every state of its tables the tools that are active, the users that are active, the roles they have, the
  tool scopes their roles grant, and the release an id names, with its status and configuration.
\<close>

theorem services_agree:
  "active_tool_ids (runtime_view s) ids = cp_active_tool_ids s ids \<and>
   user_is_active (runtime_view s) u = user_active s u \<and>
   user_has_role (runtime_view s) u r = has_role s u r \<and>
   as_authz (get_user_role_tool_scopes (runtime_view s) u) = user_tool_scopes s u \<and>
   find_release (runtime_view s) a l = map_option view_release (cp_fetch_agent_release s a l)"
  by (simp only: view_active_tools view_user view_role view_scopes view_found simp_thms)


section \<open>What is set is what is enforced\<close>

definition policy_entry :: "policy_row \<Rightarrow> pyval" where
  "policy_entry p = PDict [(''mode'', PStr (po_mode p)), (''allow_public_agents'', PBool (po_allow_public_agents p))]"

lemma view_policy:
  "map_of (as_dict (policies_value (runtime_view s) tenant)) ns =
     map_option policy_entry (find (\<lambda>p. po_tenant_id p = tenant \<and> po_namespace p = ns) (d_policies s))"
proof -
  have "map_of (map (\<lambda>(t, ns, mode, allow).
      (ns, PDict [(''mode'', PStr mode), (''allow_public_agents'', PBool allow)]))
      (filter (\<lambda>(t, ns, mode, allow). t = tenant)
        (map (\<lambda>p. (po_tenant_id p, po_namespace p, po_mode p, po_allow_public_agents p)) rows))) ns =
      map_option policy_entry (find (\<lambda>p. po_tenant_id p = tenant \<and> po_namespace p = ns) rows)" for rows
    by (induction rows) (auto simp: policy_entry_def)
  then show ?thesis by (simp add: policies_value_def runtime_view_def)
qed

lemma view_preference:
  "map_of (as_dict (preferences_value (runtime_view s) tenant u)) ns =
     map_option (\<lambda>p. PBool (pf_share_across_agents p))
       (find (\<lambda>p. pf_tenant_id p = tenant \<and> pf_user_id p = u \<and> pf_namespace p = ns) (d_preferences s))"
proof -
  have "map_of (map (\<lambda>(t, v, ns, share). (ns, PBool share)) (filter (\<lambda>(t, v, ns, share). t = tenant \<and> v = u)
      (map (\<lambda>p. (pf_tenant_id p, pf_user_id p, pf_namespace p, pf_share_across_agents p)) rows))) ns =
      map_option (\<lambda>p. PBool (pf_share_across_agents p))
       (find (\<lambda>p. pf_tenant_id p = tenant \<and> pf_user_id p = u \<and> pf_namespace p = ns) rows)" for rows
    by (induction rows) auto
  then show ?thesis by (simp add: preferences_value_def runtime_view_def)
qed

lemma looked_up_governance:
  assumes "tenant = (if py_strip env_tenant = [] then ''default'' else py_strip env_tenant)" "u \<noteq> []"
  shows "dget (fetch_memory_governance env_tenant NoFault db (Some u) vis) ''namespace_policies'' = policies_value db tenant"
    and "dget (fetch_memory_governance env_tenant NoFault db (Some u) vis) ''user_preferences'' = preferences_value db tenant u"
  using assms by (simp_all add: fetch_memory_governance_def missing_actor_def Let_def)

lemma policy_written:
  assumes "set_memory_policy_route w h tenant ns mode allow s = (Inr y, t)"
  shows "mode \<in> set memory_modes \<and> map_option policy_entry
       (find (\<lambda>p. po_tenant_id p = tenant \<and> po_namespace p = ns) (d_policies t)) =
     Some (PDict [(''mode'', PStr mode), (''allow_public_agents'', PBool allow)])"
proof -
  obtain actor u where "upsert_memory_namespace_policy (cw_env w) tenant ns mode allow actor u = (Inr y, t)"
    using assms by (auto simp: set_memory_policy_route_def succeeded)
  then show ?thesis
    by (auto simp: upsert_memory_namespace_policy_def transaction_Inr_iff find_put_row policy_entry_def
        split: if_splits option.split)
qed

lemma preference_written:
  assumes "set_memory_preference_route w h u tenant ns share s = (Inr y, t)"
  shows "map_option pf_share_across_agents
       (find (\<lambda>p. pf_tenant_id p = tenant \<and> pf_user_id p = u \<and> pf_namespace p = ns) (d_preferences t)) = Some share"
proof -
  obtain v where "upsert_user_memory_preference (cw_env w) tenant u ns share v = (Inr y, t)"
    using assms by (auto simp: set_memory_preference_route_def succeeded)
  then show ?thesis
    by (auto simp: upsert_user_memory_preference_def transaction_Inr_iff find_put_row
        split: if_splits option.split)
qed

lemma preference_keeps_policies:
  assumes "set_memory_preference_route w h u tenant ns share t = (Inr z, t')"
  shows "d_policies t' = d_policies t"
proof -
  have "same_table Policies t (snd (set_memory_preference_route w h u tenant ns share t))"
    using role_routes_frame(10) [of w h u tenant ns share] unfolding steps_def
    by (blast dest: same_exceptD)
  then show ?thesis using assms by simp
qed

lemma reported_policy:
  assumes "tenant = (if py_strip env_tenant = [] then ''default'' else py_strip env_tenant)" "actor \<noteq> []"
    and "map_option policy_entry (find (\<lambda>p. po_tenant_id p = tenant \<and> po_namespace p = ns) (d_policies s)) = Some v"
  shows "map_of (as_dict (dget (fetch_memory_governance env_tenant NoFault (runtime_view s) (Some actor) vis)
    ''namespace_policies'')) ns = Some v"
  unfolding looked_up_governance(1) [OF assms(1,2)] view_policy by (rule assms(3))


lemma settings_accepted:
  "fst (set_memory_policy_route sample_world logged_in ''default'' ''notes'' ''user_controlled'' False admin_cp) = Inr ()"
  "fst (set_memory_preference_route sample_world logged_in ''u1'' ''default'' ''notes'' False
     (snd (set_memory_policy_route sample_world logged_in ''default'' ''notes'' ''user_controlled'' False admin_cp))) = Inr ()"
  by code_simp+



section \<open>The two admissions\<close>

text \<open>The row \<open>fetch_agent_release\<close> of the runtime returns, with the configuration it reads.\<close>

definition released_dict :: "agent_release_row \<Rightarrow> pydict" where
  "released_dict row = dset ''config_json'' (PDict (ar_config_json row)) (release_fields (view_release row))"

lemma released_fields:
  "dget (released_dict row) ''config_json'' = PDict (ar_config_json row)"
  "dget (released_dict row) ''status'' = PStr (ar_status row)"
  by (simp_all add: released_dict_def release_fields_def view_release_def)

text \<open>Who may run a release in the runtime.\<close>

definition open_in_runtime :: "cp_db \<Rightarrow> agent_release_row \<Rightarrow> pydict \<Rightarrow> string \<Rightarrow> bool" where
  "open_in_runtime s row cfg u \<longleftrightarrow>
     visibility_of (released_dict row) cfg = ''public'' \<or> dget cfg ''owner_user_id'' = PStr u \<or>
     has_role s u PLATFORM_ADMIN_ROLE"

lemma runner_agent_total:
  assumes "cp_build_runtime_context s row actor channel = Inr c"
  shows "\<exists>agent. runner_agent_from_context c = Inr agent"
  using assms
  by (auto simp: cp_build_runtime_context_def runner_agent_from_context_def scopes_val_def Let_def
      split: pyval.splits sum.splits)

lemma release_access_granted:
  assumes row: "cp_fetch_agent_release s a l = Some row" "dget (ar_config_json row) ''agent'' = PDict cfg"
    and built: "cp_build_runtime_context s row (Some u) (Some c) = Inr context" "user_tool_scopes s u = Inr grants"
    and checks: "ar_status row = ''published''" "agent_is_enabled s a = Some True" "can_run_agent s u cfg"
      "truthy (dget_or cfg ''enabled'' (PBool True))" "user_active s u" "c \<in> set (texts_of (dget cfg ''channels''))"
  shows "\<exists>p. resolve_release_access a l u c s = (Inr p, s)"
proof -
  obtain agent where agent: "runner_agent_from_context context = Inr agent" using runner_agent_total [OF built(1)] by blast
  have "can_run_agent s u agent" "c \<in> set (texts_of (dget agent ''channels''))" "truthy (dget agent ''enabled'')"
    using frozen_agent [OF built(1) agent, of s u] row(2) checks by auto
  moreover have "fetch_runtime_context s a l (Some u) (Some c) = Inr (Some context)"
    by (simp add: fetch_runtime_context_def row built(1))
  moreover have "py_eq (dget (as_dict (dget context ''release'')) ''status'') (PStr ''published'')"
    using context_status [OF built(1)] checks(1) by (simp add: py_eq_str)
  ultimately show ?thesis
    using agent built(2) checks
    by (simp add: resolve_release_access_def chain_def andthen_def query_def query_cp_def require_def guard_denied_def
        give_def Let_def)
qed

lemma open_in_control_plane:
  assumes "open_in_runtime s row cfg u" "dget cfg ''visibility'' = PNone \<or> is_str (dget cfg ''visibility'')"
    and "has_key cfg ''visibility'' \<longrightarrow> dget cfg ''visibility'' \<noteq> PNone"
  shows "can_run_agent s u cfg"
proof -
  have "dget (released_dict row) ''visibility'' = PNone"
    by (simp add: released_dict_def release_fields_def view_release_def)
  then have "visibility_of (released_dict row) cfg = ''public'' \<Longrightarrow> dget cfg ''visibility'' = PStr ''public''"
    using assms(2) by (cases "dget cfg ''visibility''") (auto simp: visibility_of_def py_or_def split: if_splits)
  moreover have "dget cfg ''visibility'' = PStr ''public'' \<Longrightarrow> dget_or cfg ''visibility'' (PStr ''private'') = PStr ''public''"
    by (auto simp: dget_def dget_or_def split: option.splits)
  ultimately show ?thesis using assms(1) by (auto simp: open_in_runtime_def can_run_agent_def py_eq_str)
qed



text \<open>A member of a private agent: admitted and run by the control plane, refused by the runtime.\<close>

definition member_frozen :: pydict where
  "member_frozen =
     [(''agent'', PDict [(''id'', PStr ''a1''), (''visibility'', PStr ''private''), (''members'', PList [PStr ''u2'']),
        (''owner_user_id'', PStr ''u1''), (''channels'', PList [PStr ''web'']), (''enabled'', PBool True)]),
      (''tools'', PList [])]"

definition member_row :: agent_release_row where
  "member_row = \<lparr>ar_id = ''l1'', ar_agent_id = ''a1'', ar_version = 1, ar_status = ''published'',
     ar_config_json = member_frozen, ar_published_by = ''u1'', ar_published_at = 5, ar_revoked_at = None\<rparr>"

definition member_cp :: cp_db where
  "member_cp = sample_cp\<lparr>d_users := [(''u1'', ''active''), (''u2'', ''active'')], d_releases := [member_row]\<rparr>"

definition member_request :: agent_run_request where
  "member_request =
     \<lparr>ru_actor_id = ''u2'', ru_channel = ''web'', ru_message = ''hello'', ru_session_id = None,
      ru_tool_ids = [], ru_runner_backend = None\<rparr>"

definition member_context :: pydict where
  "member_context = (case build_runtime_context sample_env (runtime_view member_cp) (released_dict member_row)
     (Some ''u2'') (Some ''web'') of Inl e \<Rightarrow> [] | Inr c \<Rightarrow> c)"

lemma member_run:
  "map rn_status (d_runs (snd (run_release_route sample_world sample_services ''r1'' ''a1'' ''l1''
     member_request member_cp))) = [''succeeded'']"
  by code_simp

lemma member_context_status:
  "dget (as_dict (dget member_context ''release'')) ''status'' = PStr ''published''"
  by code_simp

lemma member_refused_by_runtime:
  "validate_runtime_context (runtime_view member_cp) member_context =
     Inl (RuntimeContextError ''user may not run this release'' 403)"
  by code_simp


text \<open>A stopped agent: the control plane refuses its owner, the runtime runs the release for him.\<close>

definition stopped_cp :: cp_db where
  "stopped_cp = member_cp\<lparr>d_agents := [sample_agent_row\<lparr>ag_enabled := False\<rparr>]\<rparr>"

definition owner_context :: "cp_db \<Rightarrow> pydict" where
  "owner_context s = (case build_runtime_context sample_env (runtime_view s) (released_dict member_row)
     (Some ''u1'') (Some ''web'') of Inl e \<Rightarrow> [] | Inr c \<Rightarrow> c)"

lemma stopped_agent_still_runs:
  "agent_is_enabled stopped_cp ''a1'' = Some False \<and>
   fst (resolve_release_access ''a1'' ''l1'' ''u1'' ''web'' stopped_cp) =
     Inl (HTTPException 403 ''agent disabled by the platform'') \<and>
   build_runtime_context sample_env (runtime_view stopped_cp) (released_dict member_row) (Some ''u1'') (Some ''web'') =
     Inr (owner_context stopped_cp) \<and>
   validate_runtime_context (runtime_view stopped_cp) (owner_context stopped_cp) = Inr ()"
proof -
  let ?built = "build_runtime_context sample_env (runtime_view stopped_cp) (released_dict member_row) (Some ''u1'') (Some ''web'')"
  have "\<not> isl ?built" by code_simp
  then have "?built = Inr (owner_context stopped_cp)" by (cases ?built) (simp_all add: owner_context_def)
  moreover have "agent_is_enabled stopped_cp ''a1'' = Some False" by code_simp
  moreover have "(case fst (resolve_release_access ''a1'' ''l1'' ''u1'' ''web'' stopped_cp) of
      Inl e \<Rightarrow> e = HTTPException 403 ''agent disabled by the platform'' | Inr p \<Rightarrow> False)" by code_simp
  moreover have "validate_runtime_context (runtime_view stopped_cp) (owner_context stopped_cp) = Inr ()" by code_simp
  ultimately show ?thesis by (auto split: sum.splits)
qed

text \<open>While it is enabled, its owner is admitted by both.\<close>

lemma owner_admitted:
  "\<not> isl (build_runtime_context sample_env (runtime_view member_cp) (released_dict member_row) (Some ''u1'') (Some ''web''))"
  "\<not> isl (cp_build_runtime_context member_cp member_row (Some ''u1'') (Some ''web''))"
  "\<not> isl (user_tool_scopes member_cp ''u1'')"
  "\<not> isl (fst (resolve_release_access ''a1'' ''l1'' ''u1'' ''web'' member_cp))"
  "snd (resolve_release_access ''a1'' ''l1'' ''u1'' ''web'' member_cp) = member_cp"
  by code_simp+


end
