(* ===== verification/Cp_Provision.thy ===== *)
theory Cp_Provision
  imports Cp_View
begin

text \<open>
  What comes into the platform: the tools a server reports, the tools an owner configures for an agent,
  and the sessions of users.
\<close>

section \<open>Discovered tools\<close>

definition discovered_ok :: "string \<Rightarrow> tool_def \<Rightarrow> bool" where
  "discovered_ok cid t \<longleftrightarrow>
     td_source t = ''mcp'' \<and> td_mcp_connection_id t = Some cid \<and>
     td_requires_approval t = (\<not> td_read_only t) \<and> (td_parallel_safe t \<longrightarrow> td_read_only t)"

text \<open>The id of an entry of a server's listing.\<close>

definition listed_id :: "cp_env \<Rightarrow> string \<Rightarrow> pyval \<Rightarrow> string" where
  "listed_id v cid entry = discovered_id v cid (py_strip (text_or_empty (dget (as_dict entry) ''name'')))"

lemma remote_tool_ok:
  "remote_tool_to_definition v m entry = Inr t \<Longrightarrow>
     discovered_ok (m_id m) t \<and> td_tool_id t = listed_id v (m_id m) entry"
  by (auto simp: remote_tool_to_definition_def discovered_ok_def listed_id_def Let_def
      split: pyval.splits if_splits option.splits)

text \<open>The pages of the server's listing are read to their end, and every entry becomes a definition.\<close>

lemma discovered_listing:
  assumes "discover_tools v env remote m = Inr tools"
  obtains listing where "list_all_tools remote = Inr listing"
    "map td_tool_id tools = map (listed_id v (m_id m)) listing"
    "distinct (map td_tool_id tools)" "\<forall>t \<in> set tools. discovered_ok (m_id m) t"
proof -
  obtain listing where l: "list_all_tools remote = Inr listing"
      "traverse (remote_tool_to_definition v m) listing = Inr tools" "distinct (map td_tool_id tools)"
    using assms by (auto simp: discover_tools_def split: sum.splits if_splits)
  then have rows: "list_all2 (\<lambda>entry t. remote_tool_to_definition v m entry = Inr t) listing tools"
    by (simp add: traverse_Inr_iff)
  have "map td_tool_id tools = map (listed_id v (m_id m)) listing"
    using rows by (induction rule: list_all2_induct) (simp_all add: remote_tool_ok)
  moreover have "\<forall>t \<in> set tools. discovered_ok (m_id m) t"
    using rows by (induction rule: list_all2_induct) (auto dest: remote_tool_ok)
  ultimately show ?thesis using that l by blast
qed

section \<open>Storing them\<close>

definition stored_as :: "cp_env \<Rightarrow> tool_def \<Rightarrow> tool_def \<Rightarrow> bool" where
  "stored_as v t row \<longleftrightarrow> (\<exists>status. row = (tool_row_of v t)\<lparr>td_status := status\<rparr>)"

lemma stored_fields:
  "stored_as v t row \<Longrightarrow> td_tool_id row = td_tool_id t \<and> (discovered_ok cid row \<longleftrightarrow> discovered_ok cid t)"
  by (auto simp: stored_as_def tool_row_of_def discovered_ok_def)

lemma put_tool_rows:
  assumes "put_tool v t True s = Inr u" "row \<in> set (d_tools u)"
  shows "(td_tool_id row \<noteq> td_tool_id t \<and> row \<in> set (d_tools s)) \<or> stored_as v t row"
proof -
  have "stored_as v t (tool_row_of v t)"
    unfolding stored_as_def by (rule exI [of _ "td_status (tool_row_of v t)"]) simp
  with assms show ?thesis
    by (auto simp: put_tool_def put_row_def stored_as_def list_ex_iff split: if_splits)
qed

lemma put_tools_rows:
  assumes "put_tools v ts (Inr s) = Inr u" "row \<in> set (d_tools u)"
  shows "(td_tool_id row \<notin> set (map td_tool_id ts) \<and> row \<in> set (d_tools s)) \<or> (\<exists>t \<in> set ts. stored_as v t row)"
  using assms
proof (induction ts arbitrary: s)
  case (Cons t ts)
  then obtain d where d: "put_tool v t True s = Inr d" "put_tools v ts (Inr d) = Inr u"
    by (cases "put_tool v t True s") simp_all
  from Cons.IH [OF d(2) Cons.prems(2)] put_tool_rows [OF d(1), of row] show ?case by auto
qed simp

definition tool_disabled :: "cp_db \<Rightarrow> string \<Rightarrow> bool" where
  "tool_disabled s t \<longleftrightarrow>
     (\<exists>row \<in> set (d_tools s). td_tool_id row = t) \<and>
     (\<forall>row \<in> set (d_tools s). td_tool_id row = t \<longrightarrow> td_status row = ''disabled'')"

definition tool_states :: "cp_db \<Rightarrow> (string \<times> string) list" where
  "tool_states s = map (\<lambda>r. (td_tool_id r, td_status r)) (d_tools s)"

lemma tool_disabled_alt:
  "tool_disabled s i \<longleftrightarrow> i \<in> fst ` set (tool_states s) \<and> (\<forall>p \<in> set (tool_states s). fst p = i \<longrightarrow> snd p = ''disabled'')"
  by (force simp: tool_disabled_def tool_states_def)

lemma put_tool_states:
  assumes "put_tool v t True s = Inr u"
  shows "tool_states u = tool_states s \<or>
     (td_tool_id t \<notin> fst ` set (tool_states s) \<and> (\<exists>status. tool_states u = tool_states s @ [(td_tool_id t, status)]))"
proof -
  have "td_tool_id (tool_row_of v t) = td_tool_id t" by (simp add: tool_row_of_def)
  with assms show ?thesis
    by (auto simp: put_tool_def put_row_def tool_states_def list_ex_iff split: if_splits)
qed

lemma put_tool_disabled: "put_tool v t True s = Inr u \<Longrightarrow> tool_disabled s i \<Longrightarrow> tool_disabled u i"
proof -
  assume put: "put_tool v t True s = Inr u" and s: "tool_disabled s i"
  from put_tool_states [OF put] show "tool_disabled u i"
  proof
    assume new: "td_tool_id t \<notin> fst ` set (tool_states s) \<and> (\<exists>status. tool_states u = tool_states s @ [(td_tool_id t, status)])"
    then have "i \<noteq> td_tool_id t" using s unfolding tool_disabled_alt by metis
    with new s show ?thesis unfolding tool_disabled_alt by auto
  qed (use s in \<open>simp add: tool_disabled_alt\<close>)
qed

lemma put_tools_disabled: "put_tools v ts (Inr s) = Inr u \<Longrightarrow> tool_disabled s i \<Longrightarrow> tool_disabled u i"
proof (induction ts arbitrary: s)
  case (Cons t ts)
  then show ?case by (cases "put_tool v t True s") (simp_all add: put_tool_disabled)
qed simp

definition vanished :: "string \<Rightarrow> tool_def list \<Rightarrow> tool_def \<Rightarrow> bool" where
  "vanished cid tools row \<longleftrightarrow>
     td_source row = ''mcp'' \<and> td_mcp_connection_id row = Some cid \<and>
     td_tool_id row \<notin> set (map td_tool_id tools) \<and> td_status row \<noteq> ''disabled''"

lemma replaced_tools:
  assumes "replace_discovered_mcp_tools v cid tools s = (Inr ids, t)"
  shows "\<exists>d. put_tools v tools (Inr s) = Inr d \<and>
     d_tools t = update_rows (vanished cid tools) (\<lambda>row. row\<lparr>td_status := ''disabled''\<rparr>) (d_tools d)"
proof -
  have "vanished cid tools = (\<lambda>row. td_source row = ''mcp'' \<and> td_mcp_connection_id row = Some cid \<and>
       td_tool_id row \<notin> set (map td_tool_id tools) \<and> td_status row \<noteq> ''disabled'')"
    by (rule ext) (simp add: vanished_def)
  with assms show ?thesis
    by (auto simp: replace_discovered_mcp_tools_def put_tools_def Let_def split: if_splits sum.splits)
qed

lemma disabled_by_update:
  assumes "d_tools t = update_rows p (\<lambda>row. row\<lparr>td_status := ''disabled''\<rparr>) (d_tools d)" "tool_disabled d i"
  shows "tool_disabled t i"
proof -
  have "map td_tool_id (d_tools t) = map td_tool_id (d_tools d)" by (simp add: assms(1) update_rows_def)
  then have "i \<in> td_tool_id ` set (d_tools t)"
    using assms(2) by (metis (no_types, lifting) tool_disabled_def image_eqI list.set_map)
  then have "\<exists>row \<in> set (d_tools t). td_tool_id row = i" by blast
  moreover have "\<forall>row \<in> set (d_tools t). td_tool_id row = i \<longrightarrow> td_status row = ''disabled''"
    using assms by (auto simp: tool_disabled_def update_rows_def)
  ultimately show ?thesis unfolding tool_disabled_def by blast
qed

lemma discovered_route:
  assumes "discover_route w env remote h cid s = (Inr view, t)"
  shows "\<exists>m tools u ids. m_id m = cid \<and> fetch_mcp_connection u cid = Some m \<and> discover_tools (cw_env w) env remote m = Inr tools \<and> d_tools u = d_tools s \<and>
     replace_discovered_mcp_tools (cw_env w) cid tools u = (Inr ids, t) \<and>
     dv_tool_ids view = sort (map td_tool_id tools)"
proof -
  obtain actor u m tools ids where
    admin: "require_current_platform_admin w h s = (Inr actor, u)"
    and m: "fetch_mcp_connection u cid = Some m" "discover_tools (cw_env w) env remote m = Inr tools"
    and rest: "replace_discovered_mcp_tools (cw_env w) cid tools u = (Inr ids, t)"
      "dv_tool_ids view = sort (map td_tool_id tools)"
    using assms by (auto simp: discover_route_def succeeded split: if_splits)
  have "same_table Tools s u"
    using identity_frame(4) [of w h] admin unfolding steps_def
    by (metis same_exceptD snd_conv singletonD cp_table.distinct(17))
  then have "d_tools u = d_tools s" by simp
  moreover have "m_id m = cid" using m(1) by (auto simp: fetch_mcp_connection_def dest: find_SomeD)
  ultimately show ?thesis using m rest by blast
qed


definition governed_after :: "string \<Rightarrow> string list \<Rightarrow> tool_def \<Rightarrow> bool" where
  "governed_after cid listed row \<longleftrightarrow>
     (td_source row = ''mcp'' \<and> td_mcp_connection_id row = Some cid \<and> td_status row \<noteq> ''disabled'' \<longrightarrow>
        td_tool_id row \<in> set listed \<and> discovered_ok cid row)"

lemma discovery_governed:
  assumes route: "discover_route w env remote h cid s = (Inr view, t)"
  shows "(\<exists>listing. list_all_tools remote = Inr listing \<and>
       dv_tool_ids view = sort (map (listed_id (cw_env w) cid) listing)) \<and>
     distinct (dv_tool_ids view) \<and> list_all (governed_after cid (dv_tool_ids view)) (d_tools t) \<and>
     (tool_disabled s i \<longrightarrow> tool_disabled t i)"
proof -
  obtain m tools u ids where m: "m_id m = cid" and tools: "discover_tools (cw_env w) env remote m = Inr tools"
    and u: "d_tools u = d_tools s" and stored: "replace_discovered_mcp_tools (cw_env w) cid tools u = (Inr ids, t)"
    and view: "dv_tool_ids view = sort (map td_tool_id tools)"
    using discovered_route [OF route] by blast
  obtain d where d: "put_tools (cw_env w) tools (Inr u) = Inr d"
    and t: "d_tools t = update_rows (vanished cid tools) (\<lambda>row. row\<lparr>td_status := ''disabled''\<rparr>) (d_tools d)"
    using replaced_tools [OF stored] by blast
  obtain listing where listing: "list_all_tools remote = Inr listing"
      "map td_tool_id tools = map (listed_id (cw_env w) cid) listing"
    and ok: "distinct (map td_tool_id tools)" "\<forall>tool \<in> set tools. discovered_ok cid tool"
    using discovered_listing [OF tools] m by metis
  have "governed_after cid (dv_tool_ids view) row" if "row \<in> set (d_tools t)" for row
  proof -
    from that t obtain r where r: "r \<in> set (d_tools d)"
      and row: "row = (if vanished cid tools r then r\<lparr>td_status := ''disabled''\<rparr> else r)"
      by (auto simp: update_rows_def)
    have "discovered_ok cid r" if listed: "td_tool_id r \<in> set (map td_tool_id tools)"
    proof -
      from put_tools_rows [OF d r] listed obtain tool where "tool \<in> set tools" "stored_as (cw_env w) tool r" by blast
      with ok(2) show ?thesis using stored_fields by blast
    qed
    then show ?thesis by (auto simp: row governed_after_def view vanished_def)
  qed
  moreover have "tool_disabled s i \<longrightarrow> tool_disabled t i"
  proof
    assume "tool_disabled s i"
    then have "tool_disabled u i" unfolding tool_disabled_def u .
    then have "tool_disabled d i" by (rule put_tools_disabled [OF d])
    then show "tool_disabled t i" by (rule disabled_by_update [OF t])
  qed
  ultimately show ?thesis using ok(1) view listing by (auto simp: list_all_iff)
qed

text \<open>
  C29: A discovery reads the server's listing to its last page, and the ids it reports are exactly those of
  the entries listed, each under an id of its own. After it every discovered tool of the connection
  (a row of source \<open>mcp\<close>) that is not disabled is one of them, needs an approval unless it is
  read-only, and runs in parallel only when it is read-only; a tool an administrator disabled stays
  disabled however often the server lists it, and discovered tools the server no longer lists are
  disabled. Workflow tools that run over the same connection are not discovered tools.
\<close>

theorem discovered_tools_governed:
  assumes "discover_route w env remote h cid s = (Inr view, t)"
  shows "(\<exists>listing. list_all_tools remote = Inr listing \<and>
       dv_tool_ids view = sort (map (listed_id (cw_env w) cid) listing)) \<and>
     distinct (dv_tool_ids view) \<and> list_all (governed_after cid (dv_tool_ids view)) (d_tools t) \<and>
     (tool_disabled s i \<longrightarrow> tool_disabled t i)"
  using assms by (rule discovery_governed)

definition mail_listing :: remote_listing where
  "mail_listing cursor = Inr ([PDict [(''name'', PStr ''get_mail'')], PDict [(''name'', PStr ''send_mail'')]], None)"

lemma mail_discovered:
  "map_sum (\<lambda>e. ()) dv_tool_ids (fst (discover_route sample_world (\<lambda>k. []) mail_listing logged_in ''flows'' workflow_cp)) =
     Inr [''mcp.flows.get_mail'', ''mcp.flows.send_mail'']"
  by code_simp

lemma discovered_tools_governed_witness:
  "list_all (governed_after ''flows'' [''mcp.flows.get_mail'', ''mcp.flows.send_mail''])
     (d_tools (snd (discover_route sample_world (\<lambda>k. []) mail_listing logged_in ''flows'' workflow_cp)))"
proof -
  obtain view where view: "fst (discover_route sample_world (\<lambda>k. []) mail_listing logged_in ''flows'' workflow_cp) = Inr view"
    "dv_tool_ids view = [''mcp.flows.get_mail'', ''mcp.flows.send_mail'']"
    using mail_discovered by (cases "fst (discover_route sample_world (\<lambda>k. []) mail_listing logged_in ''flows'' workflow_cp)") simp_all
  then have "discover_route sample_world (\<lambda>k. []) mail_listing logged_in ''flows'' workflow_cp =
      (Inr view, snd (discover_route sample_world (\<lambda>k. []) mail_listing logged_in ''flows'' workflow_cp))"
    by (metis prod.collapse)
  from discovered_tools_governed [OF this] view(2) show ?thesis by simp
qed


section \<open>Configured tools\<close>

definition scopes_within :: "(string \<times> scope) list \<Rightarrow> (string \<times> scope) list \<Rightarrow> bool" where
  "scopes_within scopes grants \<longleftrightarrow>
     (\<forall>(t, sc) \<in> set scopes. \<exists>g. map_of grants t = Some g \<and> (\<forall>k. scope_values sc k \<subseteq> scope_values g k))"

lemma traverse_member: "traverse f xs = Inr ys \<Longrightarrow> x \<in> set xs \<Longrightarrow> \<exists>y. f x = Inr y"
  by (induction xs arbitrary: ys) (auto split: sum.splits)

lemma within_grants_spec:
  assumes "within_grants scopes grants = Inr y" "\<forall>(t, sc) \<in> set scopes. distinct (map fst sc)"
  shows "scopes_within scopes grants"
  unfolding scopes_within_def
proof (clarify)
  fix t sc
  assume member: "(t, sc) \<in> set scopes"
  have configured: "set (map fst scopes) \<subseteq> set (map fst grants)"
    using assms(1) by (auto simp: within_grants_def validate_configured_iff split: sum.splits)
  moreover have "t \<in> set (map fst scopes)" using member by (auto intro: rev_image_eqI)
  ultimately have "t \<in> fst ` set grants" by auto
  then have "map_of grants t \<noteq> None" by (simp add: map_of_eq_None_iff)
  then obtain g where g: "map_of grants t = Some g" by blast
  obtain ys where "traverse (\<lambda>(t, s). validate_tool_scope_subset t (scope_val s)
      (case map_of grants t of None \<Rightarrow> PNone | Some g \<Rightarrow> scope_val g)) scopes = Inr ys"
    using assms(1) by (auto simp: within_grants_def split: sum.splits)
  from traverse_member [OF this member]
  have "\<exists>u. validate_tool_scope_subset t (scope_val sc) (scope_val g) = Inr u" by (simp add: g)
  then have "\<forall>k. scope_values sc k \<subseteq> scope_values g k"
    using validate_subset_iff [of sc t g] assms(2) member by auto
  with g show "\<exists>g. map_of grants t = Some g \<and> (\<forall>k. scope_values sc k \<subseteq> scope_values g k)" by blast
qed

lemma merged_distinct:
  assumes "authz_merge_tool_scopes rows = Inr merged"
  shows "\<forall>(t, sc) \<in> set merged. distinct (map fst sc)"
proof -
  have "distinct (map fst (sorted_items d))" for d :: "(string \<times> string list) list"
    by (simp add: sorted_items_def o_def)
  then have "distinct (map fst (map (\<lambda>(k, vs). (k, sorted_set vs)) (sorted_items d)))" for d :: scope
    by (simp add: o_def split_beta)
  then show ?thesis using assms
    by (auto simp: authz_merge_tool_scopes_def split: sum.splits)
qed


lemma denied_Inr_iff: "denied a u m s = (Inr x, t) \<longleftrightarrow> m s = (Inr x, t)"
  by (auto simp: denied_def handle_def andthen_def chain_def record_permission_event_def
      split: prod.splits sum.splits cp_error.splits)

lemma no_tools_requested: "normalize_agent_tool_request r = Inr [] \<Longrightarrow> requested_ids (aq_tools r) = []"
  unfolding normalize_agent_tool_request_def by (drule merge_rows_tools) (simp add: requested_ids_def)

lemma saved_tools:
  assumes "save_agent v a r snapshot scopes s = (Inr y, t)" "normalize_agent_tool_request r = Inr scopes"
  shows "d_agent_tools t = d_agent_tools s @ agent_tool_rows a scopes"
  using assms no_tools_requested [of r]
  by (cases scopes) (auto simp: save_agent_def transaction_Inr_iff Let_def unique_def split: if_splits)

definition configured_ok :: "cp_db \<Rightarrow> string \<Rightarrow> (string \<times> scope) list \<Rightarrow> bool" where
  "configured_ok s owner scopes \<longleftrightarrow>
     (\<exists>grants. user_tool_scopes s owner = Inr grants \<and> scopes_within scopes grants) \<and>
     (\<forall>(t, sc) \<in> set scopes. tool_live s t \<and> role_grants s owner t)"

lemma configured_okI:
  assumes normalized: "normalize_agent_tool_request r = Inr scopes"
    and active: "set (cp_active_tool_ids s (map fst scopes)) = set (map fst scopes)"
    and grants: "user_tool_scopes s owner = Inr grants" and "within_grants scopes grants = Inr y"
  shows "configured_ok s owner scopes"
proof -
  have within: "scopes_within scopes grants"
    using within_grants_spec [OF assms(4)] merged_distinct [OF normalized [unfolded normalize_agent_tool_request_def]]
    by blast
  have "tool_live s t \<and> role_grants s owner t" if member: "(t, sc) \<in> set scopes" for t sc
  proof
    have "t \<in> set (map fst scopes)" using member by (auto intro: rev_image_eqI)
    then show "tool_live s t" using active cp_active_iff by blast
    from within member obtain g where "map_of grants t = Some g" by (auto simp: scopes_within_def)
    then have "(t, g) \<in> set grants" by (rule map_of_SomeD)
    then have "t \<in> set (map fst grants)" by (auto intro: rev_image_eqI)
    then show "role_grants s owner t" using granted_iff [OF grants] by blast
  qed
  with within grants show ?thesis by (auto simp: configured_ok_def)
qed

text \<open>What a request asks for: the scopes of the entries for the same tool are united.\<close>

fun requested_scope :: "requested_tool \<Rightarrow> string \<times> scope" where
  "requested_scope (ToolName t) = (t, [])"
| "requested_scope (ToolConfig t sc) = (t, sc)"

definition dict_scopes :: "agent_config_request \<Rightarrow> bool" where
  "dict_scopes r \<longleftrightarrow> (\<forall>(t, sc) \<in> set (map requested_scope (aq_tools r)). distinct (map fst sc))"

definition as_requested :: "agent_config_request \<Rightarrow> (string \<times> scope) list \<Rightarrow> bool" where
  "as_requested r scopes \<longleftrightarrow>
     map fst scopes = sorted_set (requested_ids (aq_tools r)) \<and>
     (\<forall>t k. tool_values scopes t k =
        (\<Union>(u, sc) \<in> set (map requested_scope (aq_tools r)). if t = u then scope_values sc k else {}))"

lemma normalized_as_requested:
  assumes "normalize_agent_tool_request r = Inr scopes" "dict_scopes r"
  shows "as_requested r scopes"
proof -
  have rows: "map requested_row ts = map (\<lambda>(t, sc). (t, scope_val sc)) (map requested_scope ts)" for ts
  proof (induction ts)
    case (Cons x ts)
    then show ?case by (cases x) (simp_all add: scope_val_def)
  qed simp
  have ids: "map fst (map requested_scope ts) = requested_ids ts" for ts
  proof (induction ts)
    case (Cons x ts)
    then show ?case by (cases x) (simp_all add: requested_ids_def)
  qed (simp add: requested_ids_def)
  from merge_is_union [OF assms(2) [unfolded dict_scopes_def]] obtain m where
    m: "merge_tool_scopes (map (\<lambda>(t, sc). (t, scope_val sc)) (map requested_scope (aq_tools r))) = Inr m"
      "\<forall>t k. tool_values m t k =
        (\<Union>(u, sc) \<in> set (map requested_scope (aq_tools r)). if t = u then scope_values sc k else {})"
      "map fst m = sorted_set (map fst (map requested_scope (aq_tools r)))"
    by blast
  have "scopes = m"
    using assms(1) m(1) unfolding normalize_agent_tool_request_def authz_merge_eq rows by simp
  then show ?thesis using m(2,3) unfolding as_requested_def ids by blast
qed

lemma identity_keeps:
  "same_except {Users} s v \<Longrightarrow> d_agent_tools v = d_agent_tools s \<and> d_agents v = d_agents s"
  using same_exceptD [of "{Users}" s v Agent_Tools] same_exceptD [of "{Users}" s v Agents] by simp

lemma created_agent:
  assumes "create_agent_route w a h r s = (Inr y, t)"
  shows "\<exists>u v scopes. current_user_id w h s = (Inr u, v) \<and> (u = aq_user_id r \<or> has_role v u PLATFORM_ADMIN_ROLE) \<and>
     user_active v (aq_user_id r) \<and> normalize_agent_tool_request r = Inr scopes \<and> configured_ok v (aq_user_id r) scopes \<and>
     d_agent_tools t = d_agent_tools v @ agent_tool_rows a scopes"
proof -
  obtain scopes u v grants where normalized: "normalize_agent_tool_request r = Inr scopes"
    and u: "current_user_id w h s = (Inr u, v)" "u = aq_user_id r \<or> has_role v u PLATFORM_ADMIN_ROLE"
      "user_active v (aq_user_id r)"
    and tools: "set (cp_active_tool_ids v (map fst scopes)) = set (map fst scopes)"
      "user_tool_scopes v (aq_user_id r) = Inr grants" "within_grants scopes grants = Inr ()"
    and saved: "save_agent (cw_env w) a r (map fst grants) scopes v = (Inr (), t)"
    using assms unfolding create_agent_route_def
    by (auto simp only: succeeded denied_Inr_iff split: if_splits) (auto split: if_splits)
  from configured_okI [OF normalized tools] saved_tools [OF saved normalized] u normalized show ?thesis by blast
qed


lemma updated_tools:
  assumes "save_agent_update a r snapshot scopes actor s = (Inr y, t)"
  shows "d_agent_tools t = filter (\<lambda>row. at_agent_id row \<noteq> a) (d_agent_tools s) @ agent_tool_rows a scopes"
  using assms by (auto simp: save_agent_update_def transaction_Inr_iff Let_def split: if_splits)

lemma event_tools: "record_permission_event a u kind detail s = (Inr y, t) \<Longrightarrow> d_agent_tools t = d_agent_tools s"
  by (auto simp: record_permission_event_def)

lemma require_manager_Inr_iff:
  "require_agent_manager u agent s = (Inr y, t) \<longleftrightarrow> can_manage_agent s u agent \<and> t = s"
  by (auto simp: require_agent_manager_def succeeded split: if_splits)

lemma updated_agent_configured:
  assumes "update_agent_route w h a r s = (Inr y, t)"
  shows "\<exists>v row scopes. same_except {Users} s v \<and> row \<in> set (d_agents v) \<and> ag_id row = a \<and>
     normalize_agent_tool_request r = Inr scopes \<and> configured_ok v (ag_owner_user_id row) scopes \<and>
     d_agent_tools t = filter (\<lambda>row. at_agent_id row \<noteq> a) (d_agent_tools v) @ agent_tool_rows a scopes"
proof -
  obtain scopes u v agent grants r' t' z g k where normalized: "normalize_agent_tool_request r = Inr scopes"
    and u: "require_current_actor w h (aq_user_id r) s = (Inr u, v)" "load_agent v a = Some agent"
    and tools: "set (cp_active_tool_ids v (map fst scopes)) = set (map fst scopes)"
      "user_tool_scopes v (get_text agent ''owner_user_id'') = Inr grants" "within_grants scopes grants = Inr g"
    and saved: "save_agent_update a r' (map fst grants) scopes u v = (Inr k, t')"
      "record_permission_event (Some a) u ''agent_updated'' ''draft configuration'' t' = (Inr z, t)"
    using assms unfolding update_agent_route_def Let_def
    by (auto simp only: succeeded denied_Inr_iff require_agent_Inr_iff require_manager_Inr_iff)
  obtain row where row: "row \<in> set (d_agents v)" "ag_id row = a" "agent = agent_dict v row"
    using u(2) by (auto simp: load_agent_def dest: find_SomeD)
  then have "get_text agent ''owner_user_id'' = ag_owner_user_id row"
    by (simp add: agent_dict_def Let_def get_text_def)
  with configured_okI [OF normalized tools] updated_tools [OF saved(1)] event_tools [OF saved(2)] row
    current_actor_identified [OF u(1)] normalized
  show ?thesis by auto
qed

text \<open>
  C21: When an agent is created or its draft edited, its tools become exactly those the request names, each with
  the united scope the request gives it, and each of them is active together with its connection, granted
  by an active role to the agent's owner (the user the new agent is for; on an edit the stored owner,
  whoever edits), and configured with a scope within the owner's grants for that tool. The tools of
  other agents stay. (The scopes of a request are JSON objects, whose keys are distinct.)
\<close>

theorem agent_tools_within_grants:
  assumes "create_agent_route w a h r s = (Inr x, t) \<or> update_agent_route w h a r s = (Inr y, t)" "dict_scopes r"
  shows "\<exists>v scopes. same_except {Users} s v \<and> as_requested r scopes \<and>
     (if create_agent_route w a h r s = (Inr x, t)
      then configured_ok v (aq_user_id r) scopes \<and>
        d_agent_tools t = d_agent_tools s @ agent_tool_rows a scopes
      else \<exists>row \<in> set (d_agents s). ag_id row = a \<and> configured_ok v (ag_owner_user_id row) scopes \<and>
        d_agent_tools t = filter (\<lambda>row. at_agent_id row \<noteq> a) (d_agent_tools s) @ agent_tool_rows a scopes)"
proof (cases "create_agent_route w a h r s = (Inr x, t)")
  case True
  from created_agent [OF True] obtain u v scopes where
    v: "current_user_id w h s = (Inr u, v)" "normalize_agent_tool_request r = Inr scopes"
      "configured_ok v (aq_user_id r) scopes" "d_agent_tools t = d_agent_tools v @ agent_tool_rows a scopes"
    by blast
  have "same_except {Users} s v" using v(1) current_user_identified by blast
  with identity_keeps [OF this] v normalized_as_requested [OF v(2) assms(2)] True show ?thesis by auto
next
  case False
  then have "update_agent_route w h a r s = (Inr y, t)" using assms(1) by blast
  from updated_agent_configured [OF this] obtain v row scopes where
    v: "same_except {Users} s v" "row \<in> set (d_agents v)" "ag_id row = a" "normalize_agent_tool_request r = Inr scopes"
      "configured_ok v (ag_owner_user_id row) scopes"
      "d_agent_tools t = filter (\<lambda>row. at_agent_id row \<noteq> a) (d_agent_tools v) @ agent_tool_rows a scopes"
    by blast
  with identity_keeps [OF v(1)] normalized_as_requested [OF v(4) assms(2)] False show ?thesis by auto
qed

definition desk_request :: agent_config_request where
  "desk_request =
     \<lparr>aq_user_id = ''u1'', aq_name = ''desk two'', aq_icon = ''robot'', aq_visibility = ''private'',
      aq_members = [], aq_system_prompt = ''help'', aq_model = None,
      aq_tools = [ToolConfig ''calculator'' [(''actions'', [''calculate''])]], aq_channels = [''web'']\<rparr>"

definition desk_cp :: cp_db where
  "desk_cp = sample_cp\<lparr>d_sessions := [\<lparr>se_token_hash = ''tok'', se_user_id = ''u1'', se_revoked_at = None\<rparr>]\<rparr>"

lemma desk_created:
  "map_sum (\<lambda>e. ()) id (fst (create_agent_route sample_world ''a2'' logged_in desk_request desk_cp)) =
     Inr (''a2'', [''calculator''])"
  by code_simp

lemma agent_tools_within_grants_witness:
  "\<exists>v scopes. same_except {Users} desk_cp v \<and> map fst scopes = [''calculator''] \<and> configured_ok v ''u1'' scopes \<and>
     d_agent_tools (snd (create_agent_route sample_world ''a2'' logged_in desk_request desk_cp)) =
       d_agent_tools desk_cp @ agent_tool_rows ''a2'' scopes"
proof -
  have "create_agent_route sample_world ''a2'' logged_in desk_request desk_cp =
      (Inr (''a2'', [''calculator'']), snd (create_agent_route sample_world ''a2'' logged_in desk_request desk_cp))"
    using desk_created
    by (cases "fst (create_agent_route sample_world ''a2'' logged_in desk_request desk_cp)") (auto simp: prod_eq_iff)
  moreover have "dict_scopes desk_request" by (simp add: dict_scopes_def desk_request_def)
  moreover have "sorted_set (requested_ids (aq_tools desk_request)) = [''calculator'']" "aq_user_id desk_request = ''u1''"
    by code_simp+
  ultimately show ?thesis
    using agent_tools_within_grants [OF disjI1, of sample_world "''a2''" logged_in desk_request desk_cp
        "(''a2'', [''calculator''])" "snd (create_agent_route sample_world ''a2'' logged_in desk_request desk_cp)"]
    unfolding as_requested_def by (metis (no_types, lifting))
qed


section \<open>Sessions\<close>

definition dead_token :: "string \<Rightarrow> cp_db \<Rightarrow> bool" where
  "dead_token h s \<longleftrightarrow>
     (\<exists>r \<in> set (d_sessions s). se_token_hash r = h) \<and>
     (\<forall>r \<in> set (d_sessions s). se_token_hash r = h \<longrightarrow> se_revoked_at r \<noteq> None)"

lemma same_sessions_dead: "same_table User_Sessions s t \<Longrightarrow> dead_token h s \<Longrightarrow> dead_token h t"
  by (simp add: dead_token_def)

lemma other_tables_dead: "steps (same_except T) m \<Longrightarrow> User_Sessions \<notin> T \<Longrightarrow> steps (keeping (dead_token h)) m"
  unfolding steps_def by (blast dest: same_exceptD intro: same_sessions_dead)

lemma create_session_dead: "steps (keeping (dead_token h)) (create_user_session v token u)"
  unfolding create_user_session_def
  by (rule keep.transaction_steps) (auto simp: dead_token_def list_ex_iff split: if_splits, blast)

lemma revoked_rows:
  assumes "t = s\<lparr>d_sessions := update_rows p (\<lambda>r. r\<lparr>se_revoked_at := Some k\<rparr>) (d_sessions s)\<rparr>"
  shows "map se_token_hash (d_sessions t) = map se_token_hash (d_sessions s)"
    and "r \<in> set (d_sessions t) \<Longrightarrow> r \<in> set (d_sessions s) \<and> \<not> p r \<or> se_revoked_at r \<noteq> None"
  using assms by (auto simp: update_rows_def)

lemma revoke_session_dead: "steps (keeping (dead_token h)) (revoke_user_session v token)"
  unfolding revoke_user_session_def
proof (rule keep.modify_steps, rule impI)
  fix s :: cp_db
  let ?t = "s\<lparr>d_sessions := update_rows (\<lambda>s. se_token_hash s = hash_session_token v token \<and> se_revoked_at s = None)
          (\<lambda>s. s\<lparr>se_revoked_at := Some (cv_now v)\<rparr>) (d_sessions s)\<rparr>"
  assume dead: "dead_token h s"
  have "h \<in> set (map se_token_hash (d_sessions ?t))"
    using dead unfolding revoked_rows(1) [OF refl] by (auto simp: dead_token_def)
  moreover have "\<forall>r \<in> set (d_sessions ?t). se_token_hash r = h \<longrightarrow> se_revoked_at r \<noteq> None"
    using dead revoked_rows(2) [OF refl] unfolding dead_token_def by blast
  ultimately show "dead_token h ?t" unfolding dead_token_def by auto
qed

lemma serve_dead: "User_Sessions \<in> writes rq \<Longrightarrow> steps (keeping (dead_token h)) (serve w sv rq)"
proof -
  have "steps (keeping (dead_token h)) (login_route w token u)" for token u
    unfolding login_route_def
    by (intro keep.action_steps create_session_dead other_tables_dead [OF guards_frame(2)]; simp)
  moreover have "steps (keeping (dead_token h)) (logout_route w head)" for head
    unfolding logout_route_def by (intro keep.action_steps revoke_session_dead)
  ultimately show "User_Sessions \<in> writes rq \<Longrightarrow> steps (keeping (dead_token h)) (serve w sv rq)"
    by (cases rq) (simp_all add: quietly_def keep.chain_steps keep.give_steps)
qed

lemma dead_later: "cp_later s t \<Longrightarrow> dead_token h s \<Longrightarrow> dead_token h t"
  using table_evolves [where x = User_Sessions and R = "keeping (dead_token h)", OF keep.evolution_axioms _ serve_dead]
    same_sessions_dead by blast

lemma dead_resolves: "dead_token (hash_session_token v token) s \<Longrightarrow> get_session_user v s token = None"
  by (auto simp: dead_token_def get_session_user_def find_None_iff)

lemma logout_kills:
  assumes "cc_auth_mode (cw_config w) = ''local''" "extract_bearer_token head = Inr token"
    and alive: "get_session_user (cw_env w) s token = Some u"
  shows "dead_token (hash_session_token (cw_env w) token) (snd (serve w sv (Logout head) s))"
proof -
  let ?t = "s\<lparr>d_sessions := update_rows (\<lambda>r. se_token_hash r = hash_session_token (cw_env w) token \<and> se_revoked_at r = None)
          (\<lambda>r. r\<lparr>se_revoked_at := Some (cv_now (cw_env w))\<rparr>) (d_sessions s)\<rparr>"
  have t: "snd (serve w sv (Logout head) s) = ?t"
    using assms(1,2)
    by (simp add: logout_route_def snd_wrapped bearer_token_def revoke_user_session_def chain_def)
  obtain r where "r \<in> set (d_sessions s)" "se_token_hash r = hash_session_token (cw_env w) token"
    using alive by (auto simp: get_session_user_def dest: find_SomeD)
  then have "hash_session_token (cw_env w) token \<in> set (map se_token_hash (d_sessions ?t))"
    unfolding revoked_rows(1) [OF refl] by (auto intro: rev_image_eqI)
  moreover have "\<forall>r \<in> set (d_sessions ?t). se_token_hash r = hash_session_token (cw_env w) token \<longrightarrow> se_revoked_at r \<noteq> None"
    by (auto simp: update_rows_def)
  ultimately show ?thesis unfolding t dead_token_def by auto
qed

text \<open>
  C30: A logout is final: after the session of a token is revoked, no later request makes the token
  identify anybody again, whoever logs in or is re-enabled meanwhile.
\<close>

theorem logout_is_final:
  assumes "cc_auth_mode (cw_config w) = ''local''" "extract_bearer_token head = Inr token"
    and "get_session_user (cw_env w) s token = Some u" "cp_later (snd (serve w sv (Logout head) s)) t"
  shows "\<not> identified w head t v"
  using dead_resolves [OF dead_later [OF assms(4) logout_kills [OF assms(1-3)]]] assms(1,2)
  by (simp add: identified_def)

lemma desk_session:
  "extract_bearer_token logged_in = Inr ''tok''"
  "get_session_user (cw_env sample_world) desk_cp ''tok'' = Some ''u1''"
  by code_simp+

lemma logout_is_final_witness:
  "\<not> identified sample_world logged_in
     (play [Login ''tok'' ''u1''] (snd (serve sample_world sample_services (Logout logged_in) desk_cp))) ''u1''"
  by (rule logout_is_final [OF _ desk_session play_later]) (simp add: sample_world_def)

text \<open>
  Every request changes only the tables of its kind: whatever it carries and whatever the services
  answer, a table outside \<open>writes\<close> is left exactly as it was. In particular listings write
  nothing (but the entry of a user who logs in for the first time), and a run writes runs, their
  audit trail, tool calls and permission events only.
\<close>

theorem requests_stay_in_their_tables:
  "same_except (writes rq) s (snd (serve w sv rq s))"
  using serve_frame by (simp add: steps_def)

end
